(* ===== verification/Prelude.thy ===== *)
theory Prelude
  imports Main "HOL-Library.AList"
begin

text \<open>
  Shared vocabulary of the development: results with errors as values, a state-passing
  combinator for code with side effects, and generic facts on lists and on dictionaries
  kept as association lists in insertion order (the order Python's \<open>dict\<close> keeps).
\<close>

named_theorems result_simps \<open>inversion of results and effectful programs\<close>
named_theorems eval_simps \<open>evaluation of texts and addresses on concrete inputs\<close>
named_theorems dict_simps \<open>lookups after an update or a deletion\<close>

section \<open>Results: an error or a value\<close>

type_synonym ('e, 'a) result = "'e + 'a"

fun bindR :: "('e, 'a) result \<Rightarrow> ('a \<Rightarrow> ('e, 'b) result) \<Rightarrow> ('e, 'b) result" where
  "bindR (Inl e) f = Inl e"
| "bindR (Inr x) f = f x"

fun traverseR :: "('a \<Rightarrow> ('e, 'b) result) \<Rightarrow> 'a list \<Rightarrow> ('e, 'b list) result" where
  "traverseR f [] = Inr []"
| "traverseR f (x # xs) = bindR (f x) (\<lambda>y. bindR (traverseR f xs) (\<lambda>ys. Inr (y # ys)))"

fun foldR :: "('s \<Rightarrow> 'a \<Rightarrow> ('e, 's) result) \<Rightarrow> 's \<Rightarrow> 'a list \<Rightarrow> ('e, 's) result" where
  "foldR f s [] = Inr s"
| "foldR f s (x # xs) = bindR (f s x) (\<lambda>s'. foldR f s' xs)"

definition requireR :: "bool \<Rightarrow> 'e \<Rightarrow> ('e, unit) result" where
  "requireR b e = (if b then Inr () else Inl e)"

definition optionR :: "'e \<Rightarrow> 'a option \<Rightarrow> ('e, 'a) result" where
  "optionR e r = (case r of None \<Rightarrow> Inl e | Some x \<Rightarrow> Inr x)"

lemma bindR_Inr_iff [result_simps]:
  "bindR m f = Inr y \<longleftrightarrow> (\<exists>x. m = Inr x \<and> f x = Inr y)"
  by (cases m) auto

lemma bindR_Inl_iff [result_simps]:
  "bindR m f = Inl e \<longleftrightarrow> m = Inl e \<or> (\<exists>x. m = Inr x \<and> f x = Inl e)"
  by (cases m) auto

lemma requireR_Inr [result_simps]: "requireR b e = Inr u \<longleftrightarrow> b"
  by (simp add: requireR_def)

lemma requireR_Inl [result_simps]: "requireR b e = Inl e' \<longleftrightarrow> \<not> b \<and> e' = e"
  by (auto simp: requireR_def)

lemma optionR_Inr [result_simps]: "optionR e r = Inr x \<longleftrightarrow> r = Some x"
  by (auto simp: optionR_def split: option.splits)

lemma optionR_Inl [result_simps]: "optionR e r = Inl e' \<longleftrightarrow> r = None \<and> e' = e"
  by (auto simp: optionR_def split: option.splits)

lemma traverseR_Inr_iff:
  "traverseR f xs = Inr ys \<longleftrightarrow> list_all2 (\<lambda>x y. f x = Inr y) xs ys"
proof (induction xs arbitrary: ys)
  case Nil
  then show ?case by auto
next
  case (Cons x xs)
  then show ?case by (cases ys) (auto simp: result_simps list_all2_Cons1)
qed

lemma traverseR_left: "traverseR f xs = Inr ys \<Longrightarrow> x \<in> set xs \<Longrightarrow> \<exists>y \<in> set ys. f x = Inr y"
  by (induction xs arbitrary: ys) (auto simp: result_simps)

lemma traverseR_right: "traverseR f xs = Inr ys \<Longrightarrow> y \<in> set ys \<Longrightarrow> \<exists>x \<in> set xs. f x = Inr y"
  by (induction xs arbitrary: ys) (auto simp: result_simps)

lemma traverseR_map:
  "(\<And>x. x \<in> set xs \<Longrightarrow> f x = Inr (g x)) \<Longrightarrow> traverseR f xs = Inr (map g xs)"
  by (induction xs) auto

lemma traverseR_Inl:
  "traverseR f xs = Inl e \<Longrightarrow> \<exists>x \<in> set xs. f x = Inl e"
  by (induction xs) (auto simp: result_simps)

lemma foldR_append:
  "foldR f s (xs @ ys) = bindR (foldR f s xs) (\<lambda>s'. foldR f s' ys)"
proof (induction xs arbitrary: s)
  case Nil
  then show ?case by simp
next
  case (Cons x xs)
  then show ?case by (cases "f s x") simp_all
qed

lemma foldR_invariant:
  assumes "foldR f s xs = Inr s'" and "I s"
    and "\<And>s x t. x \<in> set xs \<Longrightarrow> I s \<Longrightarrow> f s x = Inr t \<Longrightarrow> I t"
  shows "I s'"
  using assms
proof (induction xs arbitrary: s)
  case Nil
  then show ?case by simp
next
  case (Cons x xs)
  from Cons.prems(1) obtain t where t: "f s x = Inr t" "foldR f t xs = Inr s'"
    by (auto simp: result_simps)
  have "I t" using Cons.prems(2,3) t(1) by auto
  then show ?case using Cons.IH [OF t(2)] Cons.prems(3) by auto
qed

section \<open>Effectful programs\<close>

text \<open>
  A program takes the state and returns an outcome with the state it leaves behind: an
  exception does not undo the effects that came before it, as in the source.
\<close>

type_synonym ('s, 'e, 'a) prog = "'s \<Rightarrow> ('e, 'a) result \<times> 's"

definition retP :: "'a \<Rightarrow> ('s, 'e, 'a) prog" where
  "retP x = (\<lambda>s. (Inr x, s))"

definition raiseP :: "'e \<Rightarrow> ('s, 'e, 'a) prog" where
  "raiseP e = (\<lambda>s. (Inl e, s))"

definition bindP :: "('s, 'e, 'a) prog \<Rightarrow> ('a \<Rightarrow> ('s, 'e, 'b) prog) \<Rightarrow> ('s, 'e, 'b) prog" where
  "bindP m f = (\<lambda>s. case m s of (Inl e, s') \<Rightarrow> (Inl e, s') | (Inr x, s') \<Rightarrow> f x s')"

definition getsP :: "('s \<Rightarrow> ('e, 'a) result) \<Rightarrow> ('s, 'e, 'a) prog" where
  "getsP f = (\<lambda>s. (f s, s))"

definition modifyP :: "('s \<Rightarrow> 's) \<Rightarrow> ('s, 'e, unit) prog" where
  "modifyP f = (\<lambda>s. (Inr (), f s))"

fun forP :: "('a \<Rightarrow> ('s, 'e, unit) prog) \<Rightarrow> 'a list \<Rightarrow> ('s, 'e, unit) prog" where
  "forP f [] = retP ()"
| "forP f (x # xs) = bindP (f x) (\<lambda>_. forP f xs)"

lemma retP_apply [simp]: "retP x s = (Inr x, s)"
  by (simp add: retP_def)

lemma raiseP_apply [simp]: "raiseP e s = (Inl e, s)"
  by (simp add: raiseP_def)

lemma getsP_apply [simp]: "getsP f s = (f s, s)"
  by (simp add: getsP_def)

lemma modifyP_apply [simp]: "modifyP f s = (Inr (), f s)"
  by (simp add: modifyP_def)

lemma bindP_Inl [simp]: "m s = (Inl e, s') \<Longrightarrow> bindP m f s = (Inl e, s')"
  by (simp add: bindP_def)

lemma bindP_Inr [simp]: "m s = (Inr x, s') \<Longrightarrow> bindP m f s = f x s'"
  by (simp add: bindP_def)

lemma bindP_Inr_iff [result_simps]:
  "bindP m f s = (Inr y, t) \<longleftrightarrow> (\<exists>x s'. m s = (Inr x, s') \<and> f x s' = (Inr y, t))"
  by (auto simp: bindP_def split: prod.splits sum.splits)

lemma bindP_Inl_iff [result_simps]:
  "bindP m f s = (Inl e, t) \<longleftrightarrow>
     m s = (Inl e, t) \<or> (\<exists>x s'. m s = (Inr x, s') \<and> f x s' = (Inl e, t))"
  by (auto simp: bindP_def split: prod.splits sum.splits)

lemma bindP_assoc: "bindP (bindP m f) g = bindP m (\<lambda>x. bindP (f x) g)"
  by (rule ext) (simp add: bindP_def split: prod.splits sum.splits)

lemma bindP_retP [simp]: "bindP m retP = m"
  by (rule ext) (simp add: bindP_def split: prod.splits sum.splits)

lemma bindP_getsP [simp]:
  "bindP (getsP g) f s = (case g s of Inl e \<Rightarrow> (Inl e, s) | Inr x \<Rightarrow> f x s)"
  by (simp add: bindP_def split: sum.splits)

text \<open>A predicate that every step keeps, whatever the outcome, holds at the end.\<close>

lemma bindP_preserves:
  assumes "\<And>s r s'. I s \<Longrightarrow> m s = (r, s') \<Longrightarrow> I s'"
    and "\<And>x s r s'. I s \<Longrightarrow> f x s = (r, s') \<Longrightarrow> I s'"
    and "I s" and "bindP m f s = (r, t)"
  shows "I t"
proof -
  obtain q s1 where q: "m s = (q, s1)" by (cases "m s")
  have I1: "I s1" using assms(1) [OF assms(3) q] .
  show ?thesis
  proof (cases q)
    case (Inl e)
    then show ?thesis using assms(4) q I1 by simp
  next
    case (Inr x)
    then show ?thesis using assms(2) [OF I1] assms(4) q by simp
  qed
qed

lemma forP_preserves:
  assumes "\<And>x s r s'. x \<in> set xs \<Longrightarrow> I s \<Longrightarrow> f x s = (r, s') \<Longrightarrow> I s'"
    and "I s" and "forP f xs s = (r, t)"
  shows "I t"
  using assms
proof (induction xs arbitrary: s)
  case Nil
  then show ?case by simp
next
  case (Cons x xs)
  obtain q s1 where q: "f x s = (q, s1)" by (cases "f x s")
  have I1: "I s1" using Cons.prems(1) [of x s q s1] Cons.prems(2) q by simp
  show ?case
  proof (cases q)
    case (Inl e)
    then show ?thesis using Cons.prems(3) q I1 by simp
  next
    case (Inr u)
    then have "forP f xs s1 = (r, t)" using Cons.prems(3) q by simp
    moreover have "\<And>y s r s'. y \<in> set xs \<Longrightarrow> I s \<Longrightarrow> f y s = (r, s') \<Longrightarrow> I s'"
      using Cons.prems(1) by (meson list.set_intros(2))
    ultimately show ?thesis using Cons.IH I1 by blast
  qed
qed

text \<open>A loop that collects the outcome of each step.\<close>

fun mapP :: "('a \<Rightarrow> ('s, 'e, 'b) prog) \<Rightarrow> 'a list \<Rightarrow> ('s, 'e, 'b list) prog" where
  "mapP f [] = retP []"
| "mapP f (x # xs) = bindP (f x) (\<lambda>y. bindP (mapP f xs) (\<lambda>ys. retP (y # ys)))"

lemma mapP_length: "mapP f xs s = (Inr ys, t) \<Longrightarrow> length ys = length xs"
  by (induction xs arbitrary: s ys) (auto simp: result_simps)

lemma mapP_preserves:
  assumes "\<And>x s r s'. x \<in> set xs \<Longrightarrow> I s \<Longrightarrow> f x s = (r, s') \<Longrightarrow> I s'"
    and "I s" and "mapP f xs s = (r, t)"
  shows "I t"
  using assms
proof (induction xs arbitrary: s r t)
  case Nil
  then show ?case by simp
next
  case (Cons x xs)
  obtain r1 s1 where 1: "f x s = (r1, s1)" by fastforce
  have I1: "I s1" by (rule Cons.prems(1) [OF _ Cons.prems(2) 1]) simp
  obtain r2 s2 where 2: "mapP f xs s1 = (r2, s2)" by fastforce
  have I2: "I s2" by (rule Cons.IH [OF _ I1 2]) (use Cons.prems(1) in \<open>meson list.set_intros(2)\<close>)
  show ?case using Cons.prems(3) 1 2 I1 I2 by (cases r1; cases r2) (auto simp: bindP_def)
qed

text \<open>
  What a good step achieves and every later step keeps holds for all elements at the end.
\<close>

lemma mapP_achieves:
  assumes "\<And>x s y s'. x \<in> set xs \<Longrightarrow> f x s = (Inr y, s') \<Longrightarrow> good x y \<Longrightarrow> Q x s'"
    and "\<And>x z s r s'. x \<in> set xs \<Longrightarrow> z \<in> set xs \<Longrightarrow> Q x s \<Longrightarrow> f z s = (r, s') \<Longrightarrow> Q x s'"
    and "mapP f xs s = (Inr ys, t)" and "list_all2 good xs ys" and "x \<in> set xs"
  shows "Q x t"
  using assms
proof (induction xs arbitrary: s ys)
  case Nil
  then show ?case by simp
next
  case (Cons a xs)
  obtain y ys' s1 where a: "f a s = (Inr y, s1)" and rest: "mapP f xs s1 = (Inr ys', t)" and ys: "ys = y # ys'"
    using Cons.prems(3) by (auto simp: result_simps)
  have good: "good a y" "list_all2 good xs ys'" using Cons.prems(4) ys by auto
  show ?case
  proof (cases "x \<in> set xs")
    case True
    show ?thesis
      by (rule Cons.IH [OF _ _ rest good(2) True])
        (use Cons.prems(1,2) in \<open>meson list.set_intros(2)\<close>)+
  next
    case False
    then have "x = a" using Cons.prems(5) by simp
    then have "Q x s1" using Cons.prems(1) [of a s y s1] a good(1) by simp
    then show ?thesis
      by (rule mapP_preserves [OF _ _ rest, rotated])
        (use Cons.prems(2,5) in \<open>meson list.set_intros(2)\<close>)
  qed
qed

text \<open>A program that keeps \<open>I\<close> whatever its outcome, and whose values satisfy \<open>P\<close>.\<close>

definition keepsP :: "('s \<Rightarrow> bool) \<Rightarrow> ('s, 'e, 'a) prog \<Rightarrow> ('a \<Rightarrow> bool) \<Rightarrow> bool" where
  "keepsP I m P \<longleftrightarrow> (\<forall>s r s'. I s \<longrightarrow> m s = (r, s') \<longrightarrow> I s' \<and> (\<forall>x. r = Inr x \<longrightarrow> P x))"

lemma keepsP_use: "keepsP I m P \<Longrightarrow> I s \<Longrightarrow> m s = (r, s') \<Longrightarrow> I s'"
  by (simp add: keepsP_def)

lemma keepsP_bind:
  assumes "keepsP I m P" and "\<And>x. P x \<Longrightarrow> keepsP I (f x) Q"
  shows "keepsP I (bindP m f) Q"
  unfolding keepsP_def
proof (intro allI impI)
  fix s r s'
  assume s: "I s" and b: "bindP m f s = (r, s')"
  obtain q s1 where q: "m s = (q, s1)" by (cases "m s")
  have 1: "I s1 \<and> (\<forall>x. q = Inr x \<longrightarrow> P x)" using assms(1) s q by (simp add: keepsP_def)
  show "I s' \<and> (\<forall>x. r = Inr x \<longrightarrow> Q x)"
  proof (cases q)
    case (Inl e)
    then show ?thesis using b q 1 by auto
  next
    case (Inr x)
    then show ?thesis using b q 1 assms(2) [of x] by (auto simp: keepsP_def)
  qed
qed

lemma keepsP_gets: "(\<And>s x. I s \<Longrightarrow> g s = Inr x \<Longrightarrow> P x) \<Longrightarrow> keepsP I (getsP g) P"
  by (simp add: keepsP_def)

lemma keepsP_ret: "P x \<Longrightarrow> keepsP I (retP x) P"
  by (simp add: keepsP_def)

lemma keepsP_weaken: "keepsP I m P \<Longrightarrow> (\<And>x. P x \<Longrightarrow> Q x) \<Longrightarrow> keepsP I m Q"
  by (simp add: keepsP_def)

section \<open>Dictionaries in insertion order\<close>

text \<open>
  \<open>AList.update\<close> overwrites in place or appends, and \<open>AList.delete\<close> removes: the
  behaviour of \<open>d[k] = v\<close> and \<open>del d[k]\<close> on a dictionary that keeps insertion order.
\<close>

type_synonym ('k, 'v) dict = "('k \<times> 'v) list"

definition keys :: "('k, 'v) dict \<Rightarrow> 'k list" where
  "keys d = map fst d"

definition wf_dict :: "('k, 'v) dict \<Rightarrow> bool" where
  "wf_dict d \<longleftrightarrow> distinct (map fst d)"

lemma map_of_update [dict_simps]:
  "map_of (AList.update k v d) = (map_of d)(k \<mapsto> v)"
  by (simp add: update_conv')

lemma map_of_delete [dict_simps]:
  "map_of (AList.delete k d) = (map_of d)(k := None)"
  by (simp add: delete_conv')

lemma wf_dict_Nil [simp]: "wf_dict []"
  by (simp add: wf_dict_def)

lemma wf_dict_update: "wf_dict d \<Longrightarrow> wf_dict (AList.update k v d)"
  by (simp add: wf_dict_def distinct_update)

lemma wf_dict_delete: "wf_dict d \<Longrightarrow> wf_dict (AList.delete k d)"
  by (simp add: wf_dict_def distinct_delete)

lemma wf_dict_filter: "wf_dict d \<Longrightarrow> wf_dict (filter P d)"
  by (simp add: wf_dict_def distinct_map_filter)

lemma map_of_mem: "map_of d k = Some v \<Longrightarrow> (k, v) \<in> set d"
  by (rule map_of_SomeD)

lemma wf_dict_lookup: "wf_dict d \<Longrightarrow> (k, v) \<in> set d \<longleftrightarrow> map_of d k = Some v"
  by (auto simp: wf_dict_def dest: map_of_SomeD)

lemma wf_dict_unique: "wf_dict d \<Longrightarrow> (k, v) \<in> set d \<Longrightarrow> (k, w) \<in> set d \<Longrightarrow> v = w"
  by (simp add: wf_dict_lookup)

lemma update_fresh: "map_of d k = None \<Longrightarrow> AList.update k v d = d @ [(k, v)]"
  by (induction d) (auto split: if_splits)

lemma set_delete: "set (AList.delete k d) = {(k', v) \<in> set d. k' \<noteq> k}"
  by (induction d) auto

section \<open>Lists\<close>

lemma dropWhile_hd: "dropWhile P xs = y # ys \<Longrightarrow> \<not> P y"
  by (metis hd_dropWhile list.distinct(1) list.sel(1))

lemma takeWhile_all: "(\<And>x. x \<in> set xs \<Longrightarrow> P x) \<Longrightarrow> takeWhile P xs = xs"
  by (induction xs) auto

lemma dropWhile_none: "xs = [] \<or> \<not> P (hd xs) \<Longrightarrow> dropWhile P xs = xs"
  by (cases xs) auto

lemma filter_nonempty_map: "filter f (map g xs) = map g (filter (f \<circ> g) xs)"
  by (simp add: filter_map)

lemma foldl_invariant:
  assumes "I s" and "\<And>s x. I s \<Longrightarrow> x \<in> set xs \<Longrightarrow> I (f s x)"
  shows "I (foldl f s xs)"
  using assms by (induction xs arbitrary: s) auto

end
