(* ===== verification/PyText.thy ===== *)
theory PyText
  imports Prelude
begin

text \<open>
  The string methods of Python the program uses, on strings of code points below 256 (the
  range of \<^typ>\<open>char\<close>): white space, line splitting, splitting at a character, case,
  and the decimal and hexadecimal notations of \<open>int\<close>.
\<close>

section \<open>Characters\<close>

abbreviation code :: "char \<Rightarrow> nat" where
  "code c \<equiv> of_char c"

abbreviation LF :: char where "LF \<equiv> CHR 0x0A"
abbreviation CR :: char where "CR \<equiv> CHR 0x0D"

definition is_space :: "char \<Rightarrow> bool" where
  "is_space c \<longleftrightarrow> (let n = code c in
     9 \<le> n \<and> n \<le> 13 \<or> 28 \<le> n \<and> n \<le> 32 \<or> n = 133 \<or> n = 160)"

definition is_eol :: "char \<Rightarrow> bool" where
  "is_eol c \<longleftrightarrow> (let n = code c in
     10 \<le> n \<and> n \<le> 13 \<or> 28 \<le> n \<and> n \<le> 30 \<or> n = 133)"

definition is_digit :: "char \<Rightarrow> bool" where
  "is_digit c \<longleftrightarrow> 48 \<le> code c \<and> code c \<le> 57"

definition is_alpha :: "char \<Rightarrow> bool" where
  "is_alpha c \<longleftrightarrow> (let n = code c in 65 \<le> n \<and> n \<le> 90 \<or> 97 \<le> n \<and> n \<le> 122)"

definition is_upper :: "char \<Rightarrow> bool" where
  "is_upper c \<longleftrightarrow> 65 \<le> code c \<and> code c \<le> 90"

definition lower_char :: "char \<Rightarrow> char" where
  "lower_char c = (let n = code c in
     if 65 \<le> n \<and> n \<le> 90 \<or> 192 \<le> n \<and> n \<le> 222 \<and> n \<noteq> 215 then char_of (n + 32) else c)"

definition lower :: "string \<Rightarrow> string" where
  "lower s = map lower_char s"

text \<open>On literal characters the classes compute.\<close>

lemmas char_classes [simp] =
  is_space_def [of "Char b0 b1 b2 b3 b4 b5 b6 b7" for b0 b1 b2 b3 b4 b5 b6 b7]
  is_eol_def [of "Char b0 b1 b2 b3 b4 b5 b6 b7" for b0 b1 b2 b3 b4 b5 b6 b7]
  is_digit_def [of "Char b0 b1 b2 b3 b4 b5 b6 b7" for b0 b1 b2 b3 b4 b5 b6 b7]
  is_alpha_def [of "Char b0 b1 b2 b3 b4 b5 b6 b7" for b0 b1 b2 b3 b4 b5 b6 b7]

lemma is_eol_is_space: "is_eol c \<Longrightarrow> is_space c"
  unfolding is_eol_def is_space_def Let_def by arith

section \<open>Trimming and prefixes\<close>

definition lstrip :: "string \<Rightarrow> string" where
  "lstrip s = dropWhile is_space s"

definition rstrip :: "string \<Rightarrow> string" where
  "rstrip s = rev (dropWhile is_space (rev s))"

definition strip :: "string \<Rightarrow> string" where
  "strip s = rstrip (lstrip s)"

definition rstrip_char :: "char \<Rightarrow> string \<Rightarrow> string" where
  "rstrip_char c s = rev (dropWhile (\<lambda>x. x = c) (rev s))"

definition starts_with :: "string \<Rightarrow> string \<Rightarrow> bool" where
  "starts_with p s \<longleftrightarrow> take (length p) s = p"

definition ends_with :: "string \<Rightarrow> string \<Rightarrow> bool" where
  "ends_with p s \<longleftrightarrow> length p \<le> length s \<and> drop (length s - length p) s = p"

definition remove_prefix :: "string \<Rightarrow> string \<Rightarrow> string" where
  "remove_prefix p s = (if starts_with p s then drop (length p) s else s)"

fun contains :: "string \<Rightarrow> string \<Rightarrow> bool" where
  "contains p [] = (p = [])"
| "contains p (c # cs) = (starts_with p (c # cs) \<or> contains p cs)"

lemma starts_with_append [simp]: "starts_with p (p @ s)"
  by (simp add: starts_with_def)

lemma remove_prefix_append [simp]: "remove_prefix p (p @ s) = s"
  by (simp add: remove_prefix_def)

lemma starts_with_iff: "starts_with p s \<longleftrightarrow> (\<exists>v. s = p @ v)"
  unfolding starts_with_def by (metis append_eq_conv_conj append_take_drop_id)

lemma contains_append: "contains p s \<Longrightarrow> contains p (s @ v)"
proof (induction s)
  case Nil
  then have "p = []" by simp
  then show ?case by (cases v) (auto simp: starts_with_def)
next
  case (Cons c s)
  then show ?case by (auto simp: starts_with_iff) (metis append_Cons append_assoc)
qed

lemma contains_prepend: "contains p s \<Longrightarrow> contains p (u @ s)"
  by (induction u) auto

lemma starts_with_contains: "starts_with p s \<Longrightarrow> contains p s"
  by (cases s) (auto simp: starts_with_def)

lemma code_lower_char:
  "code (lower_char c) = (let n = code c in
     if 65 \<le> n \<and> n \<le> 90 \<or> 192 \<le> n \<and> n \<le> 222 \<and> n \<noteq> 215 then n + 32 else n)"
  by (auto simp: lower_char_def Let_def)

lemma is_space_lower [simp]: "is_space (lower_char c) = is_space c"
  by (simp add: is_space_def code_lower_char Let_def)

lemma lower_lower_char [simp]: "lower_char (lower_char c) = lower_char c"
proof -
  have "\<not> (65 \<le> code (lower_char c) \<and> code (lower_char c) \<le> 90
     \<or> 192 \<le> code (lower_char c) \<and> code (lower_char c) \<le> 222 \<and> code (lower_char c) \<noteq> 215)"
    by (simp add: code_lower_char Let_def)
  then show ?thesis unfolding lower_char_def [of "lower_char c"] Let_def by (rule if_not_P)
qed

lemma lower_lower [simp]: "lower (lower s) = lower s"
  by (simp add: lower_def)

lemma strip_lower: "strip (lower s) = lower (strip s)"
  by (simp add: strip_def lstrip_def rstrip_def lower_def dropWhile_map o_def rev_map)

lemma strip_clean:
  assumes "\<And>c. c \<in> set s \<Longrightarrow> \<not> is_space c"
  shows "strip s = s"
proof -
  have "lstrip s = s"
    unfolding lstrip_def using assms by (cases s) auto
  moreover have "dropWhile is_space (rev s) = rev s"
    using assms by (intro dropWhile_none) (metis hd_in_set set_rev)
  ultimately show ?thesis by (simp add: strip_def rstrip_def)
qed

lemma strip_ends:
  assumes "\<not> is_space (hd s)" and "\<not> is_space (last s)"
  shows "strip s = s"
proof (cases "s = []")
  case False
  have "lstrip s = s" unfolding lstrip_def using assms(1) by (intro dropWhile_none) simp
  moreover have "dropWhile is_space (rev s) = rev s"
    using assms(2) False by (intro dropWhile_none) (simp add: hd_rev)
  ultimately show ?thesis by (simp add: strip_def rstrip_def)
qed (simp add: strip_def lstrip_def rstrip_def)

lemma strip_strip [simp]: "strip (strip s) = strip s"
proof (cases "strip s")
  case (Cons c cs)
  have l: "lstrip s = [] \<or> \<not> is_space (hd (lstrip s))"
    using dropWhile_hd [of is_space s] by (cases "lstrip s") (auto simp: lstrip_def)
  have "\<exists>v. lstrip s = strip s @ v"
    unfolding strip_def rstrip_def
    by (metis rev_append rev_rev_ident takeWhile_dropWhile_id)
  then have first: "\<not> is_space c" using l Cons by (auto simp: neq_Nil_conv)
  have last: "\<not> is_space (last (strip s))"
  proof -
    have "dropWhile is_space (rev (lstrip s)) = rev (strip s)" by (simp add: strip_def rstrip_def)
    then have "dropWhile is_space (rev (lstrip s)) = last (strip s) # rev (butlast (strip s))"
      using Cons by (metis append_butlast_last_id list.distinct(1) rev_eq_Cons_iff rev_rev_ident)
    then show ?thesis by (rule dropWhile_hd)
  qed
  show ?thesis using first last Cons by (intro strip_ends) simp_all
next
  case Nil
  then show ?thesis by (simp only:) (simp add: strip_def lstrip_def rstrip_def)
qed

lemma set_strip_subset: "set (strip s) \<subseteq> set s"
proof -
  have "set (strip s) \<subseteq> set (lstrip s)"
    using set_dropWhileD [of _ is_space "rev (lstrip s)"]
    by (auto simp: strip_def rstrip_def)
  also have "\<dots> \<subseteq> set s" by (auto simp: lstrip_def dest: set_dropWhileD)
  finally show ?thesis .
qed

section \<open>Lines\<close>

text \<open>
  \<open>line_pairs s\<close> is the list of lines of \<open>s\<close>, each with the terminator it ended in (the
  empty string for an unterminated last line). \<open>splitlines\<close> drops the terminators,
  \<open>splitlines_keep\<close> keeps them.
\<close>

fun line_pairs :: "string \<Rightarrow> (string \<times> string) list" where
  "line_pairs [] = []"
| "line_pairs (c # cs) =
     (if c = CR then
        (case cs of
           [] \<Rightarrow> [([], [c])]
         | d # ds \<Rightarrow> if d = LF then ([], [c, d]) # line_pairs ds else ([], [c]) # line_pairs cs)
      else if is_eol c then ([], [c]) # line_pairs cs
      else (case line_pairs cs of [] \<Rightarrow> [([c], [])] | (b, e) # ls \<Rightarrow> (c # b, e) # ls))"

definition splitlines :: "string \<Rightarrow> string list" where
  "splitlines s = map fst (line_pairs s)"

definition splitlines_keep :: "string \<Rightarrow> string list" where
  "splitlines_keep s = map (\<lambda>(b, e). b @ e) (line_pairs s)"

definition clean_line :: "string \<Rightarrow> bool" where
  "clean_line l \<longleftrightarrow> (\<forall>c \<in> set l. \<not> is_eol c)"

lemma is_eol_LF [simp]: "is_eol LF" and is_eol_CR [simp]: "is_eol CR"
  by (simp_all add: is_eol_def)

lemma concat_line_pairs: "concat (map (\<lambda>(b, e). b @ e) (line_pairs s)) = s"
proof (induction s rule: line_pairs.induct)
  case 1
  then show ?case by simp
next
  case (2 c cs)
  show ?case
  proof (cases "is_eol c")
    case True
    then show ?thesis using 2 by (cases cs) (simp_all split: if_split)
  next
    case False
    then have "c \<noteq> CR" by auto
    with False 2 show ?thesis by (cases "line_pairs cs") auto
  qed
qed

lemma concat_splitlines_keep [simp]: "concat (splitlines_keep s) = s"
  by (simp add: splitlines_keep_def concat_line_pairs)

lemma line_pairs_clean: "\<forall>(b, e) \<in> set (line_pairs s). \<forall>c \<in> set b. \<not> is_eol c"
proof (induction s rule: line_pairs.induct)
  case 1
  then show ?case by simp
next
  case (2 c cs)
  show ?case
  proof (cases "is_eol c")
    case True
    show ?thesis
    proof (cases "c = CR")
      case cr: True
      show ?thesis
      proof (cases cs)
        case Nil
        then show ?thesis using cr by simp
      next
        case (Cons d ds)
        then show ?thesis using cr 2(1,2) by simp
      qed
    next
      case False
      then show ?thesis using True 2(3) by simp
    qed
  next
    case False
    then have "c \<noteq> CR" by auto
    then have "\<forall>(b, e) \<in> set (line_pairs cs). \<forall>c \<in> set b. \<not> is_eol c"
      using False 2(4) by simp
    with False \<open>c \<noteq> CR\<close> show ?thesis by (cases "line_pairs cs") auto
  qed
qed

lemma splitlines_clean: "l \<in> set (splitlines s) \<Longrightarrow> clean_line l"
  using line_pairs_clean [of s] by (auto simp: splitlines_def clean_line_def)

lemma clean_line_Cons [simp]: "clean_line (c # l) \<longleftrightarrow> \<not> is_eol c \<and> clean_line l"
  by (simp add: clean_line_def)

lemma clean_line_Nil [simp]: "clean_line []"
  by (simp add: clean_line_def)

lemma clean_line_append [simp]: "clean_line (a @ b) \<longleftrightarrow> clean_line a \<and> clean_line b"
  by (auto simp: clean_line_def)

lemma line_pairs_LF: "clean_line b \<Longrightarrow> line_pairs (b @ LF # s) = (b, [LF]) # line_pairs s"
  by (induction b) auto

lemma line_pairs_last: "clean_line b \<Longrightarrow> b \<noteq> [] \<Longrightarrow> line_pairs b = [(b, [])]"
proof (induction b)
  case Nil
  then show ?case by simp
next
  case (Cons c b)
  then show ?case by (cases b) auto
qed

fun join :: "string \<Rightarrow> string list \<Rightarrow> string" where
  "join sep [] = []"
| "join sep [x] = x"
| "join sep (x # y # xs) = x @ sep @ join sep (y # xs)"

text \<open>The text of a list of lines, each ended by a line feed.\<close>

definition unlines :: "string list \<Rightarrow> string" where
  "unlines ls = concat (map (\<lambda>l. l @ [LF]) ls)"

lemma join_LF_unlines: "join [LF] (ls @ [[]]) = unlines ls"
proof (induction ls)
  case Nil
  then show ?case by (simp add: unlines_def)
next
  case (Cons l ls)
  then show ?case by (cases ls) (simp_all add: unlines_def)
qed

lemma unlines_chars: "c \<in> set (unlines ls) \<Longrightarrow> c = LF \<or> (\<exists>l \<in> set ls. c \<in> set l)"
  by (auto simp: unlines_def split: if_splits)

lemma splitlines_unlines:
  "(\<And>l. l \<in> set ls \<Longrightarrow> clean_line l) \<Longrightarrow> splitlines (unlines ls) = ls"
proof (induction ls)
  case Nil
  then show ?case by (simp add: splitlines_def unlines_def)
next
  case (Cons l ls)
  then have "splitlines (unlines ls) = ls" by simp
  moreover have "clean_line l" using Cons.prems by simp
  ultimately show ?case by (simp add: splitlines_def unlines_def line_pairs_LF)
qed

section \<open>Splitting\<close>

fun split_by :: "(char \<Rightarrow> bool) \<Rightarrow> string \<Rightarrow> string list" where
  "split_by p [] = [[]]"
| "split_by p (c # cs) =
     (if p c then [] # split_by p cs
      else (case split_by p cs of [] \<Rightarrow> [[c]] | w # ws \<Rightarrow> (c # w) # ws))"

definition split_on :: "char \<Rightarrow> string \<Rightarrow> string list" where
  "split_on c s = split_by (\<lambda>x. x = c) s"

definition words :: "string \<Rightarrow> string list" where
  "words s = filter (\<lambda>w. w \<noteq> []) (split_by is_space s)"

definition before :: "char \<Rightarrow> string \<Rightarrow> string" where
  "before c s = takeWhile (\<lambda>x. x \<noteq> c) s"

lemma split_by_nonempty [simp]: "split_by p s \<noteq> []"
  by (induction s) (auto split: list.splits)

lemma split_by_pieces: "w \<in> set (split_by p s) \<Longrightarrow> x \<in> set w \<Longrightarrow> \<not> p x \<and> x \<in> set s"
proof (induction s arbitrary: w)
  case Nil
  then show ?case by simp
next
  case (Cons c cs)
  show ?case
  proof (cases "split_by p cs")
    case Nil
    then show ?thesis by simp
  next
    case (Cons v vs)
    then show ?thesis using Cons.IH [of v] Cons.IH [of w] Cons.prems
      by (auto split: if_splits)
  qed
qed

lemma split_by_append:
  "(\<And>x. x \<in> set w \<Longrightarrow> \<not> p x) \<Longrightarrow> p c \<Longrightarrow> split_by p (w @ c # s) = w # split_by p s"
  by (induction w) auto

lemma split_by_single: "(\<And>x. x \<in> set w \<Longrightarrow> \<not> p x) \<Longrightarrow> split_by p w = [w]"
  by (induction w) auto

lemma split_on_join:
  assumes "ws \<noteq> []" and "\<And>w. w \<in> set ws \<Longrightarrow> c \<notin> set w"
  shows "split_on c (join [c] ws) = ws"
  using assms
proof (induction "[c]" ws rule: join.induct)
  case 1
  then show ?case by simp
next
  case (2 x)
  then show ?case by (auto simp: split_on_def intro!: split_by_single)
next
  case (3 x y xs)
  then have "split_on c (join [c] (y # xs)) = y # xs" by simp
  moreover have "split_on c (x @ c # join [c] (y # xs)) = x # split_on c (join [c] (y # xs))"
    unfolding split_on_def using "3.prems"(2) by (intro split_by_append) auto
  ultimately show ?case by simp
qed

lemma words_not_space: "w \<in> set (words s) \<Longrightarrow> x \<in> set w \<Longrightarrow> \<not> is_space x"
  by (auto simp: words_def dest: split_by_pieces)

lemma words_Cons:
  "w \<noteq> [] \<Longrightarrow> (\<And>x. x \<in> set w \<Longrightarrow> \<not> is_space x) \<Longrightarrow> is_space c
   \<Longrightarrow> words (w @ c # s) = w # words s"
  by (simp add: words_def split_by_append)

lemma words_single: "w \<noteq> [] \<Longrightarrow> (\<And>x. x \<in> set w \<Longrightarrow> \<not> is_space x) \<Longrightarrow> words w = [w]"
  by (simp add: words_def split_by_single)

section \<open>Numbers\<close>

definition digit_char :: "nat \<Rightarrow> char" where
  "digit_char d = (if d < 10 then char_of (48 + d) else char_of (87 + d))"

definition digit_val :: "char \<Rightarrow> nat" where
  "digit_val c = (let n = code c in
     if n \<le> 57 then n - 48 else if n \<le> 70 then n - 55 else n - 87)"

definition is_hex :: "char \<Rightarrow> bool" where
  "is_hex c \<longleftrightarrow> (let n = code c in
     48 \<le> n \<and> n \<le> 57 \<or> 65 \<le> n \<and> n \<le> 70 \<or> 97 \<le> n \<and> n \<le> 102)"

fun show_base :: "nat \<Rightarrow> nat \<Rightarrow> string" where
  "show_base b n =
     (if b \<le> 1 \<or> n < b then [digit_char n] else show_base b (n div b) @ [digit_char (n mod b)])"

declare show_base.simps [simp del]

definition read_base :: "nat \<Rightarrow> string \<Rightarrow> nat" where
  "read_base b s = foldl (\<lambda>a c. a * b + digit_val c) 0 s"

definition show_nat :: "nat \<Rightarrow> string" where
  "show_nat n = show_base 10 n"

definition show_int :: "int \<Rightarrow> string" where
  "show_int i = (if i < 0 then CHR ''-'' # show_nat (nat (- i)) else show_nat (nat i))"

text \<open>\<open>int(s)\<close>: white space around, a sign, digits with single underscores between them.\<close>

definition read_int :: "string \<Rightarrow> int option" where
  "read_int s =
     (let t = strip s;
          body = (case t of [] \<Rightarrow> [] | c # cs \<Rightarrow> if c = CHR ''-'' \<or> c = CHR ''+'' then cs else t);
          neg = (case t of [] \<Rightarrow> False | c # cs \<Rightarrow> c = CHR ''-'');
          groups = split_on (CHR ''_'') body
      in if list_all (\<lambda>g. g \<noteq> [] \<and> list_all is_digit g) groups
         then Some (let n = int (read_base 10 (concat groups)) in if neg then - n else n)
         else None)"

lemma code_digit_char: "d < 16 \<Longrightarrow> code (digit_char d) = (if d < 10 then 48 + d else 87 + d)"
  by (simp add: digit_char_def)

lemma digit_val_char [simp]: "d < 16 \<Longrightarrow> digit_val (digit_char d) = d"
  by (auto simp: digit_val_def code_digit_char Let_def)

lemma is_hex_digit_char: "d < 16 \<Longrightarrow> is_hex (digit_char d)"
  by (auto simp: is_hex_def code_digit_char Let_def)

lemma is_digit_digit_char: "d < 10 \<Longrightarrow> is_digit (digit_char d)"
  by (auto simp: is_digit_def code_digit_char Let_def)

lemma read_base_snoc: "read_base b (s @ [c]) = read_base b s * b + digit_val c"
  by (simp add: read_base_def)

lemma read_show_base: "2 \<le> b \<Longrightarrow> b \<le> 16 \<Longrightarrow> read_base b (show_base b n) = n"
proof (induction b n rule: show_base.induct)
  case (1 b n)
  show ?case
  proof (cases "n < b")
    case True
    then show ?thesis using 1 by (simp add: show_base.simps [of b n] read_base_def)
  next
    case False
    moreover have "n mod b < 16" using 1 mod_less_divisor [of b n] by linarith
    ultimately show ?thesis using 1
      by (simp add: show_base.simps [of b n] read_base_snoc)
  qed
qed

text \<open>For evaluation: the test is an argument, so that the recursion stops.\<close>

definition show_step :: "bool \<Rightarrow> nat \<Rightarrow> nat \<Rightarrow> string" where
  "show_step stop b n = (if stop then [digit_char n] else show_base b (n div b) @ [digit_char (n mod b)])"

lemma show_base_code [code]: "show_base b n = show_step (b \<le> 1 \<or> n < b) b n"
  by (simp add: show_step_def show_base.simps [of b n])

lemma show_step_code [code]:
  "show_step True b n = [digit_char n]"
  "show_step False b n = show_base b (n div b) @ [digit_char (n mod b)]"
  by (simp_all add: show_step_def)

lemma show_base_nonempty [simp]: "show_base b n \<noteq> []"
  by (subst show_base.simps) simp

lemma show_base_chars:
  "2 \<le> b \<Longrightarrow> b \<le> 16 \<Longrightarrow> c \<in> set (show_base b n) \<Longrightarrow> \<exists>d < b. c = digit_char d"
proof (induction b n rule: show_base.induct)
  case (1 b n)
  show ?case
  proof (cases "n < b")
    case True
    then show ?thesis using 1 by (auto simp: show_base.simps [of b n])
  next
    case False
    then have "c \<in> set (show_base b (n div b)) \<or> c = digit_char (n mod b)"
      using 1(2-4) by (auto simp: show_base.simps [of b n])
    moreover have "n mod b < b" using 1(2) by simp
    moreover have "c \<in> set (show_base b (n div b)) \<Longrightarrow> \<exists>d<b. c = digit_char d"
      using 1(1-3) False by simp
    ultimately show ?thesis by blast
  qed
qed

lemma show_base_length: "2 \<le> b \<Longrightarrow> n < b ^ Suc k \<Longrightarrow> length (show_base b n) \<le> Suc k"
proof (induction k arbitrary: n)
  case 0
  then show ?case by (simp add: show_base.simps [of b n])
next
  case (Suc k)
  show ?case
  proof (cases "n < b")
    case True
    then show ?thesis by (simp add: show_base.simps [of b n])
  next
    case False
    have "n div b < b ^ Suc k"
      using Suc.prems by (simp add: less_mult_imp_div_less mult.commute)
    then have "length (show_base b (n div b)) \<le> Suc k" using Suc.IH Suc.prems by blast
    then show ?thesis using False Suc.prems by (simp add: show_base.simps [of b n])
  qed
qed

lemma show_hex_chars: "c \<in> set (show_base 16 n) \<Longrightarrow> is_hex c"
  using show_base_chars [of 16 c n] is_hex_digit_char by auto

lemma show_nat_chars: "c \<in> set (show_nat n) \<Longrightarrow> is_digit c"
  using show_base_chars [of 10 c n] is_digit_digit_char by (auto simp: show_nat_def)

lemma read_show_nat [simp]: "read_base 10 (show_nat n) = n"
  by (simp add: show_nat_def read_show_base)

lemma read_show_hex [simp]: "read_base 16 (show_base 16 n) = n"
  by (simp add: read_show_base)

lemma is_digit_facts: "is_digit c \<Longrightarrow> \<not> is_space c \<and> \<not> is_eol c \<and> is_hex c"
  unfolding is_digit_def is_space_def is_eol_def is_hex_def Let_def by arith

lemma is_hex_facts: "is_hex c \<Longrightarrow> \<not> is_space c \<and> \<not> is_eol c"
  unfolding is_hex_def is_space_def is_eol_def Let_def by arith

text \<open>Printing concrete numbers.\<close>

lemma digit_char_table [eval_simps]:
  "digit_char 0 = CHR ''0''" "digit_char 1 = CHR ''1''" "digit_char (Suc 0) = CHR ''1''"
  "digit_char 2 = CHR ''2''" "digit_char 3 = CHR ''3''" "digit_char 4 = CHR ''4''"
  "digit_char 5 = CHR ''5''" "digit_char 6 = CHR ''6''" "digit_char 7 = CHR ''7''"
  "digit_char 8 = CHR ''8''" "digit_char 9 = CHR ''9''" "digit_char 10 = CHR ''a''"
  "digit_char 11 = CHR ''b''" "digit_char 12 = CHR ''c''" "digit_char 13 = CHR ''d''"
  "digit_char 14 = CHR ''e''" "digit_char 15 = CHR ''f''"
  by code_simp+

lemma lower_char_table [eval_simps]:
  "lower_char (CHR ''A'') = CHR ''a''"
  "lower_char (CHR ''B'') = CHR ''b''"
  "lower_char (CHR ''C'') = CHR ''c''"
  "lower_char (CHR ''D'') = CHR ''d''"
  "lower_char (CHR ''E'') = CHR ''e''"
  "lower_char (CHR ''F'') = CHR ''f''"
  "lower_char (CHR ''G'') = CHR ''g''"
  "lower_char (CHR ''H'') = CHR ''h''"
  "lower_char (CHR ''I'') = CHR ''i''"
  "lower_char (CHR ''J'') = CHR ''j''"
  "lower_char (CHR ''K'') = CHR ''k''"
  "lower_char (CHR ''L'') = CHR ''l''"
  "lower_char (CHR ''M'') = CHR ''m''"
  "lower_char (CHR ''N'') = CHR ''n''"
  "lower_char (CHR ''O'') = CHR ''o''"
  "lower_char (CHR ''P'') = CHR ''p''"
  "lower_char (CHR ''Q'') = CHR ''q''"
  "lower_char (CHR ''R'') = CHR ''r''"
  "lower_char (CHR ''S'') = CHR ''s''"
  "lower_char (CHR ''T'') = CHR ''t''"
  "lower_char (CHR ''U'') = CHR ''u''"
  "lower_char (CHR ''V'') = CHR ''v''"
  "lower_char (CHR ''W'') = CHR ''w''"
  "lower_char (CHR ''X'') = CHR ''x''"
  "lower_char (CHR ''Y'') = CHR ''y''"
  "lower_char (CHR ''Z'') = CHR ''z''"
  by code_simp+

lemma lower_char_other [eval_simps]: "code c < 65 \<or> 90 < code c \<and> code c < 192 \<Longrightarrow> lower_char c = c"
  by (auto simp: lower_char_def)

lemma lower_Nil [simp]: "lower [] = []" and lower_Cons [eval_simps]: "lower (c # s) = lower_char c # lower s"
  by (simp_all add: lower_def)

declare show_nat_def [eval_simps] show_base.simps [eval_simps]

section \<open>Lines inside a text\<close>

lemma line_in_text: "l \<in> set (splitlines s) \<Longrightarrow> \<exists>u v. s = u @ l @ v"
proof -
  assume "l \<in> set (splitlines s)"
  then obtain e where "(l, e) \<in> set (line_pairs s)" by (auto simp: splitlines_def)
  then obtain xs ys where "line_pairs s = xs @ (l, e) # ys" by (meson split_list)
  then show ?thesis using concat_line_pairs [of s]
    by (intro exI [of _ "concat (map (\<lambda>(b, e). b @ e) xs)"] exI [of _ "e @ concat (map (\<lambda>(b, e). b @ e) ys)"]) simp
qed

lemma contains_line: "l \<in> set (splitlines s) \<Longrightarrow> starts_with p l \<Longrightarrow> contains p s"
  using line_in_text [of l s] contains_append contains_prepend starts_with_contains by metis

text \<open>A final line break adds at most an empty line.\<close>

lemma splitlines_snoc: "\<exists>zs. splitlines (s @ [LF]) = splitlines s @ zs"
proof -
  have "\<exists>zs. map fst (line_pairs (s @ [LF])) = map fst (line_pairs s) @ zs"
  proof (induction s rule: line_pairs.induct)
    case 1
    then show ?case by simp
  next
    case (2 c cs)
    show ?case
    proof (cases "c = CR")
      case True
      then show ?thesis using 2(1,2) by (cases cs) auto
    next
      case False
      show ?thesis
      proof (cases "is_eol c")
        case True
        then show ?thesis using 2(3) False by simp
      next
        case eol: False
        then obtain zs where z: "map fst (line_pairs (cs @ [LF])) = map fst (line_pairs cs) @ zs"
          using 2(4) False by blast
        show ?thesis
        proof (cases "line_pairs cs")
          case Nil
          then have "cs = []" by (cases cs) (auto split: if_splits list.splits prod.splits)
          then show ?thesis using False eol by simp
        next
          case (Cons x xs)
          then show ?thesis using z False eol
            by (cases "line_pairs (cs @ [LF])") (auto split: prod.splits)
        qed
      qed
    qed
  qed
  then show ?thesis by (simp add: splitlines_def)
qed

lemma rstrip_char_lines: "set (splitlines (rstrip_char LF s)) \<subseteq> set (splitlines s)"
proof (induction s rule: rev_induct)
  case Nil
  then show ?case by (simp add: rstrip_char_def)
next
  case (snoc c s)
  show ?case
  proof (cases "c = LF")
    case True
    then have "rstrip_char LF (s @ [c]) = rstrip_char LF s" by (simp add: rstrip_char_def)
    then show ?thesis using snoc splitlines_snoc [of s] True by auto
  next
    case False
    then have "rstrip_char LF (s @ [c]) = s @ [c]" by (simp add: rstrip_char_def)
    then show ?thesis by simp
  qed
qed

end
