(* ===== verification/PyIp.thy ===== *)
theory PyIp
  imports PyText "HOL-Library.Char_ord"
begin

text \<open>
  The part of Python's \<open>ipaddress\<close> module the program uses: addresses and networks of
  both families, how they are read from text and printed, containment, and the collapsing
  of a set of networks. An address is its integer, an IPv6 address may carry a scope id
  (the text after \<open>%\<close>). The reader follows \<open>_ip_int_from_string\<close>, the printer
  \<open>_compress_hextets\<close>.
\<close>

section \<open>Addresses and networks\<close>

datatype ipaddr = V4 nat | V6 nat "string option"

fun version :: "ipaddr \<Rightarrow> nat" where
  "version (V4 n) = 4"
| "version (V6 n s) = 6"

fun addr_int :: "ipaddr \<Rightarrow> nat" where
  "addr_int (V4 n) = n"
| "addr_int (V6 n s) = n"

definition width :: "nat \<Rightarrow> nat" where
  "width v = (if v = 6 then 128 else 32)"

fun addr_ok :: "ipaddr \<Rightarrow> bool" where
  "addr_ok (V4 n) \<longleftrightarrow> n < 2 ^ 32"
| "addr_ok (V6 n s) \<longleftrightarrow> n < 2 ^ 128"

definition mk_addr :: "nat \<Rightarrow> nat \<Rightarrow> ipaddr" where
  "mk_addr v n = (if v = 6 then V6 n None else V4 n)"

record ipnet =
  net_addr :: ipaddr
  prefixlen :: nat

definition net_version :: "ipnet \<Rightarrow> nat" where
  "net_version n = version (net_addr n)"

definition num_addresses :: "ipnet \<Rightarrow> nat" where
  "num_addresses n = 2 ^ (width (net_version n) - prefixlen n)"

definition net_int :: "ipnet \<Rightarrow> nat" where
  "net_int n = addr_int (net_addr n)"

text \<open>\<open>x & netmask\<close>: the value with its host bits cleared.\<close>

definition mask_int :: "nat \<Rightarrow> nat \<Rightarrow> nat \<Rightarrow> nat" where
  "mask_int w p x = x - x mod 2 ^ (w - p)"

definition broadcast_int :: "ipnet \<Rightarrow> nat" where
  "broadcast_int n = net_int n + num_addresses n - 1"

text \<open>\<open>address in network\<close>\<close>

definition in_net :: "ipaddr \<Rightarrow> ipnet \<Rightarrow> bool" where
  "in_net a n \<longleftrightarrow> version a = net_version n \<and>
     mask_int (width (net_version n)) (prefixlen n) (addr_int a) = net_int n"

text \<open>\<open>a <= b\<close> on addresses, as \<open>functools.total_ordering\<close> derives it from \<open>__lt__\<close>.\<close>

definition addr_le :: "ipaddr \<Rightarrow> ipaddr \<Rightarrow> bool" where
  "addr_le a b \<longleftrightarrow> addr_int a < addr_int b \<or> a = b"

text \<open>\<open>a.subnet_of(b)\<close> for networks of one family.\<close>

definition subnet_of :: "ipnet \<Rightarrow> ipnet \<Rightarrow> bool" where
  "subnet_of a b \<longleftrightarrow> addr_le (net_addr b) (net_addr a) \<and> broadcast_int a \<le> broadcast_int b"

text \<open>\<open>a.overlaps(b)\<close>\<close>

definition overlaps :: "ipnet \<Rightarrow> ipnet \<Rightarrow> bool" where
  "overlaps a b \<longleftrightarrow>
     in_net (net_addr b) a \<or> in_net (mk_addr (net_version b) (broadcast_int b)) a \<or>
     in_net (net_addr a) b \<or> in_net (mk_addr (net_version a) (broadcast_int a)) b"

text \<open>The addresses of a network, as integers.\<close>

definition net_range :: "ipnet \<Rightarrow> nat set" where
  "net_range n = {net_int n ..< net_int n + num_addresses n}"

definition net_ok :: "ipnet \<Rightarrow> bool" where
  "net_ok n \<longleftrightarrow> addr_ok (net_addr n) \<and> prefixlen n \<le> width (net_version n) \<and>
     2 ^ (width (net_version n) - prefixlen n) dvd net_int n"

section \<open>Reading IPv4\<close>

definition read_octet :: "string \<Rightarrow> nat option" where
  "read_octet s =
     (if s \<noteq> [] \<and> list_all is_digit s \<and> length s \<le> 3 \<and> (s = ''0'' \<or> hd s \<noteq> CHR ''0'')
         \<and> read_base 10 s \<le> 255
      then Some (read_base 10 s) else None)"

definition read_ip4 :: "string \<Rightarrow> nat option" where
  "read_ip4 s = (case map read_octet (split_on (CHR ''.'') s) of
       [Some a, Some b, Some c, Some d] \<Rightarrow> Some (((a * 256 + b) * 256 + c) * 256 + d)
     | _ \<Rightarrow> None)"

definition show_ip4 :: "nat \<Rightarrow> string" where
  "show_ip4 n = join ''.'' (map (\<lambda>i. show_nat (n div 2 ^ i mod 256)) [24, 16, 8, 0])"

section \<open>Reading IPv6\<close>

definition read_hextet :: "string \<Rightarrow> nat option" where
  "read_hextet s = (if s \<noteq> [] \<and> list_all is_hex s \<and> length s \<le> 4 then Some (read_base 16 s) else None)"

text \<open>The indices of the empty parts strictly inside the list.\<close>

definition inner_empty :: "string list \<Rightarrow> nat list" where
  "inner_empty ps = filter (\<lambda>i. ps ! i = []) [1 ..< length ps - 1]"

fun read_all :: "('a \<Rightarrow> 'b option) \<Rightarrow> 'a list \<Rightarrow> 'b list option" where
  "read_all f [] = Some []"
| "read_all f (x # xs) =
     (case f x of None \<Rightarrow> None | Some y \<Rightarrow> (case read_all f xs of None \<Rightarrow> None | Some ys \<Rightarrow> Some (y # ys)))"

definition of_hextets :: "nat list \<Rightarrow> nat" where
  "of_hextets hs = foldl (\<lambda>a h. a * 65536 + h) 0 hs"

text \<open>An IPv4 suffix becomes its two hextets.\<close>

definition expand_v4 :: "string list \<Rightarrow> string list option" where
  "expand_v4 ps =
     (if CHR ''.'' \<in> set (last ps) then
        (case read_ip4 (last ps) of
           None \<Rightarrow> None
         | Some n \<Rightarrow> Some (butlast ps @ [show_base 16 (n div 65536 mod 65536), show_base 16 (n mod 65536)]))
      else Some ps)"

definition read_parts :: "string list \<Rightarrow> nat option" where
  "read_parts ps =
     (case inner_empty ps of
        [] \<Rightarrow>
          if length ps = 8 \<and> hd ps \<noteq> [] \<and> last ps \<noteq> []
          then map_option of_hextets (read_all read_hextet ps) else None
      | [k] \<Rightarrow>
          (let hi0 = take k ps; lo0 = drop (k + 1) ps;
               hi = (if hd ps = [] then tl hi0 else hi0);
               lo = (if last ps = [] then butlast lo0 else lo0)
           in if hd ps = [] \<and> hi \<noteq> [] \<or> last ps = [] \<and> lo \<noteq> [] \<or> 8 < length hi + length lo + 1
              then None
              else (case (read_all read_hextet hi, read_all read_hextet lo) of
                      (Some a, Some b) \<Rightarrow>
                         Some (of_hextets (a @ replicate (8 - (length hi + length lo)) 0 @ b))
                    | _ \<Rightarrow> None))
      | _ \<Rightarrow> None)"

definition read_ip6 :: "string \<Rightarrow> nat option" where
  "read_ip6 s =
     (let ps = split_on (CHR '':'') s in
      if length ps < 3 then None
      else (case expand_v4 ps of
              None \<Rightarrow> None
            | Some qs \<Rightarrow> if 9 < length qs then None else read_parts qs))"

definition read_v6 :: "string \<Rightarrow> ipaddr option" where
  "read_v6 s =
     (if CHR ''/'' \<in> set s then None
      else if CHR ''%'' \<in> set s then
        (let a = before (CHR ''%'') s; scope = drop (length a + 1) s in
         if scope = [] \<or> CHR ''%'' \<in> set scope then None
         else map_option (\<lambda>n. V6 n (Some scope)) (read_ip6 a))
      else map_option (\<lambda>n. V6 n None) (read_ip6 s))"

text \<open>\<open>ip_address(s)\<close>: IPv4 first, then IPv6; \<open>None\<close> is the \<open>ValueError\<close>.\<close>

definition ip_address :: "string \<Rightarrow> ipaddr option" where
  "ip_address s = (case read_ip4 s of Some n \<Rightarrow> Some (V4 n) | None \<Rightarrow> read_v6 s)"

section \<open>Printing\<close>

definition hextets :: "nat \<Rightarrow> nat list" where
  "hextets n = map (\<lambda>i. n div 65536 ^ i mod 65536) [7, 6, 5, 4, 3, 2, 1, 0]"

text \<open>
  The leftmost longest run of zero hextets: \<open>zero_run\<close> goes through the list as
  \<open>_compress_hextets\<close> does, carrying the index, the current run and the best one.
\<close>

fun zero_run :: "nat list \<Rightarrow> nat \<Rightarrow> nat \<Rightarrow> nat \<Rightarrow> nat \<times> nat \<Rightarrow> nat \<times> nat" where
  "zero_run [] i start len best = best"
| "zero_run (h # hs) i start len (bs, bl) =
     (if h = 0 then
        (let start' = (if len = 0 then i else start); len' = len + 1 in
         zero_run hs (i + 1) start' len' (if bl < len' then (start', len') else (bs, bl)))
      else zero_run hs (i + 1) 0 0 (bs, bl))"

definition compress :: "nat list \<Rightarrow> string list" where
  "compress hs =
     (let (bs, bl) = zero_run hs 0 0 0 (0, 0); xs = map (show_base 16) hs in
      if 1 < bl then
        (if bs = 0 then [''''] else []) @ take bs xs @ [''''] @ drop (bs + bl) xs
          @ (if bs + bl = length xs then [''''] else [])
      else xs)"

definition show_ip6 :: "nat \<Rightarrow> string" where
  "show_ip6 n = join '':'' (compress (hextets n))"

fun show_addr :: "ipaddr \<Rightarrow> string" where
  "show_addr (V4 n) = show_ip4 n"
| "show_addr (V6 n None) = show_ip6 n"
| "show_addr (V6 n (Some sc)) = show_ip6 n @ CHR ''%'' # sc"

text \<open>\<open>network.with_prefixlen\<close>, also \<open>str(network)\<close>\<close>

definition show_net :: "ipnet \<Rightarrow> string" where
  "show_net n = show_addr (net_addr n) @ CHR ''/'' # show_nat (prefixlen n)"

section \<open>Reading networks and interfaces\<close>

text \<open>A prefix length as a number, for IPv4 also as a netmask or a hostmask.\<close>

definition read_plen :: "nat \<Rightarrow> string \<Rightarrow> nat option" where
  "read_plen w s =
     (if s \<noteq> [] \<and> list_all is_digit s \<and> read_base 10 s \<le> w then Some (read_base 10 s) else None)"

definition mask_plen :: "nat \<Rightarrow> nat option" where
  "mask_plen m = find (\<lambda>p. m = 2 ^ 32 - 2 ^ (32 - p)) [0 ..< 33]"

definition read_mask4 :: "string \<Rightarrow> nat option" where
  "read_mask4 s =
     (case read_plen 32 s of
        Some p \<Rightarrow> Some p
      | None \<Rightarrow>
         (case read_ip4 s of
            None \<Rightarrow> None
          | Some m \<Rightarrow> (case mask_plen m of Some p \<Rightarrow> Some p | None \<Rightarrow> mask_plen (2 ^ 32 - 1 - m))))"

definition split_prefix :: "string \<Rightarrow> (string \<times> string option) option" where
  "split_prefix s = (case split_on (CHR ''/'') s of
      [a] \<Rightarrow> Some (a, None) | [a, p] \<Rightarrow> Some (a, Some p) | _ \<Rightarrow> None)"

text \<open>The address as written and the prefix length: what \<open>ip_interface\<close> keeps.\<close>

definition read_interface4 :: "string \<Rightarrow> (ipaddr \<times> nat) option" where
  "read_interface4 s =
     (case split_prefix s of
        Some (a, None) \<Rightarrow> map_option (\<lambda>n. (V4 n, 32)) (read_ip4 a)
      | Some (a, Some p) \<Rightarrow>
          (case (read_ip4 a, read_mask4 p) of (Some n, Some k) \<Rightarrow> Some (V4 n, k) | _ \<Rightarrow> None)
      | None \<Rightarrow> None)"

definition read_interface6 :: "string \<Rightarrow> (ipaddr \<times> nat) option" where
  "read_interface6 s =
     (case split_prefix s of
        Some (a, None) \<Rightarrow> map_option (\<lambda>n. (n, 128)) (read_v6 a)
      | Some (a, Some p) \<Rightarrow>
          (case (read_v6 a, read_plen 128 p) of (Some n, Some k) \<Rightarrow> Some (n, k) | _ \<Rightarrow> None)
      | None \<Rightarrow> None)"

definition ip_interface :: "string \<Rightarrow> (ipaddr \<times> nat) option" where
  "ip_interface s = (case read_interface4 s of Some i \<Rightarrow> Some i | None \<Rightarrow> read_interface6 s)"

text \<open>Clearing the host bits drops the scope id, an address without host bits keeps it.\<close>

definition to_network :: "ipaddr \<times> nat \<Rightarrow> ipnet" where
  "to_network i =
     (case i of (a, p) \<Rightarrow>
        let m = mask_int (width (version a)) p (addr_int a) in
        if m = addr_int a then \<lparr>net_addr = a, prefixlen = p\<rparr>
        else \<lparr>net_addr = mk_addr (version a) m, prefixlen = p\<rparr>)"

definition ip_network :: "bool \<Rightarrow> string \<Rightarrow> ipnet option" where
  "ip_network strict s =
     (case ip_interface s of
        None \<Rightarrow> None
      | Some (a, p) \<Rightarrow>
          if strict \<and> mask_int (width (version a)) p (addr_int a) \<noteq> addr_int a then None
          else Some (to_network (a, p)))"

definition show_interface :: "ipaddr \<times> nat \<Rightarrow> string" where
  "show_interface i = show_addr (fst i) @ CHR ''/'' # show_nat (snd i)"

end
