(* ===== verification/PyIpFacts.thy ===== *)
theory PyIpFacts
  imports PyIp "HOL-Library.Option_ord" "HOL-Library.Product_Lexorder" "HOL-Library.List_Lexorder"
begin

text \<open>
  Facts on the address model: printed addresses and networks are read back, what the
  readers return is in range, a network is the interval of integers from its first
  address, and addresses are linearly ordered.
\<close>

section \<open>Printing and reading addresses\<close>

lemma filter_upt_single:
  assumes "l \<le> k" "k < u" "P k" "\<And>i. l \<le> i \<Longrightarrow> i < u \<Longrightarrow> P i \<Longrightarrow> i = k"
  shows "filter P [l ..< u] = [k]"
proof -
  have "[l ..< u] = [l ..< k] @ k # [Suc k ..< u]"
    using assms(1,2) upt_add_eq_append [of l k "u - k"] upt_conv_Cons [of k u] by simp
  moreover have "filter P [l ..< k] = []"
    using assms(2,4) by (force simp: filter_empty_conv)
  moreover have "\<not> P i" if "Suc k \<le> i" "i < u" for i
    using assms(4) [of i] assms(1) that by auto
  then have "filter P [Suc k ..< u] = []" by (auto simp: filter_empty_conv)
  ultimately show ?thesis using assms(3) by simp
qed

subsection \<open>Reading back what was printed: IPv4\<close>

lemma show_octet_ok: "n < 256 \<Longrightarrow> read_octet (show_nat n) = Some n"
proof -
  assume n: "n < 256"
  have "length (show_nat n) \<le> 3"
    using show_base_length [of 10 n 2] n by (simp add: show_nat_def)
  moreover have "list_all is_digit (show_nat n)"
    by (simp add: list_all_iff show_nat_chars)
  moreover have "show_nat n = ''0'' \<or> hd (show_nat n) \<noteq> CHR ''0''"
  proof -
    have lead: "hd (show_base 10 m) \<noteq> CHR ''0''" if "0 < m" for m
      using that
    proof (induction m rule: less_induct)
      case (less m)
      show ?case
      proof (cases "m < 10")
        case True
        then have "code (digit_char m) \<noteq> 48" using less.prems by (simp add: code_digit_char)
        then have "digit_char m \<noteq> CHR ''0''" by auto
        then show ?thesis using True by (simp add: show_base.simps [of 10 m])
      next
        case False
        then have "hd (show_base 10 (m div 10)) \<noteq> CHR ''0''" using less.IH [of "m div 10"] by simp
        then show ?thesis using False by (simp add: show_base.simps [of 10 m])
      qed
    qed
    show ?thesis
    proof (cases "n = 0")
      case True
      then show ?thesis by (simp add: show_nat_def show_base.simps [of 10 0] digit_char_def)
    next
      case False
      then show ?thesis using lead [of n] by (simp add: show_nat_def)
    qed
  qed
  ultimately show ?thesis
    using n by (auto simp: read_octet_def show_nat_def read_show_base)
qed

lemma ip4_digits:
  assumes "(n::nat) < 2 ^ 32"
  shows "((n div 2 ^ 24 mod 256 * 256 + n div 2 ^ 16 mod 256) * 256 + n div 2 ^ 8 mod 256) * 256
           + n mod 256 = n"
proof -
  have "n div 2 ^ 8 = n div 256" by simp
  moreover have "n div 2 ^ 16 = n div 256 div 256" by (simp add: div_mult2_eq [symmetric])
  moreover have "n div 2 ^ 24 = n div 256 div 256 div 256" by (simp add: div_mult2_eq [symmetric])
  moreover have "n div 256 div 256 div 256 < 256" using assms by (simp add: div_mult2_eq [symmetric])
  ultimately show ?thesis by simp
qed

lemma digit_neq_dot: "is_hex c \<Longrightarrow> c \<noteq> CHR ''.'' \<and> c \<noteq> CHR '':'' \<and> c \<noteq> CHR ''/'' \<and> c \<noteq> CHR ''%''"
  by (auto simp: is_hex_def)

lemma read_show_ip4: "n < 2 ^ 32 \<Longrightarrow> read_ip4 (show_ip4 n) = Some n"
proof -
  assume n: "n < 2 ^ 32"
  let ?ds = "map (\<lambda>i. show_nat (n div 2 ^ i mod 256)) [24, 16, 8, 0]"
  have "split_on (CHR ''.'') (join ''.'' ?ds) = ?ds"
    using show_nat_chars is_digit_facts digit_neq_dot by (intro split_on_join) fastforce+
  moreover have "map read_octet ?ds = map (\<lambda>i. Some (n div 2 ^ i mod 256)) [24, 16, 8, 0]"
    by (simp add: show_octet_ok del: power_numeral)
  ultimately have "read_ip4 (show_ip4 n) =
      Some (((n div 2 ^ 24 mod 256 * 256 + n div 2 ^ 16 mod 256) * 256 + n div 2 ^ 8 mod 256) * 256
           + n mod 256)"
    unfolding read_ip4_def show_ip4_def by (simp del: power_numeral)
  then show ?thesis by (simp only: ip4_digits [OF n])
qed

subsection \<open>Reading back what was printed: IPv6\<close>

lemma zero_run_spec:
  assumes "zero_run (drop i xs) i start len best = (s', l')" and "i \<le> length xs"
    and "0 < len \<Longrightarrow> start + len = i" and "\<And>j. 0 < len \<Longrightarrow> start \<le> j \<Longrightarrow> j < i \<Longrightarrow> xs ! j = 0"
    and "fst best + snd best \<le> length xs"
    and "\<And>j. fst best \<le> j \<Longrightarrow> j < fst best + snd best \<Longrightarrow> xs ! j = 0"
  shows "s' + l' \<le> length xs \<and> (\<forall>j. s' \<le> j \<longrightarrow> j < s' + l' \<longrightarrow> xs ! j = 0)"
  using assms
proof (induction "drop i xs" i start len best arbitrary: rule: zero_run.induct)
  case (1 i start len best)
  then show ?case by auto
next
  case (2 h hs i start len bs bl)
  from 2(3) have i: "i < length xs" and h: "xs ! i = h" and hs: "hs = drop (i + 1) xs"
    by (metis drop_eq_Nil leI list.distinct(1), metis drop_eq_Nil leI list.distinct(1) hd_drop_conv_nth list.sel(1),
        metis Suc_eq_plus1 drop_Suc list.sel(3) tl_drop)
  show ?case
  proof (cases "h = 0")
    case True
    let ?start = "if len = 0 then i else start"
    have zr: "\<And>j. ?start \<le> j \<Longrightarrow> j < i + 1 \<Longrightarrow> xs ! j = 0"
      using 2(7) True h by (auto simp: less_Suc_eq split: if_splits)
    show ?thesis
      apply (rule 2(1) [OF True _ _ hs])
      using 2(4-) True i zr by (auto simp: hs 2(3) [symmetric] split: if_splits)
  next
    case False
    show ?thesis
      apply (rule 2(2) [OF False hs])
      using 2(4-) False i by (auto simp: hs 2(3) [symmetric])
  qed
qed


lemma read_all_map:
  "(\<And>x. x \<in> set xs \<Longrightarrow> f (g x) = Some x) \<Longrightarrow> read_all f (map g xs) = Some xs"
  by (induction xs) auto

lemma read_show_hextet: "h < 65536 \<Longrightarrow> read_hextet (show_base 16 h) = Some h"
  using show_base_length [of 16 h 3]
  by (simp add: read_hextet_def list_all_iff show_hex_chars)

text \<open>The parts of an address with a double colon, read back as the hextets around it.\<close>

definition gap_parts :: "nat list \<Rightarrow> nat list \<Rightarrow> string list" where
  "gap_parts a b = (if a = [] then [''''] else []) @ map (show_base 16) a @ ['''']
     @ map (show_base 16) b @ (if b = [] then [''''] else [])"

lemma inner_empty_gap:
  "inner_empty (gap_parts a b) = [if a = [] then 1 else length a]"
proof -
  let ?ps = "gap_parts a b" and ?k = "if a = [] then 1 else length a"
  have n: "length ?ps = (if a = [] then 1 else 0) + length a + 1 + length b + (if b = [] then 1 else 0)"
    by (simp add: gap_parts_def)
  have "?k < length ?ps - 1" by (auto simp: n)
  moreover have "?ps ! ?k = []" by (auto simp: gap_parts_def nth_append)
  moreover have "i = ?k" if "1 \<le> i" "i < length ?ps - 1" "?ps ! i = []" for i
    using that by (auto simp: gap_parts_def nth_append nth_Cons' split: if_splits)
  ultimately show ?thesis
    unfolding inner_empty_def by (intro filter_upt_single) (auto simp: Suc_le_eq)
qed

lemma read_parts_gap:
  assumes "length a + length b \<le> 7" and "\<forall>h \<in> set a \<union> set b. h < 65536"
  shows "read_parts (gap_parts a b) =
           Some (of_hextets (a @ replicate (8 - (length a + length b)) 0 @ b))"
proof -
  let ?ps = "gap_parts a b" and ?k = "if a = [] then 1 else length a"
  have tk: "take ?k ?ps = (if a = [] then [''''] else map (show_base 16) a)"
    by (auto simp: gap_parts_def)
  have dr: "drop (?k + 1) ?ps = (if b = [] then [''''] else map (show_base 16) b)"
    by (auto simp: gap_parts_def)
  have hd: "hd ?ps = [] \<longleftrightarrow> a = []" by (cases a) (auto simp: gap_parts_def)
  have la: "last ?ps = [] \<longleftrightarrow> b = []"
    by (cases b rule: rev_cases) (auto simp: gap_parts_def)
  have ra: "read_all read_hextet (map (show_base 16) a) = Some a"
    and rb: "read_all read_hextet (map (show_base 16) b) = Some b"
    using assms(2) by (auto intro!: read_all_map read_show_hextet)
  show ?thesis
    using assms(1) ra rb unfolding read_parts_def inner_empty_gap list.case Let_def tk dr hd la
    by auto
qed

lemma of_hextets_hextets: "n < 2 ^ 128 \<Longrightarrow> of_hextets (hextets n) = n"
proof -
  assume n: "n < 2 ^ 128"
  have step: "m = Suc k \<Longrightarrow> n div 65536 ^ m * 65536 + n div 65536 ^ k mod 65536 = n div 65536 ^ k"
    for m k using div_mult_mod_eq [of "n div 65536 ^ k" 65536]
    by (simp only: power_Suc2 div_mult2_eq)
  have "n div 65536 ^ 7 < 65536" using n by (simp add: less_mult_imp_div_less)
  then have top: "n div 65536 ^ 7 mod 65536 = n div 65536 ^ 7" by (rule mod_less)
  have s: "n div 65536 ^ 7 * 65536 + n div 65536 ^ 6 mod 65536 = n div 65536 ^ 6"
    "n div 65536 ^ 6 * 65536 + n div 65536 ^ 5 mod 65536 = n div 65536 ^ 5"
    "n div 65536 ^ 5 * 65536 + n div 65536 ^ 4 mod 65536 = n div 65536 ^ 4"
    "n div 65536 ^ 4 * 65536 + n div 65536 ^ 3 mod 65536 = n div 65536 ^ 3"
    "n div 65536 ^ 3 * 65536 + n div 65536 ^ 2 mod 65536 = n div 65536 ^ 2"
    "n div 65536 ^ 2 * 65536 + n div 65536 ^ 1 mod 65536 = n div 65536 ^ 1"
    "n div 65536 ^ 1 * 65536 + n div 65536 ^ 0 mod 65536 = n div 65536 ^ 0"
    by (rule step, simp)+
  show ?thesis
    unfolding of_hextets_def hextets_def list.map foldl.simps top mult_0 add_0 s by simp
qed

lemma length_hextets [simp]: "length (hextets n) = 8"
  by (simp add: hextets_def)

lemma hextets_bound: "h \<in> set (hextets n) \<Longrightarrow> h < 65536"
  by (auto simp: hextets_def)

lemma compress_cases:
  assumes "length hs = 8"
  shows "compress hs = map (show_base 16) hs \<or>
    (\<exists>a b. compress hs = gap_parts a b \<and> length a + length b \<le> 6 \<and>
           hs = a @ replicate (8 - (length a + length b)) 0 @ b)"
proof -
  obtain bs bl where zr: "zero_run hs 0 0 0 (0, 0) = (bs, bl)" by fastforce
  have len: "bs + bl \<le> 8" and zs: "\<And>j. bs \<le> j \<Longrightarrow> j < bs + bl \<Longrightarrow> hs ! j = 0"
    using zero_run_spec [of 0 hs 0 0 "(0, 0)" bs bl] zr assms by auto
  show ?thesis
  proof (cases "1 < bl")
    case False
    then show ?thesis by (simp add: compress_def zr)
  next
    case True
    let ?a = "take bs hs" and ?b = "drop (bs + bl) hs"
    have la: "length ?a = bs" and lb: "length ?b = 8 - (bs + bl)" using len assms by auto
    have "take bl (drop bs hs) = replicate bl 0"
      using len assms zs by (intro nth_equalityI) auto
    moreover have "hs = ?a @ take bl (drop bs hs) @ ?b"
      by (metis add.commute append_take_drop_id drop_drop)
    ultimately have hs: "hs = ?a @ replicate (8 - (length ?a + length ?b)) 0 @ ?b"
      using la lb len by simp
    have "compress hs = gap_parts ?a ?b"
      using True la lb len assms
      by (auto simp: compress_def zr gap_parts_def take_map drop_map Let_def)
    then show ?thesis using hs la lb True len by fastforce
  qed
qed

lemma gap_parts_chars: "w \<in> set (gap_parts a b) \<Longrightarrow> c \<in> set w \<Longrightarrow> is_hex c"
  by (auto simp: gap_parts_def show_hex_chars split: if_splits)

lemma compress_chars: "length hs = 8 \<Longrightarrow> w \<in> set (compress hs) \<Longrightarrow> c \<in> set w \<Longrightarrow> is_hex c"
  using compress_cases [of hs] gap_parts_chars show_hex_chars by fastforce

lemma read_parts_plain:
  assumes "length hs = 8" and "\<forall>h \<in> set hs. h < 65536"
  shows "read_parts (map (show_base 16) hs) = Some (of_hextets hs)"
proof -
  have "inner_empty (map (show_base 16) hs) = []"
    using assms(1) by (auto simp: inner_empty_def filter_empty_conv)
  moreover have "hs \<noteq> []" using assms(1) by auto
  moreover have "read_all read_hextet (map (show_base 16) hs) = Some hs"
    using assms(2) by (intro read_all_map read_show_hextet) auto
  ultimately show ?thesis
    using assms(1) by (simp add: read_parts_def hd_map last_map)
qed

lemma read_parts_compress:
  assumes "length hs = 8" and "\<forall>h \<in> set hs. h < 65536"
  shows "read_parts (compress hs) = Some (of_hextets hs)"
  using compress_cases [OF assms(1)]
proof
  assume "compress hs = map (show_base 16) hs"
  then show ?thesis using read_parts_plain assms by simp
next
  assume "\<exists>a b. compress hs = gap_parts a b \<and> length a + length b \<le> 6 \<and>
           hs = a @ replicate (8 - (length a + length b)) 0 @ b"
  then obtain a b where ab: "compress hs = gap_parts a b" "length a + length b \<le> 6"
    "hs = a @ replicate (8 - (length a + length b)) 0 @ b" by blast
  have "\<forall>h \<in> set a \<union> set b. h < 65536" using assms(2) ab(3) by (metis Un_iff set_append)
  then show ?thesis using read_parts_gap [of a b] ab by simp
qed

lemma length_compress: "length hs = 8 \<Longrightarrow> 3 \<le> length (compress hs) \<and> length (compress hs) \<le> 9"
  using compress_cases [of hs]
  by (auto simp: gap_parts_def neq_Nil_conv)

lemma read_show_ip6: "n < 2 ^ 128 \<Longrightarrow> read_ip6 (show_ip6 n) = Some n"
proof -
  assume n: "n < 2 ^ 128"
  let ?ps = "compress (hextets n)"
  have len: "3 \<le> length ?ps" "length ?ps \<le> 9" using length_compress [of "hextets n"] by auto
  then have ne: "?ps \<noteq> []" by auto
  have "split_on (CHR '':'') (show_ip6 n) = ?ps"
    unfolding show_ip6_def using ne compress_chars [of "hextets n"] digit_neq_dot
    by (intro split_on_join) fastforce+
  moreover have "CHR ''.'' \<notin> set (last ?ps)"
    using ne compress_chars [of "hextets n" "last ?ps"] digit_neq_dot by fastforce
  moreover have "read_parts ?ps = Some n"
    using read_parts_compress [of "hextets n"] hextets_bound of_hextets_hextets [OF n] by auto
  ultimately show ?thesis using len by (simp add: read_ip6_def expand_v4_def)
qed

lemma join_chars: "c \<in> set (join sep ws) \<Longrightarrow> c \<in> set sep \<or> (\<exists>w \<in> set ws. c \<in> set w)"
  by (induction sep ws rule: join.induct) auto

lemma show_ip6_chars: "c \<in> set (show_ip6 n) \<Longrightarrow> is_hex c \<or> c = CHR '':''"
  using join_chars [of c "'':''" "compress (hextets n)"] compress_chars [of "hextets n"]
  by (auto simp: show_ip6_def)

lemma show_ip4_chars: "c \<in> set (show_ip4 n) \<Longrightarrow> is_digit c \<or> c = CHR ''.''"
  using join_chars [of c "''.''" "map (\<lambda>i. show_nat (n div 2 ^ i mod 256)) [24, 16, 8, 0]"]
    show_nat_chars by (auto simp: show_ip4_def)

text \<open>A printed IPv6 address is not an IPv4 address: it has no dot.\<close>

lemma read_ip4_dots: "CHR ''.'' \<notin> set s \<Longrightarrow> read_ip4 s = None"
proof -
  assume "CHR ''.'' \<notin> set s"
  then have "split_on (CHR ''.'') s = [s]"
    unfolding split_on_def by (intro split_by_single) auto
  then show ?thesis by (simp add: read_ip4_def split: option.splits)
qed

text \<open>An address the printer writes so that the reader gets it back.\<close>

fun addr_plain :: "ipaddr \<Rightarrow> bool" where
  "addr_plain (V4 n) \<longleftrightarrow> n < 2 ^ 32"
| "addr_plain (V6 n None) \<longleftrightarrow> n < 2 ^ 128"
| "addr_plain (V6 n (Some sc)) \<longleftrightarrow> False"

lemma show_addr_chars:
  "addr_plain a \<Longrightarrow> c \<in> set (show_addr a) \<Longrightarrow> is_hex c \<or> c = CHR '':'' \<or> c = CHR ''.''"
  by (cases a rule: addr_plain.cases) (auto dest: show_ip6_chars show_ip4_chars is_digit_facts)

lemma show_addr_clean:
  assumes "addr_plain a" and "c \<in> set (show_addr a)"
  shows "\<not> is_space c \<and> \<not> is_eol c \<and> c \<noteq> CHR ''/'' \<and> c \<noteq> CHR ''%'' \<and> c \<noteq> CHR '',''"
  using show_addr_chars [OF assms] is_hex_facts [of c]
  by (auto simp: is_hex_def is_space_def is_eol_def)

theorem ip_address_show: "addr_plain a \<Longrightarrow> ip_address (show_addr a) = Some a"
proof (cases a rule: addr_plain.cases)
  case (1 n)
  moreover assume "addr_plain a"
  ultimately show ?thesis by (simp add: ip_address_def read_show_ip4)
next
  case (2 n)
  moreover assume "addr_plain a"
  ultimately have n: "n < 2 ^ 128" by simp
  have "CHR ''.'' \<notin> set (show_ip6 n)" "CHR ''/'' \<notin> set (show_ip6 n)" "CHR ''%'' \<notin> set (show_ip6 n)"
    using show_ip6_chars digit_neq_dot by fastforce+
  then show ?thesis using 2 read_show_ip6 [OF n]
    by (simp add: ip_address_def read_ip4_dots read_v6_def)
next
  case (3 n sc)
  moreover assume "addr_plain a"
  ultimately show ?thesis by simp
qed

section \<open>What the readers return is in range\<close>

lemma digit_val_bound: "is_hex c \<Longrightarrow> digit_val c < 16"
  by (auto simp: is_hex_def digit_val_def Let_def)

lemma digit_val_digit: "is_digit c \<Longrightarrow> digit_val c < 10"
  by (auto simp: is_digit_def digit_val_def Let_def)

lemma read_base_bound:
  "2 \<le> b \<Longrightarrow> (\<And>c. c \<in> set s \<Longrightarrow> digit_val c < b) \<Longrightarrow> read_base b s < b ^ length s"
proof (induction s rule: rev_induct)
  case Nil
  then show ?case by (simp add: read_base_def)
next
  case (snoc c s)
  then have "read_base b s < b ^ length s" and "digit_val c < b" by auto
  then have "read_base b s * b + digit_val c < (read_base b s + 1) * b" by simp
  also have "\<dots> \<le> b ^ length s * b"
    using \<open>read_base b s < b ^ length s\<close> by (intro mult_le_mono1) simp
  finally show ?case by (simp add: read_base_snoc mult.commute)
qed

lemma read_hextet_bound: "read_hextet s = Some h \<Longrightarrow> h < 65536"
proof -
  assume a: "read_hextet s = Some h"
  then have "h < 16 ^ length s" and "length s \<le> 4"
    using read_base_bound [of 16 s] digit_val_bound
    by (auto simp: read_hextet_def list_all_iff split: if_splits)
  moreover have "(16::nat) ^ length s \<le> 16 ^ 4"
    using \<open>length s \<le> 4\<close> by (intro power_increasing) auto
  ultimately show ?thesis by simp
qed

lemma read_all_set:
  "read_all f xs = Some ys \<Longrightarrow> length ys = length xs \<and> (\<forall>y \<in> set ys. \<exists>x \<in> set xs. f x = Some y)"
  by (induction xs arbitrary: ys) (auto split: option.splits)

lemma read_all_hextets:
  "read_all read_hextet xs = Some ys \<Longrightarrow> length ys = length xs \<and> (\<forall>y \<in> set ys. y < 65536)"
  using read_all_set [of read_hextet xs ys] read_hextet_bound by blast

lemma of_hextets_bound:
  "(\<And>h. h \<in> set hs \<Longrightarrow> h < 65536) \<Longrightarrow> of_hextets hs < 65536 ^ length hs"
proof (induction hs rule: rev_induct)
  case Nil
  then show ?case by (simp add: of_hextets_def)
next
  case (snoc h hs)
  then have "of_hextets hs < 65536 ^ length hs" and "h < 65536" by auto
  then have "of_hextets hs * 65536 + h < (of_hextets hs + 1) * 65536" by simp
  also have "\<dots> \<le> 65536 ^ length hs * 65536"
    using \<open>of_hextets hs < 65536 ^ length hs\<close> by (intro mult_le_mono1) simp
  finally show ?case by (simp add: of_hextets_def mult.commute)
qed

lemma of_hextets_8:
  "length hs = 8 \<Longrightarrow> (\<And>h. h \<in> set hs \<Longrightarrow> h < 65536) \<Longrightarrow> of_hextets hs < 2 ^ 128"
  using of_hextets_bound [of hs] by simp

lemma read_parts_bound: "read_parts ps = Some n \<Longrightarrow> n < 2 ^ 128"
  unfolding read_parts_def
  by (auto simp: Let_def split: list.splits if_splits option.splits
      intro!: of_hextets_8 [simplified] dest!: read_all_hextets)

lemma read_ip6_bound: "read_ip6 s = Some n \<Longrightarrow> n < 2 ^ 128"
  by (auto simp: read_ip6_def Let_def split: if_splits option.splits dest: read_parts_bound)

lemma read_octet_bound: "read_octet s = Some n \<Longrightarrow> n < 256"
  by (auto simp: read_octet_def split: if_splits)

lemma read_ip4_bound: "read_ip4 s = Some n \<Longrightarrow> n < 2 ^ 32"
proof -
  assume "read_ip4 s = Some n"
  then obtain a b c d where "map read_octet (split_on (CHR ''.'') s) = [Some a, Some b, Some c, Some d]"
    and n: "n = ((a * 256 + b) * 256 + c) * 256 + d"
    by (auto simp: read_ip4_def split: list.splits option.splits)
  then have "a < 256 \<and> b < 256 \<and> c < 256 \<and> d < 256"
    by (auto dest: read_octet_bound)
  then show ?thesis by (simp add: n)
qed

lemma read_v6_ok: "read_v6 s = Some a \<Longrightarrow> addr_ok a \<and> version a = 6"
  by (auto simp: read_v6_def Let_def split: if_splits dest: read_ip6_bound)

lemma ip_address_ok: "ip_address s = Some a \<Longrightarrow> addr_ok a"
  by (auto simp: ip_address_def split: option.splits dest: read_ip4_bound read_v6_ok)

lemma version_cases: "version a = 4 \<or> version a = 6"
  by (cases a) auto

lemma addr_ok_width: "addr_ok a \<longleftrightarrow> addr_int a < 2 ^ width (version a)"
  by (cases a) (auto simp: width_def)

lemma version_mk_addr [simp]: "v = 4 \<or> v = 6 \<Longrightarrow> version (mk_addr v n) = v"
  by (auto simp: mk_addr_def)

lemma addr_int_mk_addr [simp]: "addr_int (mk_addr v n) = n"
  by (simp add: mk_addr_def)

lemma mk_addr_eq: "addr_plain a \<Longrightarrow> mk_addr (version a) (addr_int a) = a"
  by (cases a rule: addr_plain.cases) (auto simp: mk_addr_def)

lemma addr_plain_ok: "addr_plain a \<Longrightarrow> addr_ok a"
  by (cases a rule: addr_plain.cases) auto

lemma addr_plain_mk: "addr_ok (mk_addr v n) \<Longrightarrow> addr_plain (mk_addr v n)"
  by (auto simp: mk_addr_def split: if_splits)

lemma addr_plain_eqI:
  "addr_plain a \<Longrightarrow> addr_plain b \<Longrightarrow> version a = version b \<Longrightarrow> addr_int a = addr_int b \<Longrightarrow> a = b"
  by (metis mk_addr_eq)

section \<open>Networks as ranges of integers\<close>

lemma mask_int_le: "mask_int w p x \<le> x"
  by (simp add: mask_int_def)

lemma mask_int_dvd: "2 ^ (w - p) dvd mask_int w p x"
  by (simp add: mask_int_def minus_mod_eq_mult_div)

lemma mask_int_id: "mask_int w p x = x \<longleftrightarrow> 2 ^ (w - p) dvd x"
  by (metis diff_zero mask_int_def mask_int_dvd mod_0_imp_dvd dvd_imp_mod_0)

lemma multiple_below:
  fixes d m x :: nat
  assumes "0 < d" and "d dvd m"
  shows "x - x mod d = m \<longleftrightarrow> m \<le> x \<and> x < m + d"
proof
  assume "x - x mod d = m"
  moreover have "x mod d \<le> x" and "x mod d < d" using assms(1) by auto
  ultimately show "m \<le> x \<and> x < m + d" by linarith
next
  assume a: "m \<le> x \<and> x < m + d"
  obtain k where "m = d * k" using assms(2) by blast
  moreover obtain r where "x = m + r" "r < d" using a by (metis le_Suc_ex nat_add_left_cancel_less)
  ultimately show "x - x mod d = m" by simp
qed

lemma mask_int_range:
  "2 ^ (w - p) dvd m \<Longrightarrow> mask_int w p x = m \<longleftrightarrow> m \<le> x \<and> x < m + 2 ^ (w - p)"
  unfolding mask_int_def by (rule multiple_below) simp_all

lemma in_net_range:
  "net_ok n \<Longrightarrow> in_net a n \<longleftrightarrow> version a = net_version n \<and> addr_int a \<in> net_range n"
  by (auto simp: in_net_def net_ok_def net_range_def num_addresses_def mask_int_range)

lemma num_addresses_pos [simp]: "0 < num_addresses n"
  by (simp add: num_addresses_def)

lemma broadcast_in_range: "broadcast_int n \<in> net_range n"
proof -
  have "0 < num_addresses n" by simp
  then show ?thesis unfolding broadcast_int_def net_range_def by (auto simp del: num_addresses_pos)
qed

lemma net_version_cases: "net_version n = 4 \<or> net_version n = 6"
  by (simp add: net_version_def version_cases)

lemma overlaps_range:
  assumes "net_ok a" and "net_ok b" and "net_version a = net_version b"
  shows "overlaps a b \<longleftrightarrow> net_range a \<inter> net_range b \<noteq> {}"
proof -
  have pos: "0 < num_addresses a" "0 < num_addresses b" by simp_all
  show ?thesis
    using assms net_version_cases [of a] net_version_cases [of b] pos
    by (auto simp: overlaps_def in_net_range net_version_def [symmetric] net_int_def [symmetric]
        net_range_def broadcast_int_def simp del: num_addresses_pos)
qed

lemma subnet_of_range:
  "subnet_of a b \<Longrightarrow> net_range a \<subseteq> net_range b"
  using num_addresses_pos [of a] num_addresses_pos [of b]
  by (auto simp: subnet_of_def addr_le_def net_range_def broadcast_int_def net_int_def
      simp del: num_addresses_pos)

lemma net_range_top: "net_ok n \<Longrightarrow> net_int n + num_addresses n \<le> 2 ^ width (net_version n)"
proof -
  assume n: "net_ok n"
  let ?w = "width (net_version n)"
  let ?d = "2 ^ (?w - prefixlen n) :: nat"
  obtain k where k: "net_int n = ?d * k" using n by (auto simp: net_ok_def)
  have w: "(2::nat) ^ ?w = ?d * 2 ^ prefixlen n"
    using n by (simp add: net_ok_def power_add [symmetric])
  have "?d * k < ?d * 2 ^ prefixlen n"
    using n k w by (simp add: net_ok_def net_version_def net_int_def addr_ok_width)
  then have "k + 1 \<le> 2 ^ prefixlen n" by simp
  then have "?d * (k + 1) \<le> ?d * 2 ^ prefixlen n" by (rule mult_le_mono2)
  then show ?thesis using k w by (simp add: num_addresses_def)
qed

lemma to_network_ok:
  assumes "addr_ok a" and "p \<le> width (version a)"
  shows "net_ok (to_network (a, p))"
proof (cases "mask_int (width (version a)) p (addr_int a) = addr_int a")
  case True
  then show ?thesis using assms mask_int_id
    by (auto simp: to_network_def net_ok_def net_version_def net_int_def Let_def)
next
  case False
  have "mask_int (width (version a)) p (addr_int a) < 2 ^ width (version a)"
    using assms(1) mask_int_le [of "width (version a)" p "addr_int a"]
    by (simp add: addr_ok_width)
  then show ?thesis using False assms version_cases [of a] mask_int_dvd
    by (auto simp: to_network_def net_ok_def net_version_def net_int_def Let_def addr_ok_width)
qed

lemma read_plen_bound: "read_plen w s = Some p \<Longrightarrow> p \<le> w"
  by (auto simp: read_plen_def split: if_splits)

lemma mask_plen_bound: "mask_plen m = Some p \<Longrightarrow> p \<le> 32"
  by (auto simp: mask_plen_def find_Some_iff less_Suc_eq_le nth_append split: if_splits)

lemma read_mask4_bound: "read_mask4 s = Some p \<Longrightarrow> p \<le> 32"
  by (auto simp: read_mask4_def split: option.splits dest: read_plen_bound mask_plen_bound)

lemma ip_interface_ok:
  "ip_interface s = Some (a, p) \<Longrightarrow> addr_ok a \<and> p \<le> width (version a)"
  by (auto simp: ip_interface_def read_interface4_def read_interface6_def width_def
      split: option.splits prod.splits
      dest: read_ip4_bound read_mask4_bound read_v6_ok read_plen_bound)

lemma ip_network_ok: "ip_network strict s = Some n \<Longrightarrow> net_ok n"
  by (auto simp: ip_network_def split: option.splits prod.splits if_splits
      dest!: ip_interface_ok intro: to_network_ok)

section \<open>Reading back printed networks\<close>

lemma split_prefix_show:
  assumes "CHR ''/'' \<notin> set s" and "CHR ''/'' \<notin> set p"
  shows "split_prefix (s @ CHR ''/'' # p) = Some (s, Some p)"
proof -
  have "split_on (CHR ''/'') (s @ CHR ''/'' # p) = [s, p]"
    unfolding split_on_def using assms
    by (subst split_by_append) (auto intro: split_by_single)
  then show ?thesis by (simp add: split_prefix_def)
qed

lemma read_plen_show: "p \<le> w \<Longrightarrow> read_plen w (show_nat p) = Some p"
  using show_nat_chars [of _ p] by (auto simp: read_plen_def list_all_iff show_nat_def read_show_base)

lemma slash_not_plen: "CHR ''/'' \<notin> set (show_nat p)"
  using show_nat_chars [of "CHR ''/''" p] by (auto simp: is_digit_def)

lemma ip_interface_show:
  assumes "addr_plain a" and "p \<le> width (version a)"
  shows "ip_interface (show_addr a @ CHR ''/'' # show_nat p) = Some (a, p)"
proof -
  have slash: "CHR ''/'' \<notin> set (show_addr a)" using show_addr_clean [OF assms(1)] by blast
  note sp = split_prefix_show [OF slash slash_not_plen]
  show ?thesis
  proof (cases a rule: addr_plain.cases)
    case (1 n)
    then show ?thesis using assms sp
      by (simp add: ip_interface_def read_interface4_def read_show_ip4 read_mask4_def
          read_plen_show width_def)
  next
    case (2 n)
    have "CHR ''.'' \<notin> set (show_ip6 n)" "CHR ''/'' \<notin> set (show_ip6 n)" "CHR ''%'' \<notin> set (show_ip6 n)"
      using show_ip6_chars digit_neq_dot by fastforce+
    then show ?thesis using assms sp 2
      by (simp add: ip_interface_def read_interface4_def read_interface6_def read_ip4_dots
          read_show_ip6 read_v6_def read_plen_show width_def)
  next
    case (3 n sc)
    then show ?thesis using assms by simp
  qed
qed

definition net_plain :: "ipnet \<Rightarrow> bool" where
  "net_plain n \<longleftrightarrow> net_ok n \<and> addr_plain (net_addr n)"

theorem ip_network_show: "net_plain n \<Longrightarrow> ip_network strict (show_net n) = Some n"
  using ip_interface_show [of "net_addr n" "prefixlen n"]
  by (auto simp: net_plain_def net_ok_def show_net_def net_version_def net_int_def ip_network_def
      mask_int_id to_network_def Let_def)

lemma show_net_inj: "net_plain a \<Longrightarrow> net_plain b \<Longrightarrow> show_net a = show_net b \<Longrightarrow> a = b"
  by (metis ip_network_show option.inject)

lemma show_net_clean:
  assumes "net_plain n" and "c \<in> set (show_net n)"
  shows "\<not> is_space c \<and> \<not> is_eol c \<and> c \<noteq> CHR '','' \<and> c \<noteq> CHR ''#''"
  using assms show_addr_clean [of "net_addr n" c] show_addr_chars [of "net_addr n" c]
    show_nat_chars [of c "prefixlen n"] is_digit_facts [of c]
  by (auto simp: show_net_def net_plain_def is_digit_def is_hex_def is_space_def is_eol_def)

lemma show_net_line: "net_plain n \<Longrightarrow> clean_line (show_net n)"
  using show_net_clean by (auto simp: clean_line_def)

section \<open>Addresses with a scope id\<close>

fun addr_printable :: "ipaddr \<Rightarrow> bool" where
  "addr_printable (V6 n (Some sc)) \<longleftrightarrow>
     n < 2 ^ 128 \<and> sc \<noteq> [] \<and> CHR ''%'' \<notin> set sc \<and> CHR ''/'' \<notin> set sc"
| "addr_printable a \<longleftrightarrow> addr_ok a"

lemma addr_plain_printable: "addr_plain a \<Longrightarrow> addr_printable a"
  by (cases a rule: addr_plain.cases) auto

lemma addr_printable_ok: "addr_printable a \<Longrightarrow> addr_ok a"
  by (cases a rule: addr_printable.cases) auto

lemma split_by_pieces_cover: "x \<in> set s \<Longrightarrow> \<not> p x \<Longrightarrow> \<exists>w \<in> set (split_by p s). x \<in> set w"
proof (induction s)
  case Nil
  then show ?case by simp
next
  case (Cons c cs)
  then show ?case by (cases "split_by p cs") (auto split: list.splits)
qed

lemma read_ip4_digits:
  assumes "read_ip4 s = Some n" and "c \<in> set s"
  shows "is_digit c \<or> c = CHR ''.''"
proof (rule ccontr)
  assume "\<not> (is_digit c \<or> c = CHR ''.'')"
  then obtain w where w: "w \<in> set (split_on (CHR ''.'') s)" "c \<in> set w" "\<not> is_digit c"
    using split_by_pieces_cover [OF assms(2), of "\<lambda>x. x = CHR ''.''"] by (auto simp: split_on_def)
  then have "None \<in> set (map read_octet (split_on (CHR ''.'') s))"
    by (auto simp: read_octet_def list_all_iff image_iff intro!: bexI [of _ w])
  then show False using assms(1)
    by (auto simp: read_ip4_def split: list.splits option.splits)
qed

lemma show_ip6_colon: "CHR '':'' \<in> set (show_ip6 n)"
proof -
  obtain a b rest where "compress (hextets n) = a # b # rest"
    using length_compress [of "hextets n"] by (metis Suc_le_length_iff length_hextets numeral_3_eq_3)
  then show ?thesis by (simp add: show_ip6_def)
qed

lemma takeWhile_upto: "x \<notin> set a \<Longrightarrow> takeWhile (\<lambda>y. y \<noteq> x) (a @ x # b) = a"
  by (induction a) auto

lemma ip_address_show_printable: "addr_printable a \<Longrightarrow> ip_address (show_addr a) = Some a"
proof (cases a rule: addr_plain.cases)
  case (1 n)
  moreover assume "addr_printable a"
  ultimately show ?thesis using ip_address_show [of a] by (simp del: show_addr.simps)
next
  case (2 n)
  moreover assume "addr_printable a"
  ultimately show ?thesis using ip_address_show [of a] by (simp del: show_addr.simps)
next
  case (3 n sc)
  moreover assume "addr_printable a"
  ultimately have n: "n < 2 ^ 128" and sc: "sc \<noteq> []" "CHR ''%'' \<notin> set sc" "CHR ''/'' \<notin> set sc"
    by auto
  have ch: "CHR ''/'' \<notin> set (show_ip6 n)" "CHR ''%'' \<notin> set (show_ip6 n)"
    using show_ip6_chars digit_neq_dot by fastforce+
  have "read_ip4 (show_ip6 n @ CHR ''%'' # sc) = None"
    using read_ip4_digits [of "show_ip6 n @ CHR ''%'' # sc" _ "CHR ''%''"]
    by (cases "read_ip4 (show_ip6 n @ CHR ''%'' # sc)") (auto simp: is_digit_def)
  then show ?thesis using 3 sc ch read_show_ip6 [OF n]
    by (simp add: ip_address_def read_v6_def before_def takeWhile_upto Let_def)
qed

lemma ip_address_printable: "ip_address s = Some a \<Longrightarrow> addr_printable a"
  by (auto simp: ip_address_def read_v6_def Let_def split: option.splits if_splits
      dest: read_ip4_bound read_ip6_bound dest!: in_set_dropD)

text \<open>The printed form of an address that was read has no white space around it.\<close>

lemma last_strip: "strip s \<noteq> [] \<Longrightarrow> \<not> is_space (last (strip s))"
  using hd_dropWhile [of is_space "rev (lstrip s)"] by (simp add: strip_def rstrip_def last_rev)

lemma show_addr_stripped:
  assumes "ip_address (strip raw) = Some a"
  shows "strip (show_addr a) = show_addr a"
proof (cases a rule: addr_plain.cases)
  case (3 n sc)
  then have s: "CHR ''%'' \<in> set (strip raw)" "sc = drop (length (before (CHR ''%'') (strip raw)) + 1) (strip raw)" "sc \<noteq> []"
    using assms by (auto simp: ip_address_def read_v6_def Let_def split: option.splits if_splits)
  then have "last sc = last (strip raw)" by simp
  moreover have "strip raw \<noteq> []" using s(1) by auto
  then have "\<not> is_space (last (strip raw))" by (rule last_strip)
  moreover have "\<not> is_space (hd (show_ip6 n))" "show_ip6 n \<noteq> []"
    using show_ip6_colon [of n] show_ip6_chars [of "hd (show_ip6 n)" n]
    by (cases "show_ip6 n"; auto simp: is_hex_def is_digit_def is_space_def Let_def)+
  ultimately show ?thesis using 3 s(3) by (intro strip_ends) auto
next
  case (2 n)
  then show ?thesis
    using show_ip6_chars [of _ n] by (intro strip_clean) (fastforce simp: is_hex_def is_digit_def is_space_def Let_def)
next
  case (1 n)
  then show ?thesis
    using show_ip4_chars [of _ n] by (intro strip_clean) (fastforce simp: is_hex_def is_digit_def is_space_def Let_def)
qed

lemma show_addr_inj:
  "addr_printable a \<Longrightarrow> addr_printable b \<Longrightarrow> show_addr a = show_addr b \<Longrightarrow> a = b"
  by (metis ip_address_show_printable option.inject)

section \<open>A linear order on addresses\<close>

instantiation ipaddr :: linorder
begin

definition addr_key :: "ipaddr \<Rightarrow> nat \<times> nat \<times> string option" where
  "addr_key a = (version a, addr_int a, (case a of V4 n \<Rightarrow> None | V6 n s \<Rightarrow> s))"

definition less_eq_ipaddr :: "ipaddr \<Rightarrow> ipaddr \<Rightarrow> bool" where
  "less_eq_ipaddr a b \<longleftrightarrow> addr_key a \<le> addr_key b"

definition less_ipaddr :: "ipaddr \<Rightarrow> ipaddr \<Rightarrow> bool" where
  "less_ipaddr a b \<longleftrightarrow> addr_key a < addr_key b"

lemma addr_key_inj: "addr_key a = addr_key b \<Longrightarrow> a = b"
  by (cases a; cases b) (auto simp: addr_key_def)

instance
  by standard (auto simp: less_eq_ipaddr_def less_ipaddr_def intro: addr_key_inj)

end

section \<open>Evaluation on concrete inputs\<close>

declare show_ip4_def [eval_simps] show_ip6_def [eval_simps] hextets_def [eval_simps]
  compress_def [eval_simps] show_net_def [eval_simps]

lemma ip_address_eval: "show_addr a = s \<Longrightarrow> addr_plain a \<Longrightarrow> ip_address s = Some a"
  using ip_address_show by blast

lemma ip_network_eval: "show_net n = s \<Longrightarrow> net_plain n \<Longrightarrow> ip_network strict s = Some n"
  using ip_network_show by blast

lemma net_plain_eval [eval_simps]:
  "net_plain \<lparr>net_addr = V4 n, prefixlen = p\<rparr> \<longleftrightarrow> n < 2 ^ 32 \<and> p \<le> 32 \<and> 2 ^ (32 - p) dvd n"
  "net_plain \<lparr>net_addr = V6 n None, prefixlen = p\<rparr> \<longleftrightarrow> n < 2 ^ 128 \<and> p \<le> 128 \<and> 2 ^ (128 - p) dvd n"
  by (auto simp: net_plain_def net_ok_def net_version_def net_int_def width_def)

section \<open>Texts without a scope id\<close>

lemma split_prefix_chars: "split_prefix s = Some (a, q) \<Longrightarrow> set a \<subseteq> set s"
  using split_by_pieces [of a "\<lambda>x. x = CHR ''/''" s]
  by (auto simp: split_prefix_def split_on_def split: list.splits)

lemma read_v6_no_scope: "read_v6 a = Some x \<Longrightarrow> CHR ''%'' \<notin> set a \<Longrightarrow> addr_plain x"
  by (auto simp: read_v6_def split: if_splits dest: read_ip6_bound)

lemma ip_network_no_scope:
  assumes "ip_network strict s = Some n" and "CHR ''%'' \<notin> set s"
  shows "addr_plain (net_addr n)"
proof -
  from assms(1) obtain a p where i: "ip_interface s = Some (a, p)" "n = to_network (a, p)"
    by (auto simp: ip_network_def split: option.splits prod.splits if_splits)
  have "addr_plain a" using i(1) assms(2)
    by (auto simp: ip_interface_def read_interface4_def read_interface6_def
        split: option.splits prod.splits dest: read_ip4_bound read_v6_no_scope split_prefix_chars)
  moreover have "mask_int w p (addr_int a) \<le> addr_int a" for w by (rule mask_int_le)
  ultimately show ?thesis using i(2)
    by (cases a rule: addr_plain.cases)
      (auto simp: to_network_def Let_def mk_addr_def intro: le_less_trans [OF mask_int_le])
qed

section \<open>The characters of a printed network\<close>

lemma read_v6_scope:
  "read_v6 s = Some a \<Longrightarrow> addr_plain a \<or> (\<exists>x sc. a = V6 x (Some sc) \<and> set sc \<subseteq> set s)"
  using set_drop_subset [of _ s]
  by (force simp: read_v6_def Let_def split: if_splits dest: read_ip6_bound)

lemma ip_interface_scope:
  assumes "ip_interface s = Some (a, p)"
  shows "addr_plain a \<or> (\<exists>x sc. a = V6 x (Some sc) \<and> set sc \<subseteq> set s)"
proof (cases "read_interface4 s")
  case None
  then obtain u where "read_v6 u = Some a" "set u \<subseteq> set s"
    using assms by (auto simp: ip_interface_def read_interface6_def
        split: option.splits prod.splits dest: split_prefix_chars)
  then show ?thesis using read_v6_scope by blast
next
  case (Some i)
  then have "addr_plain a" using assms
    by (auto simp: ip_interface_def read_interface4_def split: option.splits prod.splits
        dest: read_ip4_bound)
  then show ?thesis ..
qed

lemma ip_network_line:
  assumes "ip_network strict s = Some n" and "\<forall>c \<in> set s. \<not> is_eol c"
  shows "clean_line (show_net n)"
proof -
  from assms(1) obtain a p where i: "ip_interface s = Some (a, p)" "n = to_network (a, p)"
    by (auto simp: ip_network_def split: option.splits prod.splits if_splits)
  have ok: "net_ok n" using assms(1) by (rule ip_network_ok)
  show ?thesis
  proof (cases "addr_plain (net_addr n)")
    case True
    then show ?thesis using ok show_net_line by (simp add: net_plain_def)
  next
    case False
    then have e: "n = \<lparr>net_addr = a, prefixlen = p\<rparr>" "\<not> addr_plain a"
      using i(2) ok addr_plain_mk
      by (auto simp: to_network_def Let_def net_ok_def split: if_splits)
    then obtain x sc where a: "a = V6 x (Some sc)" "set sc \<subseteq> set s"
      using ip_interface_scope [OF i(1)] by blast
    have "\<not> is_eol c" if "c \<in> set (show_ip6 x) \<union> set (show_nat p)" for c
      using that show_ip6_chars [of c x] is_hex_facts [of c] show_nat_chars [of c p] is_digit_facts [of c]
      by auto
    then show ?thesis using a assms(2) by (auto simp: e(1) show_net_def clean_line_def)
  qed
qed

end
