(* ===== verification/FakePool.thy ===== *)
theory FakePool
  imports PyIpFacts
begin

text \<open>
  The pool of fake addresses of the DNS proxy (\<open>FakeIPPool\<close> in
  \<open>setup/root/antizapret/proxy.py\<close>) and the range it is built on. The pool's interface,
  as the resolver relies on it, is the locale \<open>address_pool\<close>; it is interpreted on the
  model at the end of the theory.
\<close>

section \<open>The fake range\<close>

datatype proxy_error = ValueError | CalledProcessError | KeyError

definition FAKE_IPV6_SUBNET :: nat where "FAKE_IPV6_SUBNET = 0x29FF"
definition FAKE_IPV6_PREFIX_LENGTH :: nat where "FAKE_IPV6_PREFIX_LENGTH = 96"

definition ALTERNATIVE_FAKE_IPV6_NETWORK :: ipnet where
  "ALTERNATIVE_FAKE_IPV6_NETWORK = \<lparr>net_addr = V6 (0x20010002 * 2 ^ 96) None, prefixlen = 48\<rparr>"

definition ULA :: ipnet where
  "ULA = \<lparr>net_addr = V6 (0xfc * 2 ^ 120) None, prefixlen = 7\<rparr>"

unbundle bit_operations_syntax

text \<open>\<open>IPv6Network((int(base) | (subnet << 64), plen))\<close>\<close>

definition subnet_at :: "ipnet \<Rightarrow> nat \<Rightarrow> nat \<Rightarrow> ipnet" where
  "subnet_at base subnet plen = \<lparr>net_addr = V6 (net_int base OR push_bit 64 subnet) None, prefixlen = plen\<rparr>"

definition fake_ipv6_network :: "string \<Rightarrow> bool \<Rightarrow> (proxy_error, ipnet) result" where
  "fake_ipv6_network prefix alternative =
     (if alternative then Inr ALTERNATIVE_FAKE_IPV6_NETWORK
      else (case ip_network True prefix of
              None \<Rightarrow> Inl ValueError
            | Some network \<Rightarrow>
                if net_version network \<noteq> 6 \<or> prefixlen network \<noteq> 48 then Inl ValueError
                else if \<not> subnet_of network ULA then Inl ValueError
                else Inr (subnet_at network FAKE_IPV6_SUBNET FAKE_IPV6_PREFIX_LENGTH)))"

section \<open>The pool\<close>

text \<open>
  The sets \<open>used\<close> and \<open>released\<close>: the first is only tested for membership, from the
  second \<open>set.pop\<close> takes an element the program does not choose. \<open>released\<close> is a list
  without repetitions and \<open>pop\<close> takes the element at an index given from outside, so that
  every element can be taken.
\<close>

record pool =
  network :: ipnet
  used :: "ipaddr set"
  released :: "ipaddr list"
  next_offset :: nat

definition new_pool :: "ipnet \<Rightarrow> pool" where
  "new_pool n = \<lparr>network = n, used = {}, released = [], next_offset = 1\<rparr>"

definition claim :: "string \<Rightarrow> pool \<Rightarrow> (proxy_error, bool \<times> pool) result" where
  "claim address p =
     (case ip_address address of
        None \<Rightarrow> Inl ValueError
      | Some value \<Rightarrow>
          (let offset = int (addr_int value) - int (net_int (network p)) in
           if \<not> in_net value (network p) \<or> offset \<le> 0
              \<or> int (num_addresses (network p)) - 1 \<le> offset then Inr (False, p)
           else if value \<in> used p then Inr (False, p)
           else Inr (True, p\<lparr>used := insert value (used p),
                             released := removeAll value (released p)\<rparr>)))"

text \<open>\<open>ip_address(i)\<close> on an integer: IPv4 if it fits, IPv6 otherwise.\<close>

definition addr_of_int :: "nat \<Rightarrow> ipaddr" where
  "addr_of_int i = (if i < 2 ^ 32 then V4 i else V6 i None)"

function alloc_loop :: "pool \<Rightarrow> string option \<times> pool" where
  "alloc_loop p =
     (if next_offset p < num_addresses (network p) - 1 then
        (let value = addr_of_int (net_int (network p) + next_offset p);
             p' = p\<lparr>next_offset := next_offset p + 1\<rparr>
         in if value \<notin> used p then (Some (show_addr value), p'\<lparr>used := insert value (used p')\<rparr>)
            else alloc_loop p')
      else (None, p))"
  by pat_completeness auto
termination
  by (relation "measure (\<lambda>p. num_addresses (network p) - 1 - next_offset p)") auto

declare alloc_loop.simps [simp del]

definition allocate :: "nat \<Rightarrow> pool \<Rightarrow> string option \<times> pool" where
  "allocate i p =
     (if released p \<noteq> [] then
        (let value = released p ! (i mod length (released p)) in
         (Some (show_addr value),
          p\<lparr>released := removeAll value (released p), used := insert value (used p)\<rparr>))
      else alloc_loop p)"

definition release :: "string \<Rightarrow> pool \<Rightarrow> (proxy_error, pool) result" where
  "release address p =
     (case ip_address address of
        None \<Rightarrow> Inl ValueError
      | Some value \<Rightarrow>
          if value \<in> used p
          then Inr (p\<lparr>used := used p - {value},
                      released := (if value \<in> set (released p) then released p
                                   else released p @ [value])\<rparr>)
          else Inr p)"

section \<open>The interface the resolver relies on\<close>

locale address_pool =
  fixes inv :: "'p \<Rightarrow> bool"
    and assigned :: "'p \<Rightarrow> ipaddr set"
    and range_of :: "'p \<Rightarrow> ipaddr set"
    and alloc :: "nat \<Rightarrow> 'p \<Rightarrow> string option \<times> 'p"
    and claimed :: "string \<Rightarrow> 'p \<Rightarrow> (proxy_error, bool \<times> 'p) result"
    and freed :: "string \<Rightarrow> 'p \<Rightarrow> (proxy_error, 'p) result"
  assumes alloc_Some: "inv p \<Longrightarrow> alloc i p = (Some s, p') \<Longrightarrow>
      inv p' \<and> range_of p' = range_of p \<and>
      (\<exists>a. addr_printable a \<and> s = show_addr a \<and> a \<in> range_of p \<and> a \<notin> assigned p
           \<and> assigned p' = insert a (assigned p))"
    and alloc_None: "inv p \<Longrightarrow> alloc i p = (None, p') \<Longrightarrow>
      inv p' \<and> range_of p' = range_of p \<and> assigned p' = assigned p
      \<and> {a \<in> range_of p. addr_plain a} \<subseteq> assigned p"
    and claim_ok: "inv p \<Longrightarrow> ip_address s = Some a \<Longrightarrow>
      \<exists>p'. claimed s p = Inr (a \<in> range_of p \<and> a \<notin> assigned p, p') \<and> inv p'
           \<and> range_of p' = range_of p
           \<and> assigned p' = (if a \<in> range_of p then insert a (assigned p) else assigned p)"
    and free_ok: "inv p \<Longrightarrow> ip_address s = Some a \<Longrightarrow>
      \<exists>p'. freed s p = Inr p' \<and> inv p' \<and> range_of p' = range_of p
           \<and> assigned p' = assigned p - {a}"
    and assigned_in_range: "inv p \<Longrightarrow> assigned p \<subseteq> range_of p"
begin

text \<open>A failed installation of the rule: allocating and releasing again changes nothing.\<close>

lemma alloc_then_free:
  assumes "inv p" and "alloc i p = (Some s, p1)"
  shows "\<exists>p2. freed s p1 = Inr p2 \<and> inv p2 \<and> assigned p2 = assigned p \<and> range_of p2 = range_of p"
proof -
  from alloc_Some [OF assms] obtain a where a: "inv p1" "range_of p1 = range_of p" "addr_printable a"
    "s = show_addr a" "a \<notin> assigned p" "assigned p1 = insert a (assigned p)" by blast
  from free_ok [OF a(1), of s a] a show ?thesis by (auto simp: ip_address_show_printable)
qed

text \<open>What is allocated reads back as the address that was handed out.\<close>

lemma alloc_reads:
  assumes "inv p" and "alloc i p = (Some s, p')"
  shows "\<exists>a. ip_address s = Some a \<and> a \<in> assigned p' \<and> a \<notin> assigned p"
  using alloc_Some [OF assms] ip_address_show_printable by auto

lemma alloc_again_differs:
  assumes "inv p" and "alloc i p = (Some s, p1)" and "alloc j p1 = (Some t, p2)"
  shows "s \<noteq> t"
proof
  assume "s = t"
  from alloc_Some [OF assms(1,2)] obtain a where a: "inv p1" "addr_printable a" "s = show_addr a"
    "assigned p1 = insert a (assigned p)" by blast
  from alloc_Some [OF a(1) assms(3)] obtain b where b: "addr_printable b" "t = show_addr b"
    "b \<notin> assigned p1" by blast
  have "a = b" using a(2,3) b(1,2) \<open>s = t\<close> show_addr_inj by blast
  then show False using a(4) b(3) by simp
qed

end

section \<open>The invariant of the pool\<close>

text \<open>The addresses the pool may hand out: neither the first nor the last of the network.\<close>

definition usable :: "ipnet \<Rightarrow> ipaddr set" where
  "usable n = {a. in_net a n \<and> net_int n < addr_int a \<and> addr_int a < broadcast_int n}"

text \<open>A network of a pool: printable, and for IPv6 above the integers read as IPv4.\<close>

definition pool_net :: "ipnet \<Rightarrow> bool" where
  "pool_net n \<longleftrightarrow> net_plain n \<and> (net_version n = 6 \<longrightarrow> 2 ^ 32 \<le> net_int n)"

definition pool_inv :: "pool \<Rightarrow> bool" where
  "pool_inv p \<longleftrightarrow> pool_net (network p) \<and> 1 \<le> next_offset p
     \<and> used p \<subseteq> usable (network p) \<and> set (released p) \<subseteq> usable (network p)
     \<and> (\<forall>a \<in> used p \<union> set (released p). addr_printable a)
     \<and> distinct (released p) \<and> set (released p) \<inter> used p = {}
     \<and> (\<forall>off. 0 < off \<and> off < next_offset p \<and> off < num_addresses (network p) - 1 \<longrightarrow>
           addr_of_int (net_int (network p) + off) \<in> used p \<union> set (released p))"

lemma addr_of_int_usable:
  assumes "pool_net n" and "0 < off" and "off < num_addresses n - 1"
  shows "addr_of_int (net_int n + off) \<in> usable n"
    and "addr_plain (addr_of_int (net_int n + off))"
    and "addr_int (addr_of_int (net_int n + off)) = net_int n + off"
proof -
  have ok: "net_ok n" using assms(1) by (simp add: pool_net_def net_plain_def)
  have r: "net_int n + off \<in> net_range n" using assms by (auto simp: net_range_def)
  show i: "addr_int (addr_of_int (net_int n + off)) = net_int n + off"
    by (simp add: addr_of_int_def)
  have lt: "net_int n + off < 2 ^ width (net_version n)"
    using net_range_top [OF ok] assms(3) by linarith
  have v: "version (addr_of_int (net_int n + off)) = net_version n"
    using net_version_cases [of n] lt assms(1)
    by (auto simp: addr_of_int_def pool_net_def width_def)
  show "addr_plain (addr_of_int (net_int n + off))"
    using net_version_cases [of n] lt by (auto simp: addr_of_int_def width_def)
  show "addr_of_int (net_int n + off) \<in> usable n"
    using r v i assms(2,3) ok by (auto simp: usable_def in_net_range broadcast_int_def)
qed

lemma usable_of_int:
  assumes "pool_net n" and "a \<in> usable n" and "addr_plain a"
  shows "a = addr_of_int (net_int n + (addr_int a - net_int n))"
    and "0 < addr_int a - net_int n" and "addr_int a - net_int n < num_addresses n - 1"
proof -
  have d: "0 < addr_int a - net_int n" "addr_int a - net_int n < num_addresses n - 1"
    using assms(2) num_addresses_pos [of n]
    by (auto simp: usable_def broadcast_int_def simp del: num_addresses_pos)
  note b = addr_of_int_usable [OF assms(1) d]
  have "version a = net_version n" using assms(1,2)
    by (auto simp: usable_def in_net_def)
  moreover have "version (addr_of_int (net_int n + (addr_int a - net_int n))) = net_version n"
    using b(1) by (auto simp: usable_def in_net_def)
  ultimately show "a = addr_of_int (net_int n + (addr_int a - net_int n))"
    using b d assms(3) by (intro addr_plain_eqI) auto
  show "0 < addr_int a - net_int n" "addr_int a - net_int n < num_addresses n - 1" by (fact d)+
qed

lemma new_pool_inv: "pool_net n \<Longrightarrow> pool_inv (new_pool n)"
  by (auto simp: pool_inv_def new_pool_def)

lemma alloc_loop_Some:
  assumes "pool_inv p" and "released p = []" and "alloc_loop p = (Some s, p')"
  shows "pool_inv p' \<and> network p' = network p \<and> released p' = [] \<and>
    (\<exists>a. addr_printable a \<and> s = show_addr a \<and> a \<in> usable (network p) \<and> a \<notin> used p
         \<and> used p' = insert a (used p))"
  using assms
proof (induction p rule: alloc_loop.induct)
  case (1 p)
  let ?off = "next_offset p" and ?v = "addr_of_int (net_int (network p) + next_offset p)"
  let ?p' = "p\<lparr>next_offset := next_offset p + 1\<rparr>"
  have lt: "?off < num_addresses (network p) - 1"
    using "1.prems"(3) by (auto simp: alloc_loop.simps [of p] Let_def split: if_splits)
  have net: "pool_net (network p)" and pos: "0 < ?off" using "1.prems"(1) by (auto simp: pool_inv_def)
  note v = addr_of_int_usable [OF net pos lt]
  show ?case
  proof (cases "?v \<in> used p")
    case True
    have inv': "pool_inv ?p'"
      using "1.prems"(1,2) True by (auto simp: pool_inv_def less_Suc_eq)
    have "alloc_loop ?p' = (Some s, p')"
      using "1.prems"(3) lt True by (simp add: alloc_loop.simps [of p] Let_def)
    then show ?thesis using "1.IH" [OF lt refl refl] True inv' "1.prems"(2) by simp
  next
    case False
    then have e: "s = show_addr ?v" "p' = ?p'\<lparr>used := insert ?v (used p)\<rparr>"
      using "1.prems"(3) lt by (auto simp: alloc_loop.simps [of p] Let_def)
    have "pool_inv p'"
      using "1.prems"(1,2) v addr_plain_printable by (auto simp: e pool_inv_def less_Suc_eq)
    then show ?thesis using e v False addr_plain_printable "1.prems"(2) by auto
  qed
qed

lemma alloc_loop_None:
  assumes "pool_inv p" and "released p = []" and "alloc_loop p = (None, p')"
  shows "pool_inv p' \<and> network p' = network p \<and> released p' = [] \<and> used p' = used p
    \<and> {a \<in> usable (network p). addr_plain a} \<subseteq> used p"
  using assms
proof (induction p rule: alloc_loop.induct)
  case (1 p)
  let ?off = "next_offset p" and ?v = "addr_of_int (net_int (network p) + next_offset p)"
  let ?p' = "p\<lparr>next_offset := next_offset p + 1\<rparr>"
  show ?case
  proof (cases "?off < num_addresses (network p) - 1")
    case True
    then have v: "?v \<in> used p" using "1.prems"(3)
      by (auto simp: alloc_loop.simps [of p] Let_def split: if_splits)
    have inv': "pool_inv ?p'" using "1.prems"(1,2) v by (auto simp: pool_inv_def less_Suc_eq)
    have "alloc_loop ?p' = (None, p')"
      using "1.prems"(3) True v by (simp add: alloc_loop.simps [of p] Let_def)
    then show ?thesis using "1.IH" [OF True refl refl] v inv' "1.prems"(2) by simp
  next
    case False
    then have "p' = p" using "1.prems"(3) by (simp add: alloc_loop.simps [of p] Let_def)
    moreover have "a \<in> used p" if "a \<in> usable (network p)" "addr_plain a" for a
    proof -
      have net: "pool_net (network p)" using "1.prems"(1) by (simp add: pool_inv_def)
      note u = usable_of_int [OF net that]
      have "addr_int a - net_int (network p) < next_offset p" using u(3) False by linarith
      then have "addr_of_int (net_int (network p) + (addr_int a - net_int (network p)))
          \<in> used p \<union> set (released p)"
        using "1.prems"(1) u(2,3) unfolding pool_inv_def by blast
      then show ?thesis using u(1) "1.prems"(2) by simp
    qed
    ultimately show ?thesis using "1.prems" by auto
  qed
qed

lemma released_pick: "released p \<noteq> [] \<Longrightarrow> released p ! (i mod length (released p)) \<in> set (released p)"
  by (simp add: mod_less_divisor)

interpretation fp: address_pool pool_inv used "\<lambda>p. usable (network p)" allocate claim release
proof unfold_locales
  fix p i s p'
  assume inv: "pool_inv p" and al: "allocate i p = (Some s, p')"
  show "pool_inv p' \<and> usable (network p') = usable (network p) \<and>
      (\<exists>a. addr_printable a \<and> s = show_addr a \<and> a \<in> usable (network p) \<and> a \<notin> used p
           \<and> used p' = insert a (used p))"
  proof (cases "released p = []")
    case True
    then have "alloc_loop p = (Some s, p')" using al by (simp add: allocate_def)
    from alloc_loop_Some [OF inv True this] show ?thesis by auto
  next
    case False
    let ?v = "released p ! (i mod length (released p))"
    have v: "?v \<in> set (released p)" using released_pick [OF False] .
    have e: "s = show_addr ?v"
      "p' = p\<lparr>released := removeAll ?v (released p), used := insert ?v (used p)\<rparr>"
      using al False by (auto simp: allocate_def Let_def)
    have "pool_inv p'" using inv v by (auto simp: e pool_inv_def distinct_removeAll)
    then show ?thesis using inv v e by (auto simp: pool_inv_def)
  qed
next
  fix p i p'
  assume inv: "pool_inv p" and al: "allocate i p = (None, p')"
  then have "released p = []" and "alloc_loop p = (None, p')"
    by (auto simp: allocate_def Let_def split: if_splits)
  from alloc_loop_None [OF inv this] show "pool_inv p' \<and> usable (network p') = usable (network p)
      \<and> used p' = used p \<and> {a \<in> usable (network p). addr_plain a} \<subseteq> used p"
    by auto
next
  fix p s a
  assume inv: "pool_inv p" and s: "ip_address s = Some a"
  have net: "net_ok (network p)" using inv by (simp add: pool_inv_def pool_net_def net_plain_def)
  have pr: "addr_printable a" using s by (rule ip_address_printable)
  have ran: "a \<in> usable (network p) \<longleftrightarrow> in_net a (network p)
      \<and> 0 < int (addr_int a) - int (net_int (network p))
      \<and> int (addr_int a) - int (net_int (network p)) < int (num_addresses (network p)) - 1"
    using num_addresses_pos [of "network p"]
    by (auto simp: usable_def broadcast_int_def simp del: num_addresses_pos)
  show "\<exists>p'. claim s p = Inr (a \<in> usable (network p) \<and> a \<notin> used p, p') \<and> pool_inv p'
      \<and> usable (network p') = usable (network p)
      \<and> used p' = (if a \<in> usable (network p) then insert a (used p) else used p)"
    using inv s pr ran
    by (auto simp: claim_def Let_def pool_inv_def distinct_removeAll insert_absorb)
next
  fix p s a
  assume inv: "pool_inv p" and s: "ip_address s = Some a"
  show "\<exists>p'. release s p = Inr p' \<and> pool_inv p' \<and> usable (network p') = usable (network p)
      \<and> used p' = used p - {a}"
    using inv s by (auto simp: release_def pool_inv_def)
next
  fix p
  assume "pool_inv p"
  then show "used p \<subseteq> usable (network p)" by (simp add: pool_inv_def)
qed

section \<open>The range inside its prefix\<close>

text \<open>The subnet number fills the bits between the prefix and the interface part.\<close>

lemma or_as_add:
  fixes x c :: nat
  assumes "2 ^ 80 dvd x" and "c < 2 ^ 16"
  shows "x OR push_bit 64 c = x + c * 2 ^ 64"
proof -
  obtain k where k: "x = push_bit 80 k" using assms(1) by (auto simp: push_bit_eq_mult mult.commute)
  have c: "take_bit 16 c = c" using assms(2) by (simp add: take_bit_eq_mod)
  have "x + push_bit 64 c = x OR push_bit 64 c"
  proof (rule disjunctive_add)
    fix n
    show "\<not> bit x n \<or> \<not> bit (push_bit 64 c) n"
    proof (cases "n < 80")
      case True
      then show ?thesis by (simp add: k bit_push_bit_iff)
    next
      case False
      then have "\<not> n - 64 < 16" by linarith
      then have "\<not> bit (take_bit 16 c) (n - 64)" unfolding bit_take_bit_iff by blast
      then show ?thesis using c by (simp add: bit_push_bit_iff)
    qed
  qed
  then show ?thesis by (simp add: push_bit_eq_mult)
qed

lemma subnet_at_spec:
  assumes "net_ok m" and "net_version m = 6" and "prefixlen m = 48" and "c < 2 ^ 16"
  shows "net_plain (subnet_at m c 96)" and "net_int (subnet_at m c 96) = net_int m + c * 2 ^ 64"
    and "net_range (subnet_at m c 96) \<subseteq> net_range m"
proof -
  have d: "2 ^ 80 dvd net_int m" using assms by (simp add: net_ok_def width_def)
  note a = or_as_add [OF d assms(4)]
  show i: "net_int (subnet_at m c 96) = net_int m + c * 2 ^ 64"
    by (simp add: subnet_at_def net_int_def [of "\<lparr>net_addr = _, prefixlen = _\<rparr>"] a)
  have v: "net_version (subnet_at m c 96) = 6" by (simp add: subnet_at_def net_version_def)
  have top: "net_int m + 2 ^ 80 \<le> 2 ^ 128"
    using net_range_top [OF assms(1)] assms(2,3) by (simp add: num_addresses_def width_def)
  have c: "c * 2 ^ 64 + 2 ^ 32 \<le> 2 ^ 80" using assms(4) by simp
  have "(2::nat) ^ 32 dvd c * 2 ^ 64" by (simp add: le_imp_power_dvd dvd_mult)
  moreover have "(2::nat) ^ 32 dvd net_int m" using d by (rule power_le_dvd) simp
  ultimately have "2 ^ 32 dvd net_int m + c * 2 ^ 64" by (rule dvd_add [rotated])
  then show "net_plain (subnet_at m c 96)" using a top c
    by (simp add: net_plain_def net_ok_def subnet_at_def net_version_def net_int_def width_def)
  show "net_range (subnet_at m c 96) \<subseteq> net_range m"
    using i v c assms(2,3)
    by (auto simp: net_range_def num_addresses_def width_def) (simp_all add: subnet_at_def)
qed

end
