(* ===== verification/ProxyResolver.thy ===== *)
theory ProxyResolver
  imports Complex_Main FakePool
begin

text \<open>
  The resolver of the DNS proxy (\<open>ProxyResolver\<close> in \<open>setup/root/antizapret/proxy.py\<close>):
  the table from real to fake addresses, the DNAT rules of the kernel it keeps in step with
  it, the periodic clean-up, the loading of the rules left by an earlier process, and the
  rewriting of DNS replies. The outcome of every \<open>iptables\<close> run is an argument (\<open>ok\<close>): a
  run with \<open>check=True\<close> that fails raises and leaves the rules as they were. A lock
  serialises the operations, so they are the atomic steps of a transition system.
\<close>

section \<open>State\<close>

record entry =
  fake_ip :: string
  last_access :: real

type_synonym rule = "string \<times> string" \<comment> \<open>fake address, real address\<close>

record resolver =
  pools :: "(nat, pool) dict"
  ip_map :: "(string, entry) dict"
  cleanup_expiry :: real
  min_ttl :: int
  max_ttl :: int
  nat_rules :: "nat \<Rightarrow> rule list" \<comment> \<open>the chain of each family in the kernel\<close>

definition iptables :: "nat \<Rightarrow> string" where
  "iptables family = (if family = 6 then ''/usr/sbin/ip6tables'' else ''/usr/sbin/iptables'')"

definition iptables_restore :: "nat \<Rightarrow> string" where
  "iptables_restore family =
     (if family = 6 then ''/usr/sbin/ip6tables-restore'' else ''/usr/sbin/iptables-restore'')"

definition chain :: "nat \<Rightarrow> string" where
  "chain family = (if family = 6 then ''ANTIZAPRET6-MAPPING'' else ''ANTIZAPRET-MAPPING'')"

definition set_pool :: "nat \<Rightarrow> pool \<Rightarrow> resolver \<Rightarrow> resolver" where
  "set_pool family p r = r\<lparr>pools := AList.update family p (pools r)\<rparr>"

section \<open>Mapping an address\<close>

text \<open>The value is the fake address, or \<open>None\<close> when there is none to give.\<close>

definition get_fake_ip ::
  "nat \<Rightarrow> bool \<Rightarrow> string \<Rightarrow> real \<Rightarrow> resolver \<Rightarrow> (proxy_error, string option) result \<times> resolver" where
  "get_fake_ip i ok real_ip current_time r =
     (case ip_address real_ip of
        None \<Rightarrow> (Inl ValueError, r)
      | Some address \<Rightarrow>
          (case map_of (pools r) (version address) of
             None \<Rightarrow> (Inr None, r)
           | Some pool \<Rightarrow>
               (case map_of (ip_map r) real_ip of
                  Some e \<Rightarrow>
                    (Inr (Some (fake_ip e)),
                     r\<lparr>ip_map := AList.update real_ip (e\<lparr>last_access := current_time\<rparr>) (ip_map r)\<rparr>)
                | None \<Rightarrow>
                    (case allocate i pool of
                       (None, pool') \<Rightarrow> (Inr None, set_pool (version address) pool' r)
                     | (Some fake, pool') \<Rightarrow>
                         if ok
                         then (Inr (Some fake),
                               (set_pool (version address) pool' r)
                                 \<lparr>ip_map := AList.update real_ip \<lparr>fake_ip = fake, last_access = current_time\<rparr> (ip_map r),
                                  nat_rules := (nat_rules r)(version address :=
                                      nat_rules r (version address) @ [(fake, real_ip)])\<rparr>)
                         else (case release fake pool' of
                                 Inl e \<Rightarrow> (Inl e, set_pool (version address) pool' r)
                               | Inr pool'' \<Rightarrow> (Inr None, set_pool (version address) pool'' r))))))"

definition mapping_ip :: "string \<Rightarrow> string \<Rightarrow> real \<Rightarrow> resolver \<Rightarrow> bool \<times> resolver" where
  "mapping_ip real_ip fake current_time r =
     (case (ip_address real_ip, ip_address fake) of
        (Some real_address, Some fake_address) \<Rightarrow>
          if version real_address \<noteq> version fake_address then (False, r)
          else (case map_of (pools r) (version real_address) of
                  None \<Rightarrow> (False, r)
                | Some pool \<Rightarrow>
                    if map_of (ip_map r) real_ip \<noteq> None then (False, r)
                    else (case claim fake pool of
                            Inr (True, pool') \<Rightarrow>
                              (True, (set_pool (version real_address) pool' r)
                                 \<lparr>ip_map := AList.update real_ip
                                     \<lparr>fake_ip = show_addr fake_address, last_access = current_time\<rparr> (ip_map r)\<rparr>)
                          | _ \<Rightarrow> (False, r)))
      | _ \<Rightarrow> (False, r))"

section \<open>Cleaning up\<close>

text \<open>
  \<open>iptables-restore\<close> applies its input as one transaction: if it fails, or a rule to
  delete is not there, the chain stays as it was.
\<close>

fun delete_rules :: "rule list \<Rightarrow> rule list \<Rightarrow> rule list option" where
  "delete_rules [] t = Some t"
| "delete_rules (x # xs) t = (if x \<in> set t then delete_rules xs (remove1 x t) else None)"

definition restore_nat :: "bool \<Rightarrow> rule list \<Rightarrow> rule list \<Rightarrow> rule list option" where
  "restore_nat ok rules t = (if ok then delete_rules rules t else None)"

definition expired_ips :: "real \<Rightarrow> resolver \<Rightarrow> (string \<times> string) list" where
  "expired_ips current_time r =
     map (\<lambda>(real_ip, e). (real_ip, fake_ip e))
       (filter (\<lambda>(real_ip, e). cleanup_expiry r < current_time - last_access e) (ip_map r))"

text \<open>The rules to delete, each under its family; a missing family is a \<open>KeyError\<close>.\<close>

definition tag_rule :: "resolver \<Rightarrow> string \<times> string \<Rightarrow> (proxy_error, nat \<times> rule) result" where
  "tag_rule r x =
     (case x of (real_ip, fake) \<Rightarrow>
        (case ip_address real_ip of
           None \<Rightarrow> Inl ValueError
         | Some a \<Rightarrow> if version a \<in> set (keys (pools r)) then Inr (version a, (fake, real_ip))
                     else Inl KeyError))"

definition family_rules :: "nat \<Rightarrow> (nat \<times> rule) list \<Rightarrow> rule list" where
  "family_rules family tagged = map snd (filter (\<lambda>x. fst x = family) tagged)"

fun unmap_all :: "nat \<Rightarrow> (string \<times> string) list \<Rightarrow> (resolver, proxy_error, unit) prog" where
  "unmap_all family [] r = (Inr (), r)"
| "unmap_all family ((real_ip, fake) # xs) r =
     (case ip_address real_ip of
        None \<Rightarrow> (Inl ValueError, r)
      | Some a \<Rightarrow>
          if version a = family then
            (case map_of (pools r) family of
               None \<Rightarrow> (Inl KeyError, r)
             | Some p \<Rightarrow>
                 (case release fake p of
                    Inl e \<Rightarrow> (Inl e, r)
                  | Inr p' \<Rightarrow>
                      if map_of (ip_map r) real_ip = None then (Inl KeyError, set_pool family p' r)
                      else unmap_all family xs
                        ((set_pool family p' r)\<lparr>ip_map := AList.delete real_ip (ip_map r)\<rparr>)))
          else unmap_all family xs r)"

fun cleanup_loop ::
  "(nat \<Rightarrow> bool) \<Rightarrow> (string \<times> string) list \<Rightarrow> (nat \<times> rule) list \<Rightarrow> nat list
   \<Rightarrow> (resolver, proxy_error, unit) prog" where
  "cleanup_loop ok cleanup tagged [] r = (Inr (), r)"
| "cleanup_loop ok cleanup tagged (family # families) r =
     (if family_rules family tagged = [] then cleanup_loop ok cleanup tagged families r
      else (case restore_nat (ok family) (family_rules family tagged) (nat_rules r family) of
              None \<Rightarrow> (Inl CalledProcessError, r)
            | Some t \<Rightarrow>
                bindP (unmap_all family cleanup) (\<lambda>_. cleanup_loop ok cleanup tagged families)
                  (r\<lparr>nat_rules := (nat_rules r)(family := t)\<rparr>)))"

definition cleanup_fake_ips :: "(nat \<Rightarrow> bool) \<Rightarrow> real \<Rightarrow> (resolver, proxy_error, unit) prog" where
  "cleanup_fake_ips ok current_time r =
     (let cleanup = expired_ips current_time r in
      case traverseR (tag_rule r) cleanup of
        Inl e \<Rightarrow> (Inl e, r)
      | Inr tagged \<Rightarrow>
          if cleanup = [] then (Inr (), r)
          else cleanup_loop ok cleanup tagged (keys (pools r)) r)"

fun flush_families :: "(nat \<Rightarrow> bool) \<Rightarrow> nat list \<Rightarrow> (resolver, proxy_error, unit) prog" where
  "flush_families ok [] r = (Inr (), r)"
| "flush_families ok (family # families) r =
     (if ok family then flush_families ok families (r\<lparr>nat_rules := (nat_rules r)(family := [])\<rparr>)
      else (Inl CalledProcessError, r))"

definition flush_mappings :: "(nat \<Rightarrow> bool) \<Rightarrow> (resolver, proxy_error, unit) prog" where
  "flush_mappings ok r = flush_families ok (keys (pools r)) r"

text \<open>One round of the worker: a failed clean-up flushes the chains and ends the process.\<close>

datatype process = Running resolver | Exited "nat \<Rightarrow> rule list"

definition cleanup_fake_ips_worker ::
  "(nat \<Rightarrow> bool) \<Rightarrow> (nat \<Rightarrow> bool) \<Rightarrow> real \<Rightarrow> resolver \<Rightarrow> process" where
  "cleanup_fake_ips_worker ok flush_ok current_time r =
     (case cleanup_fake_ips ok current_time r of
        (Inr u, r') \<Rightarrow> Running r'
      | (Inl e, r') \<Rightarrow> Exited (nat_rules (snd (flush_mappings flush_ok r'))))"

section \<open>Starting up\<close>

definition load_line :: "real \<Rightarrow> string \<Rightarrow> resolver \<Rightarrow> bool \<times> resolver" where
  "load_line current_time line r =
     (let parts = words line in
      if length parts < 8 then (True, r)
      else mapping_ip (parts ! 7) (hd (split_on (CHR ''/'') (parts ! 3))) current_time r)"

fun load_lines :: "real \<Rightarrow> string list \<Rightarrow> resolver \<Rightarrow> bool \<times> resolver" where
  "load_lines current_time [] r = (True, r)"
| "load_lines current_time (l # ls) r =
     (case load_line current_time l r of
        (True, r') \<Rightarrow> load_lines current_time ls r'
      | (False, r') \<Rightarrow> (False, r'))"

fun load_families :: "(nat \<Rightarrow> rule list \<Rightarrow> string list) \<Rightarrow> real \<Rightarrow> nat list \<Rightarrow> resolver \<Rightarrow> bool \<times> resolver" where
  "load_families listing current_time [] r = (True, r)"
| "load_families listing current_time (family # families) r =
     (case load_lines current_time (listing family (nat_rules r family)) r of
        (True, r') \<Rightarrow> load_families listing current_time families r'
      | (False, r') \<Rightarrow> (False, r'))"

text \<open>
  \<open>listing\<close> is the output of \<open>iptables -t nat -S CHAIN\<close> for the rules of a chain. An
  invalid rule flushes the chains and ends the process.
\<close>

definition init_resolver ::
  "(nat \<Rightarrow> rule list \<Rightarrow> string list) \<Rightarrow> (nat \<Rightarrow> bool) \<Rightarrow> ipnet \<Rightarrow> ipnet option \<Rightarrow> real
   \<Rightarrow> int \<Rightarrow> int \<Rightarrow> real \<Rightarrow> (nat \<Rightarrow> rule list) \<Rightarrow> process" where
  "init_resolver listing flush_ok ip_range ip6_range expiry mn mx current_time kernel_rules =
     (let r = \<lparr>pools = (4, new_pool ip_range) # (case ip6_range of None \<Rightarrow> [] | Some n \<Rightarrow> [(6, new_pool n)]),
               ip_map = [], cleanup_expiry = expiry, min_ttl = mn, max_ttl = mx, nat_rules = kernel_rules\<rparr>
      in case load_families listing current_time (keys (pools r)) r of
           (True, r') \<Rightarrow> Running r'
         | (False, r') \<Rightarrow> Exited (nat_rules (snd (flush_mappings flush_ok r'))))"

section \<open>Resolving\<close>

text \<open>
  DNS messages as far as the resolver looks at them; parsing and sending them is the
  library's. \<open>qtype\<close> and \<open>rtype\<close> are the numbers of the record types.
\<close>

definition QTYPE_A :: nat where "QTYPE_A = 1"
definition QTYPE_AAAA :: nat where "QTYPE_AAAA = 28"
definition NOERROR :: nat where "NOERROR = 0"
definition SERVFAIL :: nat where "SERVFAIL = 2"

record rr =
  rtype :: nat
  ttl :: int
  rdata :: string

record request =
  qtype :: nat
  qlabels :: "string list"

record reply =
  rcode :: nat
  rrs :: "rr list"

definition clamp_ttl :: "resolver \<Rightarrow> rr \<Rightarrow> rr" where
  "clamp_ttl r x = (if ttl x < min_ttl r then x\<lparr>ttl := min_ttl r\<rparr>
                    else if max_ttl r < ttl x then x\<lparr>ttl := max_ttl r\<rparr> else x)"

text \<open>The records in order, each with its own allocation index and \<open>iptables\<close> outcome.\<close>

fun rewrite ::
  "nat \<Rightarrow> bool \<Rightarrow> real \<Rightarrow> (nat \<Rightarrow> nat) \<Rightarrow> (nat \<Rightarrow> bool) \<Rightarrow> nat \<Rightarrow> rr list
   \<Rightarrow> (resolver, proxy_error, rr list option) prog" where
  "rewrite qt is_smtp current_time idx ok n [] r = (Inr (Some []), r)"
| "rewrite qt is_smtp current_time idx ok n (x # xs) r =
     (if rtype x \<noteq> qt
      then (case rewrite qt is_smtp current_time idx ok (n + 1) xs r of
              (Inr (Some ys), r') \<Rightarrow> (Inr (Some (x # ys)), r') | out \<Rightarrow> out)
      else (let y = clamp_ttl r x in
            case get_fake_ip (idx n) (ok n) (rdata x) current_time r of
              (Inl e, r') \<Rightarrow> (Inl e, r')
            | (Inr None, r') \<Rightarrow> (Inr None, r')
            | (Inr (Some fake), r') \<Rightarrow>
                (case rewrite qt is_smtp current_time idx ok (n + 1) xs r' of
                   (Inr (Some ys), r'') \<Rightarrow>
                     (Inr (Some ((if is_smtp then [y] else []) @ y\<lparr>rdata := fake\<rparr> # ys)), r'')
                 | out \<Rightarrow> out)))"

definition servfail :: reply where
  "servfail = \<lparr>rcode = SERVFAIL, rrs = []\<rparr>"

text \<open>\<open>upstream\<close> is the parsed answer, \<open>None\<close> if sending or parsing raised.\<close>

definition resolve ::
  "request \<Rightarrow> reply option \<Rightarrow> real \<Rightarrow> (nat \<Rightarrow> nat) \<Rightarrow> (nat \<Rightarrow> bool) \<Rightarrow> resolver \<Rightarrow> reply \<times> resolver" where
  "resolve q upstream current_time idx ok r =
     (case upstream of
        None \<Rightarrow> (servfail, r)
      | Some a \<Rightarrow>
          if rcode a = NOERROR \<and> (qtype q = QTYPE_A \<or> qtype q = QTYPE_AAAA)
             \<and> (qtype q \<noteq> QTYPE_AAAA \<or> 6 \<in> set (keys (pools r)))
          then (let is_smtp = (case qlabels q of [] \<Rightarrow> False | l # ls \<Rightarrow> contains ''smtp'' l) in
                case rewrite (qtype q) is_smtp current_time idx ok 0 (rrs a) r of
                  (Inr (Some ys), r') \<Rightarrow> (a\<lparr>rrs := ys\<rparr>, r')
                | (_, r') \<Rightarrow> (servfail, r'))
          else (a, r))"

end
