(* ===== verification/ResolverFacts.thy ===== *)
theory ResolverFacts
  imports ProxyResolver
begin

text \<open>
  The correctness of the DNS proxy's resolver: the table, the pools and the DNAT rules of
  the kernel agree in every state the process can reach, each fake address stands for one
  real address, and a restart restores the table from the rules.
\<close>

section \<open>The invariant\<close>

definition family_of :: "string \<Rightarrow> nat option" where
  "family_of s = map_option version (ip_address s)"

definition mapped :: "nat \<Rightarrow> (string, entry) dict \<Rightarrow> rule set" where
  "mapped family m = {(fake, real_ip).
     family_of real_ip = Some family \<and> map_option fake_ip (map_of m real_ip) = Some fake}"

text \<open>The table and one pool: what the pool holds as used is what the table maps to.\<close>

definition pool_agrees :: "nat \<Rightarrow> pool \<Rightarrow> (string, entry) dict \<Rightarrow> bool" where
  "pool_agrees family p m \<longleftrightarrow> pool_inv p
     \<and> (\<forall>a \<in> usable (network p). version a = family)
     \<and> fst ` mapped family m = show_addr ` used p \<and> inj_on fst (mapped family m)"

definition mem_inv :: "resolver \<Rightarrow> bool" where
  "mem_inv r \<longleftrightarrow> wf_dict (pools r) \<and> wf_dict (ip_map r)
     \<and> (\<forall>real_ip \<in> dom (map_of (ip_map r)). \<exists>family \<in> dom (map_of (pools r)). family_of real_ip = Some family)
     \<and> (\<forall>family p. map_of (pools r) family = Some p \<longrightarrow> pool_agrees family p (ip_map r))"

definition rules_agree :: "resolver \<Rightarrow> nat \<Rightarrow> bool" where
  "rules_agree r family \<longleftrightarrow>
     distinct (nat_rules r family) \<and> set (nat_rules r family) = mapped family (ip_map r)"

definition res_inv :: "resolver \<Rightarrow> bool" where
  "res_inv r \<longleftrightarrow> mem_inv r \<and> (\<forall>family \<in> dom (map_of (pools r)). rules_agree r family)"

lemma dom_keys: "k \<in> set (keys d) \<longleftrightarrow> k \<in> dom (map_of d)"
  by (auto simp: keys_def dom_map_of_conv_image_fst)

lemma mapped_iff:
  "(fake, real_ip) \<in> mapped family m \<longleftrightarrow>
     family_of real_ip = Some family \<and> map_option fake_ip (map_of m real_ip) = Some fake"
  by (simp add: mapped_def)

lemma mapped_update_same:
  assumes "family_of real_ip = Some family" and "map_of m real_ip = None"
  shows "mapped family (AList.update real_ip e m) = insert (fake_ip e, real_ip) (mapped family m)"
  using assms by (auto simp only: set_eq_iff split_paired_All mapped_iff dict_simps insert_iff
      fun_upd_apply prod.inject option.map option.inject split: if_splits)

lemma mapped_update_other:
  assumes "family_of real_ip \<noteq> Some family"
  shows "mapped family (AList.update real_ip e m) = mapped family m"
  using assms by (auto simp only: set_eq_iff split_paired_All mapped_iff dict_simps
      fun_upd_apply split: if_splits)

lemma mapped_touch:
  assumes "map_of m real_ip = Some e"
  shows "mapped family (AList.update real_ip (e\<lparr>last_access := t\<rparr>) m) = mapped family m"
  using assms by (simp add: set_eq_iff split_paired_All mapped_iff dict_simps)

lemma mapped_delete:
  "mapped family (AList.delete real_ip m) = {x \<in> mapped family m. snd x \<noteq> real_ip}"
  by (auto simp: set_eq_iff split_paired_All mapped_iff dict_simps)

lemma mem_inv_pool:
  "mem_inv r \<Longrightarrow> map_of (pools r) family = Some p \<Longrightarrow> pool_agrees family p (ip_map r)"
  by (simp add: mem_inv_def)

text \<open>The fake address of an entry reads back as an address its pool has in use.\<close>

lemma mapped_used:
  assumes "pool_agrees family p m" and "(f, real_ip) \<in> mapped family m"
  shows "\<exists>a \<in> used p. f = show_addr a \<and> ip_address f = Some a"
proof -
  have "f \<in> show_addr ` used p" using assms unfolding pool_agrees_def by force
  then obtain a where a: "a \<in> used p" "f = show_addr a" by blast
  moreover have "addr_printable a" using a(1) assms(1) by (auto simp: pool_agrees_def pool_inv_def)
  ultimately show ?thesis using ip_address_show_printable by blast
qed

text \<open>A new mapping: the pool has taken an address that was free.\<close>

lemma pool_agrees_add:
  assumes "pool_agrees family p m" and "pool_inv p'" and "usable (network p') = usable (network p)"
    and "addr_printable a" and "a \<notin> used p" and "used p' = insert a (used p)"
    and "family_of real_ip = Some family" and "map_of m real_ip = None" and "fake_ip e = show_addr a"
  shows "pool_agrees family p' (AList.update real_ip e m)"
proof -
  have pr: "\<forall>b \<in> used p. addr_printable b" using assms(1) by (simp add: pool_agrees_def pool_inv_def)
  have "show_addr a \<notin> fst ` mapped family m"
    using assms(1,4,5) pr show_addr_inj unfolding pool_agrees_def by blast
  then show ?thesis using assms(1-3,6,9) mapped_update_same [OF assms(7,8), of e]
    by (auto simp: pool_agrees_def)
qed

text \<open>A mapping gone: its fake address, and no other, leaves the pool's used set.\<close>

lemma pool_agrees_remove:
  assumes "pool_agrees family p m" and "(fake, real_ip) \<in> mapped family m"
    and "ip_address fake = Some a" and "pool_inv p'" and "usable (network p') = usable (network p)"
    and "used p' = used p - {a}"
  shows "pool_agrees family p' (AList.delete real_ip m)"
proof -
  have pr: "\<forall>b \<in> used p. addr_printable b" using assms(1) by (simp add: pool_agrees_def pool_inv_def)
  from mapped_used [OF assms(1,2)] assms(3) have a: "a \<in> used p" "fake = show_addr a" by auto
  have inj: "inj_on fst (mapped family m)" and im: "fst ` mapped family m = show_addr ` used p"
    using assms(1) by (simp_all add: pool_agrees_def)
  have eq: "{x \<in> mapped family m. snd x \<noteq> real_ip} = mapped family m - {(fake, real_ip)}"
  proof -
    have "x = (fake, real_ip)" if "x \<in> mapped family m" "snd x = real_ip" for x
      using that assms(2) by (cases x) (auto simp: mapped_iff)
    moreover have "snd (fake, real_ip) = real_ip" by simp
    ultimately show ?thesis by blast
  qed
  have "fst ` (mapped family m - {(fake, real_ip)}) = fst ` mapped family m - {fake}"
    using inj_on_image_set_diff [OF inj, of "mapped family m" "{(fake, real_ip)}"] assms(2) by auto
  also have "\<dots> = show_addr ` (used p - {a})"
  proof -
    have "inj_on show_addr (used p)" using pr show_addr_inj by (meson inj_onI)
    then show ?thesis using a im inj_on_image_set_diff [of show_addr "used p" "used p" "{a}"] by auto
  qed
  finally have "fst ` (mapped family m - {(fake, real_ip)}) = show_addr ` (used p - {a})" .
  moreover have "inj_on fst (mapped family m - {(fake, real_ip)})"
    using inj by (rule inj_on_subset) auto
  ultimately show ?thesis using assms(1,4,5,6)
    by (simp add: pool_agrees_def mapped_delete eq)
qed

lemma pool_agrees_other:
  assumes "mapped family m' = mapped family m"
  shows "pool_agrees family p m' \<longleftrightarrow> pool_agrees family p m"
  using assms by (simp add: pool_agrees_def)

lemma pool_agrees_same:
  "pool_agrees family p m \<Longrightarrow> pool_inv p' \<Longrightarrow> usable (network p') = usable (network p)
   \<Longrightarrow> used p' = used p \<Longrightarrow> pool_agrees family p' m"
  by (simp add: pool_agrees_def)

section \<open>Mapping an address\<close>

lemma set_pool_simps [simp]:
  "pools (set_pool family p r) = AList.update family p (pools r)"
  "ip_map (set_pool family p r) = ip_map r" "nat_rules (set_pool family p r) = nat_rules r"
  "cleanup_expiry (set_pool family p r) = cleanup_expiry r"
  "min_ttl (set_pool family p r) = min_ttl r" "max_ttl (set_pool family p r) = max_ttl r"
  by (simp_all add: set_pool_def)

lemma mem_inv_set_pool:
  assumes "mem_inv r" and "map_of (pools r) family = Some p"
    and "pool_inv p'" and "usable (network p') = usable (network p)" and "used p' = used p"
  shows "mem_inv (set_pool family p' r)"
proof -
  have "pool_agrees family p' (ip_map r)"
    using pool_agrees_same [OF mem_inv_pool [OF assms(1,2)] assms(3-5)] .
  then show ?thesis using assms(1,2)
    by (auto simp: mem_inv_def wf_dict_update dict_simps)
qed

lemma rules_agree_set_pool [simp]: "rules_agree (set_pool family p r) = rules_agree r"
  by (simp add: rules_agree_def fun_eq_iff)

lemma res_inv_set_pool:
  assumes "res_inv r" and "map_of (pools r) family = Some p"
    and "pool_inv p'" and "usable (network p') = usable (network p)" and "used p' = used p"
  shows "res_inv (set_pool family p' r)"
  using assms mem_inv_set_pool by (auto simp: res_inv_def dict_simps)

lemma mem_inv_insert:
  assumes "mem_inv r" and "family_of real_ip = Some family" and "map_of (pools r) family = Some p"
    and "map_of (ip_map r) real_ip = None"
    and "pool_agrees family p' (AList.update real_ip e (ip_map r))"
  shows "mem_inv (set_pool family p' r\<lparr>ip_map := AList.update real_ip e (ip_map r), nat_rules := t\<rparr>)"
proof -
  have "pool_agrees f q (AList.update real_ip e (ip_map r))"
    if "map_of ((pools r)) f = Some q" "f \<noteq> family" for f q
  proof -
    have "mapped f (AList.update real_ip e (ip_map r)) = mapped f (ip_map r)"
      using assms(2) that(2) by (intro mapped_update_other) auto
    then show ?thesis using pool_agrees_other mem_inv_pool [OF assms(1) that(1)] by blast
  qed
  then show ?thesis using assms
    by (auto simp: mem_inv_def wf_dict_update dict_simps)
qed

lemma mem_inv_touch:
  assumes "mem_inv r" and "map_of (ip_map r) real_ip = Some e"
  shows "mem_inv (r\<lparr>ip_map := AList.update real_ip (e\<lparr>last_access := t\<rparr>) (ip_map r)\<rparr>)"
  using assms
  by (auto simp: mem_inv_def wf_dict_update dict_simps pool_agrees_other [OF mapped_touch])

lemma res_inv_touch:
  assumes "res_inv r" and "map_of (ip_map r) real_ip = Some e"
  shows "res_inv (r\<lparr>ip_map := AList.update real_ip (e\<lparr>last_access := t\<rparr>) (ip_map r)\<rparr>)"
  using assms mem_inv_touch by (auto simp: res_inv_def rules_agree_def mapped_touch)

text \<open>What the resolver keeps throughout: its settings and the families it serves.\<close>

definition same_setup :: "resolver \<Rightarrow> resolver \<Rightarrow> bool" where
  "same_setup r r' \<longleftrightarrow> dom (map_of (pools r')) = dom (map_of (pools r))
     \<and> cleanup_expiry r' = cleanup_expiry r \<and> min_ttl r' = min_ttl r \<and> max_ttl r' = max_ttl r"

lemma same_setup_refl [simp]: "same_setup r r"
  by (simp add: same_setup_def)

lemma same_setup_trans: "same_setup r s \<Longrightarrow> same_setup s t \<Longrightarrow> same_setup r t"
  by (simp add: same_setup_def)

text \<open>A known address: the entry answers and its access time moves.\<close>

lemma get_fake_ip_known:
  assumes "ip_address real_ip = Some a" and "map_of (pools r) (version a) = Some p"
    and "map_of (ip_map r) real_ip = Some e"
  shows "get_fake_ip i ok real_ip t r = (Inr (Some (fake_ip e)),
    r\<lparr>ip_map := AList.update real_ip (e\<lparr>last_access := t\<rparr>) (ip_map r)\<rparr>)"
  using assms by (simp add: get_fake_ip_def)

text \<open>A new address, its rule installed.\<close>

lemma get_fake_ip_new:
  fixes t :: real
  assumes inv: "res_inv r" and a: "ip_address real_ip = Some a"
    and p: "map_of (pools r) (version a) = Some p" and new: "map_of (ip_map r) real_ip = None"
    and al: "allocate i p = (Some fake, p')"
  defines "r' \<equiv> (set_pool (version a) p' r)
    \<lparr>ip_map := AList.update real_ip \<lparr>fake_ip = fake, last_access = t\<rparr> (ip_map r),
     nat_rules := (nat_rules r)(version a := nat_rules r (version a) @ [(fake, real_ip)])\<rparr>"
  shows "get_fake_ip i True real_ip t r = (Inr (Some fake), r')" and "res_inv r'"
    and "same_setup r r'"
proof -
  show "same_setup r r'" using p
    by (simp add: r'_def same_setup_def dict_simps insert_absorb domI)
  show "get_fake_ip i True real_ip t r = (Inr (Some fake), r')"
    using a p new al by (simp add: get_fake_ip_def r'_def)
  let ?f = "version a" and ?e = "\<lparr>fake_ip = fake, last_access = t\<rparr>"
  have mem: "mem_inv r" and pa: "pool_agrees ?f p (ip_map r)"
    using inv p by (auto simp: res_inv_def mem_inv_pool)
  have fam: "family_of real_ip = Some ?f" using a by (simp add: family_of_def)
  from fp.alloc_Some [OF _ al] pa obtain b where b: "pool_inv p'"
    "usable (network p') = usable (network p)" "addr_printable b" "fake = show_addr b"
    "b \<notin> used p" "used p' = insert b (used p)" by (auto simp: pool_agrees_def)
  have "pool_agrees ?f p' (AList.update real_ip ?e (ip_map r))"
    using pool_agrees_add [OF pa b(1-3,5,6) fam new] b(4) by simp
  from mem_inv_insert [OF mem fam p new this] have mem': "mem_inv r'" by (simp add: r'_def)
  have "(fake, real_ip) \<notin> mapped ?f (ip_map r)" using new by (simp add: mapped_iff)
  then have "rules_agree r' f" if "f \<in> dom (map_of (pools r))" for f
    using inv fam that new
    by (cases "f = ?f") (auto simp: res_inv_def rules_agree_def r'_def mapped_update_same
        mapped_update_other)
  then show "res_inv r'" using mem' p by (auto simp: res_inv_def r'_def dict_simps)
qed

text \<open>A new address, its rule not installed: as if nothing had happened.\<close>

lemma get_fake_ip_failed:
  assumes inv: "res_inv r" and a: "ip_address real_ip = Some a"
    and p: "map_of (pools r) (version a) = Some p" and new: "map_of (ip_map r) real_ip = None"
    and al: "allocate i p = (Some fake, p')"
  shows "\<exists>q. get_fake_ip i False real_ip t r = (Inr None, set_pool (version a) q r)
    \<and> pool_inv q \<and> usable (network q) = usable (network p) \<and> used q = used p"
proof -
  have "pool_inv p" using inv p mem_inv_pool by (auto simp: res_inv_def pool_agrees_def)
  from fp.alloc_then_free [OF this al] obtain q where "release fake p' = Inr q" "pool_inv q"
    "used q = used p" "usable (network q) = usable (network p)" by blast
  moreover from this(1) have "get_fake_ip i False real_ip t r
      = (Inr None, set_pool (version a) q r)"
    using a p new al by (simp add: get_fake_ip_def)
  ultimately show ?thesis by blast
qed

lemma get_fake_ip_empty:
  assumes inv: "res_inv r" and a: "ip_address real_ip = Some a"
    and p: "map_of (pools r) (version a) = Some p" and new: "map_of (ip_map r) real_ip = None"
    and al: "allocate i p = (None, p')"
  shows "get_fake_ip i ok real_ip t r = (Inr None, set_pool (version a) p' r)"
    and "pool_inv p'" and "usable (network p') = usable (network p)" and "used p' = used p"
    and "{b \<in> usable (network p). addr_plain b} \<subseteq> used p"
proof -
  have "pool_inv p" using inv p mem_inv_pool by (auto simp: res_inv_def pool_agrees_def)
  from fp.alloc_None [OF this al] show "pool_inv p'" "usable (network p') = usable (network p)"
    "used p' = used p" "{b \<in> usable (network p). addr_plain b} \<subseteq> used p" by auto
  show "get_fake_ip i ok real_ip t r = (Inr None, set_pool (version a) p' r)"
    using a p new al by (simp add: get_fake_ip_def)
qed

lemma get_fake_ip_keeps:
  assumes inv: "res_inv r" and g: "get_fake_ip i ok real_ip t r = (q, r')"
  shows "res_inv r' \<and> same_setup r r'"
proof (cases "ip_address real_ip")
  case None
  then show ?thesis using assms by (auto simp: get_fake_ip_def)
next
  case (Some a)
  note a = Some
  show ?thesis
  proof (cases "map_of (pools r) (version a)")
    case None
    then show ?thesis using assms a by (auto simp: get_fake_ip_def)
  next
    case (Some p)
    note p = Some
    show ?thesis
    proof (cases "map_of (ip_map r) real_ip")
      case (Some e)
      then show ?thesis using g get_fake_ip_known [OF a p Some, of i ok t] res_inv_touch [OF inv Some]
        by (auto simp: same_setup_def)
    next
      case None
      note new = None
      have dom: "same_setup r (set_pool (version a) p1 r)" for p1
        using p by (auto simp: same_setup_def dict_simps)
      show ?thesis
      proof (cases "fst (allocate i p)")
        case None
        then obtain p' where al: "allocate i p = (None, p')" by (cases "allocate i p") auto
        note e = get_fake_ip_empty [OF inv a p new al]
        show ?thesis using g e(1) [of ok t] res_inv_set_pool [OF inv p e(2-4)] dom by auto
      next
        case (Some fake)
        then obtain p' where al: "allocate i p = (Some fake, p')" by (cases "allocate i p") auto
        show ?thesis
        proof (cases ok)
          case True
          then show ?thesis using g get_fake_ip_new [OF inv a p new al, of t] by auto
        next
          case False
          then show ?thesis using g get_fake_ip_failed [OF inv a p new al, of t]
              res_inv_set_pool [OF inv p] dom by auto
        qed
      qed
    qed
  qed
qed

section \<open>Cleaning up\<close>

lemma map_of_filter_key: "map_of (filter (\<lambda>(k, e). P k) m) k = (if P k then map_of m k else None)"
  by (induction m) auto

lemma mapped_filter:
  "mapped family (filter (\<lambda>(k, e). P k) m) = {x \<in> mapped family m. P (snd x)}"
  by (auto simp: set_eq_iff split_paired_All mapped_iff map_of_filter_key)

lemma delete_rules_filter:
  "distinct t \<Longrightarrow> distinct xs \<Longrightarrow> set xs \<subseteq> set t \<Longrightarrow>
   delete_rules xs t = Some (filter (\<lambda>x. x \<notin> set xs) t)"
proof (induction xs arbitrary: t)
  case Nil
  then show ?case by simp
next
  case (Cons x xs)
  have "set xs \<subseteq> set (remove1 x t)" using Cons.prems by auto
  with Cons have "delete_rules xs (remove1 x t) = Some (filter (\<lambda>y. y \<notin> set xs) (remove1 x t))" by simp
  moreover have "filter (\<lambda>y. y \<notin> set xs) (remove1 x t) = filter (\<lambda>y. y \<notin> set (x # xs)) t"
    using Cons.prems(1) by (auto simp: distinct_remove1_removeAll removeAll_filter_not_eq conj_commute
        intro!: filter_cong)
  ultimately show ?case using Cons.prems by simp
qed

text \<open>Taking the expired entries of one family out of the pool and the table.\<close>

lemma unmap_all_spec:
  assumes "mem_inv r" and "distinct (map fst xs)"
    and "\<And>real_ip fake. (real_ip, fake) \<in> set xs \<Longrightarrow>
           \<exists>f. family_of real_ip = Some f
             \<and> (f = family \<longrightarrow> map_option fake_ip (map_of (ip_map r) real_ip) = Some fake)"
  shows "\<exists>r'. unmap_all family xs r = (Inr (), r') \<and> mem_inv r' \<and> same_setup r r'
    \<and> nat_rules r' = nat_rules r
    \<and> ip_map r' = filter (\<lambda>(k, e). \<not> (k \<in> fst ` set xs \<and> family_of k = Some family)) (ip_map r)"
  using assms
proof (induction xs arbitrary: r)
  case Nil
  then show ?case by simp
next
  case (Cons x xs)
  obtain real_ip fake where x: "x = (real_ip, fake)" by (cases x)
  from Cons.prems(3) [of real_ip fake] x obtain f where f: "family_of real_ip = Some f"
    "f = family \<Longrightarrow> map_option fake_ip (map_of (ip_map r) real_ip) = Some fake" by auto
  then obtain a where a: "ip_address real_ip = Some a" "version a = f" by (auto simp: family_of_def)
  show ?case
  proof (cases "f = family")
    case False
    then have "unmap_all family (x # xs) r = unmap_all family xs r" using a x by simp
    moreover have "filter (\<lambda>(k, e). \<not> (k \<in> fst ` set (x # xs) \<and> family_of k = Some family)) (ip_map r)
        = filter (\<lambda>(k, e). \<not> (k \<in> fst ` set xs \<and> family_of k = Some family)) (ip_map r)"
      using f False x by (auto intro!: filter_cong)
    ultimately show ?thesis using Cons.IH [of r] Cons.prems by auto
  next
    case True
    from f(2) [OF True] obtain e where e: "map_of (ip_map r) real_ip = Some e" "fake = fake_ip e"
      by auto
    have "\<exists>g \<in> dom (map_of (pools r)). family_of real_ip = Some g"
      using Cons.prems(1) domI [of "map_of (ip_map r)", OF e(1)] unfolding mem_inv_def by blast
    then obtain p where p: "map_of (pools r) family = Some p" using f(1) True by auto
    have pa: "pool_agrees family p (ip_map r)" using mem_inv_pool [OF Cons.prems(1) p] .
    have mp: "(fake, real_ip) \<in> mapped family (ip_map r)" using e f True by (simp add: mapped_iff)
    from mapped_used [OF pa mp] obtain b where b: "ip_address fake = Some b" by auto
    have "pool_inv p" using pa by (simp add: pool_agrees_def)
    from fp.free_ok [OF this b] obtain q where q: "release fake p = Inr q" "pool_inv q"
      "usable (network q) = usable (network p)" "used q = used p - {b}" by blast
    let ?r = "(set_pool family q r)\<lparr>ip_map := AList.delete real_ip (ip_map r)\<rparr>"
    have run: "unmap_all family (x # xs) r = unmap_all family xs ?r"
      using a True x p q(1) e(1) by simp
    have "pool_agrees family q (AList.delete real_ip (ip_map r))"
      using pool_agrees_remove [OF pa mp b q(2-4)] .
    moreover have "pool_agrees g p' (AList.delete real_ip (ip_map r))"
      if "map_of (pools r) g = Some p'" "g \<noteq> family" for g p'
    proof -
      have "mapped g (AList.delete real_ip (ip_map r)) = mapped g (ip_map r)"
        using that(2) f True by (auto simp: mapped_delete set_eq_iff split_paired_All mapped_iff)
      then show ?thesis using pool_agrees_other mem_inv_pool [OF Cons.prems(1) that(1)] by blast
    qed
    ultimately have "mem_inv ?r" using Cons.prems(1) p
      by (auto simp: mem_inv_def wf_dict_update wf_dict_delete dict_simps split: if_splits)
    moreover have "\<exists>f. family_of k = Some f
        \<and> (f = family \<longrightarrow> map_option fake_ip (map_of (ip_map ?r) k) = Some g)"
      if "(k, g) \<in> set xs" for k g
    proof -
      have "k \<noteq> real_ip" using that Cons.prems(2) x by force
      then show ?thesis using Cons.prems(3) [of k g] that by (simp add: dict_simps)
    qed
    ultimately obtain r' where r': "unmap_all family xs ?r = (Inr (), r')" "mem_inv r'" "same_setup ?r r'"
      "nat_rules r' = nat_rules r"
      "ip_map r' = filter (\<lambda>(k, e). \<not> (k \<in> fst ` set xs \<and> family_of k = Some family)) (ip_map ?r)"
      using Cons.IH [of ?r] Cons.prems(2) x by auto
    have "ip_map r' = filter (\<lambda>(k, e). \<not> (k \<in> fst ` set (x # xs) \<and> family_of k = Some family)) (ip_map r)"
      unfolding r'(5) using f True x
      by (auto simp: AList.delete_eq filter_filter intro!: filter_cong)
    moreover have "same_setup r ?r" using p by (auto simp: same_setup_def dict_simps)
    ultimately show ?thesis using run r' same_setup_trans by metis
  qed
qed

lemma mem_inv_rules [simp]: "mem_inv (r\<lparr>nat_rules := t\<rparr>) = mem_inv r"
  by (simp add: mem_inv_def)

lemma family_rules_mem:
  "x \<in> set (family_rules family tagged) \<longleftrightarrow> (family, x) \<in> set tagged"
  by (force simp: family_rules_def)

text \<open>One family: its rules go in one transaction, then its entries.\<close>

lemma cleanup_family:
  assumes inv: "res_inv r" and dist: "distinct (map fst cleanup)"
    and ex: "\<And>real_ip fake. (real_ip, fake) \<in> set cleanup \<Longrightarrow> \<exists>f. family_of real_ip = Some f
             \<and> (f = family \<longrightarrow> map_option fake_ip (map_of (ip_map r) real_ip) = Some fake)"
    and dom: "family \<in> dom (map_of (pools r))"
    and rules: "set rules = {(fake, real_ip). (real_ip, fake) \<in> set cleanup \<and> family_of real_ip = Some family}"
    and drules: "distinct rules"
  shows "\<exists>t r'. restore_nat True rules (nat_rules r family) = Some t
    \<and> unmap_all family cleanup (r\<lparr>nat_rules := (nat_rules r)(family := t)\<rparr>) = (Inr (), r')
    \<and> res_inv r' \<and> same_setup r r'
    \<and> ip_map r' = filter (\<lambda>(k, e). \<not> (k \<in> fst ` set cleanup \<and> family_of k = Some family)) (ip_map r)"
proof -
  let ?P = "\<lambda>k. \<not> (k \<in> fst ` set cleanup \<and> family_of k = Some family)"
  have mem: "mem_inv r" and ra: "rules_agree r family" using inv dom by (auto simp: res_inv_def)
  have sub: "set rules \<subseteq> set (nat_rules r family)"
  proof
    fix x assume "x \<in> set rules"
    then obtain fake real_ip where x: "x = (fake, real_ip)" "(real_ip, fake) \<in> set cleanup"
      "family_of real_ip = Some family" by (auto simp: rules)
    then show "x \<in> set (nat_rules r family)" using ex [of real_ip fake] ra
      by (auto simp: rules_agree_def mapped_iff)
  qed
  let ?t = "filter (\<lambda>x. x \<notin> set rules) (nat_rules r family)"
  have t: "restore_nat True rules (nat_rules r family) = Some ?t"
    using delete_rules_filter [OF _ drules sub] ra by (simp add: restore_nat_def rules_agree_def)
  let ?r = "r\<lparr>nat_rules := (nat_rules r)(family := ?t)\<rparr>"
  have "\<exists>r'. unmap_all family cleanup ?r = (Inr (), r') \<and> mem_inv r' \<and> same_setup ?r r'
      \<and> nat_rules r' = nat_rules ?r \<and> ip_map r' = filter (\<lambda>(k, e). ?P k) (ip_map ?r)"
    using ex mem by (intro unmap_all_spec [OF _ dist]) simp_all
  then obtain r' where r': "unmap_all family cleanup ?r = (Inr (), r')" "mem_inv r'" "same_setup ?r r'"
    "nat_rules r' = nat_rules ?r" "ip_map r' = filter (\<lambda>(k, e). ?P k) (ip_map ?r)" by blast
  have m: "mapped g (ip_map r') = {x \<in> mapped g (ip_map r). ?P (snd x)}" for g
    using r'(5) mapped_filter [of g ?P "ip_map r"] by simp
  have "set ?t = mapped family (ip_map r')"
  proof (rule set_eqI)
    fix x :: rule
    obtain fake real_ip where x: "x = (fake, real_ip)" by (cases x)
    have "real_ip \<in> fst ` set cleanup \<longleftrightarrow> (real_ip, fake) \<in> set cleanup"
      if "family_of real_ip = Some family" "map_option fake_ip (map_of (ip_map r) real_ip) = Some fake"
      using ex that by force
    then show "x \<in> set ?t \<longleftrightarrow> x \<in> mapped family (ip_map r')"
      using ra by (auto simp: x m rules_agree_def mapped_iff rules)
  qed
  moreover have "mapped g (ip_map r') = mapped g (ip_map r)" if "g \<noteq> family" for g
    using that unfolding m by (auto simp: mapped_iff)
  moreover have ss: "same_setup r r'" using r'(3) by (simp add: same_setup_def)
  ultimately have "res_inv r'" using inv r'(2,4) ra
    by (auto simp: res_inv_def rules_agree_def same_setup_def)
  then show ?thesis using t r' ss by auto
qed

text \<open>The families in turn: those before the first failing one are done, the rest untouched.\<close>

lemma cleanup_loop_spec:
  assumes "res_inv r" and "distinct (map fst cleanup)" and "distinct families"
    and "set families \<subseteq> dom (map_of (pools r))"
    and "\<And>real_ip fake. (real_ip, fake) \<in> set cleanup \<Longrightarrow> \<exists>f. family_of real_ip = Some f
             \<and> (f \<in> set families \<longrightarrow> map_option fake_ip (map_of (ip_map r) real_ip) = Some fake)"
    and "\<And>family. set (family_rules family tagged) =
           {(fake, real_ip). (real_ip, fake) \<in> set cleanup \<and> family_of real_ip = Some family}"
    and "\<And>family. distinct (family_rules family tagged)"
  shows "\<exists>q r' finished. cleanup_loop ok cleanup tagged families r = (q, r') \<and> res_inv r'
    \<and> same_setup r r' \<and> finished \<subseteq> set families
    \<and> ip_map r' = filter (\<lambda>(k, e). \<not> (k \<in> fst ` set cleanup \<and> family_of k \<in> Some ` finished)) (ip_map r)
    \<and> (if \<forall>f \<in> set families. ok f then q = Inr () \<and> finished = set families
       else q = Inr () \<or> q = Inl CalledProcessError)
    \<and> (q = Inr () \<longrightarrow> finished = set families)"
  using assms(1,3,4,5)
proof (induction families arbitrary: r)
  case Nil
  then show ?case by (intro exI [of _ "Inr ()"] exI [of _ r] exI [of _ "{}"]) simp
next
  case (Cons f fs)
  note rules = assms(6) [of f] and dist = assms(2)
  let ?D = "\<lambda>s k. k \<in> fst ` set cleanup \<and> family_of k \<in> Some ` s"
  show ?case
  proof (cases "family_rules f tagged = []")
    case True
    then have none: "k \<in> fst ` set cleanup \<Longrightarrow> family_of k \<noteq> Some f" for k
      using rules by auto
    from Cons.IH [of r] Cons.prems obtain q r' fin where IH:
      "cleanup_loop ok cleanup tagged fs r = (q, r')" "res_inv r'" "same_setup r r'" "fin \<subseteq> set fs"
      "ip_map r' = filter (\<lambda>(k, e). \<not> ?D fin k) (ip_map r)"
      "if \<forall>f \<in> set fs. ok f then q = Inr () \<and> fin = set fs else q = Inr () \<or> q = Inl CalledProcessError"
      "q = Inr () \<longrightarrow> fin = set fs" by fastforce
    have "ip_map r' = filter (\<lambda>(k, e). \<not> ?D (insert f fin) k) (ip_map r)"
      unfolding IH(5) using none by (intro filter_cong refl) auto
    then show ?thesis using IH True
      by (intro exI [of _ q] exI [of _ r'] exI [of _ "insert f fin"]) (auto split: if_splits)
  next
    case False
    show ?thesis
    proof (cases "ok f")
      case True
      have "\<exists>f'. family_of real_ip = Some f' \<and> (f' = f \<longrightarrow> map_option fake_ip (map_of (ip_map r) real_ip) = Some fake)"
        if "(real_ip, fake) \<in> set cleanup" for real_ip fake
        using Cons.prems(4) [OF that] by auto
      from cleanup_family [OF Cons.prems(1) dist this _ rules assms(7)] Cons.prems(3)
      obtain t r1 where r1: "restore_nat True (family_rules f tagged) (nat_rules r f) = Some t"
        "unmap_all f cleanup (r\<lparr>nat_rules := (nat_rules r)(f := t)\<rparr>) = (Inr (), r1)"
        "res_inv r1" "same_setup r r1"
        "ip_map r1 = filter (\<lambda>(k, e). \<not> (k \<in> fst ` set cleanup \<and> family_of k = Some f)) (ip_map r)"
        by auto
      have run: "cleanup_loop ok cleanup tagged (f # fs) r = cleanup_loop ok cleanup tagged fs r1"
        using False True r1(1,2) by simp
      have "\<exists>f'. family_of real_ip = Some f' \<and> (f' \<in> set fs \<longrightarrow> map_option fake_ip (map_of (ip_map r1) real_ip) = Some fake)"
        if "(real_ip, fake) \<in> set cleanup" for real_ip fake
        using Cons.prems(2) Cons.prems(4) [OF that] by (auto simp: r1(5) map_of_filter_key)
      with Cons.IH [of r1] Cons.prems(2,3) r1(3,4) obtain q r' fin where IH:
        "cleanup_loop ok cleanup tagged fs r1 = (q, r')" "res_inv r'" "same_setup r1 r'" "fin \<subseteq> set fs"
        "ip_map r' = filter (\<lambda>(k, e). \<not> ?D fin k) (ip_map r1)"
        "if \<forall>f \<in> set fs. ok f then q = Inr () \<and> fin = set fs else q = Inr () \<or> q = Inl CalledProcessError"
        "q = Inr () \<longrightarrow> fin = set fs" by (auto simp: same_setup_def)
      have "ip_map r' = filter (\<lambda>(k, e). \<not> ?D (insert f fin) k) (ip_map r)"
        unfolding IH(5) r1(5) filter_filter by (intro filter_cong refl) auto
      then show ?thesis using IH run r1(4) same_setup_trans True
        by (intro exI [of _ q] exI [of _ r'] exI [of _ "insert f fin"]) (auto split: if_splits)
    next
      case off: False
      then show ?thesis using False Cons.prems(1)
        by (intro exI [of _ "Inl CalledProcessError"] exI [of _ r] exI [of _ "{}"])
          (auto simp: restore_nat_def)
    qed
  qed
qed

end
