(* ===== verification/ProxyService.thy ===== *)
theory ProxyService
  imports ResolverFacts
begin

text \<open>
  The DNS proxy as a process: the clean-up as a whole, the rewriting of a reply, the
  transitions of a running resolver, and the restart from the rules left in the kernel.
  The properties of the proxy are in \<^theory_text>\<open>ProxyProps\<close>.
\<close>

section \<open>The clean-up as a whole\<close>

definition expired :: "real \<Rightarrow> resolver \<Rightarrow> entry \<Rightarrow> bool" where
  "expired t r e \<longleftrightarrow> cleanup_expiry r < t - last_access e"

definition kept :: "nat set \<Rightarrow> real \<Rightarrow> resolver \<Rightarrow> (string, entry) dict" where
  "kept families t r =
     filter (\<lambda>(k, e). \<not> (expired t r e \<and> family_of k \<in> Some ` families)) (ip_map r)"

lemma expired_ips_mem:
  assumes "wf_dict (ip_map r)"
  shows "(real_ip, fake) \<in> set (expired_ips t r) \<longleftrightarrow>
    (\<exists>e. map_of (ip_map r) real_ip = Some e \<and> expired t r e \<and> fake = fake_ip e)"
  using wf_dict_lookup [OF assms, of real_ip]
  by (auto simp: expired_ips_def expired_def image_iff)

lemma expired_ips_distinct: "wf_dict (ip_map r) \<Longrightarrow> distinct (map fst (expired_ips t r))"
proof -
  assume "wf_dict (ip_map r)"
  moreover have "map fst (expired_ips t r)
      = map fst (filter (\<lambda>(k, e). cleanup_expiry r < t - last_access e) (ip_map r))"
    by (simp add: expired_ips_def comp_def case_prod_beta)
  ultimately show ?thesis by (metis wf_dict_def wf_dict_filter)
qed

lemma family_rules_distinct:
  assumes "distinct (map fst xs)"
  shows "distinct (family_rules family (map (\<lambda>(k, f). (g k, (f, k))) xs))"
  using assms by (induction xs) (auto simp: family_rules_def)

lemma fst_image_iff: "k \<in> fst ` S \<longleftrightarrow> (\<exists>g. (k, g) \<in> S)"
  by force

lemma cleanup_spec:
  assumes inv: "res_inv r"
  shows "\<exists>q r' finished. cleanup_fake_ips ok t r = (q, r') \<and> res_inv r' \<and> same_setup r r'
    \<and> ip_map r' = kept finished t r \<and> finished \<subseteq> dom (map_of (pools r))
    \<and> (if \<forall>f \<in> dom (map_of (pools r)). ok f then q = Inr () \<and> finished = dom (map_of (pools r))
       else q = Inr () \<or> q = Inl CalledProcessError)
    \<and> (q = Inr () \<longrightarrow> finished = dom (map_of (pools r)))"
proof (cases "expired_ips t r = []")
  case True
  then have "\<forall>x \<in> set (ip_map r). \<not> expired t r (snd x)"
    by (auto simp: expired_ips_def expired_def filter_empty_conv)
  then have "kept s t r = ip_map r" for s
    unfolding kept_def by (intro filter_True) auto
  then show ?thesis using inv True by (auto simp: cleanup_fake_ips_def)
next
  case False
  have mem: "mem_inv r" and wf: "wf_dict (ip_map r)" and wp: "wf_dict (pools r)"
    using inv by (auto simp: res_inv_def mem_inv_def)
  let ?c = "expired_ips t r"
  let ?g = "\<lambda>(k, f). (the (family_of k), (f, k))"
  have ex: "\<exists>f \<in> dom (map_of (pools r)). family_of k = Some f
      \<and> map_option fake_ip (map_of (ip_map r) k) = Some g" if kg: "(k, g) \<in> set ?c" for k g
  proof -
    from kg expired_ips_mem [OF wf] obtain e where e: "map_of (ip_map r) k = Some e" "g = fake_ip e"
      by blast
    then have "k \<in> dom (map_of (ip_map r))" by auto
    then show ?thesis using mem e unfolding mem_inv_def by force
  qed
  have "tag_rule r x = Inr (?g x)" if "x \<in> set ?c" for x
    using ex [of "fst x" "snd x"] that
    by (cases x) (auto simp: tag_rule_def family_of_def dom_keys split: option.splits)
  then have tag: "traverseR (tag_rule r) ?c = Inr (map ?g ?c)" by (rule traverseR_map)
  have rules: "set (family_rules f (map ?g ?c))
      = {(fake, k). (k, fake) \<in> set ?c \<and> family_of k = Some f}" for f
    using ex by (force simp: set_eq_iff family_rules_mem)
  have d3: "\<exists>f. family_of k = Some f \<and> (f \<in> set (keys (pools r)) \<longrightarrow>
      map_option fake_ip (map_of (ip_map r) k) = Some g)" if "(k, g) \<in> set ?c" for k g
    using ex [OF that] by auto
  have d: "distinct (keys (pools r))" "set (keys (pools r)) \<subseteq> dom (map_of (pools r))"
    using wp dom_keys by (auto simp: wf_dict_def keys_def)
  note fd = family_rules_distinct [OF expired_ips_distinct [OF wf]]
  have "\<exists>q r' fin. cleanup_loop ok ?c (map ?g ?c) (keys (pools r)) r = (q, r') \<and> res_inv r'
    \<and> same_setup r r' \<and> fin \<subseteq> set (keys (pools r))
    \<and> ip_map r' = filter (\<lambda>(k, e). \<not> (k \<in> fst ` set ?c \<and> family_of k \<in> Some ` fin)) (ip_map r)
    \<and> (if \<forall>f \<in> set (keys (pools r)). ok f then q = Inr () \<and> fin = set (keys (pools r))
       else q = Inr () \<or> q = Inl CalledProcessError)
    \<and> (q = Inr () \<longrightarrow> fin = set (keys (pools r)))"
    by (rule cleanup_loop_spec [OF inv expired_ips_distinct [OF wf] d]) (fact d3 rules fd)+
  then obtain q r' fin where loop: "cleanup_loop ok ?c (map ?g ?c) (keys (pools r)) r = (q, r')"
    "res_inv r'" "same_setup r r'" "fin \<subseteq> set (keys (pools r))"
    "ip_map r' = filter (\<lambda>(k, e). \<not> (k \<in> fst ` set ?c \<and> family_of k \<in> Some ` fin)) (ip_map r)"
    "if \<forall>f \<in> set (keys (pools r)). ok f then q = Inr () \<and> fin = set (keys (pools r))
       else q = Inr () \<or> q = Inl CalledProcessError"
    "q = Inr () \<longrightarrow> fin = set (keys (pools r))"
    by blast
  have ks: "set (keys (pools r)) = dom (map_of (pools r))" by (intro set_eqI dom_keys)
  have "ip_map r' = kept fin t r"
    unfolding loop(5) kept_def
  proof (intro filter_cong refl)
    fix x assume x: "x \<in> set (ip_map r)"
    obtain k e where k: "x = (k, e)" by (cases x)
    have "map_of (ip_map r) k = Some e" using wf_dict_lookup [OF wf] x k by blast
    then have "(\<exists>g. (k, g) \<in> set ?c) \<longleftrightarrow> expired t r e" by (simp add: expired_ips_mem [OF wf])
    then have "k \<in> fst ` set ?c \<longleftrightarrow> expired t r e" by (simp only: fst_image_iff)
    then show "(case x of (k, e) \<Rightarrow> \<not> (k \<in> fst ` set ?c \<and> family_of k \<in> Some ` fin))
        \<longleftrightarrow> (case x of (k, e) \<Rightarrow> \<not> (expired t r e \<and> family_of k \<in> Some ` fin))"
      by (simp add: k)
  qed
  then show ?thesis using loop tag False unfolding ks by (auto simp: cleanup_fake_ips_def Let_def)
qed

section \<open>Rewriting a reply\<close>

definition fake_for :: "resolver \<Rightarrow> string \<Rightarrow> string option" where
  "fake_for r real_ip = map_option fake_ip (map_of (ip_map r) real_ip)"

definition extends :: "resolver \<Rightarrow> resolver \<Rightarrow> bool" where
  "extends r r' \<longleftrightarrow> (\<forall>k f. fake_for r k = Some f \<longrightarrow> fake_for r' k = Some f)"

lemma extends_refl [simp]: "extends r r"
  by (simp add: extends_def)

lemma extends_trans: "extends r s \<Longrightarrow> extends s t \<Longrightarrow> extends r t"
  by (simp add: extends_def)

lemma get_fake_ip_extends:
  assumes "res_inv r" and "get_fake_ip i ok real_ip t r = (q, r')"
  shows "extends r r' \<and> (\<forall>f. q = Inr (Some f) \<longrightarrow> fake_for r' real_ip = Some f)"
  using assms(2)
  by (auto simp: get_fake_ip_def extends_def fake_for_def dict_simps
      split: option.splits prod.splits if_splits sum.splits)

text \<open>What a reply becomes, given the table it ends with.\<close>

definition answers :: "nat \<Rightarrow> bool \<Rightarrow> resolver \<Rightarrow> resolver \<Rightarrow> rr \<Rightarrow> rr list" where
  "answers qt is_smtp r0 r x =
     (if rtype x \<noteq> qt then [x]
      else (if is_smtp then [clamp_ttl r0 x] else [])
        @ [(clamp_ttl r0 x)\<lparr>rdata := the (fake_for r (rdata x))\<rparr>])"

lemma clamp_ttl_cong: "min_ttl r = min_ttl r' \<Longrightarrow> max_ttl r = max_ttl r' \<Longrightarrow> clamp_ttl r = clamp_ttl r'"
  by (simp add: clamp_ttl_def fun_eq_iff)

lemma rewrite_spec:
  assumes "res_inv r" and "rewrite qt is_smtp t idx ok n xs r = (q, r')"
  shows "res_inv r' \<and> same_setup r r' \<and> extends r r' \<and>
    (\<forall>ys. q = Inr (Some ys) \<longrightarrow> ys = concat (map (answers qt is_smtp r r') xs)
       \<and> (\<forall>x \<in> set xs. rtype x = qt \<longrightarrow> fake_for r' (rdata x) \<noteq> None))"
  using assms
proof (induction xs arbitrary: n r q r')
  case Nil
  then show ?case by auto
next
  case (Cons x xs)
  show ?case
  proof (cases "rtype x = qt")
    case False
    obtain q1 r1 where r1: "rewrite qt is_smtp t idx ok (n + 1) xs r = (q1, r1)" by fastforce
    have "r' = r1" and q: "\<And>ys. q = Inr (Some ys) \<Longrightarrow> \<exists>zs. q1 = Inr (Some zs) \<and> ys = x # zs"
      using Cons.prems(2) False r1 by (auto split: sum.splits option.splits)
    then show ?thesis using Cons.IH [OF Cons.prems(1) r1] False by (fastforce simp: answers_def)
  next
    case True
    obtain g r1 where g: "get_fake_ip (idx n) (ok n) (rdata x) t r = (g, r1)" by fastforce
    note k = get_fake_ip_keeps [OF Cons.prems(1) g] get_fake_ip_extends [OF Cons.prems(1) g]
    show ?thesis
    proof (cases "\<exists>fake. g = Inr (Some fake)")
      case False
      then have "r' = r1" "\<And>ys. q \<noteq> Inr (Some ys)"
        using Cons.prems(2) True g by (auto simp: Let_def split: sum.splits option.splits)
      then show ?thesis using k by blast
    next
      case ex: True
      then obtain fake where fake: "g = Inr (Some fake)" by blast
      obtain q1 r2 where r2: "rewrite qt is_smtp t idx ok (n + 1) xs r1 = (q1, r2)" by fastforce
      have "r' = r2" and q: "\<And>ys. q = Inr (Some ys) \<Longrightarrow> \<exists>zs. q1 = Inr (Some zs) \<and>
          ys = (if is_smtp then [clamp_ttl r x] else []) @ (clamp_ttl r x)\<lparr>rdata := fake\<rparr> # zs"
        using Cons.prems(2) True r2 g fake by (auto simp: Let_def split: sum.splits option.splits)
      note IH = Cons.IH [OF conjunct1 [OF k(1)] r2]
      have f: "fake_for r' (rdata x) = Some fake"
        using IH k(2) fake \<open>r' = r2\<close> by (auto simp: extends_def)
      have "clamp_ttl r1 = clamp_ttl r" using k(1) by (intro clamp_ttl_cong) (auto simp: same_setup_def)
      then have "answers qt is_smtp r1 r' = answers qt is_smtp r r'"
        by (simp add: answers_def fun_eq_iff)
      moreover have "answers qt is_smtp r r' x
          = (if is_smtp then [clamp_ttl r x] else []) @ [(clamp_ttl r x)\<lparr>rdata := fake\<rparr>]"
        using True f by (simp add: answers_def)
      ultimately have "ys = concat (map (answers qt is_smtp r r') (x # xs))
          \<and> (\<forall>x \<in> set (x # xs). rtype x = qt \<longrightarrow> fake_for r' (rdata x) \<noteq> None)"
        if ys: "q = Inr (Some ys)" for ys
        using q [OF ys] IH True f \<open>r' = r2\<close> by auto
      moreover have "same_setup r r'" "extends r r'"
        using IH k \<open>r' = r2\<close> same_setup_trans extends_trans by blast+
      ultimately show ?thesis using IH \<open>r' = r2\<close> by blast
    qed
  qed
qed

lemma resolve_keeps:
  assumes "res_inv r" and "resolve rq upstream t idx ok r = (rep, r')"
  shows "res_inv r' \<and> same_setup r r' \<and> extends r r'"
proof -
  have "r' = r \<or> (\<exists>sm xs q. rewrite (qtype rq) sm t idx ok 0 xs r = (q, r'))"
  proof (cases upstream)
    case None
    then show ?thesis using assms(2) by (simp add: resolve_def)
  next
    case (Some a)
    define sm where "sm = (case qlabels rq of [] \<Rightarrow> False | l # ls \<Rightarrow> contains ''smtp'' l)"
    obtain q r1 where rw: "rewrite (qtype rq) sm t idx ok 0 (rrs a) r = (q, r1)" by fastforce
    define c where "c \<longleftrightarrow> rcode a = NOERROR \<and> (qtype rq = QTYPE_A \<or> qtype rq = QTYPE_AAAA)
             \<and> (qtype rq \<noteq> QTYPE_AAAA \<or> 6 \<in> set (keys (pools r)))"
    show ?thesis using assms(2) Some rw
      unfolding resolve_def Let_def sm_def [symmetric] c_def [symmetric] option.case
      by (auto split: if_splits sum.splits option.splits)
  qed
  then show ?thesis
  proof
    assume "\<exists>sm xs q. rewrite (qtype rq) sm t idx ok 0 xs r = (q, r')"
    then show ?thesis using rewrite_spec [OF assms(1)] by blast
  qed (simp add: assms(1))
qed

section \<open>The process\<close>

text \<open>
  The transitions of the running process: what it does while it holds its lock. That is one
  call of \<open>get_fake_ip\<close> for a record of some query, its \<open>iptables\<close> run failing or not, and
  a round of the clean-up worker. The queries answered at the same time, and the clean-up
  between two records of one query, are the sequences of these steps.
\<close>

inductive step :: "process \<Rightarrow> process \<Rightarrow> bool" where
  lookup: "get_fake_ip i ok real_ip t r = (q, r') \<Longrightarrow> step (Running r) (Running r')"
| clean: "step (Running r) (cleanup_fake_ips_worker ok flush_ok t r)"

inductive_cases step_runningE: "step (Running r) p"
inductive_simps step_exited: "step (Exited rules) p"

definition process_inv :: "resolver \<Rightarrow> process \<Rightarrow> bool" where
  "process_inv r0 p \<longleftrightarrow> (case p of Running r \<Rightarrow> res_inv r \<and> same_setup r0 r | Exited _ \<Rightarrow> True)"

lemma step_keeps: "step p p' \<Longrightarrow> process_inv r0 p \<Longrightarrow> process_inv r0 p'"
proof (induction rule: step.induct)
  case (lookup i ok real_ip t r q r')
  then show ?case using get_fake_ip_keeps same_setup_trans by (force simp: process_inv_def)
next
  case (clean r ok flush_ok t)
  then have "res_inv r" by (simp add: process_inv_def)
  from cleanup_spec [OF this, of ok t] obtain q r' where
    "cleanup_fake_ips ok t r = (q, r')" "res_inv r'" "same_setup r r'" by blast
  then show ?case using clean same_setup_trans
    by (auto simp: process_inv_def cleanup_fake_ips_worker_def split: sum.splits)
qed

lemma steps_keep: "step\<^sup>*\<^sup>* p p' \<Longrightarrow> process_inv r0 p \<Longrightarrow> process_inv r0 p'"
  by (induction rule: rtranclp_induct) (auto intro: step_keeps)

section \<open>Starting from the rules in the kernel\<close>

text \<open>What \<open>iptables -S\<close> prints: a line that declares the chain and one line for each rule.\<close>

definition rule_line :: "nat \<Rightarrow> rule \<Rightarrow> string" where
  "rule_line family x = ''-A '' @ chain family @ '' -d '' @ fst x
     @ (if family = 6 then ''/128'' else ''/32'') @ '' -j DNAT --to-destination '' @ snd x"

definition faithful_listing :: "(nat \<Rightarrow> rule list \<Rightarrow> string list) \<Rightarrow> bool" where
  "faithful_listing listing \<longleftrightarrow>
     (\<forall>family rules. listing family rules = (''-N '' @ chain family) # map (rule_line family) rules)"

definition spaceless :: "string \<Rightarrow> bool" where
  "spaceless s \<longleftrightarrow> s \<noteq> [] \<and> (\<forall>c \<in> set s. \<not> is_space c)"

lemma words_literal:
  "words (''-N '' @ chain family) = [''-N'', chain family]"
  "words (''-A '' @ s) = ''-A'' # words s" "words ('' -d '' @ s) = ''-d'' # words s"
  "words ('' -j DNAT --to-destination '' @ s) = ''-j'' # ''DNAT'' # ''--to-destination'' # words s"
  by (simp_all add: words_def chain_def is_space_def)

lemma words_gap:
  assumes "spaceless w"
  shows "words (w @ CHR '' '' # s) = w # words s"
  using assms by (intro words_Cons) (auto simp: spaceless_def is_space_def)

lemma words_rule_line:
  assumes "spaceless fake" and "spaceless real_ip"
  shows "words (rule_line family (fake, real_ip)) =
    [''-A'', chain family, ''-d'', fake @ (if family = 6 then ''/128'' else ''/32''),
     ''-j'', ''DNAT'', ''--to-destination'', real_ip]"
proof -
  let ?d = "fake @ (if family = 6 then ''/128'' else ''/32'')"
  have d: "spaceless ?d" and c: "spaceless (chain family)"
    using assms(1) by (auto simp: spaceless_def is_space_def chain_def)
  have "words ('' -j DNAT --to-destination '' @ real_ip) = [''-j'', ''DNAT'', ''--to-destination'', real_ip]"
    using words_single [of real_ip] assms(2) by (simp only: words_literal) (simp add: spaceless_def)
  moreover have "words (''-d '' @ t) = ''-d'' # words t" for t
    by (simp add: words_def is_space_def)
  moreover have "words (''-j DNAT --to-destination '' @ t) = ''-j'' # ''DNAT'' # ''--to-destination'' # words t" for t
    by (simp add: words_def is_space_def)
  moreover have "rule_line family (fake, real_ip) = ''-A '' @ (chain family @ CHR '' '' #
      (''-d '' @ (?d @ CHR '' '' # (''-j DNAT --to-destination '' @ real_ip))))"
    by (simp add: rule_line_def)
  ultimately show ?thesis
    using words_single [of real_ip] assms(2)
    by (simp only: words_literal words_gap [OF c] words_gap [OF d])
qed

lemma before_slash: "CHR ''/'' \<notin> set f \<Longrightarrow> hd (split_on (CHR ''/'') (f @ CHR ''/'' # s)) = f"
  unfolding split_on_def by (subst split_by_append) auto

text \<open>The rules of one family that a consistent process leaves behind.\<close>

definition rules_ok :: "nat \<Rightarrow> ipnet \<Rightarrow> rule list \<Rightarrow> bool" where
  "rules_ok family n rules \<longleftrightarrow> distinct (map fst rules) \<and> distinct (map snd rules)
     \<and> (\<forall>(fake, real_ip) \<in> set rules. family_of real_ip = Some family \<and> spaceless real_ip
          \<and> (\<exists>a \<in> usable n. addr_plain a \<and> fake = show_addr a))"

lemma plain_spaceless: "addr_plain a \<Longrightarrow> spaceless (show_addr a)"
proof -
  assume a: "addr_plain a"
  have "show_addr a \<noteq> []"
  proof
    assume e: "show_addr a = []"
    have "ip_address (show_addr a) = Some a" using a by (rule ip_address_show)
    moreover have "ip_address [] = None" by code_simp
    ultimately show False using e by simp
  qed
  then show ?thesis using show_addr_clean [OF a] by (auto simp: spaceless_def)
qed

definition of_rules :: "real \<Rightarrow> rule list \<Rightarrow> (string, entry) dict" where
  "of_rules t rules = map (\<lambda>(fake, real_ip). (real_ip, \<lparr>fake_ip = fake, last_access = t\<rparr>)) rules"

lemma load_rule:
  assumes mem: "mem_inv r" and p: "map_of (pools r) family = Some p"
    and fam: "family_of real_ip = Some family" and sp: "spaceless real_ip"
    and a: "a \<in> usable (network p)" "addr_plain a" "fake = show_addr a" "a \<notin> used p"
    and new: "map_of (ip_map r) real_ip = None"
  shows "\<exists>p'. load_line t (rule_line family (fake, real_ip)) r =
      (True, set_pool family p' r\<lparr>ip_map := ip_map r @ of_rules t [(fake, real_ip)]\<rparr>)
    \<and> mem_inv (set_pool family p' r\<lparr>ip_map := ip_map r @ of_rules t [(fake, real_ip)]\<rparr>)
    \<and> used p' = insert a (used p) \<and> usable (network p') = usable (network p)"
proof -
  obtain b where b: "ip_address real_ip = Some b" "version b = family"
    using fam by (auto simp: family_of_def)
  have pa: "pool_agrees family p (ip_map r)" using mem_inv_pool [OF mem p] .
  then have va: "version a = family" using a(1) by (simp add: pool_agrees_def)
  have ra: "ip_address fake = Some a" using a by (simp add: ip_address_show)
  have "pool_inv p" using pa by (simp add: pool_agrees_def)
  from fp.claim_ok [OF this ra] a obtain p' where p': "claim fake p = Inr (True, p')" "pool_inv p'"
    "usable (network p') = usable (network p)" "used p' = insert a (used p)" by auto
  let ?e = "\<lparr>fake_ip = show_addr a, last_access = t\<rparr>"
  have "hd (split_on (CHR ''/'') (fake @ (if family = 6 then ''/128'' else ''/32''))) = fake"
    using before_slash [of fake] show_addr_clean [OF a(2)] a(3) by auto
  then have "load_line t (rule_line family (fake, real_ip)) r = mapping_ip real_ip fake t r"
    using words_rule_line [of fake real_ip family] plain_spaceless [OF a(2)] sp a(3)
    by (simp add: load_line_def numeral_eq_Suc)
  moreover have "mapping_ip real_ip fake t r =
      (True, set_pool family p' r\<lparr>ip_map := AList.update real_ip ?e (ip_map r)\<rparr>)"
    using b ra va p p' new by (simp add: mapping_ip_def)
  moreover have "AList.update real_ip ?e (ip_map r) = ip_map r @ of_rules t [(fake, real_ip)]"
    using update_fresh [OF new] a(3) by (simp add: of_rules_def)
  moreover have "pool_agrees family p' (AList.update real_ip ?e (ip_map r))"
    using pool_agrees_add [OF pa p'(2,3) addr_plain_printable [OF a(2)] a(4) p'(4) fam new] by simp
  from mem_inv_insert [OF mem fam p new this, of "nat_rules r"]
  have "mem_inv (set_pool family p' r\<lparr>ip_map := AList.update real_ip ?e (ip_map r)\<rparr>)"
    by (simp add: mem_inv_def)
  ultimately show ?thesis using p' by auto
qed

lemma load_line_header: "load_line t (''-N '' @ chain family) r = (True, r)"
  by (simp only: load_line_def words_literal Let_def) simp

lemma load_listing:
  "faithful_listing listing \<Longrightarrow>
   load_lines t (listing family rules) r = load_lines t (map (rule_line family) rules) r"
  by (simp only: faithful_listing_def load_lines.simps load_line_header) simp

lemma load_rules:
  assumes "mem_inv r" and "map_of (pools r) family = Some p" and "rules_ok family n rules"
    and "usable (network p) = usable n"
    and "\<And>fake real_ip. (fake, real_ip) \<in> set rules \<Longrightarrow>
           map_of (ip_map r) real_ip = None \<and> fake \<notin> show_addr ` used p"
  shows "\<exists>r' p'. load_lines t (map (rule_line family) rules) r = (True, r') \<and> mem_inv r'
    \<and> ip_map r' = ip_map r @ of_rules t rules \<and> nat_rules r' = nat_rules r \<and> same_setup r r'
    \<and> map_of (pools r') = (map_of (pools r))(family \<mapsto> p')
    \<and> usable (network p') = usable n"
  using assms
proof (induction rules arbitrary: r p)
  case Nil
  then show ?case by (intro exI [of _ r] exI [of _ p]) (auto simp: of_rules_def)
next
  case (Cons x rules)
  obtain fake real_ip where x: "x = (fake, real_ip)" by (cases x)
  from Cons.prems(3) x obtain a where ok: "family_of real_ip = Some family" "spaceless real_ip"
    "a \<in> usable (network p)" "addr_plain a" "fake = show_addr a"
    using Cons.prems(4) by (auto simp: rules_ok_def)
  have new: "map_of (ip_map r) real_ip = None" "a \<notin> used p"
    using Cons.prems(5) [of fake real_ip] x ok(5) by auto
  from load_rule [OF Cons.prems(1,2) ok new(2,1), of t] obtain p1 where
    p1: "load_line t (rule_line family x) r =
      (True, set_pool family p1 r\<lparr>ip_map := ip_map r @ of_rules t [x]\<rparr>)"
    "mem_inv (set_pool family p1 r\<lparr>ip_map := ip_map r @ of_rules t [x]\<rparr>)"
    "used p1 = insert a (used p)" "usable (network p1) = usable n"
    using Cons.prems(4) x by auto
  let ?r = "set_pool family p1 r\<lparr>ip_map := ip_map r @ of_rules t [x]\<rparr>"
  have rok: "rules_ok family n rules" using Cons.prems(3) by (simp add: rules_ok_def)
  have fresh: "map_of (ip_map ?r) k = None \<and> f \<notin> show_addr ` used p1" if "(f, k) \<in> set rules" for f k
  proof -
    have "k \<noteq> real_ip" "f \<noteq> fake"
      using Cons.prems(3) that x by (auto simp: rules_ok_def image_iff)
    then show ?thesis using Cons.prems(5) [of f k] that x ok(5) p1(3)
      by (auto simp: of_rules_def map_add_Some_iff)
  qed
  have "map_of (pools ?r) family = Some p1" by (simp add: dict_simps)
  from Cons.IH [OF p1(2) this rok p1(4) fresh] obtain r' p' where IH:
    "load_lines t (map (rule_line family) rules) ?r = (True, r')" "mem_inv r'"
    "ip_map r' = ip_map ?r @ of_rules t rules" "nat_rules r' = nat_rules ?r" "same_setup ?r r'"
    "map_of (pools r') = (map_of (pools ?r))(family \<mapsto> p')" "usable (network p') = usable n"
    by blast
  have "same_setup r ?r" using Cons.prems(2)
    by (simp add: same_setup_def dict_simps insert_absorb domI)
  then show ?case using IH p1(1) same_setup_trans x
    by (intro exI [of _ r'] exI [of _ p']) (auto simp: of_rules_def dict_simps)
qed

lemma new_pool_agrees:
  assumes "pool_net n" and "net_version n = family" and "mapped family m = {}"
  shows "pool_agrees family (new_pool n) m"
proof -
  have "pool_inv (new_pool n)" using assms(1) by (rule new_pool_inv)
  moreover have "\<forall>a \<in> usable n. version a = family" using assms(2) by (auto simp: usable_def in_net_def)
  ultimately show ?thesis using assms(3) by (simp add: pool_agrees_def new_pool_def)
qed

lemma mapped_of_rules:
  assumes "rules_ok f n rules"
  shows "mapped g (of_rules t rules) = (if g = f then set rules else {})"
proof -
  have d: "distinct (map snd rules)" using assms by (simp add: rules_ok_def)
  have m: "map_option fake_ip (map_of (of_rules t rules) k) = Some fake \<longleftrightarrow> (fake, k) \<in> set rules"
    for k fake using d by (induction rules) (auto simp: of_rules_def image_iff)
  have fam: "(fake, k) \<in> set rules \<Longrightarrow> family_of k = Some f" for fake k
    using assms by (auto simp: rules_ok_def)
  show ?thesis using fam by (auto simp: set_eq_iff split_paired_All mapped_iff m simp del: map_option_eq_Some)
qed

lemma mapped_append:
  assumes "\<And>k. k \<in> fst ` set m' \<Longrightarrow> map_of m k = None"
  shows "mapped g (m @ m') = mapped g m \<union> mapped g m'"
proof -
  have "map_option fake_ip (map_of (m @ m') k) = Some f \<longleftrightarrow>
      map_option fake_ip (map_of m k) = Some f \<or> map_option fake_ip (map_of m' k) = Some f" for k f
  proof (cases "k \<in> fst ` set m'")
    case True
    then show ?thesis using assms by (simp add: map_add_def split: option.splits)
  next
    case False
    then have "map_of m' k = None" by (simp add: map_of_eq_None_iff)
    then show ?thesis by (simp add: map_add_def split: option.splits)
  qed
  then show ?thesis by (auto simp: set_eq_iff split_paired_All mapped_iff simp del: map_option_eq_Some)
qed

text \<open>The families a resolver serves, each with its range.\<close>

definition ranges_ok :: "ipnet \<Rightarrow> ipnet option \<Rightarrow> bool" where
  "ranges_ok n4 n6 \<longleftrightarrow> pool_net n4 \<and> net_version n4 = 4
     \<and> (\<forall>n. n6 = Some n \<longrightarrow> pool_net n \<and> net_version n = 6)"

definition chains_ok :: "ipnet \<Rightarrow> ipnet option \<Rightarrow> (nat \<Rightarrow> rule list) \<Rightarrow> bool" where
  "chains_ok n4 n6 k \<longleftrightarrow> rules_ok 4 n4 (k 4) \<and> (\<forall>n. n6 = Some n \<longrightarrow> rules_ok 6 n (k 6))"

lemma rules_ok_keys:
  assumes "rules_ok f n rules" and "k \<in> fst ` set (of_rules t rules)"
  shows "family_of k = Some f"
  using assms by (auto simp: rules_ok_def of_rules_def)

lemma of_rules_map_of: "rules_ok f n rules \<Longrightarrow> family_of k \<noteq> Some f \<Longrightarrow> map_of (of_rules t rules) k = None"
  unfolding map_of_eq_None_iff using rules_ok_keys by metis

lemma init_spec:
  assumes list: "faithful_listing listing" and ran: "ranges_ok n4 n6" and ch: "chains_ok n4 n6 k"
  shows "\<exists>r. init_resolver listing flush_ok n4 n6 expiry mn mx t k = Running r \<and> res_inv r
    \<and> nat_rules r = k
    \<and> ip_map r = of_rules t (k 4) @ (case n6 of None \<Rightarrow> [] | Some n \<Rightarrow> of_rules t (k 6))
    \<and> cleanup_expiry r = expiry \<and> min_ttl r = mn \<and> max_ttl r = mx
    \<and> dom (map_of (pools r)) = (case n6 of None \<Rightarrow> {4} | Some n \<Rightarrow> {4, 6})"
proof -
  let ?r = "\<lparr>pools = (4, new_pool n4) # (case n6 of None \<Rightarrow> [] | Some n \<Rightarrow> [(6, new_pool n)]),
     ip_map = [], cleanup_expiry = expiry, min_ttl = mn, max_ttl = mx, nat_rules = k\<rparr>"
  have empty: "mapped f [] = {}" for f by (auto simp: mapped_iff)
  have mem: "mem_inv ?r"
    using ran by (auto simp: mem_inv_def ranges_ok_def wf_dict_def new_pool_agrees empty
        split: option.splits if_splits)
  have p4: "map_of (pools ?r) 4 = Some (new_pool n4)" by simp
  have r4: "rules_ok 4 n4 (k 4)" using ch by (simp add: chains_ok_def)
  have np: "used (new_pool n) = {}" "usable (network (new_pool n)) = usable n" for n
    by (simp_all add: new_pool_def)
  from load_rules [OF mem p4 r4, of t] obtain r1 p1 where
    r1: "load_lines t (map (rule_line 4) (k 4)) ?r = (True, r1)" "mem_inv r1"
    "ip_map r1 = of_rules t (k 4)" "nat_rules r1 = k" "same_setup ?r r1"
    "map_of (pools r1) = (map_of (pools ?r))(4 \<mapsto> p1)" by (auto simp: np)
  have l4: "load_lines t (listing 4 (nat_rules ?r 4)) ?r = (True, r1)"
    using r1(1) by (simp add: load_listing [OF list])
  have m4: "mapped f (of_rules t (k 4)) = (if f = 4 then set (k 4) else {})" for f
    using mapped_of_rules [OF r4] .
  have d4: "distinct (k 4)" using r4 by (auto simp: rules_ok_def distinct_map)
  show ?thesis
  proof (cases n6)
    case None
    have "res_inv r1" using r1 None d4 by (auto simp: res_inv_def rules_agree_def m4)
    then show ?thesis using None l4 r1 by (auto simp: init_resolver_def keys_def same_setup_def)
  next
    case (Some n)
    have r6: "rules_ok 6 n (k 6)" using ch Some by (simp add: chains_ok_def)
    have p6: "map_of (pools r1) 6 = Some (new_pool n)" using r1(6) Some by simp
    have "map_of (ip_map r1) real_ip = None" if "(fake, real_ip) \<in> set (k 6)" for fake real_ip
      using of_rules_map_of [OF r4] r6 that by (auto simp: r1(3) rules_ok_def)
    with load_rules [OF r1(2) p6 r6, of t] obtain r2 p2 where
      r2: "load_lines t (map (rule_line 6) (k 6)) r1 = (True, r2)" "mem_inv r2"
      "ip_map r2 = ip_map r1 @ of_rules t (k 6)" "nat_rules r2 = k" "same_setup r1 r2"
      "map_of (pools r2) = (map_of (pools r1))(6 \<mapsto> p2)" by (auto simp: np r1(4))
    have l6: "load_lines t (listing 6 (nat_rules r1 6)) r1 = (True, r2)"
      using r2(1) by (simp add: load_listing [OF list] r1(4))
    have m6: "mapped f (of_rules t (k 6)) = (if f = 6 then set (k 6) else {})" for f
      using mapped_of_rules [OF r6] .
    have d6: "distinct (k 6)" using r6 by (auto simp: rules_ok_def distinct_map)
    have "map_of (of_rules t (k 4)) x = None" if "x \<in> fst ` set (of_rules t (k 6))" for x
      using of_rules_map_of [OF r4] rules_ok_keys [OF r6 that] by auto
    then have "mapped f (ip_map r2) = mapped f (of_rules t (k 4)) \<union> mapped f (of_rules t (k 6))" for f
      unfolding r2(3) r1(3) by (rule mapped_append)
    then have "res_inv r2" using r2 r1(6) Some d4 d6
      by (auto simp: res_inv_def rules_agree_def m4 m6)
    then show ?thesis using Some l4 l6 r2 r1
      by (auto simp: init_resolver_def keys_def same_setup_def)
  qed
qed

end
