(* ===== verification/ProxyProps.thy ===== *)
theory ProxyProps
  imports ProxyService
begin

text \<open>
  The properties of the DNS proxy (\<open>setup/root/antizapret/proxy.py\<close>), each with a
  witness at a concrete resolver: the default IPv4 range, an empty table, and one query.
\<close>

section \<open>A concrete resolver\<close>

definition example_range :: ipnet where
  "example_range = \<lparr>net_addr = V4 3323068416, prefixlen = 15\<rparr>"

definition example_listing :: "nat \<Rightarrow> rule list \<Rightarrow> string list" where
  "example_listing family rules = (''-N '' @ chain family) # map (rule_line family) rules"

definition example_resolver :: resolver where
  "example_resolver = \<lparr>pools = [(4, new_pool example_range)], ip_map = [], cleanup_expiry = 7200,
     min_ttl = 0, max_ttl = 3600, nat_rules = (\<lambda>_. [])\<rparr>"

definition example_request :: request where
  "example_request = \<lparr>qtype = QTYPE_A, qlabels = [''dns'', ''google'']\<rparr>"

definition example_upstream :: reply where
  "example_upstream = \<lparr>rcode = NOERROR, rrs = [\<lparr>rtype = QTYPE_A, ttl = 9999, rdata = ''8.8.8.8''\<rparr>]\<rparr>"

definition example_pool :: pool where
  "example_pool = \<lparr>network = example_range, used = {V4 3323068417}, released = [], next_offset = 2\<rparr>"

definition example_after :: resolver where
  "example_after = \<lparr>pools = [(4, example_pool)],
     ip_map = [(''8.8.8.8'', \<lparr>fake_ip = ''198.18.0.1'', last_access = 5\<rparr>)], cleanup_expiry = 7200,
     min_ttl = 0, max_ttl = 3600, nat_rules = (\<lambda>_. [])(4 := [(''198.18.0.1'', ''8.8.8.8'')])\<rparr>"

lemma example_ranges: "ranges_ok example_range None"
  by (simp add: ranges_ok_def pool_net_def net_plain_def net_ok_def net_version_def net_int_def
      example_range_def width_def)

lemma example_faithful: "faithful_listing example_listing"
  by (simp add: faithful_listing_def example_listing_def)

lemma example_chains: "chains_ok example_range None (\<lambda>_. [])"
  by (simp add: chains_ok_def rules_ok_def)

lemma example_init:
  "init_resolver example_listing ok example_range None 7200 0 3600 t (\<lambda>_. []) = Running example_resolver"
  by (simp add: init_resolver_def example_resolver_def keys_def load_listing [OF example_faithful])

lemma example_inv: "res_inv example_resolver"
  using init_spec [OF example_faithful example_ranges example_chains]
    example_init by (metis process.inject(1))

lemma example_address: "ip_address ''8.8.8.8'' = Some (V4 134744072)"
  by (rule ip_address_eval) (simp_all add: eval_simps)

lemma example_allocate: "allocate 0 (new_pool example_range) = (Some ''198.18.0.1'', example_pool)"
  by (simp add: allocate_def new_pool_def alloc_loop.simps num_addresses_def net_version_def
      example_range_def net_int_def width_def addr_of_int_def example_pool_def Let_def
      eval_simps)

lemma example_fake: "get_fake_ip 0 True ''8.8.8.8'' 5 example_resolver = (Inr (Some ''198.18.0.1''), example_after)"
  by (simp add: get_fake_ip_def example_address example_allocate example_resolver_def example_after_def
      set_pool_def fun_eq_iff)

lemma example_resolve:
  "resolve example_request (Some example_upstream) 5 (\<lambda>_. 0) (\<lambda>_. True) example_resolver =
     (\<lparr>rcode = NOERROR, rrs = [\<lparr>rtype = QTYPE_A, ttl = 3600, rdata = ''198.18.0.1''\<rparr>]\<rparr>, example_after)"
  by (simp add: resolve_def example_request_def example_upstream_def example_fake Let_def
      QTYPE_A_def QTYPE_AAAA_def NOERROR_def clamp_ttl_def contains.simps starts_with_def)
    (simp add: example_resolver_def)

lemma example_query_step: "step (Running example_resolver) (Running example_after)"
  using step.lookup [OF example_fake] .

lemma example_after_inv: "res_inv example_after"
  using resolve_keeps [OF example_inv example_resolve] by blast

section \<open>Properties\<close>

text \<open>C1: from a start on the rules left in the kernel, whatever the addresses looked up
  for the queries in flight, the failures of \<open>iptables\<close> and the clean-ups in between, in every state of the running
  resolver the DNAT rules of each family are, without repetition, exactly the entries of the
  table; no two of them share a fake address; and the fake addresses are exactly those the
  pool counts as used, all of them inside its range.\<close>

theorem proxy_rules_match_table:
  assumes "faithful_listing listing" and "ranges_ok n4 n6" and "chains_ok n4 n6 k"
    and "init_resolver listing flush_ok n4 n6 expiry mn mx t k = Running r0"
    and "step\<^sup>*\<^sup>* (Running r0) (Running r)" and "map_of (pools r) family = Some p"
  shows "distinct (nat_rules r family)
    \<and> set (nat_rules r family) = {(fake, real_ip). family_of real_ip = Some family
          \<and> map_option fake_ip (map_of (ip_map r) real_ip) = Some fake}
    \<and> inj_on fst (set (nat_rules r family))
    \<and> fst ` set (nat_rules r family) = show_addr ` used p
    \<and> used p \<subseteq> usable (network p)"
proof -
  have "res_inv r0" using init_spec [OF assms(1-3), of flush_ok expiry mn mx t] assms(4) by auto
  then have "process_inv r0 (Running r0)" by (simp add: process_inv_def)
  from steps_keep [OF assms(5) this] have inv: "res_inv r" by (simp add: process_inv_def)
  then have "rules_agree r family" and "pool_agrees family p (ip_map r)"
    using assms(6) mem_inv_pool by (auto simp: res_inv_def)
  then show ?thesis by (simp add: rules_agree_def pool_agrees_def mapped_def pool_inv_def)
qed

lemma proxy_rules_match_table_witness:
  "inj_on fst (set (nat_rules example_after 4))
   \<and> fst ` set (nat_rules example_after 4) = show_addr ` used example_pool"
proof -
  have "map_of (pools example_after) 4 = Some example_pool" by (simp add: example_after_def)
  from proxy_rules_match_table [OF example_faithful example_ranges example_chains example_init
      r_into_rtranclp [of step, OF example_query_step] this]
  show ?thesis by blast
qed

text \<open>A query that passes the resolver's conditions and is answered without error.\<close>

definition mail_host :: "request \<Rightarrow> bool" where
  "mail_host rq = (case qlabels rq of [] \<Rightarrow> False | l # _ \<Rightarrow> contains ''smtp'' l)"

lemma resolve_answered:
  assumes "res_inv r" and "rcode a = NOERROR" and "qtype rq = QTYPE_A \<or> qtype rq = QTYPE_AAAA"
    and "qtype rq \<noteq> QTYPE_AAAA \<or> 6 \<in> set (keys (pools r))"
    and "resolve rq (Some a) t idx ok r = (rep, r')" and "rcode rep = NOERROR"
  shows "rrs rep = concat (map (answers (qtype rq) (mail_host rq) r r') (rrs a))"
    and "\<forall>x \<in> set (rrs a). rtype x = qtype rq \<longrightarrow> fake_for r' (rdata x) \<noteq> None"
proof -
  obtain q r1 where rw: "rewrite (qtype rq) (mail_host rq) t idx ok 0 (rrs a) r = (q, r1)" by fastforce
  have "\<exists>ys. q = Inr (Some ys) \<and> rep = a\<lparr>rrs := ys\<rparr> \<and> r' = r1"
    using assms(2-6) rw unfolding resolve_def Let_def mail_host_def [symmetric]
    by (auto simp: servfail_def NOERROR_def SERVFAIL_def split: sum.splits option.splits)
  then show "rrs rep = concat (map (answers (qtype rq) (mail_host rq) r r') (rrs a))"
    "\<forall>x \<in> set (rrs a). rtype x = qtype rq \<longrightarrow> fake_for r' (rdata x) \<noteq> None"
    using rewrite_spec [OF assms(1) rw] by auto
qed

lemma fake_has_rule:
  assumes "res_inv r" and "fake_for r k \<noteq> None"
  shows "\<exists>fake family. fake_for r k = Some fake \<and> family_of k = Some family
      \<and> (fake, k) \<in> set (nat_rules r family)"
proof -
  from assms(2) obtain fake where f: "fake_for r k = Some fake" by auto
  then have "k \<in> dom (map_of (ip_map r))" by (auto simp: fake_for_def)
  then obtain family where "family \<in> dom (map_of (pools r))" "family_of k = Some family"
    using assms(1) unfolding res_inv_def mem_inv_def by blast
  then show ?thesis using assms(1) f by (auto simp: res_inv_def rules_agree_def mapped_iff fake_for_def)
qed

lemma clamp_ttl_bounds:
  assumes "min_ttl r \<le> max_ttl r"
  shows "rtype (clamp_ttl r x) = rtype x" and "min_ttl r \<le> ttl (clamp_ttl r x)"
    and "ttl (clamp_ttl r x) \<le> max_ttl r"
  using assms by (simp_all add: clamp_ttl_def)

text \<open>C2: a query for addresses that is answered without error carries the upstream's records
  in their order, each record of the queried type with its lifetime clamped and its address
  replaced by the fake address the table holds for it (preceded, for a mail host, by the record
  with the real address), and the DNAT rule of every such fake address is in the kernel by then.\<close>

theorem resolve_answers_have_rules:
  assumes "res_inv r" and "rcode a = NOERROR" and "qtype rq = QTYPE_A \<or> qtype rq = QTYPE_AAAA"
    and "qtype rq \<noteq> QTYPE_AAAA \<or> 6 \<in> set (keys (pools r))"
    and "resolve rq (Some a) t idx ok r = (rep, r')" and "rcode rep = NOERROR"
  shows "rrs rep = concat (map (answers (qtype rq) (mail_host rq) r r') (rrs a))
    \<and> (\<forall>x \<in> set (rrs a). rtype x = qtype rq \<longrightarrow> (\<exists>fake family. fake_for r' (rdata x) = Some fake
         \<and> family_of (rdata x) = Some family \<and> (fake, rdata x) \<in> set (nat_rules r' family)))"
  using resolve_answered [OF assms] fake_has_rule [of r'] resolve_keeps [OF assms(1,5)] by blast

lemma resolve_answers_have_rules_witness:
  "\<exists>fake family. fake_for example_after ''8.8.8.8'' = Some fake
     \<and> family_of ''8.8.8.8'' = Some family \<and> (fake, ''8.8.8.8'') \<in> set (nat_rules example_after family)"
  using resolve_answers_have_rules [OF example_inv _ _ _ example_resolve]
  by (simp add: example_upstream_def example_request_def QTYPE_A_def QTYPE_AAAA_def)

text \<open>With limits in order, every record of the queried type in an answer has a lifetime
  within them, the copy kept for mail hosts included.\<close>

theorem resolve_ttl_bounds:
  assumes "res_inv r" and "rcode a = NOERROR" and "qtype rq = QTYPE_A \<or> qtype rq = QTYPE_AAAA"
    and "qtype rq \<noteq> QTYPE_AAAA \<or> 6 \<in> set (keys (pools r))"
    and "resolve rq (Some a) t idx ok r = (rep, r')" and "rcode rep = NOERROR"
    and "min_ttl r \<le> max_ttl r" and "y \<in> set (rrs rep)" and "rtype y = qtype rq"
  shows "min_ttl r \<le> ttl y \<and> ttl y \<le> max_ttl r"
proof -
  from assms(8) obtain x where x: "y \<in> set (answers (qtype rq) (mail_host rq) r r' x)"
    by (auto simp: resolve_answered(1) [OF assms(1-6)])
  then have "ttl y = ttl (clamp_ttl r x)"
    using assms(9) by (cases "rtype x = qtype rq") (auto simp: answers_def split: if_splits)
  then show ?thesis using clamp_ttl_bounds [OF assms(7)] by simp
qed

lemma resolve_ttl_bounds_witness:
  "min_ttl example_resolver \<le> 3600 \<and> (3600::int) \<le> max_ttl example_resolver"
  using resolve_ttl_bounds [OF example_inv _ _ _ example_resolve, of "\<lparr>rtype = QTYPE_A, ttl = 3600, rdata = ''198.18.0.1''\<rparr>"]
  by (simp add: example_upstream_def example_request_def QTYPE_A_def QTYPE_AAAA_def example_resolver_def)

text \<open>C23: when the DNAT rule cannot be installed, no fake address is given out, the table, the
  rules and the addresses in use are as before, and the state stays consistent, so that the
  address taken for the attempt can be given out later.\<close>

theorem failed_rule_changes_nothing:
  assumes "res_inv r" and "fake_for r real_ip = None"
    and "get_fake_ip i False real_ip t r = (Inr q, r')"
  shows "q = None \<and> ip_map r' = ip_map r \<and> nat_rules r' = nat_rules r \<and> res_inv r'
    \<and> (\<forall>family. map_option used (map_of (pools r') family) = map_option used (map_of (pools r) family))"
proof -
  have new: "map_of (ip_map r) real_ip = None" using assms(2) by (simp add: fake_for_def)
  obtain a where a: "ip_address real_ip = Some a" using assms(3)
    by (cases "ip_address real_ip") (auto simp: get_fake_ip_def)
  have inv: "res_inv r'" using get_fake_ip_keeps [OF assms(1,3)] by blast
  show ?thesis
  proof (cases "map_of (pools r) (version a)")
    case None
    then show ?thesis using assms(1,3) a by (auto simp: get_fake_ip_def)
  next
    case (Some p)
    obtain s p' where al: "allocate i p = (s, p')" by fastforce
    show ?thesis
    proof (cases s)
      case None
      note e = get_fake_ip_empty [OF assms(1) a Some new al [unfolded None]]
      then show ?thesis using assms(3) e(1) [of False t] e(4) inv Some by (auto simp: dict_simps)
    next
      case (Some fake)
      from get_fake_ip_failed [OF assms(1) a \<open>map_of (pools r) (version a) = Some p\<close> new
          al [unfolded Some], of t] assms(3) inv \<open>map_of (pools r) (version a) = Some p\<close>
      show ?thesis by (auto simp: dict_simps)
    qed
  qed
qed

lemma example_fails:
  "\<exists>r'. get_fake_ip 0 False ''8.8.8.8'' 5 example_resolver = (Inr None, r')"
proof -
  have "map_of (pools example_resolver) (version (V4 134744072)) = Some (new_pool example_range)"
    "map_of (ip_map example_resolver) ''8.8.8.8'' = None" by (simp_all add: example_resolver_def)
  from get_fake_ip_failed [OF example_inv example_address this example_allocate, of 5]
  show ?thesis by blast
qed

lemma failed_rule_changes_nothing_witness:
  "\<exists>r'. get_fake_ip 0 False ''8.8.8.8'' 5 example_resolver = (Inr None, r') \<and> ip_map r' = []"
proof -
  obtain r' where r': "get_fake_ip 0 False ''8.8.8.8'' 5 example_resolver = (Inr None, r')"
    using example_fails by blast
  have "fake_for example_resolver ''8.8.8.8'' = None" "ip_map example_resolver = []"
    by (simp_all add: fake_for_def example_resolver_def)
  then show ?thesis using failed_rule_changes_nothing [OF example_inv _ r'] r' by auto
qed

text \<open>for an address that is not yet mapped the resolver gives up only when every plain
  address of the range is in use, and a fake address that it gives out was nobody's before.\<close>

theorem new_fake_is_free:
  assumes "res_inv r" and "ip_address real_ip = Some a" and "map_of (pools r) (version a) = Some p"
    and "fake_for r real_ip = None" and "get_fake_ip i True real_ip t r = (Inr q, r')"
  shows "case q of None \<Rightarrow> {b \<in> usable (network p). addr_plain b} \<subseteq> used p
    | Some fake \<Rightarrow> fake_for r' real_ip = Some fake \<and> (\<forall>other. fake_for r other \<noteq> Some fake)"
proof -
  have new: "map_of (ip_map r) real_ip = None" using assms(4) by (simp add: fake_for_def)
  obtain s p' where al: "allocate i p = (s, p')" by fastforce
  show ?thesis
  proof (cases s)
    case None
    note e = get_fake_ip_empty [OF assms(1-3) new al [unfolded None]]
    then show ?thesis using e(1) [of True t] assms(5) by simp
  next
    case (Some fake)
    note g = get_fake_ip_new [OF assms(1-3) new al [unfolded Some], of t]
    have q: "q = Some fake" using g(1) assms(5) by simp
    have pa: "pool_agrees (version a) p (ip_map r)" using assms(1,3) mem_inv_pool by (simp add: res_inv_def)
    then have "pool_inv p" by (simp add: pool_agrees_def)
    from fp.alloc_Some [OF this al [unfolded Some]] obtain b where b: "addr_printable b"
      "fake = show_addr b" "b \<in> usable (network p)" "b \<notin> used p" by blast
    have vb: "version b = version a" using pa b(3) by (simp add: pool_agrees_def)
    have "fake_for r other \<noteq> Some fake" for other
    proof
      assume o: "fake_for r other = Some fake"
      then have "other \<in> dom (map_of (ip_map r))" by (auto simp: fake_for_def)
      then obtain f pf where f: "map_of (pools r) f = Some pf" "family_of other = Some f"
        using assms(1) unfolding res_inv_def mem_inv_def by blast
      have pf: "pool_agrees f pf (ip_map r)" using mem_inv_pool f(1) assms(1) by (simp add: res_inv_def)
      have "(fake, other) \<in> mapped f (ip_map r)" using o f(2) by (simp add: mapped_iff fake_for_def)
      from mapped_used [OF pf this] obtain c where c: "c \<in> used pf" "fake = show_addr c"
        "ip_address fake = Some c" by blast
      then have "b = c" using b(2) ip_address_show_printable [OF b(1)] by simp
      moreover have "version c = f" using pf c(1) by (auto simp: pool_agrees_def pool_inv_def)
      ultimately show False using c(1) b(4) f(1) vb assms(3) by auto
    qed
    then show ?thesis using get_fake_ip_extends [OF assms(1,5)] q by simp
  qed
qed

lemma new_fake_is_free_witness:
  "fake_for example_after ''8.8.8.8'' = Some ''198.18.0.1''
   \<and> fake_for example_resolver ''9.9.9.9'' \<noteq> Some ''198.18.0.1''"
  using new_fake_is_free [OF example_inv example_address _ _ example_fake, of "new_pool example_range"]
  by (simp add: fake_for_def) (simp add: example_resolver_def)

text \<open>C4: a clean-up whose \<open>iptables-restore\<close> runs succeed removes exactly the entries not used
  for longer than the limit, in their order, and keeps table, pools and rules in agreement;
  if the run for one family fails, only the expired entries of some families that were done
  are gone, and the state is consistent all the same.\<close>

theorem cleanup_removes_expired:
  assumes "res_inv r"
  shows "\<exists>q r' finished. cleanup_fake_ips ok t r = (q, r') \<and> res_inv r'
    \<and> ip_map r' = filter (\<lambda>(k, e). \<not> (cleanup_expiry r < t - last_access e
                          \<and> family_of k \<in> Some ` finished)) (ip_map r)
    \<and> finished \<subseteq> set (keys (pools r))
    \<and> (if q = Inr () then finished = set (keys (pools r))
       else q = Inl CalledProcessError \<and> (\<exists>family \<in> set (keys (pools r)). \<not> ok family))"
proof -
  have ks: "set (keys (pools r)) = dom (map_of (pools r))" by (intro set_eqI dom_keys)
  from cleanup_spec [OF assms, of ok t] obtain q r' fin where c: "cleanup_fake_ips ok t r = (q, r')"
    "res_inv r'" "ip_map r' = kept fin t r" "fin \<subseteq> set (keys (pools r))"
    "if \<forall>f \<in> set (keys (pools r)). ok f then q = Inr () \<and> fin = set (keys (pools r))
       else q = Inr () \<or> q = Inl CalledProcessError"
    "q = Inr () \<longrightarrow> fin = set (keys (pools r))" unfolding ks by blast
  then show ?thesis
    by (intro exI [of _ q] exI [of _ r'] exI [of _ fin]) (auto simp: kept_def expired_def split: if_splits)
qed

lemma cleanup_removes_expired_witness:
  "\<exists>r'. ip_map r' = [] \<and> res_inv r' \<and> snd (cleanup_fake_ips (\<lambda>_. True) 9000 example_after) = r'"
  using cleanup_removes_expired [OF example_after_inv, of "\<lambda>_. True" 9000]
  by (auto simp: example_after_def keys_def family_of_def example_address split: if_splits)

text \<open>The rules of a consistent resolver are such as a start can load.\<close>

lemma res_inv_chains:
  assumes "res_inv r" and "map_of (pools r) family = Some p"
    and "\<forall>a \<in> used p. addr_plain a" and "\<forall>k \<in> dom (map_of (ip_map r)). spaceless k"
    and "usable (network p) = usable n"
  shows "rules_ok family n (nat_rules r family)"
proof -
  have ra: "distinct (nat_rules r family)" "set (nat_rules r family) = mapped family (ip_map r)"
    using assms(1,2) by (auto simp: res_inv_def rules_agree_def)
  have pa: "pool_agrees family p (ip_map r)" using assms(1,2) mem_inv_pool by (simp add: res_inv_def)
  have "inj_on fst (mapped family (ip_map r))" using pa by (simp add: pool_agrees_def)
  then have "distinct (map fst (nat_rules r family))" using ra by (simp add: distinct_map)
  moreover have "inj_on snd (mapped family (ip_map r))"
    by (rule inj_onI) (auto simp: mapped_iff)
  then have "distinct (map snd (nat_rules r family))" using ra by (simp add: distinct_map)
  moreover have "family_of k = Some family \<and> spaceless k \<and> (\<exists>a \<in> usable n. addr_plain a \<and> f = show_addr a)"
    if "(f, k) \<in> mapped family (ip_map r)" for f k
  proof -
    from mapped_used [OF pa that] obtain a where a: "a \<in> used p" "f = show_addr a" by blast
    moreover have "used p \<subseteq> usable n" using pa assms(5) by (simp add: pool_agrees_def pool_inv_def)
    moreover have "k \<in> dom (map_of (ip_map r))" using that by (auto simp: mapped_iff)
    ultimately show ?thesis using that assms(3,4) by (auto simp: mapped_iff)
  qed
  ultimately show ?thesis using ra by (auto simp: rules_ok_def)
qed



text \<open>Without the alternative range, the fake IPv6 range is computed only from a ULA prefix
  of length 48; it is the /96 at subnet \<open>29ff\<close> of that prefix, lies inside it, and is a range
  a pool can be built on.\<close>

theorem fake_range_inside_prefix:
  assumes "fake_ipv6_network prefix False = Inr n"
  shows "\<exists>m. ip_network True prefix = Some m \<and> net_version m = 6 \<and> prefixlen m = 48
    \<and> net_range m \<subseteq> net_range ULA \<and> net_range n \<subseteq> net_range m
    \<and> net_int n = net_int m + 0x29FF * 2 ^ 64 \<and> prefixlen n = 96 \<and> pool_net n \<and> net_version n = 6"
proof -
  from assms obtain m where m: "ip_network True prefix = Some m" "net_version m = 6"
    "prefixlen m = 48" "subnet_of m ULA" "n = subnet_at m FAKE_IPV6_SUBNET 96"
    by (auto simp: fake_ipv6_network_def FAKE_IPV6_PREFIX_LENGTH_def split: option.splits if_splits)
  have c: "FAKE_IPV6_SUBNET < 2 ^ 16" by (simp add: FAKE_IPV6_SUBNET_def)
  note s = subnet_at_spec [OF ip_network_ok [OF m(1)] m(2,3) c]
  have "net_range m \<subseteq> net_range ULA" using subnet_of_range [OF m(4)] .
  moreover have "2 ^ 32 \<le> net_int n" using s(2) by (simp add: m(5) FAKE_IPV6_SUBNET_def)
  moreover have "net_version n = 6" "prefixlen n = 96" by (simp_all add: m(5) subnet_at_def net_version_def)
  ultimately show ?thesis using m s by (auto simp: pool_net_def FAKE_IPV6_SUBNET_def)
qed

lemma default_prefix:
  "ip_network True ''fd3a:c9bc:6bcb::/48'' = Some \<lparr>net_addr = V6 (0xfd3ac9bc6bcb * 2 ^ 80) None, prefixlen = 48\<rparr>"
  by (rule ip_network_eval) (simp_all add: eval_simps)

lemma fake_range_inside_prefix_witness:
  "\<exists>n m. fake_ipv6_network ''fd3a:c9bc:6bcb::/48'' False = Inr n
     \<and> ip_network True ''fd3a:c9bc:6bcb::/48'' = Some m \<and> net_range n \<subseteq> net_range m"
proof -
  have "\<exists>n. fake_ipv6_network ''fd3a:c9bc:6bcb::/48'' False = Inr n"
    by (simp add: fake_ipv6_network_def default_prefix net_version_def subnet_of_def ULA_def
        addr_le_def net_int_def broadcast_int_def num_addresses_def width_def)
  then show ?thesis using fake_range_inside_prefix by blast
qed

text \<open>When a round of the clean-up fails, the process exits, and if the chains can be
  flushed it leaves no rule of a family it served behind: no DNAT rule outlives a table that
  does not know it.\<close>

theorem failed_cleanup_exits_flushed:
  assumes "cleanup_fake_ips ok t r = (Inl e, r')" and "res_inv r" and "\<forall>family. flush_ok family"
  shows "\<exists>rules. cleanup_fake_ips_worker ok flush_ok t r = Exited rules
    \<and> (\<forall>family \<in> set (keys (pools r)). rules family = [])"
proof -
  have fl: "flush_families flush_ok fs s = (Inr (), s\<lparr>nat_rules := (\<lambda>f. if f \<in> set fs then [] else nat_rules s f)\<rparr>)"
    for fs s using assms(3) by (induction fs arbitrary: s) (auto simp: fun_eq_iff intro!: arg_cong2 [where f = Pair])
  have "same_setup r r'" using cleanup_spec [OF assms(2), of ok t] assms(1) by auto
  then have "set (keys (pools r')) = set (keys (pools r))" by (auto simp: same_setup_def dom_keys)
  then show ?thesis using assms(1)
    by (simp add: cleanup_fake_ips_worker_def flush_mappings_def fl)
qed

lemma example_cleanup_fails:
  "cleanup_fake_ips (\<lambda>_. False) 9000 example_after = (Inl CalledProcessError, example_after)"
  by (simp add: cleanup_fake_ips_def expired_ips_def example_after_def tag_rule_def example_address
      keys_def family_rules_def restore_nat_def)

lemma failed_cleanup_exits_flushed_witness:
  "\<exists>rules. cleanup_fake_ips_worker (\<lambda>_. False) (\<lambda>_. True) 9000 example_after = Exited rules
    \<and> rules 4 = []"
  using failed_cleanup_exits_flushed [OF example_cleanup_fails example_after_inv, of "\<lambda>_. True"]
  by (auto simp: example_after_def keys_def)

end
