(* ===== verification/PyFs.thy ===== *)
theory PyFs
  imports PyText
begin

text \<open>
  The part of a file system the administration scripts see through \<open>pathlib\<close> and \<open>os\<close>:
  a dictionary from absolute paths to nodes. Directories are there as far as something
  lies in them; making one always succeeds. Writing succeeds unless the target is a
  directory or may not be opened.
\<close>

section \<open>Nodes\<close>

text \<open>
  A text file with its permissions, a file that is not UTF-8 (with the text that is left
  when the undecodable bytes are ignored), a file that cannot be opened, a symbolic link,
  a directory.
\<close>

datatype node = File string nat | Binary string nat | Locked nat | Link string | Dir

type_synonym fs = "(string, node) dict"

datatype io_error = FileNotFound | OsError | UnicodeError

fun follow :: "nat \<Rightarrow> fs \<Rightarrow> string \<Rightarrow> string option" where
  "follow 0 fs p = None"
| "follow (Suc n) fs p = (case map_of fs p of Some (Link t) \<Rightarrow> follow n fs t | _ \<Rightarrow> Some p)"

definition max_links :: nat where "max_links = 40"

definition target :: "fs \<Rightarrow> string \<Rightarrow> (io_error, string) result" where
  "target fs p = optionR OsError (follow max_links fs p)"

text \<open>Text is read with universal newlines.\<close>

fun universal :: "string \<Rightarrow> string" where
  "universal [] = []"
| "universal [c] = [if c = CR then LF else c]"
| "universal (c # d # s) =
     (if c = CR then LF # (if d = LF then universal s else universal (d # s))
      else c # universal (d # s))"

section \<open>Reading\<close>

fun node_text :: "node option \<Rightarrow> (io_error, string) result" where
  "node_text None = Inl FileNotFound"
| "node_text (Some (File t m)) = Inr (universal t)"
| "node_text (Some (Binary t m)) = Inl UnicodeError"
| "node_text (Some _) = Inl OsError"

fun node_ignore :: "node option \<Rightarrow> (io_error, string) result" where
  "node_ignore (Some (Binary t m)) = Inr (universal t)"
| "node_ignore n = node_text n"

definition read_text :: "fs \<Rightarrow> string \<Rightarrow> (io_error, string) result" where
  "read_text fs p = bindR (target fs p) (\<lambda>q. node_text (map_of fs q))"

definition read_ignore :: "fs \<Rightarrow> string \<Rightarrow> (io_error, string) result" where
  "read_ignore fs p = bindR (target fs p) (\<lambda>q. node_ignore (map_of fs q))"

fun node_mode :: "node option \<Rightarrow> (io_error, nat) result" where
  "node_mode None = Inl FileNotFound"
| "node_mode (Some (File t m)) = Inr m"
| "node_mode (Some (Binary t m)) = Inr m"
| "node_mode (Some (Locked m)) = Inr m"
| "node_mode (Some Dir) = Inr 493"
| "node_mode (Some (Link t)) = Inl OsError"

definition stat_mode :: "fs \<Rightarrow> string \<Rightarrow> (io_error, nat) result" where
  "stat_mode fs p = bindR (target fs p) (\<lambda>q. node_mode (map_of fs q))"

fun node_is_file :: "node option \<Rightarrow> bool" where
  "node_is_file (Some (File t m)) = True"
| "node_is_file (Some (Binary t m)) = True"
| "node_is_file (Some (Locked m)) = True"
| "node_is_file _ = False"

definition is_file :: "fs \<Rightarrow> string \<Rightarrow> bool" where
  "is_file fs p = (case follow max_links fs p of None \<Rightarrow> False | Some q \<Rightarrow> node_is_file (map_of fs q))"

definition is_symlink :: "fs \<Rightarrow> string \<Rightarrow> bool" where
  "is_symlink fs p = (case map_of fs p of Some (Link t) \<Rightarrow> True | _ \<Rightarrow> False)"

text \<open>The names in a directory, in the order the file system returns them.\<close>

definition in_dir :: "string \<Rightarrow> string \<Rightarrow> bool" where
  "in_dir d p \<longleftrightarrow> starts_with (d @ ''/'') p \<and> length d + 1 < length p
     \<and> CHR ''/'' \<notin> set (drop (length d + 1) p)"

definition iterdir :: "fs \<Rightarrow> string \<Rightarrow> string list" where
  "iterdir fs d = map (drop (length d + 1)) (filter (in_dir d) (keys fs))"

definition child :: "string \<Rightarrow> string \<Rightarrow> string" where
  "child d name = d @ ''/'' @ name"

section \<open>Writing\<close>

definition write_text :: "string \<Rightarrow> string \<Rightarrow> (fs, io_error, unit) prog" where
  "write_text p text fs =
     (case target fs p of
        Inl e \<Rightarrow> (Inl e, fs)
      | Inr q \<Rightarrow>
          (case map_of fs q of
             None \<Rightarrow> (Inr (), AList.update q (File text 420) fs)
           | Some (File t m) \<Rightarrow> (Inr (), AList.update q (File text m) fs)
           | Some (Binary t m) \<Rightarrow> (Inr (), AList.update q (File text m) fs)
           | Some _ \<Rightarrow> (Inl OsError, fs)))"

fun set_mode :: "nat \<Rightarrow> node \<Rightarrow> node" where
  "set_mode m (File t m0) = File t m"
| "set_mode m (Binary t m0) = Binary t m"
| "set_mode m (Locked m0) = Locked m"
| "set_mode m n = n"

definition chmod :: "string \<Rightarrow> nat \<Rightarrow> (fs, io_error, unit) prog" where
  "chmod p m fs =
     (case target fs p of
        Inl e \<Rightarrow> (Inl e, fs)
      | Inr q \<Rightarrow> (case map_of fs q of
                   None \<Rightarrow> (Inl FileNotFound, fs)
                 | Some n \<Rightarrow> (Inr (), AList.update q (set_mode m n) fs)))"

text \<open>\<open>os.replace\<close>: the source itself, were it a link, takes the place of the target.\<close>

definition replace_file :: "string \<Rightarrow> string \<Rightarrow> (fs, io_error, unit) prog" where
  "replace_file src dst fs =
     (case map_of fs src of
        None \<Rightarrow> (Inl FileNotFound, fs)
      | Some n \<Rightarrow> if map_of fs dst = Some Dir then (Inl OsError, fs)
                 else (Inr (), AList.update dst n (AList.delete src fs)))"

definition unlink :: "string \<Rightarrow> (fs, io_error, unit) prog" where
  "unlink p fs =
     (case map_of fs p of
        None \<Rightarrow> (Inl FileNotFound, fs)
      | Some Dir \<Rightarrow> (Inl OsError, fs)
      | Some _ \<Rightarrow> (Inr (), AList.delete p fs))"

section \<open>Files that are not links\<close>

lemma follow_plain:
  assumes "\<not> is_symlink fs p"
  shows "follow max_links fs p = Some p"
proof -
  obtain n where n: "max_links = Suc n" by (metis max_links_def old.nat.exhaust zero_neq_numeral)
  show ?thesis unfolding n using assms by (auto simp: is_symlink_def split: option.splits node.splits)
qed

lemma target_plain [simp]: "\<not> is_symlink fs p \<Longrightarrow> target fs p = Inr p"
  by (simp add: target_def follow_plain optionR_def)

lemma read_text_plain: "\<not> is_symlink fs p \<Longrightarrow> read_text fs p = node_text (map_of fs p)"
  by (simp add: read_text_def)

lemma is_file_plain: "\<not> is_symlink fs p \<Longrightarrow> is_file fs p = node_is_file (map_of fs p)"
  by (simp add: is_file_def follow_plain)

lemma universal_id: "CR \<notin> set s \<Longrightarrow> universal s = s"
  by (induction s rule: universal.induct) auto

lemma universal_no_CR: "CR \<notin> set (universal s)"
  by (induction s rule: universal.induct) auto

lemma universal_idem [simp]: "universal (universal s) = universal s"
  using universal_id universal_no_CR by blast

lemma in_dir_child:
  "in_dir d p \<longleftrightarrow> (\<exists>name. name \<noteq> [] \<and> CHR ''/'' \<notin> set name \<and> p = child d name)"
proof
  assume a: "in_dir d p"
  then have "p = d @ ''/'' @ drop (length d + 1) p"
    using append_take_drop_id [of "length d + 1" p] by (simp add: in_dir_def starts_with_def)
  moreover have "drop (length d + 1) p \<noteq> []" using a by (simp add: in_dir_def)
  ultimately show "\<exists>name. name \<noteq> [] \<and> CHR ''/'' \<notin> set name \<and> p = child d name"
    using a by (intro exI [of _ "drop (length d + 1) p"]) (simp add: in_dir_def child_def)
next
  assume "\<exists>name. name \<noteq> [] \<and> CHR ''/'' \<notin> set name \<and> p = child d name"
  then show "in_dir d p" by (auto simp: in_dir_def child_def starts_with_def)
qed

lemma iterdir_mem:
  "name \<in> set (iterdir fs d) \<longleftrightarrow>
     name \<noteq> [] \<and> CHR ''/'' \<notin> set name \<and> map_of fs (child d name) \<noteq> None"
proof -
  have "name \<in> set (iterdir fs d) \<longleftrightarrow> (\<exists>p \<in> set (keys fs). in_dir d p \<and> name = drop (length d + 1) p)"
    by (auto simp: iterdir_def)
  also have "\<dots> \<longleftrightarrow> name \<noteq> [] \<and> CHR ''/'' \<notin> set name \<and> child d name \<in> set (keys fs)"
    by (auto simp: in_dir_child) (auto simp: child_def)
  finally show ?thesis by (simp add: keys_def map_of_eq_None_iff)
qed

lemma child_inj [simp]: "child d a = child d b \<longleftrightarrow> a = b"
  by (simp add: child_def)

text \<open>A written text reads back.\<close>

lemma follow_not_link: "follow n fs p = Some q \<Longrightarrow> map_of fs q \<noteq> Some (Link t)"
  by (induction n arbitrary: p) (auto split: option.splits node.splits)

lemma follow_update:
  assumes "follow n fs p = Some q" and "\<And>t. node \<noteq> Link t"
  shows "follow n (AList.update q node fs) p = Some q"
  using assms
proof (induction n arbitrary: p)
  case 0
  then show ?case by simp
next
  case (Suc n)
  show ?case
  proof (cases "\<exists>t. map_of fs p = Some (Link t)")
    case True
    then obtain t where t: "map_of fs p = Some (Link t)" by blast
    then have f: "follow n fs t = Some q" using Suc.prems(1) by simp
    have "q \<noteq> p" using follow_not_link [OF f] t by auto
    then show ?thesis using t Suc.IH [OF f assms(2)] by (simp add: map_of_update)
  next
    case False
    then have "q = p" using Suc.prems(1) by (auto split: option.splits node.splits)
    then show ?thesis using assms(2) by (auto simp: map_of_update split: node.splits)
  qed
qed

lemma write_then_read:
  assumes "write_text p t fs = (Inr (), fs')" and "CR \<notin> set t"
  shows "read_text fs' p = Inr t"
proof -
  obtain q m where q: "follow max_links fs p = Some q" and fs': "fs' = AList.update q (File t m) fs"
    using assms(1) by (auto simp: write_text_def target_def optionR_def split: sum.splits option.splits node.splits)
  have "follow max_links fs' p = Some q" unfolding fs' by (rule follow_update [OF q]) simp
  then show ?thesis using assms(2) by (simp add: read_text_def target_def optionR_def fs' map_of_update universal_id)
qed

end
