(* ===== verification/Ccd.thy ===== *)
theory Ccd
  imports PyFs PyIpFacts
begin

text \<open>
  The OpenVPN client files as text: the managed sections, the tag lines, the routed prefix
  and the route mode of a client, and the text a client file is rewritten to (the functions
  on text in \<open>setup/root/antizapret/firewall6-lists.py\<close>).
\<close>

section \<open>Errors and markers\<close>

datatype reason =
    InvalidVpnPrefix | NotSlash48 | NotUla
  | SymlinkRefused string | CannotInspect string | CannotRead string
  | NestedBlock string | UnexpectedEnd string | UnterminatedRoutes string
  | BadClientName | InvalidPrefix | NotIpv6 | NotGlobal | BadLength
  | UnterminatedBlock string | MultiplePrefixes string | InconsistentPrefixes string
  | BadRouteMode string | Overlap ipnet ipnet string | UnmanagedIroute string
  | UnsupportedMode string | ModeNotStaticOrBgp | BgpDisabled

datatype fw_error = RuntimeErr reason | Uncaught io_error

definition OPENVPN_BEGIN :: string where
  "OPENVPN_BEGIN = ''# BEGIN ANTIZAPRET MANAGED IPV6 ROUTES''"
definition OPENVPN_END :: string where
  "OPENVPN_END = ''# END ANTIZAPRET MANAGED IPV6 ROUTES''"
definition OPENVPN_CLIENT_DEFAULT_BEGIN :: string where
  "OPENVPN_CLIENT_DEFAULT_BEGIN = ''# BEGIN ANTIZAPRET MANAGED DEFAULT ROUTES''"
definition OPENVPN_CLIENT_DEFAULT_END :: string where
  "OPENVPN_CLIENT_DEFAULT_END = ''# END ANTIZAPRET MANAGED DEFAULT ROUTES''"
definition OPENVPN_CLIENT_PREFIX_TAG :: string where
  "OPENVPN_CLIENT_PREFIX_TAG = ''# ANTIZAPRET ROUTED IPV6 PREFIX: ''"
definition OPENVPN_CLIENT_ROUTE_MODE_TAG :: string where
  "OPENVPN_CLIENT_ROUTE_MODE_TAG = ''# ANTIZAPRET ROUTE MODE: ''"
definition OPENVPN_CLIENT_PREFIX_BEGIN :: string where
  "OPENVPN_CLIENT_PREFIX_BEGIN = ''# BEGIN ANTIZAPRET MANAGED CLIENT IPV6''"
definition OPENVPN_CLIENT_PREFIX_END :: string where
  "OPENVPN_CLIENT_PREFIX_END = ''# END ANTIZAPRET MANAGED CLIENT IPV6''"

lemmas markers =
  OPENVPN_BEGIN_def OPENVPN_END_def OPENVPN_CLIENT_DEFAULT_BEGIN_def OPENVPN_CLIENT_DEFAULT_END_def
  OPENVPN_CLIENT_PREFIX_TAG_def OPENVPN_CLIENT_ROUTE_MODE_TAG_def
  OPENVPN_CLIENT_PREFIX_BEGIN_def OPENVPN_CLIENT_PREFIX_END_def

section \<open>Names and prefixes\<close>

definition name_char :: "char \<Rightarrow> bool" where
  "name_char c \<longleftrightarrow> is_alpha c \<or> is_digit c \<or> c = CHR ''_'' \<or> c = CHR ''-''"

definition client_name_ok :: "string \<Rightarrow> bool" where
  "client_name_ok s \<longleftrightarrow> 1 \<le> length s \<and> length s \<le> 32 \<and> list_all name_char s"

definition validate_client_name :: "string \<Rightarrow> (fw_error, string) result" where
  "validate_client_name value = (if client_name_ok value then Inr value else Inl (RuntimeErr BadClientName))"

definition GLOBAL_UNICAST :: ipnet where
  "GLOBAL_UNICAST = \<lparr>net_addr = V6 (2 ^ 125) None, prefixlen = 3\<rparr>"

definition parse_client_prefix :: "string \<Rightarrow> (fw_error, ipnet) result" where
  "parse_client_prefix value =
     (case ip_network True value of
        None \<Rightarrow> Inl (RuntimeErr InvalidPrefix)
      | Some network \<Rightarrow>
          if net_version network \<noteq> 6 then Inl (RuntimeErr NotIpv6)
          else if \<not> subnet_of network GLOBAL_UNICAST then Inl (RuntimeErr NotGlobal)
          else if \<not> (48 \<le> prefixlen network \<and> prefixlen network \<le> 64) then Inl (RuntimeErr BadLength)
          else Inr network)"

section \<open>Managed sections\<close>

definition section_end :: "string \<Rightarrow> string option" where
  "section_end line =
     (if line = OPENVPN_CLIENT_DEFAULT_BEGIN then Some OPENVPN_CLIENT_DEFAULT_END
      else if line = OPENVPN_CLIENT_PREFIX_BEGIN then Some OPENVPN_CLIENT_PREFIX_END
      else None)"

definition tag_line :: "string \<Rightarrow> bool" where
  "tag_line line \<longleftrightarrow> starts_with OPENVPN_CLIENT_PREFIX_TAG line
     \<or> starts_with OPENVPN_CLIENT_ROUTE_MODE_TAG line"

text \<open>The lines kept, and the end marker still waited for at the end of the text.\<close>

fun strip_loop :: "string option \<Rightarrow> string list \<Rightarrow> string list \<times> string option" where
  "strip_loop e [] = ([], e)"
| "strip_loop (Some e) (line # ls) =
     (if line = e then strip_loop None ls else strip_loop (Some e) ls)"
| "strip_loop None (line # ls) =
     (case section_end line of
        Some e \<Rightarrow> strip_loop (Some e) ls
      | None \<Rightarrow> if tag_line line then strip_loop None ls
                else (case strip_loop None ls of (kept, e) \<Rightarrow> (line # kept, e)))"

definition drop_trailing_empty :: "string list \<Rightarrow> string list" where
  "drop_trailing_empty ls = rev (dropWhile (\<lambda>l. l = []) (rev ls))"

definition strip_managed_sections :: "string \<Rightarrow> (fw_error, string list) result" where
  "strip_managed_sections text =
     (case strip_loop None (splitlines text) of
        (retained, Some e) \<Rightarrow> Inl (RuntimeErr (UnterminatedBlock e))
      | (retained, None) \<Rightarrow> Inr (drop_trailing_empty retained))"

section \<open>Tags\<close>

definition tag_values :: "string \<Rightarrow> string \<Rightarrow> string list" where
  "tag_values tag text =
     map (\<lambda>line. strip (remove_prefix tag line)) (filter (starts_with tag) (splitlines text))"

definition prefix_from_text :: "string \<Rightarrow> string \<Rightarrow> (fw_error, ipnet option) result" where
  "prefix_from_text text source =
     (case tag_values OPENVPN_CLIENT_PREFIX_TAG text of
        [] \<Rightarrow> Inr None
      | [v] \<Rightarrow> bindR (parse_client_prefix v) (\<lambda>p. Inr (Some p))
      | _ \<Rightarrow> Inl (RuntimeErr (MultiplePrefixes source)))"

definition route_mode_from_text :: "string \<Rightarrow> string \<Rightarrow> (fw_error, string) result" where
  "route_mode_from_text text source =
     (case tag_values OPENVPN_CLIENT_ROUTE_MODE_TAG text of
        [] \<Rightarrow> Inr ''static''
      | vs \<Rightarrow> if length vs \<noteq> 1 \<or> hd vs \<noteq> ''bgp'' then Inl (RuntimeErr (BadRouteMode source))
              else Inr (hd vs))"

section \<open>Rendering a client file\<close>

definition default_block :: "string list \<Rightarrow> ipnet option \<Rightarrow> string option \<Rightarrow> string \<Rightarrow> string list" where
  "default_block retained prefix default_routes route_mode =
     (case default_routes of
        None \<Rightarrow> []
      | Some routes \<Rightarrow>
          if route_mode = ''bgp'' then [OPENVPN_CLIENT_ROUTE_MODE_TAG @ ''bgp'']
          else if prefix \<noteq> None \<or> retained \<noteq> []
          then OPENVPN_CLIENT_DEFAULT_BEGIN # splitlines (rstrip_char LF routes) @ [OPENVPN_CLIENT_DEFAULT_END]
          else [])"

definition iroute_line :: "ipnet \<Rightarrow> string" where
  "iroute_line p = ''iroute-ipv6 '' @ show_net p"

definition prefix_block :: "ipnet option \<Rightarrow> bool \<Rightarrow> string list" where
  "prefix_block prefix ipv6_enabled =
     (case prefix of
        None \<Rightarrow> []
      | Some p \<Rightarrow> (OPENVPN_CLIENT_PREFIX_TAG @ show_net p) #
          (if ipv6_enabled
           then [OPENVPN_CLIENT_PREFIX_BEGIN, iroute_line p, OPENVPN_CLIENT_PREFIX_END]
           else []))"

text \<open>\<open>original\<close> is the text the file has; \<open>path\<close> only names it in errors.\<close>

definition render_client_text ::
  "string \<Rightarrow> string \<Rightarrow> ipnet option \<Rightarrow> string option \<Rightarrow> bool \<Rightarrow> string \<Rightarrow> (fw_error, string) result" where
  "render_client_text path original prefix default_routes ipv6_enabled route_mode =
     bindR (strip_managed_sections original) (\<lambda>retained.
       if filter (\<lambda>line. starts_with ''iroute-ipv6 '' (strip line)) retained \<noteq> [] \<and> prefix \<noteq> None
       then Inl (RuntimeErr (UnmanagedIroute path))
       else (let ls = retained @ default_block retained prefix default_routes route_mode
                      @ prefix_block prefix ipv6_enabled
             in Inr (if ls = [] then [] else join [LF] (ls @ [[]]))))"

section \<open>The block of pushed routes\<close>

text \<open>The lines outside the block; nested, unexpected or missing markers are errors.\<close>

fun outside_block :: "string \<Rightarrow> bool \<Rightarrow> string list \<Rightarrow> (fw_error, string list) result" where
  "outside_block path managed [] =
     (if managed then Inl (RuntimeErr (UnterminatedRoutes path)) else Inr [])"
| "outside_block path managed (line # ls) =
     (if line = OPENVPN_BEGIN then
        (if managed then Inl (RuntimeErr (NestedBlock path)) else outside_block path True ls)
      else if line = OPENVPN_END then
        (if \<not> managed then Inl (RuntimeErr (UnexpectedEnd path)) else outside_block path False ls)
      else if managed then outside_block path True ls
      else bindR (outside_block path False ls) (\<lambda>kept. Inr (line # kept)))"

definition net_key :: "ipnet \<Rightarrow> nat \<times> nat" where
  "net_key n = (net_int n, prefixlen n)"

text \<open>A set of networks is a list in the order it is iterated in; only the first of equals counts.\<close>

definition ordered :: "ipnet list \<Rightarrow> ipnet list" where
  "ordered networks = sort_key net_key (remdups networks)"

definition push_route :: "ipnet \<Rightarrow> string" where
  "push_route n = ''push \"route-ipv6 '' @ show_net n @ ''\"''"

definition route_block :: "ipnet list \<Rightarrow> bool \<Rightarrow> ipnet option \<Rightarrow> string list" where
  "route_block networks enabled fake_network =
     (if \<not> enabled then []
      else OPENVPN_BEGIN # map push_route (ordered networks)
        @ (case fake_network of None \<Rightarrow> [] | Some f \<Rightarrow> if f \<in> set networks then [] else [push_route f])
        @ [OPENVPN_END])"

definition render_routes :: "string \<Rightarrow> string \<Rightarrow> ipnet list \<Rightarrow> bool \<Rightarrow> ipnet option \<Rightarrow> (fw_error, string) result" where
  "render_routes path original networks enabled fake_network =
     bindR (outside_block path False (splitlines original)) (\<lambda>retained.
       Inr (join [LF] (retained @ route_block networks enabled fake_network @ [[]])))"

end
