(* ===== verification/Firewall6.thy ===== *)
theory Firewall6
  imports Ccd FakePool "HOL-Library.Char_ord" "HOL-Library.List_Lexorder"
begin

text \<open>
  \<open>setup/root/antizapret/firewall6-lists.py\<close> on the file system: reading the lists,
  writing the results and the pushed routes, and the operations on the client files.
  The paths are the defaults; the environment variables are a record.
\<close>

section \<open>Paths and environment\<close>

definition ROOT :: string where "ROOT = ''/root/antizapret''"
definition RESULT :: string where "RESULT = ROOT @ ''/result''"
definition DOWNLOAD_CACHE :: string where "DOWNLOAD_CACHE = ROOT @ ''/state/download-ips6.txt''"
definition OPENVPN_CCD :: string where "OPENVPN_CCD = ''/etc/openvpn/server/ccd''"
definition OPENVPN_CCD2 :: string where "OPENVPN_CCD2 = ''/etc/openvpn/server/ccd2''"
definition OPENVPN_DEFAULT :: string where "OPENVPN_DEFAULT = OPENVPN_CCD @ ''/DEFAULT''"
definition DEFAULT_IPV6_PREFIX :: string where "DEFAULT_IPV6_PREFIX = ''fd3a:c9bc:6bcb::/48''"

record env =
  bgp_enable :: bool
  disable_ipv6 :: bool
  vpn_ipv6_prefix :: string
  alternative_fake_ipv6 :: bool

text \<open>An operating system error that no handler turns into a \<open>RuntimeError\<close>.\<close>

definition ioP :: "(fs, io_error, 'a) prog \<Rightarrow> (fs, fw_error, 'a) prog" where
  "ioP m fs = (case m fs of (Inl e, fs') \<Rightarrow> (Inl (Uncaught e), fs') | (Inr x, fs') \<Rightarrow> (Inr x, fs'))"

text \<open>A file that may be missing; an unreadable one is reported with its path.\<close>

definition read_optional :: "fs \<Rightarrow> string \<Rightarrow> (fw_error, string option) result" where
  "read_optional fs path =
     (case read_text fs path of
        Inr t \<Rightarrow> Inr (Some t)
      | Inl FileNotFound \<Rightarrow> Inr None
      | Inl OsError \<Rightarrow> Inl (RuntimeErr (CannotRead path))
      | Inl UnicodeError \<Rightarrow> Inl (Uncaught UnicodeError))"

text \<open>A file that must be there: every \<open>OSError\<close> is reported.\<close>

definition read_required :: "fs \<Rightarrow> string \<Rightarrow> (fw_error, string) result" where
  "read_required fs path =
     (case read_text fs path of
        Inr t \<Rightarrow> Inr t
      | Inl UnicodeError \<Rightarrow> Inl (Uncaught UnicodeError)
      | Inl _ \<Rightarrow> Inl (RuntimeErr (CannotRead path)))"

section \<open>Reading lists\<close>

definition fw_fake_ipv6_network :: "string \<Rightarrow> bool \<Rightarrow> (fw_error, ipnet) result" where
  "fw_fake_ipv6_network prefix alternative =
     (if alternative then Inr ALTERNATIVE_FAKE_IPV6_NETWORK
      else (case ip_network True prefix of
              None \<Rightarrow> Inl (RuntimeErr InvalidVpnPrefix)
            | Some net \<Rightarrow>
                if net_version net \<noteq> 6 \<or> prefixlen net \<noteq> 48 then Inl (RuntimeErr NotSlash48)
                else if \<not> subnet_of net ULA then Inl (RuntimeErr NotUla)
                else Inr (subnet_at net FAKE_IPV6_SUBNET FAKE_IPV6_PREFIX_LENGTH)))"

definition line_network :: "string \<Rightarrow> ipnet option" where
  "line_network raw_line =
     (let value = strip (before (CHR ''#'') raw_line) in
      if value = [] then None
      else (case ip_network False (concat (words value)) of
              None \<Rightarrow> None
            | Some net \<Rightarrow> if net_version net = 6 then Some net else None))"

definition text_networks :: "string \<Rightarrow> ipnet list" where
  "text_networks text = List.map_filter line_network (splitlines text)"

definition read_paths :: "fs \<Rightarrow> string list \<Rightarrow> ipnet list" where
  "read_paths fs paths =
     remdups (concat (map (\<lambda>path. case read_ignore fs path of
        Inl e \<Rightarrow> [] | Inr t \<Rightarrow> text_networks t) paths))"

text \<open>A pattern \<open>DIR/*SUFFIX\<close>; the star does not match a leading dot.\<close>

definition glob :: "fs \<Rightarrow> string \<times> string \<Rightarrow> string list" where
  "glob fs pattern =
     (case pattern of (dir, suffix) \<Rightarrow>
        map (child (child ROOT dir))
          (filter (\<lambda>name. ends_with suffix name \<and> \<not> starts_with ''.'' name) (iterdir fs (child ROOT dir))))"

definition matching_paths :: "fs \<Rightarrow> (string \<times> string) list \<Rightarrow> string list" where
  "matching_paths fs patterns = sort (remdups (filter (is_file fs) (concat (map (glob fs) patterns))))"

definition read_networks :: "fs \<Rightarrow> (string \<times> string) list \<Rightarrow> ipnet list" where
  "read_networks fs patterns = read_paths fs (matching_paths fs patterns)"

section \<open>Writing\<close>

definition write_file :: "string \<Rightarrow> ipnet list \<Rightarrow> (fs, fw_error, unit) prog" where
  "write_file destination networks =
     bindP (ioP (write_text (destination @ ''.tmp'') (unlines (map show_net (ordered networks)))))
       (\<lambda>_. ioP (replace_file (destination @ ''.tmp'') destination))"

text \<open>The permissions to keep and the present text.\<close>

definition inspect :: "fs \<Rightarrow> string \<Rightarrow> (fw_error, nat \<times> string option) result" where
  "inspect fs destination =
     (case stat_mode fs destination of
        Inl FileNotFound \<Rightarrow> Inr (420, None)
      | Inl e \<Rightarrow> Inl (RuntimeErr (CannotInspect destination))
      | Inr m \<Rightarrow>
          (case read_text fs destination of
             Inr t \<Rightarrow> Inr (m mod 512, Some t)
           | Inl FileNotFound \<Rightarrow> Inr (m mod 512, None)
           | Inl OsError \<Rightarrow> Inl (RuntimeErr (CannotInspect destination))
           | Inl UnicodeError \<Rightarrow> Inl (Uncaught UnicodeError)))"

definition replace_text :: "string \<Rightarrow> string \<Rightarrow> (fs, fw_error, unit) prog" where
  "replace_text destination content fs =
     (if is_symlink fs destination then (Inl (RuntimeErr (SymlinkRefused destination)), fs)
      else (case inspect fs destination of
              Inl e \<Rightarrow> (Inl e, fs)
            | Inr (mode, present) \<Rightarrow>
                if present = Some content then (Inr (), fs)
                else bindP (ioP (write_text (destination @ ''.tmp'') content)) (\<lambda>_.
                     bindP (ioP (chmod (destination @ ''.tmp'') mode)) (\<lambda>_.
                     ioP (replace_file (destination @ ''.tmp'') destination))) fs))"

definition write_result :: "string \<Rightarrow> ipnet list \<Rightarrow> (fs, fw_error, unit) prog" where
  "write_result filename networks = write_file (child RESULT filename) networks"

definition write_openvpn_routes ::
  "string \<Rightarrow> ipnet list \<Rightarrow> bool \<Rightarrow> ipnet option \<Rightarrow> (fs, fw_error, unit) prog" where
  "write_openvpn_routes destination networks enabled fake_network =
     bindP (getsP (\<lambda>fs. bindR (read_optional fs destination) (\<lambda>t.
       render_routes destination (case t of None \<Rightarrow> [] | Some x \<Rightarrow> x) networks enabled fake_network)))
       (replace_text destination)"

section \<open>Client files\<close>

definition client_path :: "string \<Rightarrow> string \<Rightarrow> (fw_error, string) result" where
  "client_path directory name = bindR (validate_client_name name) (\<lambda>n. Inr (child directory n))"

definition prefix_of_file :: "fs \<Rightarrow> string \<Rightarrow> string \<Rightarrow> (fw_error, ipnet option) result" where
  "prefix_of_file fs name directory =
     bindR (client_path directory name) (\<lambda>path.
     bindR (read_optional fs path) (\<lambda>t.
       case t of None \<Rightarrow> Inr None | Some x \<Rightarrow> prefix_from_text x path))"

definition read_client_prefix :: "fs \<Rightarrow> string \<Rightarrow> (fw_error, ipnet option) result" where
  "read_client_prefix fs name =
     bindR (traverseR (prefix_of_file fs name) [OPENVPN_CCD, OPENVPN_CCD2]) (\<lambda>values.
       case remdups (List.map_filter id values) of
         [] \<Rightarrow> Inr None
       | [p] \<Rightarrow> Inr (Some p)
       | _ \<Rightarrow> Inl (RuntimeErr (InconsistentPrefixes name)))"

definition read_client_route_mode :: "fs \<Rightarrow> string \<Rightarrow> (fw_error, string) result" where
  "read_client_route_mode fs name =
     bindR (client_path OPENVPN_CCD name) (\<lambda>path.
     bindR (read_optional fs path) (\<lambda>t.
       case t of None \<Rightarrow> Inr ''static'' | Some x \<Rightarrow> route_mode_from_text x path))"

definition managed_text :: "string \<Rightarrow> bool" where
  "managed_text text \<longleftrightarrow> contains OPENVPN_CLIENT_PREFIX_TAG text
     \<or> contains OPENVPN_CLIENT_ROUTE_MODE_TAG text
     \<or> OPENVPN_CLIENT_DEFAULT_BEGIN \<in> set (splitlines text)"

text \<open>The managed name at an entry of a directory, if it is one.\<close>

definition managed_entry :: "fs \<Rightarrow> string \<Rightarrow> string \<Rightarrow> (fw_error, string option) result" where
  "managed_entry fs directory name =
     (if \<not> is_file fs (child directory name) \<or> name = ''DEFAULT'' then Inr None
      else bindR (read_required fs (child directory name)) (\<lambda>text.
        if managed_text text then bindR (validate_client_name name) (\<lambda>n. Inr (Some n)) else Inr None))"

definition managed_client_names :: "fs \<Rightarrow> (fw_error, string list) result" where
  "managed_client_names fs =
     bindR (traverseR (\<lambda>directory. traverseR (managed_entry fs directory) (iterdir fs directory))
              [OPENVPN_CCD, OPENVPN_CCD2])
       (\<lambda>found. Inr (remdups (List.map_filter id (concat found))))"

definition check_other :: "fs \<Rightarrow> ipnet \<Rightarrow> unit \<Rightarrow> string \<Rightarrow> (fw_error, unit) result" where
  "check_other fs prefix u other_name =
     bindR (read_client_prefix fs other_name) (\<lambda>other_prefix.
       case other_prefix of
         None \<Rightarrow> Inr ()
       | Some q \<Rightarrow> if overlaps prefix q then Inl (RuntimeErr (Overlap prefix q other_name)) else Inr ())"

definition validate_unique_client_prefix :: "fs \<Rightarrow> string \<Rightarrow> ipnet \<Rightarrow> (fw_error, unit) result" where
  "validate_unique_client_prefix fs name prefix =
     bindR (managed_client_names fs) (\<lambda>names.
       foldR (check_other fs prefix) () (filter (\<lambda>other. other \<noteq> name) names))"

definition read_openvpn_default :: "fs \<Rightarrow> (fw_error, string) result" where
  "read_openvpn_default fs = read_required fs OPENVPN_DEFAULT"

definition render_client_config ::
  "fs \<Rightarrow> string \<Rightarrow> ipnet option \<Rightarrow> string option \<Rightarrow> bool \<Rightarrow> string \<Rightarrow> (fw_error, string) result" where
  "render_client_config fs path prefix default_routes ipv6_enabled route_mode =
     bindR (read_optional fs path) (\<lambda>t.
       render_client_text path (case t of None \<Rightarrow> [] | Some x \<Rightarrow> x) prefix default_routes ipv6_enabled route_mode)"

definition put_client_file :: "string \<Rightarrow> string \<Rightarrow> (fs, fw_error, unit) prog" where
  "put_client_file path content fs =
     (if content \<noteq> [] then replace_text path content fs
      else if map_of fs path = None then (Inr (), fs)
      else ioP (unlink path) fs)"

text \<open>Both texts are made before either file is touched.\<close>

definition rendered_pair ::
  "string \<Rightarrow> ipnet option \<Rightarrow> bool \<Rightarrow> string \<Rightarrow> fs \<Rightarrow> (fw_error, (string \<times> string) \<times> (string \<times> string)) result" where
  "rendered_pair name prefix ipv6_enabled route_mode fs =
     bindR (requireR (route_mode \<in> {''static'', ''bgp''}) (RuntimeErr (UnsupportedMode route_mode))) (\<lambda>_.
     bindR (read_openvpn_default fs) (\<lambda>default_routes.
     bindR (client_path OPENVPN_CCD name) (\<lambda>p1.
     bindR (client_path OPENVPN_CCD2 name) (\<lambda>p2.
     bindR (render_client_config fs p1 prefix (Some default_routes) ipv6_enabled route_mode) (\<lambda>c1.
     bindR (render_client_config fs p2 prefix None ipv6_enabled route_mode) (\<lambda>c2.
       Inr ((p1, c1), (p2, c2))))))))"

definition write_client_config ::
  "string \<Rightarrow> ipnet option \<Rightarrow> bool \<Rightarrow> string \<Rightarrow> (fs, fw_error, unit) prog" where
  "write_client_config name prefix ipv6_enabled route_mode =
     bindP (getsP (rendered_pair name prefix ipv6_enabled route_mode)) (\<lambda>((p1, c1), (p2, c2)).
       bindP (put_client_file p1 c1) (\<lambda>_. put_client_file p2 c2))"

section \<open>Operations\<close>

definition set_client_prefix :: "env \<Rightarrow> string \<Rightarrow> string \<Rightarrow> (fs, fw_error, unit) prog" where
  "set_client_prefix env name value =
     bindP (getsP (\<lambda>fs.
       bindR (validate_client_name name) (\<lambda>_.
       bindR (parse_client_prefix value) (\<lambda>prefix.
       bindR (validate_unique_client_prefix fs name prefix) (\<lambda>_.
       bindR (read_client_route_mode fs name) (\<lambda>route_mode.
         Inr (prefix, if bgp_enable env then route_mode else ''static'')))))))
     (\<lambda>(prefix, route_mode). write_client_config name (Some prefix) (\<not> disable_ipv6 env) route_mode)"

fun delete_files :: "string \<Rightarrow> string list \<Rightarrow> (fs, fw_error, unit) prog" where
  "delete_files name [] fs = (Inr (), fs)"
| "delete_files name (directory # directories) fs =
     (case client_path directory name of
        Inl e \<Rightarrow> (Inl e, fs)
      | Inr path \<Rightarrow>
          (case read_optional fs path of
             Inl e \<Rightarrow> (Inl e, fs)
           | Inr None \<Rightarrow> delete_files name directories fs
           | Inr (Some t) \<Rightarrow> bindP (ioP (unlink path)) (\<lambda>_. delete_files name directories) fs))"

definition clear_client_prefix :: "env \<Rightarrow> string \<Rightarrow> bool \<Rightarrow> (fs, fw_error, unit) prog" where
  "clear_client_prefix env name del =
     bindP (getsP (\<lambda>_. validate_client_name name)) (\<lambda>_.
       if \<not> del then
         bindP (getsP (\<lambda>fs. bindR (read_client_route_mode fs name) (\<lambda>route_mode.
             Inr (if bgp_enable env then route_mode else ''static''))))
           (\<lambda>route_mode. write_client_config name None (\<not> disable_ipv6 env) route_mode)
       else delete_files name [OPENVPN_CCD, OPENVPN_CCD2])"

definition set_client_route_mode :: "env \<Rightarrow> string \<Rightarrow> string \<Rightarrow> (fs, fw_error, unit) prog" where
  "set_client_route_mode env name mode =
     bindP (getsP (\<lambda>fs.
       bindR (validate_client_name name) (\<lambda>_.
       bindR (requireR (mode \<in> {''static'', ''bgp''}) (RuntimeErr ModeNotStaticOrBgp)) (\<lambda>_.
       bindR (requireR (\<not> (mode = ''bgp'' \<and> \<not> bgp_enable env)) (RuntimeErr BgpDisabled)) (\<lambda>_.
         read_client_prefix fs name)))))
     (\<lambda>prefix. write_client_config name prefix (\<not> disable_ipv6 env) mode)"

text \<open>The prefixes of all managed clients, once they are known not to conflict.\<close>

definition checked_prefix :: "fs \<Rightarrow> string \<Rightarrow> (fw_error, string \<times> ipnet option) result" where
  "checked_prefix fs name =
     bindR (read_client_prefix fs name) (\<lambda>prefix.
       case prefix of
         None \<Rightarrow> Inr (name, None)
       | Some p \<Rightarrow> bindR (validate_unique_client_prefix fs name p) (\<lambda>_. Inr (name, Some p)))"

definition checked_prefixes :: "fs \<Rightarrow> (fw_error, (string \<times> ipnet option) list) result" where
  "checked_prefixes fs =
     bindR (managed_client_names fs) (\<lambda>names. traverseR (checked_prefix fs) names)"

definition sync_client :: "bool \<Rightarrow> bool \<Rightarrow> string \<times> ipnet option \<Rightarrow> (fs, fw_error, unit) prog" where
  "sync_client ipv6_enabled bgp_enabled x =
     bindP (getsP (\<lambda>fs. if bgp_enabled then read_client_route_mode fs (fst x) else Inr ''static''))
       (\<lambda>route_mode. write_client_config (fst x) (snd x) ipv6_enabled route_mode)"

definition sync_client_configs :: "bool \<Rightarrow> bool \<Rightarrow> (fs, fw_error, unit) prog" where
  "sync_client_configs ipv6_enabled bgp_enabled =
     bindP (getsP checked_prefixes) (\<lambda>prefixes.
       forP (sync_client ipv6_enabled bgp_enabled) (sort_key fst prefixes))"

definition downloaded_networks :: "bool \<Rightarrow> (fs, fw_error, ipnet list) prog" where
  "downloaded_networks refresh_download =
     bindP (getsP (\<lambda>fs. Inr (matching_paths fs [(''download'', ''ips.txt''), (''download'', ''ips6.txt'')])))
       (\<lambda>download_paths.
         if refresh_download \<or> download_paths \<noteq> [] then
           bindP (getsP (\<lambda>fs. Inr (read_paths fs download_paths))) (\<lambda>networks.
           bindP (write_file DOWNLOAD_CACHE networks) (\<lambda>_. retP networks))
         else getsP (\<lambda>fs. Inr (read_paths fs [DOWNLOAD_CACHE])))"

section \<open>The program\<close>

datatype action =
    GetPrefix string | GetRouteMode string | SetRouteMode string string | SetPrefix string string
  | ClearPrefix string | DeleteConfig string | DisableOpenvpn | Update bool

definition list_of :: "string \<Rightarrow> (fs, fw_error, ipnet list) prog" where
  "list_of suffix = getsP (\<lambda>fs. Inr (read_networks fs [(''config'', suffix)]))"

definition update_all :: "env \<Rightarrow> bool \<Rightarrow> (fs, fw_error, string option) prog" where
  "update_all env refresh_download =
     bindP (downloaded_networks refresh_download) (\<lambda>downloaded.
     bindP (list_of ''include-ips.txt'') (\<lambda>included.
     bindP (list_of ''exclude-ips.txt'') (\<lambda>excluded.
     (let route = filter (\<lambda>n. n \<notin> set excluded) (remdups (downloaded @ included)) in
     bindP (getsP (\<lambda>_. fw_fake_ipv6_network
         (if vpn_ipv6_prefix env = [] then DEFAULT_IPV6_PREFIX else vpn_ipv6_prefix env)
         (alternative_fake_ipv6 env))) (\<lambda>fake_network.
     bindP (write_result ''route-ips6.txt'' route) (\<lambda>_.
     bindP (write_openvpn_routes OPENVPN_DEFAULT route True (Some fake_network)) (\<lambda>_.
     bindP (sync_client_configs True (bgp_enable env)) (\<lambda>_.
     bindP (bindP (list_of ''allow-ips.txt'') (write_result ''allow-ips6.txt'')) (\<lambda>_.
     bindP (bindP (list_of ''deny-ips.txt'') (write_result ''deny-ips6.txt'')) (\<lambda>_.
     bindP (bindP (list_of ''drop-ips.txt'') (write_result ''drop-ips6.txt'')) (\<lambda>_.
     bindP (bindP (list_of ''forward-ips.txt'') (\<lambda>f.
         write_result ''forward-ips6.txt'' (remdups (route @ f)))) (\<lambda>_.
     retP None))))))))))))"

text \<open>An empty client name is no action: the update runs instead.\<close>

definition fw_main :: "env \<Rightarrow> action \<Rightarrow> (fs, fw_error, string option) prog" where
  "fw_main env action =
     (let otherwise = (\<lambda>disable refresh.
        if disable \<or> disable_ipv6 env then
          bindP (write_openvpn_routes OPENVPN_DEFAULT [] False None) (\<lambda>_.
          bindP (sync_client_configs False (bgp_enable env)) (\<lambda>_. retP None))
        else update_all env refresh);
        done = (\<lambda>m. bindP m (\<lambda>_. retP None))
      in case action of
           GetPrefix name \<Rightarrow>
             if name = [] then otherwise False False
             else getsP (\<lambda>fs. bindR (read_client_prefix fs name) (\<lambda>p. Inr (map_option show_net p)))
         | GetRouteMode name \<Rightarrow>
             if name = [] then otherwise False False
             else getsP (\<lambda>fs. bindR (read_client_route_mode fs name) (\<lambda>m. Inr (Some m)))
         | SetRouteMode name mode \<Rightarrow> done (set_client_route_mode env name mode)
         | SetPrefix name prefix \<Rightarrow> done (set_client_prefix env name prefix)
         | ClearPrefix name \<Rightarrow>
             if name = [] then otherwise False False else done (clear_client_prefix env name False)
         | DeleteConfig name \<Rightarrow>
             if name = [] then otherwise False False else done (clear_client_prefix env name True)
         | DisableOpenvpn \<Rightarrow> otherwise True False
         | Update refresh \<Rightarrow> otherwise False refresh)"

end
