(* ===== verification/CcdFacts.thy ===== *)
theory CcdFacts
  imports Ccd
begin

text \<open>
  The client files as text: rewriting keeps the administrator's lines, and reads back the
  prefix and the mode it was given; the same for the block of pushed routes.
\<close>

section \<open>Lines\<close>

text \<open>The default routes do not carry lines that would be read as a client's own.\<close>

definition default_clean :: "string \<Rightarrow> bool" where
  "default_clean routes \<longleftrightarrow> (\<forall>l \<in> set (splitlines routes).
     l \<noteq> OPENVPN_CLIENT_DEFAULT_END \<and> \<not> tag_line l)"

lemma default_clean_lines:
  "default_clean routes \<Longrightarrow> l \<in> set (splitlines (rstrip_char LF routes)) \<Longrightarrow>
   l \<noteq> OPENVPN_CLIENT_DEFAULT_END \<and> \<not> tag_line l"
  using rstrip_char_lines by (auto simp: default_clean_def)

lemma marker_facts [simp]:
  "section_end OPENVPN_CLIENT_DEFAULT_BEGIN = Some OPENVPN_CLIENT_DEFAULT_END"
  "section_end OPENVPN_CLIENT_PREFIX_BEGIN = Some OPENVPN_CLIENT_PREFIX_END"
  "section_end (OPENVPN_CLIENT_PREFIX_TAG @ s) = None"
  "section_end (OPENVPN_CLIENT_ROUTE_MODE_TAG @ s) = None"
  "tag_line (OPENVPN_CLIENT_PREFIX_TAG @ s)" "tag_line (OPENVPN_CLIENT_ROUTE_MODE_TAG @ s)"
  by (simp_all add: section_end_def markers tag_line_def starts_with_def)

lemma marker_tags [simp]:
  "\<not> starts_with OPENVPN_CLIENT_PREFIX_TAG OPENVPN_CLIENT_DEFAULT_BEGIN"
  "\<not> starts_with OPENVPN_CLIENT_PREFIX_TAG OPENVPN_CLIENT_DEFAULT_END"
  "\<not> starts_with OPENVPN_CLIENT_PREFIX_TAG OPENVPN_CLIENT_PREFIX_BEGIN"
  "\<not> starts_with OPENVPN_CLIENT_PREFIX_TAG OPENVPN_CLIENT_PREFIX_END"
  "\<not> starts_with OPENVPN_CLIENT_PREFIX_TAG (iroute_line p)"
  "\<not> starts_with OPENVPN_CLIENT_PREFIX_TAG (OPENVPN_CLIENT_ROUTE_MODE_TAG @ s)"
  "\<not> starts_with OPENVPN_CLIENT_ROUTE_MODE_TAG OPENVPN_CLIENT_DEFAULT_BEGIN"
  "\<not> starts_with OPENVPN_CLIENT_ROUTE_MODE_TAG OPENVPN_CLIENT_DEFAULT_END"
  "\<not> starts_with OPENVPN_CLIENT_ROUTE_MODE_TAG OPENVPN_CLIENT_PREFIX_BEGIN"
  "\<not> starts_with OPENVPN_CLIENT_ROUTE_MODE_TAG OPENVPN_CLIENT_PREFIX_END"
  "\<not> starts_with OPENVPN_CLIENT_ROUTE_MODE_TAG (iroute_line p)"
  "\<not> starts_with OPENVPN_CLIENT_ROUTE_MODE_TAG (OPENVPN_CLIENT_PREFIX_TAG @ s)"
  by (simp_all add: markers starts_with_def iroute_line_def)

lemma marker_clean [simp]:
  "clean_line OPENVPN_CLIENT_DEFAULT_BEGIN" "clean_line OPENVPN_CLIENT_DEFAULT_END"
  "clean_line OPENVPN_CLIENT_PREFIX_BEGIN" "clean_line OPENVPN_CLIENT_PREFIX_END"
  "clean_line OPENVPN_BEGIN" "clean_line OPENVPN_END"
  "clean_line OPENVPN_CLIENT_PREFIX_TAG" "clean_line OPENVPN_CLIENT_ROUTE_MODE_TAG"
  by (simp_all add: markers)

lemma iroute_line_facts [simp]:
  "iroute_line p \<noteq> OPENVPN_CLIENT_PREFIX_END" "OPENVPN_CLIENT_PREFIX_END \<noteq> iroute_line p"
  "clean_line (iroute_line p) = clean_line (show_net p)"
  by (simp_all add: markers iroute_line_def)

lemma unlines_no_CR:
  assumes "\<forall>l \<in> set ls. clean_line l"
  shows "CR \<notin> set (unlines ls)"
proof
  assume "CR \<in> set (unlines ls)"
  from unlines_chars [OF this] obtain l where "l \<in> set ls" "CR \<in> set l" by auto
  then have "\<not> is_eol CR" using assms unfolding clean_line_def by blast
  then show False by simp
qed

section \<open>Stripping what was added\<close>

definition user_line :: "string \<Rightarrow> bool" where
  "user_line l \<longleftrightarrow> clean_line l \<and> section_end l = None \<and> \<not> tag_line l"

lemma strip_loop_user:
  "l \<in> set (fst (strip_loop e ls)) \<Longrightarrow> l \<in> set ls \<and> section_end l = None \<and> \<not> tag_line l"
proof (induction e ls rule: strip_loop.induct)
  case (3 line ls)
  then show ?case by (auto split: option.splits if_splits prod.splits)
qed (auto split: if_splits)

lemma drop_trailing_empty_set: "set (drop_trailing_empty ls) \<subseteq> set ls"
  using set_dropWhileD [of _ "\<lambda>l. l = []" "rev ls"] by (auto simp: drop_trailing_empty_def)

lemma drop_trailing_empty_last:
  "drop_trailing_empty ls = [] \<or> last (drop_trailing_empty ls) \<noteq> []"
  using hd_dropWhile [of "\<lambda>l. l = []" "rev ls"]
  by (auto simp: drop_trailing_empty_def last_rev dropWhile_eq_Nil_conv)

lemma drop_trailing_empty_id: "ls = [] \<or> last ls \<noteq> [] \<Longrightarrow> drop_trailing_empty ls = ls"
  by (cases ls rule: rev_cases) (auto simp: drop_trailing_empty_def)

lemma strip_managed_spec:
  assumes "strip_managed_sections text = Inr retained"
  shows "(\<forall>l \<in> set retained. user_line l) \<and> (retained = [] \<or> last retained \<noteq> [])"
proof -
  from assms obtain ls where ls: "strip_loop None (splitlines text) = (ls, None)"
    "retained = drop_trailing_empty ls"
    by (auto simp: strip_managed_sections_def split: prod.splits option.splits)
  have "\<forall>l \<in> set ls. user_line l"
    using strip_loop_user [of _ None "splitlines text"] splitlines_clean [of _ "text"] ls(1)
    by (auto simp: user_line_def)
  then show ?thesis using drop_trailing_empty_set [of ls] drop_trailing_empty_last [of ls] ls(2) by auto
qed

lemma strip_loop_append_user:
  assumes "\<forall>l \<in> set xs. user_line l"
  shows "strip_loop None (xs @ ys) = (case strip_loop None ys of (kept, e) \<Rightarrow> (xs @ kept, e))"
  using assms by (induction xs) (auto simp: user_line_def split: prod.splits)

lemma strip_loop_skip:
  "e \<notin> set xs \<Longrightarrow> strip_loop (Some e) (xs @ e # ys) = strip_loop None ys"
  by (induction xs) auto

lemma strip_loop_default_block:
  assumes "\<forall>routes. default_routes = Some routes \<longrightarrow> default_clean routes"
  shows "strip_loop None (default_block retained prefix default_routes route_mode @ ys) = strip_loop None ys"
  using assms strip_loop_skip [of OPENVPN_CLIENT_DEFAULT_END] default_clean_lines
  by (fastforce simp: default_block_def split: option.splits)

lemma strip_loop_prefix_block:
  "strip_loop None (prefix_block prefix ipv6_enabled @ ys) = strip_loop None ys"
  by (auto simp: prefix_block_def split: option.splits)

section \<open>The lines of a rendered file\<close>

definition plain_prefix :: "ipnet option \<Rightarrow> bool" where
  "plain_prefix prefix \<longleftrightarrow> (\<forall>p. prefix = Some p \<longrightarrow> net_plain p)"

lemma default_block_clean: "l \<in> set (default_block r p d m) \<Longrightarrow> clean_line l"
  by (auto simp: default_block_def split: option.splits if_splits dest: splitlines_clean)

lemma prefix_block_clean: "plain_prefix p \<Longrightarrow> l \<in> set (prefix_block p v) \<Longrightarrow> clean_line l"
  using show_net_line by (auto simp: prefix_block_def plain_prefix_def split: option.splits if_splits)

lemma rendered_lines:
  assumes "render_client_text path original prefix d v m = Inr out" and "plain_prefix prefix"
  shows "\<exists>retained. strip_managed_sections original = Inr retained
    \<and> splitlines out = retained @ default_block retained prefix d m @ prefix_block prefix v
    \<and> (\<forall>l \<in> set (splitlines out). clean_line l) \<and> out = unlines (splitlines out)
    \<and> (prefix = None \<or> (\<forall>l \<in> set retained. \<not> starts_with ''iroute-ipv6 '' (strip l)))"
proof -
  from assms(1) obtain retained where r: "strip_managed_sections original = Inr retained"
    "prefix = None \<or> (\<forall>l \<in> set retained. \<not> starts_with ''iroute-ipv6 '' (strip l))"
    "out = (let ls = retained @ default_block retained prefix d m @ prefix_block prefix v
            in if ls = [] then [] else join [LF] (ls @ [[]]))"
    by (auto simp: render_client_text_def result_simps filter_empty_conv split: if_splits)
  let ?ls = "retained @ default_block retained prefix d m @ prefix_block prefix v"
  have c: "\<forall>l \<in> set ?ls. clean_line l"
    using strip_managed_spec [OF r(1)] default_block_clean prefix_block_clean [OF assms(2)]
    by (auto simp: user_line_def)
  have "out = unlines ?ls"
  proof (cases "?ls = []")
    case True
    then show ?thesis unfolding r(3) Let_def by (simp only: if_True) (simp add: unlines_def)
  next
    case False
    then show ?thesis unfolding r(3) Let_def by (simp only: if_False join_LF_unlines)
  qed
  then have "splitlines out = ?ls" "out = unlines (splitlines out)"
    using splitlines_unlines [of ?ls] c by auto
  then show ?thesis using r(1,2) c by auto
qed

section \<open>What a rewrite keeps\<close>

text \<open>The administrator's lines survive, whatever is written around them.\<close>

lemma strip_render:
  assumes "render_client_text path original prefix d v m = Inr out" and "plain_prefix prefix"
    and "\<forall>routes. d = Some routes \<longrightarrow> default_clean routes"
  shows "strip_managed_sections out = strip_managed_sections original"
proof -
  from rendered_lines [OF assms(1,2)] obtain retained where
    r: "strip_managed_sections original = Inr retained"
    "splitlines out = retained @ default_block retained prefix d m @ prefix_block prefix v" by blast
  note u = strip_managed_spec [OF r(1)]
  have "strip_loop None (splitlines out) = (retained, None)"
    using u strip_loop_prefix_block [of prefix v "[]"]
    by (simp add: r(2) strip_loop_append_user strip_loop_default_block [OF assms(3)])
  then show ?thesis using r(1) u drop_trailing_empty_id [of retained]
    by (simp add: strip_managed_sections_def)
qed

lemma filter_user_tag:
  "\<forall>l \<in> set ls. user_line l \<Longrightarrow> filter (starts_with OPENVPN_CLIENT_PREFIX_TAG) ls = []"
  "\<forall>l \<in> set ls. user_line l \<Longrightarrow> filter (starts_with OPENVPN_CLIENT_ROUTE_MODE_TAG) ls = []"
  by (auto simp: filter_empty_conv user_line_def tag_line_def)

lemma filter_default_tag:
  assumes "\<forall>routes. d = Some routes \<longrightarrow> default_clean routes"
  shows "filter (starts_with OPENVPN_CLIENT_PREFIX_TAG) (default_block r p d m) = []"
    and "filter (starts_with OPENVPN_CLIENT_ROUTE_MODE_TAG) (default_block r p d m) =
           (if d \<noteq> None \<and> m = ''bgp'' then [OPENVPN_CLIENT_ROUTE_MODE_TAG @ ''bgp''] else [])"
  using assms default_clean_lines
  by (auto simp: default_block_def tag_line_def filter_empty_conv split: option.splits)

lemma filter_prefix_tag:
  "filter (starts_with OPENVPN_CLIENT_PREFIX_TAG) (prefix_block p v) =
     (case p of None \<Rightarrow> [] | Some n \<Rightarrow> [OPENVPN_CLIENT_PREFIX_TAG @ show_net n])"
  "filter (starts_with OPENVPN_CLIENT_ROUTE_MODE_TAG) (prefix_block p v) = []"
  by (auto simp: prefix_block_def filter_empty_conv split: option.splits)

text \<open>A prefix that the parser accepts, without a scope id.\<close>

definition client_prefix_ok :: "ipnet \<Rightarrow> bool" where
  "client_prefix_ok p \<longleftrightarrow> net_plain p \<and> net_version p = 6 \<and> subnet_of p GLOBAL_UNICAST
     \<and> 48 \<le> prefixlen p \<and> prefixlen p \<le> 64"

lemma parse_show_prefix: "client_prefix_ok p \<Longrightarrow> parse_client_prefix (show_net p) = Inr p"
  by (simp add: parse_client_prefix_def client_prefix_ok_def ip_network_show)

lemma parse_prefix_ok:
  "parse_client_prefix value = Inr p \<Longrightarrow> addr_plain (net_addr p) \<Longrightarrow> client_prefix_ok p"
  by (auto simp: parse_client_prefix_def client_prefix_ok_def net_plain_def
      split: option.splits if_splits dest: ip_network_ok)

lemma strip_show_net: "net_plain p \<Longrightarrow> strip (show_net p) = show_net p"
  using show_net_clean by (intro strip_clean) auto

lemma prefix_of_rendered:
  assumes "render_client_text path original prefix d v m = Inr out"
    and "\<forall>p. prefix = Some p \<longrightarrow> client_prefix_ok p"
    and "\<forall>routes. d = Some routes \<longrightarrow> default_clean routes"
  shows "prefix_from_text out source = Inr prefix"
proof -
  have pp: "plain_prefix prefix" using assms(2) by (simp add: plain_prefix_def client_prefix_ok_def)
  from rendered_lines [OF assms(1) pp] obtain retained where
    r: "strip_managed_sections original = Inr retained"
    "splitlines out = retained @ default_block retained prefix d m @ prefix_block prefix v" by blast
  have "tag_values OPENVPN_CLIENT_PREFIX_TAG out = (case prefix of None \<Rightarrow> [] | Some p \<Rightarrow> [show_net p])"
    using filter_user_tag(1) strip_managed_spec [OF r(1)] assms(2) strip_show_net
    by (simp add: tag_values_def r(2) filter_default_tag(1) [OF assms(3)] filter_prefix_tag
        client_prefix_ok_def split: option.splits)
  then show ?thesis using assms(2) parse_show_prefix
    by (auto simp: prefix_from_text_def split: option.splits)
qed

lemma mode_of_rendered:
  assumes "render_client_text path original prefix (Some routes) v m = Inr out"
    and "plain_prefix prefix" and "default_clean routes"
  shows "route_mode_from_text out source = Inr (if m = ''bgp'' then ''bgp'' else ''static'')"
proof -
  have d: "\<forall>x. Some routes = Some x \<longrightarrow> default_clean x" using assms(3) by simp
  from rendered_lines [OF assms(1,2)] obtain retained where
    r: "strip_managed_sections original = Inr retained"
    "splitlines out = retained @ default_block retained prefix (Some routes) m @ prefix_block prefix v"
    by blast
  have "strip ''bgp'' = ''bgp''" by (simp add: strip_def lstrip_def rstrip_def)
  then have "tag_values OPENVPN_CLIENT_ROUTE_MODE_TAG out = (if m = ''bgp'' then [''bgp''] else [])"
    using filter_user_tag(2) strip_managed_spec [OF r(1)]
    by (simp add: tag_values_def r(2) filter_default_tag(2) [OF d] filter_prefix_tag)
  then show ?thesis by (simp add: route_mode_from_text_def)
qed

text \<open>Rendering what was rendered, with the same arguments, changes nothing.\<close>

lemma render_idempotent:
  assumes "render_client_text path original prefix d v m = Inr out" and "plain_prefix prefix"
    and "\<forall>routes. d = Some routes \<longrightarrow> default_clean routes"
  shows "render_client_text path out prefix d v m = Inr out"
  using assms(1) strip_render [OF assms] by (simp add: render_client_text_def)

section \<open>The block of routes\<close>

lemma outside_block_set:
  "outside_block path b ls = Inr kept \<Longrightarrow>
   l \<in> set kept \<Longrightarrow> l \<in> set ls \<and> l \<noteq> OPENVPN_BEGIN \<and> l \<noteq> OPENVPN_END"
  by (induction path b ls arbitrary: kept rule: outside_block.induct)
    (auto simp: result_simps split: if_splits)

lemma outside_block_append:
  assumes "\<forall>l \<in> set xs. l \<noteq> OPENVPN_BEGIN \<and> l \<noteq> OPENVPN_END"
  shows "outside_block path False (xs @ ys) = bindR (outside_block path False ys) (\<lambda>k. Inr (xs @ k))"
  using assms
proof (induction xs)
  case Nil
  then show ?case by (cases "outside_block path False ys") simp_all
next
  case (Cons x xs)
  then show ?case by (cases "outside_block path False ys") simp_all
qed

lemma outside_block_skip:
  assumes "\<forall>l \<in> set xs. l \<noteq> OPENVPN_BEGIN \<and> l \<noteq> OPENVPN_END"
  shows "outside_block path True (xs @ OPENVPN_END # ys) = outside_block path False ys"
  using assms by (induction xs) (auto simp: markers)

lemma push_route_marker [simp]: "push_route n \<noteq> OPENVPN_BEGIN" "push_route n \<noteq> OPENVPN_END"
  by (simp_all add: push_route_def markers)

lemma push_route_clean: "clean_line (show_net n) \<Longrightarrow> clean_line (push_route n)"
  by (simp add: push_route_def)

lemma set_ordered [simp]: "set (ordered ns) = set ns"
  by (simp add: ordered_def)

lemma ordered_sorted: "sorted (map net_key (ordered ns))" and ordered_distinct: "distinct (ordered ns)"
  by (simp_all add: ordered_def)

lemma outside_route_block:
  "outside_block path False (route_block ns enabled fake) = Inr []"
proof (cases enabled)
  case False
  then show ?thesis by (simp add: route_block_def)
next
  case True
  let ?f = "case fake of None \<Rightarrow> [] | Some f \<Rightarrow> if f \<in> set ns then [] else [push_route f]"
  have "outside_block path True ((map push_route (ordered ns) @ ?f) @ OPENVPN_END # []) = Inr []"
    by (subst outside_block_skip) (auto split: option.splits if_splits)
  then show ?thesis using True by (simp add: route_block_def)
qed

text \<open>The text after a rewrite: the lines outside the old block, then the new block.\<close>

lemma render_routes_spec:
  assumes "render_routes path original ns enabled fake = Inr out"
    and "\<forall>n \<in> set ns \<union> set_option fake. clean_line (show_net n)"
  shows "\<exists>kept. outside_block path False (splitlines original) = Inr kept
    \<and> splitlines out = kept @ route_block ns enabled fake
    \<and> outside_block path False (splitlines out) = Inr kept"
proof -
  from assms(1) obtain kept where k: "outside_block path False (splitlines original) = Inr kept"
    "out = join [LF] ((kept @ route_block ns enabled fake) @ [[]])"
    by (auto simp: render_routes_def result_simps)
  have "clean_line l" if "l \<in> set (kept @ route_block ns enabled fake)" for l
  proof (cases "l \<in> set kept")
    case True
    then show ?thesis using outside_block_set [OF k(1)] splitlines_clean by blast
  next
    case False
    then show ?thesis using that assms(2) push_route_clean
      by (auto simp: route_block_def split: if_splits option.splits)
  qed
  then have s: "splitlines out = kept @ route_block ns enabled fake"
    using splitlines_unlines k(2) join_LF_unlines by metis
  have "outside_block path False (splitlines out) = Inr kept"
    unfolding s using outside_block_set [OF k(1)] outside_route_block [of path ns enabled fake]
    by (subst outside_block_append) auto
  then show ?thesis using k s by blast
qed

end
