(* ===== verification/Firewall6Facts.thy ===== *)
theory Firewall6Facts
  imports Firewall6 CcdFacts
begin

text \<open>
  What the operations on the client files do to the file system: which paths they touch,
  what a client file says afterwards, and the invariant on the routed prefixes.
\<close>

section \<open>A file system without links\<close>

definition no_links :: "fs \<Rightarrow> bool" where
  "no_links fs \<longleftrightarrow> (\<forall>p. \<not> is_symlink fs p)"

definition same_except :: "string set \<Rightarrow> fs \<Rightarrow> fs \<Rightarrow> bool" where
  "same_except ps fs fs' \<longleftrightarrow> (\<forall>q. q \<notin> ps \<longrightarrow> map_of fs' q = map_of fs q)"

lemma same_except_refl [simp]: "same_except ps fs fs"
  by (simp add: same_except_def)

lemma same_except_trans: "same_except ps fs fs1 \<Longrightarrow> same_except ps fs1 fs2 \<Longrightarrow> same_except ps fs fs2"
  by (simp add: same_except_def)

lemma same_except_mono: "same_except ps fs fs' \<Longrightarrow> ps \<subseteq> qs \<Longrightarrow> same_except qs fs fs'"
  by (auto simp: same_except_def)

lemma no_links_update: "no_links fs \<Longrightarrow> (\<And>t. n \<noteq> Link t) \<Longrightarrow> no_links (AList.update p n fs)"
  by (auto simp: no_links_def is_symlink_def dict_simps split: node.splits)

lemma no_links_delete: "no_links fs \<Longrightarrow> no_links (AList.delete p fs)"
  by (auto simp: no_links_def is_symlink_def dict_simps split: node.splits option.splits)

lemma no_links_target [simp]: "no_links fs \<Longrightarrow> target fs p = Inr p"
  by (simp add: no_links_def)

lemma no_links_read: "no_links fs \<Longrightarrow> read_text fs p = node_text (map_of fs p)"
  by (simp add: no_links_def read_text_plain)

lemma no_links_node: "no_links fs \<Longrightarrow> map_of fs p = Some n \<Longrightarrow> n \<noteq> Link t"
  by (auto simp: no_links_def is_symlink_def split: node.splits option.splits)

lemma no_links_mode: "no_links fs \<Longrightarrow> stat_mode fs p = node_mode (map_of fs p)"
  by (simp add: no_links_def stat_mode_def)

text \<open>Writing a file, its permissions, and putting it in place.\<close>

definition tmp :: "string \<Rightarrow> string" where
  "tmp p = p @ ''.tmp''"

lemma tmp_neq [simp]: "tmp p \<noteq> p" "p \<noteq> tmp p"
  by (simp_all add: tmp_def)

lemma write_tmp:
  assumes "no_links fs" and "write_text (tmp p) content fs = (r, fs1)"
  shows "no_links fs1 \<and> same_except {tmp p} fs fs1
    \<and> (r = Inr () \<longrightarrow> (\<exists>m. map_of fs1 (tmp p) = Some (File content m)))"
  using assms
  by (auto simp: write_text_def same_except_def dict_simps no_links_update
      split: option.splits node.splits if_splits)

lemma chmod_tmp:
  assumes "no_links fs" and "map_of fs (tmp p) = Some (File content m)"
  shows "chmod (tmp p) mode fs = (Inr (), AList.update (tmp p) (File content mode) fs)"
  using assms by (simp add: chmod_def)

lemma replace_tmp:
  assumes "no_links fs" and "map_of fs (tmp p) = Some (File content m)"
    and "replace_file (tmp p) p fs = (r, fs')"
  shows "no_links fs' \<and> same_except {p, tmp p} fs fs'
    \<and> (r = Inr () \<longrightarrow> map_of fs' p = Some (File content m)) \<and> (r \<noteq> Inr () \<longrightarrow> fs' = fs)"
  using assms
  by (auto simp: replace_file_def same_except_def dict_simps no_links_update no_links_delete split: if_splits)

lemma ioP_iff: "ioP m fs = (r, fs') \<longleftrightarrow> (\<exists>q. m fs = (q, fs') \<and>
    r = (case q of Inl e \<Rightarrow> Inl (Uncaught e) | Inr x \<Rightarrow> Inr x))"
  by (auto simp: ioP_def split: prod.splits sum.splits)

text \<open>\<open>replace_text\<close>: done, the file has the new text; failed, it is as it was.\<close>

lemma replace_text_spec:
  assumes "no_links fs" and "replace_text p content fs = (r, fs')" and "CR \<notin> set content"
  shows "no_links fs' \<and> same_except {p, tmp p} fs fs'
    \<and> (r = Inr () \<longrightarrow> node_text (map_of fs' p) = Inr content)
    \<and> (r \<noteq> Inr () \<longrightarrow> map_of fs' p = map_of fs p)"
proof (cases "inspect fs p")
  case (Inl e)
  then show ?thesis using assms by (auto simp: replace_text_def no_links_def)
next
  case (Inr x)
  obtain mode present where x: "x = (mode, present)" by (cases x)
  have plain: "\<not> is_symlink fs p" using assms(1) by (simp add: no_links_def)
  show ?thesis
  proof (cases "present = Some content")
    case True
    then have "read_text fs p = Inr content"
      using Inr x by (auto simp: inspect_def split: sum.splits io_error.splits)
    then show ?thesis using True assms Inr x plain by (auto simp: replace_text_def no_links_read)
  next
    case False
    obtain r1 fs1 where w: "write_text (tmp p) content fs = (r1, fs1)" by fastforce
    note w1 = write_tmp [OF assms(1) w]
    show ?thesis
    proof (cases r1)
      case (Inl e)
      have "fs' = fs1" "r \<noteq> Inr ()" using assms(2) False Inr x plain w Inl
        by (auto simp: replace_text_def ioP_def bindP_def tmp_def)
      then show ?thesis using w1 same_except_mono [of "{tmp p}" fs fs1 "{p, tmp p}"]
        by (auto simp: same_except_def)
    next
      case (Inr u)
      then obtain m where m: "map_of fs1 (tmp p) = Some (File content m)" using w1 by auto
      let ?fs2 = "AList.update (tmp p) (File content mode) fs1"
      have c: "chmod (tmp p) mode fs1 = (Inr (), ?fs2)" using chmod_tmp m w1 by blast
      obtain r3 fs3 where re: "replace_file (tmp p) p ?fs2 = (r3, fs3)" by fastforce
      have n2: "no_links ?fs2" using w1 by (simp add: no_links_update)
      have "map_of ?fs2 (tmp p) = Some (File content mode)" by (simp add: dict_simps)
      note r3 = replace_tmp [OF n2 this re]
      have e: "fs' = fs3" "r = Inr () \<longleftrightarrow> r3 = Inr ()"
        using assms(2) False \<open>inspect fs p = Inr x\<close> x plain w Inr c re
        by (auto simp: replace_text_def ioP_def bindP_def tmp_def split: sum.splits)
      show ?thesis using r3 w1 e assms(3)
        by (auto simp: same_except_def dict_simps universal_id)
    qed
  qed
qed

lemma put_client_file_spec:
  assumes "no_links fs" and "put_client_file p content fs = (r, fs')" and "CR \<notin> set content"
  shows "no_links fs' \<and> same_except {p, tmp p} fs fs'
    \<and> (r = Inr () \<longrightarrow> node_text (map_of fs' p) = (if content = [] then Inl FileNotFound else Inr content))
    \<and> (r \<noteq> Inr () \<longrightarrow> map_of fs' p = map_of fs p)"
proof (cases "content = []")
  case False
  then show ?thesis using assms replace_text_spec [OF assms(1) _ assms(3)] by (simp add: put_client_file_def)
next
  case True
  then show ?thesis using assms(1,2)
    by (auto simp: put_client_file_def ioP_def unlink_def same_except_def dict_simps no_links_delete
        split: option.splits node.splits if_splits)
qed

section \<open>Paths of clients\<close>

lemma name_char_facts: "name_char c \<Longrightarrow> c \<noteq> CHR ''/'' \<and> c \<noteq> CHR ''.''"
  by (auto simp: name_char_def)

lemma client_name_facts:
  assumes "client_name_ok n"
  shows "n \<noteq> []" and "CHR ''/'' \<notin> set n" and "CHR ''.'' \<notin> set n"
  using assms name_char_facts by (auto simp: client_name_ok_def list_all_iff)

definition ccd_dirs :: "string list" where
  "ccd_dirs = [OPENVPN_CCD, OPENVPN_CCD2]"

lemma child_ccd_disjoint [simp]:
  "child OPENVPN_CCD a \<noteq> child OPENVPN_CCD2 b" "child OPENVPN_CCD2 a \<noteq> child OPENVPN_CCD b"
  "tmp (child OPENVPN_CCD a) \<noteq> child OPENVPN_CCD2 b" "tmp (child OPENVPN_CCD2 a) \<noteq> child OPENVPN_CCD b"
  "child OPENVPN_CCD2 b \<noteq> tmp (child OPENVPN_CCD a)" "child OPENVPN_CCD b \<noteq> tmp (child OPENVPN_CCD2 a)"
  by (simp_all add: child_def OPENVPN_CCD_def OPENVPN_CCD2_def tmp_def)

lemma tmp_child: "tmp (child d a) = child d (a @ ''.tmp'')"
  by (simp add: tmp_def child_def)

lemma client_not_tmp:
  assumes "client_name_ok n"
  shows "child d n \<noteq> tmp (child d a)"
  using client_name_facts(3) [OF assms] by (auto simp: tmp_child)

lemma default_path: "OPENVPN_DEFAULT = child OPENVPN_CCD ''DEFAULT''"
  by (simp add: OPENVPN_DEFAULT_def child_def)

lemma default_name_ok: "client_name_ok ''DEFAULT''"
  by (simp add: client_name_ok_def name_char_def)

definition client_paths :: "string \<Rightarrow> string set" where
  "client_paths n = {child d n | d. d \<in> set ccd_dirs} \<union> {tmp (child d n) | d. d \<in> set ccd_dirs}"

lemma other_client_path:
  assumes "client_name_ok m" and "m \<noteq> n" and "d \<in> set ccd_dirs"
  shows "child d m \<notin> client_paths n"
  using assms client_not_tmp [OF assms(1)] by (auto simp: client_paths_def ccd_dirs_def)

section \<open>What the client files say\<close>

definition claims :: "fs \<Rightarrow> string \<Rightarrow> ipnet set" where
  "claims fs n = {p. \<exists>d \<in> set ccd_dirs. prefix_of_file fs n d = Inr (Some p)}"

text \<open>A client file without links: its prefix depends on its node alone.\<close>

lemma prefix_of_file_node:
  assumes "no_links fs" and "client_name_ok n"
  shows "prefix_of_file fs n d =
    (case node_text (map_of fs (child d n)) of
       Inr t \<Rightarrow> prefix_from_text t (child d n)
     | Inl FileNotFound \<Rightarrow> Inr None
     | Inl OsError \<Rightarrow> Inl (RuntimeErr (CannotRead (child d n)))
     | Inl UnicodeError \<Rightarrow> Inl (Uncaught UnicodeError))"
  using assms by (simp add: prefix_of_file_def client_path_def validate_client_name_def
      read_optional_def no_links_read split: sum.splits io_error.splits)

lemma prefix_of_file_cong:
  assumes "no_links fs" and "no_links fs'" and "map_of fs' (child d n) = map_of fs (child d n)"
  shows "prefix_of_file fs' n d = prefix_of_file fs n d"
proof (cases "client_name_ok n")
  case True
  then show ?thesis using assms by (simp add: prefix_of_file_node)
next
  case False
  then show ?thesis by (simp add: prefix_of_file_def client_path_def validate_client_name_def)
qed

lemma claims_other:
  assumes "no_links fs" and "no_links fs'" and "same_except (client_paths n) fs fs'"
    and "client_name_ok m" and "m \<noteq> n"
  shows "claims fs' m = claims fs m"
  using assms other_client_path [OF assms(4,5)] prefix_of_file_cong [OF assms(1,2)]
  by (simp add: claims_def same_except_def)

text \<open>The default routes as the program reads them.\<close>

definition default_state_ok :: "fs \<Rightarrow> bool" where
  "default_state_ok fs \<longleftrightarrow> (\<forall>t. read_required fs OPENVPN_DEFAULT = Inr t \<longrightarrow> default_clean t)"

definition prefix_arg_ok :: "ipnet option \<Rightarrow> bool" where
  "prefix_arg_ok prefix \<longleftrightarrow> (\<forall>p. prefix = Some p \<longrightarrow> client_prefix_ok p)"

lemma prefix_arg_plain: "prefix_arg_ok prefix \<Longrightarrow> plain_prefix prefix"
  by (simp add: prefix_arg_ok_def plain_prefix_def client_prefix_ok_def)

lemma rendered_no_CR:
  assumes "render_client_text path original prefix d v m = Inr out" and "plain_prefix prefix"
  shows "CR \<notin> set out"
proof -
  from rendered_lines [OF assms] have u: "out = unlines (splitlines out)"
    "\<forall>l \<in> set (splitlines out). clean_line l" by blast+
  from unlines_no_CR [OF u(2)] u(1) show ?thesis by simp
qed

text \<open>What a client file is rewritten to, in one of the two directories.\<close>

definition original_text :: "fs \<Rightarrow> string \<Rightarrow> (fw_error, string) result" where
  "original_text fs path = bindR (read_optional fs path) (\<lambda>t. Inr (case t of None \<Rightarrow> [] | Some x \<Rightarrow> x))"

definition routes_for :: "fs \<Rightarrow> string \<Rightarrow> string option" where
  "routes_for fs d =
     (if d = OPENVPN_CCD then (case read_required fs OPENVPN_DEFAULT of Inr t \<Rightarrow> Some t | Inl e \<Rightarrow> None)
      else None)"

definition new_text :: "fs \<Rightarrow> string \<Rightarrow> ipnet option \<Rightarrow> bool \<Rightarrow> string \<Rightarrow> string \<Rightarrow> (fw_error, string) result" where
  "new_text fs name prefix v m d =
     bindR (original_text fs (child d name)) (\<lambda>t.
       render_client_text (child d name) t prefix (routes_for fs d) v m)"

lemma ccd_neq [simp]: "OPENVPN_CCD \<noteq> OPENVPN_CCD2" "OPENVPN_CCD2 \<noteq> OPENVPN_CCD"
  by (simp_all add: OPENVPN_CCD_def OPENVPN_CCD2_def)

lemma rendered_pair_iff:
  "rendered_pair name prefix v m fs = Inr ((p1, c1), (p2, c2)) \<longleftrightarrow>
     m \<in> {''static'', ''bgp''} \<and> (\<exists>t. read_openvpn_default fs = Inr t) \<and> client_name_ok name
     \<and> p1 = child OPENVPN_CCD name \<and> p2 = child OPENVPN_CCD2 name
     \<and> new_text fs name prefix v m OPENVPN_CCD = Inr c1 \<and> new_text fs name prefix v m OPENVPN_CCD2 = Inr c2"
  by (auto simp: rendered_pair_def result_simps client_path_def validate_client_name_def new_text_def
      original_text_def render_client_config_def routes_for_def read_openvpn_default_def)

lemma node_file_iff: "node_text n = Inr t \<longleftrightarrow> (\<exists>s m. n = Some (File s m) \<and> t = universal s)"
  by (cases n rule: node_text.cases) auto

text \<open>The file of a directory after the program has put its text there.\<close>

definition holds_text :: "fs \<Rightarrow> string \<Rightarrow> string \<Rightarrow> bool" where
  "holds_text fs path content \<longleftrightarrow>
     node_text (map_of fs path) = (if content = [] then Inl FileNotFound else Inr content)"

lemma holds_text_original: "no_links fs \<Longrightarrow> holds_text fs path content \<Longrightarrow> original_text fs path = Inr content"
  by (auto simp: holds_text_def original_text_def read_optional_def no_links_read split: if_splits)

lemma write_client_config_spec:
  assumes nl: "no_links fs" and dc: "default_state_ok fs" and pa: "prefix_arg_ok prefix"
    and w: "write_client_config name prefix v m fs = (r, fs')"
  shows "no_links fs' \<and> same_except (client_paths name) fs fs'
    \<and> (\<forall>d \<in> set ccd_dirs. map_of fs' (child d name) = map_of fs (child d name) \<or>
         (\<exists>c. new_text fs name prefix v m d = Inr c \<and> holds_text fs' (child d name) c))
    \<and> (r = Inr () \<longrightarrow> client_name_ok name \<and> (\<forall>d \<in> set ccd_dirs.
         \<exists>c. new_text fs name prefix v m d = Inr c \<and> holds_text fs' (child d name) c))
    \<and> (\<forall>e. rendered_pair name prefix v m fs = Inl e \<longrightarrow> r = Inl e \<and> fs' = fs)"
proof (cases "rendered_pair name prefix v m fs")
  case (Inl e)
  then show ?thesis using w nl by (auto simp: write_client_config_def)
next
  case (Inr x)
  obtain p1 c1 p2 c2 where x: "x = ((p1, c1), (p2, c2))" by (metis prod.collapse)
  note c = Inr [unfolded x, unfolded rendered_pair_iff]
  have dcl: "\<forall>routes. routes_for fs d = Some routes \<longrightarrow> default_clean routes" for d
    using dc by (auto simp: routes_for_def default_state_ok_def split: sum.splits if_splits)
  have cr: "CR \<notin> set c1" "CR \<notin> set c2"
    using c rendered_no_CR prefix_arg_plain [OF pa] by (auto simp: new_text_def result_simps)
  obtain r1 fs1 where s1: "put_client_file p1 c1 fs = (r1, fs1)" by fastforce
  note f1 = put_client_file_spec [OF nl s1 cr(1)]
  have d1: "child OPENVPN_CCD2 name \<notin> {p1, tmp p1}" using c by auto
  have sub: "{p1, tmp p1} \<subseteq> client_paths name" "{p2, tmp p2} \<subseteq> client_paths name"
    using c by (auto simp: client_paths_def ccd_dirs_def)
  have mid: "write_client_config name prefix v m fs = bindP (put_client_file p1 c1) (\<lambda>_. put_client_file p2 c2) fs"
    using Inr x by (simp add: write_client_config_def bindP_def)
  show ?thesis
  proof (cases r1)
    case (Inl e)
    then have e: "r = Inl e" "fs' = fs1" using w s1 by (simp_all add: mid)
    have "map_of fs1 (child OPENVPN_CCD2 name) = map_of fs (child OPENVPN_CCD2 name)"
      using f1 d1 by (simp add: same_except_def)
    moreover have "map_of fs1 (child OPENVPN_CCD name) = map_of fs (child OPENVPN_CCD name)"
      using f1 Inl c by simp
    moreover have "same_except (client_paths name) fs fs1" using f1 same_except_mono [OF _ sub(1)] by blast
    ultimately show ?thesis using f1 e \<open>rendered_pair name prefix v m fs = Inr x\<close> x
      by (simp add: ccd_dirs_def)
  next
    case (Inr u)
    then have s2: "put_client_file p2 c2 fs1 = (r, fs')" using w s1 by (simp add: mid)
    note f2 = put_client_file_spec [OF _ s2 cr(2)]
    have f2': "no_links fs'" "same_except {p2, tmp p2} fs1 fs'" using f2 f1 by blast+
    have "child OPENVPN_CCD name \<notin> {p2, tmp p2}" using c by auto
    then have k1: "map_of fs' p1 = map_of fs1 p1" using f2'(2) c by (auto simp: same_except_def)
    have h1: "holds_text fs' p1 c1" using f1 Inr k1 by (simp add: holds_text_def)
    have k2: "map_of fs1 p2 = map_of fs p2" using f1 d1 c by (auto simp: same_except_def)
    have "same_except (client_paths name) fs fs'"
      using f1 f2'(2) same_except_mono [OF _ sub(1)] same_except_mono [OF _ sub(2)] same_except_trans by blast
    moreover have "r = Inr () \<Longrightarrow> holds_text fs' p2 c2" using f2 f1 by (simp add: holds_text_def)
    moreover have "r \<noteq> Inr () \<Longrightarrow> map_of fs' p2 = map_of fs p2" using f2 f1 k2 by simp
    ultimately show ?thesis using h1 c f2'(1) Inr \<open>rendered_pair name prefix v m fs = Inr x\<close>
      by (cases "r = Inr ()") (auto simp: ccd_dirs_def)
  qed
qed

lemma routes_for_clean:
  "default_state_ok fs \<Longrightarrow> \<forall>routes. routes_for fs d = Some routes \<longrightarrow> default_clean routes"
  by (auto simp: routes_for_def default_state_ok_def split: sum.splits if_splits)

lemma new_text_prefix:
  assumes "no_links fs'" and "client_name_ok name" and "default_state_ok fs" and "prefix_arg_ok prefix"
    and "new_text fs name prefix v m d = Inr c" and "holds_text fs' (child d name) c"
  shows "prefix_of_file fs' name d = Inr prefix"
proof -
  from assms(5) obtain t where t: "render_client_text (child d name) t prefix (routes_for fs d) v m = Inr c"
    by (auto simp: new_text_def result_simps)
  have pc: "prefix_from_text c (child d name) = Inr prefix"
    using prefix_of_rendered [OF t _ routes_for_clean [OF assms(3)]] assms(4) by (simp add: prefix_arg_ok_def)
  have "prefix_from_text [] (child d name) = Inr None"
    by (simp add: prefix_from_text_def tag_values_def splitlines_def)
  then show ?thesis using pc assms(6)
    by (cases "c = []") (auto simp: prefix_of_file_node [OF assms(1,2)] holds_text_def)
qed

text \<open>Whatever the outcome, the prefixes a client claims are old ones or the one written.\<close>

lemma claims_after:
  assumes nl: "no_links fs" and dc: "default_state_ok fs" and pa: "prefix_arg_ok prefix"
    and w: "write_client_config name prefix v m fs = (r, fs')"
  shows "claims fs' name \<subseteq> claims fs name \<union> set_option prefix"
    and "r = Inr () \<Longrightarrow> claims fs' name = set_option prefix"
    and "r = Inr () \<Longrightarrow> read_client_prefix fs' name = Inr prefix"
proof -
  note sp = write_client_config_spec [OF assms]
  have ok: "client_name_ok name \<or> (claims fs' name = {} \<and> r \<noteq> Inr ())"
    using sp by (cases "client_name_ok name")
      (auto simp: claims_def prefix_of_file_def client_path_def validate_client_name_def)
  have new: "prefix_of_file fs' name d = Inr prefix"
    if "client_name_ok name" "new_text fs name prefix v m d = Inr c" "holds_text fs' (child d name) c" for d c
    using new_text_prefix [OF _ that(1) dc pa that(2,3)] sp by blast
  have "prefix_of_file fs' name d = prefix_of_file fs name d \<or> prefix_of_file fs' name d = Inr prefix"
    if "client_name_ok name" "d \<in> set ccd_dirs" for d
    using sp new that prefix_of_file_cong [OF nl] by metis
  then have "p \<in> claims fs name \<or> prefix = Some p" if "client_name_ok name" "p \<in> claims fs' name" for p
    using that unfolding claims_def by fastforce
  then show "claims fs' name \<subseteq> claims fs name \<union> set_option prefix"
    using ok by (cases "client_name_ok name") auto
  assume r: "r = Inr ()"
  then have both: "\<forall>d \<in> set ccd_dirs. prefix_of_file fs' name d = Inr prefix" using sp new by blast
  then show "claims fs' name = set_option prefix" by (auto simp: claims_def ccd_dirs_def)
  show "read_client_prefix fs' name = Inr prefix"
    using both by (cases prefix) (simp_all add: read_client_prefix_def ccd_dirs_def map_filter_simps)
qed

section \<open>The invariant on the routed prefixes\<close>

definition client :: "string \<Rightarrow> bool" where
  "client n \<longleftrightarrow> client_name_ok n \<and> n \<noteq> ''DEFAULT''"

definition disjoint_claims :: "fs \<Rightarrow> bool" where
  "disjoint_claims fs \<longleftrightarrow> (\<forall>n m p q. client n \<and> client m \<and> n \<noteq> m
     \<and> p \<in> claims fs n \<and> q \<in> claims fs m \<longrightarrow> \<not> overlaps p q)"

definition fw_inv :: "fs \<Rightarrow> bool" where
  "fw_inv fs \<longleftrightarrow> no_links fs \<and> default_state_ok fs
     \<and> (\<forall>n. client n \<longrightarrow> claims fs n \<subseteq> Collect client_prefix_ok) \<and> disjoint_claims fs"

lemma overlaps_sym: "overlaps a b = overlaps b a"
  by (auto simp: overlaps_def)

text \<open>A prefix that may be written for a client: no other client claims what it overlaps.\<close>

definition free_for :: "fs \<Rightarrow> string \<Rightarrow> ipnet \<Rightarrow> bool" where
  "free_for fs name p \<longleftrightarrow> (\<forall>m q. client m \<and> m \<noteq> name \<and> q \<in> claims fs m \<longrightarrow> \<not> overlaps p q)"

lemma write_client_config_inv:
  assumes inv: "fw_inv fs" and c: "name \<noteq> ''DEFAULT''"
    and p: "\<And>p. prefix = Some p \<Longrightarrow> client_prefix_ok p \<and> free_for fs name p"
    and w: "write_client_config name prefix v m fs = (r, fs')"
  shows "fw_inv fs' \<and> (\<forall>n. client n \<and> n \<noteq> name \<longrightarrow> claims fs' n = claims fs n)
    \<and> claims fs' name \<subseteq> claims fs name \<union> set_option prefix"
proof -
  have nl: "no_links fs" and dc: "default_state_ok fs" using inv by (simp_all add: fw_inv_def)
  have pa: "prefix_arg_ok prefix" using p by (simp add: prefix_arg_ok_def)
  note sp = write_client_config_spec [OF nl dc pa w]
  have others: "claims fs' n = claims fs n" if "client n" "n \<noteq> name" for n
    using claims_other [OF nl _ _ _ that(2)] that(1) sp by (simp add: client_def)
  note own = claims_after(1) [OF nl dc pa w]
  have "OPENVPN_DEFAULT \<notin> client_paths name"
    using other_client_path [OF default_name_ok, of name] c by (simp add: default_path ccd_dirs_def)
  then have "read_required fs' OPENVPN_DEFAULT = read_required fs OPENVPN_DEFAULT"
    using sp nl by (simp add: read_required_def no_links_read same_except_def)
  then have "default_state_ok fs'" using dc by (simp add: default_state_ok_def)
  moreover have "claims fs' n \<subseteq> Collect client_prefix_ok" if "client n" for n
  proof (cases "n = name")
    case True
    have "claims fs name \<subseteq> Collect client_prefix_ok" "set_option prefix \<subseteq> Collect client_prefix_ok"
      using inv p that True by (auto simp: fw_inv_def)
    then show ?thesis using own True by blast
  next
    case False
    then show ?thesis using inv others that by (simp add: fw_inv_def)
  qed
  moreover have "disjoint_claims fs'"
    unfolding disjoint_claims_def
  proof (intro allI impI)
    fix n k a b
    assume h: "client n \<and> client k \<and> n \<noteq> k \<and> a \<in> claims fs' n \<and> b \<in> claims fs' k"
    have old: "\<not> overlaps x y" if "client i" "client j" "i \<noteq> j" "x \<in> claims fs i" "y \<in> claims fs j" for i j x y
      using inv that by (auto simp: fw_inv_def disjoint_claims_def)
    have mine: "\<not> overlaps x y" if "x \<in> claims fs' name" "client name" "client j" "j \<noteq> name" "y \<in> claims fs j" for x y j
      using that own old [of name j x y] p by (auto simp: free_for_def)
    show "\<not> overlaps a b"
    proof (cases "n = name")
      case True
      then show ?thesis using mine [of a k b] h others [of k] by auto
    next
      case False
      then show ?thesis using h others [of n] others [of k] old [of n k a b] mine [of b n a] overlaps_sym
        by (cases "k = name") auto
    qed
  qed
  ultimately show ?thesis using sp others own by (simp add: fw_inv_def)
qed

section \<open>Checking against the other clients\<close>

lemma tag_value_contains: "tag_values tag text \<noteq> [] \<Longrightarrow> contains tag text"
  using contains_line by (auto simp: tag_values_def filter_empty_conv)

lemma map_filter_id: "x \<in> set (List.map_filter id xs) \<longleftrightarrow> Some x \<in> set xs"
  by (force simp: List.map_filter_def)

text \<open>A client whose files claim a prefix is among the managed names.\<close>

lemma claims_managed:
  assumes nl: "no_links fs" and c: "client m" and q: "q \<in> claims fs m"
    and names: "managed_client_names fs = Inr names"
  shows "m \<in> set names"
proof -
  from q obtain d where d: "d \<in> set ccd_dirs" "prefix_of_file fs m d = Inr (Some q)" by (auto simp: claims_def)
  have ok: "client_name_ok m" and nd: "m \<noteq> ''DEFAULT''" using c by (simp_all add: client_def)
  from d(2) obtain t where t: "node_text (map_of fs (child d m)) = Inr t" "prefix_from_text t (child d m) = Inr (Some q)"
    by (auto simp: prefix_of_file_node [OF nl ok] split: sum.splits io_error.splits)
  then have "tag_values OPENVPN_CLIENT_PREFIX_TAG t \<noteq> []" by (auto simp: prefix_from_text_def)
  then have man: "managed_text t" using tag_value_contains by (simp add: managed_text_def)
  from t(1) obtain s k where n: "map_of fs (child d m) = Some (File s k)" by (auto simp: node_file_iff)
  have "is_file fs (child d m)" using nl n by (simp add: is_file_plain no_links_def)
  moreover have "read_required fs (child d m) = Inr t"
    using t(1) nl by (simp add: read_required_def no_links_read)
  ultimately have e: "managed_entry fs d m = Inr (Some m)"
    using nd man ok by (simp add: managed_entry_def validate_client_name_def)
  have it: "m \<in> set (iterdir fs d)" using client_name_facts [OF ok] n by (simp add: iterdir_mem)
  from names obtain found where f:
    "traverseR (\<lambda>directory. traverseR (managed_entry fs directory) (iterdir fs directory)) ccd_dirs = Inr found"
    "names = remdups (List.map_filter id (concat found))"
    by (auto simp: managed_client_names_def result_simps ccd_dirs_def simp del: traverseR.simps)
  from traverseR_left [OF f(1) d(1)] obtain es where
    es: "es \<in> set found" "traverseR (managed_entry fs d) (iterdir fs d) = Inr es" by blast
  from traverseR_left [OF es(2) it] e have "Some m \<in> set es" by auto
  then show ?thesis using es(1) f(2) by (auto simp: map_filter_id)
qed

text \<open>A client that reads without error claims nothing but what is read.\<close>

lemma claims_read:
  assumes "read_client_prefix fs m = Inr v"
  shows "claims fs m = set_option v"
proof -
  from assms obtain a b where ab: "prefix_of_file fs m OPENVPN_CCD = Inr a" "prefix_of_file fs m OPENVPN_CCD2 = Inr b"
    "(case remdups (List.map_filter id [a, b]) of [] \<Rightarrow> Inr None | [p] \<Rightarrow> Inr (Some p)
      | _ \<Rightarrow> Inl (RuntimeErr (InconsistentPrefixes m))) = (Inr v :: (fw_error, ipnet option) result)"
    by (auto simp: read_client_prefix_def result_simps)
  then show ?thesis
    by (cases a; cases b) (auto simp: claims_def ccd_dirs_def map_filter_simps split: if_splits)
qed

lemma foldR_unit: "foldR f () xs = Inr () \<longleftrightarrow> (\<forall>x \<in> set xs. f () x = Inr ())"
  by (induction xs) (auto simp: result_simps)

lemma validate_unique_free:
  assumes nl: "no_links fs" and v: "validate_unique_client_prefix fs name p = Inr u"
  shows "free_for fs name p"
  unfolding free_for_def
proof (intro allI impI)
  fix m q
  assume h: "client m \<and> m \<noteq> name \<and> q \<in> claims fs m"
  from v obtain names where names: "managed_client_names fs = Inr names"
    "\<forall>x \<in> set (filter (\<lambda>other. other \<noteq> name) names). check_other fs p () x = Inr ()"
    by (auto simp: validate_unique_client_prefix_def result_simps foldR_unit)
  have "m \<in> set names" using claims_managed [OF nl _ _ names(1)] h by blast
  then have "check_other fs p () m = Inr ()" using names(2) h by simp
  then show "\<not> overlaps p q"
    using claims_read [of fs m] h by (auto simp: check_other_def result_simps split: option.splits if_splits)
qed

lemma managed_names_clients:
  assumes "managed_client_names fs = Inr names" and "n \<in> set names"
  shows "client n"
proof -
  from assms obtain found where f:
    "traverseR (\<lambda>directory. traverseR (managed_entry fs directory) (iterdir fs directory)) ccd_dirs = Inr found"
    "names = remdups (List.map_filter id (concat found))"
    by (auto simp: managed_client_names_def result_simps ccd_dirs_def simp del: traverseR.simps)
  from assms(2) f(2) obtain es where es: "es \<in> set found" "Some n \<in> set es" by (auto simp: map_filter_id)
  from traverseR_right [OF f(1) es(1)] obtain d where
    "traverseR (managed_entry fs d) (iterdir fs d) = Inr es" by blast
  from traverseR_right [OF this es(2)] obtain k where "managed_entry fs d k = Inr (Some n)" by blast
  then show ?thesis
    by (auto simp: managed_entry_def result_simps validate_client_name_def client_def split: if_splits)
qed

end
