(* ===== verification/Firewall6Ops.thy ===== *)
theory Firewall6Ops
  imports Firewall6Facts
begin

text \<open>
  The operations of \<open>firewall6-lists.py\<close> keep the invariant on the client files, whatever
  their outcome.
\<close>

section \<open>Writes elsewhere\<close>

lemma write_file_frame:
  assumes "no_links fs" and "write_file p ns fs = (r, fs')"
  shows "no_links fs' \<and> same_except {p, tmp p} fs fs'"
proof -
  obtain r1 fs1 where w: "write_text (tmp p) (unlines (map show_net (ordered ns))) fs = (r1, fs1)" by fastforce
  note w1 = write_tmp [OF assms(1) w]
  show ?thesis
  proof (cases r1)
    case (Inl e)
    then have "fs' = fs1" using assms(2) w by (auto simp: write_file_def tmp_def bindP_def ioP_def)
    then show ?thesis using w1 same_except_mono [of "{tmp p}"] by blast
  next
    case (Inr u)
    then obtain m where m: "map_of fs1 (tmp p) = Some (File (unlines (map show_net (ordered ns))) m)"
      using w1 by auto
    obtain r2 where "replace_file (tmp p) p fs1 = (r2, fs')"
      using assms(2) w Inr by (auto simp: write_file_def tmp_def bindP_def ioP_def split: prod.splits sum.splits)
    from replace_tmp [OF conjunct1 [OF w1] m this] w1 show ?thesis
      using same_except_mono [of "{tmp p}" fs fs1 "{p, tmp p}"] same_except_trans by blast
  qed
qed

text \<open>A change outside the client files and the default routes.\<close>

definition quiet :: "fs \<Rightarrow> fs \<Rightarrow> bool" where
  "quiet fs fs' \<longleftrightarrow> no_links fs' \<and> (\<forall>n d. client_name_ok n \<and> d \<in> set ccd_dirs \<longrightarrow>
     map_of fs' (child d n) = map_of fs (child d n))"

lemma fw_inv_cong:
  assumes "fw_inv fs" and "no_links fs'" and "default_state_ok fs'"
    and c: "\<And>n. client n \<Longrightarrow> claims fs' n = claims fs n"
  shows "fw_inv fs'"
proof -
  have "disjoint_claims fs'"
    unfolding disjoint_claims_def
  proof (intro allI impI)
    fix n m p q
    assume "client n \<and> client m \<and> n \<noteq> m \<and> p \<in> claims fs' n \<and> q \<in> claims fs' m"
    then have "client n" "client m" "n \<noteq> m" "p \<in> claims fs n" "q \<in> claims fs m" using c by auto
    then show "\<not> overlaps p q" using assms(1) by (auto simp: fw_inv_def disjoint_claims_def)
  qed
  then show ?thesis using assms by (simp add: fw_inv_def)
qed

lemma quiet_inv:
  assumes "fw_inv fs" and "quiet fs fs'"
  shows "fw_inv fs' \<and> (\<forall>n. client_name_ok n \<longrightarrow> claims fs' n = claims fs n)"
proof -
  have nl: "no_links fs" using assms(1) by (simp add: fw_inv_def)
  have c: "claims fs' n = claims fs n" if "client_name_ok n" for n
    using assms(2) that prefix_of_file_cong [OF nl] by (simp add: claims_def quiet_def)
  have "map_of fs' OPENVPN_DEFAULT = map_of fs OPENVPN_DEFAULT"
    using assms(2) default_name_ok by (simp add: quiet_def default_path ccd_dirs_def)
  then have "read_required fs' OPENVPN_DEFAULT = read_required fs OPENVPN_DEFAULT"
    using assms(2) nl by (simp add: read_required_def no_links_read quiet_def)
  then have "default_state_ok fs'" using assms(1) by (simp add: fw_inv_def default_state_ok_def)
  then have "fw_inv fs'" using fw_inv_cong [OF assms(1)] assms(2) c by (simp add: quiet_def client_def)
  then show ?thesis using c by blast
qed

lemma foreign_paths:
  "child RESULT f \<noteq> child OPENVPN_CCD n" "child RESULT f \<noteq> child OPENVPN_CCD2 n"
  "tmp (child RESULT f) \<noteq> child OPENVPN_CCD n" "tmp (child RESULT f) \<noteq> child OPENVPN_CCD2 n"
  "DOWNLOAD_CACHE \<noteq> child OPENVPN_CCD n" "DOWNLOAD_CACHE \<noteq> child OPENVPN_CCD2 n"
  "tmp DOWNLOAD_CACHE \<noteq> child OPENVPN_CCD n" "tmp DOWNLOAD_CACHE \<noteq> child OPENVPN_CCD2 n"
  by (simp_all add: child_def RESULT_def ROOT_def OPENVPN_CCD_def OPENVPN_CCD2_def tmp_def DOWNLOAD_CACHE_def)

lemma write_file_quiet:
  assumes "no_links fs" and "write_file p ns fs = (r, fs')" and "p = DOWNLOAD_CACHE \<or> p = child RESULT f"
  shows "quiet fs fs'"
  using write_file_frame [OF assms(1,2)] assms(3) foreign_paths foreign_paths [symmetric]
  by (auto simp: quiet_def same_except_def ccd_dirs_def)

section \<open>The pushed routes\<close>

definition printable_nets :: "ipnet list \<Rightarrow> bool" where
  "printable_nets ns \<longleftrightarrow> (\<forall>n \<in> set ns. clean_line (show_net n))"

lemma line_network_clean: "line_network l = Some n \<Longrightarrow> clean_line (show_net n)"
proof -
  assume "line_network l = Some n"
  then have n: "ip_network False (concat (words (strip (before (CHR ''#'') l)))) = Some n"
    by (auto simp: line_network_def Let_def split: if_splits option.splits)
  have "\<forall>c \<in> set (concat (words (strip (before (CHR ''#'') l)))). \<not> is_eol c"
    using words_not_space is_eol_is_space by fastforce
  from ip_network_line [OF n this] show ?thesis .
qed

lemma read_paths_clean: "printable_nets (read_paths fs ps)"
  using line_network_clean
  by (force simp: printable_nets_def read_paths_def text_networks_def List.map_filter_def split: sum.splits)

lemma default_tmp_paths:
  assumes "client_name_ok n" and "n \<noteq> ''DEFAULT''" and "d \<in> set ccd_dirs"
  shows "child d n \<notin> {OPENVPN_DEFAULT, tmp OPENVPN_DEFAULT}"
  using assms client_not_tmp [OF assms(1), of OPENVPN_CCD "''DEFAULT''"]
  by (auto simp: default_path ccd_dirs_def)

lemma write_routes_inv:
  assumes inv: "fw_inv fs" and pr: "printable_nets (ns @ (case fk of None \<Rightarrow> [] | Some f \<Rightarrow> [f]))"
    and w: "write_openvpn_routes OPENVPN_DEFAULT ns en fk fs = (r, fs')"
  shows "fw_inv fs' \<and> (\<forall>n. client n \<longrightarrow> claims fs' n = claims fs n)"
proof -
  have nl: "no_links fs" and dc: "default_state_ok fs" using inv by (simp_all add: fw_inv_def)
  let ?new = "bindR (read_optional fs OPENVPN_DEFAULT) (\<lambda>t.
       render_routes OPENVPN_DEFAULT (case t of None \<Rightarrow> [] | Some x \<Rightarrow> x) ns en fk)"
  show ?thesis
  proof (cases ?new)
    case (Inl e)
    then have "fs' = fs" using w by (simp add: write_openvpn_routes_def)
    then show ?thesis using inv by simp
  next
    case (Inr out)
    then have re: "replace_text OPENVPN_DEFAULT out fs = (r, fs')"
      using w by (simp add: write_openvpn_routes_def)
    from Inr obtain t where t: "read_optional fs OPENVPN_DEFAULT = Inr t"
      "render_routes OPENVPN_DEFAULT (case t of None \<Rightarrow> [] | Some x \<Rightarrow> x) ns en fk = Inr out"
      by (auto simp: result_simps)
    have cl: "\<forall>n \<in> set ns \<union> set_option fk. clean_line (show_net n)"
      using pr by (auto simp: printable_nets_def split: option.splits)
    from render_routes_spec [OF t(2) cl] obtain kept where k:
      "outside_block OPENVPN_DEFAULT False (splitlines (case t of None \<Rightarrow> [] | Some x \<Rightarrow> x)) = Inr kept"
      "splitlines out = kept @ route_block ns en fk" by blast
    have "default_clean (case t of None \<Rightarrow> [] | Some x \<Rightarrow> x)"
      using t(1) dc by (auto simp: read_optional_def read_required_def default_state_ok_def default_clean_def
          splitlines_def split: sum.splits io_error.splits option.splits)
    moreover have "l \<noteq> OPENVPN_CLIENT_DEFAULT_END \<and> \<not> tag_line l" if "l \<in> set (route_block ns en fk)" for l
      using that by (auto simp: route_block_def markers push_route_def tag_line_def starts_with_def
          split: if_splits option.splits)
    ultimately have new: "default_clean out"
      using outside_block_set [OF k(1)] unfolding default_clean_def k(2) by auto
    have "CR \<notin> set out"
    proof -
      have "out = join [LF] ((kept @ route_block ns en fk) @ [[]])"
        using t(2) k(1) by (simp add: render_routes_def)
      then have "out = unlines (splitlines out)" unfolding k(2) join_LF_unlines .
      moreover have "\<forall>l \<in> set (splitlines out). clean_line l" using splitlines_clean by blast
      ultimately show ?thesis using unlines_no_CR by metis
    qed
    note sp = replace_text_spec [OF nl re this]
    have same: "map_of fs' (child d n) = map_of fs (child d n)" if "client n" "d \<in> set ccd_dirs" for d n
      using sp default_tmp_paths [OF _ _ that(2)] that(1) by (simp add: same_except_def client_def)
    then have c: "claims fs' n = claims fs n" if "client n" for n
      using that prefix_of_file_cong [OF nl] sp by (simp add: claims_def)
    have "default_state_ok fs'"
    proof (cases "r = Inr ()")
      case True
      then show ?thesis using sp new by (simp add: default_state_ok_def read_required_def no_links_read)
    next
      case False
      then have "read_required fs' OPENVPN_DEFAULT = read_required fs OPENVPN_DEFAULT"
        using sp nl by (simp add: read_required_def no_links_read)
      then show ?thesis using dc by (simp add: default_state_ok_def)
    qed
    then show ?thesis using fw_inv_cong [OF inv] sp c by blast
  qed
qed

section \<open>The operations on one client\<close>

abbreviation keeps_fw :: "(fs, fw_error, 'a) prog \<Rightarrow> bool" where
  "keeps_fw m \<equiv> keepsP fw_inv m (\<lambda>_. True)"

lemma write_config_keeps:
  assumes "fw_inv fs" and "name \<noteq> ''DEFAULT''"
    and "\<And>p. prefix = Some p \<Longrightarrow> client_prefix_ok p \<and> free_for fs name p"
    and "write_client_config name prefix v m fs = (r, fs')"
  shows "fw_inv fs'"
  using write_client_config_inv [OF assms] by blast

lemma set_client_prefix_keeps:
  assumes "name \<noteq> ''DEFAULT''" and "CHR ''%'' \<notin> set value"
  shows "keeps_fw (set_client_prefix env name value)"
  unfolding keepsP_def
proof (intro allI impI)
  fix fs r fs'
  assume inv: "fw_inv fs" and op: "set_client_prefix env name value fs = (r, fs')"
  let ?g = "bindR (validate_client_name name) (\<lambda>_.
       bindR (parse_client_prefix value) (\<lambda>prefix.
       bindR (validate_unique_client_prefix fs name prefix) (\<lambda>_.
       bindR (read_client_route_mode fs name) (\<lambda>route_mode.
         Inr (prefix, if bgp_enable env then route_mode else ''static'')))))"
  have "fw_inv fs'"
  proof (cases ?g)
    case (Inl e)
    then show ?thesis using op inv by (simp add: set_client_prefix_def)
  next
    case (Inr x)
    then obtain p m where x: "x = (p, m)" "parse_client_prefix value = Inr p"
      "validate_unique_client_prefix fs name p = Inr ()" by (auto simp: result_simps)
    have "client_prefix_ok p" using parse_prefix_ok [OF x(2)] x(2) assms(2) ip_network_no_scope
      by (auto simp: parse_client_prefix_def split: option.splits if_splits)
    moreover have "free_for fs name p" using validate_unique_free [OF _ x(3)] inv by (simp add: fw_inv_def)
    moreover have "write_client_config name (Some p) (\<not> disable_ipv6 env) m fs = (r, fs')"
      using op Inr x(1) by (simp add: set_client_prefix_def)
    ultimately show ?thesis using write_config_keeps [OF inv assms(1)] by blast
  qed
  then show "fw_inv fs' \<and> (\<forall>x. r = Inr x \<longrightarrow> True)" by simp
qed

lemma claimed_free:
  assumes "fw_inv fs" and "client n" and "p \<in> claims fs n"
  shows "client_prefix_ok p" and "free_for fs n p"
  using assms unfolding fw_inv_def free_for_def disjoint_claims_def by blast+

lemma set_client_route_mode_keeps:
  assumes "name \<noteq> ''DEFAULT''"
  shows "keeps_fw (set_client_route_mode env name mode)"
  unfolding keepsP_def
proof (intro allI impI)
  fix fs r fs'
  assume inv: "fw_inv fs" and op: "set_client_route_mode env name mode fs = (r, fs')"
  let ?g = "bindR (validate_client_name name) (\<lambda>_.
       bindR (requireR (mode \<in> {''static'', ''bgp''}) (RuntimeErr ModeNotStaticOrBgp)) (\<lambda>_.
       bindR (requireR (\<not> (mode = ''bgp'' \<and> \<not> bgp_enable env)) (RuntimeErr BgpDisabled)) (\<lambda>_.
         read_client_prefix fs name)))"
  have "fw_inv fs'"
  proof (cases ?g)
    case (Inl e)
    then show ?thesis using op inv by (simp add: set_client_route_mode_def)
  next
    case (Inr prefix)
    then have name: "client_name_ok name" and rd: "read_client_prefix fs name = Inr prefix"
      by (auto simp: result_simps validate_client_name_def split: if_splits)
    then have "client name" using assms by (simp add: client_def)
    then have "client_prefix_ok p \<and> free_for fs name p" if "prefix = Some p" for p
      using claimed_free [OF inv \<open>client name\<close>] claims_read [OF rd] that by simp
    moreover have "write_client_config name prefix (\<not> disable_ipv6 env) mode fs = (r, fs')"
      using op Inr by (simp add: set_client_route_mode_def)
    ultimately show ?thesis using write_config_keeps [OF inv assms] by blast
  qed
  then show "fw_inv fs' \<and> (\<forall>x. r = Inr x \<longrightarrow> True)" by simp
qed

text \<open>A client file that goes away takes its claim with it.\<close>

lemma unlink_keeps:
  assumes inv: "fw_inv fs" and n: "client name" and d: "d \<in> set ccd_dirs"
    and u: "unlink (child d name) fs = (r, fs')"
  shows "fw_inv fs'"
proof (cases "fs' = fs")
  case True
  then show ?thesis using inv by simp
next
  case False
  then have fs': "fs' = AList.delete (child d name) fs"
    using u by (auto simp: unlink_def split: option.splits node.splits)
  have nl: "no_links fs" "no_links fs'" using inv no_links_delete by (auto simp: fw_inv_def fs')
  have ok: "client_name_ok name" using n by (simp add: client_def)
  have pf: "prefix_of_file fs' m e = (if m = name \<and> e = d then Inr None else prefix_of_file fs m e)"
    if m: "client_name_ok m" "e \<in> set ccd_dirs" for m e
  proof (cases "child e m = child d name")
    case True
    then have "m = name" "e = d" using that d by (auto simp: ccd_dirs_def)
    then show ?thesis using nl ok by (simp add: prefix_of_file_node fs' dict_simps)
  next
    case False
    then have "map_of fs' (child e m) = map_of fs (child e m)" by (simp add: fs' dict_simps)
    then show ?thesis using False prefix_of_file_cong [OF nl] by auto
  qed
  have sub: "claims fs' m \<subseteq> claims fs m" if "client m" for m
    using that by (auto simp: claims_def client_def pf split: if_splits)
  have "OPENVPN_DEFAULT \<noteq> child d name" using n d by (auto simp: default_path ccd_dirs_def client_def)
  then have "read_required fs' OPENVPN_DEFAULT = read_required fs OPENVPN_DEFAULT"
    using nl by (simp add: read_required_def no_links_read fs' dict_simps)
  then have "default_state_ok fs'" using inv by (simp add: fw_inv_def default_state_ok_def)
  moreover have "disjoint_claims fs'"
    using inv sub unfolding fw_inv_def disjoint_claims_def by (meson subsetD)
  ultimately show ?thesis using inv nl sub unfolding fw_inv_def by (meson subset_trans)
qed

lemma delete_files_keeps:
  assumes "name \<noteq> ''DEFAULT''" and "set ds \<subseteq> set ccd_dirs"
  shows "keeps_fw (delete_files name ds)"
  using assms(2)
proof (induction ds)
  case Nil
  then show ?case by (simp add: keepsP_def)
next
  case (Cons d ds)
  then have IH: "keeps_fw (delete_files name ds)" by simp
  show ?case
    unfolding keepsP_def
  proof (intro allI impI)
    fix fs r fs'
    assume inv: "fw_inv fs" and op: "delete_files name (d # ds) fs = (r, fs')"
    show "fw_inv fs' \<and> (\<forall>x. r = Inr x \<longrightarrow> True)"
    proof (cases "client_name_ok name")
      case False
      then show ?thesis using op inv by (simp add: client_path_def validate_client_name_def)
    next
      case True
      have "fs' = fs \<or> delete_files name ds fs = (r, fs')
          \<or> bindP (ioP (unlink (child d name))) (\<lambda>_. delete_files name ds) fs = (r, fs')"
        using op True by (auto simp: client_path_def validate_client_name_def split: sum.splits option.splits)
      moreover have "keepsP fw_inv (bindP (ioP (unlink (child d name))) (\<lambda>_. delete_files name ds)) (\<lambda>_. True)"
      proof (rule keepsP_bind [OF _ IH])
        have "client name" using True assms(1) by (simp add: client_def)
        then show "keeps_fw (ioP (unlink (child d name)))"
          using unlink_keeps Cons.prems unfolding keepsP_def ioP_iff by auto
      qed
      ultimately show ?thesis using inv IH unfolding keepsP_def by blast
    qed
  qed
qed

lemma clear_client_prefix_keeps:
  assumes "name \<noteq> ''DEFAULT''"
  shows "keeps_fw (clear_client_prefix env name del)"
  unfolding clear_client_prefix_def
proof (rule keepsP_bind)
  show "keepsP fw_inv (getsP (\<lambda>_. validate_client_name name)) (\<lambda>_. True)" by (rule keepsP_gets) simp
  have "keeps_fw (write_client_config name None v m)" for v m
    unfolding keepsP_def using write_config_keeps [OF _ assms] by blast
  then show "keeps_fw (if \<not> del then bindP (getsP (\<lambda>fs. bindR (read_client_route_mode fs name) (\<lambda>route_mode.
             Inr (if bgp_enable env then route_mode else ''static''))))
           (\<lambda>route_mode. write_client_config name None (\<not> disable_ipv6 env) route_mode)
       else delete_files name [OPENVPN_CCD, OPENVPN_CCD2])"
    using delete_files_keeps [OF assms, of "[OPENVPN_CCD, OPENVPN_CCD2]"]
    by (auto simp: ccd_dirs_def intro!: keepsP_bind [where P = "\<lambda>_. True"] keepsP_gets)
qed

section \<open>All clients\<close>

lemma checked_prefixes_spec:
  assumes "checked_prefixes fs = Inr prefixes" and "x \<in> set prefixes"
  shows "client (fst x) \<and> read_client_prefix fs (fst x) = Inr (snd x)
    \<and> (\<forall>p. snd x = Some p \<longrightarrow> validate_unique_client_prefix fs (fst x) p = Inr ())"
proof -
  from assms(1) obtain names where n: "managed_client_names fs = Inr names"
    "traverseR (checked_prefix fs) names = Inr prefixes" by (auto simp: checked_prefixes_def result_simps)
  from traverseR_right [OF n(2) assms(2)] obtain k where k: "k \<in> set names" "checked_prefix fs k = Inr x" by blast
  from k(2) obtain v where v: "read_client_prefix fs k = Inr v" "x = (k, v)"
    "\<And>p. v = Some p \<Longrightarrow> validate_unique_client_prefix fs k p = Inr ()"
    by (cases "read_client_prefix fs k") (auto simp: checked_prefix_def result_simps split: option.splits)
  then show ?thesis using managed_names_clients [OF n(1) k(1)] by simp
qed

text \<open>Writing the checked prefixes one after the other: no client's claim grows.\<close>

lemma sync_keeps: "keeps_fw (sync_client_configs v b)"
  unfolding keepsP_def
proof (intro allI impI)
  fix fs0 r fs'
  assume inv: "fw_inv fs0" and op: "sync_client_configs v b fs0 = (r, fs')"
  show "fw_inv fs' \<and> (\<forall>x. r = Inr x \<longrightarrow> True)"
  proof (cases "checked_prefixes fs0")
    case (Inl e)
    then show ?thesis using op inv by (simp add: sync_client_configs_def)
  next
    case (Inr prefixes)
    define I where "I fs \<longleftrightarrow> fw_inv fs \<and> (\<forall>n. client n \<longrightarrow> claims fs n \<subseteq> claims fs0 n)" for fs
    have "I fs2" if x: "x \<in> set prefixes" and I: "I fs1" and s: "sync_client v b x fs1 = (q, fs2)" for x fs1 q fs2
    proof (cases "if b then read_client_route_mode fs1 (fst x) else Inr ''static''")
      case (Inl e)
      then show ?thesis using s I by (simp add: sync_client_def split: if_splits)
    next
      case (Inr m)
      then have w: "write_client_config (fst x) (snd x) v m fs1 = (q, fs2)"
        using s by (simp add: sync_client_def split: if_splits)
      note ch = checked_prefixes_spec [OF \<open>checked_prefixes fs0 = Inr prefixes\<close> x]
      have inv1: "fw_inv fs1" using I by (simp add: I_def)
      have sub: "set_option (snd x) \<subseteq> claims fs0 (fst x)" using claims_read ch by fastforce
      have "client_prefix_ok p \<and> free_for fs1 (fst x) p" if "snd x = Some p" for p
      proof -
        have p: "p \<in> claims fs0 (fst x)" using sub that by simp
        have "free_for fs0 (fst x) p" using claimed_free(2) [OF inv _ p] ch by blast
        then have "free_for fs1 (fst x) p" using I unfolding I_def free_for_def by blast
        then show ?thesis using claimed_free(1) [OF inv _ p] ch by blast
      qed
      from write_client_config_inv [OF inv1 _ this w] ch have
        k: "fw_inv fs2" "\<And>n. client n \<Longrightarrow> n \<noteq> fst x \<Longrightarrow> claims fs2 n = claims fs1 n"
        "claims fs2 (fst x) \<subseteq> claims fs1 (fst x) \<union> set_option (snd x)" by (auto simp: client_def)
      have "claims fs2 n \<subseteq> claims fs0 n" if "client n" for n
        using I k(2) [OF that] k(3) sub that unfolding I_def by (cases "n = fst x") blast+
      then show ?thesis using k(1) by (simp add: I_def)
    qed
    moreover have "I fs0" using inv by (simp add: I_def)
    moreover have "forP (sync_client v b) (sort_key fst prefixes) fs0 = (r, fs')"
      using op Inr by (simp add: sync_client_configs_def)
    ultimately have "I fs'"
      using forP_preserves [where I = I and f = "sync_client v b" and xs = "sort_key fst prefixes"
          and s = fs0 and r = r and t = fs'] by (metis set_sort)
    then show ?thesis by (simp add: I_def)
  qed
qed

section \<open>The program\<close>

lemma write_result_keeps: "keeps_fw (write_result f ns)"
  unfolding keepsP_def write_result_def
proof (intro allI impI)
  fix fs r fs'
  assume inv: "fw_inv fs" and w: "write_file (child RESULT f) ns fs = (r, fs')"
  have "quiet fs fs'" using write_file_quiet [OF _ w, of f] inv by (simp add: fw_inv_def)
  then show "fw_inv fs' \<and> (\<forall>x. r = Inr x \<longrightarrow> True)" using quiet_inv [OF inv] by blast
qed

lemma list_of_keeps: "keepsP fw_inv (list_of suffix) printable_nets"
  unfolding list_of_def using read_paths_clean by (intro keepsP_gets) (auto simp: read_networks_def)

lemma downloaded_keeps: "keepsP fw_inv (downloaded_networks refresh) printable_nets"
proof -
  have w: "keeps_fw (write_file DOWNLOAD_CACHE ns)" for ns
    unfolding keepsP_def
  proof (intro allI impI)
    fix fs r fs'
    assume inv: "fw_inv fs" and w: "write_file DOWNLOAD_CACHE ns fs = (r, fs')"
    have "quiet fs fs'" using write_file_quiet [OF _ w, of "[]"] inv by (simp add: fw_inv_def)
    then show "fw_inv fs' \<and> (\<forall>x. r = Inr x \<longrightarrow> True)" using quiet_inv [OF inv] by blast
  qed
  have rd: "keepsP fw_inv (getsP (\<lambda>fs. Inr (read_paths fs ps))) printable_nets" for ps
    using read_paths_clean by (intro keepsP_gets) auto
  have fresh: "keepsP fw_inv (bindP (getsP (\<lambda>fs. Inr (read_paths fs ps))) (\<lambda>networks.
      bindP (write_file DOWNLOAD_CACHE networks) (\<lambda>_. retP networks))) printable_nets" for ps
    by (intro keepsP_bind [OF rd] keepsP_bind [OF w] keepsP_ret)
  have paths: "keeps_fw (getsP (\<lambda>fs. Inr (matching_paths fs pats)))" for pats
    by (rule keepsP_gets) simp
  show ?thesis
    unfolding downloaded_networks_def
    by (intro keepsP_bind [OF paths]) (simp add: fresh rd)
qed

lemma write_routes_keeps:
  "printable_nets (ns @ (case fk of None \<Rightarrow> [] | Some f \<Rightarrow> [f])) \<Longrightarrow>
   keeps_fw (write_openvpn_routes OPENVPN_DEFAULT ns en fk)"
  unfolding keepsP_def using write_routes_inv by blast

lemma fake_network_clean: "fw_fake_ipv6_network p a = Inr n \<Longrightarrow> clean_line (show_net n)"
proof -
  assume a: "fw_fake_ipv6_network p a = Inr n"
  have "net_plain ALTERNATIVE_FAKE_IPV6_NETWORK"
    by (simp add: ALTERNATIVE_FAKE_IPV6_NETWORK_def eval_simps)
  moreover have "net_plain (subnet_at m FAKE_IPV6_SUBNET FAKE_IPV6_PREFIX_LENGTH)"
    if "ip_network True p = Some m" "net_version m = 6" "prefixlen m = 48" for m
    using subnet_at_spec(1) [OF ip_network_ok [OF that(1)] that(2,3), of FAKE_IPV6_SUBNET]
    by (simp add: FAKE_IPV6_SUBNET_def FAKE_IPV6_PREFIX_LENGTH_def)
  ultimately have "net_plain n"
    using a by (auto simp: fw_fake_ipv6_network_def split: if_splits option.splits)
  then show ?thesis by (rule show_net_line)
qed

lemma update_all_keeps: "keeps_fw (update_all env refresh)"
  unfolding update_all_def Let_def
proof (intro keepsP_bind [OF downloaded_keeps] keepsP_bind [OF list_of_keeps])
  fix d i e :: "ipnet list"
  assume "printable_nets d" "printable_nets i"
  let ?r = "filter (\<lambda>n. n \<notin> set e) (remdups (d @ i))"
  let ?fk = "getsP (\<lambda>_. fw_fake_ipv6_network
         (if vpn_ipv6_prefix env = [] then DEFAULT_IPV6_PREFIX else vpn_ipv6_prefix env)
         (alternative_fake_ipv6 env)) :: (fs, fw_error, ipnet) prog"
  have r: "printable_nets ?r" using \<open>printable_nets d\<close> \<open>printable_nets i\<close> by (auto simp: printable_nets_def)
  have fk: "keepsP fw_inv ?fk (\<lambda>f. clean_line (show_net f))"
    using fake_network_clean by (intro keepsP_gets) blast
  have routes: "keeps_fw (write_openvpn_routes OPENVPN_DEFAULT ?r True (Some f))" if "clean_line (show_net f)" for f
    using r that by (intro write_routes_keeps) (auto simp: printable_nets_def)
  have l: "keeps_fw (bindP (list_of s) g)" if "\<And>x. keeps_fw (g x)" for s g
    using that by (intro keepsP_bind [OF list_of_keeps]) blast
  show "keeps_fw (bindP ?fk (\<lambda>fake_network.
     bindP (write_result ''route-ips6.txt'' ?r) (\<lambda>_.
     bindP (write_openvpn_routes OPENVPN_DEFAULT ?r True (Some fake_network)) (\<lambda>_.
     bindP (sync_client_configs True (bgp_enable env)) (\<lambda>_.
     bindP (bindP (list_of ''allow-ips.txt'') (write_result ''allow-ips6.txt'')) (\<lambda>_.
     bindP (bindP (list_of ''deny-ips.txt'') (write_result ''deny-ips6.txt'')) (\<lambda>_.
     bindP (bindP (list_of ''drop-ips.txt'') (write_result ''drop-ips6.txt'')) (\<lambda>_.
     bindP (bindP (list_of ''forward-ips.txt'') (\<lambda>f.
         write_result ''forward-ips6.txt'' (remdups (?r @ f)))) (\<lambda>_. retP None)))))))))"
    by (intro keepsP_bind [OF fk] keepsP_bind [OF write_result_keeps] keepsP_bind [OF routes]
        keepsP_bind [OF sync_keeps] keepsP_bind [OF l] write_result_keeps keepsP_ret) simp_all
qed

text \<open>An action on a client other than the shared default file, its prefix without a scope id.\<close>

fun proper_action :: "action \<Rightarrow> bool" where
  "proper_action (SetPrefix name value) \<longleftrightarrow> name \<noteq> ''DEFAULT'' \<and> CHR ''%'' \<notin> set value"
| "proper_action (SetRouteMode name mode) \<longleftrightarrow> name \<noteq> ''DEFAULT''"
| "proper_action (ClearPrefix name) \<longleftrightarrow> name \<noteq> ''DEFAULT''"
| "proper_action (DeleteConfig name) \<longleftrightarrow> name \<noteq> ''DEFAULT''"
| "proper_action _ \<longleftrightarrow> True"

lemma fw_main_keeps:
  assumes "proper_action a"
  shows "keeps_fw (fw_main env a)"
proof -
  have off: "keeps_fw (bindP (write_openvpn_routes OPENVPN_DEFAULT [] False None) (\<lambda>_.
      bindP (sync_client_configs False (bgp_enable env)) (\<lambda>_. retP None)))"
    by (intro keepsP_bind [OF write_routes_keeps] keepsP_bind [OF sync_keeps] keepsP_ret)
      (simp_all add: printable_nets_def)
  have fin: "keeps_fw m \<Longrightarrow> keeps_fw (bindP m (\<lambda>_. retP None))" for m :: "(fs, fw_error, unit) prog"
    by (intro keepsP_bind keepsP_ret) simp_all
  show ?thesis
    using assms off update_all_keeps [of env]
    by (cases a) (auto simp: fw_main_def Let_def intro: keepsP_gets fin set_client_prefix_keeps
        set_client_route_mode_keeps clear_client_prefix_keeps)
qed

end
