(* ===== verification/Firewall6Props.thy ===== *)
theory Firewall6Props
  imports Firewall6Ops
begin

text \<open>
  The properties of \<open>firewall6-lists.py\<close>, with witnesses at a file system that holds only
  the default routes, and a client that has no files yet.
\<close>

section \<open>A client without files\<close>

lemma put_new_file:
  assumes "no_links fs" and "map_of fs p = None" and "map_of fs (tmp p) = None"
  shows "\<exists>fs'. put_client_file p c fs = (Inr (), fs')"
proof (cases "c = []")
  case True
  then show ?thesis using assms by (auto simp: put_client_file_def)
next
  case False
  have "\<exists>fs'. replace_text p c fs = (Inr (), fs')" using assms
    by (simp add: replace_text_def no_links_def inspect_def stat_mode_def ioP_def bindP_def
        write_text_def chmod_def replace_file_def dict_simps tmp_def is_symlink_def)
  then show ?thesis using False by (simp add: put_client_file_def)
qed

lemma put_keeps_missing:
  assumes "no_links fs" and "put_client_file p c fs = (r, fs')" and "CR \<notin> set c"
    and "q \<notin> {p, tmp p}" and "map_of fs q = None"
  shows "map_of fs' q = None"
  using put_client_file_spec [OF assms(1-3)] assms(4,5) by (simp add: same_except_def)

lemma original_missing:
  "no_links fs \<Longrightarrow> map_of fs p = None \<Longrightarrow> read_optional fs p = Inr None"
  by (simp add: read_optional_def no_links_read)

lemma render_empty:
  "prefix = None \<or> True \<Longrightarrow> \<exists>c. render_client_text p [] prefix d v m = Inr c"
  by (simp add: render_client_text_def strip_managed_sections_def splitlines_def drop_trailing_empty_def)

lemma write_fresh_client:
  assumes "no_links fs" and "client_name_ok name" and "m \<in> {''static'', ''bgp''}"
    and "read_required fs OPENVPN_DEFAULT = Inr t" and "prefix_arg_ok prefix"
    and "\<And>q. q \<in> client_paths name \<Longrightarrow> map_of fs q = None"
  shows "\<exists>fs'. write_client_config name prefix v m fs = (Inr (), fs')"
proof -
  let ?p1 = "child OPENVPN_CCD name" and ?p2 = "child OPENVPN_CCD2 name"
  have miss: "map_of fs ?p1 = None" "map_of fs ?p2 = None" "map_of fs (tmp ?p1) = None" "map_of fs (tmp ?p2) = None"
    using assms(6) by (auto simp: client_paths_def ccd_dirs_def)
  obtain c1 c2 where c: "render_client_text ?p1 [] prefix (Some t) v m = Inr c1"
    "render_client_text ?p2 [] prefix None v m = Inr c2" using render_empty by metis
  have cr: "CR \<notin> set c1" "CR \<notin> set c2"
    using rendered_no_CR c prefix_arg_plain [OF assms(5)] by blast+
  have pair: "rendered_pair name prefix v m fs = Inr ((?p1, c1), (?p2, c2))"
    using assms(2-4) miss original_missing [OF assms(1)] c
    by (simp add: rendered_pair_def requireR_def read_openvpn_default_def client_path_def
        validate_client_name_def render_client_config_def)
  obtain fs1 where s1: "put_client_file ?p1 c1 fs = (Inr (), fs1)"
    using put_new_file [OF assms(1) miss(1,3)] by blast
  have nl1: "no_links fs1" using put_client_file_spec [OF assms(1) s1 cr(1)] by blast
  have "tmp ?p2 \<notin> {?p1, tmp ?p1}" "?p2 \<notin> {?p1, tmp ?p1}"
    by (auto simp: tmp_child)
  then have "map_of fs1 ?p2 = None" "map_of fs1 (tmp ?p2) = None"
    using put_keeps_missing [OF assms(1) s1 cr(1)] miss by blast+
  then obtain fs2 where "put_client_file ?p2 c2 fs1 = (Inr (), fs2)" using put_new_file [OF nl1] by blast
  then show ?thesis using pair s1 by (simp add: write_client_config_def bindP_def)
qed

section \<open>A concrete file system\<close>

definition ex_fs :: fs where
  "ex_fs = [(OPENVPN_DEFAULT, File ''topology subnet'' 420)]"

definition ex_env :: env where
  "ex_env = \<lparr>bgp_enable = False, disable_ipv6 = False, vpn_ipv6_prefix = [], alternative_fake_ipv6 = False\<rparr>"

definition ex_net :: ipnet where
  "ex_net = \<lparr>net_addr = V6 (0x20010db80001 * 2 ^ 80) None, prefixlen = 48\<rparr>"

lemma ex_prefix: "ip_network strict ''2001:db8:1::/48'' = Some ex_net"
  unfolding ex_net_def by (rule ip_network_eval) (simp_all add: eval_simps)

lemma ex_parse: "parse_client_prefix ''2001:db8:1::/48'' = Inr ex_net"
  by (simp add: parse_client_prefix_def ex_prefix) (simp add: ex_net_def net_version_def subnet_of_def
      GLOBAL_UNICAST_def addr_le_def net_int_def broadcast_int_def num_addresses_def width_def)

lemma ex_net_ok: "client_prefix_ok ex_net"
  using parse_prefix_ok [OF ex_parse] by (simp add: ex_net_def)

lemma ex_links: "no_links ex_fs"
  by (simp add: no_links_def is_symlink_def ex_fs_def)

lemma ex_default: "read_required ex_fs OPENVPN_DEFAULT = Inr ''topology subnet''"
  by (simp add: read_required_def no_links_read [OF ex_links]) (simp add: ex_fs_def)

lemma ex_default_ok: "default_state_ok ex_fs"
  by (simp add: default_state_ok_def ex_default default_clean_def splitlines_def tag_line_def
      starts_with_def markers)

lemma ex_missing: "p \<noteq> OPENVPN_DEFAULT \<Longrightarrow> map_of ex_fs p = None"
  by (simp add: ex_fs_def)

lemma ex_claims: "client n \<Longrightarrow> claims ex_fs n = {}"
  using default_tmp_paths [of n] ex_missing
  by (auto simp: claims_def client_def prefix_of_file_node [OF ex_links])

lemma ex_inv: "fw_inv ex_fs"
  using ex_claims by (auto simp: fw_inv_def ex_links ex_default_ok disjoint_claims_def)

lemma ex_client_paths: "client n \<Longrightarrow> q \<in> client_paths n \<Longrightarrow> map_of ex_fs q = None"
  using ex_missing default_tmp_paths [of n]
  by (auto simp: client_paths_def client_def tmp_child default_path ccd_dirs_def)

lemma ex_managed: "managed_client_names ex_fs = Inr []"
  by (simp add: managed_client_names_def iterdir_def ex_fs_def keys_def in_dir_def default_path child_def
      OPENVPN_CCD_def OPENVPN_CCD2_def starts_with_def managed_entry_def map_filter_simps)

lemma ex_alice: "client ''alice''"
  by (simp add: client_def client_name_ok_def name_char_def)

lemma ex_set: "\<exists>fs'. set_client_prefix ex_env ''alice'' ''2001:db8:1::/48'' ex_fs = (Inr (), fs')"
proof -
  have a: "client_name_ok ''alice''" using ex_alice by (simp add: client_def)
  have "child OPENVPN_CCD ''alice'' \<noteq> OPENVPN_DEFAULT" by (simp add: default_path)
  then have "read_client_route_mode ex_fs ''alice'' = Inr ''static''"
    using a original_missing [OF ex_links ex_missing]
    by (simp add: read_client_route_mode_def client_path_def validate_client_name_def)
  moreover have "\<exists>fs'. write_client_config ''alice'' (Some ex_net) v ''static'' ex_fs = (Inr (), fs')" for v
    using ex_client_paths [OF ex_alice] ex_net_ok
    by (intro write_fresh_client [OF ex_links a _ ex_default]) (auto simp: prefix_arg_ok_def)
  ultimately show ?thesis
    by (simp add: set_client_prefix_def validate_client_name_def a ex_parse
        validate_unique_client_prefix_def ex_managed ex_env_def)
qed

section \<open>Properties\<close>


text \<open>a prefix that was assigned to a client reads back, as the network the argument
  denotes, a global IPv6 network of length 48 to 64.\<close>

theorem set_then_read_prefix:
  assumes "no_links fs" and "default_state_ok fs" and "CHR ''%'' \<notin> set value"
    and "set_client_prefix env name value fs = (Inr (), fs')"
  shows "\<exists>p. ip_network True value = Some p \<and> read_client_prefix fs' name = Inr (Some p)
    \<and> net_range p \<subseteq> net_range GLOBAL_UNICAST \<and> 48 \<le> prefixlen p \<and> prefixlen p \<le> 64"
proof -
  from assms(4) obtain p m where p: "parse_client_prefix value = Inr p"
    "write_client_config name (Some p) (\<not> disable_ipv6 env) m fs = (Inr (), fs')"
    by (auto simp: set_client_prefix_def result_simps split: prod.splits sum.splits)
  from p(1) have v: "ip_network True value = Some p" by (auto simp: parse_client_prefix_def split: option.splits if_splits)
  then have ok: "client_prefix_ok p" using parse_prefix_ok [OF p(1)] ip_network_no_scope assms(3) by blast
  have "read_client_prefix fs' name = Inr (Some p)"
    using claims_after(3) [OF assms(1,2) _ p(2)] ok by (simp add: prefix_arg_ok_def)
  then show ?thesis using v ok subnet_of_range by (auto simp: client_prefix_ok_def)
qed

lemma set_then_read_prefix_witness:
  "\<exists>fs'. set_client_prefix ex_env ''alice'' ''2001:db8:1::/48'' ex_fs = (Inr (), fs')
     \<and> read_client_prefix fs' ''alice'' = Inr (Some ex_net)"
proof -
  obtain fs' where fs': "set_client_prefix ex_env ''alice'' ''2001:db8:1::/48'' ex_fs = (Inr (), fs')"
    using ex_set by blast
  show ?thesis using set_then_read_prefix [OF ex_links ex_default_ok _ fs'] fs' ex_prefix by auto
qed


text \<open>rewriting the files of a client, whatever prefix and mode it is given, keeps the
  administrator's own lines of both files, in their order; afterwards the file in the first
  directory says the mode that was asked for.\<close>

theorem write_config_keeps_user_lines:
  assumes "no_links fs" and "default_state_ok fs" and "prefix_arg_ok prefix"
    and "write_client_config name prefix v m fs = (Inr (), fs')"
  shows "(\<forall>d \<in> set ccd_dirs. \<exists>old new. original_text fs (child d name) = Inr old
            \<and> original_text fs' (child d name) = Inr new
            \<and> strip_managed_sections new = strip_managed_sections old)
    \<and> read_client_route_mode fs' name = Inr m"
proof -
  note sp = write_client_config_spec [OF assms]
  have ok: "client_name_ok name" and nl': "no_links fs'" using sp by blast+
  have m: "m \<in> {''static'', ''bgp''}"
    using assms(4) by (auto simp: write_client_config_def rendered_pair_def result_simps
        split: sum.splits prod.splits)
  have each: "\<exists>old new. original_text fs (child d name) = Inr old \<and> original_text fs' (child d name) = Inr new
      \<and> strip_managed_sections new = strip_managed_sections old
      \<and> render_client_text (child d name) old prefix (routes_for fs d) v m = Inr new"
    if d: "d \<in> set ccd_dirs" for d
  proof -
    from sp d obtain c where c: "new_text fs name prefix v m d = Inr c" "holds_text fs' (child d name) c" by blast
    from c(1) obtain t where t: "original_text fs (child d name) = Inr t"
      "render_client_text (child d name) t prefix (routes_for fs d) v m = Inr c"
      by (auto simp: new_text_def result_simps)
    then show ?thesis
      using strip_render [OF t(2) prefix_arg_plain [OF assms(3)] routes_for_clean [OF assms(2)]]
        holds_text_original [OF nl' c(2)] by blast
  qed
  from assms(4) obtain routes where routes: "read_required fs OPENVPN_DEFAULT = Inr routes"
    by (auto simp: write_client_config_def rendered_pair_def result_simps read_openvpn_default_def
        split: sum.splits prod.splits)
  have "OPENVPN_CCD \<in> set ccd_dirs" by (simp add: ccd_dirs_def)
  from each [OF this] obtain old new where new: "original_text fs' (child OPENVPN_CCD name) = Inr new"
    "render_client_text (child OPENVPN_CCD name) old prefix (Some routes) v m = Inr new"
    by (auto simp: routes_for_def routes)
  have "default_clean routes" using assms(2) routes by (simp add: default_state_ok_def)
  note mode = mode_of_rendered [OF new(2) prefix_arg_plain [OF assms(3)] this, of "child OPENVPN_CCD name"]
  have "read_client_route_mode fs' name = route_mode_from_text new (child OPENVPN_CCD name)"
  proof -
    obtain t where "read_optional fs' (child OPENVPN_CCD name) = Inr t" "new = (case t of None \<Rightarrow> [] | Some x \<Rightarrow> x)"
      using new(1) by (auto simp: original_text_def result_simps)
    moreover have "route_mode_from_text [] p = Inr ''static''" for p
      by (simp add: route_mode_from_text_def tag_values_def splitlines_def)
    ultimately show ?thesis using ok
      by (cases t) (simp_all add: read_client_route_mode_def client_path_def validate_client_name_def)
  qed
  then show ?thesis using each mode m by fastforce
qed

lemma write_config_keeps_user_lines_witness:
  "\<exists>fs'. write_client_config ''alice'' (Some ex_net) True ''bgp'' ex_fs = (Inr (), fs')
     \<and> read_client_route_mode fs' ''alice'' = Inr ''bgp''"
proof -
  have pa: "prefix_arg_ok (Some ex_net)" using ex_net_ok by (simp add: prefix_arg_ok_def)
  have a: "client_name_ok ''alice''" using ex_alice by (simp add: client_def)
  obtain fs' where "write_client_config ''alice'' (Some ex_net) True ''bgp'' ex_fs = (Inr (), fs')"
    using write_fresh_client [OF ex_links a _ ex_default pa ex_client_paths [OF ex_alice], of "''bgp''" True]
    by auto
  then show ?thesis using write_config_keeps_user_lines [OF ex_links ex_default_ok pa] by blast
qed

text \<open>the synchronisation either leaves the file system as it is, or every managed client
  could be read and no two of them claim overlapping prefixes: a conflict is found before the
  first file is written.\<close>

theorem sync_checks_before_writing:
  assumes "no_links fs" and "sync_client_configs v b fs = (r, fs')"
  shows "fs' = fs \<or> (\<exists>names. managed_client_names fs = Inr names
    \<and> (\<forall>n \<in> set names. \<exists>x. read_client_prefix fs n = Inr x
    \<and> (\<forall>k \<in> set names. \<forall>p q. k \<noteq> n \<and> x = Some p \<and> read_client_prefix fs k = Inr (Some q)
         \<longrightarrow> \<not> overlaps p q)))"
proof (cases "checked_prefixes fs")
  case (Inl e)
  then show ?thesis using assms(2) by (simp add: sync_client_configs_def)
next
  case (Inr prefixes)
  then obtain names where n: "managed_client_names fs = Inr names"
    "traverseR (checked_prefix fs) names = Inr prefixes" by (auto simp: checked_prefixes_def result_simps)
  have "\<exists>x. read_client_prefix fs k = Inr x \<and> (\<forall>p. x = Some p \<longrightarrow> free_for fs k p)" if k: "k \<in> set names" for k
  proof -
    from traverseR_left [OF n(2) k] obtain x where "checked_prefix fs k = Inr x" by blast
    then show ?thesis using validate_unique_free [OF assms(1)]
      by (auto simp: checked_prefix_def result_simps split: option.splits)
  qed
  moreover have "q \<in> claims fs k" "client k" if "k \<in> set names" "read_client_prefix fs k = Inr (Some q)" for k q
    using claims_read that managed_names_clients [OF n(1)] by auto
  ultimately have "\<forall>n \<in> set names. \<exists>x. read_client_prefix fs n = Inr x
    \<and> (\<forall>k \<in> set names. \<forall>p q. k \<noteq> n \<and> x = Some p \<and> read_client_prefix fs k = Inr (Some q)
         \<longrightarrow> \<not> overlaps p q)"
    unfolding free_for_def by meson
  then show ?thesis using n(1) by blast
qed

text \<open>A state with one router client.\<close>

lemma ex_managed_after:
  assumes "set_client_prefix ex_env ''alice'' ''2001:db8:1::/48'' ex_fs = (Inr (), fs')"
  shows "no_links fs'" and "read_client_prefix fs' ''alice'' = Inr (Some ex_net)"
proof -
  from assms have w: "write_client_config ''alice'' (Some ex_net) True ''static'' ex_fs = (Inr (), fs')"
    by (auto simp: set_client_prefix_def result_simps ex_parse ex_env_def split: prod.splits sum.splits)
  have pa: "prefix_arg_ok (Some ex_net)" using ex_net_ok by (simp add: prefix_arg_ok_def)
  show "no_links fs'" using write_client_config_spec [OF ex_links ex_default_ok pa w] by blast
  show "read_client_prefix fs' ''alice'' = Inr (Some ex_net)"
    using claims_after(3) [OF ex_links ex_default_ok pa w] by simp
qed

lemma sync_checks_before_writing_witness:
  "\<exists>fs fs'. read_client_prefix fs ''alice'' = Inr (Some ex_net) \<and> fs' = snd (sync_client_configs False False fs)
     \<and> (fs' = fs \<or> (\<exists>names. managed_client_names fs = Inr names))"
proof -
  obtain fs where fs: "set_client_prefix ex_env ''alice'' ''2001:db8:1::/48'' ex_fs = (Inr (), fs)"
    using ex_set by blast
  obtain r fs' where s: "sync_client_configs False False fs = (r, fs')" by fastforce
  show ?thesis using sync_checks_before_writing [OF ex_managed_after(1) [OF fs] s] ex_managed_after(2) [OF fs] s
    by (metis snd_conv)
qed

text \<open>writing the pushed routes keeps every line outside the managed block, in order, and
  puts the block after them: the routes sorted by address and length, each once, and the fake
  range last; doing it again changes nothing.\<close>

theorem openvpn_routes_block:
  assumes "no_links fs" and "printable_nets (ns @ (case fk of None \<Rightarrow> [] | Some f \<Rightarrow> [f]))"
    and "write_openvpn_routes p ns en fk fs = (Inr (), fs')"
  shows "\<exists>old kept. original_text fs p = Inr old \<and> outside_block p False (splitlines old) = Inr kept
    \<and> original_text fs' p = Inr (unlines (kept @ route_block ns en fk))
    \<and> write_openvpn_routes p ns en fk fs' = (Inr (), fs')
    \<and> sorted (map net_key (ordered ns)) \<and> distinct (ordered ns) \<and> set (ordered ns) = set ns"
proof -
  from assms(3) obtain t out where t: "read_optional fs p = Inr t"
    "render_routes p (case t of None \<Rightarrow> [] | Some x \<Rightarrow> x) ns en fk = Inr out"
    "replace_text p out fs = (Inr (), fs')"
    by (auto simp: write_openvpn_routes_def result_simps split: sum.splits)
  have cl: "\<forall>n \<in> set ns \<union> set_option fk. clean_line (show_net n)"
    using assms(2) by (auto simp: printable_nets_def split: option.splits)
  from render_routes_spec [OF t(2) cl] obtain kept where k:
    "outside_block p False (splitlines (case t of None \<Rightarrow> [] | Some x \<Rightarrow> x)) = Inr kept"
    "splitlines out = kept @ route_block ns en fk" "outside_block p False (splitlines out) = Inr kept" by blast
  have "out = unlines (kept @ route_block ns en fk)"
    using t(2) k(1) join_LF_unlines [of "kept @ route_block ns en fk"] by (simp add: render_routes_def)
  then have out: "out = unlines (splitlines out)" using k(2) by simp
  have "CR \<notin> set out" using unlines_no_CR [of "splitlines out"] splitlines_clean out by metis
  note sp = replace_text_spec [OF assms(1) t(3) this]
  then have nl': "no_links fs'" and rd: "read_text fs' p = Inr out" by (simp_all add: no_links_read)
  have "render_routes p out ns en fk = Inr out"
    using k out join_LF_unlines [of "kept @ route_block ns en fk"] by (simp add: render_routes_def)
  moreover have "replace_text p out fs' = (Inr (), fs')"
  proof -
    from rd nl' obtain m s where "map_of fs' p = Some (File s m)" by (auto simp: no_links_read node_file_iff)
    then have "inspect fs' p = Inr (m mod 512, Some out)"
      using rd nl' by (simp add: inspect_def no_links_mode)
    then show ?thesis using nl' by (simp add: replace_text_def no_links_def)
  qed
  ultimately have "write_openvpn_routes p ns en fk fs' = (Inr (), fs')"
    by (simp add: write_openvpn_routes_def read_optional_def rd)
  moreover have "original_text fs' p = Inr (unlines (kept @ route_block ns en fk))"
    using out k(2) by (simp add: original_text_def read_optional_def rd)
  moreover have "original_text fs p = Inr (case t of None \<Rightarrow> [] | Some x \<Rightarrow> x)"
    using t(1) by (simp add: original_text_def)
  ultimately show ?thesis using k(1) ordered_sorted ordered_distinct set_ordered by blast
qed

lemma openvpn_routes_block_witness:
  "\<exists>fs'. write_openvpn_routes OPENVPN_DEFAULT [ex_net] True None ex_fs = (Inr (), fs')
     \<and> original_text fs' OPENVPN_DEFAULT
         = Inr (unlines (''topology subnet'' # route_block [ex_net] True None))"
proof -
  have rd: "read_optional ex_fs OPENVPN_DEFAULT = Inr (Some ''topology subnet'')"
    by (simp add: read_optional_def no_links_read [OF ex_links]) (simp add: ex_fs_def)
  have ob: "outside_block OPENVPN_DEFAULT False (splitlines ''topology subnet'') = Inr [''topology subnet'']"
    by (simp add: splitlines_def markers)
  obtain out where out: "render_routes OPENVPN_DEFAULT ''topology subnet'' [ex_net] True None = Inr out"
    by (simp add: render_routes_def ob)
  have ne: "out \<noteq> ''topology subnet''"
  proof
    assume "out = ''topology subnet''"
    then have "LF \<in> set ''topology subnet''" using out join_LF_unlines [of "''topology subnet'' # route_block [ex_net] True None"]
      by (auto simp: render_routes_def ob unlines_def)
    then show False by simp
  qed
  have "\<exists>fs'. replace_text OPENVPN_DEFAULT out ex_fs = (Inr (), fs')"
    using ne ex_links
    by (simp add: replace_text_def no_links_def inspect_def stat_mode_def ioP_def bindP_def read_text_plain
        write_text_def chmod_def replace_file_def dict_simps is_symlink_def ex_fs_def)
  then obtain fs' where w: "write_openvpn_routes OPENVPN_DEFAULT [ex_net] True None ex_fs = (Inr (), fs')"
    using rd out by (auto simp: write_openvpn_routes_def)
  have pr: "printable_nets ([ex_net] @ (case None of None \<Rightarrow> [] | Some f \<Rightarrow> [f]))"
    using ex_net_ok show_net_line by (simp add: printable_nets_def client_prefix_ok_def)
  have "original_text ex_fs OPENVPN_DEFAULT = Inr ''topology subnet''" by (simp add: original_text_def rd)
  then show ?thesis using openvpn_routes_block [OF ex_links pr w] w ob by auto
qed

text \<open>A printed network is read back by the list reader.\<close>

lemma line_network_show:
  assumes "net_plain n" and "net_version n = 6"
  shows "line_network (show_net n) = Some n"
proof -
  have c: "\<not> is_space c \<and> c \<noteq> CHR ''#''" if "c \<in> set (show_net n)" for c
    using show_net_clean [OF assms(1) that] by blast
  have ne: "show_net n \<noteq> []" by (simp add: show_net_def)
  have b: "before (CHR ''#'') (show_net n) = show_net n"
    unfolding before_def using c by (intro takeWhile_all) auto
  have "strip (show_net n) = show_net n" using strip_show_net assms(1) by blast
  moreover have "words (show_net n) = [show_net n]" using c ne by (intro words_single) auto
  ultimately show ?thesis using b ne ip_network_show [OF assms(1)] assms(2)
    by (simp add: line_network_def Let_def)
qed

text \<open>a list that was written (a result, or the cache of downloads) reads back as the
  networks it was made of, in order of address and length.\<close>

theorem written_list_reads_back:
  assumes "no_links fs" and "\<forall>n \<in> set ns. net_plain n \<and> net_version n = 6"
    and "write_file p ns fs = (Inr (), fs')"
  shows "read_paths fs' [p] = ordered ns"
proof -
  let ?t = "unlines (map show_net (ordered ns))"
  obtain r1 fs1 where w: "write_text (tmp p) ?t fs = (r1, fs1)" by fastforce
  have r1: "r1 = Inr ()" using assms(3) w by (cases r1) (auto simp: write_file_def tmp_def bindP_def ioP_def)
  note w1 = write_tmp [OF assms(1) w]
  obtain m where m: "map_of fs1 (tmp p) = Some (File ?t m)" using w1 r1 by auto
  obtain r2 where r2: "replace_file (tmp p) p fs1 = (r2, fs')" "r2 = Inr ()"
    using assms(3) w r1 by (auto simp: write_file_def tmp_def bindP_def ioP_def split: prod.splits sum.splits)
  note f = replace_tmp [OF conjunct1 [OF w1] m r2(1)]
  have cl: "\<forall>l \<in> set (map show_net (ordered ns)). clean_line l" using assms(2) show_net_line by auto
  have "read_ignore fs' p = Inr ?t"
    using f r2(2) universal_id unlines_no_CR [OF cl] by (simp add: read_ignore_def)
  moreover have "text_networks ?t = ordered ns"
  proof -
    have "splitlines ?t = map show_net (ordered ns)" using splitlines_unlines cl by blast
    moreover have "List.map_filter line_network (map show_net xs) = xs"
      if "\<forall>n \<in> set xs. net_plain n \<and> net_version n = 6" for xs
      using that line_network_show by (induction xs) (simp_all add: map_filter_simps)
    ultimately show ?thesis using assms(2) by (simp add: text_networks_def)
  qed
  ultimately show ?thesis using ordered_distinct by (simp add: read_paths_def distinct_remdups_id)
qed

lemma written_list_reads_back_witness:
  "\<exists>fs'. write_file DOWNLOAD_CACHE [ex_net] ex_fs = (Inr (), fs') \<and> read_paths fs' [DOWNLOAD_CACHE] = [ex_net]"
proof -
  have "\<exists>fs'. write_file DOWNLOAD_CACHE [ex_net] ex_fs = (Inr (), fs')"
    using ex_links
    by (simp add: write_file_def ioP_def bindP_def write_text_def replace_file_def dict_simps ex_fs_def)
  then obtain fs' where w: "write_file DOWNLOAD_CACHE [ex_net] ex_fs = (Inr (), fs')" by blast
  have "\<forall>n \<in> set [ex_net]. net_plain n \<and> net_version n = 6" using ex_net_ok by (simp add: client_prefix_ok_def)
  from written_list_reads_back [OF ex_links this w] w show ?thesis by (auto simp: ordered_def)
qed

section \<open>Arguments that are let through\<close>

text \<open>The shared file is accepted as a client: a prefix assigned to it stands in the default
  routes from then on.\<close>

lemma default_accepted_as_client:
  assumes "no_links fs" and "default_state_ok fs" and "CHR ''%'' \<notin> set value"
    and "set_client_prefix env ''DEFAULT'' value fs = (Inr (), fs')"
  shows "\<exists>p t. parse_client_prefix value = Inr p \<and> read_required fs' OPENVPN_DEFAULT = Inr t
    \<and> prefix_from_text t OPENVPN_DEFAULT = Inr (Some p) \<and> \<not> default_clean t"
proof -
  from assms(4) obtain p m where p: "parse_client_prefix value = Inr p"
    "write_client_config ''DEFAULT'' (Some p) (\<not> disable_ipv6 env) m fs = (Inr (), fs')"
    by (auto simp: set_client_prefix_def result_simps split: prod.splits sum.splits)
  have "client_prefix_ok p" using parse_prefix_ok [OF p(1)] p(1) assms(3) ip_network_no_scope
    by (auto simp: parse_client_prefix_def split: option.splits if_splits)
  then have pa: "prefix_arg_ok (Some p)" by (simp add: prefix_arg_ok_def)
  note sp = write_client_config_spec [OF assms(1,2) pa p(2)]
  obtain c where c: "new_text fs ''DEFAULT'' (Some p) (\<not> disable_ipv6 env) m OPENVPN_CCD = Inr c"
    "holds_text fs' OPENVPN_DEFAULT c" using sp by (auto simp: ccd_dirs_def default_path)
  from new_text_prefix [OF _ default_name_ok assms(2) pa c(1)] c(2) sp
  have "prefix_of_file fs' ''DEFAULT'' OPENVPN_CCD = Inr (Some p)" by (simp add: default_path)
  then obtain t where t: "node_text (map_of fs' OPENVPN_DEFAULT) = Inr t"
    "prefix_from_text t OPENVPN_DEFAULT = Inr (Some p)"
    using sp by (auto simp: prefix_of_file_node [OF _ default_name_ok] default_path split: sum.splits io_error.splits)
  have "tag_values OPENVPN_CLIENT_PREFIX_TAG t \<noteq> []" using t(2) by (auto simp: prefix_from_text_def)
  then have "\<not> default_clean t" by (auto simp: tag_values_def filter_empty_conv default_clean_def tag_line_def)
  then show ?thesis using p(1) t sp by (auto simp: read_required_def no_links_read)
qed

end
