(* ===== verification/PyTime.thy ===== *)
theory PyTime
  imports Prelude
begin

text \<open>
  The part of Python's \<^verbatim>\<open>datetime\<close> the sources use. An instant in UTC is the number of
  microseconds from the midnight that starts day 0, where day 1 is 0001-01-01 (the proleptic
  Gregorian ordinal of \<^verbatim>\<open>date.toordinal\<close>). A naive value read from the database stands for the
  same instant in UTC, so \<^verbatim>\<open>as_utc\<close> is the identity on instants. The field values of an instant
  (year, month, day, week day) are computed the way the standard library does.
\<close>

type_synonym datetime = int
type_synonym timedelta = int

definition microseconds_per_day :: int where
  "microseconds_per_day = 86400000000"

definition toordinal :: "datetime \<Rightarrow> int" where
  "toordinal t = t div microseconds_per_day"

definition midnight :: "datetime \<Rightarrow> datetime" where
  "midnight t = toordinal t * microseconds_per_day"

definition weekday :: "datetime \<Rightarrow> int" where
  "weekday t = (toordinal t + 6) mod 7"

definition days_of :: "int \<Rightarrow> timedelta" where
  "days_of d = d * microseconds_per_day"

definition delta_days :: "timedelta \<Rightarrow> int" where
  "delta_days d = d div microseconds_per_day"

definition max_ordinal :: int where
  "max_ordinal = 3652059"

definition representable :: "datetime \<Rightarrow> bool" where
  "representable t \<longleftrightarrow> 1 \<le> toordinal t \<and> toordinal t \<le> max_ordinal"

text \<open>\<^verbatim>\<open>t + timedelta(days=d)\<close>: \<^verbatim>\<open>None\<close> is an \<^verbatim>\<open>OverflowError\<close>.\<close>

definition add_days :: "datetime \<Rightarrow> int \<Rightarrow> datetime option" where
  "add_days t d =
     (if \<bar>d\<bar> > 999999999 then None
      else if representable (t + days_of d) then Some (t + days_of d) else None)"

section \<open>The calendar\<close>

definition is_leap :: "int \<Rightarrow> bool" where
  "is_leap y \<longleftrightarrow> y mod 4 = 0 \<and> (y mod 100 \<noteq> 0 \<or> y mod 400 = 0)"

definition days_before_year :: "int \<Rightarrow> int" where
  "days_before_year y = (let z = y - 1 in z * 365 + z div 4 - z div 100 + z div 400)"

definition days_in_month :: "int \<Rightarrow> int \<Rightarrow> int" where
  "days_in_month y m =
     (if m = 2 then (if is_leap y then 29 else 28) else if m \<in> {4, 6, 9, 11} then 30 else 31)"

definition days_before_month :: "int \<Rightarrow> int \<Rightarrow> int" where
  "days_before_month y m = sum_list (map (days_in_month y) [1..m - 1])"

definition ymd2ord :: "int \<Rightarrow> int \<Rightarrow> int \<Rightarrow> int" where
  "ymd2ord y m d = days_before_year y + days_before_month y m + d"

text \<open>
  \<^verbatim>\<open>_ord2ymd\<close>: the year from the cycles of 400, 100, 4 and 1 years, then the month by counting.
\<close>

fun find_month :: "int \<Rightarrow> int list \<Rightarrow> int \<Rightarrow> int \<times> int" where
  "find_month y [] n = (12, n + 1)"
| "find_month y (m # ms) n =
     (if n < days_in_month y m then (m, n + 1) else find_month y ms (n - days_in_month y m))"

definition ord2ymd :: "int \<Rightarrow> int \<times> int \<times> int" where
  "ord2ymd ord =
     (let n0 = ord - 1;
          n400 = n0 div 146097; r400 = n0 mod 146097;
          n100 = r400 div 36524; r100 = r400 mod 36524;
          n4 = r100 div 1461; r4 = r100 mod 1461;
          n1 = r4 div 365; r1 = r4 mod 365;
          year = n400 * 400 + 1 + n100 * 100 + n4 * 4 + n1
      in if n1 = 4 \<or> n100 = 4 then (year - 1, 12, 31)
         else (let (m, d) = find_month year [1..12] r1 in (year, m, d)))"

definition year :: "datetime \<Rightarrow> int" where
  "year t = fst (ord2ymd (toordinal t))"

definition month :: "datetime \<Rightarrow> int" where
  "month t = fst (snd (ord2ymd (toordinal t)))"

definition day :: "datetime \<Rightarrow> int" where
  "day t = snd (snd (ord2ymd (toordinal t)))"

definition valid_ymd :: "int \<Rightarrow> int \<Rightarrow> int \<Rightarrow> bool" where
  "valid_ymd y m d \<longleftrightarrow> 1 \<le> m \<and> m \<le> 12 \<and> 1 \<le> d \<and> d \<le> days_in_month y m"

section \<open>The calendar and the ordinals agree\<close>

lemma months_12 [simp]: "[1..12::int] = [1, 2, 3, 4, 5, 6, 7, 8, 9, 10, 11, 12]"
  by (simp add: upto.simps)

lemma days_before_year_cycles:
  assumes "0 \<le> b" "b < 4" "0 \<le> c" "c < 25" "0 \<le> e" "e < (4::int)"
  shows "days_before_year (a * 400 + 1 + b * 100 + c * 4 + e) = 146097 * a + 36524 * b + 1461 * c + 365 * e"
proof -
  have 1: "(a * 400 + b * 100 + c * 4 + e) div 4 = a * 100 + b * 25 + c"
    by (rule int_div_pos_eq [where r = e]) (use assms in auto)
  have 2: "(a * 400 + b * 100 + c * 4 + e) div 100 = a * 4 + b"
    by (rule int_div_pos_eq [where r = "c * 4 + e"]) (use assms in auto)
  have 3: "(a * 400 + b * 100 + c * 4 + e) div 400 = a"
    by (rule int_div_pos_eq [where r = "b * 100 + c * 4 + e"]) (use assms in auto)
  have z: "a * 400 + 1 + b * 100 + c * 4 + e - 1 = a * 400 + b * 100 + c * 4 + e" by simp
  show ?thesis unfolding days_before_year_def Let_def z 1 2 3 by (simp add: algebra_simps)
qed

lemma find_month_split:
  assumes "0 \<le> n" and "n < sum_list (map (days_in_month y) ms)" and "find_month y ms n = (m, d)"
  shows "\<exists>pre post. ms = pre @ m # post \<and> 1 \<le> d \<and> d \<le> days_in_month y m
           \<and> n + 1 = sum_list (map (days_in_month y) pre) + d"
  using assms
proof (induction ms arbitrary: n)
  case Nil
  then show ?case by simp
next
  case (Cons a ms)
  show ?case
  proof (cases "n < days_in_month y a")
    case True
    then have "ms = ms \<and> m = a \<and> d = n + 1" using Cons.prems by simp
    then show ?thesis using Cons.prems(1) True by (intro exI [of _ "[]"] exI [of _ ms]) simp
  next
    case False
    then obtain pre post where "ms = pre @ m # post" "1 \<le> d" "d \<le> days_in_month y m"
      "n - days_in_month y a + 1 = sum_list (map (days_in_month y) pre) + d"
      using Cons.IH [of "n - days_in_month y a"] Cons.prems by auto
    then show ?thesis by (intro exI [of _ "a # pre"] exI [of _ post]) simp
  qed
qed

lemma upto_prefix:
  assumes "[i..j] = pre @ m # post"
  shows "pre = [i..m - 1] \<and> i \<le> m \<and> m \<le> j"
  using assms
proof (induction pre arbitrary: i)
  case Nil
  then have "i \<le> j" by (cases "i \<le> j") auto
  then show ?case using Nil by (simp add: upto_rec1 [of i j])
next
  case (Cons a pre)
  then have le: "i \<le> j" by (cases "i \<le> j") auto
  then have "a = i" and "[i + 1..j] = pre @ m # post" using Cons.prems by (auto simp: upto_rec1 [of i j])
  then show ?case using Cons.IH [of "i + 1"] by (simp add: upto_rec1 [of i "m - 1"])
qed

lemma days_in_year: "sum_list (map (days_in_month y) [1..12]) = (if is_leap y then 366 else 365)"
  by (simp add: days_in_month_def)

lemma find_month_spec:
  assumes "0 \<le> n" and "n < (if is_leap y then 366 else 365)" and "find_month y [1..12] n = (m, d)"
  shows "valid_ymd y m d \<and> days_before_month y m + d = n + 1"
proof -
  obtain pre post where "[1..12] = pre @ m # post" "1 \<le> d" "d \<le> days_in_month y m"
      "n + 1 = sum_list (map (days_in_month y) pre) + d"
    using find_month_split [OF assms(1) _ assms(3)] assms(2) days_in_year by metis
  then show ?thesis using upto_prefix [of 1 12 pre m post]
    by (simp add: valid_ymd_def days_before_month_def)
qed

lemma leap_in_cycle:
  assumes "0 \<le> c" and "c < 24 \<or> c = 24 \<and> b = 3"
  shows "is_leap (a * 400 + 1 + b * 100 + c * 4 + 3)"
proof -
  have y: "a * 400 + 1 + b * 100 + c * 4 + 3 = (4 + c * 4) + 100 * (a * 4 + b)" by simp
  have m4: "((4 + c * 4) + 100 * (a * 4 + b)) mod 4 = 0"
    by (rule int_mod_pos_eq [where q = "1 + c + 25 * (a * 4 + b)"]) auto
  show ?thesis
  proof (cases "c < 24")
    case True
    then have "((4 + c * 4) + 100 * (a * 4 + b)) mod 100 = 4 + c * 4"
      using assms(1) by (intro int_mod_pos_eq [where q = "a * 4 + b"]) auto
    then show ?thesis using m4 assms(1) unfolding is_leap_def y by simp
  next
    case False
    then have "(4 + c * 4) + 100 * (a * 4 + b) = 400 * (a + 1)" using assms(2) by simp
    then have "((4 + c * 4) + 100 * (a * 4 + b)) mod 400 = 0" by (metis mod_mult_self1_is_0)
    then show ?thesis using m4 unfolding is_leap_def y by simp
  qed
qed

lemma december: "days_before_month y 12 = (if is_leap y then 335 else 334)"
proof -
  have "[1..12 - 1::int] = [1, 2, 3, 4, 5, 6, 7, 8, 9, 10, 11]" by (simp add: upto.simps)
  then show ?thesis by (simp add: days_before_month_def days_in_month_def)
qed

text \<open>The date of an ordinal is a date of the calendar with that ordinal.\<close>

lemma ymd_of_ordinal:
  assumes "ord2ymd n = (y, m, d)"
  shows "valid_ymd y m d \<and> ymd2ord y m d = n"
proof -
  define r400 where "r400 = (n - 1) mod 146097"
  define r100 where "r100 = r400 mod 36524"
  define r4 where "r4 = r100 mod 1461"
  define a b c e r where "a = (n - 1) div 146097" and "b = r400 div 36524" and "c = r100 div 1461"
    and "e = r4 div 365" and "r = r4 mod 365"
  note defs = r400_def r100_def r4_def a_def b_def c_def e_def r_def
  have bounds: "0 \<le> r400" "r400 < 146097" "0 \<le> r100" "r100 < 36524" "0 \<le> r4" "r4 < 1461" "0 \<le> r" "r < 365"
    by (simp_all add: defs)
  have cycles: "n - 1 = a * 146097 + r400" "r400 = b * 36524 + r100" "r100 = c * 1461 + r4" "r4 = e * 365 + r"
    unfolding defs by presburger+
  have quot: "0 \<le> b" "b \<le> 4" "0 \<le> c" "c \<le> 24" "0 \<le> e" "e \<le> 4"
    using bounds cycles by linarith+
  define yr where "yr = a * 400 + 1 + b * 100 + c * 4 + e"
  have ord: "ord2ymd n = (if e = 4 \<or> b = 4 then (yr - 1, 12, 31)
      else (let (m, d) = find_month yr [1..12] r in (yr, m, d)))"
    unfolding ord2ymd_def Let_def yr_def defs by simp
  show ?thesis
  proof (cases "e = 4 \<or> b = 4")
    case False
    then have lt: "b < 4" "e < 4" using quot by auto
    have year: "days_before_year yr = 146097 * a + 36524 * b + 1461 * c + 365 * e"
      unfolding yr_def using lt quot by (intro days_before_year_cycles) auto
    obtain m' d' where fm: "find_month yr [1..12] r = (m', d')" by fastforce
    then have eq: "y = yr" "m = m'" "d = d'" using assms ord False by auto
    have "r < (if is_leap yr then 366 else 365)" using bounds(8) by simp
    then show ?thesis using find_month_spec [OF bounds(7) _ fm] year cycles by (simp add: eq ymd2ord_def)
  next
    case True
    have "ymd2ord (yr - 1) 12 31 = n"
    proof (cases "b = 4")
      case True
      then have r100: "r100 = 0" using bounds cycles by linarith
      have c: "c = 0" using cycles(3) r100 quot bounds by linarith
      have e: "e = 0" using cycles(3,4) r100 c quot bounds by linarith
      have r: "r = 0" using cycles(3,4) r100 c e by linarith
      note z = c e r
      have y: "yr - 1 = a * 400 + 1 + 3 * 100 + 24 * 4 + 3" using z True by (simp add: yr_def)
      have "is_leap (yr - 1)" unfolding y by (rule leap_in_cycle) auto
      moreover have "days_before_year (yr - 1) = 146097 * a + 36524 * 3 + 1461 * 24 + 365 * 3"
        unfolding y by (rule days_before_year_cycles) auto
      ultimately show ?thesis using cycles z True by (simp add: ymd2ord_def december)
    next
      case False
      then have e: "e = 4" and b: "b < 4" using True quot by auto
      then have r: "r = 0" and c: "c < 24" using bounds cycles by linarith+
      have y: "yr - 1 = a * 400 + 1 + b * 100 + c * 4 + 3" using e by (simp add: yr_def)
      have "is_leap (yr - 1)" unfolding y by (rule leap_in_cycle) (use c quot(3) in auto)
      moreover have "days_before_year (yr - 1) = 146097 * a + 36524 * b + 1461 * c + 365 * 3"
        unfolding y using b c quot by (intro days_before_year_cycles) auto
      ultimately show ?thesis using cycles e r by (simp add: ymd2ord_def december)
    qed
    then show ?thesis using assms ord True by (simp add: valid_ymd_def days_in_month_def)
  qed
qed

text \<open>The first day after a month is the first of the next one.\<close>

lemma div_step:
  fixes y k :: int
  assumes "0 < k"
  shows "y div k - (y - 1) div k = (if y mod k = 0 then 1 else 0)"
proof (cases "y mod k = 0")
  case True
  have "(y - 1) div k = y div k - 1"
    by (rule int_div_pos_eq [where r = "k - 1"]) (use True assms div_mult_mod_eq [of y k] in \<open>auto simp: algebra_simps\<close>)
  then show ?thesis using True by simp
next
  case False
  have "0 < y mod k" "y mod k < k" using False pos_mod_sign [OF assms, of y] pos_mod_bound [OF assms, of y] by linarith+
  then have "(y - 1) div k = y div k"
    by (intro int_div_pos_eq [where r = "y mod k - 1"])
      (use div_mult_mod_eq [of y k] in \<open>auto simp: algebra_simps\<close>)
  then show ?thesis using False by simp
qed

lemma leap_count:
  "(if is_leap y then 1 else 0) =
     (if y mod 4 = 0 then 1 else 0) - (if y mod 100 = 0 then 1 else 0) + (if y mod 400 = 0 then 1 else (0::int))"
proof -
  have count: "(if p \<and> (\<not> q \<or> r) then 1 else 0) = (if p then 1 else 0) - (if q then 1 else 0) + (if r then 1 else (0::int))"
    if "r \<longrightarrow> q" "q \<longrightarrow> p" for p q r
    using that by (cases p; cases q; cases r; simp)
  have "y mod 400 = 0 \<longrightarrow> y mod 100 = 0"
    unfolding mod_eq_0_iff_dvd by (intro impI dvd_trans [of 100 400 y]) simp
  moreover have "y mod 100 = 0 \<longrightarrow> y mod 4 = 0"
    unfolding mod_eq_0_iff_dvd by (intro impI dvd_trans [of 4 100 y]) simp
  ultimately show ?thesis unfolding is_leap_def by (rule count)
qed

lemma days_before_next_year: "days_before_year (y + 1) = days_before_year y + (if is_leap y then 366 else 365)"
proof -
  have add: "y * 365 + a - b + c = ((y - 1) * 365 + a' - b' + c') + (if l then 366 else 365)"
    if "a - a' = i" "b - b' = j" "c - c' = k" "(if l then 1 else 0) = i - j + k" for a a' b b' c c' i j k :: int and l
    using that by (cases l) (auto simp: algebra_simps)
  have y: "y + 1 - 1 = y" by simp
  show ?thesis unfolding days_before_year_def Let_def y
    by (rule add) (rule div_step leap_count | simp)+
qed

lemma days_before_next_month:
  assumes "1 \<le> m"
  shows "days_before_month y (m + 1) = days_before_month y m + days_in_month y m"
  using assms by (simp add: days_before_month_def upto_rec2 [of 1 m])

definition next_month :: "int \<times> int \<Rightarrow> int \<times> int" where
  "next_month ym = (if snd ym = 12 then (fst ym + 1, 1) else (fst ym, snd ym + 1))"

lemma next_month_ordinal:
  assumes "1 \<le> m" "m \<le> 12" and "next_month (y, m) = (y', m')"
  shows "ymd2ord y' m' 1 = ymd2ord y m 1 + days_in_month y m"
proof (cases "m = 12")
  case True
  then show ?thesis using assms days_before_next_year [of y] december [of y]
    by (simp add: next_month_def ymd2ord_def) (simp add: days_before_month_def days_in_month_def)
next
  case False
  then show ?thesis using assms days_before_next_month [of m y] by (simp add: next_month_def ymd2ord_def)
qed

text \<open>
  Months counted from year 0: the first days of successive months increase, and the month of a
  day is the one whose interval of days holds it.
\<close>

definition month_start :: "int \<Rightarrow> int" where
  "month_start k = ymd2ord (k div 12) (k mod 12 + 1) 1"

lemma month_start_ymd: "1 \<le> m \<Longrightarrow> m \<le> 12 \<Longrightarrow> month_start (y * 12 + (m - 1)) = ymd2ord y m 1"
proof -
  assume m: "1 \<le> m" "m \<le> 12"
  have "(y * 12 + (m - 1)) div 12 = y" by (rule int_div_pos_eq [where r = "m - 1"]) (use m in auto)
  moreover have "(y * 12 + (m - 1)) mod 12 = m - 1" by (rule int_mod_pos_eq [where q = y]) (use m in auto)
  ultimately show ?thesis by (simp add: month_start_def)
qed

lemma days_in_month_bounds: "28 \<le> days_in_month y m \<and> days_in_month y m \<le> 31"
  by (simp add: days_in_month_def)

lemma next_month_start:
  assumes "1 \<le> m" "m \<le> 12" and "next_month (y, m) = (y', m')"
  shows "ymd2ord y' m' 1 = month_start (y * 12 + (m - 1) + 1)"
proof (cases "m = 12")
  case True
  then have "y' = y + 1" "m' = 1" using assms(3) by (auto simp: next_month_def)
  moreover have "(y + 1) * 12 + (1 - 1) = y * 12 + (m - 1) + 1" using True by simp
  ultimately show ?thesis using month_start_ymd [of 1 "y + 1"] by (simp add: add.commute)
next
  case False
  then have "y' = y" "m' = m + 1" using assms(3) by (auto simp: next_month_def)
  then show ?thesis using assms(1,2) False month_start_ymd [of "m + 1" y] by (simp add: algebra_simps)
qed

lemma month_start_less: "month_start k < month_start (k + 1)"
proof -
  define y m where "y = k div 12" and "m = k mod 12 + 1"
  have m: "1 \<le> m" "m \<le> 12" using pos_mod_bound [of 12 k] by (auto simp: m_def)
  have k: "k = y * 12 + (m - 1)" by (simp add: y_def m_def)
  obtain y' m' where nm: "next_month (y, m) = (y', m')" by fastforce
  show ?thesis
    using next_month_start [OF m nm] next_month_ordinal [OF m nm] month_start_ymd [OF m, of y]
      days_in_month_bounds [of y m] by (simp add: k)
qed

lemma month_start_mono: "k \<le> k' \<Longrightarrow> month_start k \<le> month_start k'"
proof (induction k' rule: int_ge_induct)
  case base
  then show ?case by simp
next
  case (step i)
  then show ?case using month_start_less [of i] by linarith
qed

lemma month_unique:
  assumes "month_start k \<le> n" "n < month_start (k + 1)" and "month_start k' \<le> n" "n < month_start (k' + 1)"
  shows "k = k'"
proof (rule ccontr)
  assume "k \<noteq> k'"
  then consider "k + 1 \<le> k'" | "k' + 1 \<le> k" by linarith
  then show False using assms month_start_mono [of "k + 1" k'] month_start_mono [of "k' + 1" k] by cases auto
qed

definition month_number :: "datetime \<Rightarrow> int" where
  "month_number t = year t * 12 + (month t - 1)"

lemma date_valid: "valid_ymd (year t) (month t) (day t) \<and> ymd2ord (year t) (month t) (day t) = toordinal t"
  by (rule ymd_of_ordinal) (simp add: year_def month_def day_def)

lemma month_of_day:
  "month_start (month_number t) \<le> toordinal t \<and> toordinal t < month_start (month_number t + 1)"
proof -
  have v: "1 \<le> month t" "month t \<le> 12" "1 \<le> day t" "day t \<le> days_in_month (year t) (month t)"
    and o: "ymd2ord (year t) (month t) (day t) = toordinal t"
    using date_valid [of t] by (auto simp: valid_ymd_def)
  obtain y' m' where nm: "next_month (year t, month t) = (y', m')" by fastforce
  show ?thesis
    using next_month_start [OF v(1,2) nm] next_month_ordinal [OF v(1,2) nm] v o
      month_start_ymd [OF v(1,2), of "year t"]
    by (simp add: month_number_def ymd2ord_def)
qed

lemma toordinal_le_iff: "n * microseconds_per_day \<le> t \<longleftrightarrow> n \<le> toordinal t"
proof -
  have pos: "0 < microseconds_per_day" by (simp add: microseconds_per_day_def)
  show ?thesis
  proof
    assume "n * microseconds_per_day \<le> t"
    then show "n \<le> toordinal t"
      using zdiv_mono1 [of "n * microseconds_per_day" t microseconds_per_day] pos by (simp add: toordinal_def)
  next
    assume "n \<le> toordinal t"
    then have "n * microseconds_per_day \<le> toordinal t * microseconds_per_day" using pos by simp
    then show "n * microseconds_per_day \<le> t"
      using div_mult_mod_eq [of t microseconds_per_day] pos_mod_sign [OF pos, of t]
      unfolding toordinal_def by linarith
  qed
qed

lemma toordinal_less_iff: "t < n * microseconds_per_day \<longleftrightarrow> toordinal t < n"
  using toordinal_le_iff [of n t] by linarith

lemma midnight_le: "midnight t \<le> t"
  using toordinal_le_iff [of "toordinal t" t] by (simp add: midnight_def)

lemma toordinal_of_midnight [simp]: "toordinal (n * microseconds_per_day) = n"
  by (simp add: toordinal_def microseconds_per_day_def)

lemma month_number_unique:
  assumes "month_start k \<le> toordinal t" "toordinal t < month_start (k + 1)"
  shows "month_number t = k"
  using month_unique [OF assms] month_of_day [of t] by auto

lemma ymd_of_month_start:
  assumes "1 \<le> m" "m \<le> 12"
  shows "ord2ymd (ymd2ord y m 1) = (y, m, 1)"
proof -
  let ?t = "ymd2ord y m 1 * microseconds_per_day"
  have start: "month_start (y * 12 + (m - 1)) = ymd2ord y m 1" by (rule month_start_ymd [OF assms])
  have "month_number ?t = y * 12 + (m - 1)"
    using month_start_less [of "y * 12 + (m - 1)"] by (intro month_number_unique) (simp_all add: start)
  moreover have v: "1 \<le> month ?t" "month ?t \<le> 12" and o: "ymd2ord (year ?t) (month ?t) (day ?t) = ymd2ord y m 1"
    using date_valid [of ?t] by (auto simp: valid_ymd_def)
  ultimately have eq: "year ?t * 12 + (month ?t - 1) = y * 12 + (m - 1)" by (simp add: month_number_def)
  have "year ?t \<le> y" "y \<le> year ?t" using eq v assms by linarith+
  then have ym: "year ?t = y \<and> month ?t = m" using eq by simp
  then have "day ?t = 1" using o by (simp add: ymd2ord_def)
  then show ?thesis using ym by (simp add: year_def month_def day_def prod_eq_iff)
qed

end
