(* ===== verification/TrafficLimit.thy ===== *)
theory TrafficLimit
  imports Complex_Main PyText PyTime
begin

text \<open>
  \<^verbatim>\<open>core/services/traffic_limit.py\<close>: the traffic limits of the panel's clients. Texts of error
  messages are left out; labels shown to the administrator are values with the parts the code
  puts into the text. The rows of the two statistics tables are lists in the order a query
  returns them; the clock is an argument.
\<close>

datatype limit_error = ValueErr | OverflowErr

text \<open>The outcome of \<^verbatim>\<open>float(value)\<close>: finite doubles are rational numbers.\<close>

datatype pyfloat = Finite rat | PosInf | NegInf | NaN

definition TRAFFIC_LIMIT_UNITS :: "(string \<times> nat) list" where
  "TRAFFIC_LIMIT_UNITS =
     [(''b'', 1), (''kb'', 1024), (''mb'', 1024 ^ 2), (''gb'', 1024 ^ 3), (''tb'', 1024 ^ 4)]"

definition TRAFFIC_LIMIT_PERIOD_DAYS_ALLOWED :: "int list" where
  "TRAFFIC_LIMIT_PERIOD_DAYS_ALLOWED = [1, 7, 30]"

definition normalize_traffic_limit_unit :: "string option \<Rightarrow> string" where
  "normalize_traffic_limit_unit unit_name =
     (let normalized = lower (strip (case unit_name of None \<Rightarrow> ''mb'' | Some u \<Rightarrow> if u = [] then ''mb'' else u))
      in if normalized = ''byte'' \<or> normalized = ''bytes'' then ''b'' else normalized)"

fun float_nonpositive :: "pyfloat \<Rightarrow> bool" where
  "float_nonpositive (Finite q) = (q \<le> 0)"
| "float_nonpositive PosInf = False"
| "float_nonpositive NegInf = True"
| "float_nonpositive NaN = False"

text \<open>
  \<^verbatim>\<open>int(amount * multiplier)\<close>: the multipliers are powers of two, so the product of doubles is
  exact unless it leaves their range.
\<close>

fun float_to_int :: "pyfloat \<Rightarrow> nat \<Rightarrow> (limit_error, int) result" where
  "float_to_int (Finite q) m =
     (if \<bar>q * of_nat m\<bar> \<ge> 2 ^ 1024 then Inl OverflowErr
      else Inr (if q < 0 then - \<lfloor>- q * of_nat m\<rfloor> else \<lfloor>q * of_nat m\<rfloor>))"
| "float_to_int NaN m = Inl ValueErr"
| "float_to_int f m = Inl OverflowErr"

definition parse_traffic_limit_bytes :: "pyfloat option \<Rightarrow> string option \<Rightarrow> (limit_error, int) result" where
  "parse_traffic_limit_bytes float_value unit_name =
     bindR (optionR ValueErr float_value) (\<lambda>amount.
     bindR (requireR (\<not> float_nonpositive amount) ValueErr) (\<lambda>_.
     bindR (optionR ValueErr (map_of TRAFFIC_LIMIT_UNITS (normalize_traffic_limit_unit unit_name))) (\<lambda>multiplier.
     bindR (float_to_int amount multiplier) (\<lambda>limit_bytes.
     bindR (requireR (limit_bytes \<ge> 1) ValueErr) (\<lambda>_. Inr limit_bytes)))))"

definition parse_traffic_limit_period_days :: "string option \<Rightarrow> (limit_error, int option) result" where
  "parse_traffic_limit_period_days v =
     (case v of
        None \<Rightarrow> Inr None
      | Some text \<Rightarrow>
          let raw = strip text in
          if raw = [] then Inr None
          else bindR (optionR ValueErr (read_int raw)) (\<lambda>period_days.
               if period_days \<in> set TRAFFIC_LIMIT_PERIOD_DAYS_ALLOWED then Inr (Some period_days) else Inl ValueErr))"

datatype period_label = PerCalendarDay | PerWeek | PerMonth | DaysLabel int | AllTime

definition format_traffic_limit_period_label :: "int option \<Rightarrow> period_label" where
  "format_traffic_limit_period_label period_days =
     (if period_days = Some 1 then PerCalendarDay
      else if period_days = Some 7 then PerWeek
      else if period_days = Some 30 then PerMonth
      else case period_days of None \<Rightarrow> AllTime | Some d \<Rightarrow> DaysLabel d)"

section \<open>Calendar periods\<close>

text \<open>
  \<^verbatim>\<open>get_traffic_limit_period_bounds\<close> for a clock that does not stand at the very ends of the
  representable range (years 1 and 9999), where the library raises.
\<close>

definition get_traffic_limit_period_bounds :: "int option \<Rightarrow> datetime \<Rightarrow> (datetime \<times> datetime) option" where
  "get_traffic_limit_period_bounds period_days now =
     (case period_days of
        None \<Rightarrow> None
      | Some p \<Rightarrow>
          if p \<notin> set TRAFFIC_LIMIT_PERIOD_DAYS_ALLOWED then None
          else let day_start = midnight now in
            if p = 1 then Some (day_start, day_start + days_of 1)
            else if p = 7 then
              (let week_start = day_start - days_of (weekday now) in Some (week_start, week_start + days_of 7))
            else
              (let month_start = days_of (ymd2ord (year day_start) (month day_start) 1);
                   month_end = (if month month_start = 12
                     then days_of (ymd2ord (year month_start + 1) 1 (day month_start))
                     else days_of (ymd2ord (year month_start) (month month_start + 1) (day month_start)))
               in Some (month_start, month_end)))"

definition get_traffic_limit_period_start :: "int option \<Rightarrow> datetime \<Rightarrow> datetime option" where
  "get_traffic_limit_period_start period_days now =
     map_option fst (get_traffic_limit_period_bounds period_days now)"

definition get_traffic_limit_period_unblock_at :: "int option \<Rightarrow> datetime \<Rightarrow> datetime option" where
  "get_traffic_limit_period_unblock_at period_days now =
     map_option snd (get_traffic_limit_period_bounds period_days now)"

definition two_digits :: "int \<Rightarrow> string" where
  "two_digits n = (if n < 10 then CHR ''0'' # show_int n else show_int n)"

definition seconds_of_day :: "datetime \<Rightarrow> int" where
  "seconds_of_day t = t mod microseconds_per_day div 1000000"

definition time_hm :: "datetime \<Rightarrow> string" where
  "time_hm t = two_digits (seconds_of_day t div 3600) @ '':'' @ two_digits (seconds_of_day t div 60 mod 60)"

definition strftime_full :: "datetime \<Rightarrow> string" where
  "strftime_full t =
     show_int (year t) @ ''-'' @ two_digits (month t) @ ''-'' @ two_digits (day t) @ '' '' @
     time_hm t @ '':'' @ two_digits (seconds_of_day t mod 60)"

definition strftime_dmy :: "datetime \<Rightarrow> string" where
  "strftime_dmy t = two_digits (day t) @ ''.'' @ two_digits (month t) @ ''.'' @ show_int (year t)"

text \<open>The label names a date, a time and, for a week, the week day.\<close>

datatype unblock_label = AutoUnblock string string "int option"

definition format_traffic_limit_unblock_at :: "int option \<Rightarrow> datetime \<Rightarrow> (string \<times> unblock_label) option" where
  "format_traffic_limit_unblock_at period_days now =
     (case get_traffic_limit_period_unblock_at period_days now of
        None \<Rightarrow> None
      | Some unblock_at \<Rightarrow>
          Some (strftime_full unblock_at,
                AutoUnblock (strftime_dmy unblock_at) (time_hm unblock_at)
                  (if period_days = Some 7 then Some (weekday unblock_at) else None)))"

section \<open>Consumed traffic\<close>

record traffic_sample =
  sample_name :: "string option"
  created_at :: datetime
  delta_received :: "int option"
  delta_sent :: "int option"

record traffic_stat =
  stat_name :: "string option"
  total_received :: "int option"
  total_sent :: "int option"

definition or_zero :: "int option \<Rightarrow> int" where
  "or_zero v = (case v of None \<Rightarrow> 0 | Some n \<Rightarrow> n)"

definition match_client_identities :: "(string \<Rightarrow> string) \<Rightarrow> string option list \<Rightarrow> string \<Rightarrow> string list" where
  "match_client_identities normalize_identity names client_name =
     (let target_identity = normalize_identity client_name in
      if target_identity = [] then []
      else filter (\<lambda>candidate. candidate \<noteq> [] \<and> normalize_identity candidate = target_identity)
             (map (\<lambda>stored_name. strip (case stored_name of None \<Rightarrow> [] | Some n \<Rightarrow> n)) (remdups names)))"

definition in_names :: "string list \<Rightarrow> string option \<Rightarrow> bool" where
  "in_names names v = (case v of None \<Rightarrow> False | Some n \<Rightarrow> n \<in> set names)"

definition sample_bytes :: "traffic_sample \<Rightarrow> int" where
  "sample_bytes row = or_zero (delta_received row) + or_zero (delta_sent row)"

definition stat_bytes :: "traffic_stat \<Rightarrow> int" where
  "stat_bytes row = or_zero (total_received row) + or_zero (total_sent row)"

definition get_client_consumed_traffic_bytes ::
  "(string \<Rightarrow> string) \<Rightarrow> traffic_sample list option \<Rightarrow> traffic_stat list \<Rightarrow> string \<Rightarrow> int option \<Rightarrow> datetime \<Rightarrow> int" where
  "get_client_consumed_traffic_bytes normalize_identity samples stats client_name period_days now =
     (case get_traffic_limit_period_bounds period_days now of
        Some (since_dt, until_dt) \<Rightarrow>
          (case samples of
             None \<Rightarrow> 0
           | Some rows \<Rightarrow>
               let matched_names = match_client_identities normalize_identity (map sample_name rows) client_name in
               if matched_names = [] then 0
               else sum_list (map sample_bytes
                      (filter (\<lambda>row. in_names matched_names (sample_name row)
                                 \<and> since_dt \<le> created_at row \<and> created_at row < until_dt) rows)))
      | None \<Rightarrow>
          let matched_names = match_client_identities normalize_identity (map stat_name stats) client_name in
          sum_list (map (\<lambda>candidate.
            sum_list (map stat_bytes (filter (\<lambda>row. stat_name row = Some candidate) stats))) matched_names))"

section \<open>The state of a limit\<close>

record traffic_state =
  ts_limit_bytes :: "int option"
  ts_period_days :: "int option"
  ts_period_label :: "period_label option"
  ts_unblock_at :: "string option"
  ts_unblock_label :: "unblock_label option"
  ts_consumed_bytes :: int
  ts_bytes_left :: "int option"
  ts_exceeded :: bool

definition resolve_traffic_limit_state :: "int option \<Rightarrow> int option \<Rightarrow> int \<Rightarrow> datetime \<Rightarrow> traffic_state" where
  "resolve_traffic_limit_state limit traffic_limit_period_days consumed_bytes now =
     (let consumed = max consumed_bytes 0;
          period_days = (case traffic_limit_period_days of
             None \<Rightarrow> None
           | Some p \<Rightarrow> if p \<in> set TRAFFIC_LIMIT_PERIOD_DAYS_ALLOWED then Some p else None)
      in case limit of
           Some n \<Rightarrow>
             if n < 1 then
               \<lparr>ts_limit_bytes = None, ts_period_days = None, ts_period_label = None, ts_unblock_at = None,
                ts_unblock_label = None, ts_consumed_bytes = consumed, ts_bytes_left = None, ts_exceeded = False\<rparr>
             else
               (let exceeded = (consumed \<ge> n); unblock = format_traffic_limit_unblock_at period_days now in
                \<lparr>ts_limit_bytes = Some n, ts_period_days = period_days,
                 ts_period_label = Some (format_traffic_limit_period_label period_days),
                 ts_unblock_at = map_option fst unblock, ts_unblock_label = map_option snd unblock,
                 ts_consumed_bytes = consumed,
                 ts_bytes_left = Some (if exceeded then 0 else max (n - consumed) 0), ts_exceeded = exceeded\<rparr>)
         | None \<Rightarrow>
             \<lparr>ts_limit_bytes = None, ts_period_days = None, ts_period_label = None, ts_unblock_at = None,
              ts_unblock_label = None, ts_consumed_bytes = consumed, ts_bytes_left = None, ts_exceeded = False\<rparr>)"

end
