(* ===== verification/TrafficProps.thy ===== *)
theory TrafficProps
  imports TrafficLimit
begin

text \<open>
  What the traffic limits promise: the periods cut the time line into calendar windows, the
  consumption is the sum of the client's rows in the window, and the state of a limit says
  whether it is exceeded.
\<close>

section \<open>The windows\<close>

lemma days_of_pos: "0 < microseconds_per_day"
  by (simp add: microseconds_per_day_def)

lemma days_of_add: "days_of (a + b) = days_of a + days_of b" and days_of_diff: "days_of (a - b) = days_of a - days_of b"
  by (simp_all add: days_of_def algebra_simps)

lemma toordinal_days_of [simp]: "toordinal (days_of n) = n"
  by (simp add: days_of_def)

lemma midnight_days_of: "midnight t = days_of (toordinal t)" and midnight_of_days [simp]: "midnight (days_of n) = days_of n"
  by (simp_all add: midnight_def days_of_def)

lemma toordinal_midnight [simp]: "toordinal (midnight t) = toordinal t"
  by (simp add: midnight_days_of)

lemma in_days: "days_of n \<le> t \<longleftrightarrow> n \<le> toordinal t" and before_days: "t < days_of n \<longleftrightarrow> toordinal t < n"
  by (simp_all add: days_of_def toordinal_le_iff toordinal_less_iff)

definition window :: "int \<Rightarrow> int \<Rightarrow> int \<times> int" where
  "window p n =
     (if p = 1 then (n, n + 1)
      else if p = 7 then (n - (n + 6) mod 7, n - (n + 6) mod 7 + 7)
      else (let k = month_number (days_of n) in (month_start k, month_start (k + 1))))"

lemma month_number_midnight: "month_number (midnight t) = month_number t"
  by (simp add: month_number_def year_def month_def)

lemma month_number_ordinal: "month_number (days_of (toordinal t)) = month_number t"
  by (simp add: month_number_def year_def month_def)

lemma month_window:
  assumes s: "s = days_of (ymd2ord (year (midnight t)) (month (midnight t)) 1)"
  shows "s = days_of (month_start (month_number t))"
    and "(if month s = 12 then days_of (ymd2ord (year s + 1) 1 (day s))
          else days_of (ymd2ord (year s) (month s + 1) (day s))) = days_of (month_start (month_number t + 1))"
    and "day s = 1" and "year s = year t" and "month s = month t"
proof -
  have same: "year (midnight t) = year t" "month (midnight t) = month t" by (simp_all add: year_def month_def)
  have v: "1 \<le> month t" "month t \<le> 12" using date_valid [of t] by (auto simp: valid_ymd_def)
  have ymd: "ord2ymd (toordinal s) = (year t, month t, 1)" unfolding s same by (simp add: ymd_of_month_start [OF v])
  show d: "day s = 1" and y: "year s = year t" and m: "month s = month t"
    by (simp_all add: day_def year_def month_def ymd del: toordinal_days_of)
  show "s = days_of (month_start (month_number t))"
    unfolding s same month_number_def using month_start_ymd [OF v, of "year t"] by simp
  obtain y' m' where nm: "next_month (year t, month t) = (y', m')" by fastforce
  show "(if month s = 12 then days_of (ymd2ord (year s + 1) 1 (day s))
          else days_of (ymd2ord (year s) (month s + 1) (day s))) = days_of (month_start (month_number t + 1))"
    using next_month_start [OF v nm] nm unfolding d y m month_number_def
    by (auto simp: next_month_def split: if_splits)
qed

lemma bounds_window:
  assumes "p \<in> set TRAFFIC_LIMIT_PERIOD_DAYS_ALLOWED"
  shows "get_traffic_limit_period_bounds (Some p) t =
    Some (days_of (fst (window p (toordinal t))), days_of (snd (window p (toordinal t))))"
proof -
  consider "p = 1" | "p = 7" | "p = 30" using assms by (auto simp: TRAFFIC_LIMIT_PERIOD_DAYS_ALLOWED_def)
  then show ?thesis
  proof cases
    case 1
    then show ?thesis using assms
      by (simp add: get_traffic_limit_period_bounds_def Let_def window_def midnight_days_of days_of_add)
  next
    case 2
    then show ?thesis using assms
      by (simp add: get_traffic_limit_period_bounds_def Let_def window_def midnight_days_of weekday_def days_of_add days_of_diff)
  next
    case 3
    show ?thesis unfolding get_traffic_limit_period_bounds_def Let_def
      using month_window(1,2) [OF refl, of t] 3 assms
      by (simp add: window_def Let_def month_number_ordinal)
  qed
qed

lemma monday: "(n::int) - (n + 6) mod 7 = 7 * ((n + 6) div 7) - 6"
  using div_mult_mod_eq [of "n + 6" 7] by linarith

lemma monday_weekday: "weekday (days_of (n - (n + 6) mod 7)) = 0"
  unfolding monday by (simp add: weekday_def)

lemma next_month_dates:
  assumes s: "s = days_of (month_start (month_number t))" and e: "e = days_of (month_start (month_number t + 1))"
  shows "day s = 1 \<and> day e = 1 \<and> (year e, month e) = next_month (year s, month s)"
proof -
  have v: "1 \<le> month t" "month t \<le> 12" using date_valid [of t] by (auto simp: valid_ymd_def)
  obtain y' m' where nm: "next_month (year t, month t) = (y', m')" by fastforce
  have v': "1 \<le> m'" "m' \<le> 12" using nm v by (auto simp: next_month_def split: if_splits)
  have "ord2ymd (toordinal s) = (year t, month t, 1)"
    unfolding s month_number_def month_start_ymd [OF v] by (simp add: ymd_of_month_start [OF v])
  moreover have "ord2ymd (toordinal e) = (y', m', 1)"
    unfolding e month_number_def next_month_start [OF v nm, symmetric] by (simp add: ymd_of_month_start [OF v'])
  ultimately show ?thesis using nm by (simp add: day_def month_def year_def)
qed

lemma window_holds:
  assumes "p \<in> set TRAFFIC_LIMIT_PERIOD_DAYS_ALLOWED"
  shows "fst (window p n) \<le> n \<and> n < snd (window p n)"
    and "fst (window p n) \<le> n' \<Longrightarrow> n' < snd (window p n) \<Longrightarrow> window p n' = window p n"
proof -
  consider "p = 1" | "p = 7" | "p = 30" using assms by (auto simp: TRAFFIC_LIMIT_PERIOD_DAYS_ALLOWED_def)
  then show "fst (window p n) \<le> n \<and> n < snd (window p n)"
  proof cases
    case 2
    have "0 \<le> (n + 6) mod 7" "(n + 6) mod 7 < 7" by simp_all
    then show ?thesis using 2 by (simp add: window_def)
  next
    case 3
    then show ?thesis using month_of_day [of "days_of n"] by (simp add: window_def Let_def)
  qed (simp add: window_def)
  assume n': "fst (window p n) \<le> n'" "n' < snd (window p n)"
  consider "p = 1" | "p = 7" | "p = 30" using assms by (auto simp: TRAFFIC_LIMIT_PERIOD_DAYS_ALLOWED_def)
  then show "window p n' = window p n"
  proof cases
    case 1
    then show ?thesis using n' by (simp add: window_def)
  next
    case 2
    define w where "w = n - (n + 6) mod 7"
    have w: "w = 7 * ((n + 6) div 7) - 6" unfolding w_def by (rule monday)
    then have "(n' + 6) mod 7 = n' - w"
      using n' 2 by (intro int_mod_pos_eq [where q = "(n + 6) div 7"]) (auto simp: window_def w_def [symmetric] w)
    then show ?thesis using 2 by (simp add: window_def w_def)
  next
    case 3
    then have "month_number (days_of n') = month_number (days_of n)"
      using n' by (intro month_number_unique) (simp_all add: window_def Let_def)
    then show ?thesis using 3 by (simp add: window_def)
  qed
qed

text \<open>For each allowed period (a day, a week, a month) the bounds of the current period hold
  the current instant, start at midnight, and are a calendar day, the week from Monday, or the
  month from its first day to the first day of the next month. Every other instant between the
  bounds has the same bounds: the periods do not overlap and leave no gap, so a counter is reset
  exactly at the announced end.\<close>

theorem period_bounds_partition:
  assumes "p \<in> set TRAFFIC_LIMIT_PERIOD_DAYS_ALLOWED"
  shows "\<exists>s e. get_traffic_limit_period_bounds (Some p) now = Some (s, e)
    \<and> s \<le> now \<and> now < e \<and> midnight s = s \<and> midnight e = e
    \<and> (p = 1 \<longrightarrow> e = s + days_of 1)
    \<and> (p = 7 \<longrightarrow> weekday s = 0 \<and> e = s + days_of 7)
    \<and> (p = 30 \<longrightarrow> day s = 1 \<and> day e = 1 \<and> (year e, month e) = next_month (year s, month s))
    \<and> (\<forall>t. s \<le> t \<and> t < e \<longrightarrow> get_traffic_limit_period_bounds (Some p) t = Some (s, e))"
proof -
  define n where "n = toordinal now"
  obtain a b where w: "window p n = (a, b)" by fastforce
  have bounds: "get_traffic_limit_period_bounds (Some p) now = Some (days_of a, days_of b)"
    using bounds_window [OF assms, of now] w by (simp add: n_def)
  have within: "a \<le> n" "n < b" using window_holds(1) [OF assms, of n] w by auto
  have same: "get_traffic_limit_period_bounds (Some p) t = Some (days_of a, days_of b)"
    if "days_of a \<le> t" "t < days_of b" for t
    using bounds_window [OF assms, of t] window_holds(2) [OF assms, of n "toordinal t"] w that
    by (simp add: in_days before_days)
  have shape: "(p = 1 \<longrightarrow> b = a + 1) \<and> (p = 7 \<longrightarrow> b = a + 7 \<and> weekday (days_of a) = 0)"
    using w monday_weekday [of n] by (auto simp: window_def split: if_splits)
  have month: "p = 30 \<Longrightarrow> a = month_start (month_number now) \<and> b = month_start (month_number now + 1)"
    using w by (auto simp: window_def Let_def n_def month_number_ordinal)
  show ?thesis
    by (intro exI [of _ "days_of a"] exI [of _ "days_of b"] conjI allI impI)
      (use bounds within shape same month next_month_dates [of "days_of a" now "days_of b"] in
        \<open>auto simp: in_days before_days days_of_add n_def\<close>)
qed

theorem period_bounds_partition_witness:
  "\<exists>s e. get_traffic_limit_period_bounds (Some 30) (days_of 738000) = Some (s, e)
     \<and> s \<le> days_of 738000 \<and> days_of 738000 < e \<and> day s = 1"
  using period_bounds_partition [of 30 "days_of 738000"] by (auto simp: TRAFFIC_LIMIT_PERIOD_DAYS_ALLOWED_def)

section \<open>The consumption\<close>

text \<open>The reference: a row counts when its name has the client's identity.\<close>

definition has_identity :: "(string \<Rightarrow> string) \<Rightarrow> string \<Rightarrow> string option \<Rightarrow> bool" where
  "has_identity normalize_identity client_name name =
     (normalize_identity client_name \<noteq> [] \<and>
      (case name of None \<Rightarrow> False
       | Some n \<Rightarrow> n \<noteq> [] \<and> normalize_identity n = normalize_identity client_name))"

definition clean_name :: "string option \<Rightarrow> bool" where
  "clean_name name = (case name of None \<Rightarrow> True | Some n \<Rightarrow> strip n = n)"

lemma matched_iff:
  assumes "\<forall>name \<in> set names. clean_name name" and "Some n \<in> set names"
  shows "n \<in> set (match_client_identities ident names client) \<longleftrightarrow> has_identity ident client (Some n)"
  using assms
  by (force simp: match_client_identities_def Let_def has_identity_def clean_name_def image_iff split: option.splits)

lemma matched_distinct:
  assumes "\<forall>name \<in> set names. clean_name name"
  shows "distinct (match_client_identities ident names client)"
proof -
  let ?f = "\<lambda>stored_name. strip (case stored_name of None \<Rightarrow> [] | Some n \<Rightarrow> n)"
  have key: "distinct (filter P (map ?f xs))"
    if "distinct xs" "\<forall>name \<in> set xs. clean_name name" "\<forall>c. P c \<longrightarrow> c \<noteq> []" for P xs
    using that
  proof (induction xs)
    case Nil
    then show ?case by simp
  next
    case (Cons x xs)
    have "?f x \<notin> set (filter P (map ?f xs))" if "P (?f x)"
    proof
      assume "?f x \<in> set (filter P (map ?f xs))"
      then obtain y where y: "y \<in> set xs" "?f y = ?f x" by auto
      have "?f x \<noteq> []" using Cons.prems(3) that by blast
      then have "x = y" using y Cons.prems(2) by (auto simp: clean_name_def strip_def lstrip_def rstrip_def split: option.splits)
      then show False using y(1) Cons.prems(1) by simp
    qed
    then show ?case using Cons by auto
  qed
  show ?thesis using key [of "remdups names"] assms by (auto simp: match_client_identities_def Let_def)
qed

lemma sum_by_name:
  assumes "distinct ns"
  shows "sum_list (map (\<lambda>n. sum_list (map f (filter (\<lambda>r. g r = Some n) rows))) ns) =
    (sum_list (map f (filter (\<lambda>r. \<exists>n. g r = Some n \<and> n \<in> set ns) rows)) :: int)"
  using assms
proof (induction ns)
  case Nil
  then show ?case by simp
next
  case (Cons a ns)
  have "sum_list (map f (filter (\<lambda>r. \<exists>n. g r = Some n \<and> n \<in> set (a # ns)) rows)) =
    sum_list (map f (filter (\<lambda>r. g r = Some a) rows)) +
    sum_list (map f (filter (\<lambda>r. \<exists>n. g r = Some n \<and> n \<in> set ns) rows))"
    using Cons.prems by (induction rows) auto
  then show ?case using Cons by simp
qed

lemma filter_matched:
  assumes "\<forall>r \<in> set rows. clean_name (g r)"
  shows "filter (\<lambda>r. in_names (match_client_identities ident (map g rows) client) (g r) \<and> Q r) rows =
    filter (\<lambda>r. has_identity ident client (g r) \<and> Q r) rows"
proof (rule filter_cong [OF refl])
  fix r assume r: "r \<in> set rows"
  show "(in_names (match_client_identities ident (map g rows) client) (g r) \<and> Q r) =
    (has_identity ident client (g r) \<and> Q r)"
  proof (cases "g r")
    case (Some n)
    then have "Some n \<in> set (map g rows)" using r by force
    then show ?thesis using matched_iff [of "map g rows" n ident client] assms Some by (simp add: in_names_def)
  qed (simp add: in_names_def has_identity_def)
qed

text \<open>When the stored names carry no white space around them, the traffic charged to a client
  is the sum over exactly the rows whose name has the client's identity: the samples created in
  the current period when a period is set, all totals otherwise.\<close>

theorem consumed_is_sum:
  assumes "\<forall>r \<in> set rows. clean_name (sample_name r)" and "\<forall>r \<in> set stats. clean_name (stat_name r)"
  shows "get_client_consumed_traffic_bytes ident (Some rows) stats client period now =
    (case get_traffic_limit_period_bounds period now of
       Some (s, e) \<Rightarrow> sum_list (map sample_bytes
         (filter (\<lambda>r. has_identity ident client (sample_name r) \<and> s \<le> created_at r \<and> created_at r < e) rows))
     | None \<Rightarrow> sum_list (map stat_bytes (filter (\<lambda>r. has_identity ident client (stat_name r)) stats)))"
proof (cases "get_traffic_limit_period_bounds period now")
  case (Some w)
  obtain s e where w: "w = (s, e)" by fastforce
  note eq = filter_matched [OF assms(1), of ident client "\<lambda>r. s \<le> created_at r \<and> created_at r < e"]
  show ?thesis
  proof (cases "match_client_identities ident (map sample_name rows) client = []")
    case True
    then have none: "filter (\<lambda>r. has_identity ident client (sample_name r) \<and> s \<le> created_at r \<and> created_at r < e) rows = []"
      using eq by (simp add: in_names_def split: option.splits)
    show ?thesis unfolding get_client_consumed_traffic_bytes_def Some w using True none by simp
  next
    case False
    then show ?thesis unfolding get_client_consumed_traffic_bytes_def Some w by (simp add: eq Let_def)
  qed
next
  case None
  let ?ns = "match_client_identities ident (map stat_name stats) client"
  have "distinct ?ns" by (rule matched_distinct) (use assms(2) in auto)
  then have "sum_list (map (\<lambda>n. sum_list (map stat_bytes (filter (\<lambda>r. stat_name r = Some n) stats))) ?ns) =
    sum_list (map stat_bytes (filter (\<lambda>r. \<exists>n. stat_name r = Some n \<and> n \<in> set ?ns) stats))"
    by (rule sum_by_name)
  moreover have "filter (\<lambda>r. \<exists>n. stat_name r = Some n \<and> n \<in> set ?ns) stats =
      filter (\<lambda>r. in_names ?ns (stat_name r) \<and> True) stats"
    by (rule filter_cong) (auto simp: in_names_def split: option.splits)
  ultimately show ?thesis unfolding get_client_consumed_traffic_bytes_def None
    using filter_matched [OF assms(2), of ident client "\<lambda>r. True"] by (simp add: Let_def)
qed

definition example_stats :: "traffic_stat list" where
  "example_stats =
     [\<lparr>stat_name = Some ''Ann'', total_received = Some 5, total_sent = None\<rparr>,
      \<lparr>stat_name = Some ''bob'', total_received = Some 7, total_sent = Some 1\<rparr>,
      \<lparr>stat_name = Some ''ann'', total_received = Some 2, total_sent = Some 3\<rparr>]"

theorem consumed_is_sum_witness:
  "get_client_consumed_traffic_bytes lower (Some []) example_stats ''ANN'' None 0 = 10"
  by (subst consumed_is_sum)
    (simp_all add: example_stats_def clean_name_def strip_def lstrip_def rstrip_def
      get_traffic_limit_period_bounds_def has_identity_def eval_simps stat_bytes_def or_zero_def)

text \<open>A name stored with white space around it is counted under its stripped name, so the rows of
  the stripped name are charged twice.\<close>

lemma padded_name_counts_twice:
  "get_client_consumed_traffic_bytes lower None
     [\<lparr>stat_name = Some ''ann'', total_received = Some 5, total_sent = None\<rparr>,
      \<lparr>stat_name = Some ''ann '', total_received = Some 0, total_sent = None\<rparr>] ''ann'' None 0 = 10"
  by (simp add: strip_def lstrip_def rstrip_def get_client_consumed_traffic_bytes_def match_client_identities_def
      get_traffic_limit_period_bounds_def Let_def eval_simps stat_bytes_def or_zero_def)

section \<open>The limit\<close>

text \<open>A limit is exceeded exactly when it is at least one byte and the consumption has reached
  it; then no byte is left, otherwise the bytes left and the consumption add up to the limit, and
  the announced end of the block is the end of the current period.\<close>

theorem limit_state_spec:
  "let st = resolve_traffic_limit_state limit period consumed now in
     ts_consumed_bytes st = max consumed 0
     \<and> (ts_exceeded st \<longleftrightarrow> (\<exists>n \<ge> 1. limit = Some n \<and> n \<le> max consumed 0))
     \<and> (case ts_limit_bytes st of
          None \<Rightarrow> ts_bytes_left st = None \<and> \<not> ts_exceeded st \<and> ts_unblock_at st = None
        | Some n \<Rightarrow> limit = Some n \<and> n \<ge> 1
            \<and> ts_bytes_left st = Some (max (n - max consumed 0) 0)
            \<and> ts_unblock_at st = map_option strftime_full (get_traffic_limit_period_unblock_at period now))"
proof (cases "\<exists>n \<ge> 1. limit = Some n")
  case True
  then obtain n where n: "limit = Some n" "\<not> n < 1" by auto
  have unblock: "map_option fst (format_traffic_limit_unblock_at
      (case period of None \<Rightarrow> None | Some p \<Rightarrow> if p \<in> set TRAFFIC_LIMIT_PERIOD_DAYS_ALLOWED then Some p else None) now) =
      map_option strftime_full (get_traffic_limit_period_unblock_at period now)"
    by (cases period) (simp_all add: format_traffic_limit_unblock_at_def get_traffic_limit_period_unblock_at_def
        get_traffic_limit_period_bounds_def split: option.splits)
  show ?thesis using n unblock by (auto simp: resolve_traffic_limit_state_def Let_def)
next
  case False
  then show ?thesis by (auto simp: resolve_traffic_limit_state_def Let_def split: option.splits)
qed

text \<open>A parsed limit is the amount times the unit, rounded down, and at least one byte; an
  amount that is not a positive number, an unknown unit or less than a byte is a value error.\<close>

theorem parsed_limit_bytes:
  "parse_traffic_limit_bytes f u = Inr n \<longleftrightarrow>
     (\<exists>q m. f = Some (Finite q) \<and> q > 0
        \<and> map_of TRAFFIC_LIMIT_UNITS (normalize_traffic_limit_unit u) = Some m
        \<and> q * of_nat m < 2 ^ 1024 \<and> n = \<lfloor>q * of_nat m\<rfloor> \<and> 1 \<le> n)"
proof (cases f)
  case None
  then show ?thesis by (simp add: parse_traffic_limit_bytes_def optionR_def)
next
  case (Some a)
  show ?thesis
  proof (cases a)
    case (Finite q)
    show ?thesis unfolding Some Finite parse_traffic_limit_bytes_def
      by (auto simp: result_simps abs_mult not_le)
  qed (auto simp: Some parse_traffic_limit_bytes_def result_simps)
qed

end
