(* ===== verification/WgPeers.thy ===== *)
theory WgPeers
  imports PyText PyFs
begin

text \<open>
  \<^verbatim>\<open>utils/wg_config_peers.py\<close>: the peers of the server's WireGuard and AmneziaWG configurations
  with the client names written in comments above them. The regular expressions are functions on
  a line without white space at its ends: names are compared without case, white space around
  the equals sign is dropped and the value may not be empty.
\<close>

record peer_state =
  ps_client_name :: string
  ps_public_key :: string
  ps_preshared_key :: string
  ps_allowed_ips :: string

record peer_row =
  interface_name :: string
  peer_public_key :: string
  client_name :: string
  preshared_key :: "string option"
  allowed_ips :: "string option"

definition none_if_empty :: "string \<Rightarrow> string option" where
  "none_if_empty s = (if s = [] then None else Some s)"

definition prefix_nocase :: "string \<Rightarrow> string \<Rightarrow> string option" where
  "prefix_nocase name line =
     (if lower (take (length name) line) = lower name then Some (drop (length name) line) else None)"

definition match_assign :: "string \<Rightarrow> string \<Rightarrow> string option" where
  "match_assign name line =
     (case prefix_nocase name line of
        None \<Rightarrow> None
      | Some after_name \<Rightarrow>
          (case lstrip after_name of
             [] \<Rightarrow> None
           | c # after_equals \<Rightarrow>
               if c = CHR ''='' \<and> lstrip after_equals \<noteq> [] then Some (strip after_equals) else None))"

definition match_client :: "string \<Rightarrow> string option" where
  "match_client line =
     (case line of [] \<Rightarrow> None | c # cs \<Rightarrow> if c = CHR 0x23 then match_assign ''Client'' (lstrip cs) else None)"

definition is_peer_header :: "string \<Rightarrow> bool" where
  "is_peer_header line \<longleftrightarrow> lower line = ''[peer]''"

definition is_section_header :: "string \<Rightarrow> bool" where
  "is_section_header line \<longleftrightarrow> starts_with ''['' line \<and> ends_with '']'' line"

definition flush_peer :: "string \<Rightarrow> peer_state option \<Rightarrow> peer_row list" where
  "flush_peer iface state =
     (case state of
        None \<Rightarrow> []
      | Some s \<Rightarrow>
          let peer_key = strip (ps_public_key s); name = strip (ps_client_name s) in
          if peer_key = [] \<or> name = [] then []
          else [\<lparr>interface_name = iface, peer_public_key = peer_key, client_name = name,
                 preshared_key = none_if_empty (strip (ps_preshared_key s)),
                 allowed_ips = none_if_empty (strip (ps_allowed_ips s))\<rparr>])"

text \<open>One line: the pending client name, the peer being read and the finished rows.\<close>

type_synonym peers_state = "string \<times> peer_state option \<times> peer_row list"

definition set_field :: "string \<Rightarrow> peer_state \<Rightarrow> peer_state" where
  "set_field line s =
     (case match_assign ''PublicKey'' line of
        Some v \<Rightarrow> s\<lparr>ps_public_key := v\<rparr>
      | None \<Rightarrow>
          (case match_assign ''PresharedKey'' line of
             Some v \<Rightarrow> s\<lparr>ps_preshared_key := v\<rparr>
           | None \<Rightarrow>
               (case match_assign ''AllowedIPs'' line of
                  Some v \<Rightarrow> s\<lparr>ps_allowed_ips := v\<rparr>
                | None \<Rightarrow> s)))"

definition peer_line :: "string \<Rightarrow> peers_state \<Rightarrow> string \<Rightarrow> peers_state" where
  "peer_line iface st raw_line =
     (case st of (pending, current, rows) \<Rightarrow>
        let line = strip raw_line in
        if line = [] then (pending, current, rows)
        else (case match_client line of
                Some name \<Rightarrow> (name, current, rows)
              | None \<Rightarrow>
                  if is_peer_header line then
                    ([], Some \<lparr>ps_client_name = pending, ps_public_key = [], ps_preshared_key = [], ps_allowed_ips = []\<rparr>,
                     rows @ flush_peer iface current)
                  else if is_section_header line then (pending, None, rows @ flush_peer iface current)
                  else (pending, map_option (set_field line) current, rows)))"

definition peer_rows_of_text :: "string \<Rightarrow> string \<Rightarrow> peer_row list" where
  "peer_rows_of_text iface text =
     (case foldl (peer_line iface) ([], None, []) (split_on LF text) of
        (pending, current, rows) \<Rightarrow> rows @ flush_peer iface current)"

definition parse_wireguard_config_peer_rows :: "fs \<Rightarrow> string \<Rightarrow> string \<Rightarrow> peer_row list" where
  "parse_wireguard_config_peer_rows fs config_path iface =
     (case read_ignore fs config_path of Inl e \<Rightarrow> [] | Inr text \<Rightarrow> peer_rows_of_text iface text)"

definition collect_client_peer_specs :: "fs \<Rightarrow> (string, string) dict \<Rightarrow> string \<Rightarrow> peer_row list" where
  "collect_client_peer_specs fs wireguard_config_files name =
     (let normalized = lower (strip name) in
      if normalized = [] then []
      else concat (map (\<lambda>(iface, config_path).
             let path = strip config_path in
             if path = [] then []
             else filter (\<lambda>row. lower (strip (client_name row)) = normalized)
                    (parse_wireguard_config_peer_rows fs path iface)) wireguard_config_files))"

section \<open>Every row is a real peer\<close>

definition peer_row_ok :: "peer_row \<Rightarrow> bool" where
  "peer_row_ok row \<longleftrightarrow> peer_public_key row \<noteq> [] \<and> client_name row \<noteq> []
     \<and> preshared_key row \<noteq> Some [] \<and> allowed_ips row \<noteq> Some []"

lemma flush_peer_ok: "row \<in> set (flush_peer iface s) \<Longrightarrow> peer_row_ok row \<and> interface_name row = iface"
  by (auto simp: flush_peer_def peer_row_ok_def none_if_empty_def Let_def split: option.splits if_splits)

lemma peer_line_rows:
  "snd (snd (peer_line iface (pending, current, rows) l)) = rows
   \<or> snd (snd (peer_line iface (pending, current, rows) l)) = rows @ flush_peer iface current"
  by (simp add: peer_line_def Let_def split: option.split)

lemma peer_rows_ok:
  assumes "row \<in> set (peer_rows_of_text iface text)"
  shows "peer_row_ok row \<and> interface_name row = iface"
proof -
  let ?good = "\<lambda>rows. \<forall>row \<in> set rows. peer_row_ok row \<and> interface_name row = iface"
  have flush: "?good (flush_peer iface c)" for c using flush_peer_ok by blast
  have step: "?good (snd (snd (peer_line iface st l)))" if "?good (snd (snd st))" for st l
  proof -
    obtain pending current rows where st: "st = (pending, current, rows)" by (cases st)
    from peer_line_rows [of iface pending current rows l] show ?thesis
      using that flush [of current] unfolding st by (elim disjE) (simp_all add: ball_Un)
  qed
  have "?good (snd (snd (foldl (peer_line iface) ([], None, []) (split_on LF text))))"
  proof (rule foldl_invariant [where I = "\<lambda>st. ?good (snd (snd st))"])
    show "?good (snd (snd ([], None, [])))" by simp
  qed (rule step)
  then have "?good (peer_rows_of_text iface text)"
    by (cases "foldl (peer_line iface) ([], None, []) (split_on LF text)")
      (use flush in \<open>simp add: peer_rows_of_text_def ball_Un\<close>)
  then show ?thesis using assms by blast
qed

lemma collected_specs_ok:
  assumes "row \<in> set (collect_client_peer_specs fs configs name)"
  shows "peer_row_ok row \<and> lower (strip (client_name row)) = lower (strip name) \<and> interface_name row \<in> fst ` set configs"
proof -
  obtain iface path where c: "(iface, path) \<in> set configs"
    and row: "row \<in> set (parse_wireguard_config_peer_rows fs (strip path) iface)"
    and name: "lower (strip (client_name row)) = lower (strip name)"
    using assms by (auto simp: collect_client_peer_specs_def Let_def split: if_splits)
  obtain t where "row \<in> set (peer_rows_of_text iface t)"
    using row by (auto simp: parse_wireguard_config_peer_rows_def split: sum.splits)
  from peer_rows_ok [OF this] show ?thesis using c name by force
qed

end
