(* ===== verification/WgRuntime.thy ===== *)
theory WgRuntime
  imports WgPeers PySort
begin

text \<open>
  Blocking and unblocking a client on the live WireGuard interfaces: the class of
  \<^verbatim>\<open>utils/wg_awg_runtime_enforcer.py\<close> and the command-line program
  \<^verbatim>\<open>utils/wg_awg_runtime_apply.py\<close>, which the panel runs as a subprocess. The kernel's state is
  the map from an interface and a public key to the allowed addresses of the live peer. A run of
  \<^verbatim>\<open>wg\<close> or \<^verbatim>\<open>wg-quick\<close> succeeds, fails or exceeds its time limit, as the environment says; when it
  succeeds it does what its manual says: \<^verbatim>\<open>wg set ... remove\<close> removes the peer, \<^verbatim>\<open>wg set\<close> adds or
  changes it, \<^verbatim>\<open>wg syncconf\<close> leaves exactly the peers of the stripped configuration.
\<close>

datatype wg_command =
    PeerRemove string string
  | PeerSet string string "string option" "string option"
  | QuickStrip string
  | SyncConf string

datatype run_outcome = Succeeds | Fails | Expires

datatype runtime_error = CommandTimeout | CommandFailed | BadClient

type_synonym live_peers = "(string \<times> string) \<Rightarrow> string option"

record cache_row =
  cache_interface :: string
  cache_public_key :: string
  cache_client :: string

record wg_env =
  wg_fs :: fs
  wireguard_config_files :: "(string, string) dict"
  peer_cache :: "cache_row list"
  run_of :: "wg_command \<Rightarrow> run_outcome"
  strip_output :: "string \<Rightarrow> string"
  declared_peers :: "string \<Rightarrow> string \<Rightarrow> string option"

fun apply_command :: "wg_env \<Rightarrow> wg_command \<Rightarrow> live_peers \<Rightarrow> live_peers" where
  "apply_command env (PeerRemove iface key) live = live((iface, key) := None)"
| "apply_command env (PeerSet iface key allowed psk) live =
     live((iface, key) := Some (case allowed of
        Some a \<Rightarrow> a
      | None \<Rightarrow> (case live (iface, key) of None \<Rightarrow> [] | Some a \<Rightarrow> a)))"
| "apply_command env (QuickStrip iface) live = live"
| "apply_command env (SyncConf iface) live =
     (\<lambda>(i, key). if i = iface then declared_peers env iface key else live (i, key))"

definition run_command :: "wg_env \<Rightarrow> wg_command \<Rightarrow> (live_peers, runtime_error, bool) prog" where
  "run_command env c live =
     (case run_of env c of
        Succeeds \<Rightarrow> (Inr True, apply_command env c live)
      | Fails \<Rightarrow> (Inr False, live)
      | Expires \<Rightarrow> (Inl CommandTimeout, live))"

section \<open>Finding the peers\<close>

definition ascii_lower :: "string \<Rightarrow> string" where
  "ascii_lower s = map (\<lambda>c. if is_upper c then lower_char c else c) s"

definition enforcer_normalize :: "string \<Rightarrow> string" where
  "enforcer_normalize name = lower (strip name)"

definition peer_specs_for_client :: "wg_env \<Rightarrow> string \<Rightarrow> peer_row list" where
  "peer_specs_for_client env name = collect_client_peer_specs (wg_fs env) (wireguard_config_files env) name"

definition cached_peers :: "wg_env \<Rightarrow> string \<Rightarrow> (string \<times> string) list" where
  "cached_peers env normalized =
     filter (\<lambda>(iface, key). iface \<noteq> [] \<and> key \<noteq> [])
       (map (\<lambda>row. (strip (cache_interface row), strip (cache_public_key row)))
         (filter (\<lambda>row. ascii_lower (cache_client row) = normalized) (peer_cache env)))"

definition config_peers :: "wg_env \<Rightarrow> string \<Rightarrow> (string \<times> string) list" where
  "config_peers env name =
     map (\<lambda>spec. (interface_name spec, peer_public_key spec))
       (filter (\<lambda>spec. interface_name spec \<noteq> [] \<and> peer_public_key spec \<noteq> []) (peer_specs_for_client env name))"

definition collect_client_peers :: "wg_env \<Rightarrow> string \<Rightarrow> (string \<times> string) list" where
  "collect_client_peers env name =
     (let normalized = enforcer_normalize name in
      if normalized = [] then []
      else let peers = cached_peers env normalized in
        if peers \<noteq> [] then peers else config_peers env name)"

section \<open>Changing the interfaces\<close>

definition sync_interface_from_stripped_config :: "wg_env \<Rightarrow> string \<Rightarrow> (live_peers, runtime_error, bool) prog" where
  "sync_interface_from_stripped_config env iface =
     bindP (run_command env (QuickStrip iface)) (\<lambda>ok.
       if \<not> ok then retP False
       else if strip (strip_output env iface) = [] then retP False
       else run_command env (SyncConf iface))"

definition restore_peer_spec :: "wg_env \<Rightarrow> peer_row \<Rightarrow> (live_peers, runtime_error, bool) prog" where
  "restore_peer_spec env spec =
     (let iface = strip (interface_name spec); key = strip (peer_public_key spec) in
      if iface = [] \<or> key = [] then retP False
      else run_command env (PeerSet iface key
        (case allowed_ips spec of None \<Rightarrow> None | Some a \<Rightarrow> none_if_empty (strip a))
        (case preshared_key spec of None \<Rightarrow> None | Some k \<Rightarrow> none_if_empty (strip k))))"

text \<open>A loop over targets: which were done and which failed; a time-out ends it.\<close>

definition each_target :: "('a \<Rightarrow> (live_peers, runtime_error, bool) prog) \<Rightarrow> 'a list
    \<Rightarrow> (live_peers, runtime_error, 'a list \<times> 'a list) prog" where
  "each_target f xs =
     bindP (mapP f xs) (\<lambda>oks. retP
       (map fst (filter snd (zip xs oks)), map fst (filter (\<lambda>p. \<not> snd p) (zip xs oks))))"

record runtime_result =
  done_count :: nat
  error_count :: nat

definition counts :: "'a list \<times> 'a list \<Rightarrow> runtime_result" where
  "counts r = \<lparr>done_count = length (fst r), error_count = length (snd r)\<rparr>"

definition block_client_runtime :: "wg_env \<Rightarrow> string \<Rightarrow> (live_peers, runtime_error, runtime_result) prog" where
  "block_client_runtime env name =
     bindP (each_target (\<lambda>(iface, key). run_command env (PeerRemove iface key)) (collect_client_peers env name))
       (\<lambda>r. retP (counts r))"

definition has_config :: "wg_env \<Rightarrow> string \<Rightarrow> bool" where
  "has_config env iface =
     (case map_of (wireguard_config_files env) iface of None \<Rightarrow> False | Some path \<Rightarrow> strip path \<noteq> [])"

definition unblock_client_runtime :: "wg_env \<Rightarrow> string \<Rightarrow> (live_peers, runtime_error, runtime_result) prog" where
  "unblock_client_runtime env name =
     (let specs = peer_specs_for_client env name in
      if specs \<noteq> [] then bindP (each_target (restore_peer_spec env) specs) (\<lambda>r. retP (counts r))
      else
        let found = sorted_set (filter (\<lambda>iface. iface \<noteq> []) (map fst (collect_client_peers env name)));
            interfaces = (if found = [] then sorted_set (keys (wireguard_config_files env)) else found)
        in bindP (each_target (sync_interface_from_stripped_config env) (filter (has_config env) interfaces))
             (\<lambda>r. retP (counts r)))"

section \<open>The command-line program\<close>

definition cli_normalize :: "string \<Rightarrow> string" where
  "cli_normalize name = lower (strip name)"

definition cli_peers_from_cache :: "wg_env \<Rightarrow> string \<Rightarrow> (string \<times> string) list" where
  "cli_peers_from_cache env name =
     (let normalized = cli_normalize name in
      if normalized = [] then []
      else filter (\<lambda>(iface, key). iface \<noteq> [] \<and> key \<noteq> [])
             (map (\<lambda>row. (strip (cache_interface row), strip (cache_public_key row)))
               (filter (\<lambda>row. ascii_lower (cache_client row) = normalized) (peer_cache env))))"

definition cli_peer_specs :: "wg_env \<Rightarrow> string \<Rightarrow> peer_row list" where
  "cli_peer_specs env name = collect_client_peer_specs (wg_fs env) (wireguard_config_files env) name"

definition cli_collect_client_peers :: "wg_env \<Rightarrow> string \<Rightarrow> (string \<times> string) list" where
  "cli_collect_client_peers env name =
     (let peers = cli_peers_from_cache env name in
      if peers \<noteq> [] then peers
      else map (\<lambda>spec. (interface_name spec, peer_public_key spec))
             (filter (\<lambda>spec. interface_name spec \<noteq> [] \<and> peer_public_key spec \<noteq> []) (cli_peer_specs env name)))"

definition cli_sync_interface :: "wg_env \<Rightarrow> string \<Rightarrow> (live_peers, runtime_error, bool) prog" where
  "cli_sync_interface env iface =
     bindP (run_command env (QuickStrip iface)) (\<lambda>ok.
       if \<not> ok then retP False
       else if strip (strip_output env iface) = [] then retP False
       else run_command env (SyncConf iface))"

definition cli_restore_peer_spec :: "wg_env \<Rightarrow> peer_row \<Rightarrow> (live_peers, runtime_error, bool) prog" where
  "cli_restore_peer_spec env spec =
     (let iface = strip (interface_name spec); key = strip (peer_public_key spec) in
      if iface = [] \<or> key = [] then retP False
      else run_command env (PeerSet iface key
        (case allowed_ips spec of None \<Rightarrow> None | Some a \<Rightarrow> none_if_empty (strip a))
        (case preshared_key spec of None \<Rightarrow> None | Some k \<Rightarrow> none_if_empty (strip k))))"

definition cli_block_client_runtime :: "wg_env \<Rightarrow> string \<Rightarrow> (live_peers, runtime_error, runtime_result) prog" where
  "cli_block_client_runtime env name =
     bindP (each_target (\<lambda>(iface, key). run_command env (PeerRemove iface key)) (cli_collect_client_peers env name))
       (\<lambda>r. retP (counts r))"

definition cli_unblock_client_runtime :: "wg_env \<Rightarrow> string \<Rightarrow> (live_peers, runtime_error, runtime_result) prog" where
  "cli_unblock_client_runtime env name =
     (let specs = cli_peer_specs env name in
      if specs \<noteq> [] then bindP (each_target (cli_restore_peer_spec env) specs) (\<lambda>r. retP (counts r))
      else
        let found = sorted_set (filter (\<lambda>iface. iface \<noteq> []) (map fst (cli_collect_client_peers env name)));
            interfaces = (if found = [] then sorted_set (keys (wireguard_config_files env)) else found)
        in bindP (each_target (cli_sync_interface env) (filter (has_config env) interfaces))
             (\<lambda>r. retP (counts r)))"

text \<open>\<^verbatim>\<open>main\<close>: the exit status and, unless it is 2, the counts printed as JSON.\<close>

definition cli_main :: "wg_env \<Rightarrow> string \<Rightarrow> bool \<Rightarrow> live_peers \<Rightarrow> (nat \<times> runtime_result option) \<times> live_peers" where
  "cli_main env client block live =
     (let name = strip client in
      if name = [] then ((2, None), live)
      else case (if block then cli_block_client_runtime env (cli_normalize name)
                 else cli_unblock_client_runtime env (cli_normalize name)) live of
             (Inl e, live') \<Rightarrow> ((2, None), live')
           | (Inr r, live') \<Rightarrow> ((if error_count r > 0 then 1 else 0, Some r), live'))"

text \<open>\<^verbatim>\<open>apply_wg_client_runtime\<close> of \<^verbatim>\<open>utils/wg_runtime_subprocess.py\<close>.\<close>

definition apply_wg_client_runtime :: "wg_env \<Rightarrow> string \<Rightarrow> bool \<Rightarrow> (live_peers, runtime_error, runtime_result) prog" where
  "apply_wg_client_runtime env name is_blocked live =
     (let normalized = strip name in
      if normalized = [] then (Inl BadClient, live)
      else case cli_main env normalized is_blocked live of
             ((status, payload), live') \<Rightarrow>
               (case payload of
                  None \<Rightarrow> (Inl CommandFailed, live')
                | Some r \<Rightarrow> if status = 2 then (Inl CommandFailed, live') else (Inr r, live')))"

section \<open>What the loops do\<close>

abbreviation remove_peer :: "wg_env \<Rightarrow> string \<times> string \<Rightarrow> (live_peers, runtime_error, bool) prog" where
  "remove_peer env \<equiv> (\<lambda>(iface, key). run_command env (PeerRemove iface key))"

lemma run_remove:
  "run_command env (PeerRemove i k) live = (r, live') \<Longrightarrow>
     live' = (if r = Inr True then live((i, k) := None) else live)"
  by (auto simp: run_command_def split: run_outcome.splits)

lemma each_target_clean:
  assumes "each_target f xs s = (Inr (completed, []), t)"
  shows "\<exists>oks. mapP f xs s = (Inr oks, t) \<and> list_all2 (\<lambda>x ok. ok) xs oks"
proof -
  obtain oks where m: "mapP f xs s = (Inr oks, t)" and none: "filter (\<lambda>p. \<not> snd p) (zip xs oks) = []"
    using assms by (auto simp: each_target_def result_simps)
  have "\<forall>p \<in> set (zip xs oks). snd p" using none by (simp add: filter_empty_conv)
  then show ?thesis using m mapP_length [OF m] by (intro exI [of _ oks]) (auto simp: list_all2_iff)
qed

lemma each_target_state:
  assumes "each_target f xs s = (r, t)"
  shows "\<exists>q. mapP f xs s = (q, t)"
  using assms by (cases "mapP f xs s") (auto simp: each_target_def bindP_def split: sum.splits)

text \<open>
  Removing peers never brings one back; when no error is reported all of them are gone and no
  other peer has changed.
\<close>

lemma remove_keeps_none:
  assumes "mapP (remove_peer env) ps live = (r, live')" and "live q = None"
  shows "live' q = None"
  by (rule mapP_preserves [where I = "\<lambda>l. l q = None", OF _ assms(2,1)])
    (auto dest!: run_remove split: if_splits)

lemma remove_keeps_others:
  assumes "mapP (remove_peer env) ps live = (r, live')" and "q \<notin> set ps"
  shows "live' q = live q"
  by (rule mapP_preserves [where I = "\<lambda>l. l q = live q", OF _ refl assms(1)])
    (use assms(2) in \<open>auto dest!: run_remove split: if_splits\<close>)

lemma remove_all:
  assumes "mapP (remove_peer env) ps live = (Inr oks, live')" and "list_all2 (\<lambda>x ok. ok) ps oks" and "p \<in> set ps"
  shows "live' p = None"
  by (rule mapP_achieves [where Q = "\<lambda>q l. l q = None", OF _ _ assms])
    (auto dest!: run_remove split: if_splits)

section \<open>The interface the access policy uses\<close>

text \<open>
  A runtime blocks and unblocks clients by name and reports how many commands failed. A
  successful block without errors disconnects the client; a block never reconnects anyone.
\<close>

locale peer_runtime =
  fixes apply_runtime :: "string \<Rightarrow> bool \<Rightarrow> ('k, 'e, runtime_result) prog"
    and disconnected :: "'k \<Rightarrow> string \<Rightarrow> bool"
  assumes block_disconnects:
      "apply_runtime name True k = (Inr r, k') \<Longrightarrow> error_count r = 0 \<Longrightarrow> disconnected k' name"
    and block_keeps: "apply_runtime name True k = (res, k') \<Longrightarrow> disconnected k other \<Longrightarrow> disconnected k' other"
begin

text \<open>After a loop of blocks without errors everyone in it is disconnected, and whoever was
  disconnected before still is.\<close>

lemma blocks_keep:
  assumes "mapP (\<lambda>n. apply_runtime n True) ns k = (res, k')" and "disconnected k other"
  shows "disconnected k' other"
  by (rule mapP_preserves [where I = "\<lambda>k. disconnected k other", OF _ assms(2,1)]) (rule block_keeps)

lemma blocks_disconnect:
  assumes "mapP (\<lambda>n. apply_runtime n True) ns k = (Inr rs, k')"
    and "\<forall>r \<in> set rs. error_count r = 0" and "n \<in> set ns"
  shows "disconnected k' n"
proof -
  have "list_all2 (\<lambda>n r. error_count r = 0) ns rs"
    using mapP_length [OF assms(1)] assms(2) by (auto simp: list_all2_iff dest: set_zip_rightD)
  show ?thesis
    by (rule mapP_achieves [where Q = "\<lambda>n k. disconnected k n", OF _ _ assms(1) \<open>list_all2 _ ns rs\<close> assms(3)])
      (rule block_disconnects block_keeps; assumption)+
qed

end

section \<open>The enforcer and the program provide it\<close>

definition all_gone :: "wg_env \<Rightarrow> live_peers \<Rightarrow> string \<Rightarrow> bool" where
  "all_gone env live name \<longleftrightarrow> (\<forall>p \<in> set (collect_client_peers env name). live p = None)"

definition enforcer_apply :: "wg_env \<Rightarrow> string \<Rightarrow> bool \<Rightarrow> (live_peers, runtime_error, runtime_result) prog" where
  "enforcer_apply env name is_blocked =
     (if is_blocked then block_client_runtime env name else unblock_client_runtime env name)"

lemma block_client_runtime_spec:
  assumes "block_client_runtime env name live = (Inr r, live')" and "error_count r = 0"
  shows "\<exists>oks. mapP (remove_peer env) (collect_client_peers env name) live = (Inr oks, live')
    \<and> list_all2 (\<lambda>x ok. ok) (collect_client_peers env name) oks"
proof -
  obtain completed where "each_target (remove_peer env) (collect_client_peers env name) live = (Inr (completed, []), live')"
    using assms by (auto simp: block_client_runtime_def result_simps counts_def)
  then show ?thesis by (rule each_target_clean)
qed

lemma block_client_runtime_state:
  assumes "block_client_runtime env name live = (res, live')"
  shows "\<exists>q. mapP (remove_peer env) (collect_client_peers env name) live = (q, live')"
  using assms
  by (cases "each_target (remove_peer env) (collect_client_peers env name) live")
    (auto simp: block_client_runtime_def bindP_def split: sum.splits dest: each_target_state)

lemma block_gone:
  assumes "block_client_runtime env name live = (Inr r, live')" and "error_count r = 0"
  shows "all_gone env live' name"
proof -
  obtain oks where 1: "mapP (remove_peer env) (collect_client_peers env name) live = (Inr oks, live')"
    and 2: "list_all2 (\<lambda>x ok. ok) (collect_client_peers env name) oks"
    using block_client_runtime_spec [OF assms] by auto
  show ?thesis unfolding all_gone_def by (intro ballI) (rule remove_all [OF 1 2])
qed

lemma block_keeps_gone:
  assumes "block_client_runtime env name live = (res, live')" and "all_gone env live other"
  shows "all_gone env live' other"
proof -
  obtain q where 1: "mapP (remove_peer env) (collect_client_peers env name) live = (q, live')"
    using block_client_runtime_state [OF assms(1)] by auto
  show ?thesis unfolding all_gone_def
    by (intro ballI) (rule remove_keeps_none [OF 1], use assms(2) in \<open>simp add: all_gone_def\<close>)
qed

interpretation enforcer: peer_runtime "enforcer_apply env" "all_gone env" for env
  by unfold_locales (simp_all add: enforcer_apply_def block_gone block_keeps_gone)

text \<open>
  The command-line program changes the kernel as the class does, and its exit status is 2 exactly
  when the class raises.
\<close>

lemma cli_same_parts:
  "cli_normalize = enforcer_normalize" "cli_peer_specs = peer_specs_for_client"
  "cli_sync_interface = sync_interface_from_stripped_config" "cli_restore_peer_spec = restore_peer_spec"
  by (intro ext; simp add: cli_normalize_def enforcer_normalize_def cli_peer_specs_def peer_specs_for_client_def
      cli_sync_interface_def sync_interface_from_stripped_config_def cli_restore_peer_spec_def restore_peer_spec_def)+

lemma no_specs_without_name: "enforcer_normalize name = [] \<Longrightarrow> peer_specs_for_client env name = []"
  by (simp add: enforcer_normalize_def peer_specs_for_client_def collect_client_peer_specs_def)

lemma cli_collect_same: "cli_collect_client_peers env name = collect_client_peers env name"
  by (simp add: cli_collect_client_peers_def collect_client_peers_def cli_peers_from_cache_def cli_same_parts
      Let_def cached_peers_def config_peers_def no_specs_without_name)

lemma cli_same: "cli_block_client_runtime = block_client_runtime" "cli_unblock_client_runtime = unblock_client_runtime"
  by (intro ext; simp add: cli_block_client_runtime_def block_client_runtime_def cli_collect_same
      cli_unblock_client_runtime_def unblock_client_runtime_def cli_same_parts Let_def)+

lemma normalize_idem [simp]:
  "enforcer_normalize (enforcer_normalize n) = enforcer_normalize n" "enforcer_normalize (strip n) = enforcer_normalize n"
  by (simp_all add: enforcer_normalize_def strip_lower)

lemma normalize_empty: "enforcer_normalize n = [] \<longleftrightarrow> strip n = []"
  by (simp add: enforcer_normalize_def lower_def)

lemma same_client:
  "peer_specs_for_client env (enforcer_normalize n) = peer_specs_for_client env n"
  "collect_client_peers env (enforcer_normalize n) = collect_client_peers env n"
  "peer_specs_for_client env (strip n) = peer_specs_for_client env n"
  "collect_client_peers env (strip n) = collect_client_peers env n"
proof -
  have a: "peer_specs_for_client env (enforcer_normalize n) = peer_specs_for_client env n" for n
    by (simp add: peer_specs_for_client_def collect_client_peer_specs_def enforcer_normalize_def strip_lower)
  have b: "peer_specs_for_client env (strip n) = peer_specs_for_client env n"
    by (simp add: peer_specs_for_client_def collect_client_peer_specs_def)
  show "peer_specs_for_client env (enforcer_normalize n) = peer_specs_for_client env n"
    "collect_client_peers env (enforcer_normalize n) = collect_client_peers env n"
    "peer_specs_for_client env (strip n) = peer_specs_for_client env n"
    "collect_client_peers env (strip n) = collect_client_peers env n"
    by (simp_all add: a b collect_client_peers_def config_peers_def Let_def)
qed

lemma enforcer_same_client: "enforcer_apply env (enforcer_normalize n) b = enforcer_apply env n b"
  by (intro ext) (simp add: enforcer_apply_def block_client_runtime_def unblock_client_runtime_def same_client Let_def)


lemma subprocess_state:
  assumes "apply_wg_client_runtime env name b live = (res, live')"
  shows "strip name = [] \<and> live' = live \<or> (\<exists>q. enforcer_apply env name b live = (q, live') \<and>
    (\<forall>r. res = Inr r \<longleftrightarrow> q = Inr r))"
proof (cases "strip name = []")
  case True
  then show ?thesis using assms by (simp add: apply_wg_client_runtime_def)
next
  case False
  obtain q l where q: "enforcer_apply env (strip name) b live = (q, l)" by fastforce
  have "enforcer_apply env (strip name) b = enforcer_apply env name b"
    by (metis enforcer_same_client normalize_idem(2))
  moreover have cli: "cli_main env (strip name) b live =
      (case q of Inl e \<Rightarrow> ((2, None), l) | Inr r \<Rightarrow> ((if error_count r > 0 then 1 else 0, Some r), l))"
    using False q enforcer_same_client [of env "strip name" b]
    by (simp add: cli_main_def cli_same cli_same_parts enforcer_apply_def split: sum.splits if_splits)
  ultimately show ?thesis using assms q False
    by (auto simp: apply_wg_client_runtime_def split: sum.splits if_splits)
qed

interpretation subprocess: peer_runtime "apply_wg_client_runtime env" "all_gone env" for env
proof
  fix name k r k'
  assume a: "apply_wg_client_runtime env name True k = (Inr r, k')" "error_count r = 0"
  then have "strip name \<noteq> []" by (auto simp: apply_wg_client_runtime_def)
  then have "enforcer_apply env name True k = (Inr r, k')" using subprocess_state [OF a(1)] by auto
  then show "all_gone env k' name" using a(2) by (rule enforcer.block_disconnects)
next
  fix name k res k' other
  assume a: "apply_wg_client_runtime env name True k = (res, k')" "all_gone env k other"
  then show "all_gone env k' other" using subprocess_state [OF a(1)] enforcer.block_keeps by blast
qed

text \<open>Unblocking restores every peer of the client's configuration.\<close>

definition spec_peer :: "peer_row \<Rightarrow> string \<times> string" where
  "spec_peer spec = (strip (interface_name spec), strip (peer_public_key spec))"

lemma restore_spec:
  assumes "restore_peer_spec env spec live = (r, live')"
  shows "(\<forall>p. p \<noteq> spec_peer spec \<longrightarrow> live' p = live p) \<and> (live p \<noteq> None \<longrightarrow> live' p \<noteq> None)
    \<and> (r = Inr True \<longrightarrow> live' (spec_peer spec) \<noteq> None)"
  using assms
  by (auto simp: restore_peer_spec_def run_command_def Let_def spec_peer_def split: if_splits run_outcome.splits)

lemma unblock_spec:
  assumes "peer_specs_for_client env name \<noteq> []"
    and "unblock_client_runtime env name live = (Inr r, live')" and "error_count r = 0"
  shows "\<forall>spec \<in> set (peer_specs_for_client env name). live' (spec_peer spec) \<noteq> None"
    and "\<forall>p. p \<notin> spec_peer ` set (peer_specs_for_client env name) \<longrightarrow> live' p = live p"
proof -
  let ?specs = "peer_specs_for_client env name"
  obtain completed where "each_target (restore_peer_spec env) ?specs live = (Inr (completed, []), live')"
    using assms by (auto simp: unblock_client_runtime_def result_simps counts_def)
  from each_target_clean [OF this] obtain oks where m: "mapP (restore_peer_spec env) ?specs live = (Inr oks, live')"
    and good: "list_all2 (\<lambda>x ok. ok) ?specs oks" by auto
  have "live' (spec_peer spec) \<noteq> None" if "spec \<in> set ?specs" for spec
  proof (rule mapP_achieves [where Q = "\<lambda>spec l. l (spec_peer spec) \<noteq> None", OF _ _ m good that])
    fix x s y s'
    assume "restore_peer_spec env x s = (Inr y, s')" y
    then show "s' (spec_peer x) \<noteq> None" using restore_spec [of env x s "Inr y" s'] by simp
  next
    fix x z s r s'
    assume "s (spec_peer x) \<noteq> None" "restore_peer_spec env z s = (r, s')"
    then show "s' (spec_peer x) \<noteq> None" using restore_spec [of env z s r s'] by blast
  qed
  then show "\<forall>spec \<in> set ?specs. live' (spec_peer spec) \<noteq> None" by blast
  have "live' p = live p" if "p \<notin> spec_peer ` set ?specs" for p
  proof (rule mapP_preserves [where I = "\<lambda>l. l p = live p", OF _ refl m])
    fix x s r s'
    assume "x \<in> set ?specs" "s p = live p" "restore_peer_spec env x s = (r, s')"
    moreover from this(1) have "p \<noteq> spec_peer x" using that by blast
    ultimately show "s' p = live p" using restore_spec [of env x s r s' p] by (cases p) simp
  qed
  then show "\<forall>p. p \<notin> spec_peer ` set ?specs \<longrightarrow> live' p = live p" by blast
qed

text \<open>A block that reports no error removes exactly the client's peers from the live interfaces; an
  unblock of a client with peers in the configuration that reports no error makes each of them
  live again; in both cases no other peer changes.\<close>

theorem block_and_unblock_peers:
  assumes "enforcer_apply env name True live = (Inr r, blocked)" and "error_count r = 0"
    and "peer_specs_for_client env name \<noteq> []"
    and "enforcer_apply env name False blocked = (Inr r', unblocked)" and "error_count r' = 0"
  shows "(\<forall>p. blocked p = (if p \<in> set (collect_client_peers env name) then None else live p))
    \<and> (\<forall>spec \<in> set (peer_specs_for_client env name). unblocked (spec_peer spec) \<noteq> None)
    \<and> (\<forall>p. p \<notin> spec_peer ` set (peer_specs_for_client env name) \<longrightarrow> unblocked p = blocked p)"
proof -
  have b: "block_client_runtime env name live = (Inr r, blocked)" using assms(1) by (simp add: enforcer_apply_def)
  have u: "unblock_client_runtime env name blocked = (Inr r', unblocked)" using assms(4) by (simp add: enforcer_apply_def)
  obtain oks where m: "mapP (remove_peer env) (collect_client_peers env name) live = (Inr oks, blocked)"
    using block_client_runtime_spec [OF b assms(2)] by auto
  have "blocked p = (if p \<in> set (collect_client_peers env name) then None else live p)" for p
    using block_gone [OF b assms(2)] remove_keeps_others [OF m] by (auto simp: all_gone_def)
  then show ?thesis using unblock_spec [OF assms(3) u assms(5)] by blast
qed

definition example_env :: wg_env where
  "example_env =
     \<lparr>wg_fs = [(''/etc/wireguard/vpn.conf'', File (unlines [''# Client = Ann'', ''[Peer]'', ''PublicKey = K'']) 384)],
      wireguard_config_files = [(''vpn'', ''/etc/wireguard/vpn.conf'')],
      peer_cache = [], run_of = (\<lambda>c. Succeeds), strip_output = (\<lambda>i. []), declared_peers = (\<lambda>i k. None)\<rparr>"

lemma example_specs:
  "peer_specs_for_client example_env ''ann'' =
     [\<lparr>interface_name = ''vpn'', peer_public_key = ''K'', client_name = ''Ann'', preshared_key = None, allowed_ips = None\<rparr>]"
  by code_simp

lemma example_peers: "collect_client_peers example_env ''ann'' = [(''vpn'', ''K'')]"
  by code_simp

theorem block_and_unblock_peers_witness:
  "\<exists>r blocked r' unblocked. enforcer_apply example_env ''ann'' True (Map.empty((''vpn'', ''K'') \<mapsto> [])) = (Inr r, blocked)
     \<and> enforcer_apply example_env ''ann'' False blocked = (Inr r', unblocked)
     \<and> blocked (''vpn'', ''K'') = None \<and> unblocked (''vpn'', ''K'') \<noteq> None"
proof -
  have run: "run_of example_env = (\<lambda>c. Succeeds)" by (simp add: example_env_def)
  obtain blocked r where b: "enforcer_apply example_env ''ann'' True (Map.empty((''vpn'', ''K'') \<mapsto> [])) = (Inr r, blocked)"
    and r: "error_count r = 0"
    by (simp add: enforcer_apply_def block_client_runtime_def example_peers each_target_def run_command_def run
        counts_def bindP_def)
  obtain unblocked r' where u: "enforcer_apply example_env ''ann'' False blocked = (Inr r', unblocked)"
    and r': "error_count r' = 0"
    by (simp add: enforcer_apply_def unblock_client_runtime_def example_specs each_target_def restore_peer_spec_def
        run_command_def run counts_def bindP_def Let_def strip_def lstrip_def rstrip_def)
  show ?thesis
    using block_and_unblock_peers [OF b r _ u r'] b u
    by (auto simp: example_specs example_peers spec_peer_def strip_def lstrip_def rstrip_def)
qed

end
