(* ===== verification/WgPolicy.thy ===== *)
theory WgPolicy
  imports TrafficLimit WgRuntime
begin

text \<open>
  \<^verbatim>\<open>core/services/wg_access_policy.py\<close>: terms of access, manual blocks and traffic limits of the
  WireGuard clients. The table \<^verbatim>\<open>wg_access_policy\<close> is a dictionary from client names to rows in
  the order of their ids. The state holds the rows as the database session sees them, the rows
  that are committed and the state of the runtime; a request that raises is rolled back by the
  session's removal. The clock, the traffic consumption and the runtime are arguments; the clock
  does not advance within one operation.
\<close>

record wg_row =
  is_temp_blocked :: bool
  is_permanent_blocked :: bool
  block_reason :: "string option"
  block_started_at :: "datetime option"
  block_days :: "int option"
  block_until :: "datetime option"
  expires_at :: "datetime option"
  limit_bytes :: "int option"
  limit_period :: "int option"
  updated_by :: "string option"

definition new_row :: wg_row where
  "new_row = \<lparr>is_temp_blocked = False, is_permanent_blocked = False, block_reason = None,
     block_started_at = None, block_days = None, block_until = None, expires_at = None,
     limit_bytes = None, limit_period = None, updated_by = None\<rparr>"

record 'k wg_state =
  wg_rows :: "(string, wg_row) dict"
  wg_committed :: "(string, wg_row) dict"
  wg_kernel :: 'k

datatype policy_error = InvalidValue | ExpiredRequiresExtend | TrafficLimitExceeded | DateOverflow | RuntimeFailure

record 'k wg_service =
  clock :: datetime
  consumed_bytes :: "string \<Rightarrow> int option \<Rightarrow> int"
  runtime_enabled :: bool
  runtime_apply :: "string \<Rightarrow> bool \<Rightarrow> ('k, policy_error, runtime_result) prog"

type_synonym ('k, 'a) wg_prog = "('k wg_state, policy_error, 'a) prog"

definition commit :: "('k, unit) wg_prog" where
  "commit = modifyP (\<lambda>s. s\<lparr>wg_committed := wg_rows s\<rparr>)"

definition put_row :: "string \<Rightarrow> wg_row \<Rightarrow> ('k, unit) wg_prog" where
  "put_row name row = modifyP (\<lambda>s. s\<lparr>wg_rows := AList.update name row (wg_rows s)\<rparr>)"

definition on_kernel :: "('k, policy_error, 'a) prog \<Rightarrow> ('k, 'a) wg_prog" where
  "on_kernel m s = (case m (wg_kernel s) of (r, k) \<Rightarrow> (r, s\<lparr>wg_kernel := k\<rparr>))"

definition normalize_client_name :: "string \<Rightarrow> string" where
  "normalize_client_name name = lower (strip name)"

definition clean_actor :: "string option \<Rightarrow> string option" where
  "clean_actor actor = (case actor of None \<Rightarrow> None | Some a \<Rightarrow> none_if_empty (strip a))"

text \<open>\<^verbatim>\<open>_get_or_create\<close>: a missing row is added to the session.\<close>

definition get_or_create :: "string \<Rightarrow> ('k, (string \<times> wg_row) option) wg_prog" where
  "get_or_create name s =
     (let normalized = normalize_client_name name in
      if normalized = [] then (Inr None, s)
      else case map_of (wg_rows s) normalized of
             Some row \<Rightarrow> (Inr (Some (normalized, row)), s)
           | None \<Rightarrow> (Inr (Some (normalized, new_row)),
                      s\<lparr>wg_rows := AList.update normalized new_row (wg_rows s)\<rparr>))"

definition required_row :: "string \<Rightarrow> ('k, string \<times> wg_row) wg_prog" where
  "required_row name = bindP (get_or_create name) (\<lambda>r. case r of None \<Rightarrow> raiseP InvalidValue | Some p \<Rightarrow> retP p)"

text \<open>
  \<^verbatim>\<open>_apply_client_runtime\<close> on the live interfaces, in the subprocess mode or with the enforcer;
  an exception of the runtime ends the operation.
\<close>

definition as_policy :: "('k, runtime_error, 'a) prog \<Rightarrow> ('k, policy_error, 'a) prog" where
  "as_policy m k = (case m k of (Inl e, k') \<Rightarrow> (Inl RuntimeFailure, k') | (Inr x, k') \<Rightarrow> (Inr x, k'))"

definition apply_client_runtime ::
  "bool \<Rightarrow> wg_env \<Rightarrow> string \<Rightarrow> bool \<Rightarrow> (live_peers, policy_error, runtime_result) prog" where
  "apply_client_runtime use_subprocess_runtime env name is_blocked =
     as_policy (if use_subprocess_runtime then apply_wg_client_runtime env name is_blocked
                else enforcer_apply env (normalize_client_name name) is_blocked)"

section \<open>The effective state of a row\<close>

definition is_access_expired :: "wg_row \<Rightarrow> datetime \<Rightarrow> bool" where
  "is_access_expired row now = (case expires_at row of None \<Rightarrow> False | Some t \<Rightarrow> t \<le> now)"

definition resolve_traffic_state :: "'k wg_service \<Rightarrow> string \<Rightarrow> wg_row \<Rightarrow> traffic_state" where
  "resolve_traffic_state svc name row =
     resolve_traffic_limit_state (limit_bytes row) (limit_period row)
       (consumed_bytes svc name (limit_period row)) (clock svc)"

definition is_traffic_limit_exceeded :: "'k wg_service \<Rightarrow> string \<Rightarrow> wg_row \<Rightarrow> bool" where
  "is_traffic_limit_exceeded svc name row = ts_exceeded (resolve_traffic_state svc name row)"

definition resolve_days_left :: "datetime option \<Rightarrow> datetime \<Rightarrow> int option" where
  "resolve_days_left target_dt now = map_option (\<lambda>t. delta_days (t - now)) target_dt"

record effective_state =
  es_is_blocked :: bool
  es_reason :: "string option"
  es_expired :: bool
  es_temp_blocked :: bool
  es_permanent_blocked :: bool
  es_traffic_exceeded :: bool
  es_block_mode :: string
  es_access_days_left :: "int option"
  es_blocked_days_left :: "int option"
  es_block_duration_days :: "int option"
  es_block_started_at :: "datetime option"
  es_traffic :: traffic_state

definition resolve_effective_state :: "'k wg_service \<Rightarrow> string \<Rightarrow> wg_row \<Rightarrow> effective_state" where
  "resolve_effective_state svc name row =
     (let now = clock svc;
          permanent_blocked = is_permanent_blocked row;
          expired = is_access_expired row now;
          temp_blocked = (is_temp_blocked row \<and> (case block_until row of None \<Rightarrow> True | Some t \<Rightarrow> t > now));
          traffic = resolve_traffic_state svc name row;
          traffic_exceeded = ts_exceeded traffic
      in \<lparr>es_is_blocked = (expired \<or> permanent_blocked \<or> temp_blocked \<or> traffic_exceeded),
          es_reason = (if expired then Some ''expired''
                       else if permanent_blocked then Some ''manual_permanent''
                       else if temp_blocked then Some ''manual_temp''
                       else if traffic_exceeded then Some ''traffic_limit'' else None),
          es_expired = expired, es_temp_blocked = temp_blocked, es_permanent_blocked = permanent_blocked,
          es_traffic_exceeded = traffic_exceeded,
          es_block_mode = (if expired then ''expired''
                           else if permanent_blocked then ''permanent''
                           else if temp_blocked then ''temp''
                           else if traffic_exceeded then ''traffic_limit'' else ''none''),
          es_access_days_left = resolve_days_left (expires_at row) now,
          es_blocked_days_left = (if temp_blocked then resolve_days_left (block_until row) now else None),
          es_block_duration_days = block_days row, es_block_started_at = block_started_at row,
          es_traffic = traffic\<rparr>)"

definition cleanup_expired_temp_block :: "wg_row \<Rightarrow> datetime \<Rightarrow> bool \<times> wg_row" where
  "cleanup_expired_temp_block row now =
     (if is_temp_blocked row \<and> (case block_until row of None \<Rightarrow> False | Some t \<Rightarrow> t \<le> now)
      then (True, row\<lparr>is_temp_blocked := False, block_started_at := None, block_days := None, block_until := None,
              block_reason := (if block_reason row = Some ''manual_temp'' then None else block_reason row)\<rparr>)
      else (False, row))"

text \<open>The row after the clean-up with the reason that now holds, and whether anything changed.\<close>

definition reconcile_row :: "'k wg_service \<Rightarrow> string \<Rightarrow> wg_row \<Rightarrow> bool \<times> wg_row \<times> effective_state" where
  "reconcile_row svc name row =
     (let (changed, row1) = cleanup_expired_temp_block row (clock svc);
          state = resolve_effective_state svc name row1
      in if block_reason row1 \<noteq> es_reason state then (True, row1\<lparr>block_reason := es_reason state\<rparr>, state)
         else (changed, row1, state))"

section \<open>Reconciliation\<close>

definition reapply_all_blocked_runtime :: "'k wg_service \<Rightarrow> ('k, runtime_result list) wg_prog" where
  "reapply_all_blocked_runtime svc =
     bindP (getsP (\<lambda>s. Inr (map fst (filter (\<lambda>(name, row). es_is_blocked (resolve_effective_state svc name row))
                             (wg_rows s)))))
       (\<lambda>names. on_kernel (mapP (\<lambda>name. runtime_apply svc name True) names))"

text \<open>
  Storing the reconciled row of a client and applying its state; after an unblock every other
  block is applied again, because synchronising an interface can bring a removed peer back.
\<close>

definition reconcile_found ::
  "'k wg_service \<Rightarrow> string \<Rightarrow> bool \<Rightarrow> bool \<times> wg_row \<times> effective_state
     \<Rightarrow> ('k, (effective_state \<times> runtime_result list) option) wg_prog" where
  "reconcile_found svc normalized apply_it = (\<lambda>(changed, row', state).
     bindP (put_row normalized row') (\<lambda>_.
     bindP (if changed then commit else retP ()) (\<lambda>_.
     if \<not> apply_it \<or> \<not> runtime_enabled svc then retP (Some (state, []))
     else bindP (on_kernel (runtime_apply svc normalized (es_is_blocked state))) (\<lambda>r.
       if es_is_blocked state then retP (Some (state, [r]))
       else bindP (reapply_all_blocked_runtime svc) (\<lambda>rs. retP (Some (state, r # rs)))))))"

definition reconcile_client_policy ::
  "'k wg_service \<Rightarrow> string \<Rightarrow> bool \<Rightarrow> ('k, (effective_state \<times> runtime_result list) option) wg_prog" where
  "reconcile_client_policy svc name apply_it =
     (let normalized = normalize_client_name name in
      if normalized = [] then retP None
      else bindP (getsP (\<lambda>s. Inr (map_of (wg_rows s) normalized))) (\<lambda>found.
        case found of
          None \<Rightarrow> retP None
        | Some row \<Rightarrow> reconcile_found svc normalized apply_it (reconcile_row svc normalized row)))"

definition reconcile_rows :: "'k wg_service \<Rightarrow> (string, wg_row) dict \<Rightarrow> (string \<times> bool \<times> wg_row \<times> effective_state) list" where
  "reconcile_rows svc d = map (\<lambda>(name, row). (name, reconcile_row svc name row)) d"

definition reconcile_all ::
  "'k wg_service \<Rightarrow> bool \<Rightarrow> ('k, string list \<times> string list \<times> runtime_result list) wg_prog" where
  "reconcile_all svc apply_it =
     bindP (getsP (\<lambda>s. Inr (reconcile_rows svc (wg_rows s)))) (\<lambda>results.
       let blocked_clients = map fst (filter (\<lambda>(name, changed, row, state). es_is_blocked state) results);
           unblocked_clients = map fst (filter (\<lambda>(name, changed, row, state). \<not> es_is_blocked state) results)
       in bindP (modifyP (\<lambda>s. s\<lparr>wg_rows := map (\<lambda>(name, changed, row, state). (name, row)) results\<rparr>)) (\<lambda>_.
          bindP (if list_ex (\<lambda>(name, changed, row, state). changed) results then commit else retP ()) (\<lambda>_.
          if \<not> apply_it \<or> \<not> runtime_enabled svc then retP (blocked_clients, unblocked_clients, [])
          else bindP (on_kernel (mapP (\<lambda>name. runtime_apply svc name False) unblocked_clients)) (\<lambda>us.
               bindP (on_kernel (mapP (\<lambda>name. runtime_apply svc name True) blocked_clients)) (\<lambda>bs.
               retP (blocked_clients, unblocked_clients, us @ bs))))))"

section \<open>The operations of the administrator\<close>

text \<open>Storing a changed row, committing it and bringing the runtime in line with it.\<close>

definition store_and_apply :: "'k wg_service \<Rightarrow> string \<Rightarrow> string \<times> wg_row \<Rightarrow> ('k, unit) wg_prog" where
  "store_and_apply svc name r =
     bindP (put_row (fst r) (snd r)) (\<lambda>_.
     bindP commit (\<lambda>_.
     bindP (reconcile_client_policy svc name True) (\<lambda>_. retP ())))"

definition set_traffic_limit_bytes ::
  "'k wg_service \<Rightarrow> string \<Rightarrow> int \<Rightarrow> int option \<Rightarrow> string option \<Rightarrow> ('k, unit) wg_prog" where
  "set_traffic_limit_bytes svc name n period actor =
     (if n < 1 then raiseP InvalidValue
      else bindP (required_row name) (\<lambda>(key, row).
        bindP (put_row key (row\<lparr>limit_bytes := Some n\<rparr>)) (\<lambda>_.
        if (case period of None \<Rightarrow> False | Some p \<Rightarrow> p \<notin> set TRAFFIC_LIMIT_PERIOD_DAYS_ALLOWED)
        then raiseP InvalidValue
        else store_and_apply svc name
               (key, row\<lparr>limit_bytes := Some n, limit_period := period, updated_by := clean_actor actor\<rparr>))))"

definition clear_traffic_limit :: "'k wg_service \<Rightarrow> string \<Rightarrow> string option \<Rightarrow> ('k, unit) wg_prog" where
  "clear_traffic_limit svc name actor =
     bindP (required_row name) (\<lambda>(key, row).
       store_and_apply svc name
         (key, row\<lparr>limit_bytes := None, limit_period := None, updated_by := clean_actor actor\<rparr>))"

definition set_expiry_days ::
  "'k wg_service \<Rightarrow> string \<Rightarrow> int \<Rightarrow> string option \<Rightarrow> bool \<Rightarrow> ('k, unit) wg_prog" where
  "set_expiry_days svc name days actor extending =
     (if days < 1 then raiseP InvalidValue
      else bindP (required_row name) (\<lambda>(key, row).
        let base_dt = (case expires_at row of
              Some t \<Rightarrow> if extending \<and> t > clock svc then t else clock svc
            | None \<Rightarrow> clock svc)
        in case add_days base_dt days of
             None \<Rightarrow> raiseP DateOverflow
           | Some t \<Rightarrow> store_and_apply svc name
               (key, row\<lparr>expires_at := Some t, updated_by := clean_actor actor\<rparr>)))"

definition set_temp_block_days ::
  "'k wg_service \<Rightarrow> string \<Rightarrow> int \<Rightarrow> string option \<Rightarrow> ('k, unit) wg_prog" where
  "set_temp_block_days svc name days actor =
     (if days < 1 then raiseP InvalidValue
      else bindP (required_row name) (\<lambda>(key, row).
        let row1 = row\<lparr>is_temp_blocked := True, is_permanent_blocked := False, block_reason := Some ''manual_temp'',
              block_started_at := Some (clock svc), block_days := Some days\<rparr>
        in bindP (put_row key row1) (\<lambda>_.
           case add_days (clock svc) days of
             None \<Rightarrow> raiseP DateOverflow
           | Some t \<Rightarrow> store_and_apply svc name
               (key, row1\<lparr>block_until := Some t, updated_by := clean_actor actor\<rparr>))))"

definition set_permanent_block :: "'k wg_service \<Rightarrow> string \<Rightarrow> string option \<Rightarrow> ('k, unit) wg_prog" where
  "set_permanent_block svc name actor =
     bindP (required_row name) (\<lambda>(key, row).
       store_and_apply svc name
         (key, row\<lparr>is_temp_blocked := False, is_permanent_blocked := True, block_reason := Some ''manual_permanent'',
            block_started_at := Some (clock svc), block_days := None, block_until := None,
            updated_by := clean_actor actor\<rparr>))"

definition clear_block :: "'k wg_service \<Rightarrow> string \<Rightarrow> string option \<Rightarrow> ('k, unit) wg_prog" where
  "clear_block svc name actor =
     bindP (required_row name) (\<lambda>(key, row).
       if is_access_expired row (clock svc) then raiseP ExpiredRequiresExtend
       else if is_traffic_limit_exceeded svc key row then raiseP TrafficLimitExceeded
       else store_and_apply svc name
         (key, row\<lparr>is_temp_blocked := False, is_permanent_blocked := False, block_started_at := None,
            block_days := None, block_until := None,
            block_reason := (if block_reason row \<in> {Some ''manual_temp'', Some ''manual_permanent''} then None
                             else block_reason row),
            updated_by := clean_actor actor\<rparr>))"

definition clear_temp_block :: "'k wg_service \<Rightarrow> string \<Rightarrow> string option \<Rightarrow> ('k, unit) wg_prog" where
  "clear_temp_block svc name actor = clear_block svc name actor"

section \<open>Requests\<close>

text \<open>
  One request or background run: the operation, then the removal of the session, which drops
  what was not committed.
\<close>

datatype wg_request =
    SetLimit string int "int option" "string option"
  | ClearLimit string "string option"
  | SetExpiry string int "string option" bool
  | TempBlock string int "string option"
  | PermanentBlock string "string option"
  | ClearBlock string "string option"
  | ClearTempBlock string "string option"
  | ReconcileClient string bool
  | ReconcileAll bool

fun wg_operation :: "'k wg_service \<Rightarrow> wg_request \<Rightarrow> ('k, unit) wg_prog" where
  "wg_operation svc (SetLimit n b p a) = set_traffic_limit_bytes svc n b p a"
| "wg_operation svc (ClearLimit n a) = clear_traffic_limit svc n a"
| "wg_operation svc (SetExpiry n d a e) = set_expiry_days svc n d a e"
| "wg_operation svc (TempBlock n d a) = set_temp_block_days svc n d a"
| "wg_operation svc (PermanentBlock n a) = set_permanent_block svc n a"
| "wg_operation svc (ClearBlock n a) = clear_block svc n a"
| "wg_operation svc (ClearTempBlock n a) = clear_temp_block svc n a"
| "wg_operation svc (ReconcileClient n b) = bindP (reconcile_client_policy svc n b) (\<lambda>_. retP ())"
| "wg_operation svc (ReconcileAll b) = bindP (reconcile_all svc b) (\<lambda>_. retP ())"

definition wg_handle :: "'k wg_service \<Rightarrow> wg_request \<Rightarrow> ('k, unit) wg_prog" where
  "wg_handle svc req s =
     (case wg_operation svc req s of (r, s') \<Rightarrow> (r, s'\<lparr>wg_rows := wg_committed s'\<rparr>))"

section \<open>The status shown to users\<close>

definition default_status :: effective_state where
  "default_status =
     \<lparr>es_is_blocked = False, es_reason = None, es_expired = False, es_temp_blocked = False,
      es_permanent_blocked = False, es_traffic_exceeded = False, es_block_mode = ''none'',
      es_access_days_left = None, es_blocked_days_left = None, es_block_duration_days = None,
      es_block_started_at = None,
      es_traffic = \<lparr>ts_limit_bytes = None, ts_period_days = None, ts_period_label = None, ts_unblock_at = None,
        ts_unblock_label = None, ts_consumed_bytes = 0, ts_bytes_left = None, ts_exceeded = False\<rparr>\<rparr>"

definition build_status_map ::
  "'k wg_service \<Rightarrow> string list \<Rightarrow> (string, wg_row) dict
     \<Rightarrow> (string \<times> effective_state \<times> datetime option \<times> datetime option) list" where
  "build_status_map svc client_names d =
     (let normalized = remdups (map normalize_client_name (filter (\<lambda>n. strip n \<noteq> []) client_names)) in
      map (\<lambda>name. case map_of d name of
                     None \<Rightarrow> (name, default_status, None, None)
                   | Some row \<Rightarrow> (name, resolve_effective_state svc name row, expires_at row, block_until row))
        normalized)"

end
