(* ===== verification/WgPolicyFacts.thy ===== *)
theory WgPolicyFacts
  imports WgPolicy
begin

text \<open>
  The invariant of the access policies of the WireGuard clients: every operation keeps it, and
  what the reconciliation does to a row.
\<close>

section \<open>Well-formed rows\<close>

definition wg_row_ok :: "wg_row \<Rightarrow> bool" where
  "wg_row_ok row \<longleftrightarrow>
     \<not> (is_temp_blocked row \<and> is_permanent_blocked row)
     \<and> (is_temp_blocked row \<longrightarrow> block_until row \<noteq> None \<and> (\<exists>d \<ge> 1. block_days row = Some d))
     \<and> (\<forall>n. limit_bytes row = Some n \<longrightarrow> 1 \<le> n)
     \<and> (\<forall>p. limit_period row = Some p \<longrightarrow> p \<in> set TRAFFIC_LIMIT_PERIOD_DAYS_ALLOWED \<and> limit_bytes row \<noteq> None)"

definition wg_name_ok :: "string \<Rightarrow> bool" where
  "wg_name_ok name \<longleftrightarrow> name \<noteq> [] \<and> normalize_client_name name = name"

definition wg_rows_ok :: "(string, wg_row) dict \<Rightarrow> bool" where
  "wg_rows_ok d \<longleftrightarrow> wf_dict d \<and> (\<forall>(name, row) \<in> set d. wg_name_ok name \<and> wg_row_ok row)"

definition wg_inv :: "'k wg_state \<Rightarrow> bool" where
  "wg_inv s \<longleftrightarrow> wg_rows_ok (wg_rows s) \<and> wg_rows_ok (wg_committed s)"

lemma new_row_ok: "wg_row_ok new_row"
  by (simp add: wg_row_ok_def new_row_def)

lemma normalized_ok: "normalize_client_name n \<noteq> [] \<Longrightarrow> wg_name_ok (normalize_client_name n)"
  by (simp add: wg_name_ok_def normalize_client_name_def strip_lower)

lemma wg_rows_ok_lookup: "wg_rows_ok d \<Longrightarrow> map_of d n = Some row \<Longrightarrow> wg_name_ok n \<and> wg_row_ok row"
  by (auto simp: wg_rows_ok_def dest!: map_of_mem)

lemma wg_rows_ok_iff: "wf_dict d \<Longrightarrow> wg_rows_ok d \<longleftrightarrow> (\<forall>n row. map_of d n = Some row \<longrightarrow> wg_name_ok n \<and> wg_row_ok row)"
  by (auto simp: wg_rows_ok_def wf_dict_lookup split: prod.splits)

lemma wg_rows_ok_update:
  assumes "wg_rows_ok d" "wg_name_ok n" "wg_row_ok row"
  shows "wg_rows_ok (AList.update n row d)"
proof -
  have "wf_dict (AList.update n row d)" using assms(1) by (simp add: wg_rows_ok_def wf_dict_update)
  then show ?thesis
    using assms wg_rows_ok_lookup by (auto simp: wg_rows_ok_iff map_of_update split: if_splits)
qed

lemma wg_rows_ok_map:
  assumes "wg_rows_ok d" and "\<And>n row. wg_row_ok row \<Longrightarrow> wg_row_ok (f n row)"
  shows "wg_rows_ok (map (\<lambda>(n, row). (n, f n row)) d)"
  using assms by (auto simp: wg_rows_ok_def wf_dict_def keys_def o_def case_prod_beta)

section \<open>Reconciling a row\<close>

lemma cleanup_row_ok: "wg_row_ok row \<Longrightarrow> wg_row_ok (snd (cleanup_expired_temp_block row now))"
  by (auto simp: cleanup_expired_temp_block_def wg_row_ok_def)

definition reconciled :: "'k wg_service \<Rightarrow> string \<Rightarrow> wg_row \<Rightarrow> wg_row" where
  "reconciled svc name row =
     (let row1 = snd (cleanup_expired_temp_block row (clock svc))
      in row1\<lparr>block_reason := es_reason (resolve_effective_state svc name row1)\<rparr>)"

text \<open>Neither the reason column nor an expired temporary block affect the effective state.\<close>

lemma state_ignores_reason:
  "resolve_effective_state svc name (row\<lparr>block_reason := r\<rparr>) = resolve_effective_state svc name row"
  by (simp add: resolve_effective_state_def resolve_traffic_state_def is_access_expired_def Let_def)

lemma cleanup_blocked_same:
  "es_is_blocked (resolve_effective_state svc name (snd (cleanup_expired_temp_block row (clock svc))))
     = es_is_blocked (resolve_effective_state svc name row)"
  "es_reason (resolve_effective_state svc name (snd (cleanup_expired_temp_block row (clock svc))))
     = es_reason (resolve_effective_state svc name row)"
  by (simp_all add: cleanup_expired_temp_block_def resolve_effective_state_def resolve_traffic_state_def
      is_access_expired_def Let_def split: option.splits)

lemma reconcile_row_row: "fst (snd (reconcile_row svc name row)) = reconciled svc name row"
  by (auto simp: reconcile_row_def reconciled_def Let_def split: prod.splits)

lemma reconcile_row_state: "snd (snd (reconcile_row svc name row)) = resolve_effective_state svc name (reconciled svc name row)"
  by (auto simp: reconcile_row_def reconciled_def Let_def state_ignores_reason split: prod.splits)

lemma reconcile_row_unchanged: "\<not> fst (reconcile_row svc name row) \<Longrightarrow> reconciled svc name row = row"
  by (auto simp: reconcile_row_def reconciled_def Let_def cleanup_expired_temp_block_def split: if_splits)

lemma reconciled_blocked:
  "es_is_blocked (resolve_effective_state svc name (reconciled svc name row)) = es_is_blocked (resolve_effective_state svc name row)"
  "es_reason (resolve_effective_state svc name (reconciled svc name row)) = es_reason (resolve_effective_state svc name row)"
  by (simp_all add: reconciled_def Let_def state_ignores_reason cleanup_blocked_same)

lemma reconciled_reason: "block_reason (reconciled svc name row) = es_reason (resolve_effective_state svc name (reconciled svc name row))"
  by (simp add: reconciled_def Let_def state_ignores_reason)

lemma reconciled_ok: "wg_row_ok row \<Longrightarrow> wg_row_ok (reconciled svc name row)"
  using cleanup_row_ok [of row "clock svc"] by (simp add: reconciled_def Let_def wg_row_ok_def)

section \<open>The operations keep the invariant\<close>

lemma keeps_commit: "keepsP wg_inv commit (\<lambda>_. True)"
  by (simp add: keepsP_def commit_def wg_inv_def)

lemma keeps_put_row: "wg_name_ok n \<Longrightarrow> wg_row_ok row \<Longrightarrow> keepsP wg_inv (put_row n row) (\<lambda>_. True)"
  by (simp add: keepsP_def put_row_def wg_inv_def wg_rows_ok_update)

lemma keeps_on_kernel: "keepsP wg_inv (on_kernel m) (\<lambda>_. True)"
  by (auto simp: keepsP_def on_kernel_def wg_inv_def split: prod.splits)

lemma keeps_raise: "keepsP I (raiseP e) P"
  by (simp add: keepsP_def)

lemma get_or_create_spec:
  "get_or_create n s =
     (if normalize_client_name n = [] then (Inr None, s)
      else let row = (case map_of (wg_rows s) (normalize_client_name n) of Some r \<Rightarrow> r | None \<Rightarrow> new_row)
        in (Inr (Some (normalize_client_name n, row)),
            if map_of (wg_rows s) (normalize_client_name n) = None
            then s\<lparr>wg_rows := AList.update (normalize_client_name n) row (wg_rows s)\<rparr> else s))"
  by (simp add: get_or_create_def Let_def split: option.splits)

lemma keeps_required_row: "keepsP wg_inv (required_row n) (\<lambda>(key, row). wg_name_ok key \<and> wg_row_ok row)"
proof -
  have "keepsP wg_inv (get_or_create n) (\<lambda>p. case p of None \<Rightarrow> True | Some (key, row) \<Rightarrow> wg_name_ok key \<and> wg_row_ok row)"
    by (auto simp: keepsP_def get_or_create_spec Let_def wg_inv_def new_row_ok normalized_ok wg_rows_ok_update
        dest: wg_rows_ok_lookup split: option.splits)
  then show ?thesis unfolding required_row_def
    by (rule keepsP_bind) (auto simp: keepsP_def split: option.splits)
qed

lemma keeps_reapply: "keepsP wg_inv (reapply_all_blocked_runtime svc) (\<lambda>_. True)"
  unfolding reapply_all_blocked_runtime_def
  by (rule keepsP_bind [OF keepsP_gets [where P = "\<lambda>_. True"]]) (auto intro: keeps_on_kernel)

lemma keeps_maybe_commit: "keepsP wg_inv (if c then commit else retP ()) (\<lambda>_. True)"
  by (simp add: keeps_commit keepsP_ret)

lemma keeps_reconcile_found:
  assumes "wg_name_ok n" "wg_row_ok (fst (snd r))"
  shows "keepsP wg_inv (reconcile_found svc n b r) (\<lambda>_. True)"
proof -
  obtain changed row state where r: "r = (changed, row, state)" by (cases r)
  have ok: "wg_row_ok row" using assms(2) r by simp
  show ?thesis unfolding reconcile_found_def r prod.case
    by (intro keepsP_bind [OF keeps_put_row [OF assms(1) ok]] keepsP_bind [OF keeps_maybe_commit])
      (auto intro!: keepsP_bind [OF keeps_on_kernel] keepsP_bind [OF keeps_reapply] keepsP_ret)
qed

lemma keeps_reconcile_client: "keepsP wg_inv (reconcile_client_policy svc n b) (\<lambda>_. True)"
proof -
  let ?N = "normalize_client_name n"
  have "keepsP wg_inv (getsP (\<lambda>s. Inr (map_of (wg_rows s) ?N))) (\<lambda>x. \<forall>row. x = Some row \<longrightarrow> wg_name_ok ?N \<and> wg_row_ok row)"
    using wg_rows_ok_lookup by (intro keepsP_gets) (auto simp: wg_inv_def)
  then show ?thesis unfolding reconcile_client_policy_def Let_def
    by (auto intro!: keepsP_ret keepsP_bind keeps_reconcile_found simp: reconcile_row_row reconciled_ok split: option.split)
qed

lemma keeps_store: "wg_name_ok (fst r) \<Longrightarrow> wg_row_ok (snd r) \<Longrightarrow> keepsP wg_inv (store_and_apply svc n r) (\<lambda>_. True)"
  unfolding store_and_apply_def
  by (intro keepsP_bind [OF keeps_put_row] keepsP_bind [OF keeps_commit] keepsP_bind [OF keeps_reconcile_client] keepsP_ret) auto

lemma reconcile_rows_rows:
  "map (\<lambda>(name, changed, row, state). (name, row)) (reconcile_rows svc d) = map (\<lambda>(n, row). (n, reconciled svc n row)) d"
  by (simp add: reconcile_rows_def o_def case_prod_beta reconcile_row_row)

lemma keeps_reconcile_all: "keepsP wg_inv (reconcile_all svc b) (\<lambda>_. True)"
proof -
  have mod: "keepsP wg_inv (modifyP (\<lambda>s. s\<lparr>wg_rows := map (\<lambda>(name, changed, row, state). (name, row)) results\<rparr>)) (\<lambda>_. True)"
    if "wg_rows_ok (map (\<lambda>(name, changed, row, state). (name, row)) results)"
    for results :: "(string \<times> bool \<times> wg_row \<times> effective_state) list"
    using that by (simp add: keepsP_def wg_inv_def)
  show ?thesis unfolding reconcile_all_def Let_def
  proof (rule keepsP_bind [OF keepsP_gets [where P = "\<lambda>results. wg_rows_ok (map (\<lambda>(name, changed, row, state). (name, row)) results)"]])
    show "wg_rows_ok (map (\<lambda>(name, changed, row, state). (name, row)) x)"
      if "wg_inv s" "(Inr (reconcile_rows svc (wg_rows s)) ::
        (policy_error, (string \<times> bool \<times> wg_row \<times> effective_state) list) result) = Inr x" for s :: "'a wg_state" and x
      using that wg_rows_ok_map [of "wg_rows s" "reconciled svc"] by (auto simp: wg_inv_def reconcile_rows_rows reconciled_ok)
  qed (intro keepsP_bind [OF mod] keepsP_bind [OF keeps_maybe_commit],
      auto intro!: keepsP_bind [OF keeps_on_kernel] keepsP_ret)
qed

text \<open>The operations of the administrator.\<close>

lemma keeps_clear_block: "keepsP wg_inv (clear_block svc n a) (\<lambda>_. True)"
  unfolding clear_block_def
  by (rule keepsP_bind [OF keeps_required_row]) (auto intro!: keeps_raise keeps_store simp: wg_row_ok_def)

lemma keeps_operation:
  assumes "\<And>n d a. req \<noteq> TempBlock n d a"
  shows "keepsP wg_inv (wg_operation svc req) (\<lambda>_. True)"
proof (cases req)
  case (SetLimit n b p a)
  show ?thesis unfolding SetLimit wg_operation.simps set_traffic_limit_bytes_def
    by (auto intro!: keeps_raise keepsP_bind [OF keeps_required_row] keepsP_bind [OF keeps_put_row] keeps_store
        simp: wg_row_ok_def split: option.splits)
next
  case (ClearLimit n a)
  show ?thesis unfolding ClearLimit wg_operation.simps clear_traffic_limit_def
    by (rule keepsP_bind [OF keeps_required_row]) (auto intro!: keeps_store simp: wg_row_ok_def)
next
  case (SetExpiry n d a e)
  show ?thesis unfolding SetExpiry wg_operation.simps set_expiry_days_def Let_def
    by (auto intro!: keeps_raise keepsP_bind [OF keeps_required_row] keeps_store simp: wg_row_ok_def split: option.splits)
next
  case (PermanentBlock n a)
  show ?thesis unfolding PermanentBlock wg_operation.simps set_permanent_block_def
    by (rule keepsP_bind [OF keeps_required_row]) (auto intro!: keeps_store simp: wg_row_ok_def)
qed (use assms in \<open>auto intro: keeps_clear_block keepsP_bind [OF keeps_reconcile_client] keepsP_bind [OF keeps_reconcile_all]
      keepsP_ret simp: clear_temp_block_def\<close>)

end
