(* ===== verification/WgPolicyProps.thy ===== *)
theory WgPolicyProps
  imports WgPolicyFacts
begin

text \<open>
  The promises of the WireGuard access policy: well-formed rows in every reachable database,
  blocked clients without live peers after a reconciliation, and the effect of the operations.
\<close>

section \<open>Reachable states\<close>

inductive wg_reachable :: "'k wg_state \<Rightarrow> bool" where
  start: "wg_reachable \<lparr>wg_rows = [], wg_committed = [], wg_kernel = k\<rparr>"
| request: "wg_reachable s \<Longrightarrow> wg_handle svc req s = (r, s') \<Longrightarrow> wg_reachable s'"
| outside: "wg_reachable s \<Longrightarrow> wg_reachable (s\<lparr>wg_kernel := k\<rparr>)"

lemma temp_block_committed:
  assumes "wg_inv s" and "set_temp_block_days svc n d a s = (r, s')"
  shows "wg_rows_ok (wg_committed s')"
proof (cases "d < 1 \<or> add_days (clock svc) d \<noteq> None")
  case True
  have keeps: "keepsP wg_inv (set_temp_block_days svc n d a) (\<lambda>_. True)" if t: "add_days (clock svc) d = Some t" "\<not> d < 1" for t
  proof -
    have store: "keepsP wg_inv (bindP (put_row key row1) (\<lambda>_. store_and_apply svc n (key, row2))) (\<lambda>_. True)"
      if "wg_name_ok key" "wg_row_ok row2" for key row1 row2
    proof -
      have "bindP (put_row key row1) (\<lambda>_. store_and_apply svc n (key, row2)) = store_and_apply svc n (key, row2)"
        by (intro ext) (simp add: store_and_apply_def put_row_def bindP_def)
      then show ?thesis using keeps_store [of "(key, row2)" svc n] that by simp
    qed
    show ?thesis unfolding set_temp_block_days_def Let_def t(1) option.case using t(2)
      by (auto intro!: keepsP_bind [OF keeps_required_row] store simp: wg_row_ok_def)
  qed
  show ?thesis
  proof (cases "d < 1")
    case True
    then show ?thesis using assms by (simp add: set_temp_block_days_def wg_inv_def)
  next
    case False
    then obtain t where "add_days (clock svc) d = Some t" using \<open>d < 1 \<or> _\<close> by auto
    from keepsP_use [OF keeps [OF this False] assms] show ?thesis by (simp add: wg_inv_def)
  qed
next
  case False
  have "\<exists>x s1. required_row n s = (x, s1) \<and> wg_committed s1 = wg_committed s"
    by (auto simp: required_row_def get_or_create_spec bindP_def Let_def split: option.splits)
  then show ?thesis using assms False
    by (auto simp: set_temp_block_days_def bindP_def put_row_def wg_inv_def split: sum.splits prod.splits)
qed

lemma reachable_inv: "wg_reachable s \<Longrightarrow> wg_inv s \<and> wg_rows s = wg_committed s"
proof (induction rule: wg_reachable.induct)
  case (start k)
  then show ?case by (simp add: wg_inv_def wg_rows_ok_def)
next
  case (request s svc req r s')
  obtain q t where q: "wg_operation svc req s = (q, t)" and s': "s' = t\<lparr>wg_rows := wg_committed t\<rparr>"
    using request.hyps(2) by (auto simp: wg_handle_def split: prod.splits)
  have "wg_rows_ok (wg_committed t)"
  proof (cases "\<exists>n d a. req = TempBlock n d a")
    case True
    then obtain n d a where "set_temp_block_days svc n d a s = (q, t)" using q by auto
    from temp_block_committed [OF _ this] show ?thesis using request.IH by simp
  next
    case False
    then have "keepsP wg_inv (wg_operation svc req) (\<lambda>_. True)" by (intro keeps_operation) blast
    from keepsP_use [OF this _ q] show ?thesis using request.IH by (simp add: wg_inv_def)
  qed
  then show ?case by (simp add: s' wg_inv_def)
next
  case (outside s k)
  then show ?case by (simp add: wg_inv_def)
qed

text \<open>C34: Whatever requests the panel has handled, with whatever clock, consumption and runtime, no
  client has two rows, names are stored in normal form, no row is blocked temporarily and
  permanently at once, a temporary block has an end and a length of at least a day, a limit is at
  least one byte and a period is one of the allowed ones and has a limit.\<close>

theorem wg_rows_wellformed:
  assumes "wg_reachable s"
  shows "wf_dict (wg_committed s) \<and> (\<forall>(name, row) \<in> set (wg_committed s). wg_name_ok name \<and> wg_row_ok row)"
  using reachable_inv [OF assms] by (simp add: wg_inv_def wg_rows_ok_def)

text \<open>A service without runtime and its database with one row.\<close>

definition example_service :: "datetime \<Rightarrow> unit wg_service" where
  "example_service now = \<lparr>clock = now, consumed_bytes = (\<lambda>n p. 10), runtime_enabled = False,
     runtime_apply = (\<lambda>n b. retP \<lparr>done_count = 0, error_count = 0\<rparr>)\<rparr>"

definition example_day :: datetime where
  "example_day = days_of 738000"

definition example_state :: "unit wg_state" where
  "example_state = snd (wg_handle (example_service example_day) (PermanentBlock '' Ann '' None)
     \<lparr>wg_rows = [], wg_committed = [], wg_kernel = ()\<rparr>)"

lemma example_reachable: "wg_reachable example_state"
  unfolding example_state_def by (rule wg_reachable.request [OF wg_reachable.start]) (rule surjective_pairing)

theorem wg_rows_wellformed_witness:
  "wf_dict (wg_committed example_state)
     \<and> list_all (\<lambda>(name, row). wg_name_ok name \<and> wg_row_ok row) (wg_committed example_state)"
  using wg_rows_wellformed [OF example_reachable] by (simp add: list_all_iff)

section \<open>The runtime follows the table\<close>

interpretation live: peer_runtime "apply_client_runtime sub env" "all_gone env" for sub env
proof
  have norm: "enforcer_apply env (normalize_client_name n) = enforcer_apply env n" for env n
    using enforcer_same_client [of env n] by (intro ext) (simp add: enforcer_normalize_def normalize_client_name_def)
  fix name :: string and k k' :: live_peers and r
  assume a: "apply_client_runtime sub env name True k = (Inr r, k')" "error_count r = 0"
  then show "all_gone env k' name"
    using subprocess.block_disconnects [of env name k r k'] enforcer.block_disconnects [of env name k r k']
    by (auto simp: apply_client_runtime_def as_policy_def norm split: prod.splits sum.splits if_splits)
next
  have norm: "enforcer_apply env (normalize_client_name n) = enforcer_apply env n" for env n
    using enforcer_same_client [of env n] by (intro ext) (simp add: enforcer_normalize_def normalize_client_name_def)
  fix name other :: string and k k' :: live_peers and res
  assume a: "apply_client_runtime sub env name True k = (res, k')" "all_gone env k other"
  then obtain q where "(if sub then apply_wg_client_runtime env name True else enforcer_apply env name True) k = (q, k')"
    by (auto simp: apply_client_runtime_def as_policy_def norm split: prod.splits sum.splits if_splits)
  then show "all_gone env k' other"
    using subprocess.block_keeps [of env name k q k' other] enforcer.block_keeps [of env name k q k' other] a(2)
    by (auto split: if_splits)
qed

lemma on_kernel_Inr:
  "on_kernel m s = (Inr x, s') \<longleftrightarrow> m (wg_kernel s) = (Inr x, wg_kernel s') \<and> s' = s\<lparr>wg_kernel := wg_kernel s'\<rparr>"
  by (auto simp: on_kernel_def split: prod.splits)

lemma on_kernel_state: "on_kernel m s = (r, s') \<Longrightarrow> wg_rows s' = wg_rows s \<and> wg_committed s' = wg_committed s"
  by (auto simp: on_kernel_def split: prod.splits)

lemma maybe_commit_rows:
  "(if c then commit else retP ()) s = (r, s') \<Longrightarrow> r = Inr () \<and> wg_rows s' = wg_rows s \<and> wg_kernel s' = wg_kernel s
     \<and> wg_committed s' = (if c then wg_rows s else wg_committed s)"
  by (auto simp: commit_def split: if_splits)

lemma blocked_names:
  "map fst (filter (\<lambda>(name, changed, row, state). es_is_blocked state) (reconcile_rows svc d)) =
     map fst (filter (\<lambda>(n, row). es_is_blocked (resolve_effective_state svc n row)) (map (\<lambda>(n, row). (n, reconciled svc n row)) d))"
  by (induction d) (auto simp: reconcile_rows_def reconcile_row_state [symmetric] split: prod.splits)


definition live_service :: "live_peers wg_service" where
  "live_service = \<lparr>clock = example_day, consumed_bytes = (\<lambda>n p. 0), runtime_enabled = True,
     runtime_apply = apply_client_runtime False example_env\<rparr>"

definition live_state :: "live_peers wg_state" where
  "live_state = \<lparr>wg_rows = [(''ann'', new_row\<lparr>is_permanent_blocked := True\<rparr>)], wg_committed = [],
     wg_kernel = Map.empty((''vpn'', ''K'') \<mapsto> [])\<rparr>"

lemma ann_normal: "normalize_client_name ''ann'' = ''ann''"
  by code_simp

lemma block_ann:
  "\<exists>r k'. apply_client_runtime False example_env ''ann'' True k = (Inr r, k') \<and> error_count r = 0"
  by (simp add: apply_client_runtime_def as_policy_def ann_normal enforcer_apply_def block_client_runtime_def
      example_peers each_target_def run_command_def counts_def bindP_def) (simp add: example_env_def)

lemma live_run:
  "\<exists>us rs s'. reconcile_all live_service True live_state = (Inr ([''ann''], us, rs), s') \<and> (\<forall>r \<in> set rs. error_count r = 0)"
proof -
  obtain r k' where b: "apply_client_runtime False example_env ''ann'' True (wg_kernel live_state) = (Inr r, k')"
    and r: "error_count r = 0" using block_ann by blast
  show ?thesis using b r
    by (simp add: reconcile_all_def reconcile_rows_def live_state_def live_service_def reconcile_row_def
        cleanup_expired_temp_block_def resolve_effective_state_def is_access_expired_def new_row_def Let_def
        on_kernel_def commit_def bindP_def)
qed


lemma reconcile_found_run:
  "reconcile_found svc n b (changed, row', state) s =
     (let d = AList.update n row' (wg_rows s);
          s1 = s\<lparr>wg_rows := d, wg_committed := (if changed then d else wg_committed s)\<rparr>
      in if \<not> b \<or> \<not> runtime_enabled svc then (Inr (Some (state, [])), s1)
         else bindP (on_kernel (runtime_apply svc n (es_is_blocked state))) (\<lambda>r.
           if es_is_blocked state then retP (Some (state, [r]))
           else bindP (reapply_all_blocked_runtime svc) (\<lambda>rs. retP (Some (state, r # rs)))) s1)"
  by (cases changed) (simp_all add: reconcile_found_def put_row_def commit_def bindP_def [of "modifyP _"] Let_def bindP_def [of "retP _"])


lemma live_client:
  "\<exists>state rs s'. reconcile_client_policy live_service ''ann'' True live_state = (Inr (Some (state, rs)), s')
     \<and> (\<forall>r \<in> set rs. error_count r = 0) \<and> es_is_blocked state"
proof -
  obtain r k' where b: "apply_client_runtime False example_env ''ann'' True (wg_kernel live_state) = (Inr r, k')"
    and r: "error_count r = 0" using block_ann by blast
  show ?thesis using b r
    by (simp add: reconcile_client_policy_def reconcile_found_def ann_normal live_state_def live_service_def reconcile_row_def
        cleanup_expired_temp_block_def resolve_effective_state_def is_access_expired_def new_row_def Let_def
        on_kernel_def commit_def put_row_def bindP_def)
qed


section \<open>What the operations leave in the database\<close>

lemma reapply_state: "reapply_all_blocked_runtime svc s = (r, s') \<Longrightarrow> wg_committed s' = wg_committed s"
  by (auto simp: reapply_all_blocked_runtime_def dest: on_kernel_state)

lemma reconcile_found_committed:
  assumes "reconcile_found svc n b (changed, row', state) s = (r, s')"
  shows "wg_committed s' = (if changed then AList.update n row' (wg_rows s) else wg_committed s)"
proof -
  define s1 where "s1 = s\<lparr>wg_rows := AList.update n row' (wg_rows s),
      wg_committed := (if changed then AList.update n row' (wg_rows s) else wg_committed s)\<rparr>"
  have "wg_committed s' = wg_committed s1"
  proof (cases "\<not> b \<or> \<not> runtime_enabled svc")
    case True
    then show ?thesis using assms by (simp add: reconcile_found_run Let_def s1_def)
  next
    case False
    show ?thesis
    proof (rule bindP_preserves [where I = "\<lambda>t. wg_committed t = wg_committed s1", OF _ _ refl])
      show "bindP (on_kernel (runtime_apply svc n (es_is_blocked state))) (\<lambda>r.
           if es_is_blocked state then retP (Some (state, [r]))
           else bindP (reapply_all_blocked_runtime svc) (\<lambda>rs. retP (Some (state, r # rs)))) s1 = (r, s')"
        using assms False by (simp add: reconcile_found_run Let_def s1_def)
    next
      fix x s r s'
      assume "wg_committed s = wg_committed s1"
        "(if es_is_blocked state then retP (Some (state, [x]))
           else bindP (reapply_all_blocked_runtime svc) (\<lambda>rs. retP (Some (state, x # rs)))) s = (r, s')"
      then show "wg_committed s' = wg_committed s1"
        by (cases "reapply_all_blocked_runtime svc s")
          (auto simp: bindP_def dest: reapply_state split: if_splits sum.splits)
    qed (auto dest: on_kernel_state)
  qed
  then show ?thesis by (simp add: s1_def)
qed

text \<open>A stored row is committed in its reconciled form; no other row is touched.\<close>

lemma store_and_apply_committed:
  assumes "store_and_apply svc name (normalize_client_name name, row) s = (r, s')"
    and "normalize_client_name name \<noteq> []"
  shows "map_of (wg_committed s') = (map_of (wg_rows s))(normalize_client_name name \<mapsto>
    reconciled svc (normalize_client_name name) row)"
proof -
  let ?N = "normalize_client_name name"
  define s1 where "s1 = s\<lparr>wg_rows := AList.update ?N row (wg_rows s), wg_committed := AList.update ?N row (wg_rows s)\<rparr>"
  obtain changed row' state where rr: "reconcile_row svc ?N row = (changed, row', state)"
    by (cases "reconcile_row svc ?N row")
  have run: "reconcile_client_policy svc name True s1 = reconcile_found svc ?N True (changed, row', state) s1"
    using assms(2) by (simp add: reconcile_client_policy_def Let_def s1_def map_of_update rr)
  obtain q where "reconcile_client_policy svc name True s1 = (q, s')"
    using assms(1) by (cases "reconcile_client_policy svc name True s1")
      (auto simp: store_and_apply_def put_row_def commit_def s1_def bindP_def split: sum.splits)
  then have c: "wg_committed s' = (if changed then AList.update ?N row' (wg_rows s1) else wg_committed s1)"
    unfolding run by (rule reconcile_found_committed)
  have row': "row' = reconciled svc ?N row" "\<not> changed \<Longrightarrow> reconciled svc ?N row = row"
    using reconcile_row_row [of svc ?N row] reconcile_row_unchanged [of svc ?N row] rr by auto
  show ?thesis using c row' by (auto simp: s1_def map_of_update fun_eq_iff)
qed

lemma required_row_run:
  assumes "normalize_client_name n \<noteq> []"
  shows "\<exists>s1. required_row n s = (Inr (normalize_client_name n,
        case map_of (wg_rows s) (normalize_client_name n) of Some r \<Rightarrow> r | None \<Rightarrow> new_row), s1)
    \<and> wg_committed s1 = wg_committed s
    \<and> (\<forall>m. m \<noteq> normalize_client_name n \<longrightarrow> map_of (wg_rows s1) m = map_of (wg_rows s) m)"
  using assms by (auto simp: required_row_def get_or_create_spec Let_def bindP_def map_of_update split: option.splits)

definition row_of :: "'k wg_state \<Rightarrow> string \<Rightarrow> wg_row" where
  "row_of s key = (case map_of (wg_committed s) key of Some r \<Rightarrow> r | None \<Rightarrow> new_row)"

text \<open>Lifting a block is refused, with the matching error, for a client whose access has expired or whose
  traffic limit is exceeded, and then the database stays as it was; otherwise the client's row is
  stored without any block in force and no other client's row changes. This holds whatever the
  runtime answers.\<close>

theorem clear_block_guards:
  assumes "wg_reachable s" and "wg_handle svc (ClearBlock name actor) s = (r, s')"
  shows "let key = normalize_client_name name; row = row_of s key in
    if key = [] then r = Inl InvalidValue \<and> wg_committed s' = wg_committed s
    else if is_access_expired row (clock svc) then r = Inl ExpiredRequiresExtend \<and> wg_committed s' = wg_committed s
    else if is_traffic_limit_exceeded svc key row then r = Inl TrafficLimitExceeded \<and> wg_committed s' = wg_committed s
    else (\<exists>row'. map_of (wg_committed s') = (map_of (wg_committed s))(key \<mapsto> row')
            \<and> \<not> es_is_blocked (resolve_effective_state svc key row'))"
proof -
  let ?key = "normalize_client_name name"
  have rows: "wg_rows s = wg_committed s" using reachable_inv [OF assms(1)] by simp
  obtain t where t: "clear_block svc name actor s = (r, t)" and s': "wg_committed s' = wg_committed t"
    using assms(2) by (auto simp: wg_handle_def split: prod.splits)
  show ?thesis
  proof (cases "?key = []")
    case True
    then show ?thesis using t s' by (simp add: clear_block_def required_row_def get_or_create_spec bindP_def)
  next
    case False
    obtain s1 where run: "required_row name s = (Inr (?key, row_of s ?key), s1)" and c1: "wg_committed s1 = wg_committed s"
      and others: "\<forall>m. m \<noteq> ?key \<longrightarrow> map_of (wg_rows s1) m = map_of (wg_committed s) m"
      using required_row_run [OF False, of s] rows by (auto simp: row_of_def)
    show ?thesis
    proof (cases "is_access_expired (row_of s ?key) (clock svc) \<or> is_traffic_limit_exceeded svc ?key (row_of s ?key)")
      case True
      then show ?thesis using t s' False run c1 by (auto simp: clear_block_def Let_def)
    next
      case not_blocked: False
      obtain row' where store: "store_and_apply svc name (?key, row') s1 = (r, t)"
        and row': "\<not> is_temp_blocked row'" "\<not> is_permanent_blocked row'" "expires_at row' = expires_at (row_of s ?key)"
          "limit_bytes row' = limit_bytes (row_of s ?key)" "limit_period row' = limit_period (row_of s ?key)"
        using t run not_blocked by (auto simp: clear_block_def)
      have "\<not> es_is_blocked (resolve_effective_state svc ?key row')"
        using row' not_blocked by (simp add: resolve_effective_state_def resolve_traffic_state_def
          is_traffic_limit_exceeded_def is_access_expired_def Let_def)
      then have "\<not> es_is_blocked (resolve_effective_state svc ?key (reconciled svc ?key row'))"
        by (simp add: reconciled_blocked)
      moreover have "map_of (wg_committed s') = (map_of (wg_committed s))(?key \<mapsto> reconciled svc ?key row')"
        unfolding s' store_and_apply_committed [OF store False] using others by (auto simp: fun_eq_iff)
      ultimately show ?thesis using False not_blocked by (auto simp: Let_def)
    qed
  qed
qed

lemma example_rows:
  "wg_committed example_state = [(''ann'', new_row\<lparr>is_permanent_blocked := True, block_reason := Some ''manual_permanent'',
     block_started_at := Some example_day\<rparr>)]"
  by code_simp

theorem clear_block_guards_witness:
  "\<exists>r s' row'. wg_handle (example_service example_day) (ClearBlock ''ANN'' None) example_state = (r, s')
     \<and> map_of (wg_committed s') ''ann'' = Some row'
     \<and> \<not> es_is_blocked (resolve_effective_state (example_service example_day) ''ann'' row')"
proof -
  obtain r s' where h: "wg_handle (example_service example_day) (ClearBlock ''ANN'' None) example_state = (r, s')"
    by fastforce
  have key: "normalize_client_name ''ANN'' = ''ann''" by code_simp
  have row: "row_of example_state ''ann'' = new_row\<lparr>is_permanent_blocked := True, block_reason := Some ''manual_permanent'',
     block_started_at := Some example_day\<rparr>"
    by (simp add: row_of_def example_rows)
  have "\<not> is_access_expired (row_of example_state ''ann'') (clock (example_service example_day))"
    "\<not> is_traffic_limit_exceeded (example_service example_day) ''ann'' (row_of example_state ''ann'')"
    by (simp_all add: row new_row_def is_access_expired_def is_traffic_limit_exceeded_def resolve_traffic_state_def
        resolve_traffic_limit_state_def)
  then show ?thesis using clear_block_guards [OF example_reachable h] h by (auto simp: key Let_def)
qed

text \<open>A temporary block set for some days is in force at every instant before its end and at none from
  its end on, where the next reconciliation removes it from the row; the end is the clock of the
  request plus the days.\<close>

theorem temp_block_lasts:
  fixes svc :: "'k wg_service"
  assumes "wg_reachable s" and "normalize_client_name name \<noteq> []" and "1 \<le> days"
    and "add_days (clock svc) days = Some until" and "wg_handle svc (TempBlock name days actor) s = (r, s')"
  shows "\<exists>row. map_of (wg_committed s') (normalize_client_name name) = Some row
    \<and> until = clock svc + days_of days
    \<and> (\<forall>(later :: 'k wg_service) n. clock later < until \<longrightarrow> es_is_blocked (resolve_effective_state later n row))
    \<and> (\<forall>(later :: 'k wg_service) n. until \<le> clock later \<longrightarrow> \<not> es_temp_blocked (resolve_effective_state later n row)
         \<and> \<not> is_temp_blocked (reconciled later n row))"
proof -
  let ?key = "normalize_client_name name"
  have until: "until = clock svc + days_of days" using assms(4) by (simp add: add_days_def split: if_splits)
  have future: "clock svc < until" using assms(3) by (simp add: until days_of_def microseconds_per_day_def)
  obtain t where t: "set_temp_block_days svc name days actor s = (r, t)" and s': "wg_committed s' = wg_committed t"
    using assms(5) by (auto simp: wg_handle_def split: prod.splits)
  obtain key0 s1 where run: "required_row name s = (Inr (?key, key0), s1)" using required_row_run [OF assms(2), of s] by blast
  obtain row' s2 where store: "store_and_apply svc name (?key, row') s2 = (r, t)"
    and row': "is_temp_blocked row'" "block_until row' = Some until"
    using t run assms(3,4) by (auto simp: set_temp_block_days_def put_row_def bindP_def [of "modifyP _"] Let_def)
  let ?row = "reconciled svc ?key row'"
  have row: "is_temp_blocked ?row" "block_until ?row = Some until"
    using row' future by (simp_all add: reconciled_def cleanup_expired_temp_block_def Let_def)
  have "map_of (wg_committed s') ?key = Some ?row"
    unfolding s' store_and_apply_committed [OF store assms(2)] by simp
  moreover have "es_is_blocked (resolve_effective_state later n ?row)" if "clock later < until" for later :: "'k wg_service" and n
    using row that by (simp add: resolve_effective_state_def Let_def)
  moreover have "\<not> es_temp_blocked (resolve_effective_state later n ?row) \<and> \<not> is_temp_blocked (reconciled later n ?row)"
    if "until \<le> clock later" for later :: "'k wg_service" and n
    using row that by (simp add: resolve_effective_state_def reconciled_def cleanup_expired_temp_block_def Let_def)
  ultimately show ?thesis using until by blast
qed

theorem temp_block_lasts_witness:
  "\<exists>r s' row. wg_handle (example_service example_day) (TempBlock ''Bob'' 2 None) example_state = (r, s')
     \<and> map_of (wg_committed s') ''bob'' = Some row
     \<and> es_is_blocked (resolve_effective_state (example_service (example_day + days_of 1)) ''bob'' row)
     \<and> \<not> es_temp_blocked (resolve_effective_state (example_service (example_day + days_of 2)) ''bob'' row)"
proof -
  obtain r s' where h: "wg_handle (example_service example_day) (TempBlock ''Bob'' 2 None) example_state = (r, s')"
    by fastforce
  have key: "normalize_client_name ''Bob'' = ''bob''" by code_simp
  have add: "add_days (clock (example_service example_day)) 2 = Some (example_day + days_of 2)"
    by (simp add: example_service_def example_day_def add_days_def representable_def max_ordinal_def days_of_def
        toordinal_def microseconds_per_day_def)
  from temp_block_lasts [OF example_reachable _ _ add h] obtain row where
    "map_of (wg_committed s') ''bob'' = Some row"
    "\<forall>(later :: unit wg_service) n. clock later < example_day + days_of 2 \<longrightarrow> es_is_blocked (resolve_effective_state later n row)"
    "\<forall>(later :: unit wg_service) n. example_day + days_of 2 \<le> clock later \<longrightarrow> \<not> es_temp_blocked (resolve_effective_state later n row)"
    by (auto simp: key)
  then show ?thesis using h
    by (intro exI [of _ r] exI [of _ s'] exI [of _ row]) (simp add: example_service_def days_of_def microseconds_per_day_def)
qed

end
