(* ===== verification/OvpnPolicy.thy ===== *)
theory OvpnPolicy
  imports TrafficLimit PyFs PySort
begin

text \<open>
  \<^verbatim>\<open>core/services/openvpn_banlist.py\<close> and \<^verbatim>\<open>core/services/openvpn_access_policy.py\<close>: the blocks and
  traffic limits of the OpenVPN clients and the file of banned clients the connect script of the
  server reads. As in the WireGuard policy the state holds the rows of the session, the committed
  rows and, here, the file system; the clock does not advance within an operation.
\<close>

section \<open>The list of banned clients and the connect script\<close>

record ban_files =
  banned_clients_file :: string
  client_connect_script :: string
  client_connect_ban_check_block :: string

definition banned_of_text :: "string \<Rightarrow> string list" where
  "banned_of_text content =
     filter (\<lambda>line. line \<noteq> [] \<and> hd line \<noteq> CHR 0x23) (map strip (split_on LF content))"

definition read_banned_clients :: "ban_files \<Rightarrow> fs \<Rightarrow> (io_error, string list) result" where
  "read_banned_clients files fs =
     (case read_text fs (banned_clients_file files) of
        Inl FileNotFound \<Rightarrow> Inr []
      | Inl e \<Rightarrow> Inl e
      | Inr content \<Rightarrow> Inr (banned_of_text content))"

text \<open>The argument lists a set in the order of its iteration.\<close>

definition banned_text :: "string list \<Rightarrow> string" where
  "banned_text clients =
     (let ordered = sort_key lower (remdups clients)
      in if ordered = [] then [] else join [LF] ordered @ [LF])"

definition write_banned_clients :: "ban_files \<Rightarrow> string list \<Rightarrow> (fs, io_error, unit) prog" where
  "write_banned_clients files clients = write_text (banned_clients_file files) (banned_text clients)"

definition lstrip_LF :: "string \<Rightarrow> string" where
  "lstrip_LF s = dropWhile (\<lambda>c. c = LF) s"

definition with_ban_check :: "string \<Rightarrow> string \<Rightarrow> string" where
  "with_ban_check block content =
     (if starts_with [CHR 0x23, CHR ''!''] content then
        let shebang = takeWhile (\<lambda>c. c \<noteq> LF) content; rest = drop (length shebang + 1) content
        in shebang @ [LF] @ [LF] @ block @ [LF] @ lstrip_LF rest
      else block @ [LF] @ lstrip_LF content)"

definition ensure_client_connect_ban_check_block :: "ban_files \<Rightarrow> (fs, io_error, unit) prog" where
  "ensure_client_connect_ban_check_block files =
     bindP (getsP (\<lambda>fs. case read_text fs (client_connect_script files) of
                          Inl FileNotFound \<Rightarrow> Inr [] | r \<Rightarrow> r)) (\<lambda>content.
       if contains (client_connect_ban_check_block files) content then retP ()
       else write_text (client_connect_script files) (with_ban_check (client_connect_ban_check_block files) content))"

section \<open>The policy table\<close>

record ov_row =
  ov_temp_blocked :: bool
  ov_permanent_blocked :: bool
  ov_block_reason :: "string option"
  ov_block_started_at :: "datetime option"
  ov_block_days :: "int option"
  ov_block_until :: "datetime option"
  ov_limit_bytes :: "int option"
  ov_limit_period :: "int option"
  ov_updated_by :: "string option"

definition ov_new_row :: ov_row where
  "ov_new_row = \<lparr>ov_temp_blocked = False, ov_permanent_blocked = False, ov_block_reason = None,
     ov_block_started_at = None, ov_block_days = None, ov_block_until = None,
     ov_limit_bytes = None, ov_limit_period = None, ov_updated_by = None\<rparr>"

record ov_state =
  ov_rows :: "(string, ov_row) dict"
  ov_committed :: "(string, ov_row) dict"
  ov_fs :: fs

datatype ov_error = OvInvalid | OvLimitExceeded | OvDateOverflow | OvIo io_error

record ov_service =
  ov_clock :: datetime
  ov_consumed :: "string \<Rightarrow> int option \<Rightarrow> int"
  ov_files :: ban_files

type_synonym 'a ov_prog = "(ov_state, ov_error, 'a) prog"

definition ov_commit :: "unit ov_prog" where
  "ov_commit = modifyP (\<lambda>s. s\<lparr>ov_committed := ov_rows s\<rparr>)"

definition ov_put_row :: "string \<Rightarrow> ov_row \<Rightarrow> unit ov_prog" where
  "ov_put_row name row = modifyP (\<lambda>s. s\<lparr>ov_rows := AList.update name row (ov_rows s)\<rparr>)"

definition on_fs :: "(fs, io_error, 'a) prog \<Rightarrow> 'a ov_prog" where
  "on_fs m s = (case m (ov_fs s) of
     (Inl e, fs) \<Rightarrow> (Inl (OvIo e), s\<lparr>ov_fs := fs\<rparr>) | (Inr x, fs) \<Rightarrow> (Inr x, s\<lparr>ov_fs := fs\<rparr>))"

definition ov_normalize :: "string \<Rightarrow> string" where
  "ov_normalize name = strip name"

definition ov_clean_actor :: "string option \<Rightarrow> string option" where
  "ov_clean_actor actor =
     (case actor of None \<Rightarrow> None | Some a \<Rightarrow> if strip a = [] then None else Some (strip a))"

definition ov_get_or_create :: "string \<Rightarrow> (string \<times> ov_row) option ov_prog" where
  "ov_get_or_create name s =
     (let normalized = ov_normalize name in
      if normalized = [] then (Inr None, s)
      else case map_of (ov_rows s) normalized of
             Some row \<Rightarrow> (Inr (Some (normalized, row)), s)
           | None \<Rightarrow> (Inr (Some (normalized, ov_new_row)),
                      s\<lparr>ov_rows := AList.update normalized ov_new_row (ov_rows s)\<rparr>))"

definition ov_required_row :: "string \<Rightarrow> (string \<times> ov_row) ov_prog" where
  "ov_required_row name =
     bindP (ov_get_or_create name) (\<lambda>r. case r of None \<Rightarrow> raiseP OvInvalid | Some p \<Rightarrow> retP p)"

section \<open>The effective state\<close>

definition ov_traffic_state :: "ov_service \<Rightarrow> string \<Rightarrow> ov_row \<Rightarrow> traffic_state" where
  "ov_traffic_state svc name row =
     resolve_traffic_limit_state (ov_limit_bytes row) (ov_limit_period row)
       (ov_consumed svc name (ov_limit_period row)) (ov_clock svc)"

definition ov_limit_exceeded :: "ov_service \<Rightarrow> string \<Rightarrow> ov_row \<Rightarrow> bool" where
  "ov_limit_exceeded svc name row = ts_exceeded (ov_traffic_state svc name row)"

definition ov_days_left :: "datetime option \<Rightarrow> datetime \<Rightarrow> int option" where
  "ov_days_left target_dt now = map_option (\<lambda>t. delta_days (t - now)) target_dt"

record ov_effective =
  oe_is_blocked :: bool
  oe_reason :: "string option"
  oe_temp_blocked :: bool
  oe_permanent_blocked :: bool
  oe_traffic_exceeded :: bool
  oe_block_mode :: string
  oe_blocked_days_left :: "int option"
  oe_block_duration_days :: "int option"
  oe_block_started_at :: "datetime option"
  oe_traffic :: traffic_state

definition ov_effective_state :: "ov_service \<Rightarrow> string \<Rightarrow> ov_row \<Rightarrow> ov_effective" where
  "ov_effective_state svc name row =
     (let now = ov_clock svc;
          temp_blocked = (ov_temp_blocked row \<and> (case ov_block_until row of None \<Rightarrow> False | Some t \<Rightarrow> t > now));
          permanent_blocked = ov_permanent_blocked row;
          traffic = ov_traffic_state svc name row;
          traffic_exceeded = ts_exceeded traffic
      in \<lparr>oe_is_blocked = (permanent_blocked \<or> temp_blocked \<or> traffic_exceeded),
          oe_reason = (if permanent_blocked then Some ''manual_permanent''
                       else if temp_blocked then Some ''manual_temp''
                       else if traffic_exceeded then Some ''traffic_limit'' else None),
          oe_temp_blocked = temp_blocked, oe_permanent_blocked = permanent_blocked,
          oe_traffic_exceeded = traffic_exceeded,
          oe_block_mode = (if permanent_blocked then ''permanent''
                           else if temp_blocked then ''temp''
                           else if traffic_exceeded then ''traffic_limit'' else ''none''),
          oe_blocked_days_left = (if temp_blocked then ov_days_left (ov_block_until row) now else None),
          oe_block_duration_days = ov_block_days row, oe_block_started_at = ov_block_started_at row,
          oe_traffic = traffic\<rparr>)"

definition ov_cleanup_expired_temp_block :: "ov_row \<Rightarrow> datetime \<Rightarrow> bool \<times> ov_row" where
  "ov_cleanup_expired_temp_block row now =
     (if ov_temp_blocked row \<and> (case ov_block_until row of None \<Rightarrow> False | Some t \<Rightarrow> t \<le> now)
      then (True, row\<lparr>ov_temp_blocked := False, ov_block_reason := None, ov_block_started_at := None,
              ov_block_days := None, ov_block_until := None\<rparr>)
      else (False, row))"

abbreviation drop_dates :: "ov_row \<Rightarrow> ov_row" where
  "drop_dates row \<equiv> row\<lparr>ov_block_started_at := None, ov_block_days := None, ov_block_until := None\<rparr>"

definition ov_cleanup_traffic_limit :: "ov_row \<Rightarrow> traffic_state \<Rightarrow> bool \<Rightarrow> bool \<times> ov_row" where
  "ov_cleanup_traffic_limit row traffic traffic_limit_changed =
     (if ts_exceeded traffic then
        (if ov_permanent_blocked row \<and> \<not> ov_temp_blocked row
            \<and> (case ov_updated_by row of None \<Rightarrow> True | Some u \<Rightarrow> strip u = [])
         then (True, drop_dates (row\<lparr>ov_permanent_blocked := False\<rparr>))
         else (False, row))
      else
        let c1 = (ov_block_reason row = Some ''traffic_limit'');
            row1 = (if c1 then drop_dates row else row);
            c2 = (traffic_limit_changed \<and> ov_permanent_blocked row1 \<and> \<not> ov_temp_blocked row1);
            row2 = (if c2 then drop_dates (row1\<lparr>ov_permanent_blocked := False\<rparr>) else row1)
        in (c1 \<or> c2, row2))"

section \<open>Bringing the list of banned clients in line\<close>

definition ov_sync_row :: "ov_service \<Rightarrow> string list \<Rightarrow> string \<Rightarrow> ov_row \<Rightarrow> bool \<times> ov_row \<times> bool" where
  "ov_sync_row svc limit_changed name row =
     (let (c1, row1) = ov_cleanup_expired_temp_block row (ov_clock svc);
          traffic = ov_traffic_state svc name row1;
          (c2, row2) = ov_cleanup_traffic_limit row1 traffic (name \<in> set limit_changed);
          state = ov_effective_state svc name row2;
          c3 = (ov_block_reason row2 \<noteq> oe_reason state)
      in (c1 \<or> c2 \<or> c3, if c3 then row2\<lparr>ov_block_reason := oe_reason state\<rparr> else row2, oe_is_blocked state))"

definition ov_sync_rows ::
  "ov_service \<Rightarrow> string list \<Rightarrow> (string, ov_row) dict \<Rightarrow> (string \<times> bool \<times> ov_row \<times> bool) list" where
  "ov_sync_rows svc changed_clients d =
     (let limit_changed = map ov_normalize (filter (\<lambda>n. strip n \<noteq> []) changed_clients)
      in map (\<lambda>(name, row). (name, ov_sync_row svc limit_changed name row)) d)"

definition write_synced :: "ov_service \<Rightarrow> (string \<times> bool \<times> ov_row \<times> bool) list \<Rightarrow> string list ov_prog" where
  "write_synced svc results =
     (let blocked_clients = map fst (filter (\<lambda>(name, changed, row, blocked). blocked) results)
      in bindP (modifyP (\<lambda>s. s\<lparr>ov_rows := map (\<lambda>(name, changed, row, blocked). (name, row)) results\<rparr>)) (\<lambda>_.
         bindP (if list_ex (\<lambda>(name, changed, row, blocked). changed) results then ov_commit else retP ()) (\<lambda>_.
         bindP (on_fs (write_banned_clients (ov_files svc) blocked_clients)) (\<lambda>_. retP blocked_clients))))"

definition sync_banlist_from_policy :: "ov_service \<Rightarrow> string list \<Rightarrow> string list ov_prog" where
  "sync_banlist_from_policy svc changed_clients =
     bindP (on_fs (ensure_client_connect_ban_check_block (ov_files svc))) (\<lambda>_.
     bindP (getsP (\<lambda>s. Inr (ov_sync_rows svc changed_clients (ov_rows s)))) (write_synced svc))"

definition ov_reconcile_client :: "ov_service \<Rightarrow> string \<Rightarrow> bool \<Rightarrow> ov_effective option ov_prog" where
  "ov_reconcile_client svc name traffic_limit_changed =
     (let normalized = ov_normalize name in
      if normalized = [] then retP None
      else bindP (sync_banlist_from_policy svc (if traffic_limit_changed then [normalized] else [])) (\<lambda>_.
        getsP (\<lambda>s. Inr (map_option (ov_effective_state svc normalized) (map_of (ov_rows s) normalized)))))"

section \<open>The operations\<close>

definition ov_store :: "ov_service \<Rightarrow> string \<Rightarrow> string \<times> ov_row \<Rightarrow> bool \<Rightarrow> unit ov_prog" where
  "ov_store svc name r traffic_limit_changed =
     bindP (ov_put_row (fst r) (snd r)) (\<lambda>_.
     bindP ov_commit (\<lambda>_.
     bindP (ov_reconcile_client svc name traffic_limit_changed) (\<lambda>_. retP ())))"

definition ov_set_temp_block_days :: "ov_service \<Rightarrow> string \<Rightarrow> int \<Rightarrow> string option \<Rightarrow> unit ov_prog" where
  "ov_set_temp_block_days svc name days actor =
     (if days < 1 then raiseP OvInvalid
      else bindP (ov_required_row name) (\<lambda>(key, row).
        let row1 = row\<lparr>ov_temp_blocked := True, ov_permanent_blocked := False, ov_block_reason := Some ''manual_temp'',
              ov_block_started_at := Some (ov_clock svc), ov_block_days := Some days\<rparr>
        in bindP (ov_put_row key row1) (\<lambda>_.
           case add_days (ov_clock svc) days of
             None \<Rightarrow> raiseP OvDateOverflow
           | Some t \<Rightarrow> ov_store svc name
               (key, row1\<lparr>ov_block_until := Some t, ov_updated_by := ov_clean_actor actor\<rparr>) False)))"

definition ov_set_permanent_block :: "ov_service \<Rightarrow> string \<Rightarrow> string option \<Rightarrow> unit ov_prog" where
  "ov_set_permanent_block svc name actor =
     bindP (ov_required_row name) (\<lambda>(key, row).
       ov_store svc name
         (key, row\<lparr>ov_temp_blocked := False, ov_permanent_blocked := True, ov_block_reason := Some ''manual_permanent'',
            ov_block_started_at := Some (ov_clock svc), ov_block_days := None, ov_block_until := None,
            ov_updated_by := ov_clean_actor actor\<rparr>) False)"

definition ov_set_traffic_limit_bytes ::
  "ov_service \<Rightarrow> string \<Rightarrow> int \<Rightarrow> int option \<Rightarrow> string option \<Rightarrow> unit ov_prog" where
  "ov_set_traffic_limit_bytes svc name n period actor =
     (if n < 1 then raiseP OvInvalid
      else bindP (ov_required_row name) (\<lambda>(key, row).
        bindP (ov_put_row key (row\<lparr>ov_limit_bytes := Some n\<rparr>)) (\<lambda>_.
        if (case period of None \<Rightarrow> False | Some p \<Rightarrow> p \<notin> set TRAFFIC_LIMIT_PERIOD_DAYS_ALLOWED)
        then raiseP OvInvalid
        else ov_store svc name
               (key, row\<lparr>ov_limit_bytes := Some n, ov_limit_period := period,
                  ov_updated_by := ov_clean_actor actor\<rparr>) True)))"

definition ov_clear_traffic_limit :: "ov_service \<Rightarrow> string \<Rightarrow> string option \<Rightarrow> unit ov_prog" where
  "ov_clear_traffic_limit svc name actor =
     bindP (ov_required_row name) (\<lambda>(key, row).
       ov_store svc name
         (key, row\<lparr>ov_limit_bytes := None, ov_limit_period := None, ov_updated_by := ov_clean_actor actor\<rparr>) True)"

definition ov_clear_block :: "ov_service \<Rightarrow> string \<Rightarrow> string option \<Rightarrow> unit ov_prog" where
  "ov_clear_block svc name actor =
     bindP (ov_required_row name) (\<lambda>(key, row).
       if ov_limit_exceeded svc key row then raiseP OvLimitExceeded
       else ov_store svc name
         (key, row\<lparr>ov_temp_blocked := False, ov_permanent_blocked := False, ov_block_reason := None,
            ov_block_started_at := None, ov_block_days := None, ov_block_until := None,
            ov_updated_by := ov_clean_actor actor\<rparr>) False)"

text \<open>
  \<^verbatim>\<open>reconcile_all\<close> first imports the names of the banned clients that no row explains as permanent
  blocks, in sorted order.
\<close>

definition import_banned :: "ov_service \<Rightarrow> bool \<times> (string, ov_row) dict \<Rightarrow> string \<Rightarrow> bool \<times> (string, ov_row) dict" where
  "import_banned svc st client_name =
     (case st of (changed, d) \<Rightarrow>
        let key = ov_normalize client_name in
        if key = [] then (changed, d)
        else let row = (case map_of d key of Some r \<Rightarrow> r | None \<Rightarrow> ov_new_row);
                 d1 = (case map_of d key of Some r \<Rightarrow> d | None \<Rightarrow> AList.update key ov_new_row d)
          in if ov_limit_exceeded svc key row then (changed, d1)
             else if ov_block_reason row = Some ''traffic_limit'' then (changed, d1)
             else if ov_limit_bytes row \<noteq> None then (changed, d1)
             else if \<not> ov_temp_blocked row \<and> \<not> ov_permanent_blocked row then
               (True, AList.update key (row\<lparr>ov_permanent_blocked := True, ov_block_reason := Some ''manual_permanent'',
                        ov_block_started_at := Some (ov_clock svc), ov_block_days := None, ov_block_until := None\<rparr>) d1)
             else (changed, d1))"

definition ov_reconcile_all :: "ov_service \<Rightarrow> string list ov_prog" where
  "ov_reconcile_all svc =
     bindP (on_fs (getsP (read_banned_clients (ov_files svc)))) (\<lambda>banlist_clients.
     bindP (getsP (\<lambda>s. Inr (foldl (import_banned svc) (False, ov_rows s) (sorted_set banlist_clients)))) (\<lambda>(changed, d).
     bindP (modifyP (\<lambda>s. s\<lparr>ov_rows := d\<rparr>)) (\<lambda>_.
     bindP (if changed then ov_commit else retP ()) (\<lambda>_.
     bindP (sync_banlist_from_policy svc []) (\<lambda>blocked_clients. retP (sorted_set blocked_clients))))))"

definition ov_default_status :: ov_effective where
  "ov_default_status =
     \<lparr>oe_is_blocked = False, oe_reason = None, oe_temp_blocked = False, oe_permanent_blocked = False,
      oe_traffic_exceeded = False, oe_block_mode = ''none'', oe_blocked_days_left = None,
      oe_block_duration_days = None, oe_block_started_at = None,
      oe_traffic = \<lparr>ts_limit_bytes = None, ts_period_days = None, ts_period_label = None, ts_unblock_at = None,
        ts_unblock_label = None, ts_consumed_bytes = 0, ts_bytes_left = None, ts_exceeded = False\<rparr>\<rparr>"

definition ov_build_status_map ::
  "ov_service \<Rightarrow> string list \<Rightarrow> (string, ov_row) dict \<Rightarrow> (string \<times> ov_effective \<times> datetime option) list" where
  "ov_build_status_map svc client_names d =
     (let normalized = remdups (map ov_normalize (filter (\<lambda>n. strip n \<noteq> []) client_names)) in
      map (\<lambda>name. case map_of d name of
                     None \<Rightarrow> (name, ov_default_status, None)
                   | Some row \<Rightarrow> (name, ov_effective_state svc name row, ov_block_until row))
        normalized)"

end
