(* ===== verification/OvpnProps.thy ===== *)
theory OvpnProps
  imports OvpnPolicy
begin

text \<open>
  The list of banned clients follows the OpenVPN policy table, and the connect script carries
  the check of that list.
\<close>

section \<open>The list as a store of names\<close>

definition storable :: "string \<Rightarrow> bool" where
  "storable n \<longleftrightarrow> n \<noteq> [] \<and> strip n = n \<and> hd n \<noteq> CHR 0x23 \<and> LF \<notin> set n \<and> CR \<notin> set n"

text \<open>What the policy relies on: the names written last are the names read.\<close>

locale ban_store =
  fixes read_names :: "'s \<Rightarrow> ('e, string list) result"
    and write_names :: "string list \<Rightarrow> ('s, 'e, unit) prog"
    and good_name :: "string \<Rightarrow> bool"
  assumes read_written:
    "write_names ns s = (Inr (), s') \<Longrightarrow> \<forall>n \<in> set ns. good_name n \<Longrightarrow> \<exists>xs. read_names s' = Inr xs \<and> set xs = set ns"
begin

lemma banned_iff:
  assumes "write_names ns s = (Inr (), s')" and "\<forall>n \<in> set ns. good_name n"
  shows "\<exists>xs. read_names s' = Inr xs \<and> (\<forall>n. n \<in> set xs \<longleftrightarrow> n \<in> set ns)"
  using read_written [OF assms] by blast

lemma rewrite_replaces:
  assumes "write_names ns s = (Inr (), s1)" and "write_names ms s1 = (Inr (), s2)"
    and "\<forall>n \<in> set ms. good_name n" and "n \<notin> set ms"
  shows "\<exists>xs. read_names s2 = Inr xs \<and> n \<notin> set xs"
  using read_written [OF assms(2,3)] assms(4) by blast

end

lemma banned_text_lines: "banned_text ns = unlines (sort_key lower (remdups ns))"
proof -
  have "join [LF] xs @ [LF] = unlines xs" if "xs \<noteq> []" for xs
    using that
  proof (induction "[LF]" xs rule: join.induct)
    case (3 x y xs)
    then show ?case by (simp add: unlines_def)
  qed (simp_all add: unlines_def)
  then show ?thesis by (simp add: banned_text_def Let_def) (simp add: unlines_def)
qed

lemma banned_of_unlines:
  assumes "\<forall>n \<in> set ls. storable n"
  shows "banned_of_text (unlines ls) = ls"
proof -
  have "split_on LF (unlines ls) = ls @ [[]]"
    unfolding join_LF_unlines [symmetric] by (rule split_on_join) (use assms in \<open>auto simp: storable_def\<close>)
  moreover have "filter (\<lambda>line. line \<noteq> [] \<and> hd line \<noteq> CHR 0x23) (map strip ls) = ls"
    using assms by (induction ls) (auto simp: storable_def)
  ultimately show ?thesis by (simp add: banned_of_text_def strip_def lstrip_def rstrip_def)
qed

interpretation banlist: ban_store "read_banned_clients files" "write_banned_clients files" storable for files
proof
  fix ns s s'
  assume w: "write_banned_clients files ns s = (Inr (), s')" and good: "\<forall>n \<in> set ns. storable n"
  have lines: "\<forall>n \<in> set (sort_key lower (remdups ns)). storable n" using good by simp
  have "CR \<notin> set (banned_text ns)"
    unfolding banned_text_lines using lines by (auto simp: storable_def dest!: unlines_chars)
  from write_then_read [OF w [unfolded write_banned_clients_def] this]
  show "\<exists>xs. read_banned_clients files s' = Inr xs \<and> set xs = set ns"
    by (simp add: read_banned_clients_def banned_text_lines banned_of_unlines [OF lines])
qed

section \<open>A synchronisation\<close>

lemma ov_state_ignores_reason:
  "ov_effective_state svc name (row\<lparr>ov_block_reason := r\<rparr>) = ov_effective_state svc name row"
  by (simp add: ov_effective_state_def ov_traffic_state_def Let_def)

lemma cleanup_unchanged: "\<not> fst (ov_cleanup_expired_temp_block row now) \<Longrightarrow> snd (ov_cleanup_expired_temp_block row now) = row"
  by (auto simp: ov_cleanup_expired_temp_block_def)

lemma traffic_unchanged: "\<not> fst (ov_cleanup_traffic_limit row traffic b) \<Longrightarrow> snd (ov_cleanup_traffic_limit row traffic b) = row"
  by (auto simp: ov_cleanup_traffic_limit_def Let_def split: if_splits)

lemma sync_row_blocked:
  assumes "ov_sync_row svc ch name row = (changed, row', blocked)"
  shows "blocked = oe_is_blocked (ov_effective_state svc name row')"
    and "ov_block_reason row' = oe_reason (ov_effective_state svc name row')"
    and "\<not> changed \<Longrightarrow> row' = row"
proof -
  obtain c1 row1 where 1: "ov_cleanup_expired_temp_block row (ov_clock svc) = (c1, row1)" by fastforce
  obtain c2 row2 where 2: "ov_cleanup_traffic_limit row1 (ov_traffic_state svc name row1) (name \<in> set ch) = (c2, row2)"
    by fastforce
  define st where "st = ov_effective_state svc name row2"
  define c3 where "c3 = (ov_block_reason row2 \<noteq> oe_reason st)"
  have res: "changed = (c1 \<or> c2 \<or> c3)" "row' = (if c3 then row2\<lparr>ov_block_reason := oe_reason st\<rparr> else row2)"
    "blocked = oe_is_blocked st"
    using assms by (auto simp: ov_sync_row_def Let_def 1 2 st_def c3_def)
  show "blocked = oe_is_blocked (ov_effective_state svc name row')"
    "ov_block_reason row' = oe_reason (ov_effective_state svc name row')"
    by (simp_all add: res ov_state_ignores_reason st_def [symmetric]) (simp add: c3_def)
  show "row' = row" if "\<not> changed"
    using that res 1 2 cleanup_unchanged [of row "ov_clock svc"]
      traffic_unchanged [of row1 "ov_traffic_state svc name row1" "name \<in> set ch"] by simp
qed

definition blocked_in :: "ov_service \<Rightarrow> (string, ov_row) dict \<Rightarrow> string set" where
  "blocked_in svc d = {n. \<exists>row. (n, row) \<in> set d \<and> oe_is_blocked (ov_effective_state svc n row)}"

text \<open>The list agrees with the rows, and the rows are committed.\<close>

definition in_step :: "ov_service \<Rightarrow> ov_state \<Rightarrow> bool" where
  "in_step svc s \<longleftrightarrow> ov_rows s = ov_committed s
     \<and> ((\<forall>(n, row) \<in> set (ov_rows s). storable n) \<longrightarrow>
          (\<exists>xs. read_banned_clients (ov_files svc) (ov_fs s) = Inr xs \<and> set xs = blocked_in svc (ov_rows s)))
     \<and> (\<forall>(n, row) \<in> set (ov_rows s). ov_block_reason row = oe_reason (ov_effective_state svc n row))"

lemma on_fs_state: "on_fs m s = (r, s') \<Longrightarrow> ov_rows s' = ov_rows s \<and> ov_committed s' = ov_committed s"
  by (auto simp: on_fs_def split: prod.splits sum.splits)

lemma on_fs_Inr: "on_fs m s = (Inr x, s') \<Longrightarrow> m (ov_fs s) = (Inr x, ov_fs s')"
  by (auto simp: on_fs_def split: prod.splits sum.splits)

abbreviation rows_of :: "(string \<times> bool \<times> ov_row \<times> bool) list \<Rightarrow> (string, ov_row) dict" where
  "rows_of results \<equiv> map (\<lambda>(name, changed, row, blocked). (name, row)) results"

lemma write_synced_run:
  "write_synced svc results s =
     (let d = rows_of results;
          names = map fst (filter (\<lambda>(name, changed, row, blocked). blocked) results)
      in bindP (on_fs (write_banned_clients (ov_files svc) names)) (\<lambda>_. retP names)
         (s\<lparr>ov_rows := d,
            ov_committed := (if list_ex (\<lambda>(name, changed, row, blocked). changed) results then d else ov_committed s)\<rparr>))"
  by (simp add: write_synced_def ov_commit_def bindP_def [of "modifyP _"] bindP_def [of "retP _"] Let_def)

lemma ov_sync_rows_mem:
  assumes "(n, changed, row, blocked) \<in> set (ov_sync_rows svc ch d)"
  shows "\<exists>row0. (n, row0) \<in> set d \<and> blocked = oe_is_blocked (ov_effective_state svc n row)
    \<and> ov_block_reason row = oe_reason (ov_effective_state svc n row) \<and> (\<not> changed \<longrightarrow> row = row0)"
proof -
  obtain row0 where mem: "(n, row0) \<in> set d"
    and g: "ov_sync_row svc (map ov_normalize (filter (\<lambda>n. strip n \<noteq> []) ch)) n row0 = (changed, row, blocked)"
    using assms by (auto simp: ov_sync_rows_def Let_def)
  show ?thesis using mem sync_row_blocked [OF g] by blast
qed

lemma rows_of_unchanged:
  assumes "\<not> list_ex (\<lambda>(name, changed, row, blocked). changed) (ov_sync_rows svc ch d)"
  shows "rows_of (ov_sync_rows svc ch d) = d"
  using assms
proof (induction d)
  case Nil
  then show ?case by (simp add: ov_sync_rows_def)
next
  case (Cons p d)
  obtain n row where p: "p = (n, row)" by (cases p)
  obtain c r b where g: "ov_sync_row svc (map ov_normalize (filter (\<lambda>n. strip n \<noteq> []) ch)) n row = (c, r, b)"
    by (cases "ov_sync_row svc (map ov_normalize (filter (\<lambda>n. strip n \<noteq> []) ch)) n row")
  show ?case using Cons sync_row_blocked(3) [OF g] by (simp add: ov_sync_rows_def Let_def p g)
qed

lemma sync_in_step:
  assumes "sync_banlist_from_policy svc ch s = (Inr bl, s')" and "ov_rows s = ov_committed s"
  shows "in_step svc s'"
proof -
  define results where "results = ov_sync_rows svc ch (ov_rows s)"
  define d where "d = rows_of results"
  define names where "names = map fst (filter (\<lambda>(name, changed, row, blocked). blocked) results)"
  obtain s0 where s0: "on_fs (ensure_client_connect_ban_check_block (ov_files svc)) s = (Inr (), s0)"
    and "write_synced svc (ov_sync_rows svc ch (ov_rows s0)) s0 = (Inr bl, s')"
    using assms(1) by (auto simp: sync_banlist_from_policy_def bindP_Inr_iff)
  then have "write_synced svc results s0 = (Inr bl, s')" using on_fs_state [OF s0] by (simp add: results_def)
  then obtain s1 where s1: "s1 = s0\<lparr>ov_rows := d,
      ov_committed := (if list_ex (\<lambda>(name, changed, row, blocked). changed) results then d else ov_committed s0)\<rparr>"
    and w: "on_fs (write_banned_clients (ov_files svc) names) s1 = (Inr (), s')"
    by (auto simp: write_synced_run Let_def bindP_Inr_iff d_def [symmetric] names_def [symmetric])
  have rows: "ov_rows s' = d" using on_fs_state [OF w] by (simp add: s1)
  have committed: "ov_committed s' = d"
    using on_fs_state [OF w] on_fs_state [OF s0] assms(2) rows_of_unchanged [of svc ch "ov_rows s"]
    by (simp add: s1 d_def results_def)
  have names: "set names = blocked_in svc d"
  proof (rule set_eqI)
    fix n
    have "n \<in> set names \<longleftrightarrow> (\<exists>c row. (n, c, row, True) \<in> set results)" by (force simp: names_def)
    also have "\<dots> \<longleftrightarrow> (\<exists>c row b. (n, c, row, b) \<in> set results \<and> oe_is_blocked (ov_effective_state svc n row))"
      using ov_sync_rows_mem unfolding results_def by (metis (full_types))
    also have "\<dots> \<longleftrightarrow> n \<in> blocked_in svc d" by (force simp: blocked_in_def d_def)
    finally show "n \<in> set names \<longleftrightarrow> n \<in> blocked_in svc d" .
  qed
  have "\<exists>xs. read_banned_clients (ov_files svc) (ov_fs s') = Inr xs \<and> set xs = blocked_in svc d"
    if st: "\<forall>(n, row) \<in> set d. storable n"
  proof -
    have "\<forall>n \<in> set names. storable n" using st unfolding names by (auto simp: blocked_in_def)
    from banlist.read_written [OF on_fs_Inr [OF w] this] show ?thesis using names by simp
  qed
  moreover have "\<forall>(n, row) \<in> set d. ov_block_reason row = oe_reason (ov_effective_state svc n row)"
    using ov_sync_rows_mem unfolding d_def results_def by fastforce
  ultimately show ?thesis unfolding in_step_def rows committed by simp
qed

section \<open>Requests\<close>

datatype ov_request =
    OvSetLimit string int "int option" "string option"
  | OvClearLimit string "string option"
  | OvTempBlock string int "string option"
  | OvPermanentBlock string "string option"
  | OvClearBlock string "string option"
  | OvReconcileAll

fun ov_operation :: "ov_service \<Rightarrow> ov_request \<Rightarrow> unit ov_prog" where
  "ov_operation svc (OvSetLimit n b p a) = ov_set_traffic_limit_bytes svc n b p a"
| "ov_operation svc (OvClearLimit n a) = ov_clear_traffic_limit svc n a"
| "ov_operation svc (OvTempBlock n d a) = ov_set_temp_block_days svc n d a"
| "ov_operation svc (OvPermanentBlock n a) = ov_set_permanent_block svc n a"
| "ov_operation svc (OvClearBlock n a) = ov_clear_block svc n a"
| "ov_operation svc OvReconcileAll = bindP (ov_reconcile_all svc) (\<lambda>_. retP ())"

lemma required_row_name: "ov_required_row n s = (Inr (key, row), s') \<Longrightarrow> key = ov_normalize n \<and> key \<noteq> []"
  by (auto simp: ov_required_row_def ov_get_or_create_def Let_def bindP_def split: if_splits option.splits)

lemma store_in_step:
  assumes "ov_store svc n r b s = (Inr (), s')" and "ov_normalize n \<noteq> []"
  shows "in_step svc s'"
proof -
  define s1 where "s1 = s\<lparr>ov_rows := AList.update (fst r) (snd r) (ov_rows s), ov_committed := AList.update (fst r) (snd r) (ov_rows s)\<rparr>"
  obtain st where st: "ov_reconcile_client svc n b s1 = (Inr st, s')"
    using assms(1) by (auto simp: ov_store_def ov_put_row_def ov_commit_def s1_def bindP_Inr_iff)
  then obtain bl where "sync_banlist_from_policy svc (if b then [ov_normalize n] else []) s1 = (Inr bl, s')"
    using assms(2) by (auto simp: ov_reconcile_client_def Let_def bindP_Inr_iff)
  then show ?thesis by (rule sync_in_step) (simp add: s1_def)
qed

lemma import_keeps:
  assumes "fst st \<or> snd st = d0"
  shows "fst (import_banned svc st n) \<or> snd (import_banned svc st n) = d0"
proof -
  have fresh: "\<not> ov_limit_exceeded svc k ov_new_row" for k
    by (simp add: ov_limit_exceeded_def ov_traffic_state_def ov_new_row_def resolve_traffic_limit_state_def)
  obtain c d where st: "st = (c, d)" by (cases st)
  show ?thesis
  proof (cases "map_of d (ov_normalize n)")
    case None
    then show ?thesis using assms st fresh
      by (auto simp: import_banned_def Let_def) (simp_all add: ov_new_row_def)
  next
    case (Some row)
    then show ?thesis using assms st by (auto simp: import_banned_def Let_def)
  qed
qed

lemma reconcile_all_in_step:
  assumes "ov_reconcile_all svc s = (Inr bl, s')" and "ov_rows s = ov_committed s"
  shows "in_step svc s'"
proof -
  obtain banned s0 where s0: "on_fs (getsP (read_banned_clients (ov_files svc))) s = (Inr banned, s0)"
    using assms(1) by (auto simp: ov_reconcile_all_def bindP_Inr_iff)
  define st where "st = foldl (import_banned svc) (False, ov_rows s0) (sorted_set banned)"
  have "fst st \<or> snd st = ov_rows s0"
    unfolding st_def
  proof (rule foldl_invariant [where I = "\<lambda>st. fst st \<or> snd st = ov_rows s0"])
    show "fst (False, ov_rows s0) \<or> snd (False, ov_rows s0) = ov_rows s0" by simp
  qed (rule import_keeps)
  then have same: "\<not> fst st \<Longrightarrow> snd st = ov_committed s0"
    using on_fs_state [OF s0] assms(2) by auto
  obtain bl' where "sync_banlist_from_policy svc []
      (s0\<lparr>ov_rows := snd st, ov_committed := (if fst st then snd st else ov_committed s0)\<rparr>) = (Inr bl', s')"
    using assms(1) s0
    by (cases st) (auto simp: ov_reconcile_all_def bindP_Inr_iff st_def [symmetric] ov_commit_def split: if_splits)
  then show ?thesis by (rule sync_in_step) (use same in auto)
qed

text \<open>C8: After every request the panel has answered without an error (a block, an unblock, a limit, or the
  reconciliation of all clients) the rows are committed, every row stores the reason that holds,
  and, when the names can be written as lines, the file of banned clients reads back as exactly
  the clients whose row is blocked.\<close>

theorem banlist_follows_policy:
  assumes "ov_rows s = ov_committed s" and "ov_operation svc req s = (Inr (), s')"
    and "\<forall>(n, row) \<in> set (ov_rows s'). storable n"
  shows "ov_rows s' = ov_committed s'
    \<and> (\<forall>(n, row) \<in> set (ov_rows s'). ov_block_reason row = oe_reason (ov_effective_state svc n row))
    \<and> (\<exists>xs. read_banned_clients (ov_files svc) (ov_fs s') = Inr xs \<and>
         (\<forall>n. n \<in> set xs \<longleftrightarrow> (\<exists>row. (n, row) \<in> set (ov_rows s') \<and> oe_is_blocked (ov_effective_state svc n row))))"
proof -
  have "in_step svc s'"
  proof (cases req)
    case OvReconcileAll
    then show ?thesis using assms(1,2) reconcile_all_in_step by (auto simp: bindP_Inr_iff)
  qed (use assms(2) in \<open>auto simp: ov_set_traffic_limit_bytes_def ov_clear_traffic_limit_def ov_set_temp_block_days_def
      ov_set_permanent_block_def ov_clear_block_def Let_def bindP_Inr_iff
      split: if_splits option.splits prod.splits dest!: required_row_name intro: store_in_step\<close>)
  then show ?thesis using assms(3) by (auto simp: in_step_def blocked_in_def)
qed

definition example_files :: ban_files where
  "example_files = \<lparr>banned_clients_file = ''/etc/banned'', client_connect_script = ''/etc/connect.sh'',
     client_connect_ban_check_block = ''CHECK''\<rparr>"

definition ov_example_service :: ov_service where
  "ov_example_service = \<lparr>ov_clock = days_of 738000, ov_consumed = (\<lambda>n p. 0), ov_files = example_files\<rparr>"

definition ov_example_state :: ov_state where
  "ov_example_state = \<lparr>ov_rows = [], ov_committed = [], ov_fs = []\<rparr>"

lemma ov_example_run:
  "\<exists>s' row. ov_operation ov_example_service (OvPermanentBlock ''ann'' None) ov_example_state = (Inr (), s')
     \<and> ov_rows s' = [(''ann'', row)] \<and> ov_permanent_blocked row"
  by (simp add: ov_set_permanent_block_def ov_required_row_def ov_get_or_create_def ov_store_def ov_put_row_def
      ov_commit_def ov_reconcile_client_def ov_normalize_def sync_banlist_from_policy_def ov_sync_rows_def
      ov_sync_row_def write_synced_def ov_example_state_def ov_example_service_def example_files_def
      ov_cleanup_expired_temp_block_def ov_cleanup_traffic_limit_def ov_traffic_state_def ov_effective_state_def
      resolve_traffic_limit_state_def ensure_client_connect_ban_check_block_def read_text_def target_def max_links_def
      eval_nat_numeral optionR_def write_text_def on_fs_def bindP_def Let_def ov_new_row_def ov_clean_actor_def
      strip_def lstrip_def rstrip_def write_banned_clients_def with_ban_check_def starts_with_def)

theorem banlist_follows_policy_witness:
  "\<exists>s' xs. ov_operation ov_example_service (OvPermanentBlock ''ann'' None) ov_example_state = (Inr (), s')
     \<and> read_banned_clients example_files (ov_fs s') = Inr xs \<and> ''ann'' \<in> set xs"
proof -
  obtain s' row where run: "ov_operation ov_example_service (OvPermanentBlock ''ann'' None) ov_example_state = (Inr (), s')"
    and rows: "ov_rows s' = [(''ann'', row)]" and row: "ov_permanent_blocked row" using ov_example_run by blast
  have "\<forall>(n, row) \<in> set (ov_rows s'). storable n"
    by (simp add: rows storable_def strip_def lstrip_def rstrip_def)
  from banlist_follows_policy [OF _ run this] obtain xs where
    "read_banned_clients example_files (ov_fs s') = Inr xs" "\<forall>n. n \<in> set xs \<longleftrightarrow> (\<exists>row. (n, row) \<in> set (ov_rows s')
       \<and> oe_is_blocked (ov_effective_state ov_example_service n row))"
    by (auto simp: ov_example_state_def ov_example_service_def)
  then show ?thesis using run row by (simp add: rows ov_effective_state_def Let_def)
qed

section \<open>The connect script\<close>

lemma read_text_no_CR: "read_text fs p = Inr t \<Longrightarrow> CR \<notin> set t"
proof -
  have "node_text n = Inr t \<Longrightarrow> CR \<notin> set t" for n
    by (cases n rule: node_text.cases) (auto simp: universal_no_CR)
  then show "read_text fs p = Inr t \<Longrightarrow> CR \<notin> set t" by (auto simp: read_text_def result_simps)
qed

lemma with_ban_check_contains: "contains block (with_ban_check block content)"
proof -
  have "contains block (block @ s)" for s by (rule starts_with_contains) simp
  then have "contains block (p @ block @ s)" for p s by (rule contains_prepend)
  from this [of "takeWhile (\<lambda>c. c \<noteq> LF) content @ [LF, LF]"] this [of "[]"]
  show ?thesis by (simp add: with_ban_check_def Let_def)
qed

lemma with_ban_check_chars: "CR \<notin> set block \<Longrightarrow> CR \<notin> set content \<Longrightarrow> CR \<notin> set (with_ban_check block content)"
  by (auto simp: with_ban_check_def Let_def lstrip_LF_def dest: set_takeWhileD in_set_dropD set_dropWhileD)

text \<open>After a successful run the connect script carries the check of the banned clients, a second run
  changes nothing, and a script that starts with an interpreter line keeps that line first.\<close>

theorem ban_check_installed:
  assumes "CR \<notin> set (client_connect_ban_check_block files)" and "client_connect_ban_check_block files \<noteq> []"
    and "ensure_client_connect_ban_check_block files fs = (Inr (), fs')"
  shows "\<exists>content. read_text fs' (client_connect_script files) = Inr content
    \<and> contains (client_connect_ban_check_block files) content
    \<and> ensure_client_connect_ban_check_block files fs' = (Inr (), fs')
    \<and> (\<forall>old. read_text fs (client_connect_script files) = Inr old \<and> starts_with [CHR 0x23, CHR ''!''] old
         \<longrightarrow> takeWhile (\<lambda>c. c \<noteq> LF) content = takeWhile (\<lambda>c. c \<noteq> LF) old)"
proof -
  let ?b = "client_connect_ban_check_block files" and ?p = "client_connect_script files"
  define old where "old = (case read_text fs ?p of Inl FileNotFound \<Rightarrow> Inr [] | r \<Rightarrow> r)"
  obtain c where c: "old = Inr c" using assms(3)
    by (cases old) (auto simp: ensure_client_connect_ban_check_block_def old_def [symmetric])
  have step: "(if contains ?b c then (Inr (), fs) else write_text ?p (with_ban_check ?b c) fs) = (Inr (), fs')"
    using assms(3) c by (simp add: ensure_client_connect_ban_check_block_def old_def [symmetric] split: if_splits)
  have noCR: "CR \<notin> set c" using c read_text_no_CR [of fs ?p]
    by (auto simp: old_def split: sum.splits io_error.splits)
  have "\<exists>content. read_text fs' ?p = Inr content \<and> contains ?b content \<and> (content = c \<or> content = with_ban_check ?b c)"
  proof (cases "contains ?b c")
    case True
    then have "c \<noteq> []" using assms(2) by (auto simp: starts_with_def)
    then have "read_text fs ?p = Inr c" using c by (auto simp: old_def split: sum.splits io_error.splits)
    then show ?thesis using True step by simp
  next
    case False
    then have w: "write_text ?p (with_ban_check ?b c) fs = (Inr (), fs')" using step by simp
    show ?thesis using write_then_read [OF w with_ban_check_chars [OF assms(1) noCR]] with_ban_check_contains by blast
  qed
  then obtain content where r: "read_text fs' ?p = Inr content" and k: "contains ?b content"
    and cases: "content = c \<or> content = with_ban_check ?b c" by blast
  have "ensure_client_connect_ban_check_block files fs' = (Inr (), fs')"
    using r k by (simp add: ensure_client_connect_ban_check_block_def)
  moreover have "takeWhile (\<lambda>c. c \<noteq> LF) content = takeWhile (\<lambda>c. c \<noteq> LF) o'"
    if "read_text fs ?p = Inr o'" "starts_with [CHR 0x23, CHR ''!''] o'" for o'
    using cases that c by (auto simp: old_def with_ban_check_def Let_def takeWhile_append dest: set_takeWhileD)
  ultimately show ?thesis using r k by blast
qed

theorem ban_check_installed_witness:
  "\<exists>fs' content. ensure_client_connect_ban_check_block example_files [] = (Inr (), fs')
     \<and> read_text fs' ''/etc/connect.sh'' = Inr content \<and> contains ''CHECK'' content"
proof -
  obtain fs' where run: "ensure_client_connect_ban_check_block example_files [] = (Inr (), fs')"
    by (simp add: ensure_client_connect_ban_check_block_def example_files_def read_text_def target_def max_links_def
        eval_nat_numeral optionR_def write_text_def starts_with_def)
  then show ?thesis using ban_check_installed [OF _ _ run] by (auto simp: example_files_def)
qed

section \<open>Two consequences worth knowing\<close>

text \<open>Setting or clearing a traffic limit that is not exceeded lifts a manual permanent block.\<close>

lemma limit_change_lifts_permanent_block:
  assumes "\<not> ts_exceeded traffic" and "ov_permanent_blocked row" and "\<not> ov_temp_blocked row"
  shows "\<not> ov_permanent_blocked (snd (ov_cleanup_traffic_limit row traffic True))"
  using assms by (simp add: ov_cleanup_traffic_limit_def Let_def)

text \<open>
  A name left in the file by a write that failed after the unblock was committed is imported as a
  permanent manual block.
\<close>

lemma stale_name_becomes_block:
  assumes "map_of d n = Some row" and "ov_normalize n = n" and "n \<noteq> []"
    and "ov_limit_bytes row = None" and "ov_block_reason row = None"
    and "\<not> ov_temp_blocked row" and "\<not> ov_permanent_blocked row"
  shows "\<exists>row'. map_of (snd (import_banned svc (c, d) n)) n = Some row' \<and> ov_permanent_blocked row'"
  using assms
  by (simp add: import_banned_def Let_def map_of_update ov_limit_exceeded_def ov_traffic_state_def resolve_traffic_limit_state_def)

end
