(* ===== verification/WireGuard6.thy ===== *)
theory WireGuard6
  imports FakePool PyFs
begin

text \<open>
  \<^verbatim>\<open>setup/root/antizapret/wireguard-ipv6.py\<close>: deterministic IPv6 addresses for the server and the
  clients of an existing WireGuard configuration. A configuration is the list of its lines with
  their terminators; \<^verbatim>\<open>migrate_text\<close> appends the missing addresses, \<^verbatim>\<open>strip_text\<close> takes them out.
\<close>

datatype migration_error =
    InvalidPrefix
  | UnsupportedMode
  | InvalidClientAddress
  | HostOutOfRange
  | InvalidAddress string
  | MissingAllowedIPs nat
  | NoIpv4Host nat
  | ForeignPeerAddress nat
  | SecondAddress
  | SecondAllowedIPs nat
  | MissingAddress
  | ForeignInterfaceAddress
  | RefusedEmpty
  | AssertionFailed
  | CannotRead io_error
  | NotUtf8
  | CannotUpdate io_error

section \<open>Addresses\<close>

definition DEFAULT_PREFIX :: string where
  "DEFAULT_PREFIX = ''fd3a:c9bc:6bcb::/48''"

definition MODE_SUBNETS :: "(string \<times> nat) list" where
  "MODE_SUBNETS = [(''antizapret'', 0x2908), (''vpn'', 0x2808)]"

definition FAKE_SUBNET :: nat where
  "FAKE_SUBNET = 0x29FF"

definition FAKE_PREFIX_LENGTH :: nat where
  "FAKE_PREFIX_LENGTH = 96"

definition parse_base_prefix :: "string \<Rightarrow> (migration_error, ipnet) result" where
  "parse_base_prefix value =
     (case ip_network True value of
        None \<Rightarrow> Inl InvalidPrefix
      | Some net \<Rightarrow>
          if net_version net \<noteq> 6 \<or> prefixlen net \<noteq> 48 then Inl InvalidPrefix
          else if \<not> subnet_of net ULA then Inl InvalidPrefix
          else Inr net)"

definition mode_network :: "string \<Rightarrow> string \<Rightarrow> (migration_error, ipnet) result" where
  "mode_network prefix mode =
     bindR (parse_base_prefix prefix) (\<lambda>base.
       case map_of MODE_SUBNETS mode of
         None \<Rightarrow> Inl UnsupportedMode
       | Some subnet_id \<Rightarrow> Inr (subnet_at base subnet_id 64))"

definition fake_network :: "string \<Rightarrow> bool \<Rightarrow> (migration_error, ipnet) result" where
  "fake_network prefix alternative =
     (if alternative then Inr ALTERNATIVE_FAKE_IPV6_NETWORK
      else bindR (parse_base_prefix prefix) (\<lambda>base. Inr (subnet_at base FAKE_SUBNET FAKE_PREFIX_LENGTH)))"

definition server_address :: "string \<Rightarrow> string \<Rightarrow> (migration_error, ipaddr \<times> nat) result" where
  "server_address prefix mode =
     bindR (mode_network prefix mode) (\<lambda>net. Inr (V6 (net_int net + 1) None, prefixlen net))"

definition client_address :: "string \<Rightarrow> string \<Rightarrow> string \<Rightarrow> (migration_error, ipaddr \<times> nat) result" where
  "client_address prefix mode ipv4 =
     (case read_ip4 ipv4 of
        None \<Rightarrow> Inl InvalidClientAddress
      | Some address \<Rightarrow>
          let host = address mod 256 in
          if \<not> (2 \<le> host \<and> host \<le> 254) then Inl HostOutOfRange
          else bindR (mode_network prefix mode) (\<lambda>net. Inr (V6 (net_int net + host) None, 128)))"

section \<open>Lines\<close>

record assignment =
  as_prefix :: string
  as_name :: string
  as_separator :: string
  as_value :: string
  as_newline :: string

text \<open>
  \<^verbatim>\<open>ASSIGNMENT_RE\<close> on one line: the white space around the equals sign takes as much as it can, the
  value ends before a line feed or a carriage return with a line feed, and may not hold a line
  feed itself. The newline is empty when the group did not take part.
\<close>

definition split_newline :: "string \<Rightarrow> string \<times> string" where
  "split_newline s =
     (if ends_with [CR, LF] s then (take (length s - 2) s, [CR, LF])
      else if ends_with [LF] s then (take (length s - 1) s, [LF])
      else (s, []))"

definition match_name :: "string \<Rightarrow> string \<Rightarrow> string \<Rightarrow> assignment option" where
  "match_name pre name rest =
     (if starts_with name rest then
        let after_name = remove_prefix name rest;
            s1 = takeWhile is_space after_name; r1 = dropWhile is_space after_name
        in (case r1 of
              [] \<Rightarrow> None
            | c # cs \<Rightarrow>
                if c = CHR ''='' then
                  (let s2 = takeWhile is_space cs; (value, newline) = split_newline (dropWhile is_space cs)
                   in if LF \<in> set value then None
                      else Some \<lparr>as_prefix = pre, as_name = name, as_separator = s1 @ c # s2,
                                 as_value = value, as_newline = newline\<rparr>)
                else None)
      else None)"

definition match_assignment :: "string \<Rightarrow> assignment option" where
  "match_assignment line =
     (let pre = takeWhile is_space line; rest = dropWhile is_space line in
      case match_name pre ''Address'' rest of
        Some m \<Rightarrow> Some m
      | None \<Rightarrow> match_name pre ''AllowedIPs'' rest)"

definition split_addresses :: "string \<Rightarrow> string list" where
  "split_addresses value = filter (\<lambda>item. item \<noteq> []) (map strip (split_on (CHR '','') value))"

definition parse_interface :: "string \<Rightarrow> (migration_error, ipaddr \<times> nat) result" where
  "parse_interface value = (case ip_interface value of None \<Rightarrow> Inl (InvalidAddress value) | Some i \<Rightarrow> Inr i)"

definition with_value :: "assignment \<Rightarrow> string \<Rightarrow> string" where
  "with_value m value = as_prefix m @ as_name m @ as_separator m @ value @ as_newline m"

definition append_address :: "string \<Rightarrow> string \<Rightarrow> (migration_error, string) result" where
  "append_address line address =
     (case match_assignment line of
        None \<Rightarrow> Inl AssertionFailed
      | Some m \<Rightarrow> Inr (with_value m (as_value m @ '', '' @ address)))"

definition replace_addresses :: "string \<Rightarrow> string list \<Rightarrow> (migration_error, string) result" where
  "replace_addresses line addresses =
     (case match_assignment line of
        None \<Rightarrow> Inl AssertionFailed
      | Some m \<Rightarrow> Inr (with_value m (join '', '' addresses)))"

definition is_header :: "string \<Rightarrow> bool" where
  "is_header line \<longleftrightarrow> (let stripped = strip line in starts_with ''['' stripped \<and> ends_with '']'' stripped)"

definition header_name :: "string \<Rightarrow> string" where
  "header_name line = lower (strip (butlast (tl (strip line))))"

definition ipv4_hosts :: "(ipaddr \<times> nat) list \<Rightarrow> (ipaddr \<times> nat) list" where
  "ipv4_hosts parsed = filter (\<lambda>i. version (fst i) = 4 \<and> snd i = 32) parsed"

definition ipv6_items :: "(ipaddr \<times> nat) list \<Rightarrow> (ipaddr \<times> nat) list" where
  "ipv6_items parsed = filter (\<lambda>i. version (fst i) = 6) parsed"

section \<open>Adding the addresses\<close>

text \<open>
  The state of the loop: the lines passed so far with their changes, the section, the line of the
  interface's Address, the line of the current peer's AllowedIPs, the number of the peer and the
  number of changes.
\<close>

record mig_state =
  m_lines :: "string list"
  m_section :: "string option"
  m_iface :: "nat option"
  m_peer :: "nat option"
  m_number :: nat
  m_changed :: nat

text \<open>The line of a peer: unchanged (\<^verbatim>\<open>None\<close>) or with its address.\<close>

definition migrated_peer_line :: "string \<Rightarrow> string \<Rightarrow> nat \<Rightarrow> string \<Rightarrow> (migration_error, string option) result" where
  "migrated_peer_line prefix mode number line =
     (case match_assignment line of
        None \<Rightarrow> Inl AssertionFailed
      | Some m \<Rightarrow>
          bindR (traverseR parse_interface (split_addresses (as_value m))) (\<lambda>parsed.
            case ipv4_hosts parsed of
              [] \<Rightarrow> Inl (NoIpv4Host number)
            | host # hosts \<Rightarrow>
                bindR (client_address prefix mode (show_addr (fst host))) (\<lambda>expected.
                  if expected \<in> set (ipv6_items parsed) then Inr None
                  else if ipv6_items parsed \<noteq> [] then Inl (ForeignPeerAddress number)
                  else map_sum id Some (append_address line (show_interface expected)))))"

definition migrate_peer :: "string \<Rightarrow> string \<Rightarrow> mig_state \<Rightarrow> (migration_error, mig_state) result" where
  "migrate_peer prefix mode s =
     (case m_peer s of
        None \<Rightarrow> Inl (MissingAllowedIPs (m_number s))
      | Some k \<Rightarrow>
          bindR (migrated_peer_line prefix mode (m_number s) (m_lines s ! k)) (\<lambda>r.
            case r of
              None \<Rightarrow> Inr s
            | Some line \<Rightarrow> Inr (s\<lparr>m_lines := (m_lines s)[k := line], m_changed := m_changed s + 1\<rparr>)))"

definition close_section :: "string \<Rightarrow> string \<Rightarrow> mig_state \<Rightarrow> (migration_error, mig_state) result" where
  "close_section prefix mode s = (if m_section s = Some ''peer'' then migrate_peer prefix mode s else Inr s)"

definition migrate_step :: "string \<Rightarrow> string \<Rightarrow> mig_state \<Rightarrow> string \<Rightarrow> (migration_error, mig_state) result" where
  "migrate_step prefix mode s line =
     (if is_header line then
        bindR (close_section prefix mode s) (\<lambda>s.
          let sec = header_name line;
              s1 = s\<lparr>m_lines := m_lines s @ [line], m_section := Some sec\<rparr>
          in Inr (if sec = ''peer'' then s1\<lparr>m_number := m_number s1 + 1, m_peer := None\<rparr> else s1))
      else
        let s1 = s\<lparr>m_lines := m_lines s @ [line]\<rparr>; index = length (m_lines s) in
        (case match_assignment line of
           None \<Rightarrow> Inr s1
         | Some m \<Rightarrow>
             let name = lower (as_name m) in
             if m_section s = Some ''interface'' \<and> name = ''address'' then
               (if m_iface s \<noteq> None then Inl SecondAddress else Inr (s1\<lparr>m_iface := Some index\<rparr>))
             else if m_section s = Some ''peer'' \<and> name = ''allowedips'' then
               (if m_peer s \<noteq> None then Inl (SecondAllowedIPs (m_number s)) else Inr (s1\<lparr>m_peer := Some index\<rparr>))
             else Inr s1))"

definition migrated_interface_line :: "ipaddr \<times> nat \<Rightarrow> string \<Rightarrow> (migration_error, string option) result" where
  "migrated_interface_line expected_server line =
     (case match_assignment line of
        None \<Rightarrow> Inl AssertionFailed
      | Some m \<Rightarrow>
          bindR (traverseR parse_interface (split_addresses (as_value m))) (\<lambda>parsed.
            if expected_server \<in> set (ipv6_items parsed) then Inr None
            else if ipv6_items parsed \<noteq> [] then Inl ForeignInterfaceAddress
            else map_sum id Some (append_address line (show_interface expected_server))))"

definition migrate_interface :: "ipaddr \<times> nat \<Rightarrow> mig_state \<Rightarrow> (migration_error, string list \<times> nat) result" where
  "migrate_interface expected_server s =
     (case m_iface s of
        None \<Rightarrow> Inl MissingAddress
      | Some k \<Rightarrow>
          bindR (migrated_interface_line expected_server (m_lines s ! k)) (\<lambda>r.
            case r of
              None \<Rightarrow> Inr (m_lines s, m_changed s)
            | Some line \<Rightarrow> Inr ((m_lines s)[k := line], m_changed s + 1)))"

definition mig_start :: mig_state where
  "mig_start = \<lparr>m_lines = [], m_section = None, m_iface = None, m_peer = None, m_number = 0, m_changed = 0\<rparr>"

definition migrate_lines :: "string \<Rightarrow> string \<Rightarrow> string list \<Rightarrow> (migration_error, string list \<times> nat) result" where
  "migrate_lines prefix mode lines =
     bindR (server_address prefix mode) (\<lambda>expected_server.
     bindR (foldR (migrate_step prefix mode) mig_start lines) (\<lambda>s.
     bindR (close_section prefix mode s) (migrate_interface expected_server)))"

definition migrate_text :: "string \<Rightarrow> string \<Rightarrow> string \<Rightarrow> (migration_error, string \<times> nat) result" where
  "migrate_text txt prefix mode =
     bindR (migrate_lines prefix mode (splitlines_keep txt)) (\<lambda>(lines, changed). Inr (concat lines, changed))"

section \<open>Taking the addresses out\<close>

definition stripped_line ::
  "string \<Rightarrow> string \<Rightarrow> ipaddr \<times> nat \<Rightarrow> string option \<Rightarrow> string \<Rightarrow> (migration_error, string option) result" where
  "stripped_line prefix mode expected_server section line =
     (case match_assignment line of
        None \<Rightarrow> Inr None
      | Some m \<Rightarrow>
          let name = lower (as_name m); values = split_addresses (as_value m) in
          bindR (traverseR parse_interface values) (\<lambda>parsed.
          bindR (if section = Some ''interface'' \<and> name = ''address'' then Inr (Some expected_server)
                 else if section = Some ''peer'' \<and> name = ''allowedips'' then
                   (case ipv4_hosts parsed of
                      [] \<Rightarrow> Inl (NoIpv4Host 0)
                    | host # hosts \<Rightarrow> map_sum id Some (client_address prefix mode (show_addr (fst host))))
                 else Inr None) (\<lambda>remove.
            case remove of
              None \<Rightarrow> Inr None
            | Some r \<Rightarrow>
                if r \<notin> set parsed then Inr None
                else let retained = map fst (filter (\<lambda>(value, p). p \<noteq> r) (zip values parsed)) in
                  if retained = [] then Inl RefusedEmpty
                  else map_sum id Some (replace_addresses line retained))))"

text \<open>The loop: the lines so far, the section and the number of changes.\<close>

definition strip_step ::
  "string \<Rightarrow> string \<Rightarrow> ipaddr \<times> nat \<Rightarrow> string list \<times> string option \<times> nat \<Rightarrow> string
     \<Rightarrow> (migration_error, string list \<times> string option \<times> nat) result" where
  "strip_step prefix mode expected_server st line =
     (case st of (lines, section, changed) \<Rightarrow>
        if is_header line then Inr (lines @ [line], Some (header_name line), changed)
        else bindR (stripped_line prefix mode expected_server section line) (\<lambda>r.
          case r of
            None \<Rightarrow> Inr (lines @ [line], section, changed)
          | Some line' \<Rightarrow> Inr (lines @ [line'], section, changed + 1)))"

definition strip_lines :: "string \<Rightarrow> string \<Rightarrow> string list \<Rightarrow> (migration_error, string list \<times> nat) result" where
  "strip_lines prefix mode lines =
     bindR (server_address prefix mode) (\<lambda>expected_server.
     bindR (foldR (strip_step prefix mode expected_server) ([], None, 0) lines)
       (\<lambda>(lines, section, changed). Inr (lines, changed)))"

definition strip_text :: "string \<Rightarrow> string \<Rightarrow> string \<Rightarrow> (migration_error, string \<times> nat) result" where
  "strip_text txt prefix mode =
     bindR (strip_lines prefix mode (splitlines_keep txt)) (\<lambda>(lines, changed). Inr (concat lines, changed))"

section \<open>Files and commands\<close>

text \<open>
  The temporary file has a name no other file has; its content reaches the target only through
  the final replacement, and a failure removes it.
\<close>

definition make_temporary :: "string \<Rightarrow> (fs, io_error, unit) prog" where
  "make_temporary temporary = modifyP (AList.update temporary (File [] 384))"

definition atomic_write :: "string \<Rightarrow> string \<Rightarrow> string \<Rightarrow> (fs, io_error, unit) prog" where
  "atomic_write temporary path content fs =
     (case bindP (make_temporary temporary) (\<lambda>_.
             bindP (getsP (\<lambda>fs. stat_mode fs path)) (\<lambda>mode.
             bindP (write_text temporary content) (\<lambda>_.
             bindP (chmod temporary (mode mod 4096)) (\<lambda>_.
             replace_file temporary path)))) fs of
        (Inr u, fs') \<Rightarrow> (Inr u, fs')
      | (Inl e, fs') \<Rightarrow> (Inl e, AList.delete temporary fs'))"

definition reconcile_file ::
  "string \<Rightarrow> string \<Rightarrow> string \<Rightarrow> string \<Rightarrow> bool \<Rightarrow> bool \<Rightarrow> (fs, migration_error, nat) prog" where
  "reconcile_file temporary path prefix mode enable write fs =
     (case read_text fs path of
        Inl e \<Rightarrow> (Inl (if e = UnicodeError then NotUtf8 else CannotRead e), fs)
      | Inr original \<Rightarrow>
          (case (if enable then migrate_text original prefix mode else strip_text original prefix mode) of
             Inl e \<Rightarrow> (Inl e, fs)
           | Inr (reconciled, changes) \<Rightarrow>
               if write \<and> reconciled \<noteq> original
               then (case atomic_write temporary path reconciled fs of
                       (Inl e, fs') \<Rightarrow> (Inl (CannotUpdate e), fs')
                     | (Inr u, fs') \<Rightarrow> (Inr changes, fs'))
               else (Inr changes, fs)))"

definition migrate_file :: "string \<Rightarrow> string \<Rightarrow> string \<Rightarrow> string \<Rightarrow> bool \<Rightarrow> (fs, migration_error, nat) prog" where
  "migrate_file temporary path prefix mode write = reconcile_file temporary path prefix mode True write"

datatype wg6_command =
    PrintNetwork string
  | PrintFakeNetwork
  | PrintServerAddress string
  | PrintClientAddress string string
  | Migrate string string bool
  | Strip string string bool

text \<open>\<^verbatim>\<open>run\<close>: the line printed.\<close>

definition wg6_run :: "string \<Rightarrow> string \<Rightarrow> bool \<Rightarrow> wg6_command \<Rightarrow> (fs, migration_error, string) prog" where
  "wg6_run temporary prefix alternative command =
     (case command of
        PrintNetwork mode \<Rightarrow> getsP (\<lambda>fs. bindR (mode_network prefix mode) (\<lambda>n. Inr (show_net n)))
      | PrintFakeNetwork \<Rightarrow> getsP (\<lambda>fs. bindR (fake_network prefix alternative) (\<lambda>n. Inr (show_net n)))
      | PrintServerAddress mode \<Rightarrow> getsP (\<lambda>fs. bindR (server_address prefix mode) (\<lambda>i. Inr (show_interface i)))
      | PrintClientAddress mode ipv4 \<Rightarrow>
          getsP (\<lambda>fs. bindR (client_address prefix mode ipv4) (\<lambda>i. Inr (show_interface i)))
      | Migrate mode path check \<Rightarrow>
          bindP (reconcile_file temporary path prefix mode True (\<not> check))
            (\<lambda>changes. retP (if changes > 0 then ''updated'' else ''unchanged''))
      | Strip mode path check \<Rightarrow>
          bindP (reconcile_file temporary path prefix mode False (\<not> check))
            (\<lambda>changes. retP (if changes > 0 then ''updated'' else ''unchanged'')))"

end
