(* ===== verification/WireGuard6Facts.thy ===== *)
theory WireGuard6Facts
  imports WireGuard6 PyIpFacts
begin

text \<open>
  Facts on \<^theory_text>\<open>WireGuard6\<close>: what an assignment line is, that an added address changes neither the
  kind of a line nor what was written in it, the plan of a migration (the interface line and the
  peer lines, which depend on the kinds of the lines only), and the addresses.
\<close>

section \<open>Assignment lines\<close>

definition render :: "assignment \<Rightarrow> string" where
  "render m = with_value m (as_value m)"

definition assignment_ok :: "assignment \<Rightarrow> bool" where
  "assignment_ok m \<longleftrightarrow> list_all is_space (as_prefix m)
     \<and> (as_name m = ''Address'' \<or> as_name m = ''AllowedIPs'')
     \<and> (\<exists>s1 s2. as_separator m = s1 @ CHR ''='' # s2 \<and> list_all is_space s1 \<and> list_all is_space s2)
     \<and> LF \<notin> set (as_value m)
     \<and> (as_newline m = [] \<or> as_newline m = [LF] \<and> (as_value m = [] \<or> last (as_value m) \<noteq> CR)
        \<or> as_newline m = [CR, LF])
     \<and> (if as_value m = [] then as_newline m = [] else \<not> is_space (hd (as_value m)))"

lemma take_drop_space:
  assumes "list_all is_space u" and "v = [] \<or> \<not> is_space (hd v)"
  shows "takeWhile is_space (u @ v) = u" and "dropWhile is_space (u @ v) = v"
proof -
  show "takeWhile is_space (u @ v) = u"
    using assms(1) by (induction u) (use assms(2) in \<open>cases v; simp\<close>)+
  show "dropWhile is_space (u @ v) = v"
    using assms(1) by (induction u) (use assms(2) in \<open>cases v; simp\<close>)+
qed

lemma ends_with_iff: "ends_with p s \<longleftrightarrow> (\<exists>u. s = u @ p)"
proof
  assume "ends_with p s"
  then have "s = take (length s - length p) s @ p"
    unfolding ends_with_def by (metis append_take_drop_id)
  then show "\<exists>u. s = u @ p" by blast
qed (auto simp: ends_with_def)

lemma newline_cases:
  obtains u where "s = u @ [CR, LF]" | u where "s = u @ [LF]" "u = [] \<or> last u \<noteq> CR"
    | "s = [] \<or> last s \<noteq> LF"
proof (cases "s = [] \<or> last s \<noteq> LF")
  case False
  then obtain u where u: "s = u @ [LF]" by (cases s rule: rev_cases) auto
  show thesis
  proof (cases "u = [] \<or> last u \<noteq> CR")
    case True
    then show thesis using u that(2) by blast
  next
    case False
    then obtain w where "u = w @ [CR]" by (cases u rule: rev_cases) auto
    then show thesis using u that(1) by simp
  qed
qed (use that(3) in blast)

lemma split_newline_CRLF: "split_newline (u @ [CR, LF]) = (u, [CR, LF])"
  by (simp add: split_newline_def ends_with_def)

lemma split_newline_LF:
  assumes "u = [] \<or> last u \<noteq> CR"
  shows "split_newline (u @ [LF]) = (u, [LF])"
proof -
  have "\<not> ends_with [CR, LF] (u @ [LF])"
    using assms by (cases u rule: rev_cases) (auto simp: ends_with_iff)
  then show ?thesis by (simp add: split_newline_def ends_with_def)
qed

lemma split_newline_none: "s = [] \<or> last s \<noteq> LF \<Longrightarrow> split_newline s = (s, [])"
  by (cases s rule: rev_cases) (auto simp: split_newline_def ends_with_iff)

lemma split_newline_parts:
  "split_newline s = (v, nl) \<Longrightarrow> s = v @ nl \<and>
     (nl = [] \<and> (s = [] \<or> last s \<noteq> LF) \<or> nl = [LF] \<and> (v = [] \<or> last v \<noteq> CR) \<or> nl = [CR, LF])"
  by (rule newline_cases [of s]) (auto simp: split_newline_CRLF split_newline_LF split_newline_none)

lemma split_newline_append:
  assumes "LF \<notin> set v" and "nl = [] \<or> nl = [LF] \<and> (v = [] \<or> last v \<noteq> CR) \<or> nl = [CR, LF]"
  shows "split_newline (v @ nl) = (v, nl)"
proof -
  have "v = [] \<or> last v \<noteq> LF" using assms(1) last_in_set by metis
  then show ?thesis
    using assms(2) split_newline_CRLF [of v] split_newline_LF [of v] split_newline_none [of v] by auto
qed

lemma match_name_Some:
  assumes "match_name pre name rest = Some m"
  shows "\<exists>s1 s2 v nl. rest = name @ s1 @ CHR ''='' # s2 @ v @ nl \<and> list_all is_space s1 \<and> list_all is_space s2
    \<and> LF \<notin> set v \<and> (if v = [] then nl = [] else \<not> is_space (hd v))
    \<and> (nl = [] \<or> nl = [LF] \<and> (v = [] \<or> last v \<noteq> CR) \<or> nl = [CR, LF])
    \<and> m = \<lparr>as_prefix = pre, as_name = name, as_separator = s1 @ CHR ''='' # s2, as_value = v, as_newline = nl\<rparr>"
proof -
  obtain rest' where rest': "rest = name @ rest'"
    using assms by (auto simp: match_name_def starts_with_iff split: if_splits)
  obtain c cs where r1: "dropWhile is_space rest' = c # cs"
    using assms by (auto simp: match_name_def rest' Let_def split: list.splits)
  have c: "c = CHR ''=''" using assms r1 by (auto simp: match_name_def rest' Let_def split: if_splits)
  obtain v nl where vn: "split_newline (dropWhile is_space cs) = (v, nl)" by fastforce
  have m: "LF \<notin> set v \<and> m = \<lparr>as_prefix = pre, as_name = name,
      as_separator = takeWhile is_space rest' @ c # takeWhile is_space cs, as_value = v, as_newline = nl\<rparr>"
    using assms r1 c vn by (auto simp: match_name_def rest' Let_def split: if_splits)
  have d: "dropWhile is_space cs = v @ nl"
    and nl: "nl = [] \<or> nl = [LF] \<and> (v = [] \<or> last v \<noteq> CR) \<or> nl = [CR, LF]"
    using split_newline_parts [OF vn] by blast+
  have hd: "if v = [] then nl = [] else \<not> is_space (hd v)"
    using dropWhile_hd [of is_space cs] d nl by (cases v) auto
  have rest'_eq: "rest' = takeWhile is_space rest' @ c # cs"
    using r1 takeWhile_dropWhile_id [of is_space rest'] by simp
  have cs_eq: "cs = takeWhile is_space cs @ v @ nl"
    using d takeWhile_dropWhile_id [of is_space cs] by simp
  show ?thesis
  proof (intro exI conjI)
    show "rest = name @ takeWhile is_space rest' @ CHR ''='' # takeWhile is_space cs @ v @ nl"
      using rest' rest'_eq cs_eq c by simp
    show "list_all is_space (takeWhile is_space rest')" "list_all is_space (takeWhile is_space cs)"
      by (auto simp: list_all_iff dest: set_takeWhileD)
    show "LF \<notin> set v" using m by simp
    show "if v = [] then nl = [] else \<not> is_space (hd v)" by (rule hd)
    show "nl = [] \<or> nl = [LF] \<and> (v = [] \<or> last v \<noteq> CR) \<or> nl = [CR, LF]" by (rule nl)
    show "m = \<lparr>as_prefix = pre, as_name = name,
      as_separator = takeWhile is_space rest' @ CHR ''='' # takeWhile is_space cs, as_value = v, as_newline = nl\<rparr>"
      using m c by simp
  qed
qed

lemma match_name_render:
  assumes "list_all is_space s1" "list_all is_space s2" "LF \<notin> set v"
    and "if v = [] then nl = [] else \<not> is_space (hd v)"
    and "nl = [] \<or> nl = [LF] \<and> (v = [] \<or> last v \<noteq> CR) \<or> nl = [CR, LF]"
  shows "match_name pre name (name @ s1 @ CHR ''='' # s2 @ v @ nl) =
    Some \<lparr>as_prefix = pre, as_name = name, as_separator = s1 @ CHR ''='' # s2, as_value = v, as_newline = nl\<rparr>"
proof -
  have 1: "takeWhile is_space (s1 @ CHR ''='' # s2 @ v @ nl) = s1"
    "dropWhile is_space (s1 @ CHR ''='' # s2 @ v @ nl) = CHR ''='' # s2 @ v @ nl"
    by (rule take_drop_space; use assms(1) in simp)+
  have "v @ nl = [] \<or> \<not> is_space (hd (v @ nl))" using assms(4) by (cases v) auto
  from take_drop_space [OF assms(2) this]
  have 2: "takeWhile is_space (s2 @ v @ nl) = s2" "dropWhile is_space (s2 @ v @ nl) = v @ nl" by simp_all
  have 3: "split_newline (v @ nl) = (v, nl)" by (rule split_newline_append [OF assms(3,5)])
  show ?thesis using assms(3) by (simp add: match_name_def Let_def 1 2 3)
qed

lemma match_name_ok:
  assumes "match_name pre name rest = Some m" and "list_all is_space pre"
    and "name = ''Address'' \<or> name = ''AllowedIPs''"
  shows "pre @ rest = render m \<and> assignment_ok m"
proof -
  from match_name_Some [OF assms(1)] obtain s1 s2 v nl where
    rest: "rest = name @ s1 @ CHR ''='' # s2 @ v @ nl" and s: "list_all is_space s1" "list_all is_space s2"
    and v: "LF \<notin> set v" "if v = [] then nl = [] else \<not> is_space (hd v)"
    and nl: "nl = [] \<or> nl = [LF] \<and> (v = [] \<or> last v \<noteq> CR) \<or> nl = [CR, LF]"
    and m: "m = \<lparr>as_prefix = pre, as_name = name, as_separator = s1 @ CHR ''='' # s2, as_value = v, as_newline = nl\<rparr>"
    by blast
  have "pre @ rest = render m" by (simp add: render_def with_value_def m rest)
  moreover have "assignment_ok m"
    unfolding assignment_ok_def m using assms(2,3) s v nl by simp blast
  ultimately show ?thesis by blast
qed

lemma match_assignment_ok: "match_assignment l = Some m \<Longrightarrow> l = render m \<and> assignment_ok m"
proof -
  assume "match_assignment l = Some m"
  then obtain name where "name = ''Address'' \<or> name = ''AllowedIPs''"
    and "match_name (takeWhile is_space l) name (dropWhile is_space l) = Some m"
    by (auto simp: match_assignment_def Let_def split: option.splits)
  moreover have "list_all is_space (takeWhile is_space l)"
    by (auto simp: list_all_iff dest: set_takeWhileD)
  ultimately show ?thesis using match_name_ok takeWhile_dropWhile_id [of is_space l] by metis
qed

lemma match_render:
  assumes "assignment_ok m"
  shows "match_assignment (render m) = Some m"
proof -
  obtain s1 s2 where sep: "as_separator m = s1 @ CHR ''='' # s2" "list_all is_space s1" "list_all is_space s2"
    using assms by (auto simp: assignment_ok_def)
  have name: "as_name m = ''Address'' \<or> as_name m = ''AllowedIPs''" using assms by (simp add: assignment_ok_def)
  let ?rest = "as_name m @ s1 @ CHR ''='' # s2 @ as_value m @ as_newline m"
  have l: "render m = as_prefix m @ ?rest" using sep(1) by (simp add: render_def with_value_def)
  have pre: "list_all is_space (as_prefix m)" using assms by (simp add: assignment_ok_def)
  have hd: "?rest = [] \<or> \<not> is_space (hd ?rest)" using name by auto
  note td = take_drop_space [OF pre hd, folded l]
  have "match_name (as_prefix m) (as_name m) ?rest =
     Some \<lparr>as_prefix = as_prefix m, as_name = as_name m, as_separator = s1 @ CHR ''='' # s2,
       as_value = as_value m, as_newline = as_newline m\<rparr>"
    by (rule match_name_render [OF sep(2,3)]) (use assms in \<open>simp_all add: assignment_ok_def\<close>)
  then have found: "match_name (as_prefix m) (as_name m) ?rest = Some m" using sep(1) by simp
  show ?thesis
  proof (cases "as_name m = ''Address''")
    case True
    then show ?thesis using found by (simp add: match_assignment_def td)
  next
    case False
    then have "as_name m = ''AllowedIPs''" using name by simp
    then have "match_name (as_prefix m) ''Address'' ?rest = None"
      by (simp add: match_name_def starts_with_def)
    then show ?thesis using found \<open>as_name m = _\<close> by (simp add: match_assignment_def td)
  qed
qed

section \<open>Kinds of lines\<close>

text \<open>A section header with its name, an assignment with its name, or another line.\<close>

definition line_key :: "string \<Rightarrow> string + string option" where
  "line_key l = (if is_header l then Inl (header_name l) else Inr (map_option as_name (match_assignment l)))"

lemma lstrip_strip: "\<exists>v. lstrip s = strip s @ v"
  unfolding strip_def rstrip_def
  by (metis rev_append rev_rev_ident takeWhile_dropWhile_id)

lemma assignment_not_header:
  assumes "assignment_ok m"
  shows "\<not> is_header (render m)"
proof
  assume "is_header (render m)"
  then obtain w where "strip (render m) = CHR ''['' # w"
    by (auto simp: is_header_def Let_def starts_with_iff)
  then obtain v where v: "lstrip (render m) = CHR ''['' # v" using lstrip_strip [of "render m"] by auto
  have name: "as_name m = ''Address'' \<or> as_name m = ''AllowedIPs''" using assms by (simp add: assignment_ok_def)
  let ?rest = "as_name m @ as_separator m @ as_value m @ as_newline m"
  have pre: "list_all is_space (as_prefix m)" using assms by (simp add: assignment_ok_def)
  have "?rest = [] \<or> \<not> is_space (hd ?rest)" using name by auto
  from take_drop_space(2) [OF pre this] have "lstrip (render m) = ?rest"
    by (simp add: lstrip_def render_def with_value_def)
  then show False using v name by auto
qed

lemma key_render: "assignment_ok m \<Longrightarrow> line_key (render m) = Inr (Some (as_name m))"
  by (simp add: line_key_def assignment_not_header match_render)

section \<open>The addresses added\<close>

text \<open>An IPv6 interface without scope id, as the migration makes them.\<close>

definition made_interface :: "ipaddr \<times> nat \<Rightarrow> bool" where
  "made_interface i \<longleftrightarrow> (\<exists>n. fst i = V6 n None \<and> n < 2 ^ 128) \<and> snd i \<le> 128"

lemma made_plain: "made_interface i \<Longrightarrow> addr_plain (fst i) \<and> snd i \<le> width (version (fst i)) \<and> version (fst i) = 6"
  by (auto simp: made_interface_def width_def)

lemma made_clean:
  assumes "made_interface i" and "c \<in> set (show_interface i)"
  shows "\<not> is_space c \<and> \<not> is_eol c \<and> c \<noteq> CHR '',''"
proof -
  have "c \<in> set (show_addr (fst i)) \<or> c = CHR ''/'' \<or> c \<in> set (show_nat (snd i))"
    using assms(2) by (auto simp: show_interface_def)
  then show ?thesis
    using show_addr_clean [of "fst i" c] made_plain [OF assms(1)] is_digit_facts [of c] show_nat_chars [of c "snd i"]
    by (auto simp: is_digit_def)
qed

lemma made_parses: "made_interface i \<Longrightarrow> parse_interface (show_interface i) = Inr i"
proof -
  assume "made_interface i"
  from made_plain [OF this] have "ip_interface (show_interface i) = Some (fst i, snd i)"
    unfolding show_interface_def by (intro ip_interface_show) blast+
  then show ?thesis by (simp add: parse_interface_def)
qed

lemma show_interface_nonempty [simp]: "show_interface i \<noteq> []"
  by (simp add: show_interface_def)

lemma base_prefix_ok:
  assumes "parse_base_prefix prefix = Inr base"
  shows "net_ok base \<and> net_version base = 6 \<and> prefixlen base = 48"
  using assms ip_network_ok [of True prefix]
  by (auto simp: parse_base_prefix_def split: option.splits if_splits)

lemma subnet_at_int:
  assumes "net_ok m" and "net_version m = 6" and "prefixlen m = 48" and "c < 2 ^ 16"
  shows "net_int (subnet_at m c p) = net_int m + c * 2 ^ 64" and "net_int m + 2 ^ 80 \<le> 2 ^ 128"
proof -
  have d: "2 ^ 80 dvd net_int m" using assms(1-3) by (simp add: net_ok_def width_def)
  show "net_int (subnet_at m c p) = net_int m + c * 2 ^ 64"
    using or_as_add [OF d assms(4)] by (simp add: subnet_at_def net_int_def)
  show "net_int m + 2 ^ 80 \<le> 2 ^ 128"
    using net_range_top [OF assms(1)] assms(2,3) by (simp add: num_addresses_def width_def)
qed

lemma mode_id: "map_of MODE_SUBNETS mode = Some c \<Longrightarrow> c < 2 ^ 16"
  by (auto simp: MODE_SUBNETS_def split: if_splits)

lemma mode_network_int:
  assumes "mode_network prefix mode = Inr n"
  shows "\<exists>base c. parse_base_prefix prefix = Inr base \<and> map_of MODE_SUBNETS mode = Some c
    \<and> net_int n = net_int base + c * 2 ^ 64 \<and> net_int base + 2 ^ 80 \<le> 2 ^ 128 \<and> prefixlen n = 64"
proof -
  from assms obtain base c where b: "parse_base_prefix prefix = Inr base" and c: "map_of MODE_SUBNETS mode = Some c"
    and n: "n = subnet_at base c 64"
    by (auto simp: mode_network_def result_simps split: option.splits)
  show ?thesis
    using b c n subnet_at_int [of base c] base_prefix_ok [OF b] mode_id [OF c] by (simp add: subnet_at_def)
qed

lemma mode_address_bound:
  assumes "mode_network prefix mode = Inr n" and "h < 2 ^ 64"
  shows "net_int n + h < 2 ^ 128"
proof -
  from mode_network_int [OF assms(1)] obtain base c where
    "map_of MODE_SUBNETS mode = Some c" "net_int n = net_int base + c * 2 ^ 64" "net_int base + 2 ^ 80 \<le> 2 ^ 128"
    by blast
  then show ?thesis using mode_id [of mode c] assms(2) by simp
qed

lemma server_address_made: "server_address prefix mode = Inr i \<Longrightarrow> made_interface i"
  using mode_address_bound [of prefix mode _ 1] mode_network_int [of prefix mode]
  by (fastforce simp: server_address_def made_interface_def result_simps)

lemma client_address_made: "client_address prefix mode ipv4 = Inr i \<Longrightarrow> made_interface i"
  using mode_address_bound [of prefix mode]
  by (fastforce simp: client_address_def made_interface_def result_simps Let_def split: option.splits if_splits)

section \<open>Appending an address to a line\<close>

definition grown :: "assignment \<Rightarrow> ipaddr \<times> nat \<Rightarrow> assignment" where
  "grown m i = m\<lparr>as_value := as_value m @ '', '' @ show_interface i\<rparr>"

lemma grown_ok:
  assumes "assignment_ok m" and "as_value m \<noteq> []" and "made_interface i"
  shows "assignment_ok (grown m i)"
proof -
  have clean: "c \<in> set (show_interface i) \<Longrightarrow> \<not> is_eol c" for c
    using made_clean [OF assms(3)] by blast
  then have "LF \<notin> set (show_interface i)" "last (show_interface i) \<noteq> CR"
    using last_in_set [OF show_interface_nonempty] by (metis is_eol_LF, metis is_eol_CR)
  then show ?thesis using assms(1,2) by (auto simp: grown_def assignment_ok_def)
qed

lemma append_address_grown:
  "assignment_ok m \<Longrightarrow> append_address (render m) (show_interface i) = Inr (render (grown m i))"
  unfolding append_address_def by (simp add: match_render) (simp add: grown_def render_def with_value_def)

lemma map_sum_id_Inr: "map_sum id f r = Inr y \<longleftrightarrow> (\<exists>x. r = Inr x \<and> y = f x)"
  by (cases r) auto

lemma split_by_append2: "p c \<Longrightarrow> split_by p (u @ c # w) = split_by p u @ split_by p w"
proof (induction u)
  case (Cons d u)
  then show ?case using split_by_nonempty [of p u] by (cases "split_by p u") auto
qed simp

lemma split_addresses_snoc:
  assumes "\<And>c. c \<in> set a \<Longrightarrow> \<not> is_space c \<and> c \<noteq> CHR '',''" and "a \<noteq> []"
  shows "split_addresses (v @ '', '' @ a) = split_addresses v @ [a]"
proof -
  have "split_on (CHR '','') (v @ '', '' @ a) = split_on (CHR '','') v @ split_on (CHR '','') (CHR '' '' # a)"
    unfolding split_on_def by (simp add: split_by_append2)
  also have "split_on (CHR '','') (CHR '' '' # a) = [CHR '' '' # a]"
    unfolding split_on_def using assms(1) by (intro split_by_single) auto
  finally have "split_on (CHR '','') (v @ '', '' @ a) = split_on (CHR '','') v @ [CHR '' '' # a]" .
  moreover have "strip (CHR '' '' # a) = a"
    using strip_clean [of a] assms(1) by (simp add: strip_def lstrip_def)
  ultimately show ?thesis using assms(2) by (simp add: split_addresses_def)
qed

lemma grown_values:
  "made_interface i \<Longrightarrow> split_addresses (as_value (grown m i)) = split_addresses (as_value m) @ [show_interface i]"
  using split_addresses_snoc [of "show_interface i" "as_value m"] made_clean [of i] by (simp add: grown_def)

lemma traverseR_snoc:
  "traverseR f xs = Inr ys \<Longrightarrow> f x = Inr y \<Longrightarrow> traverseR f (xs @ [x]) = Inr (ys @ [y])"
  by (induction xs arbitrary: ys) (auto simp: result_simps)

lemma grown_parsed:
  assumes "made_interface i" and "traverseR parse_interface (split_addresses (as_value m)) = Inr parsed"
  shows "traverseR parse_interface (split_addresses (as_value (grown m i))) = Inr (parsed @ [i])"
  using assms by (simp add: grown_values traverseR_snoc made_parses)

lemma made_ipv6: "made_interface i \<Longrightarrow> i \<in> set (ipv6_items (parsed @ [i])) \<and> ipv4_hosts (parsed @ [i]) = ipv4_hosts parsed"
  using made_plain [of i] by (simp add: ipv6_items_def ipv4_hosts_def)

text \<open>An edit that has been made once is not made again.\<close>

lemma peer_edit:
  assumes "migrated_peer_line prefix mode a l = Inr (Some l')"
  shows "\<exists>m i parsed. l = render m \<and> assignment_ok m \<and> as_value m \<noteq> [] \<and> made_interface i \<and> l' = render (grown m i)
    \<and> traverseR parse_interface (split_addresses (as_value m)) = Inr parsed \<and> ipv6_items parsed = []
    \<and> (\<exists>host hosts. ipv4_hosts parsed = host # hosts \<and> client_address prefix mode (show_addr (fst host)) = Inr i)"
proof -
  obtain m where m: "match_assignment l = Some m"
    using assms by (auto simp: migrated_peer_line_def split: option.splits)
  obtain parsed where p: "traverseR parse_interface (split_addresses (as_value m)) = Inr parsed"
    using assms m by (auto simp: migrated_peer_line_def result_simps)
  obtain host hosts where h: "ipv4_hosts parsed = host # hosts"
    using assms m p by (auto simp: migrated_peer_line_def split: list.splits)
  obtain i where i: "client_address prefix mode (show_addr (fst host)) = Inr i"
    using assms m p h by (auto simp: migrated_peer_line_def result_simps)
  note ok = match_assignment_ok [OF m]
  have v6: "ipv6_items parsed = []" and l': "append_address l (show_interface i) = Inr l'"
    using assms m p h i
    by (auto simp: migrated_peer_line_def map_sum_id_Inr split: if_splits)
  have "as_value m \<noteq> []"
  proof
    assume "as_value m = []"
    then have "parsed = []" using p by (simp add: split_addresses_def split_on_def strip_def lstrip_def rstrip_def)
    then show False using h by (simp add: ipv4_hosts_def)
  qed
  moreover have "l' = render (grown m i)" using l' ok append_address_grown [of m i] by simp
  ultimately show ?thesis
    using ok p h i v6 client_address_made [OF i]
    by (intro exI [of _ m] exI [of _ i] exI [of _ parsed] conjI exI [of _ host] exI [of _ hosts]) simp_all
qed

lemma peer_edit_again:
  assumes "migrated_peer_line prefix mode a l = Inr (Some l')"
  shows "migrated_peer_line prefix mode b l' = Inr None"
proof -
  from peer_edit [OF assms] obtain m i parsed host hosts where
    m: "assignment_ok m" "as_value m \<noteq> []" "made_interface i" "l' = render (grown m i)"
    and p: "traverseR parse_interface (split_addresses (as_value m)) = Inr parsed"
    and h: "ipv4_hosts parsed = host # hosts" "client_address prefix mode (show_addr (fst host)) = Inr i"
    by blast
  show ?thesis
    using m(4) h made_ipv6 [OF m(3), of parsed]
    by (simp add: migrated_peer_line_def match_render [OF grown_ok [OF m(1-3)]] grown_parsed [OF m(3) p])
qed

lemma peer_edit_number:
  "migrated_peer_line prefix mode a l = Inr r \<Longrightarrow> migrated_peer_line prefix mode b l = Inr r"
proof -
  assume r: "migrated_peer_line prefix mode a l = Inr r"
  obtain m where m: "match_assignment l = Some m"
    using r by (auto simp: migrated_peer_line_def split: option.splits)
  obtain parsed where p: "traverseR parse_interface (split_addresses (as_value m)) = Inr parsed"
    using r m by (auto simp: migrated_peer_line_def result_simps)
  obtain host hosts where h: "ipv4_hosts parsed = host # hosts"
    using r m p by (auto simp: migrated_peer_line_def split: list.splits)
  obtain i where i: "client_address prefix mode (show_addr (fst host)) = Inr i"
    using r m p h by (auto simp: migrated_peer_line_def result_simps)
  show ?thesis using r m p h i by (auto simp: migrated_peer_line_def split: if_splits)
qed

lemma interface_edit:
  assumes "migrated_interface_line e l = Inr (Some l')"
  shows "\<exists>m parsed. l = render m \<and> assignment_ok m \<and> l' = render (grown m e)
    \<and> traverseR parse_interface (split_addresses (as_value m)) = Inr parsed \<and> ipv6_items parsed = []"
proof -
  obtain m where m: "match_assignment l = Some m"
    using assms by (auto simp: migrated_interface_line_def split: option.splits)
  obtain parsed where p: "traverseR parse_interface (split_addresses (as_value m)) = Inr parsed"
    using assms m by (auto simp: migrated_interface_line_def result_simps)
  note ok = match_assignment_ok [OF m]
  have v6: "ipv6_items parsed = []" and l': "append_address l (show_interface e) = Inr l'"
    using assms m p by (auto simp: migrated_interface_line_def map_sum_id_Inr split: if_splits)
  then show ?thesis using ok p append_address_grown [of m e] by auto
qed

lemma interface_edit_again:
  assumes "migrated_interface_line e (render m) = Inr (Some l')" and "made_interface e"
    and "assignment_ok m" and "as_value m \<noteq> []"
  shows "migrated_interface_line e l' = Inr None"
proof -
  from interface_edit [OF assms(1)] obtain m' parsed where
    m': "render m = render m'" "assignment_ok m'" "l' = render (grown m' e)"
    and p: "traverseR parse_interface (split_addresses (as_value m')) = Inr parsed"
    by blast
  have "m' = m" using m' assms(3) match_render by (metis option.inject)
  then show ?thesis
    using m'(3) made_ipv6 [OF assms(2), of parsed] p
    by (simp add: migrated_interface_line_def match_render [OF grown_ok [OF assms(3,4,2)]] grown_parsed [OF assms(2)])
qed

end
