(* ===== verification/WireGuard6Plan.thy ===== *)
theory WireGuard6Plan
  imports WireGuard6Facts
begin

text \<open>
  The plan of a migration depends on the kinds of the lines alone; every successful migration
  edits exactly the lines of the plan, and a second one finds nothing to do.
\<close>

section \<open>The plan\<close>

record plan =
  p_index :: nat
  p_section :: "string option"
  p_iface :: "nat option"
  p_peer :: "nat option"
  p_closed :: "nat list"

definition plan_close :: "plan \<Rightarrow> (unit, plan) result" where
  "plan_close st =
     (if p_section st = Some ''peer'' then
        (case p_peer st of None \<Rightarrow> Inl () | Some k \<Rightarrow> Inr (st\<lparr>p_closed := p_closed st @ [k]\<rparr>))
      else Inr st)"

definition plan_step :: "plan \<Rightarrow> string + string option \<Rightarrow> (unit, plan) result" where
  "plan_step st key =
     (case key of
        Inl sec \<Rightarrow> bindR (plan_close st) (\<lambda>st.
          let st1 = st\<lparr>p_index := p_index st + 1, p_section := Some sec\<rparr>
          in Inr (if sec = ''peer'' then st1\<lparr>p_peer := None\<rparr> else st1))
      | Inr None \<Rightarrow> Inr (st\<lparr>p_index := p_index st + 1\<rparr>)
      | Inr (Some name) \<Rightarrow>
          let st1 = st\<lparr>p_index := p_index st + 1\<rparr> in
          if p_section st = Some ''interface'' \<and> lower name = ''address'' then
            (if p_iface st \<noteq> None then Inl () else Inr (st1\<lparr>p_iface := Some (p_index st)\<rparr>))
          else if p_section st = Some ''peer'' \<and> lower name = ''allowedips'' then
            (if p_peer st \<noteq> None then Inl () else Inr (st1\<lparr>p_peer := Some (p_index st)\<rparr>))
          else Inr st1)"

definition plan_start :: plan where
  "plan_start = \<lparr>p_index = 0, p_section = None, p_iface = None, p_peer = None, p_closed = []\<rparr>"

text \<open>The line of the interface and the lines of the peers.\<close>

definition plan_of :: "(string + string option) list \<Rightarrow> (nat \<times> nat list) option" where
  "plan_of ks =
     (case bindR (foldR plan_step plan_start ks) plan_close of
        Inl u \<Rightarrow> None
      | Inr st \<Rightarrow> map_option (\<lambda>i. (i, p_closed st)) (p_iface st))"

text \<open>The section a list of lines ends in.\<close>

definition section_after :: "(string + string option) list \<Rightarrow> string option" where
  "section_after ks = foldl (\<lambda>s k. case k of Inl sec \<Rightarrow> Some sec | Inr n \<Rightarrow> s) None ks"

definition is_address_at :: "(string + string option) list \<Rightarrow> string \<Rightarrow> string \<Rightarrow> nat \<Rightarrow> bool" where
  "is_address_at ks sec name k \<longleftrightarrow> k < length ks \<and> section_after (take k ks) = Some sec
     \<and> (\<exists>n. ks ! k = Inr (Some n) \<and> lower n = name)"

definition plan_inv :: "(string + string option) list \<Rightarrow> plan \<Rightarrow> bool" where
  "plan_inv ks st \<longleftrightarrow> p_index st = length ks \<and> p_section st = section_after ks
     \<and> (\<forall>i. p_iface st = Some i \<longrightarrow> is_address_at ks ''interface'' ''address'' i)
     \<and> (p_section st = Some ''peer'' \<longrightarrow> (\<forall>k. p_peer st = Some k \<longrightarrow>
          is_address_at ks ''peer'' ''allowedips'' k \<and> k \<notin> set (p_closed st)))
     \<and> (\<forall>k \<in> set (p_closed st). is_address_at ks ''peer'' ''allowedips'' k)
     \<and> distinct (p_closed st)"

lemma is_address_at_snoc: "is_address_at ks sec name k \<Longrightarrow> is_address_at (ks @ [x]) sec name k"
  by (auto simp: is_address_at_def nth_append)

lemma is_address_at_new:
  "section_after ks = Some sec \<Longrightarrow> lower n = name \<Longrightarrow> is_address_at (ks @ [Inr (Some n)]) sec name (length ks)"
  by (simp add: is_address_at_def)

lemma section_after_snoc [simp]:
  "section_after [] = None"
  "section_after (ks @ [Inl sec]) = Some sec"
  "section_after (ks @ [Inr n]) = section_after ks"
  by (simp_all add: section_after_def)

lemma is_address_at_less: "is_address_at ks sec name k \<Longrightarrow> k < length ks"
  by (simp add: is_address_at_def)

lemma plan_close_inv:
  assumes "plan_inv ks st" and "plan_close st = Inr st'"
  shows "plan_inv ks (st'\<lparr>p_peer := None\<rparr>)"
    and "p_index st' = p_index st" and "p_section st' = p_section st" and "p_iface st' = p_iface st"
    and "\<forall>i. p_iface st' = Some i \<longrightarrow> is_address_at ks ''interface'' ''address'' i"
    and "\<forall>k \<in> set (p_closed st'). is_address_at ks ''peer'' ''allowedips'' k" and "distinct (p_closed st')"
  using assms by (auto simp: plan_inv_def plan_close_def split: if_splits option.splits)

lemma plan_step_inv:
  assumes "plan_inv ks st" and "plan_step st x = Inr st'"
  shows "plan_inv (ks @ [x]) st'"
proof (cases x)
  case (Inl sec)
  then obtain st1 where c: "plan_close st = Inr st1"
    and st': "st' = (let st2 = st1\<lparr>p_index := p_index st1 + 1, p_section := Some sec\<rparr>
          in if sec = ''peer'' then st2\<lparr>p_peer := None\<rparr> else st2)"
    using assms(2) by (auto simp: plan_step_def result_simps Let_def)
  note 1 = plan_close_inv [OF assms(1) c]
  show ?thesis
    unfolding plan_inv_def
    using 1 assms(1) Inl st' is_address_at_snoc [of ks _ _ _ x]
    by (auto simp: Let_def plan_inv_def [of ks st])
next
  case (Inr n)
  have fresh: "length ks \<notin> set (p_closed st)"
    using assms(1) is_address_at_less by (fastforce simp: plan_inv_def)
  show ?thesis
    using assms Inr is_address_at_snoc [of ks _ _ _ x] is_address_at_new [of ks] fresh
    by (auto simp: plan_inv_def plan_step_def Let_def split: option.splits if_splits)
qed

lemma plan_run_inv: "foldR plan_step plan_start ks = Inr st \<Longrightarrow> plan_inv ks st"
proof (induction ks arbitrary: st rule: rev_induct)
  case Nil
  then show ?case by (auto simp: plan_inv_def plan_start_def)
next
  case (snoc x ks)
  then obtain st1 where "foldR plan_step plan_start ks = Inr st1" "plan_step st1 x = Inr st"
    by (auto simp: foldR_append result_simps)
  then show ?case using snoc.IH plan_step_inv by blast
qed

lemma plan_of_spec:
  assumes "plan_of ks = Some (i, closed)"
  shows "is_address_at ks ''interface'' ''address'' i" and "distinct closed"
    and "k \<in> set closed \<Longrightarrow> is_address_at ks ''peer'' ''allowedips'' k"
    and "i \<notin> set closed"
proof -
  from assms obtain st st' where st: "foldR plan_step plan_start ks = Inr st" "plan_close st = Inr st'"
    and i: "p_iface st' = Some i" "p_closed st' = closed"
    by (auto simp: plan_of_def result_simps split: sum.splits)
  note 1 = plan_close_inv [OF plan_run_inv [OF st(1)] st(2)]
  show "is_address_at ks ''interface'' ''address'' i" "distinct closed"
    and peers: "k \<in> set closed \<Longrightarrow> is_address_at ks ''peer'' ''allowedips'' k" for k
    using 1 i by auto
  show "i \<notin> set closed"
    using peers [of i] \<open>is_address_at ks ''interface'' ''address'' i\<close> by (auto simp: is_address_at_def)
qed

section \<open>Every migration follows its plan\<close>

definition line_edit :: "(string \<Rightarrow> (migration_error, string option) result) \<Rightarrow> string \<Rightarrow> string \<Rightarrow> bool" where
  "line_edit f l l' \<longleftrightarrow> f l = Inr (Some l') \<or> f l = Inr None \<and> l' = l"

definition touched ::
  "(string \<Rightarrow> (migration_error, string option) result) \<Rightarrow> nat set \<Rightarrow> string list \<Rightarrow> string list \<Rightarrow> bool" where
  "touched f K L M \<longleftrightarrow> length M = length L
     \<and> (\<forall>k < length L. if k \<in> K then line_edit f (L ! k) (M ! k) else M ! k = L ! k)"

definition diffs :: "string list \<Rightarrow> string list \<Rightarrow> nat" where
  "diffs L M = card {k. k < length L \<and> M ! k \<noteq> L ! k}"

lemma diffs_same [simp]: "diffs L L = 0"
  by (simp add: diffs_def)

lemma diffs_snoc: "length M = length L \<Longrightarrow> diffs (L @ [l]) (M @ [l]) = diffs L M"
proof -
  assume "length M = length L"
  then have "{k. k < length (L @ [l]) \<and> (M @ [l]) ! k \<noteq> (L @ [l]) ! k} = {k. k < length L \<and> M ! k \<noteq> L ! k}"
    by (auto simp: nth_append less_Suc_eq)
  then show ?thesis by (simp add: diffs_def)
qed

lemma diffs_update:
  assumes "length M = length L" and "k < length L" and "M ! k = L ! k" and "l \<noteq> L ! k"
  shows "diffs L (M[k := l]) = diffs L M + 1"
proof -
  have "{j. j < length L \<and> M[k := l] ! j \<noteq> L ! j} = insert k {j. j < length L \<and> M ! j \<noteq> L ! j}"
    using assms by (auto simp: nth_list_update)
  then show ?thesis using assms(3) by (simp add: diffs_def)
qed

lemma touched_snoc:
  "touched f K L M \<Longrightarrow> \<forall>k \<in> K. k < length L \<Longrightarrow> touched f K (L @ [l]) (M @ [l])"
  by (auto simp: touched_def nth_append less_Suc_eq)

lemma touched_insert:
  assumes "touched f K L M" and "line_edit f (L ! k) l" and "k \<notin> K"
  shows "touched f (insert k K) L (M[k := l])"
  unfolding touched_def
proof (intro conjI allI impI)
  show "length (M[k := l]) = length L" using assms(1) by (simp add: touched_def)
  fix j
  assume j: "j < length L"
  then show "if j \<in> insert k K then line_edit f (L ! j) (M[k := l] ! j) else M[k := l] ! j = L ! j"
    using assms by (cases "j = k") (auto simp: touched_def)
qed

lemma render_grown: "render (grown m i) \<noteq> render m"
proof
  assume "render (grown m i) = render m"
  then have "length (render (grown m i)) = length (render m)" by simp
  then show False by (simp add: render_def grown_def with_value_def)
qed

lemma grown_key:
  "assignment_ok m \<Longrightarrow> as_value m \<noteq> [] \<Longrightarrow> made_interface i \<Longrightarrow> line_key (render (grown m i)) = line_key (render m)"
  using key_render [OF grown_ok [of m i]] key_render [of m] by (simp add: grown_def)

lemma peer_edit_key:
  assumes "line_edit (migrated_peer_line prefix mode a) l l'"
  shows "line_key l' = line_key l"
proof (cases "migrated_peer_line prefix mode a l = Inr (Some l')")
  case True
  from peer_edit [OF True] obtain m i where
    "l = render m" "assignment_ok m" "as_value m \<noteq> []" "made_interface i" "l' = render (grown m i)" by blast
  then show ?thesis using grown_key [of m i] by simp
qed (use assms in \<open>simp add: line_edit_def\<close>)

lemma peer_edit_quiet:
  assumes "line_edit (migrated_peer_line prefix mode a) l l'"
  shows "migrated_peer_line prefix mode b l' = Inr None"
proof (cases "migrated_peer_line prefix mode a l = Inr (Some l')")
  case True
  then show ?thesis by (rule peer_edit_again)
next
  case False
  then have q: "migrated_peer_line prefix mode a l = Inr None" "l' = l" using assms by (auto simp: line_edit_def)
  show ?thesis unfolding q(2) by (rule peer_edit_number [OF q(1)])
qed

lemma bindR_InrE: "bindR m f = Inr y \<Longrightarrow> (\<And>x. m = Inr x \<Longrightarrow> f x = Inr y \<Longrightarrow> P) \<Longrightarrow> P"
  by (cases m) auto

definition follows :: "string \<Rightarrow> string \<Rightarrow> string list \<Rightarrow> mig_state \<Rightarrow> plan \<Rightarrow> bool" where
  "follows prefix mode L s st \<longleftrightarrow>
     p_section st = m_section s \<and> p_iface st = m_iface s \<and> p_peer st = m_peer s
     \<and> touched (migrated_peer_line prefix mode 0) (set (p_closed st)) L (m_lines s)
     \<and> m_changed s = diffs L (m_lines s)"

lemma close_follows:
  assumes "close_section prefix mode s = Inr s'" and f: "follows prefix mode L s st"
    and inv: "plan_inv (map line_key L) st"
  shows "\<exists>st'. plan_close st = Inr st' \<and> follows prefix mode L s' st'"
proof (cases "m_section s = Some ''peer''")
  case False
  then show ?thesis using assms by (auto simp: close_section_def plan_close_def follows_def)
next
  case True
  then obtain k where k: "m_peer s = Some k"
    using assms(1) by (auto simp: close_section_def migrate_peer_def split: option.splits)
  have "migrate_peer prefix mode s = Inr s'" using assms(1) True by (simp add: close_section_def)
  then obtain r where r: "migrated_peer_line prefix mode (m_number s) (m_lines s ! k) = Inr r"
    and s': "(case r of None \<Rightarrow> Inr s
      | Some line \<Rightarrow> Inr (s\<lparr>m_lines := (m_lines s)[k := line], m_changed := m_changed s + 1\<rparr>)) = (Inr s' :: (migration_error, mig_state) result)"
    unfolding migrate_peer_def k option.case by (rule bindR_InrE) (rule that)
  let ?st = "st\<lparr>p_closed := p_closed st @ [k]\<rparr>"
  have st: "plan_close st = Inr ?st" using True k f by (simp add: plan_close_def follows_def)
  have "p_section st = Some ''peer''" "p_peer st = Some k" using f True k by (simp_all add: follows_def)
  then have "is_address_at (map line_key L) ''peer'' ''allowedips'' k" and kK2: "k \<notin> set (p_closed st)"
    using inv by (simp_all add: plan_inv_def)
  then have kK: "k < length L" "k \<notin> set (p_closed st)" using is_address_at_less by fastforce+
  then have same: "m_lines s ! k = L ! k" "length (m_lines s) = length L" using f by (auto simp: follows_def touched_def)
  note r0 = peer_edit_number [OF r [unfolded same(1)], of 0]
  show ?thesis
  proof (cases r)
    case None
    have "touched (migrated_peer_line prefix mode 0) (insert k (set (p_closed st))) L ((m_lines s)[k := L ! k])"
      using f r0 None kK(2) by (intro touched_insert) (simp_all add: follows_def line_edit_def)
    moreover have "(m_lines s)[k := L ! k] = m_lines s" using same(1) by (metis list_update_id)
    ultimately have "follows prefix mode L s' ?st" using f None s' by (simp add: follows_def)
    then show ?thesis using st by blast
  next
    case (Some l)
    have "touched (migrated_peer_line prefix mode 0) (insert k (set (p_closed st))) L ((m_lines s)[k := l])"
      using f r0 Some kK(2) by (intro touched_insert) (simp_all add: follows_def line_edit_def)
    moreover have "l \<noteq> L ! k" using peer_edit [of prefix mode 0 "L ! k" l] r0 Some render_grown by metis
    ultimately have "follows prefix mode L s' ?st"
      using f Some s' diffs_update [OF same(2) kK(1) same(1)] by (auto simp: follows_def)
    then show ?thesis using st by blast
  qed
qed

lemma step_follows:
  assumes "migrate_step prefix mode s l = Inr s'" and f: "follows prefix mode L s st"
    and inv: "plan_inv (map line_key L) st"
  shows "\<exists>st'. plan_step st (line_key l) = Inr st' \<and> follows prefix mode (L @ [l]) s' st'"
proof -
  have snoc: "follows prefix mode (L @ [l]) (s0\<lparr>m_lines := m_lines s0 @ [l]\<rparr>) st0"
    if "follows prefix mode L s0 st0" and "\<forall>k \<in> set (p_closed st0). k < length L" for s0 st0
    using that touched_snoc [of _ _ L "m_lines s0" l] diffs_snoc [of "m_lines s0" L l]
    by (auto simp: follows_def touched_def)
  have len: "length (m_lines s) = length L" using f by (simp add: follows_def touched_def)
  show ?thesis
  proof (cases "is_header l")
    case True
    then obtain s1 where c: "close_section prefix mode s = Inr s1"
      and s': "s' = (let s2 = s1\<lparr>m_lines := m_lines s1 @ [l], m_section := Some (header_name l)\<rparr>
          in if header_name l = ''peer'' then s2\<lparr>m_number := m_number s2 + 1, m_peer := None\<rparr> else s2)"
      using assms(1) by (auto simp: migrate_step_def result_simps Let_def)
    from close_follows [OF c f inv] obtain st1 where st1: "plan_close st = Inr st1" "follows prefix mode L s1 st1" by blast
    have "\<forall>k \<in> set (p_closed st1). k < length L"
      using plan_close_inv(6) [OF inv st1(1)] is_address_at_less by fastforce
    from snoc [OF st1(2) this] show ?thesis
      using st1(1) True s' by (simp add: plan_step_def line_key_def follows_def Let_def)
  next
    case False
    have "\<forall>k \<in> set (p_closed st). k < length L"
      using inv is_address_at_less by (fastforce simp: plan_inv_def)
    note grow = snoc [OF f this]
    have idx: "p_index st = length (m_lines s)" using inv len by (simp add: plan_inv_def)
    show ?thesis
    proof (cases "match_assignment l")
      case None
      then show ?thesis using grow assms(1) False
        by (auto simp: migrate_step_def plan_step_def line_key_def follows_def Let_def)
    next
      case (Some m)
      then show ?thesis using grow assms(1) False f idx
        by (simp add: migrate_step_def plan_step_def line_key_def follows_def Let_def split: if_splits) auto
    qed
  qed
qed

lemma run_follows:
  "foldR (migrate_step prefix mode) mig_start L = Inr s \<Longrightarrow>
    \<exists>st. foldR plan_step plan_start (map line_key L) = Inr st \<and> follows prefix mode L s st"
proof (induction L arbitrary: s rule: rev_induct)
  case Nil
  then show ?case by (auto simp: follows_def plan_start_def mig_start_def touched_def)
next
  case (snoc l L)
  then obtain s1 where s1: "foldR (migrate_step prefix mode) mig_start L = Inr s1" "migrate_step prefix mode s1 l = Inr s"
    by (auto simp: foldR_append result_simps)
  from snoc.IH [OF s1(1)] obtain st where
    st: "foldR plan_step plan_start (map line_key L) = Inr st" "follows prefix mode L s1 st" by blast
  from step_follows [OF s1(2) st(2) plan_run_inv [OF st(1)]] st(1) show ?case by (auto simp: foldR_append)
qed

text \<open>The whole migration on lines.\<close>

definition final_line ::
  "string \<Rightarrow> string \<Rightarrow> ipaddr \<times> nat \<Rightarrow> nat \<Rightarrow> nat list \<Rightarrow> nat \<Rightarrow> string \<Rightarrow> string \<Rightarrow> bool" where
  "final_line prefix mode server i closed k l l' \<longleftrightarrow>
     (if k = i then line_edit (migrated_interface_line server) l l'
      else if k \<in> set closed then line_edit (migrated_peer_line prefix mode 0) l l'
      else l' = l)"

lemma migrate_lines_plan:
  assumes "migrate_lines prefix mode L = Inr (L', n)"
  obtains server i closed where "server_address prefix mode = Inr server"
    and "plan_of (map line_key L) = Some (i, closed)" and "length L' = length L"
    and "\<And>k. k < length L \<Longrightarrow> final_line prefix mode server i closed k (L ! k) (L' ! k)"
    and "n = diffs L L'"
proof -
  obtain server where server: "server_address prefix mode = Inr server"
    using assms by (auto simp: migrate_lines_def result_simps)
  then obtain s where s: "foldR (migrate_step prefix mode) mig_start L = Inr s"
    using assms by (auto simp: migrate_lines_def result_simps)
  then obtain s' where s': "close_section prefix mode s = Inr s'" and last: "migrate_interface server s' = Inr (L', n)"
    using assms server by (auto simp: migrate_lines_def result_simps)
  from run_follows [OF s] obtain st where
    st: "foldR plan_step plan_start (map line_key L) = Inr st" "follows prefix mode L s st" by blast
  from close_follows [OF s' st(2) plan_run_inv [OF st(1)]] obtain st' where
    st': "plan_close st = Inr st'" "follows prefix mode L s' st'" by blast
  obtain i where i: "m_iface s' = Some i"
    using last by (auto simp: migrate_interface_def split: option.splits)
  have plan: "plan_of (map line_key L) = Some (i, p_closed st')"
    using st(1) st'(1) st'(2) i by (simp add: plan_of_def follows_def)
  note spec = plan_of_spec [OF plan]
  have iL: "i < length L" using is_address_at_less [OF spec(1)] by simp
  have t: "touched (migrated_peer_line prefix mode 0) (set (p_closed st')) L (m_lines s')"
    and c: "m_changed s' = diffs L (m_lines s')" using st'(2) by (simp_all add: follows_def)
  have len: "length (m_lines s') = length L" and same: "m_lines s' ! i = L ! i"
    using t iL spec(4) by (simp_all add: touched_def)
  have others: "\<And>k. k < length L \<Longrightarrow> k \<noteq> i \<Longrightarrow> final_line prefix mode server i (p_closed st') k (L ! k) (m_lines s' ! k)"
    using t by (simp add: touched_def final_line_def)
  obtain r where r: "migrated_interface_line server (L ! i) = Inr r"
    and L': "(case r of None \<Rightarrow> Inr (m_lines s', m_changed s')
       | Some line \<Rightarrow> Inr ((m_lines s')[i := line], m_changed s' + 1)) = (Inr (L', n) :: (migration_error, string list \<times> nat) result)"
    using last unfolding migrate_interface_def i option.case same by (rule bindR_InrE) (rule that)
  show thesis
  proof (cases r)
    case None
    then have "L' = m_lines s'" "n = diffs L L'" using L' c by auto
    moreover have "final_line prefix mode server i (p_closed st') i (L ! i) (m_lines s' ! i)"
      using r None same by (simp add: final_line_def line_edit_def)
    ultimately show thesis using that [OF server plan] len others by blast
  next
    case (Some l)
    have "l \<noteq> L ! i" using interface_edit [of server "L ! i" l] r Some render_grown by metis
    from diffs_update [OF len iL same this] Some L' c have n: "n = diffs L L'" and eq: "L' = (m_lines s')[i := l]" by auto
    have "final_line prefix mode server i (p_closed st') k (L ! k) (L' ! k)" if "k < length L" for k
    proof (cases "k = i")
      case True
      then show ?thesis using r Some eq len that by (simp add: final_line_def line_edit_def)
    next
      case False
      then show ?thesis using others [OF that False] eq by simp
    qed
    then show thesis using that [OF server plan] len eq n by simp
  qed
qed

text \<open>A configuration whose planned lines ask for no edit is left as it is.\<close>

definition at_rest :: "string list \<Rightarrow> mig_state \<Rightarrow> plan \<Rightarrow> bool" where
  "at_rest L s st \<longleftrightarrow> m_lines s = L \<and> m_changed s = 0
     \<and> p_section st = m_section s \<and> p_iface st = m_iface s \<and> p_peer st = m_peer s"

lemma close_at_rest:
  assumes "plan_close st = Inr st'" and "at_rest L s st"
    and "\<And>k. k \<in> set (p_closed st') \<Longrightarrow> migrated_peer_line prefix mode 0 (L ! k) = Inr None"
  shows "close_section prefix mode s = Inr s \<and> at_rest L s st'"
proof (cases "m_section s = Some ''peer''")
  case True
  then obtain k where k: "m_peer s = Some k" "st' = st\<lparr>p_closed := p_closed st @ [k]\<rparr>"
    using assms(1,2) by (auto simp: plan_close_def at_rest_def split: option.splits)
  have "migrated_peer_line prefix mode (m_number s) (L ! k) = Inr None"
    by (rule peer_edit_number [OF assms(3)]) (simp add: k(2))
  then show ?thesis
    using True k assms(2) by (simp add: close_section_def migrate_peer_def at_rest_def)
qed (use assms(1,2) in \<open>auto simp: close_section_def plan_close_def at_rest_def\<close>)

lemma plan_close_grows: "plan_close st = Inr st' \<Longrightarrow> set (p_closed st) \<subseteq> set (p_closed st')"
  by (auto simp: plan_close_def split: if_splits option.splits)

lemma plan_step_grows: "plan_step st x = Inr st' \<Longrightarrow> set (p_closed st) \<subseteq> set (p_closed st')"
  using plan_close_grows
  by (fastforce simp: plan_step_def result_simps Let_def split: sum.splits option.splits if_splits)

lemma step_at_rest:
  assumes "plan_step st (line_key l) = Inr st'" and "at_rest L s st" and "plan_inv (map line_key L) st"
    and "\<And>k. k \<in> set (p_closed st') \<Longrightarrow> migrated_peer_line prefix mode 0 ((L @ [l]) ! k) = Inr None"
  shows "\<exists>s'. migrate_step prefix mode s l = Inr s' \<and> at_rest (L @ [l]) s' st'"
proof (cases "is_header l")
  case True
  then obtain st1 where c: "plan_close st = Inr st1"
    and st': "st' = (let st2 = st1\<lparr>p_index := p_index st1 + 1, p_section := Some (header_name l)\<rparr>
          in if header_name l = ''peer'' then st2\<lparr>p_peer := None\<rparr> else st2)"
    using assms(1) by (auto simp: plan_step_def line_key_def result_simps Let_def)
  have "migrated_peer_line prefix mode 0 (L ! k) = Inr None" if "k \<in> set (p_closed st1)" for k
  proof -
    have "k < length L" using plan_close_inv(6) [OF assms(3) c] that is_address_at_less by fastforce
    then show ?thesis using assms(4) [of k] that st' by (simp add: nth_append Let_def split: if_splits)
  qed
  from close_at_rest [OF c assms(2) this] True st' show ?thesis
    by (auto simp: migrate_step_def at_rest_def Let_def)
next
  case False
  have idx: "p_index st = length L" using assms(3) by (simp add: plan_inv_def)
  show ?thesis
  proof (cases "match_assignment l")
    case None
    then show ?thesis using assms(1,2) False
      by (auto simp: migrate_step_def plan_step_def line_key_def at_rest_def)
  next
    case (Some m)
    then show ?thesis using assms(1,2) False idx
      by (auto simp: migrate_step_def plan_step_def line_key_def at_rest_def Let_def split: if_splits)
  qed
qed

lemma run_at_rest:
  "foldR plan_step plan_start (map line_key L) = Inr st \<Longrightarrow>
   (\<And>k. k \<in> set (p_closed st) \<Longrightarrow> migrated_peer_line prefix mode 0 (L ! k) = Inr None) \<Longrightarrow>
   \<exists>s. foldR (migrate_step prefix mode) mig_start L = Inr s \<and> at_rest L s st"
proof (induction L arbitrary: st rule: rev_induct)
  case Nil
  then show ?case by (auto simp: at_rest_def plan_start_def mig_start_def)
next
  case (snoc l L)
  then obtain st1 where st1: "foldR plan_step plan_start (map line_key L) = Inr st1" "plan_step st1 (line_key l) = Inr st"
    by (auto simp: foldR_append result_simps)
  note inv = plan_run_inv [OF st1(1)]
  have "migrated_peer_line prefix mode 0 (L ! k) = Inr None" if "k \<in> set (p_closed st1)" for k
  proof -
    have "k < length L" using inv that is_address_at_less by (fastforce simp: plan_inv_def)
    then show ?thesis using snoc.prems(2) [of k] plan_step_grows [OF st1(2)] that by (auto simp: nth_append)
  qed
  from snoc.IH [OF st1(1) this] obtain s where
    s: "foldR (migrate_step prefix mode) mig_start L = Inr s" "at_rest L s st1" by blast
  from step_at_rest [OF st1(2) s(2) inv snoc.prems(2)] s(1) show ?case by (auto simp: foldR_append)
qed

lemma migrate_lines_quiet:
  assumes "server_address prefix mode = Inr server" and "plan_of (map line_key L) = Some (i, closed)"
    and "migrated_interface_line server (L ! i) = Inr None"
    and "\<And>k. k \<in> set closed \<Longrightarrow> migrated_peer_line prefix mode 0 (L ! k) = Inr None"
  shows "migrate_lines prefix mode L = Inr (L, 0)"
proof -
  from assms(2) obtain st st' where st: "foldR plan_step plan_start (map line_key L) = Inr st"
    "plan_close st = Inr st'" "p_iface st' = Some i" "p_closed st' = closed"
    by (auto simp: plan_of_def result_simps split: sum.splits)
  have quiet: "migrated_peer_line prefix mode 0 (L ! k) = Inr None" if "k \<in> set (p_closed st')" for k
    using assms(4) st(4) that by simp
  have "migrated_peer_line prefix mode 0 (L ! k) = Inr None" if "k \<in> set (p_closed st)" for k
    using quiet plan_close_grows [OF st(2)] that by blast
  from run_at_rest [OF st(1) this] obtain s where
    s: "foldR (migrate_step prefix mode) mig_start L = Inr s" "at_rest L s st" by blast
  note rest = close_at_rest [OF st(2) s(2) quiet]
  then have "m_iface s = Some i" "m_lines s = L" "m_changed s = 0"
    using st(3) by (simp_all add: at_rest_def)
  then show ?thesis
    using rest s(1) assms(1,3) by (simp add: migrate_lines_def migrate_interface_def)
qed

end
