(* ===== verification/PyLines.thy ===== *)
theory PyLines
  imports PyText
begin

text \<open>
  Texts whose lines end in a line feed: splitting one into its lines and putting them together again.
\<close>

section \<open>Texts and their lines\<close>

text \<open>Lines that end in a line feed, but for the last one.\<close>

fun line_list :: "string list \<Rightarrow> bool" where
  "line_list [] \<longleftrightarrow> True"
| "line_list (l # ls) \<longleftrightarrow> (\<exists>b. clean_line b \<and> l = b @ [LF]) \<and> line_list ls
     \<or> ls = [] \<and> clean_line l \<and> l \<noteq> []"

definition only_LF :: "string \<Rightarrow> bool" where
  "only_LF t \<longleftrightarrow> (\<forall>c \<in> set t. is_eol c \<longrightarrow> c = LF)"

lemma keep_lines: "line_list L \<Longrightarrow> splitlines_keep (concat L) = L"
proof (induction L)
  case Nil
  then show ?case by (simp add: splitlines_keep_def)
next
  case (Cons l ls)
  show ?case
  proof (cases "ls = [] \<and> clean_line l \<and> l \<noteq> []")
    case True
    then show ?thesis by (simp add: splitlines_keep_def line_pairs_last)
  next
    case False
    then obtain b where "clean_line b" "l = b @ [LF]" "line_list ls" using Cons.prems by auto
    then show ?thesis using Cons.IH by (simp add: splitlines_keep_def line_pairs_LF)
  qed
qed

lemma line_pairs_only_LF:
  "only_LF t \<Longrightarrow> line_list (map (\<lambda>(b, e). b @ e) (line_pairs t))"
proof (induction t rule: line_pairs.induct)
  case 1
  then show ?case by simp
next
  case (2 c cs)
  have cs: "only_LF cs" "c \<noteq> CR" "is_eol c \<Longrightarrow> c = LF" using "2.prems" by (auto simp: only_LF_def)
  show ?case
  proof (cases "is_eol c")
    case True
    then show ?thesis using cs "2.IH"(3) [OF cs(2) True cs(1)] by (simp add: exI [of _ "[]"])
  next
    case False
    note IH = "2.IH"(4) [OF cs(2) False cs(1)]
    show ?thesis
    proof (cases "line_pairs cs")
      case Nil
      then show ?thesis using cs(2) False by simp
    next
      case (Cons p ps)
      obtain b e where p: "p = (b, e)" by fastforce
      have "line_list ((c # b @ e) # map (\<lambda>(b, e). b @ e) ps)"
        using IH Cons p False by (auto intro: exI [of _ "c # _"])
      then show ?thesis using cs(2) False Cons p by simp
    qed
  qed
qed

lemma splitlines_keep_list: "only_LF t \<Longrightarrow> line_list (splitlines_keep t)"
  by (simp add: splitlines_keep_def line_pairs_only_LF)

lemma line_list_nth:
  "line_list L \<longleftrightarrow> (\<forall>k < length L. (\<exists>b. clean_line b \<and> L ! k = b @ [LF])
     \<or> Suc k = length L \<and> clean_line (L ! k) \<and> L ! k \<noteq> [])"
proof (induction L)
  case Nil
  then show ?case by simp
next
  case (Cons l ls)
  have "line_list (l # ls) \<longleftrightarrow> ((\<exists>b. clean_line b \<and> l = b @ [LF]) \<or> ls = [] \<and> clean_line l \<and> l \<noteq> []) \<and> line_list ls"
    by auto
  then show ?case unfolding Cons.IH by (simp only: All_less_Suc2 length_Cons nth_Cons_0 nth_Cons_Suc) auto
qed

section \<open>Terminated lines\<close>

definition ended :: "string \<Rightarrow> bool" where
  "ended l \<longleftrightarrow> l \<noteq> [] \<and> last l = LF \<and> clean_line (butlast l)"

definition lf_text :: "string \<Rightarrow> bool" where
  "lf_text t \<longleftrightarrow> only_LF t \<and> (t = [] \<or> last t = LF)"

lemma ended_iff: "ended l \<longleftrightarrow> (\<exists>b. clean_line b \<and> l = b @ [LF])"
  by (cases l rule: rev_cases) (auto simp: ended_def)

lemma ended_lines: "list_all ended ls \<Longrightarrow> line_list ls"
  by (induction ls) (simp_all add: ended_iff)

lemma keep_ended: "list_all ended ls \<Longrightarrow> splitlines_keep (concat ls) = ls"
  by (rule keep_lines [OF ended_lines])

lemma line_list_ended: "line_list ls \<Longrightarrow> ls = [] \<or> last (concat ls) = LF \<Longrightarrow> list_all ended ls"
proof (induction ls)
  case (Cons l ls)
  show ?case
  proof (cases "ls = []")
    case True
    have "l \<noteq> [] \<Longrightarrow> last l = LF \<Longrightarrow> \<not> clean_line l" using is_eol_LF last_in_set unfolding clean_line_def by metis
    then show ?thesis using True Cons.prems by (auto simp: ended_iff)
  next
    case False
    then have l: "(\<exists>b. clean_line b \<and> l = b @ [LF]) \<and> line_list ls" using Cons.prems(1) by simp
    have "concat ls \<noteq> []" using False l by (cases ls) (auto split: if_splits)
    then have "last (concat ls) = LF" using Cons.prems(2) by simp
    then show ?thesis using l Cons.IH by (simp add: ended_iff)
  qed
qed simp

lemma lf_text_ended: "lf_text t \<Longrightarrow> list_all ended (splitlines_keep t)"
  using line_list_ended [OF splitlines_keep_list, of t]
  by (cases "t = []") (auto simp: lf_text_def, simp add: splitlines_keep_def)

end
