(* ===== verification/WireGuard6Props.thy ===== *)
theory WireGuard6Props
  imports WireGuard6Plan PyLines "HOL-Library.Code_Target_Nat"
begin

text \<open>
  What the migration of a WireGuard configuration promises: the addresses of servers and clients,
  what is written and what is left alone, that a second run changes nothing, and that taking the
  addresses out restores the configuration.
\<close>

section \<open>Lines of a configuration\<close>

text \<open>A line of a list stays one when an address is appended to its value.\<close>

definition line_shape :: "bool \<Rightarrow> string \<Rightarrow> bool" where
  "line_shape last_line l \<longleftrightarrow> (\<exists>b. clean_line b \<and> l = b @ [LF]) \<or> last_line \<and> clean_line l \<and> l \<noteq> []"

lemma line_list_shape: "line_list L \<longleftrightarrow> (\<forall>k < length L. line_shape (Suc k = length L) (L ! k))"
  by (auto simp: line_list_nth line_shape_def)

lemma grown_shape:
  assumes "line_shape last_line (render m)" and "assignment_ok m" and "as_value m \<noteq> []" and "made_interface i"
  shows "line_shape last_line (render (grown m i))"
proof -
  let ?x = "as_prefix m @ as_name m @ as_separator m @ as_value m" and ?a = "'', '' @ show_interface i"
  have r: "render m = ?x @ as_newline m" "render (grown m i) = (?x @ ?a) @ as_newline m"
    by (simp_all add: render_def grown_def with_value_def)
  have a: "clean_line ?a" using made_clean [OF assms(4)] by (auto simp: clean_line_def)
  have nl: "as_newline m = [] \<or> as_newline m = [LF] \<or> as_newline m = [CR, LF]"
    using assms(2) by (auto simp: assignment_ok_def)
  have v: "last ?x \<noteq> LF"
  proof -
    have "LF \<notin> set (as_value m)" using assms(2) by (simp add: assignment_ok_def)
    then have "last (as_value m) \<noteq> LF" using last_in_set [OF assms(3)] by metis
    moreover have "last ?x = last (as_value m)" using assms(3) by simp
    ultimately show ?thesis by (simp only: not_False_eq_True)
  qed
  consider b where "clean_line b" "?x @ as_newline m = b @ [LF]"
    | "last_line" "clean_line (?x @ as_newline m)"
    using assms(1) r(1) by (auto simp: line_shape_def)
  then show ?thesis
  proof cases
    case (1 b)
    have "as_newline m = [LF]"
    proof -
      have "as_newline m \<noteq> []" using 1(2) v by (metis append_Nil2 last_snoc)
      moreover have "as_newline m \<noteq> [CR, LF]"
      proof
        assume "as_newline m = [CR, LF]"
        then have "b = ?x @ [CR]" using 1(2) by simp
        then show False using 1(1) by simp
      qed
      ultimately show ?thesis using nl by blast
    qed
    moreover from this 1 have "clean_line ?x" by simp
    ultimately have "clean_line (?x @ ?a)" "render (grown m i) = (?x @ ?a) @ [LF]" using a r(2) by (simp_all del: append_assoc)
    then show ?thesis unfolding line_shape_def by blast
  next
    case 2
    then have "clean_line ((?x @ ?a) @ as_newline m)" using a by simp
    then show ?thesis using 2(1) r(2) by (simp add: line_shape_def)
  qed
qed

section \<open>Edited lines\<close>

text \<open>What a migration makes of a line: nothing, or the line with an address appended.\<close>

definition values_nonempty :: "string \<Rightarrow> bool" where
  "values_nonempty t \<longleftrightarrow>
     (\<forall>l \<in> set (splitlines_keep t). case match_assignment l of None \<Rightarrow> True | Some m \<Rightarrow> as_value m \<noteq> [])"

lemma values_nonempty_iff:
  "values_nonempty t \<longleftrightarrow> (\<forall>l \<in> set (splitlines_keep t). \<forall>m. match_assignment l = Some m \<longrightarrow> as_value m \<noteq> [])"
  unfolding values_nonempty_def by (intro ball_cong) (auto split: option.splits)

definition values_normal :: "string \<Rightarrow> bool" where
  "values_normal t \<longleftrightarrow>
     (\<forall>l \<in> set (splitlines_keep t). case match_assignment l of None \<Rightarrow> True
        | Some m \<Rightarrow> as_value m \<noteq> [] \<and> join '', '' (split_addresses (as_value m)) = as_value m)"

lemma values_normal_iff:
  "values_normal t \<longleftrightarrow> (\<forall>l \<in> set (splitlines_keep t). \<forall>m. match_assignment l = Some m \<longrightarrow>
     as_value m \<noteq> [] \<and> join '', '' (split_addresses (as_value m)) = as_value m)"
  unfolding values_normal_def by (intro ball_cong) (auto split: option.splits)

lemma final_line_cases:
  assumes "final_line prefix mode server i closed k l l'" and "made_interface server"
    and "\<And>m. match_assignment l = Some m \<Longrightarrow> as_value m \<noteq> []"
  obtains "l' = l" | m e where "l = render m" "l' = render (grown m e)" "assignment_ok m"
    "as_value m \<noteq> []" "made_interface e"
proof (cases "l' = l")
  case True
  then show ?thesis using that(1) by blast
next
  case False
  consider "migrated_interface_line server l = Inr (Some l')" | "migrated_peer_line prefix mode 0 l = Inr (Some l')"
    using assms(1) False by (auto simp: final_line_def line_edit_def split: if_splits)
  then show ?thesis
  proof cases
    case 1
    then obtain m where m: "l = render m" "assignment_ok m" "l' = render (grown m server)"
      using interface_edit by blast
    then show ?thesis using that(2) [of m server] assms(2) assms(3) [of m] match_render [OF m(2)] by simp
  next
    case 2
    then show ?thesis using peer_edit [OF 2] that(2) by blast
  qed
qed

lemma final_line_quiet:
  assumes "final_line prefix mode server i closed k l l'" and "made_interface server"
    and "\<And>m. match_assignment l = Some m \<Longrightarrow> as_value m \<noteq> []"
  shows "line_key l' = line_key l"
    and "k = i \<Longrightarrow> migrated_interface_line server l' = Inr None"
    and "k \<noteq> i \<Longrightarrow> k \<in> set closed \<Longrightarrow> migrated_peer_line prefix mode 0 l' = Inr None"
proof -
  show "line_key l' = line_key l"
    by (rule final_line_cases [OF assms]) (simp_all add: grown_key)
  show "migrated_peer_line prefix mode 0 l' = Inr None" if "k \<noteq> i" "k \<in> set closed"
    using assms(1) that peer_edit_quiet by (auto simp: final_line_def)
  show "migrated_interface_line server l' = Inr None" if "k = i"
  proof (cases "migrated_interface_line server l = Inr (Some l')")
    case True
    then obtain m where m: "l = render m" "assignment_ok m" using interface_edit by blast
    then show ?thesis
      using interface_edit_again [of server m l'] True assms(2) assms(3) [of m] match_render [OF m(2)] by simp
  next
    case False
    then show ?thesis using assms(1) that by (auto simp: final_line_def line_edit_def)
  qed
qed

text \<open>What \<^verbatim>\<open>migrate_text\<close> has done, line by line.\<close>

lemma migrate_text_lines:
  assumes "migrate_text t prefix mode = Inr (t', n)" and "only_LF t" and "values_nonempty t"
  obtains L' server i closed where "splitlines_keep t' = L'" and "length L' = length (splitlines_keep t)"
    and "server_address prefix mode = Inr server" and "made_interface server"
    and "plan_of (map line_key (splitlines_keep t)) = Some (i, closed)"
    and "\<And>k. k < length L' \<Longrightarrow> final_line prefix mode server i closed k (splitlines_keep t ! k) (L' ! k)"
    and "n = diffs (splitlines_keep t) L'" and "t' = concat L'"
proof -
  let ?L = "splitlines_keep t"
  obtain L' where m: "migrate_lines prefix mode ?L = Inr (L', n)" and t': "t' = concat L'"
    using assms(1) by (auto simp: migrate_text_def result_simps)
  from migrate_lines_plan [OF m] obtain server i closed where
    p: "server_address prefix mode = Inr server" "plan_of (map line_key ?L) = Some (i, closed)"
    and len: "length L' = length ?L"
    and fin: "\<And>k. k < length ?L \<Longrightarrow> final_line prefix mode server i closed k (?L ! k) (L' ! k)"
    and n: "n = diffs ?L L'" by blast
  note made = server_address_made [OF p(1)]
  have "line_list L'"
    unfolding line_list_shape
  proof (intro allI impI)
    fix k
    assume k: "k < length L'"
    have "line_shape (Suc k = length ?L) (?L ! k)"
      using splitlines_keep_list [OF assms(2)] k len by (simp add: line_list_shape)
    moreover have ne: "\<And>m. match_assignment (?L ! k) = Some m \<Longrightarrow> as_value m \<noteq> []"
      using assms(3) k len nth_mem by (fastforce simp: values_nonempty_iff)
    ultimately show "line_shape (Suc k = length L') (L' ! k)"
      using k len by (cases rule: final_line_cases [OF fin [of k] made ne]) (auto simp: grown_shape)
  qed
  then have "splitlines_keep t' = L'" using keep_lines t' by simp
  then show thesis using that p made len fin n t' by simp
qed

section \<open>A configuration with one client\<close>

definition example_conf :: string where
  "example_conf = unlines [''[Interface]'', ''PrivateKey = k'', ''Address = 10.29.8.1/24'', [], ''[Peer]'',
     ''AllowedIPs = 10.29.8.2/32'']"

definition example_migrated :: string where
  "example_migrated = unlines [''[Interface]'', ''PrivateKey = k'',
     ''Address = 10.29.8.1/24, fd3a:c9bc:6bcb:2908::1/64'', [], ''[Peer]'',
     ''AllowedIPs = 10.29.8.2/32, fd3a:c9bc:6bcb:2908::2/128'']"

lemma default_interface: "ip_interface DEFAULT_PREFIX = Some (V6 0xfd3ac9bc6bcb00000000000000000000 None, 48)"
  by code_simp

lemma default_base:
  "parse_base_prefix DEFAULT_PREFIX = Inr \<lparr>net_addr = V6 0xfd3ac9bc6bcb00000000000000000000 None, prefixlen = 48\<rparr>"
  by (simp add: parse_base_prefix_def ip_network_def default_interface to_network_def mask_int_def width_def
      net_version_def subnet_of_def ULA_def addr_le_def net_int_def broadcast_int_def num_addresses_def Let_def)

lemma default_subnets:
  "subnet_at \<lparr>net_addr = V6 0xfd3ac9bc6bcb00000000000000000000 None, prefixlen = 48\<rparr> 0x2908 64
     = \<lparr>net_addr = V6 0xfd3ac9bc6bcb29080000000000000000 None, prefixlen = 64\<rparr>"
  "subnet_at \<lparr>net_addr = V6 0xfd3ac9bc6bcb00000000000000000000 None, prefixlen = 48\<rparr> 0x2808 64
     = \<lparr>net_addr = V6 0xfd3ac9bc6bcb28080000000000000000 None, prefixlen = 64\<rparr>"
  "subnet_at \<lparr>net_addr = V6 0xfd3ac9bc6bcb00000000000000000000 None, prefixlen = 48\<rparr> 0x29ff 96
     = \<lparr>net_addr = V6 0xfd3ac9bc6bcb29ff0000000000000000 None, prefixlen = 96\<rparr>"
  by code_simp+

lemma default_networks:
  "mode_network DEFAULT_PREFIX ''antizapret''
     = Inr \<lparr>net_addr = V6 0xfd3ac9bc6bcb29080000000000000000 None, prefixlen = 64\<rparr>"
  "mode_network DEFAULT_PREFIX ''vpn''
     = Inr \<lparr>net_addr = V6 0xfd3ac9bc6bcb28080000000000000000 None, prefixlen = 64\<rparr>"
  "fake_network DEFAULT_PREFIX False
     = Inr \<lparr>net_addr = V6 0xfd3ac9bc6bcb29ff0000000000000000 None, prefixlen = 96\<rparr>"
  using default_subnets
  by (simp_all add: mode_network_def fake_network_def default_base MODE_SUBNETS_def FAKE_SUBNET_def
      FAKE_PREFIX_LENGTH_def)

lemma example_ipv4:
  "read_ip4 ''10.29.8.2'' = Some 0xA1D0802" "read_ip4 ''10.28.8.2'' = Some 0xA1C0802"
  "show_ip4 0xA1D0802 = ''10.29.8.2''"
  by code_simp+

lemma example_clients:
  "client_address DEFAULT_PREFIX ''antizapret'' ''10.29.8.2'' = Inr (V6 0xfd3ac9bc6bcb29080000000000000002 None, 128)"
  "client_address DEFAULT_PREFIX ''vpn'' ''10.28.8.2'' = Inr (V6 0xfd3ac9bc6bcb28080000000000000002 None, 128)"
  by (simp_all add: client_address_def example_ipv4 default_networks net_int_def)

lemma example_servers:
  "server_address DEFAULT_PREFIX ''antizapret'' = Inr (V6 0xfd3ac9bc6bcb29080000000000000001 None, 64)"
  "server_address DEFAULT_PREFIX ''vpn'' = Inr (V6 0xfd3ac9bc6bcb28080000000000000001 None, 64)"
  by (simp_all add: server_address_def default_networks net_int_def)

text \<open>The lines of the configuration, one by one.\<close>

definition lined :: "string \<Rightarrow> string" where
  "lined l = l @ [LF]"

lemma example_lines:
  "splitlines_keep example_conf = [lined ''[Interface]'', lined ''PrivateKey = k'', lined ''Address = 10.29.8.1/24'',
     lined [], lined ''[Peer]'', lined ''AllowedIPs = 10.29.8.2/32'']"
  "concat [lined ''[Interface]'', lined ''PrivateKey = k'', lined ''Address = 10.29.8.1/24, fd3a:c9bc:6bcb:2908::1/64'',
     lined [], lined ''[Peer]'', lined ''AllowedIPs = 10.29.8.2/32, fd3a:c9bc:6bcb:2908::2/128''] = example_migrated"
  by code_simp+

lemma example_headers:
  "is_header (lined ''[Interface]'')" "header_name (lined ''[Interface]'') = ''interface''"
  "\<not> is_header (lined ''PrivateKey = k'')" "match_assignment (lined ''PrivateKey = k'') = None"
  "\<not> is_header (lined ''Address = 10.29.8.1/24'')" "\<not> is_header (lined [])" "match_assignment (lined []) = None"
  "is_header (lined ''[Peer]'')" "header_name (lined ''[Peer]'') = ''peer''"
  "\<not> is_header (lined ''AllowedIPs = 10.29.8.2/32'')"
  "lower ''Address'' = ''address''" "lower ''AllowedIPs'' = ''allowedips''"
  by code_simp+

lemma example_matches:
  "match_assignment (lined ''Address = 10.29.8.1/24'') = Some \<lparr>as_prefix = [], as_name = ''Address'',
     as_separator = '' = '', as_value = ''10.29.8.1/24'', as_newline = [LF]\<rparr>"
  "match_assignment (lined ''AllowedIPs = 10.29.8.2/32'') = Some \<lparr>as_prefix = [], as_name = ''AllowedIPs'',
     as_separator = '' = '', as_value = ''10.29.8.2/32'', as_newline = [LF]\<rparr>"
  by code_simp+

lemma example_values:
  "traverseR parse_interface (split_addresses ''10.29.8.1/24'') = Inr [(V4 0xA1D0801, 24)]"
  "traverseR parse_interface (split_addresses ''10.29.8.2/32'') = Inr [(V4 0xA1D0802, 32)]"
  by code_simp+

lemma example_shown:
  "show_interface (V6 0xfd3ac9bc6bcb29080000000000000001 None, 64) = ''fd3a:c9bc:6bcb:2908::1/64''"
  "show_interface (V6 0xfd3ac9bc6bcb29080000000000000002 None, 128) = ''fd3a:c9bc:6bcb:2908::2/128''"
  by (simp_all add: show_interface_def eval_simps)

lemma example_appended:
  "append_address (lined ''Address = 10.29.8.1/24'') ''fd3a:c9bc:6bcb:2908::1/64''
     = Inr (lined ''Address = 10.29.8.1/24, fd3a:c9bc:6bcb:2908::1/64'')"
  "append_address (lined ''AllowedIPs = 10.29.8.2/32'') ''fd3a:c9bc:6bcb:2908::2/128''
     = Inr (lined ''AllowedIPs = 10.29.8.2/32, fd3a:c9bc:6bcb:2908::2/128'')"
  by code_simp+

lemma example_edits:
  "migrated_peer_line DEFAULT_PREFIX ''antizapret'' n (lined ''AllowedIPs = 10.29.8.2/32'')
     = Inr (Some (lined ''AllowedIPs = 10.29.8.2/32, fd3a:c9bc:6bcb:2908::2/128''))"
  "migrated_interface_line (V6 0xfd3ac9bc6bcb29080000000000000001 None, 64) (lined ''Address = 10.29.8.1/24'')
     = Inr (Some (lined ''Address = 10.29.8.1/24, fd3a:c9bc:6bcb:2908::1/64''))"
  unfolding migrated_peer_line_def migrated_interface_line_def example_matches
  by (simp_all add: example_values ipv4_hosts_def ipv6_items_def example_ipv4 example_clients
      example_shown example_appended)

lemma example_unstripped:
  "stripped_line DEFAULT_PREFIX ''antizapret'' (V6 0xfd3ac9bc6bcb29080000000000000001 None, 64) (Some ''interface'')
     (lined ''Address = 10.29.8.1/24'') = Inr None"
  "stripped_line DEFAULT_PREFIX ''antizapret'' (V6 0xfd3ac9bc6bcb29080000000000000001 None, 64) (Some ''peer'')
     (lined ''AllowedIPs = 10.29.8.2/32'') = Inr None"
  "stripped_line prefix mode e sec (lined ''PrivateKey = k'') = Inr None"
  "stripped_line prefix mode e sec (lined []) = Inr None"
  unfolding stripped_line_def example_matches example_headers
  by (simp_all add: example_values ipv4_hosts_def example_headers example_ipv4 example_clients Let_def)

lemma example_migrates:
  "migrate_text example_conf DEFAULT_PREFIX ''antizapret'' = Inr (example_migrated, 2)"
  unfolding migrate_text_def migrate_lines_def example_lines(1) example_servers bindR.simps foldR.simps
  by (simp add: migrate_step_def mig_start_def close_section_def migrate_peer_def migrate_interface_def
      example_headers example_matches example_edits Let_def) (simp add: example_lines(2) [simplified])

lemma example_strips: "strip_text example_conf DEFAULT_PREFIX ''antizapret'' = Inr (example_conf, 0)"
  unfolding strip_text_def strip_lines_def example_lines(1) example_servers bindR.simps foldR.simps
  using concat_splitlines_keep [of example_conf]
  by (simp add: strip_step_def example_headers example_unstripped example_lines(1))

lemma example_conf_ok: "only_LF example_conf" "values_normal example_conf" "values_nonempty example_conf"
  by code_simp+

text \<open>migrating a configuration that has been migrated changes nothing: every line break is a line
  feed, as after reading the file, and no Address or AllowedIPs is empty.\<close>

theorem migrate_idempotent:
  assumes "migrate_text t prefix mode = Inr (t', n)" and "only_LF t" and "values_nonempty t"
  shows "migrate_text t' prefix mode = Inr (t', 0)"
proof -
  let ?L = "splitlines_keep t"
  from migrate_text_lines [OF assms] obtain L' server i closed where
    L': "splitlines_keep t' = L'" "length L' = length ?L" "t' = concat L'"
    and p: "server_address prefix mode = Inr server" "made_interface server"
    and plan: "plan_of (map line_key ?L) = Some (i, closed)"
    and fin: "\<And>k. k < length L' \<Longrightarrow> final_line prefix mode server i closed k (?L ! k) (L' ! k)"
    by metis
  have ne: "\<And>k m. k < length L' \<Longrightarrow> match_assignment (?L ! k) = Some m \<Longrightarrow> as_value m \<noteq> []"
    using assms(3) L'(2) nth_mem by (fastforce simp: values_nonempty_iff)
  have q: "line_key (L' ! k) = line_key (?L ! k)" "k = i \<Longrightarrow> migrated_interface_line server (L' ! k) = Inr None"
    "k \<noteq> i \<Longrightarrow> k \<in> set closed \<Longrightarrow> migrated_peer_line prefix mode 0 (L' ! k) = Inr None"
    if "k < length L'" for k
    using final_line_quiet [OF fin [OF that] p(2) ne [OF that]] by blast+
  have "map line_key L' = map line_key ?L"
  proof (rule nth_equalityI)
    show "length (map line_key L') = length (map line_key ?L)" using L'(2) by simp
    fix k
    assume "k < length (map line_key L')"
    then have "k < length L'" by simp
    from q(1) [OF this] show "map line_key L' ! k = map line_key ?L ! k"
      using \<open>k < length L'\<close> L'(2) by simp
  qed
  then have plan': "plan_of (map line_key L') = Some (i, closed)" using plan by simp
  note spec = plan_of_spec [OF plan']
  have "migrate_lines prefix mode L' = Inr (L', 0)"
  proof (rule migrate_lines_quiet [OF p(1) plan'])
    have "i < length L'" using is_address_at_less [OF spec(1)] by simp
    then show "migrated_interface_line server (L' ! i) = Inr None" using q(2) by blast
    fix k
    assume k: "k \<in> set closed"
    have "k < length L'" using is_address_at_less [OF spec(3) [OF k]] by simp
    then show "migrated_peer_line prefix mode 0 (L' ! k) = Inr None" using q(3) k spec(4) by metis
  qed
  then show ?thesis using L' by (simp add: migrate_text_def)
qed

theorem migrate_idempotent_witness:
  "migrate_text example_migrated DEFAULT_PREFIX ''antizapret'' = Inr (example_migrated, 0)"
  by (rule migrate_idempotent [OF example_migrates example_conf_ok(1,3)])

section \<open>Taking the addresses out again\<close>

lemma diffs_snoc_other:
  assumes "length M = length L"
  shows "diffs (L @ [l]) (M @ [m]) = diffs L M + (if m = l then 0 else 1)"
proof (cases "m = l")
  case True
  then show ?thesis using diffs_snoc [OF assms] by simp
next
  case False
  have "{k. k < length (L @ [l]) \<and> (M @ [m]) ! k \<noteq> (L @ [l]) ! k} = insert (length L) {k. k < length L \<and> M ! k \<noteq> L ! k}"
    using assms False by (auto simp: nth_append less_Suc_eq)
  then show ?thesis using False by (simp add: diffs_def)
qed

abbreviation section_at :: "string list \<Rightarrow> nat \<Rightarrow> string option" where
  "section_at L k \<equiv> section_after (take k (map line_key L))"

lemma section_after_line:
  "section_after (ks @ [line_key l]) = (if is_header l then Some (header_name l) else section_after ks)"
  by (simp add: line_key_def)

lemma strip_run:
  assumes "length M = length L"
    and "\<And>k. k < length L \<Longrightarrow> is_header (M ! k) \<Longrightarrow> M ! k = L ! k"
    and "\<And>k. k < length L \<Longrightarrow> \<not> is_header (M ! k) \<Longrightarrow>
      stripped_line prefix mode e (section_at M k) (M ! k) = Inr (if M ! k = L ! k then None else Some (L ! k))"
  shows "foldR (strip_step prefix mode e) ([], None, 0) M = Inr (L, section_after (map line_key M), diffs L M)"
  using assms
proof (induction M arbitrary: L rule: rev_induct)
  case Nil
  then show ?case by simp
next
  case (snoc m M)
  then obtain l L0 where L: "L = L0 @ [l]" "length L0 = length M" by (cases L rule: rev_cases) auto
  have before: "foldR (strip_step prefix mode e) ([], None, 0) M = Inr (L0, section_after (map line_key M), diffs L0 M)"
  proof (rule snoc.IH)
    show "length M = length L0" using L(2) by simp
    fix k
    assume k: "k < length L0"
    show "M ! k = L0 ! k" if "is_header (M ! k)"
      using snoc.prems(2) [of k] k that L by (simp add: nth_append)
    show "stripped_line prefix mode e (section_at M k) (M ! k) = Inr (if M ! k = L0 ! k then None else Some (L0 ! k))"
      if "\<not> is_header (M ! k)"
      using snoc.prems(3) [of k] k that L by (simp add: nth_append)
  qed
  have "strip_step prefix mode e (L0, section_after (map line_key M), diffs L0 M) m
      = Inr (L0 @ [l], section_after (map line_key M @ [line_key m]), diffs (L0 @ [l]) (M @ [m]))"
  proof (cases "is_header m")
    case True
    then have "m = l" using snoc.prems(2) [of "length M"] L by (simp add: nth_append)
    then show ?thesis
      using diffs_snoc_other [of M L0 l m] L(2) True by (simp add: strip_step_def section_after_line)
  next
    case False
    then have "stripped_line prefix mode e (section_after (map line_key M)) m = Inr (if m = l then None else Some l)"
      using snoc.prems(3) [of "length M"] L by (simp add: nth_append)
    then show ?thesis
      using diffs_snoc_other [of M L0 l m] L(2) False by (simp add: strip_step_def section_after_line)
  qed
  then show ?case using before L(1) by (simp add: foldR_append)
qed

lemma strip_step_lines:
  "foldR (strip_step prefix mode e) ([], None, 0) L = Inr (L2, sec, n) \<Longrightarrow> sec = section_after (map line_key L)
    \<and> (n = 0 \<longrightarrow> (\<forall>k < length L. \<not> is_header (L ! k) \<longrightarrow> stripped_line prefix mode e (section_at L k) (L ! k) = Inr None))"
proof (induction L arbitrary: L2 sec n rule: rev_induct)
  case Nil
  then show ?case by simp
next
  case (snoc l L)
  then obtain L1 sec1 n1 where 1: "foldR (strip_step prefix mode e) ([], None, 0) L = Inr (L1, sec1, n1)"
    and st: "strip_step prefix mode e (L1, sec1, n1) l = Inr (L2, sec, n)"
    by (auto simp: foldR_append result_simps)
  note IH = snoc.IH [OF 1]
  have sec: "sec = section_after (map line_key (L @ [l]))"
    using st IH by (auto simp: strip_step_def section_after_line result_simps split: if_splits option.splits)
  have "n = 0 \<Longrightarrow> n1 = 0 \<and> (\<not> is_header l \<longrightarrow> stripped_line prefix mode e sec1 l = Inr None)"
    using st by (auto simp: strip_step_def result_simps split: if_splits option.splits)
  then show ?case
    using sec IH by (intro conjI impI allI) (simp_all add: nth_append less_Suc_eq split: if_splits)
qed

text \<open>The line that has been given an address loses it.\<close>

lemma filter_new:
  assumes "length vs = length ps" and "e \<notin> set ps"
  shows "map fst (filter (\<lambda>(v, p). p \<noteq> e) (zip (vs @ [a]) (ps @ [e]))) = vs"
proof -
  have "filter (\<lambda>(v, p). p \<noteq> e) (zip vs ps) = zip vs ps"
    using assms(2) by (auto simp: filter_id_conv dest: set_zip_rightD)
  then show ?thesis using assms(1) by simp
qed

lemma stripped_grown:
  assumes m: "assignment_ok m" "as_value m \<noteq> []" "join '', '' (split_addresses (as_value m)) = as_value m"
    and p: "traverseR parse_interface (split_addresses (as_value m)) = Inr parsed" "ipv6_items parsed = []"
    and e: "made_interface e"
    and which: "sec = Some ''interface'' \<and> lower (as_name m) = ''address'' \<and> e = server
      \<or> sec = Some ''peer'' \<and> lower (as_name m) = ''allowedips''
        \<and> (\<exists>host hosts. ipv4_hosts parsed = host # hosts \<and> client_address prefix mode (show_addr (fst host)) = Inr e)"
  shows "stripped_line prefix mode server sec (render (grown m e)) = Inr (Some (render m))"
proof -
  let ?vs = "split_addresses (as_value m)"
  note ok = grown_ok [OF m(1,2) e]
  have name: "as_name (grown m e) = as_name m" by (simp add: grown_def)
  have vals: "split_addresses (as_value (grown m e)) = ?vs @ [show_interface e]" by (rule grown_values [OF e])
  have tr: "traverseR parse_interface (?vs @ [show_interface e]) = Inr (parsed @ [e])"
    using grown_parsed [OF e p(1)] vals by simp
  have len: "length ?vs = length parsed" using p(1) by (auto simp: traverseR_Inr_iff list_all2_lengthD)
  have "e \<notin> set parsed" using p(2) made_plain [OF e] by (auto simp: ipv6_items_def filter_empty_conv)
  note ret = filter_new [OF len this, of "show_interface e"]
  have ne: "?vs \<noteq> []" using m(2,3) by auto
  have hosts: "ipv4_hosts (parsed @ [e]) = ipv4_hosts parsed" using made_ipv6 [OF e] by blast
  have rep: "replace_addresses (render (grown m e)) ?vs = Inr (render m)"
    using m(3) by (simp add: replace_addresses_def match_render [OF ok]) (simp add: render_def with_value_def grown_def)
  have remove: "(if sec = Some ''interface'' \<and> lower (as_name m) = ''address'' then Inr (Some server)
       else if sec = Some ''peer'' \<and> lower (as_name m) = ''allowedips'' then
         (case ipv4_hosts (parsed @ [e]) of
            [] \<Rightarrow> Inl (NoIpv4Host 0)
          | host # hosts \<Rightarrow> map_sum id Some (client_address prefix mode (show_addr (fst host))))
       else Inr None) = Inr (Some e)"
    using which hosts by auto
  show ?thesis
    unfolding stripped_line_def match_render [OF ok] option.case Let_def name vals tr bindR.simps remove
    using ret ne rep by simp
qed

text \<open>C20: taking the addresses out of a migrated configuration restores it, and as many lines are
  changed back as had been changed: the configuration held none of the addresses before, its line
  breaks are line feeds and its lists are written with a comma and a space.\<close>

theorem strip_undoes_migrate:
  assumes "migrate_text t prefix mode = Inr (t', n)" and "strip_text t prefix mode = Inr (t, 0)"
    and "only_LF t" and "values_normal t"
  shows "strip_text t' prefix mode = Inr (t, n)"
proof -
  let ?L = "splitlines_keep t"
  have ne: "values_nonempty t" using assms(4) by (auto simp: values_normal_iff values_nonempty_iff)
  from migrate_text_lines [OF assms(1,3) ne] obtain L' server i closed where
    L': "splitlines_keep t' = L'" "length L' = length ?L" "t' = concat L'"
    and p: "server_address prefix mode = Inr server" "made_interface server"
    and plan: "plan_of (map line_key ?L) = Some (i, closed)"
    and fin: "\<And>k. k < length L' \<Longrightarrow> final_line prefix mode server i closed k (?L ! k) (L' ! k)"
    and n: "n = diffs ?L L'"
    by metis
  note spec = plan_of_spec [OF plan]
  have norm: "as_value m \<noteq> []" "join '', '' (split_addresses (as_value m)) = as_value m"
    if "k < length L'" "match_assignment (?L ! k) = Some m" for k m
    using assms(4) L'(2) nth_mem [of k ?L] that by (auto simp: values_normal_iff)
  have key: "line_key (L' ! k) = line_key (?L ! k)" if "k < length L'" for k
    by (rule final_line_quiet(1) [OF fin [OF that] p(2)]) (rule norm(1) [OF that])
  then have keys: "map line_key L' = map line_key ?L"
    using L'(2) by (simp add: list_eq_iff_nth_eq)
  obtain L2 sec where "foldR (strip_step prefix mode server) ([], None, 0) ?L = Inr (L2, sec, 0)"
    using assms(2) p(1) by (auto simp: strip_text_def strip_lines_def result_simps)
  then have before: "stripped_line prefix mode server (section_at ?L k) (?L ! k) = Inr None"
    if "k < length ?L" "\<not> is_header (?L ! k)" for k
    using strip_step_lines that by blast
  have "foldR (strip_step prefix mode server) ([], None, 0) L' = Inr (?L, section_after (map line_key L'), diffs ?L L')"
  proof (rule strip_run [OF L'(2)])
    fix k
    assume k: "k < length ?L"
    then have k': "k < length L'" using L'(2) by simp
    note cases = final_line_cases [OF fin [OF k'] p(2) norm(1) [OF k']]
    show "L' ! k = ?L ! k" if "is_header (L' ! k)"
      using that assignment_not_header grown_ok by (cases rule: cases) auto
    show "stripped_line prefix mode server (section_at L' k) (L' ! k)
        = Inr (if L' ! k = ?L ! k then None else Some (?L ! k))" if h: "\<not> is_header (L' ! k)"
    proof (cases "L' ! k = ?L ! k")
      case True
      then show ?thesis using before [OF k] h keys by simp
    next
      case False
      consider "k = i" "migrated_interface_line server (?L ! k) = Inr (Some (L' ! k))"
        | "k \<in> set closed" "migrated_peer_line prefix mode 0 (?L ! k) = Inr (Some (L' ! k))"
        using fin [OF k'] False by (auto simp: final_line_def line_edit_def split: if_splits)
      then have "stripped_line prefix mode server (section_at ?L k) (L' ! k) = Inr (Some (?L ! k))"
      proof cases
        case 1
        then obtain m parsed where m: "?L ! k = render m" "assignment_ok m" "L' ! k = render (grown m server)"
          and ps: "traverseR parse_interface (split_addresses (as_value m)) = Inr parsed" "ipv6_items parsed = []"
          using interface_edit by blast
        have "section_at ?L k = Some ''interface''" "lower (as_name m) = ''address''"
          using spec(1) 1(1) k m(1,2) by (auto simp: is_address_at_def key_render)
        then show ?thesis
          using stripped_grown [OF m(2) norm [OF k'] ps p(2)] m match_render [OF m(2)] by simp
      next
        case 2
        from peer_edit [OF 2(2)] obtain m e parsed where m: "?L ! k = render m" "assignment_ok m" "L' ! k = render (grown m e)"
          and e: "made_interface e"
          and ps: "traverseR parse_interface (split_addresses (as_value m)) = Inr parsed" "ipv6_items parsed = []"
          and host: "\<exists>host hosts. ipv4_hosts parsed = host # hosts \<and> client_address prefix mode (show_addr (fst host)) = Inr e"
          by blast
        have "section_at ?L k = Some ''peer''" "lower (as_name m) = ''allowedips''"
          using spec(3) [OF 2(1)] k m(1,2) by (auto simp: is_address_at_def key_render)
        then show ?thesis
          using stripped_grown [OF m(2) norm [OF k'] ps e] m match_render [OF m(2)] host by simp
      qed
      then show ?thesis using False keys by simp
    qed
  qed
  then show ?thesis using L' p(1) n by (simp add: strip_text_def strip_lines_def)
qed

theorem strip_undoes_migrate_witness:
  "strip_text example_migrated DEFAULT_PREFIX ''antizapret'' = Inr (example_conf, 2)"
  by (rule strip_undoes_migrate [OF example_migrates example_strips example_conf_ok(1,2)])

text \<open>
  An Address without a value takes the line break into its separator: the address ends up on the
  next line, and every run adds it once more.\<close>

lemma empty_value_swallows_newline:
  "match_assignment (''Address ='' @ [LF]) = Some \<lparr>as_prefix = [], as_name = ''Address'',
     as_separator = '' ='' @ [LF], as_value = [], as_newline = []\<rparr>"
  "append_address (''Address ='' @ [LF]) a = Inr (''Address ='' @ [LF] @ '', '' @ a)"
proof -
  show m: "match_assignment (''Address ='' @ [LF]) = Some \<lparr>as_prefix = [], as_name = ''Address'',
     as_separator = '' ='' @ [LF], as_value = [], as_newline = []\<rparr>"
    by code_simp
  show "append_address (''Address ='' @ [LF]) a = Inr (''Address ='' @ [LF] @ '', '' @ a)"
    unfolding append_address_def m by (simp add: with_value_def)
qed

section \<open>The addresses\<close>

lemma client_address_int:
  assumes "client_address prefix mode ip = Inr (a, p)"
  shows "\<exists>base c v. parse_base_prefix prefix = Inr base \<and> map_of MODE_SUBNETS mode = Some c \<and> read_ip4 ip = Some v
    \<and> 2 \<le> v mod 256 \<and> v mod 256 \<le> 254 \<and> a = V6 (net_int base + c * 2 ^ 64 + v mod 256) None \<and> p = 128"
proof -
  obtain v where v: "read_ip4 ip = Some v" "2 \<le> v mod 256" "v mod 256 \<le> 254"
    using assms by (auto simp: client_address_def Let_def split: option.splits if_splits)
  obtain n where n: "mode_network prefix mode = Inr n" "a = V6 (net_int n + v mod 256) None" "p = 128"
    using assms v by (auto simp: client_address_def Let_def result_simps)
  from mode_network_int [OF n(1)] v n(2,3) show ?thesis by auto
qed

lemma base_prefix_dvd: "parse_base_prefix prefix = Inr base \<Longrightarrow> 2 ^ 80 dvd net_int base"
proof -
  assume "parse_base_prefix prefix = Inr base"
  from base_prefix_ok [OF this] show ?thesis by (auto simp: net_ok_def width_def)
qed

lemma in_subnet:
  assumes "2 ^ 80 dvd b" and "net_int n = b + c * 2 ^ 64" and "net_version n = 6" and "64 \<le> prefixlen n"
  shows "in_net (V6 x None) n \<longleftrightarrow> b + c * 2 ^ 64 \<le> x \<and> x < b + c * 2 ^ 64 + 2 ^ (128 - prefixlen n)"
proof -
  have "2 ^ (128 - prefixlen n) dvd (2 ^ 64 :: nat)" using assms(4) by (intro le_imp_power_dvd) simp
  moreover have "(2 ^ 64 :: nat) dvd b" using assms(1) by (rule dvd_trans [rotated]) (intro le_imp_power_dvd, simp)
  ultimately have "2 ^ (128 - prefixlen n) dvd b + c * 2 ^ 64"
    by (intro dvd_add) (auto intro: dvd_trans dvd_mult)
  then show ?thesis using assms(2,3) mask_int_range [of 128 "prefixlen n" "b + c * 2 ^ 64" x]
    by (simp add: in_net_def width_def)
qed

lemma mode_ids: "map_of MODE_SUBNETS mode = Some c \<Longrightarrow> map_of MODE_SUBNETS mode' = Some c' \<Longrightarrow>
    (c = c' \<longleftrightarrow> mode = mode') \<and> c < FAKE_SUBNET"
  by (auto simp: MODE_SUBNETS_def FAKE_SUBNET_def split: if_splits)

lemma subnet_hosts:
  fixes b c c' h h' :: nat
  assumes "h < 2 ^ 64" and "h' < 2 ^ 64"
  shows "b + c * 2 ^ 64 + h = b + c' * 2 ^ 64 + h' \<longleftrightarrow> c = c' \<and> h = h'"
proof
  assume "b + c * 2 ^ 64 + h = b + c' * 2 ^ 64 + h'"
  then have e: "h + c * 2 ^ 64 = h' + c' * 2 ^ 64" by simp
  then have "(h + c * 2 ^ 64) div 2 ^ 64 = (h' + c' * 2 ^ 64) div 2 ^ 64" by simp
  then have "c = c'" using assms by simp
  then show "c = c' \<and> h = h'" using e by simp
qed simp

text \<open>C35: the address of a client is a host of its mode's network, clients share an address only with
  the same mode and the same last octet, no client has a server's address and none lies in the
  network of the fake addresses.\<close>

theorem wireguard_addresses:
  assumes "client_address prefix mode ip = Inr (a, p)" and "client_address prefix mode' ip' = Inr (b, q)"
    and "server_address prefix mode' = Inr (s, r)"
    and "mode_network prefix mode = Inr n" and "fake_network prefix False = Inr f"
  shows "in_net a n \<and> p = 128 \<and> a \<noteq> s \<and> \<not> in_net a f
    \<and> (a = b \<longleftrightarrow> mode = mode' \<and> the (read_ip4 ip) mod 256 = the (read_ip4 ip') mod 256)"
proof -
  from client_address_int [OF assms(1)] obtain base c v where
    base: "parse_base_prefix prefix = Inr base" and c: "map_of MODE_SUBNETS mode = Some c"
    and v: "read_ip4 ip = Some v" "2 \<le> v mod 256" "v mod 256 \<le> 254"
    and a: "a = V6 (net_int base + c * 2 ^ 64 + v mod 256) None" "p = 128" by blast
  from client_address_int [OF assms(2)] base obtain c' v' where
    c': "map_of MODE_SUBNETS mode' = Some c'" and v': "read_ip4 ip' = Some v'" "v' mod 256 \<le> 254"
    and b: "b = V6 (net_int base + c' * 2 ^ 64 + v' mod 256) None" by auto
  note d = base_prefix_dvd [OF base] and ids = mode_ids [OF c c']
  have n: "net_int n = net_int base + c * 2 ^ 64" "prefixlen n = 64" "net_version n = 6"
    using mode_network_int [OF assms(4)] base c assms(4)
    by (auto simp: mode_network_def subnet_at_def net_version_def result_simps)
  have f: "net_int f = net_int base + FAKE_SUBNET * 2 ^ 64" "prefixlen f = 96" "net_version f = 6"
    using assms(5) base subnet_at_int(1) [of base FAKE_SUBNET] base_prefix_ok [OF base]
    by (auto simp: fake_network_def subnet_at_def net_version_def FAKE_SUBNET_def FAKE_PREFIX_LENGTH_def)
  have s: "s = V6 (net_int base + c' * 2 ^ 64 + 1) None"
    using assms(3) mode_network_int base c' by (fastforce simp: server_address_def result_simps)
  have "in_net a n"
    unfolding a(1) in_subnet [OF d n(1,3), unfolded n(2), simplified] using v(3) by simp
  moreover have "\<not> in_net a f"
    unfolding a(1) in_subnet [OF d f(1,3), unfolded f(2), simplified] using v(3) ids by simp
  moreover have "a \<noteq> s"
    using subnet_hosts [of "v mod 256" 1 "net_int base" c c'] v a(1) s by simp
  moreover have "a = b \<longleftrightarrow> mode = mode' \<and> v mod 256 = v' mod 256"
    using subnet_hosts [of "v mod 256" "v' mod 256" "net_int base" c c'] v(3) v'(2) a(1) b ids by simp
  ultimately show ?thesis using a(2) v(1) v'(1) by simp
qed

theorem wireguard_addresses_witness:
  "V6 0xfd3ac9bc6bcb29080000000000000002 None \<noteq> V6 0xfd3ac9bc6bcb28080000000000000002 None
   \<and> in_net (V6 0xfd3ac9bc6bcb29080000000000000002 None)
       \<lparr>net_addr = V6 0xfd3ac9bc6bcb29080000000000000000 None, prefixlen = 64\<rparr>"
proof -
  from wireguard_addresses [OF example_clients example_servers(2) default_networks(1,3)] show ?thesis by simp
qed

section \<open>The file\<close>

lemma atomic_write_ok:
  assumes "map_of fs temporary = None" and "temporary \<noteq> path" and "\<not> is_symlink fs path"
    and "map_of fs path = Some (File t m)"
  shows "\<exists>fs'. atomic_write temporary path content fs = (Inr (), fs')
    \<and> map_of fs' = (map_of fs)(path \<mapsto> File content (m mod 4096))"
proof -
  let ?fs1 = "AList.update temporary (File [] 384) fs"
  have 1: "\<not> is_symlink ?fs1 path" "\<not> is_symlink ?fs1 temporary"
    using assms by (auto simp: is_symlink_def dict_simps)
  have mode: "stat_mode ?fs1 path = Inr m"
    using assms(2,4) by (simp add: stat_mode_def target_plain [OF 1(1)] dict_simps)
  let ?fs2 = "AList.update temporary (File content 384) fs"
  have 2: "write_text temporary content ?fs1 = (Inr (), ?fs2)"
    by (simp add: write_text_def target_plain [OF 1(2)] dict_simps)
  have "\<not> is_symlink ?fs2 temporary" by (simp add: is_symlink_def dict_simps)
  then have 3: "chmod temporary (m mod 4096) ?fs2 = (Inr (), AList.update temporary (File content (m mod 4096)) fs)"
    by (simp add: chmod_def target_plain dict_simps)
  show ?thesis
    using assms(2,4) by (simp add: atomic_write_def make_temporary_def mode 2 3 replace_file_def dict_simps fun_eq_iff assms(1))
qed


definition example_fs :: fs where
  "example_fs = [(''wg.conf'', File example_conf 384)]"


end
