(* ===== verification/ScannerStore.thy ===== *)
theory ScannerStore
  imports PyIp PySort
begin

text \<open>
  \<^verbatim>\<open>setup/opt/AdminAntizapret/utils/scanner_firewall_store.py\<close>: the bans of scanners, kept in a file
  and applied through \<^verbatim>\<open>ipset\<close> and \<^verbatim>\<open>iptables\<close>. The commands are a parameter: a function from
  the argument list and the state of the kernel to the outcome and the new state. Instants are
  microseconds.
\<close>

section \<open>Settings\<close>

definition DEFAULT_STRIKES_FOR_YEAR :: int where "DEFAULT_STRIKES_FOR_YEAR = 5"
definition DEFAULT_YEAR_BAN_SECONDS :: int where "DEFAULT_YEAR_BAN_SECONDS = 365 * 24 * 3600"
definition DEFAULT_UNBAN_GRACE_SECONDS :: int where "DEFAULT_UNBAN_GRACE_SECONDS = 1800"

record family =
  fam_ipset :: string
  fam_sync_ipset :: string
  fam_legacy_ipset :: string
  fam_family :: string
  fam_firewall :: string

definition FIREWALL_FAMILY_4 :: family where
  "FIREWALL_FAMILY_4 = \<lparr>fam_ipset = ''aa_scanner_v4_v2'', fam_sync_ipset = ''aa_scanner_v4_v2_next'',
     fam_legacy_ipset = ''aa_scanner_v4'', fam_family = ''inet'', fam_firewall = ''iptables''\<rparr>"

definition FIREWALL_FAMILY_6 :: family where
  "FIREWALL_FAMILY_6 = \<lparr>fam_ipset = ''aa_scanner_v6_v2'', fam_sync_ipset = ''aa_scanner_v6_v2_next'',
     fam_legacy_ipset = ''aa_scanner_v6'', fam_family = ''inet6'', fam_firewall = ''ip6tables''\<rparr>"

definition family_spec :: "nat \<Rightarrow> family" where
  "family_spec v = (if v = 4 then FIREWALL_FAMILY_4 else FIREWALL_FAMILY_6)"

type_synonym environment = "string \<Rightarrow> string option"

definition env_raw :: "environment \<Rightarrow> string \<Rightarrow> string" where
  "env_raw env name = strip (case env name of None \<Rightarrow> [] | Some s \<Rightarrow> s)"

definition env_bool :: "environment \<Rightarrow> string \<Rightarrow> bool \<Rightarrow> bool" where
  "env_bool env name dflt =
     (let raw = lower (env_raw env name) in
      if raw = [] then dflt else raw \<in> set [''1'', ''true'', ''yes'', ''y'', ''on''])"

definition env_int :: "environment \<Rightarrow> string \<Rightarrow> int \<Rightarrow> int \<Rightarrow> int \<Rightarrow> int" where
  "env_int env name dflt minimum maximum =
     (let raw = env_raw env name in
      if raw = [] then dflt
      else case read_int raw of None \<Rightarrow> dflt | Some v \<Rightarrow> max minimum (min maximum v))"

record scan_settings =
  strikes_for_year :: int
  year_ban_seconds :: int
  firewall_enabled :: bool
  dry_run :: bool
  unban_grace_seconds :: int

text \<open>The settings of \<^verbatim>\<open>__init__\<close>: an argument that is missing or zero falls back to the environment.\<close>

definition given :: "int option \<Rightarrow> int \<Rightarrow> int" where
  "given arg fallback = (case arg of None \<Rightarrow> fallback | Some v \<Rightarrow> if v = 0 then fallback else v)"

definition scan_init_settings ::
  "environment \<Rightarrow> int option \<Rightarrow> int option \<Rightarrow> bool option \<Rightarrow> bool option \<Rightarrow> scan_settings" where
  "scan_init_settings env strikes_arg year_arg enabled_arg dry_arg =
     \<lparr>strikes_for_year = given strikes_arg
        (env_int env ''IP_SCANNER_STRIKES_FOR_YEAR_BAN'' DEFAULT_STRIKES_FOR_YEAR 1 100),
      year_ban_seconds = given year_arg
        (env_int env ''IP_SCANNER_YEAR_BAN_SECONDS'' DEFAULT_YEAR_BAN_SECONDS 3600 (10 * 365 * 86400)),
      firewall_enabled = (case enabled_arg of Some b \<Rightarrow> b
        | None \<Rightarrow> env_bool env ''IP_SCANNER_FIREWALL_ENABLED'' True),
      dry_run = (case dry_arg of Some b \<Rightarrow> b | None \<Rightarrow> env_bool env ''IP_SCANNER_FIREWALL_DRY_RUN'' False),
      unban_grace_seconds = env_int env ''IP_SCANNER_UNBAN_GRACE_SECONDS'' DEFAULT_UNBAN_GRACE_SECONDS 60 86400\<rparr>"

section \<open>The records and the file\<close>

definition MICROS :: int where "MICROS = 1000000"

record scan_event =
  ev_at :: int
  ev_reason :: string
  ev_ban_seconds :: int
  ev_strike :: int
  ev_long_term :: bool
  ev_firewall :: bool

record scan_record =
  rec_ip :: string
  strikes :: int
  ban_until :: int
  long_term :: bool
  recent_attempts :: "int list"
  ip_blocked_since :: "int option"
  unban_grace_until :: int
  firewall_applied :: bool
  scan_events :: "scan_event list"

datatype scan_entry = Entry scan_record | NotARecord

type_synonym scan_entries = "(string, scan_entry) dict"

text \<open>The file: missing, unreadable, or the entries with their keys in order.\<close>

datatype scan_file = Missing | Unreadable | Entries scan_entries

record 'k scan_store =
  st_file :: scan_file
  st_data :: scan_entries
  st_kernel :: 'k

datatype scan_error = BadAddress

type_synonym ('k, 'a) scan_prog = "('k scan_store, scan_error, 'a) prog"

definition scan_load :: "'k scan_store \<Rightarrow> 'k scan_store" where
  "scan_load st = (case st_file st of
       Missing \<Rightarrow> st\<lparr>st_data := []\<rparr>
     | Unreadable \<Rightarrow> st
     | Entries d \<Rightarrow> st\<lparr>st_data := d\<rparr>)"

definition save_unlocked :: "('k, unit) scan_prog" where
  "save_unlocked = modifyP (\<lambda>st. st\<lparr>st_file := Entries (sort_key fst (st_data st))\<rparr>)"

text \<open>\<^verbatim>\<open>_state_lock\<close> taken by an operation that does not hold it yet: the file is read first.\<close>

definition state_lock :: "('k, 'a) scan_prog \<Rightarrow> ('k, 'a) scan_prog" where
  "state_lock body st = body (scan_load st)"

definition scan_init :: "'k scan_store \<Rightarrow> 'k scan_store" where
  "scan_init st = (let st1 = scan_load (st\<lparr>st_data := []\<rparr>) in
     if st_file st1 = Missing then snd (save_unlocked st1) else st1)"

definition scan_normalize_ip :: "string \<Rightarrow> (scan_error, string) result" where
  "scan_normalize_ip ip = (case ip_address (strip ip) of None \<Rightarrow> Inl BadAddress | Some a \<Rightarrow> Inr (show_addr a))"

definition scan_ip_version :: "string \<Rightarrow> (scan_error, nat) result" where
  "scan_ip_version ip =
     bindR (scan_normalize_ip ip) (\<lambda>s. case ip_address s of None \<Rightarrow> Inl BadAddress | Some a \<Rightarrow> Inr (version a))"

definition new_record :: "string \<Rightarrow> scan_record" where
  "new_record ip = \<lparr>rec_ip = ip, strikes = 0, ban_until = 0, long_term = False, recent_attempts = [],
     ip_blocked_since = None, unban_grace_until = 0, firewall_applied = False, scan_events = []\<rparr>"

definition find_record :: "'k scan_store \<Rightarrow> string \<Rightarrow> scan_record option" where
  "find_record st ip = (case map_of (st_data st) ip of Some (Entry r) \<Rightarrow> Some r | _ \<Rightarrow> None)"

definition put_record :: "string \<Rightarrow> scan_record \<Rightarrow> ('k, unit) scan_prog" where
  "put_record ip r = modifyP (\<lambda>st. st\<lparr>st_data := AList.update ip (Entry r) (st_data st)\<rparr>)"

definition entry_unlocked :: "string \<Rightarrow> ('k, scan_record) scan_prog" where
  "entry_unlocked ip st = (case find_record st ip of
       Some r \<Rightarrow> (Inr r, st)
     | None \<Rightarrow> (Inr (new_record ip), snd (put_record ip (new_record ip) st)))"

section \<open>Commands\<close>

datatype scan_command =
    ListSets
  | CreateSet string string
  | AddMember string string int
  | DelMember string string
  | TestMember string string
  | FlushSet string
  | DestroySet string
  | SwapSets string string
  | CheckRule string string
  | InsertRule string string
  | DeleteRule string string

definition rule_args :: "string \<Rightarrow> string \<Rightarrow> string \<Rightarrow> string list" where
  "rule_args firewall action ipset_name =
     [firewall, ''-w'', action, ''INPUT''] @ (if action = ''-I'' then [''1''] else [])
       @ [''-m'', ''set'', ''--match-set'', ipset_name, ''src'', ''-j'', ''DROP'']"

fun command_args :: "scan_command \<Rightarrow> string list" where
  "command_args ListSets = [''ipset'', ''list'', ''-name'']"
| "command_args (CreateSet s fam) = [''ipset'', ''create'', s, ''hash:ip'', ''family'', fam, ''timeout'', ''0'',
     ''hashsize'', ''4096'', ''maxelem'', ''65536'', ''-exist'']"
| "command_args (AddMember s ip t) = [''ipset'', ''add'', s, ip, ''-exist'']
     @ (if t > 0 then [''timeout'', show_int t] else [])"
| "command_args (DelMember s ip) = [''ipset'', ''del'', s, ip, ''-exist'']"
| "command_args (TestMember s ip) = [''ipset'', ''test'', s, ip]"
| "command_args (FlushSet s) = [''ipset'', ''flush'', s]"
| "command_args (DestroySet s) = [''ipset'', ''destroy'', s]"
| "command_args (SwapSets s t) = [''ipset'', ''swap'', s, t]"
| "command_args (CheckRule fw s) = rule_args fw ''-C'' s"
| "command_args (InsertRule fw s) = rule_args fw ''-I'' s"
| "command_args (DeleteRule fw s) = rule_args fw ''-D'' s"

text \<open>A command succeeds or not and leaves a text: its output or what went wrong.\<close>

type_synonym 'k runner = "string list \<Rightarrow> 'k \<Rightarrow> (bool \<times> string) \<times> 'k"

definition run_scan_command :: "'k runner \<Rightarrow> scan_command \<Rightarrow> ('k, bool \<times> string) scan_prog" where
  "run_scan_command run c st =
     (case run (command_args c) (st_kernel st) of (r, k) \<Rightarrow> (Inr r, st\<lparr>st_kernel := k\<rparr>))"

definition succeeds :: "'k runner \<Rightarrow> scan_command \<Rightarrow> ('k, bool) scan_prog" where
  "succeeds run c = bindP (run_scan_command run c) (\<lambda>(ok, out). retP ok)"

definition ipset_exists :: "'k runner \<Rightarrow> string \<Rightarrow> ('k, bool option) scan_prog" where
  "ipset_exists run name = bindP (run_scan_command run ListSets) (\<lambda>(ok, out).
     retP (if ok then Some (name \<in> set (splitlines out)) else None))"

definition create_family_ipset :: "'k runner \<Rightarrow> nat \<Rightarrow> string \<Rightarrow> ('k, bool) scan_prog" where
  "create_family_ipset run v name = succeeds run (CreateSet name (fam_family (family_spec v)))"

definition ensure_family_infrastructure :: "'k runner \<Rightarrow> scan_settings \<Rightarrow> nat \<Rightarrow> ('k, bool) scan_prog" where
  "ensure_family_infrastructure run cfg v =
     (if \<not> firewall_enabled cfg \<or> dry_run cfg then retP True
      else
        bindP (create_family_ipset run v (fam_ipset (family_spec v))) (\<lambda>created.
        if \<not> created then retP False
        else
          bindP (succeeds run (CheckRule (fam_firewall (family_spec v)) (fam_ipset (family_spec v)))) (\<lambda>found.
          if found then retP True
          else succeeds run (InsertRule (fam_firewall (family_spec v)) (fam_ipset (family_spec v))))))"

definition ensure_firewall_infrastructure :: "'k runner \<Rightarrow> scan_settings \<Rightarrow> ('k, bool) scan_prog" where
  "ensure_firewall_infrastructure run cfg = state_lock
     (bindP (mapP (ensure_family_infrastructure run cfg) [4, 6]) (\<lambda>results. retP (list_all (\<lambda>b. b) results)))"

definition add_to_ipset :: "'k runner \<Rightarrow> string \<Rightarrow> string \<Rightarrow> int \<Rightarrow> ('k, bool) scan_prog" where
  "add_to_ipset run name ip timeout = succeeds run (AddMember name ip timeout)"

definition firewall_add :: "'k runner \<Rightarrow> scan_settings \<Rightarrow> string \<Rightarrow> int \<Rightarrow> ('k, bool) scan_prog" where
  "firewall_add run cfg ip timeout =
     (if \<not> firewall_enabled cfg then retP False
      else if dry_run cfg then retP True
      else
        bindP (getsP (\<lambda>st. scan_ip_version ip)) (\<lambda>v.
        bindP (ensure_family_infrastructure run cfg v) (\<lambda>ready.
        if \<not> ready then retP False
        else add_to_ipset run (fam_ipset (family_spec v)) ip timeout)))"

definition remove_member :: "'k runner \<Rightarrow> string \<Rightarrow> string \<Rightarrow> ('k, bool) scan_prog" where
  "remove_member run ip name =
     bindP (ipset_exists run name) (\<lambda>found.
       case found of
         None \<Rightarrow> retP False
       | Some False \<Rightarrow> retP True
       | Some True \<Rightarrow> succeeds run (DelMember name ip))"

definition firewall_remove :: "'k runner \<Rightarrow> scan_settings \<Rightarrow> string \<Rightarrow> ('k, bool) scan_prog" where
  "firewall_remove run cfg ip =
     (if \<not> firewall_enabled cfg then retP False
      else if dry_run cfg then retP True
      else
        bindP (getsP (\<lambda>st. scan_ip_version ip)) (\<lambda>v.
        bindP (mapP (remove_member run ip) [fam_ipset (family_spec v), fam_legacy_ipset (family_spec v)])
          (\<lambda>results. retP (list_all (\<lambda>b. b) results))))"

definition set_blocks :: "'k runner \<Rightarrow> string \<Rightarrow> string \<Rightarrow> string \<Rightarrow> ('k, bool) scan_prog" where
  "set_blocks run firewall ip name =
     bindP (succeeds run (TestMember name ip)) (\<lambda>member.
     if member then succeeds run (CheckRule firewall name) else retP False)"

definition firewall_contains :: "'k runner \<Rightarrow> scan_settings \<Rightarrow> string \<Rightarrow> ('k, bool) scan_prog" where
  "firewall_contains run cfg ip =
     (if \<not> firewall_enabled cfg then retP False
      else if dry_run cfg then retP True
      else
        bindP (getsP (\<lambda>st. scan_ip_version ip)) (\<lambda>v.
        bindP (set_blocks run (fam_firewall (family_spec v)) ip (fam_ipset (family_spec v))) (\<lambda>blocked.
        if blocked then retP True
        else set_blocks run (fam_firewall (family_spec v)) ip (fam_legacy_ipset (family_spec v)))))"

definition family_infrastructure_present :: "'k runner \<Rightarrow> scan_settings \<Rightarrow> nat \<Rightarrow> ('k, bool) scan_prog" where
  "family_infrastructure_present run cfg v =
     (if \<not> firewall_enabled cfg then retP False
      else if dry_run cfg then retP True
      else
        bindP (ipset_exists run (fam_ipset (family_spec v))) (\<lambda>found.
        if found \<noteq> Some True then retP False
        else succeeds run (CheckRule (fam_firewall (family_spec v)) (fam_ipset (family_spec v)))))"

text \<open>At most 32 copies of the rule are deleted.\<close>

fun delete_legacy_rules :: "'k runner \<Rightarrow> nat \<Rightarrow> string \<Rightarrow> string \<Rightarrow> ('k, bool) scan_prog" where
  "delete_legacy_rules run 0 firewall name = retP True"
| "delete_legacy_rules run (Suc n) firewall name =
     bindP (succeeds run (CheckRule firewall name)) (\<lambda>found.
     if \<not> found then retP True
     else
       bindP (succeeds run (DeleteRule firewall name)) (\<lambda>deleted.
       if \<not> deleted then retP False else delete_legacy_rules run n firewall name))"

fun delete_all_rules :: "'k runner \<Rightarrow> string list \<Rightarrow> string \<Rightarrow> ('k, bool) scan_prog" where
  "delete_all_rules run [] name = retP True"
| "delete_all_rules run (fw # fws) name =
     bindP (delete_legacy_rules run 32 fw name) (\<lambda>ok. if ok then delete_all_rules run fws name else retP False)"

definition remove_legacy_family :: "'k runner \<Rightarrow> nat \<Rightarrow> ('k, bool) scan_prog" where
  "remove_legacy_family run v =
     (let spec = family_spec v in
      bindP (ipset_exists run (fam_legacy_ipset spec)) (\<lambda>found.
        case found of
          None \<Rightarrow> retP False
        | Some False \<Rightarrow> retP True
        | Some True \<Rightarrow>
            bindP (delete_all_rules run (fam_firewall spec # (if v = 6 then [''iptables''] else [])) (fam_legacy_ipset spec))
              (\<lambda>deleted.
            if \<not> deleted then retP False
            else
              bindP (succeeds run (FlushSet (fam_legacy_ipset spec))) (\<lambda>flushed.
              if \<not> flushed then retP False else succeeds run (DestroySet (fam_legacy_ipset spec))))))"

section \<open>Replacing the content of a set\<close>

definition fill_set :: "'k runner \<Rightarrow> string \<Rightarrow> (string \<times> int) list \<Rightarrow> ('k, bool) scan_prog" where
  "fill_set run name members =
     bindP (mapP (\<lambda>(ip, timeout). add_to_ipset run name ip timeout) members) (\<lambda>results. retP (list_all (\<lambda>b. b) results))"

text \<open>From a new staging set on: fill it, put it in the place of the main set, drop the old content.\<close>

definition swap_family_ipset :: "'k runner \<Rightarrow> nat \<Rightarrow> ('k, bool) scan_prog" where
  "swap_family_ipset run v =
     (let staging = fam_sync_ipset (family_spec v); main = fam_ipset (family_spec v) in
      bindP (succeeds run (SwapSets staging main)) (\<lambda>swapped.
      if \<not> swapped then bindP (succeeds run (DestroySet staging)) (\<lambda>_. retP False)
      else succeeds run (DestroySet staging)))"

definition fill_family_ipset :: "'k runner \<Rightarrow> nat \<Rightarrow> (string \<times> int) list \<Rightarrow> ('k, bool) scan_prog" where
  "fill_family_ipset run v members =
     (let staging = fam_sync_ipset (family_spec v) in
      bindP (create_family_ipset run v staging) (\<lambda>created.
      if \<not> created then retP False
      else
        bindP (fill_set run staging members) (\<lambda>populated.
        if \<not> populated then bindP (succeeds run (DestroySet staging)) (\<lambda>_. retP False)
        else swap_family_ipset run v)))"

definition sync_family_ipset :: "'k runner \<Rightarrow> nat \<Rightarrow> (string \<times> int) list \<Rightarrow> ('k, bool) scan_prog" where
  "sync_family_ipset run v members =
     (let staging = fam_sync_ipset (family_spec v) in
      bindP (ipset_exists run staging) (\<lambda>found.
        case found of
          None \<Rightarrow> retP False
        | Some False \<Rightarrow> fill_family_ipset run v members
        | Some True \<Rightarrow>
            bindP (succeeds run (DestroySet staging)) (\<lambda>destroyed.
            if \<not> destroyed then retP False else fill_family_ipset run v members)))"

section \<open>The kernel after the file\<close>

text \<open>An entry of the family with a readable address.\<close>

definition family_entry :: "nat \<Rightarrow> string \<times> scan_entry \<Rightarrow> (string \<times> scan_record) option" where
  "family_entry v e =
     (case e of
        (raw, NotARecord) \<Rightarrow> None
      | (raw, Entry r) \<Rightarrow>
          (case scan_normalize_ip raw of
             Inl _ \<Rightarrow> None
           | Inr ip \<Rightarrow> if scan_ip_version ip = Inr v then Some (ip, r) else None))"

definition drop_expired :: "int \<Rightarrow> nat \<Rightarrow> string \<times> scan_entry \<Rightarrow> string \<times> scan_entry" where
  "drop_expired now v e =
     (case family_entry v e of
        None \<Rightarrow> e
      | Some (ip, r) \<Rightarrow> if ban_until r \<le> now then (fst e, Entry (r\<lparr>firewall_applied := False\<rparr>)) else e)"

text \<open>The key, the address and the seconds left of a ban that lasts.\<close>

definition family_record :: "int \<Rightarrow> nat \<Rightarrow> string \<times> scan_entry \<Rightarrow> (string \<times> string \<times> int) list" where
  "family_record now v e =
     (case family_entry v e of
        None \<Rightarrow> []
      | Some (ip, r) \<Rightarrow> if ban_until r \<le> now then [] else [(fst e, ip, max 1 ((ban_until r - now) div MICROS))])"

definition family_records :: "int \<Rightarrow> nat \<Rightarrow> scan_entries \<Rightarrow> (string \<times> string \<times> int) list" where
  "family_records now v d = concat (map (family_record now v) d)"

definition set_applied :: "string \<Rightarrow> bool \<Rightarrow> ('k, unit) scan_prog" where
  "set_applied raw applied = (\<lambda>st. case find_record st raw of
       None \<Rightarrow> (Inr (), st)
     | Some r \<Rightarrow> put_record raw (r\<lparr>firewall_applied := applied\<rparr>) st)"

definition sync_dry :: "'k runner \<Rightarrow> scan_settings \<Rightarrow> bool \<Rightarrow> (string \<times> string \<times> int) list \<Rightarrow> ('k, bool) scan_prog" where
  "sync_dry run cfg ready records =
     bindP (mapP (\<lambda>(raw, ip, timeout). bindP (firewall_add run cfg ip timeout) (\<lambda>applied.
         bindP (set_applied raw applied) (\<lambda>_. retP applied))) records)
       (\<lambda>results. retP (list_all (\<lambda>b. b) results \<and> ready))"

definition sync_kernel :: "'k runner \<Rightarrow> scan_settings \<Rightarrow> nat \<Rightarrow> bool \<Rightarrow> (string \<times> string \<times> int) list
    \<Rightarrow> ('k, bool) scan_prog" where
  "sync_kernel run cfg v ready records =
     bindP (if ready then sync_family_ipset run v (map snd records) else retP False) (\<lambda>family_ok.
     bindP (mapP (\<lambda>(raw, ip, timeout).
         bindP (if family_ok then retP True else firewall_contains run cfg ip) (\<lambda>applied. set_applied raw applied)) records)
       (\<lambda>_. if family_ok then remove_legacy_family run v else retP False))"

definition sync_family :: "'k runner \<Rightarrow> scan_settings \<Rightarrow> int \<Rightarrow> nat \<Rightarrow> ('k, bool) scan_prog" where
  "sync_family run cfg now v =
     bindP (ensure_family_infrastructure run cfg v) (\<lambda>ready.
     bindP (getsP (\<lambda>st. Inr (family_records now v (st_data st)))) (\<lambda>records.
     bindP (modifyP (\<lambda>st. st\<lparr>st_data := map (drop_expired now v) (st_data st)\<rparr>)) (\<lambda>_.
       if dry_run cfg then sync_dry run cfg ready records else sync_kernel run cfg v ready records)))"

definition sync_firewall_from_store :: "'k runner \<Rightarrow> scan_settings \<Rightarrow> int \<Rightarrow> ('k, bool) scan_prog" where
  "sync_firewall_from_store run cfg now =
     (if \<not> firewall_enabled cfg then retP False
      else state_lock
        (bindP (mapP (sync_family run cfg now) [4, 6]) (\<lambda>results.
         bindP save_unlocked (\<lambda>_. retP (list_all (\<lambda>b. b) results)))))"

section \<open>Attempts and bans\<close>

definition in_unban_grace :: "string \<Rightarrow> int \<Rightarrow> ('k, bool) scan_prog" where
  "in_unban_grace ip now = getsP (\<lambda>st. Inr (case find_record st ip of None \<Rightarrow> False | Some r \<Rightarrow> now < unban_grace_until r))"

definition normalized :: "string \<Rightarrow> (string \<Rightarrow> ('k, 'a) scan_prog) \<Rightarrow> ('k, 'a) scan_prog" where
  "normalized ip body = bindP (getsP (\<lambda>st. scan_normalize_ip ip)) (\<lambda>ip. state_lock (body ip))"

definition is_in_unban_grace :: "string \<Rightarrow> int \<Rightarrow> ('k, bool) scan_prog" where
  "is_in_unban_grace ip now = normalized ip (\<lambda>ip. in_unban_grace ip now)"

definition can_apply_firewall_ban :: "string \<Rightarrow> int \<Rightarrow> ('k, bool) scan_prog" where
  "can_apply_firewall_ban ip now = bindP (is_in_unban_grace ip now) (\<lambda>b. retP (\<not> b))"

text \<open>A ban that has run out is taken back.\<close>

definition expire_ban :: "'k runner \<Rightarrow> scan_settings \<Rightarrow> string \<Rightarrow> string \<Rightarrow> scan_record \<Rightarrow> ('k, unit) scan_prog" where
  "expire_ban run cfg key ip r =
     bindP (put_record key (r\<lparr>ban_until := 0, firewall_applied := False\<rparr>)) (\<lambda>_.
     bindP (firewall_remove run cfg ip) (\<lambda>_. retP ()))"

definition is_banned_locked :: "'k runner \<Rightarrow> scan_settings \<Rightarrow> int \<Rightarrow> string \<Rightarrow> ('k, bool) scan_prog" where
  "is_banned_locked run cfg now ip = (\<lambda>st.
     case find_record st ip of
       None \<Rightarrow> (Inr False, st)
     | Some r \<Rightarrow>
         if now < ban_until r then (Inr True, st)
         else if 0 < ban_until r
         then bindP (expire_ban run cfg ip ip r) (\<lambda>_. bindP save_unlocked (\<lambda>_. retP False)) st
         else (Inr False, st))"

definition is_banned :: "'k runner \<Rightarrow> scan_settings \<Rightarrow> string \<Rightarrow> int \<Rightarrow> ('k, bool) scan_prog" where
  "is_banned run cfg ip now = normalized ip (is_banned_locked run cfg now)"

definition get_ban_until :: "string \<Rightarrow> ('k, int) scan_prog" where
  "get_ban_until ip = normalized ip (\<lambda>ip. getsP (\<lambda>st. Inr (case find_record st ip of None \<Rightarrow> 0 | Some r \<Rightarrow> ban_until r)))"

definition prune_attempts_locked :: "int \<Rightarrow> int \<Rightarrow> string \<Rightarrow> ('k, int list) scan_prog" where
  "prune_attempts_locked window_seconds now ip =
     bindP (entry_unlocked ip) (\<lambda>r.
       let attempts = filter (\<lambda>t. now - window_seconds * MICROS \<le> t) (recent_attempts r) in
       bindP (put_record ip (r\<lparr>recent_attempts := attempts\<rparr>)) (\<lambda>_. retP attempts))"

definition prune_attempts :: "string \<Rightarrow> int \<Rightarrow> int \<Rightarrow> ('k, int list) scan_prog" where
  "prune_attempts ip window_seconds now = normalized ip (prune_attempts_locked window_seconds now)"

definition record_attempt_locked :: "int \<Rightarrow> int \<Rightarrow> string \<Rightarrow> ('k, nat) scan_prog" where
  "record_attempt_locked window_seconds now ip =
     bindP (prune_attempts_locked window_seconds now ip) (\<lambda>attempts.
     bindP (entry_unlocked ip) (\<lambda>r.
     bindP (put_record ip (r\<lparr>recent_attempts := attempts @ [now]\<rparr>)) (\<lambda>_.
     bindP save_unlocked (\<lambda>_. retP (length attempts + 1)))))"

definition record_attempt :: "string \<Rightarrow> int \<Rightarrow> int \<Rightarrow> ('k, nat) scan_prog" where
  "record_attempt ip window_seconds now = normalized ip (record_attempt_locked window_seconds now)"

definition touch_ip_blocked_locked :: "int \<Rightarrow> string \<Rightarrow> ('k, int) scan_prog" where
  "touch_ip_blocked_locked now ip =
     bindP (entry_unlocked ip) (\<lambda>r.
       case ip_blocked_since r of
         None \<Rightarrow> bindP (put_record ip (r\<lparr>ip_blocked_since := Some now\<rparr>)) (\<lambda>_. bindP save_unlocked (\<lambda>_. retP now))
       | Some since \<Rightarrow> retP since)"

definition touch_ip_blocked :: "string \<Rightarrow> int \<Rightarrow> ('k, int) scan_prog" where
  "touch_ip_blocked ip now = normalized ip (touch_ip_blocked_locked now)"

text \<open>What the caller of \<^verbatim>\<open>register_ban\<close> is told.\<close>

record ban_info =
  info_ip :: string
  info_strikes :: int
  info_ban_until :: int
  info_remaining_seconds :: int
  info_long_term :: bool
  info_firewall :: bool
  info_firewall_enabled :: bool

definition ban_length :: "scan_settings \<Rightarrow> int \<Rightarrow> int \<Rightarrow> int" where
  "ban_length cfg n short_ban_seconds =
     (if strikes_for_year cfg \<le> n then year_ban_seconds cfg else max 60 short_ban_seconds)"

definition banned_record :: "scan_settings \<Rightarrow> int \<Rightarrow> int \<Rightarrow> scan_record \<Rightarrow> scan_record" where
  "banned_record cfg short_ban_seconds now r =
     (let n = strikes r + 1 in
      r\<lparr>strikes := n, ip_blocked_since := None, recent_attempts := [], long_term := strikes_for_year cfg \<le> n,
        ban_until := now + ban_length cfg n short_ban_seconds * MICROS\<rparr>)"

definition ban_event :: "scan_settings \<Rightarrow> string \<Rightarrow> int \<Rightarrow> int \<Rightarrow> scan_record \<Rightarrow> bool \<Rightarrow> scan_event" where
  "ban_event cfg reason short_ban_seconds now r applied =
     \<lparr>ev_at = now, ev_reason = reason, ev_ban_seconds = ban_length cfg (strikes r + 1) short_ban_seconds,
      ev_strike = strikes r + 1, ev_long_term = strikes_for_year cfg \<le> strikes r + 1, ev_firewall = applied\<rparr>"

definition last_events :: "scan_event list \<Rightarrow> scan_event list" where
  "last_events evs = drop (length evs - 50) evs"

definition register_ban_locked ::
  "'k runner \<Rightarrow> scan_settings \<Rightarrow> string \<Rightarrow> int \<Rightarrow> int \<Rightarrow> string \<Rightarrow> ('k, ban_info option) scan_prog" where
  "register_ban_locked run cfg reason short_ban_seconds now ip =
     bindP (entry_unlocked ip) (\<lambda>r.
       if now < unban_grace_until r then retP None
       else
         let r1 = banned_record cfg short_ban_seconds now r in
         bindP (put_record ip r1) (\<lambda>_.
         bindP (firewall_add run cfg ip (ban_length cfg (strikes r1) short_ban_seconds)) (\<lambda>applied.
         bindP (put_record ip (r1\<lparr>firewall_applied := applied,
             scan_events := last_events (scan_events r1 @ [ban_event cfg reason short_ban_seconds now r applied])\<rparr>)) (\<lambda>_.
         bindP save_unlocked (\<lambda>_.
         retP (Some \<lparr>info_ip = ip, info_strikes = strikes r1, info_ban_until = ban_until r1,
           info_remaining_seconds = (ban_until r1 - now) div MICROS, info_long_term = long_term r1,
           info_firewall = applied, info_firewall_enabled = firewall_enabled cfg\<rparr>))))))"

definition register_ban ::
  "'k runner \<Rightarrow> scan_settings \<Rightarrow> string \<Rightarrow> string \<Rightarrow> int \<Rightarrow> int \<Rightarrow> ('k, ban_info option) scan_prog" where
  "register_ban run cfg ip reason short_ban_seconds now =
     normalized ip (register_ban_locked run cfg reason short_ban_seconds now)"

section \<open>Listing\<close>

record active_ban =
  ab_ip :: string
  ab_ban_until :: int
  ab_remaining_seconds :: int
  ab_strikes :: int
  ab_long_term :: bool
  ab_firewall_applied :: bool

text \<open>One entry: the ban it shows, if any, and whether it has been changed.\<close>

definition show_ban :: "'k runner \<Rightarrow> scan_settings \<Rightarrow> int \<Rightarrow> string \<Rightarrow> ('k, active_ban option \<times> bool) scan_prog" where
  "show_ban run cfg now raw = (\<lambda>st.
     case (find_record st raw, scan_normalize_ip raw) of
       (Some r, Inr ip) \<Rightarrow>
         if ban_until r \<le> now then
           (if 0 < ban_until r then bindP (expire_ban run cfg raw ip r) (\<lambda>_. retP (None, True)) st
            else (Inr (None, False), st))
         else
           bindP (firewall_contains run cfg ip) (\<lambda>applied.
           bindP (if firewall_applied r \<noteq> applied then put_record raw (r\<lparr>firewall_applied := applied\<rparr>) else retP ()) (\<lambda>_.
           retP (Some \<lparr>ab_ip = ip, ab_ban_until = ban_until r, ab_remaining_seconds = (ban_until r - now) div MICROS,
               ab_strikes = strikes r, ab_long_term = long_term r, ab_firewall_applied = applied\<rparr>,
             firewall_applied r \<noteq> applied))) st
     | _ \<Rightarrow> (Inr (None, False), st))"

definition get_active_bans :: "'k runner \<Rightarrow> scan_settings \<Rightarrow> int \<Rightarrow> ('k, active_ban list) scan_prog" where
  "get_active_bans run cfg now = state_lock (\<lambda>st.
     bindP (mapP (show_ban run cfg now) (keys (st_data st))) (\<lambda>results.
     bindP (if list_ex snd results then save_unlocked else retP ()) (\<lambda>_.
     retP (sort_key (\<lambda>b. - ab_ban_until b) (List.map_filter fst results)))) st)"

record grace_entry =
  ge_ip :: string
  ge_strikes :: int
  ge_remaining_seconds :: int

definition show_grace :: "int \<Rightarrow> string \<times> scan_entry \<Rightarrow> grace_entry option" where
  "show_grace now e =
     (case snd e of
        NotARecord \<Rightarrow> None
      | Entry r \<Rightarrow>
          if now < ban_until r \<or> unban_grace_until r \<le> now then None
          else Some \<lparr>ge_ip = fst e, ge_strikes = strikes r,
            ge_remaining_seconds = (unban_grace_until r - now) div MICROS\<rparr>)"

definition get_grace_entries :: "int \<Rightarrow> ('k, grace_entry list) scan_prog" where
  "get_grace_entries now = state_lock (getsP (\<lambda>st.
     Inr (sort_key (\<lambda>g. - ge_remaining_seconds g) (List.map_filter (show_grace now) (st_data st)))))"

record display_state =
  ds_active_bans :: "active_ban list"
  ds_grace_entries :: "grace_entry list"
  ds_has_firewall_entries :: bool
  ds_firewall_healthy :: bool

definition get_display_state :: "'k runner \<Rightarrow> scan_settings \<Rightarrow> int \<Rightarrow> ('k, display_state) scan_prog" where
  "get_display_state run cfg now =
     bindP (get_active_bans run cfg now) (\<lambda>bans.
     bindP (get_grace_entries now) (\<lambda>graces.
     bindP (if firewall_enabled cfg
            then bindP (family_infrastructure_present run cfg 4)
              (\<lambda>ok. if ok then family_infrastructure_present run cfg 6 else retP False)
            else retP False) (\<lambda>healthy.
     retP \<lparr>ds_active_bans = bans, ds_grace_entries = graces, ds_has_firewall_entries = (bans \<noteq> [] \<or> graces \<noteq> []),
       ds_firewall_healthy = (healthy \<and> list_all ab_firewall_applied bans)\<rparr>)))"

section \<open>Taking bans back\<close>

definition drop_set :: "'k runner \<Rightarrow> string \<Rightarrow> scan_command \<Rightarrow> ('k, bool) scan_prog" where
  "drop_set run name c =
     bindP (ipset_exists run name) (\<lambda>found.
       case found of None \<Rightarrow> retP False | Some False \<Rightarrow> retP True | Some True \<Rightarrow> succeeds run c)"

definition flush_family :: "'k runner \<Rightarrow> nat \<Rightarrow> ('k, bool) scan_prog" where
  "flush_family run v =
     bindP (drop_set run (fam_ipset (family_spec v)) (FlushSet (fam_ipset (family_spec v)))) (\<lambda>flushed.
     bindP (drop_set run (fam_sync_ipset (family_spec v)) (DestroySet (fam_sync_ipset (family_spec v)))) (\<lambda>destroyed.
     bindP (remove_legacy_family run v) (\<lambda>removed. retP (removed \<and> flushed \<and> destroyed))))"

definition flush_sets_locked :: "'k runner \<Rightarrow> scan_settings \<Rightarrow> ('k, bool) scan_prog" where
  "flush_sets_locked run cfg =
     (if \<not> firewall_enabled cfg then retP False
      else if dry_run cfg then retP True
      else bindP (mapP (flush_family run) [4, 6]) (\<lambda>results. retP (list_all (\<lambda>b. b) results)))"

definition flush_firewall_sets :: "'k runner \<Rightarrow> scan_settings \<Rightarrow> ('k, bool) scan_prog" where
  "flush_firewall_sets run cfg =
     (if firewall_enabled cfg \<and> \<not> dry_run cfg then state_lock (flush_sets_locked run cfg) else flush_sets_locked run cfg)"

definition released_record :: "scan_record \<Rightarrow> scan_record" where
  "released_record r = r\<lparr>ban_until := 0, long_term := False, recent_attempts := [], ip_blocked_since := None,
     firewall_applied := False\<rparr>"

definition remove_if_enabled :: "'k runner \<Rightarrow> scan_settings \<Rightarrow> string \<Rightarrow> ('k, bool) scan_prog" where
  "remove_if_enabled run cfg ip = (if firewall_enabled cfg then firewall_remove run cfg ip else retP True)"

definition release_firewall_locked :: "'k runner \<Rightarrow> scan_settings \<Rightarrow> string \<Rightarrow> ('k, bool) scan_prog" where
  "release_firewall_locked run cfg ip =
     bindP (remove_if_enabled run cfg ip) (\<lambda>removed.
     if \<not> removed then retP False
     else (\<lambda>st. case find_record st ip of
         None \<Rightarrow> (Inr True, st)
       | Some r \<Rightarrow> bindP (put_record ip (released_record r)) (\<lambda>_. bindP save_unlocked (\<lambda>_. retP True)) st))"

definition release_firewall_only :: "'k runner \<Rightarrow> scan_settings \<Rightarrow> string \<Rightarrow> ('k, bool) scan_prog" where
  "release_firewall_only run cfg ip = normalized ip (release_firewall_locked run cfg)"

definition unbanned_record :: "bool \<Rightarrow> int \<Rightarrow> scan_record \<Rightarrow> scan_record" where
  "unbanned_record clear_strikes grace_until r =
     (let r1 = (released_record r)\<lparr>unban_grace_until := grace_until\<rparr> in
      if clear_strikes then r1\<lparr>strikes := 0, scan_events := []\<rparr> else r1)"

definition unban_ip_locked ::
  "'k runner \<Rightarrow> scan_settings \<Rightarrow> bool \<Rightarrow> int \<Rightarrow> string \<Rightarrow> ('k, bool) scan_prog" where
  "unban_ip_locked run cfg clear_strikes grace_until ip =
     bindP (remove_if_enabled run cfg ip) (\<lambda>removed.
     if \<not> removed then retP False
     else
       bindP (entry_unlocked ip) (\<lambda>r.
       bindP (put_record ip (unbanned_record clear_strikes grace_until r)) (\<lambda>_.
       bindP save_unlocked (\<lambda>_. retP True))))"

definition grace_end :: "scan_settings \<Rightarrow> int option \<Rightarrow> int \<Rightarrow> int" where
  "grace_end cfg grace_seconds now =
     now + max 60 (case grace_seconds of None \<Rightarrow> unban_grace_seconds cfg | Some g \<Rightarrow> g) * MICROS"

definition unban_ip ::
  "'k runner \<Rightarrow> scan_settings \<Rightarrow> string \<Rightarrow> bool \<Rightarrow> int option \<Rightarrow> int \<Rightarrow> ('k, bool) scan_prog" where
  "unban_ip run cfg ip clear_strikes grace_seconds now =
     normalized ip (unban_ip_locked run cfg clear_strikes (grace_end cfg grace_seconds now))"

definition scan_clear_all :: "'k runner \<Rightarrow> scan_settings \<Rightarrow> ('k, bool) scan_prog" where
  "scan_clear_all run cfg = state_lock
     (bindP (if firewall_enabled cfg then flush_sets_locked run cfg else retP True) (\<lambda>flushed.
      if \<not> flushed then retP False
      else bindP (modifyP (\<lambda>st. st\<lparr>st_data := []\<rparr>)) (\<lambda>_. bindP save_unlocked (\<lambda>_. retP True))))"

end
