(* ===== verification/Triples.thy ===== *)
theory Triples
  imports Prelude
begin

text \<open>
  Triples for effectful programs: from every state with the precondition the program returns a
  value, without an exception, and value and state satisfy the postcondition.
\<close>

definition triple :: "('s \<Rightarrow> bool) \<Rightarrow> ('s, 'e, 'a) prog \<Rightarrow> ('a \<Rightarrow> 's \<Rightarrow> bool) \<Rightarrow> bool" where
  "triple P m Q \<longleftrightarrow> (\<forall>s. P s \<longrightarrow> (\<exists>x s'. m s = (Inr x, s') \<and> Q x s'))"

lemma tripleI: "(\<And>s. P s \<Longrightarrow> \<exists>x s'. m s = (Inr x, s') \<and> Q x s') \<Longrightarrow> triple P m Q"
  by (simp add: triple_def)

lemma tripleD: "triple P m Q \<Longrightarrow> P s \<Longrightarrow> m s = (Inr x, s') \<Longrightarrow> Q x s'"
  by (auto simp: triple_def)

lemma triple_returns: "triple P m Q \<Longrightarrow> P s \<Longrightarrow> \<exists>x s'. m s = (Inr x, s') \<and> Q x s'"
  by (simp add: triple_def)

lemma triple_bind:
  assumes "triple P m Q" and "\<And>x. triple (Q x) (f x) T"
  shows "triple P (bindP m f) T"
proof (rule tripleI)
  fix s
  assume "P s"
  then obtain x s1 where 1: "m s = (Inr x, s1)" "Q x s1" using triple_returns [OF assms(1)] by blast
  then obtain y s2 where "f x s1 = (Inr y, s2)" "T y s2" using triple_returns [OF assms(2)] by blast
  then show "\<exists>y s'. bindP m f s = (Inr y, s') \<and> T y s'" using 1 by auto
qed

lemma triple_ret: "(\<And>s. P s \<Longrightarrow> Q x s) \<Longrightarrow> triple P (retP x) Q"
  by (simp add: triple_def)

lemma triple_gets: "(\<And>s. P s \<Longrightarrow> \<exists>x. g s = Inr x \<and> Q x s) \<Longrightarrow> triple P (getsP g) Q"
  by (auto simp: triple_def)

lemma triple_modify: "(\<And>s. P s \<Longrightarrow> Q () (f s)) \<Longrightarrow> triple P (modifyP f) Q"
  by (simp add: triple_def)

lemma triple_weaken:
  "triple P' m Q' \<Longrightarrow> (\<And>s. P s \<Longrightarrow> P' s) \<Longrightarrow> (\<And>x s. Q' x s \<Longrightarrow> Q x s) \<Longrightarrow> triple P m Q"
  unfolding triple_def by meson

lemma triple_if:
  "(b \<Longrightarrow> triple P m Q) \<Longrightarrow> (\<not> b \<Longrightarrow> triple P m' Q) \<Longrightarrow> triple P (if b then m else m') Q"
  by simp

lemma triple_pre: "(\<And>s. P s \<Longrightarrow> triple (\<lambda>s'. s' = s) m Q) \<Longrightarrow> triple P m Q"
  by (simp add: triple_def)

text \<open>A loop: a predicate on the elements done with their values.\<close>

lemma triple_mapP:
  assumes "\<And>xs ys x. length ys = length xs \<Longrightarrow> triple (I xs ys) (f x) (\<lambda>y. I (xs @ [x]) (ys @ [y]))"
  shows "length vs = length us \<Longrightarrow> triple (I us vs) (mapP f zs) (\<lambda>ys. I (us @ zs) (vs @ ys))"
proof (induction zs arbitrary: us vs)
  case Nil
  show ?case by (simp only: mapP.simps) (rule triple_ret, simp)
next
  case (Cons z zs)
  have 1: "triple (I us vs) (f z) (\<lambda>y. I (us @ [z]) (vs @ [y]))" using Cons.prems by (rule assms)
  have 2: "triple (I (us @ [z]) (vs @ [y])) (mapP f zs) (\<lambda>ys. I (us @ z # zs) (vs @ y # ys))" for y
    using Cons.IH [of "vs @ [y]" "us @ [z]"] Cons.prems by simp
  show ?case
    by (simp only: mapP.simps)
      (rule triple_bind [OF 1], rule triple_bind [OF 2], rule triple_ret, simp)
qed

lemma triple_mapP_start:
  assumes "\<And>xs ys x. length ys = length xs \<Longrightarrow> triple (I xs ys) (f x) (\<lambda>y. I (xs @ [x]) (ys @ [y]))"
  shows "triple (I [] []) (mapP f zs) (I zs)"
  using triple_mapP [where I = I and f = f and us = "[]" and vs = "[]", OF assms] by simp

end
