(* ===== verification/ScannerFacts.thy ===== *)
theory ScannerFacts
  imports ScannerStore Triples
begin

text \<open>
  What \<^verbatim>\<open>ipset\<close> and \<^verbatim>\<open>iptables\<close> are relied on for, and what the operations of the scanner store do
  to the kernel under these assumptions.
\<close>

section \<open>The commands\<close>

text \<open>
  The kernel as the store sees it: the members of each set there is, and how many rules drop the
  packets from a set in each of the firewalls. Members that run out on their own are not counted.
\<close>

type_synonym kernel_view = "(string \<Rightarrow> string set option) \<times> (string \<Rightarrow> string \<Rightarrow> nat)"

fun command_law :: "scan_command \<Rightarrow> string \<Rightarrow> kernel_view \<Rightarrow> kernel_view \<Rightarrow> bool" where
  "command_law ListSets out (S, R) w \<longleftrightarrow> w = (S, R) \<and> set (splitlines out) = dom S"
| "command_law (CreateSet s fam) out (S, R) w \<longleftrightarrow> w = (if S s = None then S(s \<mapsto> {}) else S, R)"
| "command_law (AddMember s ip t) out (S, R) w \<longleftrightarrow> (\<exists>X. S s = Some X \<and> w = (S(s \<mapsto> insert ip X), R))"
| "command_law (DelMember s ip) out (S, R) w \<longleftrightarrow> (\<exists>X. S s = Some X \<and> w = (S(s \<mapsto> X - {ip}), R))"
| "command_law (TestMember s ip) out (S, R) w \<longleftrightarrow> (\<exists>X. S s = Some X \<and> ip \<in> X \<and> w = (S, R))"
| "command_law (FlushSet s) out (S, R) w \<longleftrightarrow> (\<exists>X. S s = Some X \<and> w = (S(s \<mapsto> {}), R))"
| "command_law (DestroySet s) out (S, R) w \<longleftrightarrow> (\<exists>X. S s = Some X \<and> w = (S(s := None), R))"
| "command_law (SwapSets s t) out (S, R) w \<longleftrightarrow>
     (\<exists>X Y. S s = Some X \<and> S t = Some Y \<and> w = (S(s \<mapsto> Y, t \<mapsto> X), R))"
| "command_law (CheckRule fw s) out (S, R) w \<longleftrightarrow> w = (S, R) \<and> 0 < R fw s"
| "command_law (InsertRule fw s) out (S, R) w \<longleftrightarrow> w = (S, R(fw := (R fw)(s := R fw s + 1)))"
| "command_law (DeleteRule fw s) out (S, R) w \<longleftrightarrow> 0 < R fw s \<and> w = (S, R(fw := (R fw)(s := R fw s - 1)))"

text \<open>
  A command that succeeds has its effect; one that fails has none, or has it after all when it was
  given up as too slow.
\<close>

definition kernel_laws :: "'k runner \<Rightarrow> ('k \<Rightarrow> kernel_view) \<Rightarrow> bool" where
  "kernel_laws run view \<longleftrightarrow> (\<forall>c k ok out k'. run (command_args c) k = ((ok, out), k') \<longrightarrow>
     (if ok then command_law c out (view k) (view k')
      else view k' = view k \<or> (\<exists>out'. command_law c out' (view k) (view k'))))"

text \<open>The store outside the kernel stays as it is.\<close>

definition at :: "('k \<Rightarrow> kernel_view) \<Rightarrow> kernel_view \<Rightarrow> scan_file \<Rightarrow> scan_entries \<Rightarrow> 'k scan_store \<Rightarrow> bool" where
  "at view w f d st \<longleftrightarrow> view (st_kernel st) = w \<and> st_file st = f \<and> st_data st = d"

lemma run_scan_command_triple:
  assumes "kernel_laws run view"
  shows "triple (at view w f d) (run_scan_command run c)
    (\<lambda>(ok, out) st. \<exists>w'. at view w' f d st \<and>
       (if ok then command_law c out w w' else w' = w \<or> (\<exists>out'. command_law c out' w w')))"
proof (rule tripleI)
  fix st :: "'a scan_store"
  assume a: "at view w f d st"
  obtain ok out k' where r: "run (command_args c) (st_kernel st) = ((ok, out), k')" by (metis surj_pair)
  have "if ok then command_law c out w (view k') else view k' = w \<or> (\<exists>out'. command_law c out' w (view k'))"
    using assms r a unfolding kernel_laws_def at_def by blast
  then show "\<exists>x s'. run_scan_command run c st = (Inr x, s') \<and>
      (case x of (ok, out) \<Rightarrow> \<lambda>st. \<exists>w'. at view w' f d st \<and>
         (if ok then command_law c out w w' else w' = w \<or> (\<exists>out'. command_law c out' w w'))) s'"
    using a r by (auto simp: run_scan_command_def at_def)
qed

lemma succeeds_triple:
  assumes "kernel_laws run view"
    and "\<And>out w'. command_law c out w w' \<Longrightarrow> Q True w'"
    and "Q False w" and "\<And>out w'. command_law c out w w' \<Longrightarrow> Q False w'"
  shows "triple (at view w f d) (succeeds run c) (\<lambda>ok st. \<exists>w'. at view w' f d st \<and> Q ok w')"
  unfolding succeeds_def
proof (rule triple_bind [OF run_scan_command_triple [OF assms(1)]], clarify)
  fix ok out
  show "triple (\<lambda>st. \<exists>w'. at view w' f d st \<and> (if ok then command_law c out w w' else w' = w \<or> (\<exists>out'. command_law c out' w w')))
      (retP ok) (\<lambda>ok st. \<exists>w'. at view w' f d st \<and> Q ok w')"
    using assms(2-4) by (intro triple_ret) (cases ok; fastforce)
qed

lemma ipset_exists_triple:
  assumes "kernel_laws run view"
  shows "triple (at view (S, R) f d) (ipset_exists run name)
    (\<lambda>found st. at view (S, R) f d st \<and> (found = None \<or> found = Some (S name \<noteq> None)))"
  unfolding ipset_exists_def
proof (rule triple_bind [OF run_scan_command_triple [OF assms]], clarify)
  fix ok out
  show "triple (\<lambda>st. \<exists>w'. at view w' f d st \<and> (if ok then command_law ListSets out (S, R) w'
        else w' = (S, R) \<or> (\<exists>out'. command_law ListSets out' (S, R) w')))
      (retP (if ok then Some (name \<in> set (splitlines out)) else None))
      (\<lambda>found st. at view (S, R) f d st \<and> (found = None \<or> found = Some (S name \<noteq> None)))"
    by (rule triple_ret) (auto split: if_splits)
qed

abbreviation seen :: "('k \<Rightarrow> kernel_view) \<Rightarrow> scan_file \<Rightarrow> scan_entries \<Rightarrow> (kernel_view \<Rightarrow> bool) \<Rightarrow> 'k scan_store \<Rightarrow> bool" where
  "seen view f d P st \<equiv> (\<exists>w. at view w f d st \<and> P w)"

lemma triple_seen: "(\<And>w. P w \<Longrightarrow> triple (at view w f d) m Q) \<Longrightarrow> triple (seen view f d P) m Q"
  by (auto simp: triple_def)

text \<open>Sequencing on what is seen of the kernel.\<close>

lemma seen_bind:
  assumes "triple (at view w f d) m (\<lambda>x. seen view f d (P x))"
    and "\<And>x w'. P x w' \<Longrightarrow> triple (at view w' f d) (g x) Q"
  shows "triple (at view w f d) (bindP m g) Q"
  by (rule triple_bind [OF assms(1)], rule triple_seen, rule assms(2))

lemma seen_ret: "P x w \<Longrightarrow> triple (at view w f d) (retP x) (\<lambda>x. seen view f d (P x))"
  by (rule triple_ret) blast

section \<open>Replacing the content of a set\<close>

definition frame :: "string set \<Rightarrow> kernel_view \<Rightarrow> kernel_view \<Rightarrow> bool" where
  "frame A w w' \<longleftrightarrow> snd w' = snd w \<and> (\<forall>n. n \<notin> A \<longrightarrow> fst w' n = fst w n)"

lemma frame_refl [simp]: "frame A w w"
  by (simp add: frame_def)

lemma frame_trans: "frame A w w' \<Longrightarrow> frame B w' w'' \<Longrightarrow> A \<subseteq> C \<Longrightarrow> B \<subseteq> C \<Longrightarrow> frame C w w''"
  unfolding frame_def by (metis subsetD)

lemma frame_weaken: "frame A w w' \<Longrightarrow> A \<subseteq> B \<Longrightarrow> frame B w w'"
  by (auto simp: frame_def)

lemma frame_out: "frame A w w' \<Longrightarrow> n \<notin> A \<Longrightarrow> fst w' n = fst w n"
  by (simp add: frame_def)

lemma law_frame:
  "command_law (CreateSet s fam) out w w' \<Longrightarrow> frame {s} w w'"
  "command_law (AddMember s ip t) out w w' \<Longrightarrow> frame {s} w w'"
  "command_law (DelMember s ip) out w w' \<Longrightarrow> frame {s} w w'"
  "command_law (FlushSet s) out w w' \<Longrightarrow> frame {s} w w'"
  "command_law (DestroySet s) out w w' \<Longrightarrow> frame {s} w w'"
  "command_law (SwapSets s u) out w w' \<Longrightarrow> frame {s, u} w w'"
  by (cases w; auto simp: frame_def)+

lemma law_effect:
  "command_law (CreateSet s fam) out w w' \<Longrightarrow> fst w' s = Some (case fst w s of None \<Rightarrow> {} | Some X \<Rightarrow> X)"
  "command_law (AddMember s ip t) out w w' \<Longrightarrow> \<exists>X. fst w s = Some X \<and> fst w' s = Some (insert ip X)"
  "command_law (DelMember s ip) out w w' \<Longrightarrow> \<exists>X. fst w s = Some X \<and> fst w' s = Some (X - {ip})"
  "command_law (FlushSet s) out w w' \<Longrightarrow> fst w' s = Some {}"
  "command_law (DestroySet s) out w w' \<Longrightarrow> fst w' s = None"
  "command_law (SwapSets s u) out w w' \<Longrightarrow> s \<noteq> u \<Longrightarrow> fst w' s = fst w u \<and> fst w' u = fst w s"
  by (cases w; auto)+

lemma fill_set_triple:
  assumes laws: "kernel_laws run view" and start: "fst w G = Some {}"
  shows "triple (at view w f d) (fill_set run G members)
    (\<lambda>ok. seen view f d (\<lambda>w'. frame {G} w w' \<and> (ok \<longrightarrow> fst w' G = Some (fst ` set members))))"
proof -
  define I where "I = (\<lambda>(xs :: (string \<times> int) list) ys. seen view f d (\<lambda>w'. frame {G} w w' \<and>
      (list_all (\<lambda>b. b) ys \<longrightarrow> fst w' G = Some (fst ` set xs))))"
  have step: "triple (I xs ys) ((\<lambda>(ip, timeout). add_to_ipset run G ip timeout) x) (\<lambda>y. I (xs @ [x]) (ys @ [y]))"
    for xs ys x
  proof -
    obtain ip t where x: "x = (ip, t)" by fastforce
    show ?thesis
      unfolding I_def x prod.case add_to_ipset_def
    proof (rule triple_seen)
      fix w1
      assume w1: "frame {G} w w1 \<and> (list_all (\<lambda>b. b) ys \<longrightarrow> fst w1 G = Some (fst ` set xs))"
      show "triple (at view w1 f d) (succeeds run (AddMember G ip t)) (\<lambda>y. seen view f d (\<lambda>w'. frame {G} w w' \<and>
          (list_all (\<lambda>b. b) (ys @ [y]) \<longrightarrow> fst w' G = Some (fst ` set (xs @ [(ip, t)])))))"
      proof (rule succeeds_triple [OF laws])
        fix out w'
        assume a: "command_law (AddMember G ip t) out w1 w'"
        have fr: "frame {G} w w'" by (rule frame_trans [OF conjunct1 [OF w1] law_frame(2) [OF a]]) auto
        then show "frame {G} w w' \<and> (list_all (\<lambda>b. b) (ys @ [True]) \<longrightarrow> fst w' G = Some (fst ` set (xs @ [(ip, t)])))"
          using w1 law_effect(2) [OF a] by auto
        show "frame {G} w w' \<and> (list_all (\<lambda>b. b) (ys @ [False]) \<longrightarrow> fst w' G = Some (fst ` set (xs @ [(ip, t)])))"
          using fr by simp
      qed (use w1 in simp)
    qed
  qed
  have "triple (I [] []) (mapP (\<lambda>(ip, timeout). add_to_ipset run G ip timeout) members) (I members)"
    by (rule triple_mapP_start) (rule step)
  then have "triple (at view w f d) (mapP (\<lambda>(ip, timeout). add_to_ipset run G ip timeout) members) (I members)"
    by (rule triple_weaken) (unfold I_def, use start in \<open>fastforce simp del: split_paired_Ex\<close>, assumption)
  then show ?thesis
    unfolding fill_set_def by (rule triple_bind) (auto simp: I_def intro!: triple_ret)
qed

definition main_set :: "nat \<Rightarrow> string" where "main_set v = fam_ipset (family_spec v)"
definition staging_set :: "nat \<Rightarrow> string" where "staging_set v = fam_sync_ipset (family_spec v)"
definition legacy_set :: "nat \<Rightarrow> string" where "legacy_set v = fam_legacy_ipset (family_spec v)"

lemma set_names_differ [simp]:
  "staging_set v \<noteq> main_set u" "legacy_set v \<noteq> main_set u" "legacy_set v \<noteq> staging_set u"
  "main_set u \<noteq> staging_set v" "main_set u \<noteq> legacy_set v" "staging_set u \<noteq> legacy_set v"
  by (simp_all add: main_set_def staging_set_def legacy_set_def family_spec_def FIREWALL_FAMILY_4_def
      FIREWALL_FAMILY_6_def)

lemma set_names_inj [simp]:
  "main_set 4 \<noteq> main_set 6" "main_set 6 \<noteq> main_set 4" "staging_set 4 \<noteq> staging_set 6" "staging_set 6 \<noteq> staging_set 4"
  "legacy_set 4 \<noteq> legacy_set 6" "legacy_set 6 \<noteq> legacy_set 4"
  by (simp_all add: main_set_def staging_set_def legacy_set_def family_spec_def FIREWALL_FAMILY_4_def
      FIREWALL_FAMILY_6_def)

text \<open>Whatever happens, the main set holds its old members or all the new ones.\<close>

definition replaced :: "nat \<Rightarrow> string set \<Rightarrow> kernel_view \<Rightarrow> bool \<Rightarrow> kernel_view \<Rightarrow> bool" where
  "replaced v ips w ok w' \<longleftrightarrow> frame {main_set v, staging_set v} w w'
     \<and> (fst w' (main_set v) = fst w (main_set v) \<or> fst w' (main_set v) = Some ips)
     \<and> (ok \<longrightarrow> fst w' (main_set v) = Some ips \<and> fst w' (staging_set v) = None)"

lemma replaced_step:
  "frame {staging_set v} w w1 \<Longrightarrow> replaced v ips w1 ok w2 \<Longrightarrow> replaced v ips w ok w2"
  using frame_out [of "{staging_set v}" w w1 "main_set v"]
  by (auto simp: replaced_def intro: frame_trans)

lemma replaced_keep: "frame {staging_set v} w w1 \<Longrightarrow> replaced v ips w False w1"
  using frame_out [of "{staging_set v}" w w1 "main_set v"]
  by (auto simp: replaced_def intro: frame_weaken)

lemma destroy_triple:
  assumes "kernel_laws run view"
  shows "triple (at view w f d) (succeeds run (DestroySet s))
    (\<lambda>ok. seen view f d (\<lambda>w'. frame {s} w w' \<and> (ok \<longrightarrow> fst w' s = None)))"
  by (rule succeeds_triple [OF assms]) (auto dest: law_frame(5) law_effect(5))

lemma swap_triple:
  assumes laws: "kernel_laws run view" and "fst w (staging_set v) = Some ips"
  shows "triple (at view w f d) (swap_family_ipset run v) (\<lambda>ok. seen view f d (replaced v ips w ok))"
proof -
  let ?G = "staging_set v" and ?M = "main_set v"
  have swap: "triple (at view w f d) (succeeds run (SwapSets ?G ?M)) (\<lambda>ok. seen view f d (\<lambda>w'.
      frame {?M, ?G} w w' \<and> (fst w' ?M = fst w ?M \<or> fst w' ?M = Some ips) \<and> (ok \<longrightarrow> fst w' ?M = Some ips)))"
    using assms(2)
    by (intro succeeds_triple [OF laws])
      (auto dest: law_effect(6) intro: frame_weaken [OF law_frame(6)])
  have "replaced v ips w False w2" if "frame {?M, ?G} w w1 \<and> (fst w1 ?M = fst w ?M \<or> fst w1 ?M = Some ips)"
    "frame {?G} w1 w2" for w1 w2
    using that frame_out [OF that(2), of ?M] by (auto simp: replaced_def intro: frame_trans)
  moreover have "replaced v ips w ok w2" if "frame {?M, ?G} w w1" "fst w1 ?M = Some ips"
    "frame {?G} w1 w2" "ok \<longrightarrow> fst w2 ?G = None" for w1 w2 ok
    using that frame_out [OF that(3), of ?M] by (auto simp: replaced_def intro: frame_trans)
  ultimately show ?thesis
    unfolding swap_family_ipset_def Let_def main_set_def [symmetric] staging_set_def [symmetric]
    apply (intro seen_bind [OF swap] triple_if)
     apply (rule seen_bind [OF destroy_triple [OF laws]])
     apply (rule seen_ret)
     apply blast
    apply (rule triple_weaken [OF destroy_triple [OF laws]])
     apply assumption
    apply blast
    done
qed

lemma fill_family_triple:
  assumes laws: "kernel_laws run view" and start: "fst w (staging_set v) = None"
  shows "triple (at view w f d) (fill_family_ipset run v members)
    (\<lambda>ok. seen view f d (replaced v (fst ` set members) w ok))"
proof -
  let ?G = "staging_set v" and ?ips = "fst ` set members"
  have create: "triple (at view w f d) (create_family_ipset run v ?G)
      (\<lambda>ok. seen view f d (\<lambda>w'. frame {?G} w w' \<and> (ok \<longrightarrow> fst w' ?G = Some {})))"
    unfolding create_family_ipset_def
    by (rule succeeds_triple [OF laws]) (use start in \<open>auto dest: law_frame(1) law_effect(1)\<close>)
  show ?thesis
    unfolding fill_family_ipset_def Let_def staging_set_def [symmetric]
  proof (rule seen_bind [OF create], rule triple_if)
    fix created w1
    assume w1: "frame {?G} w w1 \<and> (created \<longrightarrow> fst w1 ?G = Some {})"
    show "triple (at view w1 f d) (retP False) (\<lambda>ok. seen view f d (replaced v ?ips w ok))"
      by (rule seen_ret) (use w1 replaced_keep in blast)
    assume "\<not> \<not> created"
    then have e: "fst w1 ?G = Some {}" using w1 by simp
    show "triple (at view w1 f d) (bindP (fill_set run ?G members) (\<lambda>populated.
        if \<not> populated then bindP (succeeds run (DestroySet ?G)) (\<lambda>_. retP False) else swap_family_ipset run v))
      (\<lambda>ok. seen view f d (replaced v ?ips w ok))"
    proof (rule seen_bind [OF fill_set_triple [where G = ?G and members = members, OF laws e]], rule triple_if)
      fix populated w2
      assume w2: "frame {?G} w1 w2 \<and> (populated \<longrightarrow> fst w2 ?G = Some ?ips)"
      then have fr: "frame {?G} w w2" using w1 by (blast intro: frame_trans)
      show "triple (at view w2 f d) (bindP (succeeds run (DestroySet ?G)) (\<lambda>_. retP False))
          (\<lambda>ok. seen view f d (replaced v ?ips w ok))"
      proof (rule seen_bind [OF destroy_triple [OF laws]], rule seen_ret)
        fix b w3
        assume "frame {?G} w2 w3 \<and> (b \<longrightarrow> fst w3 ?G = None)"
        then have "frame {?G} w w3" using fr by (blast intro: frame_trans)
        then show "replaced v ?ips w False w3" by (rule replaced_keep)
      qed
      assume "\<not> \<not> populated"
      then have "fst w2 ?G = Some ?ips" using w2 by simp
      from swap_triple [OF laws this] show "triple (at view w2 f d) (swap_family_ipset run v)
          (\<lambda>ok. seen view f d (replaced v ?ips w ok))"
        by (rule triple_weaken) (assumption, use replaced_step [OF fr] in blast)
    qed
  qed
qed

lemma sync_family_ipset_triple:
  assumes laws: "kernel_laws run view"
  shows "triple (at view w f d) (sync_family_ipset run v members)
    (\<lambda>ok. seen view f d (replaced v (fst ` set members) w ok))"
proof -
  let ?G = "staging_set v" and ?ips = "fst ` set members"
  obtain S R where w: "w = (S, R)" by fastforce
  have found: "triple (at view w f d) (ipset_exists run ?G)
      (\<lambda>x. seen view f d (\<lambda>w'. w' = w \<and> (x = None \<or> x = Some (fst w ?G \<noteq> None))))"
    by (rule triple_weaken [OF ipset_exists_triple [OF laws, of S R f d ?G]]) (auto simp: w simp del: split_paired_Ex)
  show ?thesis
    unfolding sync_family_ipset_def Let_def staging_set_def [symmetric]
  proof (rule seen_bind [OF found])
    fix x w0
    assume x: "w0 = w \<and> (x = None \<or> x = Some (fst w ?G \<noteq> None))"
    show "triple (at view w0 f d) (case x of None \<Rightarrow> retP False | Some True \<Rightarrow>
          bindP (succeeds run (DestroySet ?G)) (\<lambda>destroyed. if \<not> destroyed then retP False else fill_family_ipset run v members)
        | Some False \<Rightarrow> fill_family_ipset run v members)
      (\<lambda>ok. seen view f d (replaced v ?ips w ok))"
    proof (cases x)
      case None
      have "replaced v ?ips w False w" by (rule replaced_keep) simp
      then show ?thesis using x None by (simp only: option.case) (rule seen_ret, simp)
    next
      case (Some b)
      have w0: "w0 = w" using x by simp
      show ?thesis
      proof (cases b)
        case False
        then have "fst w ?G = None" using x Some by auto
        from fill_family_triple [OF laws this] show ?thesis using Some False w0 by simp
      next
        case True
        have "triple (at view w f d) (bindP (succeeds run (DestroySet ?G))
            (\<lambda>destroyed. if \<not> destroyed then retP False else fill_family_ipset run v members))
          (\<lambda>ok. seen view f d (replaced v ?ips w ok))"
        proof (rule seen_bind [OF destroy_triple [OF laws]], rule triple_if)
          fix destroyed w1
          assume w1: "frame {?G} w w1 \<and> (destroyed \<longrightarrow> fst w1 ?G = None)"
          show "triple (at view w1 f d) (retP False) (\<lambda>ok. seen view f d (replaced v ?ips w ok))"
            by (rule seen_ret) (use w1 replaced_keep in blast)
          assume "\<not> \<not> destroyed"
          then have "fst w1 ?G = None" using w1 by simp
          from fill_family_triple [OF laws this] show "triple (at view w1 f d) (fill_family_ipset run v members)
              (\<lambda>ok. seen view f d (replaced v ?ips w ok))"
            by (rule triple_weaken) (assumption, use replaced_step [OF conjunct1 [OF w1]] in blast)
        qed
        then show ?thesis using Some True w0 by simp
      qed
    qed
  qed
qed

section \<open>Rules and the sets of earlier versions\<close>

text \<open>Only the sets in \<open>A\<close> and the rules on the sets in \<open>B\<close> change.\<close>

definition frame2 :: "string set \<Rightarrow> string set \<Rightarrow> kernel_view \<Rightarrow> kernel_view \<Rightarrow> bool" where
  "frame2 A B w w' \<longleftrightarrow> (\<forall>n. n \<notin> A \<longrightarrow> fst w' n = fst w n) \<and> (\<forall>fw n. n \<notin> B \<longrightarrow> snd w' fw n = snd w fw n)"

lemma frame2_refl [simp]: "frame2 A B w w"
  by (simp add: frame2_def)

lemma frame2_trans: "frame2 A B w w' \<Longrightarrow> frame2 A B w' w'' \<Longrightarrow> frame2 A B w w''"
  by (simp add: frame2_def)

lemma frame2_weaken: "frame2 A B w w' \<Longrightarrow> A \<subseteq> A' \<Longrightarrow> B \<subseteq> B' \<Longrightarrow> frame2 A' B' w w'"
  unfolding frame2_def by (meson subsetD)

lemma frame_frame2: "frame A w w' \<Longrightarrow> frame2 A {} w w'"
  by (simp add: frame_def frame2_def)

lemma law_frame2:
  "command_law (InsertRule fw s) out w w' \<Longrightarrow> frame2 {} {s} w w' \<and> 0 < snd w' fw s"
  "command_law (DeleteRule fw s) out w w' \<Longrightarrow> frame2 {} {s} w w'"
  "command_law (CheckRule fw s) out w w' \<Longrightarrow> w' = w \<and> 0 < snd w fw s"
  "command_law (TestMember s ip) out w w' \<Longrightarrow> w' = w \<and> (\<exists>X. fst w s = Some X \<and> ip \<in> X)"
  by (cases w; auto simp: frame2_def)+

lemma check_triple:
  assumes "kernel_laws run view"
  shows "triple (at view w f d) (succeeds run (CheckRule fw s))
    (\<lambda>ok. seen view f d (\<lambda>w'. w' = w \<and> (ok \<longrightarrow> 0 < snd w fw s)))"
  by (rule succeeds_triple [OF assms]) (use law_frame2(3) in blast)+

lemma delete_rules_triple:
  assumes laws: "kernel_laws run view"
  shows "triple (at view w f d) (delete_legacy_rules run n fw s) (\<lambda>ok. seen view f d (frame2 {} {s} w))"
proof (induction n arbitrary: w)
  case 0
  then show ?case by (simp only: delete_legacy_rules.simps) (rule seen_ret, simp)
next
  case (Suc n)
  have del: "triple (at view w f d) (succeeds run (DeleteRule fw s)) (\<lambda>ok. seen view f d (frame2 {} {s} w))" for w
    by (rule succeeds_triple [OF laws]) (use law_frame2(2) frame2_refl in blast)+
  show ?case
    unfolding delete_legacy_rules.simps
  proof (rule seen_bind [OF check_triple [OF laws]], rule triple_if)
    fix found w1
    assume w1: "w1 = w \<and> (found \<longrightarrow> 0 < snd w fw s)"
    show "triple (at view w1 f d) (retP True) (\<lambda>ok. seen view f d (frame2 {} {s} w))"
      by (rule seen_ret) (use w1 in simp)
    show "triple (at view w1 f d) (bindP (succeeds run (DeleteRule fw s))
        (\<lambda>deleted. if \<not> deleted then retP False else delete_legacy_rules run n fw s)) (\<lambda>ok. seen view f d (frame2 {} {s} w))"
    proof (rule seen_bind [OF del], rule triple_if)
      fix deleted w2
      assume w2: "frame2 {} {s} w1 w2"
      then have fr: "frame2 {} {s} w w2" using w1 by simp
      show "triple (at view w2 f d) (retP False) (\<lambda>ok. seen view f d (frame2 {} {s} w))"
        by (rule seen_ret) (rule fr)
      show "triple (at view w2 f d) (delete_legacy_rules run n fw s) (\<lambda>ok. seen view f d (frame2 {} {s} w))"
        by (rule triple_weaken [OF Suc.IH]) (assumption, use fr frame2_trans in blast)
    qed
  qed
qed

lemma delete_all_rules_triple:
  assumes laws: "kernel_laws run view"
  shows "triple (at view w f d) (delete_all_rules run fws s) (\<lambda>ok. seen view f d (frame2 {} {s} w))"
proof (induction fws arbitrary: w)
  case Nil
  then show ?case by (simp only: delete_all_rules.simps) (rule seen_ret, simp)
next
  case (Cons fw fws)
  show ?case
    unfolding delete_all_rules.simps
  proof (rule seen_bind [OF delete_rules_triple [OF laws]], rule triple_if)
    fix ok w1
    assume w1: "frame2 {} {s} w w1"
    show "triple (at view w1 f d) (delete_all_rules run fws s) (\<lambda>ok. seen view f d (frame2 {} {s} w))"
      by (rule triple_weaken [OF Cons.IH]) (assumption, use w1 frame2_trans in blast)
    show "triple (at view w1 f d) (retP False) (\<lambda>ok. seen view f d (frame2 {} {s} w))"
      by (rule seen_ret) (rule w1)
  qed
qed

lemma remove_legacy_triple:
  assumes laws: "kernel_laws run view"
  shows "triple (at view w f d) (remove_legacy_family run v)
    (\<lambda>ok. seen view f d (\<lambda>w'. frame2 {legacy_set v} {legacy_set v} w w' \<and> (ok \<longrightarrow> fst w' (legacy_set v) = None)))"
proof -
  let ?L = "legacy_set v" and ?Q = "\<lambda>ok w'. frame2 {legacy_set v} {legacy_set v} w w' \<and> (ok \<longrightarrow> fst w' (legacy_set v) = None)"
  obtain S R where w: "w = (S, R)" by fastforce
  have found: "triple (at view w f d) (ipset_exists run ?L)
      (\<lambda>x. seen view f d (\<lambda>w'. w' = w \<and> (x = None \<or> x = Some (fst w ?L \<noteq> None))))"
    by (rule triple_weaken [OF ipset_exists_triple [OF laws, of S R f d ?L]]) (auto simp: w simp del: split_paired_Ex)
  have flush: "triple (at view w f d) (succeeds run (FlushSet ?L)) (\<lambda>ok. seen view f d (frame {?L} w))" for w
    by (rule succeeds_triple [OF laws]) (use law_frame(4) frame_refl in blast)+
  have stay: "triple (at view w1 f d) (retP False) (\<lambda>ok. seen view f d (?Q ok))" if "frame2 {?L} {?L} w w1" for w1
    by (rule seen_ret) (use that in simp)
  show ?thesis
    unfolding remove_legacy_family_def Let_def legacy_set_def [symmetric]
  proof (rule seen_bind [OF found])
    fix x w0
    assume x: "w0 = w \<and> (x = None \<or> x = Some (fst w ?L \<noteq> None))"
    let ?del = "bindP (delete_all_rules run (fam_firewall (family_spec v) # (if v = 6 then [''iptables''] else [])) ?L)
        (\<lambda>deleted. if \<not> deleted then retP False
          else bindP (succeeds run (FlushSet ?L)) (\<lambda>flushed. if \<not> flushed then retP False else succeeds run (DestroySet ?L)))"
    show "triple (at view w0 f d) (case x of None \<Rightarrow> retP False | Some True \<Rightarrow> ?del | Some False \<Rightarrow> retP True)
        (\<lambda>ok. seen view f d (?Q ok))"
    proof (cases x)
      case None
      then show ?thesis using stay [of w] x by simp
    next
      case (Some b)
      have w0: "w0 = w" using x by simp
      show ?thesis
      proof (cases b)
        case False
        then have "fst w ?L = None" using x Some by auto
        then have "triple (at view w f d) (retP True) (\<lambda>ok. seen view f d (?Q ok))" by (intro seen_ret) simp
        then show ?thesis using Some False w0 by simp
      next
        case True
        have "triple (at view w f d) ?del (\<lambda>ok. seen view f d (?Q ok))"
        proof (rule seen_bind [OF delete_all_rules_triple [OF laws]], rule triple_if)
          fix deleted w1
          assume "frame2 {} {?L} w w1"
          then have w1: "frame2 {?L} {?L} w w1" by (rule frame2_weaken) simp_all
          show "triple (at view w1 f d) (retP False) (\<lambda>ok. seen view f d (?Q ok))" by (rule stay [OF w1])
          show "triple (at view w1 f d) (bindP (succeeds run (FlushSet ?L))
              (\<lambda>flushed. if \<not> flushed then retP False else succeeds run (DestroySet ?L))) (\<lambda>ok. seen view f d (?Q ok))"
          proof (rule seen_bind [OF flush], rule triple_if)
            fix flushed w2
            assume "frame {?L} w1 w2"
            then have "frame2 {?L} {?L} w1 w2" using frame_frame2 frame2_weaken by blast
            then have w2: "frame2 {?L} {?L} w w2" using w1 frame2_trans by blast
            show "triple (at view w2 f d) (retP False) (\<lambda>ok. seen view f d (?Q ok))" by (rule stay [OF w2])
            show "triple (at view w2 f d) (succeeds run (DestroySet ?L)) (\<lambda>ok. seen view f d (?Q ok))"
            proof (rule triple_weaken [OF destroy_triple [OF laws]])
              fix ok st
              assume "seen view f d (\<lambda>w'. frame {?L} w2 w' \<and> (ok \<longrightarrow> fst w' ?L = None)) st"
              then obtain w3 where w3: "at view w3 f d st" "frame {?L} w2 w3" "ok \<longrightarrow> fst w3 ?L = None" by blast
              have "frame2 {?L} {?L} w2 w3" using w3(2) frame_frame2 frame2_weaken by blast
              then have "frame2 {?L} {?L} w w3" using w2 frame2_trans by blast
              then show "seen view f d (?Q ok) st" using w3 by blast
            qed
          qed
        qed
        then show ?thesis using Some True w0 by simp
      qed
    qed
  qed
qed

lemma ensure_family_triple:
  assumes laws: "kernel_laws run view" and on: "firewall_enabled cfg" "\<not> dry_run cfg"
  shows "triple (at view w f d) (ensure_family_infrastructure run cfg v)
    (\<lambda>ok. seen view f d (\<lambda>w'. frame2 {main_set v} {main_set v} w w'
       \<and> fst w' (main_set v) \<in> {fst w (main_set v), Some (case fst w (main_set v) of None \<Rightarrow> {} | Some X \<Rightarrow> X)}
       \<and> (ok \<longrightarrow> 0 < snd w' (fam_firewall (family_spec v)) (main_set v))))"
proof -
  let ?M = "main_set v" and ?fw = "fam_firewall (family_spec v)"
  let ?old = "\<lambda>w'. fst w' ?M \<in> {fst w ?M, Some (case fst w ?M of None \<Rightarrow> {} | Some X \<Rightarrow> X)}"
  let ?Q = "\<lambda>ok w'. frame2 {?M} {?M} w w' \<and> ?old w' \<and> (ok \<longrightarrow> 0 < snd w' ?fw ?M)"
  have create: "triple (at view w f d) (create_family_ipset run v ?M) (\<lambda>ok. seen view f d (\<lambda>w'. frame {?M} w w' \<and> ?old w'))"
    unfolding create_family_ipset_def
    by (rule succeeds_triple [OF laws]) (use law_frame(1) law_effect(1) frame_refl in blast)+
  have body: "ensure_family_infrastructure run cfg v = bindP (create_family_ipset run v ?M) (\<lambda>created.
      if \<not> created then retP False
      else bindP (succeeds run (CheckRule ?fw ?M)) (\<lambda>found. if found then retP True else succeeds run (InsertRule ?fw ?M)))"
    unfolding ensure_family_infrastructure_def main_set_def using on by simp
  show ?thesis
    unfolding body
  proof (rule seen_bind [OF create], rule triple_if)
    fix created w1
    assume w1: "frame {?M} w w1 \<and> ?old w1"
    then have fr: "frame2 {?M} {?M} w w1" using frame_frame2 frame2_weaken by blast
    show "triple (at view w1 f d) (retP False) (\<lambda>ok. seen view f d (?Q ok))"
      by (rule seen_ret) (use fr w1 in simp)
    show "triple (at view w1 f d) (bindP (succeeds run (CheckRule ?fw ?M))
        (\<lambda>found. if found then retP True else succeeds run (InsertRule ?fw ?M))) (\<lambda>ok. seen view f d (?Q ok))"
    proof (rule seen_bind [OF check_triple [OF laws]], rule triple_if)
      fix found w2
      assume w2: "w2 = w1 \<and> (found \<longrightarrow> 0 < snd w1 ?fw ?M)"
      show "triple (at view w2 f d) (retP True) (\<lambda>ok. seen view f d (?Q ok))" if found
        by (rule seen_ret) (use fr w1 w2 that in simp)
      have ins: "frame2 {?M} {?M} w w' \<and> ?old w' \<and> 0 < snd w' ?fw ?M" if "command_law (InsertRule ?fw ?M) out w1 w'" for out w'
      proof -
        have "frame2 {} {?M} w1 w'" "0 < snd w' ?fw ?M" using law_frame2(1) [OF that] by blast+
        moreover from this(1) have "frame2 {?M} {?M} w w'" using fr frame2_trans frame2_weaken by blast
        moreover have "fst w' ?M = fst w1 ?M" using calculation(1) by (simp add: frame2_def)
        ultimately show ?thesis using w1 by simp
      qed
      show "triple (at view w2 f d) (succeeds run (InsertRule ?fw ?M)) (\<lambda>ok. seen view f d (?Q ok))"
        by (rule succeeds_triple [OF laws]) (use w2 ins fr w1 in auto)
    qed
  qed
qed

end
