(* ===== verification/ScannerSync.thy ===== *)
theory ScannerSync
  imports ScannerFacts
begin

text \<open>
  The kernel after the file: a successful synchronisation makes the sets hold exactly the bans that
  last, and none ever leaves a set half filled.
\<close>

section \<open>The entries but for the mark of the firewall\<close>

definition plain_record :: "scan_record \<Rightarrow> scan_record" where
  "plain_record r = r\<lparr>firewall_applied := False\<rparr>"

fun plain_entry :: "scan_entry \<Rightarrow> scan_entry" where
  "plain_entry (Entry r) = Entry (plain_record r)"
| "plain_entry NotARecord = NotARecord"

definition plain_data :: "scan_entries \<Rightarrow> scan_entries" where
  "plain_data d = map (\<lambda>(k, e). (k, plain_entry e)) d"

lemma ban_until_plain [simp]: "ban_until (plain_record r) = ban_until r"
  by (simp add: plain_record_def)

lemma plain_applied [simp]: "plain_record (r\<lparr>firewall_applied := b\<rparr>) = plain_record r"
  by (simp add: plain_record_def)

lemma family_entry_plain:
  "family_entry v (k, plain_entry e) = map_option (\<lambda>(ip, r). (ip, plain_record r)) (family_entry v (k, e))"
  by (cases e) (auto simp: family_entry_def split: sum.splits)

lemma family_record_plain: "family_record now v (k, plain_entry e) = family_record now v (k, e)"
  by (simp add: family_record_def family_entry_plain split: option.splits prod.splits)

lemma family_records_plain: "family_records now v (plain_data d) = family_records now v d"
  by (induction d) (auto simp: family_records_def plain_data_def family_record_plain)

lemma plain_drop_expired [simp]: "plain_data (map (drop_expired now v) d) = plain_data d"
proof (induction d)
  case (Cons e d)
  obtain k x where e: "e = (k, x)" by fastforce
  have "plain_data [drop_expired now v e] = plain_data [e]"
    by (cases x) (auto simp: plain_data_def drop_expired_def family_entry_def e split: option.splits sum.splits if_splits)
  then show ?case using Cons by (simp add: plain_data_def)
qed (simp add: plain_data_def)

lemma plain_update:
  "map_of d k = Some (Entry r) \<Longrightarrow> plain_data (AList.update k (Entry (r\<lparr>firewall_applied := b\<rparr>)) d) = plain_data d"
  by (induction d) (auto simp: plain_data_def split: if_splits)

text \<open>The addresses with a ban that lasts.\<close>

definition active_ips :: "int \<Rightarrow> nat \<Rightarrow> scan_entries \<Rightarrow> string set" where
  "active_ips now v d = {ip. \<exists>raw r. (raw, Entry r) \<in> set d \<and> now < ban_until r
     \<and> scan_normalize_ip raw = Inr ip \<and> scan_ip_version ip = Inr v}"

lemma active_records: "fst ` set (map snd (family_records now v d)) = active_ips now v d"
proof -
  have "fst ` set (map snd (family_record now v (raw, e))) =
      {ip. \<exists>r. e = Entry r \<and> now < ban_until r \<and> scan_normalize_ip raw = Inr ip \<and> scan_ip_version ip = Inr v}" for raw e
  proof (cases e)
    case (Entry r)
    then show ?thesis
      by (cases "scan_normalize_ip raw"; cases "now < ban_until r"; cases "scan_ip_version (projr (scan_normalize_ip raw)) = Inr v")
        (auto simp add: family_record_def family_entry_def not_less)
  qed (simp add: family_record_def family_entry_def)
  then have "fst ` set (map snd (family_record now v x)) =
      {ip. \<exists>r. snd x = Entry r \<and> now < ban_until r \<and> scan_normalize_ip (fst x) = Inr ip \<and> scan_ip_version ip = Inr v}" for x
    by (cases x) simp
  then have "fst ` set (map snd (family_records now v d)) = (\<Union>x \<in> set d. {ip. \<exists>r. snd x = Entry r \<and> now < ban_until r
      \<and> scan_normalize_ip (fst x) = Inr ip \<and> scan_ip_version ip = Inr v})"
    by (simp add: family_records_def image_UN)
  then show ?thesis by (force simp: active_ips_def)
qed

lemma active_ips_plain: "plain_data d = plain_data d' \<Longrightarrow> active_ips now v d = active_ips now v d'"
  using active_records family_records_plain by metis

section \<open>One family\<close>

abbreviation marked :: "('k \<Rightarrow> kernel_view) \<Rightarrow> scan_file \<Rightarrow> scan_entries \<Rightarrow> (kernel_view \<Rightarrow> bool) \<Rightarrow> 'k scan_store \<Rightarrow> bool" where
  "marked view f d P st \<equiv> (\<exists>w d'. at view w f d' st \<and> plain_data d' = plain_data d \<and> P w)"

lemma triple_marked:
  "(\<And>w d'. plain_data d' = plain_data d \<Longrightarrow> P w \<Longrightarrow> triple (at view w f d') m Q) \<Longrightarrow> triple (marked view f d P) m Q"
  by (auto simp: triple_def)

lemma set_applied_triple:
  "plain_data d' = plain_data d \<Longrightarrow> triple (at view w f d') (set_applied raw b) (\<lambda>_. marked view f d (\<lambda>w'. w' = w))"
  by (rule tripleI)
    (auto simp: set_applied_def put_record_def at_def find_record_def plain_update
      simp del: split_paired_Ex split: option.splits scan_entry.splits)

lemma set_blocks_triple:
  assumes laws: "kernel_laws run view"
  shows "triple (at view w f d) (set_blocks run fw ip s) (\<lambda>ok. seen view f d (\<lambda>w'. w' = w
    \<and> (ok \<longrightarrow> 0 < snd w fw s \<and> (\<exists>X. fst w s = Some X \<and> ip \<in> X))))"
proof -
  have test: "triple (at view w f d) (succeeds run (TestMember s ip))
      (\<lambda>ok. seen view f d (\<lambda>w'. w' = w \<and> (ok \<longrightarrow> (\<exists>X. fst w s = Some X \<and> ip \<in> X))))"
    by (rule succeeds_triple [OF laws]) (use law_frame2(4) in blast)+
  show ?thesis
    unfolding set_blocks_def
  proof (rule seen_bind [OF test], rule triple_if)
    fix m w1
    assume w1: "w1 = w \<and> (m \<longrightarrow> (\<exists>X. fst w s = Some X \<and> ip \<in> X))"
    show "triple (at view w1 f d) (succeeds run (CheckRule fw s)) (\<lambda>ok. seen view f d (\<lambda>w'. w' = w
        \<and> (ok \<longrightarrow> 0 < snd w fw s \<and> (\<exists>X. fst w s = Some X \<and> ip \<in> X))))" if m
      using w1 that by (intro triple_weaken [OF check_triple [OF laws]]) auto
    show "triple (at view w1 f d) (retP False) (\<lambda>ok. seen view f d (\<lambda>w'. w' = w
        \<and> (ok \<longrightarrow> 0 < snd w fw s \<and> (\<exists>X. fst w s = Some X \<and> ip \<in> X))))"
      by (rule seen_ret) (use w1 in simp)
  qed
qed

lemma family_record_version:
  "(raw, ip, t) \<in> set (family_records now v d) \<Longrightarrow> scan_ip_version ip = Inr v"
  by (auto simp: family_records_def family_record_def family_entry_def
      split: option.splits scan_entry.splits sum.splits if_splits)

lemma firewall_contains_triple:
  assumes laws: "kernel_laws run view" and on: "firewall_enabled cfg" "\<not> dry_run cfg" and v: "scan_ip_version ip = Inr v"
  shows "triple (at view w f d) (firewall_contains run cfg ip) (\<lambda>ok. seen view f d (\<lambda>w'. w' = w))"
proof -
  let ?rest = "bindP (set_blocks run (fam_firewall (family_spec v)) ip (fam_ipset (family_spec v))) (\<lambda>blocked.
        if blocked then retP True
        else set_blocks run (fam_firewall (family_spec v)) ip (fam_legacy_ipset (family_spec v)))"
  have body: "firewall_contains run cfg ip = ?rest"
    unfolding firewall_contains_def using on v by (simp add: fun_eq_iff)
  have "triple (at view w f d) ?rest (\<lambda>ok. seen view f d (\<lambda>w'. w' = w))"
  proof (rule seen_bind [OF set_blocks_triple [OF laws]], rule triple_if)
    fix x w1
    assume a: "w1 = w \<and> (x \<longrightarrow> 0 < snd w (fam_firewall (family_spec v)) (fam_ipset (family_spec v))
      \<and> (\<exists>X. fst w (fam_ipset (family_spec v)) = Some X \<and> ip \<in> X))"
    show "triple (at view w1 f d) (retP True) (\<lambda>ok. seen view f d (\<lambda>w'. w' = w))"
      by (rule seen_ret) (use a in simp)
    show "triple (at view w1 f d) (set_blocks run (fam_firewall (family_spec v)) ip (fam_legacy_ipset (family_spec v)))
        (\<lambda>ok. seen view f d (\<lambda>w'. w' = w))"
      using a by (intro triple_weaken [OF set_blocks_triple [OF laws]]) auto
  qed
  then show ?thesis using body by simp
qed

text \<open>
  What a synchronisation of one family does to the kernel: nothing outside the sets and rules of the
  family; the main set keeps its members, or is new and empty, or holds the bans; on success it
  holds the bans, a rule drops its packets and the set of the earlier version is gone.\<close>

definition family_synced :: "nat \<Rightarrow> string set \<Rightarrow> kernel_view \<Rightarrow> bool \<Rightarrow> kernel_view \<Rightarrow> bool" where
  "family_synced v ips w ok w' \<longleftrightarrow>
     frame2 {main_set v, staging_set v, legacy_set v} {main_set v, legacy_set v} w w'
     \<and> fst w' (main_set v) \<in> {fst w (main_set v), Some (case fst w (main_set v) of None \<Rightarrow> {} | Some X \<Rightarrow> X), Some ips}
     \<and> (ok \<longrightarrow> fst w' (main_set v) = Some ips \<and> 0 < snd w' (fam_firewall (family_spec v)) (main_set v)
          \<and> fst w' (legacy_set v) = None)"

lemma mark_loop_triple:
  assumes "\<And>x w d'. x \<in> set xs \<Longrightarrow> plain_data d' = plain_data d \<Longrightarrow> triple (at view w f d') (g x) (\<lambda>_. marked view f d (\<lambda>w'. w' = w))"
  shows "triple (marked view f d P) (mapP g xs) (\<lambda>_. marked view f d P)"
  using assms
proof (induction xs)
  case Nil
  then show ?case by (simp only: mapP.simps) (rule triple_ret)
next
  case (Cons x xs)
  have 1: "triple (marked view f d P) (g x) (\<lambda>_. marked view f d P)"
  proof (rule triple_marked)
    fix w d'
    assume a: "plain_data d' = plain_data d" "P w"
    show "triple (at view w f d') (g x) (\<lambda>_. marked view f d P)"
      by (rule triple_weaken [OF Cons.prems [OF _ a(1)]]) (simp, assumption, use a(2) in blast)
  qed
  have 2: "triple (marked view f d P) (mapP g xs) (\<lambda>_. marked view f d P)"
    by (rule Cons.IH) (rule Cons.prems, simp_all)
  show ?case
    by (simp only: mapP.simps) (rule triple_bind [OF 1], rule triple_bind [OF 2], rule triple_ret)
qed

lemma sync_kernel_triple:
  assumes laws: "kernel_laws run view" and on: "firewall_enabled cfg" "\<not> dry_run cfg"
    and ready: "ready \<longrightarrow> 0 < snd w (fam_firewall (family_spec v)) (main_set v)"
    and records: "records = family_records now v d" and d': "plain_data d' = plain_data d"
  shows "triple (at view w f d') (sync_kernel run cfg v ready records)
    (\<lambda>ok. marked view f d (family_synced v (active_ips now v d) w ok))"
proof -
  let ?ips = "active_ips now v d"
  have ips: "fst ` set (map snd records) = ?ips" using active_records records by simp
  have first: "triple (at view w f d') (if ready then sync_family_ipset run v (map snd records) else retP False)
      (\<lambda>ok. seen view f d' (\<lambda>w'. replaced v ?ips w ok w' \<and> (ok \<longrightarrow> ready)))"
  proof (rule triple_if)
    show "triple (at view w f d') (sync_family_ipset run v (map snd records))
        (\<lambda>ok. seen view f d' (\<lambda>w'. replaced v ?ips w ok w' \<and> (ok \<longrightarrow> ready)))" if ready
      using that ips by (intro triple_weaken [OF sync_family_ipset_triple [OF laws]]) auto
    show "triple (at view w f d') (retP False) (\<lambda>ok. seen view f d' (\<lambda>w'. replaced v ?ips w ok w' \<and> (ok \<longrightarrow> ready)))"
      by (rule seen_ret) (simp add: replaced_keep)
  qed
  have mark: "triple (at view w1 f d1) ((\<lambda>(raw, ip, timeout). bindP (if ok then retP True else firewall_contains run cfg ip)
        (\<lambda>applied. set_applied raw applied)) x) (\<lambda>_. marked view f d (\<lambda>w'. w' = w1))"
    if x: "x \<in> set records" and d1: "plain_data d1 = plain_data d" for x w1 d1 ok
  proof -
    obtain raw ip t where xe: "x = (raw, ip, t)" by (metis surj_pair)
    have v: "scan_ip_version ip = Inr v" using family_record_version x xe records by blast
    have 1: "triple (at view w1 f d1) (if ok then retP True else firewall_contains run cfg ip)
        (\<lambda>applied. seen view f d1 (\<lambda>w'. w' = w1))"
      by (rule triple_if, rule seen_ret, simp, rule firewall_contains_triple [OF laws on v])
    show ?thesis
      unfolding xe prod.case
      by (rule seen_bind [OF 1]) (use set_applied_triple [OF d1] in simp)
  qed
  have undone: "family_synced v ?ips w False w1" if "replaced v ?ips w ok w1" for w1 ok
    using that by (auto simp: family_synced_def replaced_def frame_def frame2_def)
  show ?thesis
    unfolding sync_kernel_def
  proof (rule seen_bind [OF first])
    fix ok w1
    assume w1: "replaced v ?ips w ok w1 \<and> (ok \<longrightarrow> ready)"
    have loop: "triple (at view w1 f d') (mapP (\<lambda>(raw, ip, timeout). bindP (if ok then retP True else firewall_contains run cfg ip)
        (\<lambda>applied. set_applied raw applied)) records) (\<lambda>_. marked view f d (\<lambda>w'. w' = w1))"
      by (rule triple_weaken [OF mark_loop_triple [where P = "\<lambda>w'. w' = w1" and d = d]], rule mark, assumption+)
        (use d' in blast)+
    show "triple (at view w1 f d') (bindP (mapP (\<lambda>(raw, ip, timeout). bindP (if ok then retP True else firewall_contains run cfg ip)
        (\<lambda>applied. set_applied raw applied)) records) (\<lambda>_. if ok then remove_legacy_family run v else retP False))
      (\<lambda>ok. marked view f d (family_synced v ?ips w ok))"
    proof (rule triple_bind [OF loop], rule triple_marked, rule triple_if)
      fix u w2 d2
      assume d2: "plain_data d2 = plain_data d" and w2: "w2 = w1"
      show "triple (at view w2 f d2) (retP False) (\<lambda>ok. marked view f d (family_synced v ?ips w ok))"
        by (rule triple_ret) (use undone w1 w2 d2 in blast)
      assume ok
      show "triple (at view w2 f d2) (remove_legacy_family run v) (\<lambda>ok. marked view f d (family_synced v ?ips w ok))"
      proof (rule triple_weaken [OF remove_legacy_triple [OF laws]])
        fix b st
        assume "seen view f d2 (\<lambda>w'. frame2 {legacy_set v} {legacy_set v} w2 w' \<and> (b \<longrightarrow> fst w' (legacy_set v) = None)) st"
        then obtain w3 where w3: "at view w3 f d2 st" "frame2 {legacy_set v} {legacy_set v} w1 w3"
          "b \<longrightarrow> fst w3 (legacy_set v) = None" using w2 by blast
        have "family_synced v ?ips w b w3"
          using w1 w3(2,3) \<open>ok\<close> ready by (auto simp: family_synced_def replaced_def frame_def frame2_def)
        then show "marked view f d (family_synced v ?ips w b) st" using w3(1) d2 by blast
      qed
    qed
  qed
qed

lemma sync_family_triple:
  assumes laws: "kernel_laws run view" and on: "firewall_enabled cfg" "\<not> dry_run cfg"
    and d': "plain_data d' = plain_data d"
  shows "triple (at view w f d') (sync_family run cfg now v)
    (\<lambda>ok. marked view f d (family_synced v (active_ips now v d) w ok))"
proof -
  let ?ips = "active_ips now v d"
  let ?E = "\<lambda>ok w'. frame2 {main_set v} {main_set v} w w'
       \<and> fst w' (main_set v) \<in> {fst w (main_set v), Some (case fst w (main_set v) of None \<Rightarrow> {} | Some X \<Rightarrow> X)}
       \<and> (ok \<longrightarrow> 0 < snd w' (fam_firewall (family_spec v)) (main_set v))"
  show ?thesis
    unfolding sync_family_def
  proof (rule seen_bind [OF ensure_family_triple [OF laws on]])
    fix ready w1
    assume w1: "?E ready w1"
    have gets: "triple (at view w1 f d') (getsP (\<lambda>st. Inr (family_records now v (st_data st))))
        (\<lambda>records st. at view w1 f d' st \<and> records = family_records now v d)"
      by (rule triple_gets) (use d' family_records_plain in \<open>metis at_def\<close>)
    have drop: "triple (\<lambda>st. at view w1 f d' st \<and> R) (modifyP (\<lambda>st. st\<lparr>st_data := map (drop_expired now v) (st_data st)\<rparr>))
        (\<lambda>_ st. at view w1 f (map (drop_expired now v) d') st \<and> R)" for R
      by (rule triple_modify) (simp add: at_def)
    have synced: "family_synced v ?ips w ok w2" if "family_synced v ?ips w1 ok w2" for ok w2
      using that w1 by (cases "fst w (main_set v)") (auto simp: family_synced_def frame2_def)
    have last: "triple (at view w1 f (map (drop_expired now v) d')) (sync_kernel run cfg v ready (family_records now v d))
        (\<lambda>ok. marked view f d (family_synced v ?ips w ok))"
    proof (rule triple_weaken [OF sync_kernel_triple [OF laws on _ refl, where d = d]])
      show "ready \<longrightarrow> 0 < snd w1 (fam_firewall (family_spec v)) (main_set v)" using w1 by simp
      show "plain_data (map (drop_expired now v) d') = plain_data d" using d' by simp
      fix ok st
      assume "marked view f d (family_synced v ?ips w1 ok) st"
      then show "marked view f d (family_synced v ?ips w ok) st" using synced by blast
    qed
    show "triple (at view w1 f d') (bindP (getsP (\<lambda>st. Inr (family_records now v (st_data st))))
       (\<lambda>records. bindP (modifyP (\<lambda>st. st\<lparr>st_data := map (drop_expired now v) (st_data st)\<rparr>))
         (\<lambda>_. if dry_run cfg then sync_dry run cfg ready records else sync_kernel run cfg v ready records)))
      (\<lambda>ok. marked view f d (family_synced v ?ips w ok))"
    proof (rule triple_bind [OF gets], rule triple_bind [OF drop])
      fix records u
      show "triple (\<lambda>st. at view w1 f (map (drop_expired now v) d') st \<and> records = family_records now v d)
          (if dry_run cfg then sync_dry run cfg ready records else sync_kernel run cfg v ready records)
          (\<lambda>ok. marked view f d (family_synced v ?ips w ok))"
        using last on(2) by (auto simp: triple_def simp del: split_paired_Ex)
    qed
  qed
qed

section \<open>Both families\<close>

lemma sync_locked_triple:
  assumes laws: "kernel_laws run view" and on: "firewall_enabled cfg" "\<not> dry_run cfg"
  shows "triple (at view w f d) (mapP (sync_family run cfg now) [4, 6])
    (\<lambda>oks. marked view f d (\<lambda>w'. \<exists>w1. family_synced 4 (active_ips now 4 d) w (oks ! 0) w1
       \<and> family_synced 6 (active_ips now 6 d) w1 (oks ! 1) w' \<and> length oks = 2))"
proof -
  note one = sync_family_triple [OF laws on, where d = d and now = now and f = f]
  show ?thesis
    unfolding mapP.simps
    apply (rule triple_bind [OF one [where w = w and v = 4, OF refl]])
    apply (rule triple_bind [where Q = "\<lambda>oks. marked view f d (\<lambda>w'. \<exists>w1. family_synced 4 (active_ips now 4 d) w ok w1
       \<and> family_synced 6 (active_ips now 6 d) w1 (oks ! 0) w' \<and> length oks = 1)" for ok])
     apply (rule triple_marked)
     apply (rule triple_bind [OF one [where v = 6]])
      apply assumption
     apply (rule triple_bind [OF triple_ret [where Q = "\<lambda>ys st. ys = []
        \<and> marked view f d (\<lambda>w'. \<exists>w1. family_synced 4 (active_ips now 4 d) w ok w1
           \<and> family_synced 6 (active_ips now 6 d) w1 ok6 w') st" for ok ok6]])
      apply blast
     apply (rule triple_ret)
     apply (clarsimp simp del: split_paired_Ex)
     apply blast
    apply (rule triple_ret)
    apply (clarsimp simp del: split_paired_Ex)
    done
qed

lemma family_synced_other:
  assumes "family_synced 4 A w a w1" and "family_synced 6 B w1 b w2"
  shows "fst w2 (main_set 4) = fst w1 (main_set 4)" and "fst w2 (legacy_set 4) = fst w1 (legacy_set 4)"
    and "snd w2 fw (main_set 4) = snd w1 fw (main_set 4)" and "fst w1 (main_set 6) = fst w (main_set 6)"
  using assms by (auto simp: family_synced_def frame2_def)

text \<open>What a synchronisation leaves behind, whatever the commands did.\<close>

lemma sync_outcome:
  assumes "kernel_laws run view" and "firewall_enabled cfg" and "\<not> dry_run cfg"
    and run: "sync_firewall_from_store run cfg now st = (r, st')"
  shows "\<exists>ok w1 a b. r = Inr ok \<and> ok = (a \<and> b)
    \<and> family_synced 4 (active_ips now 4 (st_data (scan_load st))) (view (st_kernel st)) a w1
    \<and> family_synced 6 (active_ips now 6 (st_data (scan_load st))) w1 b (view (st_kernel st'))
    \<and> plain_data (st_data st') = plain_data (st_data (scan_load st))
    \<and> st_file st' = Entries (sort_key fst (st_data st'))"
proof -
  let ?st = "scan_load st" and ?d = "st_data (scan_load st)"
  have kernel: "st_kernel ?st = st_kernel st" by (simp add: scan_load_def split: scan_file.splits)
  have start: "at view (view (st_kernel st)) (st_file ?st) ?d ?st" by (simp add: at_def kernel)
  obtain oks s1 w1 w' d' where
    m: "mapP (sync_family run cfg now) [4, 6] ?st = (Inr oks, s1)"
    and s: "family_synced 4 (active_ips now 4 ?d) (view (st_kernel st)) (oks ! 0) w1"
      "family_synced 6 (active_ips now 6 ?d) w1 (oks ! 1) w'"
    and len: "length oks = 2" and at: "at view w' (st_file ?st) d' s1" and d': "plain_data d' = plain_data ?d"
    using triple_returns [OF sync_locked_triple [OF assms(1-3), where now = now] start] by blast
  obtain a b where oks: "oks = [a, b]" using len by (cases oks; cases "tl oks") auto
  have "r = Inr (a \<and> b)" "st' = s1\<lparr>st_file := Entries (sort_key fst (st_data s1))\<rparr>"
    using run assms(2) m oks
    by (auto simp: sync_firewall_from_store_def state_lock_def save_unlocked_def simp del: mapP.simps)
  then show ?thesis
    using s at d' oks
    by (intro exI [of _ "a \<and> b"] exI [of _ w1] exI [of _ a] exI [of _ b]) (simp add: at_def)
qed

end
