(* ===== verification/ScannerProps.thy ===== *)
theory ScannerProps
  imports ScannerSync PyIpFacts "HOL-Library.Multiset"
begin

text \<open>
  What the scanner store promises over any sequence of requests: its records explain the bans they
  hold, an unbanned address is left in peace for its grace period, bans escalate, and the kernel
  follows the file.
\<close>

section \<open>Requests\<close>

datatype scan_request =
    RecordAttempt string int int
  | PruneAttempts string int int
  | TouchBlocked string int
  | RegisterBan string string int int
  | AskBanned string int
  | AskGrace string int
  | ListBans int
  | ListGraces int
  | SyncFirewall int
  | EnsureFirewall
  | FlushSets
  | ReleaseFirewall string
  | Unban string bool "int option" int
  | ClearBans

fun scan_handle :: "'k runner \<Rightarrow> scan_settings \<Rightarrow> scan_request \<Rightarrow> 'k scan_store \<Rightarrow> 'k scan_store" where
  "scan_handle run cfg (RecordAttempt ip window now) st = snd (record_attempt ip window now st)"
| "scan_handle run cfg (PruneAttempts ip window now) st = snd (prune_attempts ip window now st)"
| "scan_handle run cfg (TouchBlocked ip now) st = snd (touch_ip_blocked ip now st)"
| "scan_handle run cfg (RegisterBan ip reason short now) st = snd (register_ban run cfg ip reason short now st)"
| "scan_handle run cfg (AskBanned ip now) st = snd (is_banned run cfg ip now st)"
| "scan_handle run cfg (AskGrace ip now) st = snd (is_in_unban_grace ip now st)"
| "scan_handle run cfg (ListBans now) st = snd (get_active_bans run cfg now st)"
| "scan_handle run cfg (ListGraces now) st = snd (get_grace_entries now st)"
| "scan_handle run cfg (SyncFirewall now) st = snd (sync_firewall_from_store run cfg now st)"
| "scan_handle run cfg EnsureFirewall st = snd (ensure_firewall_infrastructure run cfg st)"
| "scan_handle run cfg FlushSets st = snd (flush_firewall_sets run cfg st)"
| "scan_handle run cfg (ReleaseFirewall ip) st = snd (release_firewall_only run cfg ip st)"
| "scan_handle run cfg (Unban ip clear grace now) st = snd (unban_ip run cfg ip clear grace now st)"
| "scan_handle run cfg ClearBans st = snd (scan_clear_all run cfg st)"

text \<open>The kernel also changes on its own: members run out, the machine restarts.\<close>

inductive scan_reachable ::
  "'k runner \<Rightarrow> scan_settings \<Rightarrow> (scan_request \<Rightarrow> bool) \<Rightarrow> 'k scan_store \<Rightarrow> 'k scan_store \<Rightarrow> bool"
  for run cfg allowed st0 where
  start: "scan_reachable run cfg allowed st0 st0"
| request: "scan_reachable run cfg allowed st0 st \<Longrightarrow> allowed req
    \<Longrightarrow> scan_reachable run cfg allowed st0 (scan_handle run cfg req st)"
| kernel: "scan_reachable run cfg allowed st0 st \<Longrightarrow> scan_reachable run cfg allowed st0 (st\<lparr>st_kernel := k\<rparr>)"

section \<open>What a contract on single records gives\<close>

definition record_in :: "scan_entries \<Rightarrow> string \<Rightarrow> scan_record option" where
  "record_in d k = (case map_of d k of Some (Entry r) \<Rightarrow> Some r | _ \<Rightarrow> None)"

lemma find_record_in: "find_record st k = record_in (st_data st) k"
  by (simp add: find_record_def record_in_def)

lemma record_in_update: "record_in (AList.update k (Entry r) d) = (record_in d)(k := Some r)"
  by (rule ext) (simp add: record_in_def dict_simps)

lemma wf_dict_sorted: "wf_dict (sort_key fst d) = wf_dict d"
  unfolding wf_dict_def by (rule mset_eq_imp_distinct_iff) simp

lemma map_of_sorted: "wf_dict d \<Longrightarrow> map_of (sort_key fst d) k = map_of d k"
proof -
  assume d: "wf_dict d"
  then have "wf_dict (sort_key fst d)" by (simp add: wf_dict_sorted)
  with d have "map_of (sort_key fst d) k = Some v \<longleftrightarrow> map_of d k = Some v" for v
    using wf_dict_lookup [of "sort_key fst d" k v] wf_dict_lookup [of d k v] by simp
  then show ?thesis by (metis option.exhaust)
qed

lemma record_in_sorted: "wf_dict d \<Longrightarrow> record_in (sort_key fst d) = record_in d"
  by (rule ext) (simp add: record_in_def map_of_sorted)

lemma record_in_drop:
  "record_in (map (drop_expired now v) d) k = None \<and> record_in d k = None
   \<or> (\<exists>r. record_in d k = Some r \<and> record_in (map (drop_expired now v) d) k \<in> {Some r, Some (r\<lparr>firewall_applied := False\<rparr>)})"
proof (induction d)
  case (Cons e d)
  obtain k' x where e: "e = (k', x)" by fastforce
  have key: "fst (drop_expired now v e) = k'"
    by (auto simp: drop_expired_def e split: option.splits)
  show ?case
  proof (cases "k' = k")
    case True
    show ?thesis
      by (cases x) (auto simp: record_in_def True e drop_expired_def family_entry_def split: option.splits sum.splits)
  next
    case False
    then have "record_in (map (drop_expired now v) (e # d)) k = record_in (map (drop_expired now v) d) k"
      "record_in (e # d) k = record_in d k"
      using key by (cases "drop_expired now v e"; simp add: record_in_def e)+
    then show ?thesis using Cons by simp
  qed
qed (simp add: record_in_def)

text \<open>The record a ban leaves behind.\<close>

definition ban_record :: "scan_settings \<Rightarrow> string \<Rightarrow> int \<Rightarrow> int \<Rightarrow> scan_record \<Rightarrow> bool \<Rightarrow> scan_record" where
  "ban_record cfg reason short now r applied = (let r1 = banned_record cfg short now r in
     r1\<lparr>firewall_applied := applied,
        scan_events := last_events (scan_events r1 @ [ban_event cfg reason short now r applied])\<rparr>)"

text \<open>Programs that touch the kernel only, and raise nothing.\<close>

definition kernel_only :: "('k, 'a) scan_prog \<Rightarrow> bool" where
  "kernel_only m \<longleftrightarrow> (\<forall>f k. \<exists>x k'. \<forall>d. m \<lparr>st_file = f, st_data = d, st_kernel = k\<rparr>
     = (Inr x, \<lparr>st_file = f, st_data = d, st_kernel = k'\<rparr>))"

lemma kernel_onlyI:
  "(\<And>f k. \<exists>x k'. \<forall>d. m \<lparr>st_file = f, st_data = d, st_kernel = k\<rparr> = (Inr x, \<lparr>st_file = f, st_data = d, st_kernel = k'\<rparr>))
   \<Longrightarrow> kernel_only m"
  by (simp add: kernel_only_def)

lemma kernel_onlyE:
  assumes "kernel_only m"
  shows "\<exists>x k'. \<forall>d. m \<lparr>st_file = f, st_data = d, st_kernel = k\<rparr> = (Inr x, \<lparr>st_file = f, st_data = d, st_kernel = k'\<rparr>)"
  using assms unfolding kernel_only_def by blast

lemma kernel_only_ret: "kernel_only (retP x)"
  by (rule kernel_onlyI) simp

lemma kernel_only_look: "kernel_only (getsP (\<lambda>st. Inr x))"
  by (rule kernel_onlyI) simp

lemma kernel_only_run: "kernel_only (run_scan_command run c)"
proof (rule kernel_onlyI)
  fix f k
  obtain r k' where "run (command_args c) k = (r, k')" by fastforce
  then show "\<exists>x k'. \<forall>d. run_scan_command run c \<lparr>st_file = f, st_data = d, st_kernel = k\<rparr>
      = (Inr x, \<lparr>st_file = f, st_data = d, st_kernel = k'\<rparr>)"
    by (intro exI [of _ r] exI [of _ k']) (simp add: run_scan_command_def)
qed

lemma kernel_only_bind:
  assumes m: "kernel_only m" and g: "\<And>x. kernel_only (g x)"
  shows "kernel_only (bindP m g)"
proof (rule kernel_onlyI)
  fix f k
  obtain x k1 where 1: "\<And>d. m \<lparr>st_file = f, st_data = d, st_kernel = k\<rparr> = (Inr x, \<lparr>st_file = f, st_data = d, st_kernel = k1\<rparr>)"
    using kernel_onlyE [OF m, of f k] by blast
  obtain y k2 where 2: "\<And>d. g x \<lparr>st_file = f, st_data = d, st_kernel = k1\<rparr> = (Inr y, \<lparr>st_file = f, st_data = d, st_kernel = k2\<rparr>)"
    using kernel_onlyE [OF g, of x f k1] by blast
  show "\<exists>y k2. \<forall>d. bindP m g \<lparr>st_file = f, st_data = d, st_kernel = k\<rparr> = (Inr y, \<lparr>st_file = f, st_data = d, st_kernel = k2\<rparr>)"
    using 1 2 by auto
qed

lemma kernel_only_if: "kernel_only m \<Longrightarrow> kernel_only m' \<Longrightarrow> kernel_only (if b then m else m')"
  by simp

lemma kernel_only_succeeds: "kernel_only (succeeds run c)"
  unfolding succeeds_def by (rule kernel_only_bind [OF kernel_only_run]) (auto intro: kernel_only_ret)

lemma kernel_only_firewall: "scan_ip_version ip = Inr v \<Longrightarrow> kernel_only (firewall_add run cfg ip t)"
  unfolding firewall_add_def ensure_family_infrastructure_def create_family_ipset_def add_to_ipset_def
  by (simp only:) (intro kernel_only_bind kernel_only_if kernel_only_ret kernel_only_look kernel_only_succeeds)

lemma kernel_only_mapP: "(\<And>x. kernel_only (f x)) \<Longrightarrow> kernel_only (mapP f xs)"
proof (induction xs)
  case Nil
  show ?case by (simp only: mapP.simps) (rule kernel_only_ret)
next
  case (Cons x xs)
  show ?case by (simp only: mapP.simps) (intro kernel_only_bind kernel_only_ret Cons)
qed

lemma kernel_only_found:
  "kernel_only m \<Longrightarrow> kernel_only m' \<Longrightarrow> kernel_only m'' \<Longrightarrow>
     kernel_only (case x of None \<Rightarrow> m | Some True \<Rightarrow> m' | Some False \<Rightarrow> m'')"
  by (auto split: option.splits bool.splits)

lemma kernel_only_exists: "kernel_only (ipset_exists run s)"
  unfolding ipset_exists_def by (rule kernel_only_bind [OF kernel_only_run]) (auto intro: kernel_only_ret)

lemma kernel_only_remove: "scan_ip_version ip = Inr v \<Longrightarrow> kernel_only (firewall_remove run cfg ip)"
  unfolding firewall_remove_def remove_member_def
  by (simp only:) (intro kernel_only_bind kernel_only_if kernel_only_ret kernel_only_look kernel_only_succeeds
      kernel_only_exists kernel_only_mapP kernel_only_found)

text \<open>A record written, and written again after work on the kernel alone, is written once.\<close>

lemma put_twice:
  assumes "kernel_only m"
  shows "bindP (put_record k r1) (\<lambda>_. bindP m (\<lambda>b. bindP (put_record k (g b)) (h b)))
    = bindP m (\<lambda>b. bindP (put_record k (g b)) (h b))"
proof
  fix st :: "'a scan_store"
  obtain f d ks where st: "st = \<lparr>st_file = f, st_data = d, st_kernel = ks\<rparr>" by (cases st)
  obtain x k1 where 1: "\<And>d. m \<lparr>st_file = f, st_data = d, st_kernel = ks\<rparr> = (Inr x, \<lparr>st_file = f, st_data = d, st_kernel = k1\<rparr>)"
    using kernel_onlyE [OF assms, of f ks] by blast
  show "bindP (put_record k r1) (\<lambda>_. bindP m (\<lambda>b. bindP (put_record k (g b)) (h b))) st
    = bindP m (\<lambda>b. bindP (put_record k (g b)) (h b)) st"
    by (simp add: st 1 put_record_def)
qed

text \<open>A normalised address stays as it is, and its version can be told.\<close>

lemma normalized_version:
  assumes "scan_normalize_ip raw = Inr k"
  shows "scan_normalize_ip k = Inr k \<and> (\<exists>v. scan_ip_version k = Inr v)"
proof -
  obtain a where a: "ip_address (strip raw) = Some a" "k = show_addr a"
    using assms by (auto simp: scan_normalize_ip_def split: option.splits)
  have "ip_address k = Some a" using a ip_address_printable ip_address_show_printable by simp
  then show ?thesis
    using show_addr_stripped [OF a(1)] a by (simp add: scan_normalize_ip_def scan_ip_version_def)
qed

locale record_contract =
  fixes J :: "string \<Rightarrow> scan_record option \<Rightarrow> bool" and cfg :: scan_settings and allowed :: "scan_request \<Rightarrow> bool"
  assumes fresh: "J k None \<Longrightarrow> J k (Some (new_record k))"
    and applied: "J k (Some r) \<Longrightarrow> J k (Some (r\<lparr>firewall_applied := b\<rparr>))"
    and expired: "J k (Some r) \<Longrightarrow> 0 < ban_until r \<Longrightarrow> J k (Some (r\<lparr>ban_until := 0, firewall_applied := False\<rparr>))"
    and attempts: "J k (Some r) \<Longrightarrow> J k (Some (r\<lparr>recent_attempts := xs\<rparr>))"
    and touched: "J k (Some r) \<Longrightarrow> J k (Some (r\<lparr>ip_blocked_since := Some t\<rparr>))"
    and banned: "allowed (RegisterBan raw reason short now) \<Longrightarrow> scan_normalize_ip raw = Inr k \<Longrightarrow> J k (Some r)
      \<Longrightarrow> unban_grace_until r \<le> now
      \<Longrightarrow> J k (Some (ban_record cfg reason short now r b))"
    and released: "J k (Some r) \<Longrightarrow> J k (Some (released_record r))"
    and unbanned: "allowed (Unban raw clear grace now) \<Longrightarrow> scan_normalize_ip raw = Inr k \<Longrightarrow> J k (Some r)
      \<Longrightarrow> J k (Some (unbanned_record clear (grace_end cfg grace now) r))"
    and cleared: "allowed ClearBans \<Longrightarrow> J k None"
begin

definition good :: "scan_entries \<Rightarrow> bool" where
  "good d \<longleftrightarrow> wf_dict d \<and> (\<forall>k. J k (record_in d k))"

definition stored :: "'k scan_store \<Rightarrow> bool" where
  "stored st \<longleftrightarrow> (\<exists>d. st_file st = Entries d \<and> good d)"

definition held :: "'k scan_store \<Rightarrow> bool" where
  "held st \<longleftrightarrow> stored st \<and> good (st_data st)"

abbreviation keeps :: "('k, 'a) scan_prog \<Rightarrow> ('a \<Rightarrow> bool) \<Rightarrow> bool" where
  "keeps m P \<equiv> keepsP held m P"

lemma good_update: "good d \<Longrightarrow> J k (Some r) \<Longrightarrow> good (AList.update k (Entry r) d)"
  by (simp add: good_def record_in_update wf_dict_update)

lemma keeps_run: "keeps (run_scan_command run c) (\<lambda>_. True)"
  by (auto simp: keepsP_def run_scan_command_def held_def stored_def split: prod.splits)

lemma keeps_put: "J k (Some r) \<Longrightarrow> keeps (put_record k r) (\<lambda>_. True)"
  by (auto simp: keepsP_def put_record_def held_def stored_def good_update)

lemma keeps_save: "keeps save_unlocked (\<lambda>_. True)"
  by (auto simp: keepsP_def save_unlocked_def held_def stored_def good_def record_in_sorted wf_dict_sorted)

lemma held_record: "held st \<Longrightarrow> J k (find_record st k)"
  by (simp add: held_def good_def find_record_in)

lemma keeps_entry: "keeps (entry_unlocked k) (\<lambda>r. J k (Some r))"
  unfolding keepsP_def
proof (intro allI impI)
  fix st :: "'k scan_store" and res st'
  assume st: "held st" and run: "entry_unlocked k st = (res, st')"
  show "held st' \<and> (\<forall>r. res = Inr r \<longrightarrow> J k (Some r))"
  proof (cases "find_record st k")
    case None
    then have new: "J k (Some (new_record k))" using held_record [OF st, of k] fresh by simp
    from keeps_put [OF new] have "held (snd (put_record k (new_record k) st))"
      using st by (cases "put_record k (new_record k) st") (auto simp: keepsP_def)
    then show ?thesis using run None new by (auto simp: entry_unlocked_def)
  next
    case (Some r)
    then show ?thesis using run st held_record [OF st, of k] by (auto simp: entry_unlocked_def)
  qed
qed

lemma keeps_mapP: "(\<And>x. x \<in> set xs \<Longrightarrow> keeps (f x) (\<lambda>_. True)) \<Longrightarrow> keeps (mapP f xs) (\<lambda>_. True)"
proof (induction xs)
  case Nil
  then show ?case by (simp only: mapP.simps) (rule keepsP_ret, simp)
next
  case (Cons x xs)
  show ?case
    by (simp only: mapP.simps)
      (intro keepsP_bind [where P = "\<lambda>_. True"] keepsP_ret Cons.IH Cons.prems, simp_all add: Cons.prems)
qed

lemma keeps_any: "keeps m P \<Longrightarrow> keeps m (\<lambda>_. True)"
  by (rule keepsP_weaken) simp_all

lemma keeps_succeeds: "keeps (succeeds run c) (\<lambda>_. True)"
  unfolding succeeds_def by (rule keepsP_bind [OF keeps_run]) (auto intro: keepsP_ret)

lemma keeps_exists: "keeps (ipset_exists run s) (\<lambda>_. True)"
  unfolding ipset_exists_def by (rule keepsP_bind [OF keeps_run]) (auto intro: keepsP_ret)

lemma keeps_return: "keeps (retP x) (\<lambda>_. True)"
  by (rule keepsP_ret) simp

lemma keeps_look: "keeps (getsP g) (\<lambda>_. True)"
  by (rule keepsP_gets) simp

lemma keeps_then: "keeps m (\<lambda>_. True) \<Longrightarrow> (\<And>x. keeps (f x) (\<lambda>_. True)) \<Longrightarrow> keeps (bindP m f) (\<lambda>_. True)"
  by (rule keepsP_bind [where P = "\<lambda>_. True"])

lemma keeps_if: "(b \<Longrightarrow> keeps m P) \<Longrightarrow> (\<not> b \<Longrightarrow> keeps m' P) \<Longrightarrow> keeps (if b then m else m') P"
  by simp

lemma keeps_found:
  "keeps m (\<lambda>_. True) \<Longrightarrow> keeps m' (\<lambda>_. True) \<Longrightarrow> keeps m'' (\<lambda>_. True)
   \<Longrightarrow> keeps (case x of None \<Rightarrow> m | Some True \<Rightarrow> m' | Some False \<Rightarrow> m'') (\<lambda>_. True)"
  by (cases x) (auto split: bool.splits)

lemmas keeps_basic = keeps_then keeps_if keeps_return keeps_look keeps_succeeds keeps_exists keeps_mapP keeps_save
  keeps_found

lemma keeps_firewall:
  "keeps (ensure_family_infrastructure run c v) (\<lambda>_. True)"
  "keeps (firewall_add run c ip t) (\<lambda>_. True)"
  "keeps (firewall_remove run c ip) (\<lambda>_. True)"
  "keeps (firewall_contains run c ip) (\<lambda>_. True)"
  "keeps (family_infrastructure_present run c v) (\<lambda>_. True)"
  unfolding ensure_family_infrastructure_def firewall_add_def firewall_remove_def firewall_contains_def
    family_infrastructure_present_def create_family_ipset_def add_to_ipset_def remove_member_def set_blocks_def
  by (intro keeps_basic)+

lemma keeps_delete_rules: "keeps (delete_legacy_rules run n fw s) (\<lambda>_. True)"
proof (induction n)
  case 0
  then show ?case by (simp only: delete_legacy_rules.simps) (intro keeps_basic)
next
  case (Suc n)
  show ?case by (simp only: delete_legacy_rules.simps) (intro keeps_basic Suc.IH)
qed

lemma keeps_delete_all: "keeps (delete_all_rules run fws s) (\<lambda>_. True)"
proof (induction fws)
  case Nil
  then show ?case by (simp only: delete_all_rules.simps) (intro keeps_basic)
next
  case (Cons fw fws)
  show ?case by (simp only: delete_all_rules.simps) (intro keeps_basic keeps_delete_rules Cons.IH)
qed

lemma keeps_sets:
  "keeps (remove_legacy_family run v) (\<lambda>_. True)"
  "keeps (sync_family_ipset run v members) (\<lambda>_. True)"
  "keeps (flush_sets_locked run c) (\<lambda>_. True)"
proof -
  show legacy: "keeps (remove_legacy_family run v) (\<lambda>_. True)" for v
    unfolding remove_legacy_family_def Let_def by (intro keeps_basic keeps_delete_all)
  show "keeps (sync_family_ipset run v members) (\<lambda>_. True)"
    unfolding sync_family_ipset_def fill_family_ipset_def swap_family_ipset_def fill_set_def create_family_ipset_def
      add_to_ipset_def Let_def
    by (intro keeps_basic) (auto intro: keeps_basic)
  show "keeps (flush_sets_locked run c) (\<lambda>_. True)"
    unfolding flush_sets_locked_def flush_family_def drop_set_def by (intro keeps_basic legacy)
qed

lemma keeps_set_applied: "keeps (set_applied raw b) (\<lambda>_. True)"
proof -
  have "held st'" if "held st" "set_applied raw b st = (res, st')" for st st' :: "'k scan_store" and res
  proof (cases "find_record st raw")
    case None
    then show ?thesis using that by (auto simp: set_applied_def)
  next
    case (Some r)
    then have "J raw (Some (r\<lparr>firewall_applied := b\<rparr>))" using held_record [OF that(1), of raw] applied by simp
    then show ?thesis using that Some keepsP_use [OF keeps_put] by (auto simp: set_applied_def)
  qed
  then show ?thesis by (auto simp: keepsP_def)
qed

lemma good_drop: "good d \<Longrightarrow> good (map (drop_expired now v) d)"
proof -
  assume d: "good d"
  have "fst (drop_expired now v e) = fst e" for e
    by (auto simp: drop_expired_def split: option.splits)
  then have "map fst (map (drop_expired now v) d) = map fst d" by (induction d) simp_all
  moreover have "J k (record_in (map (drop_expired now v) d) k)" for k
  proof -
    have "J k (record_in d k)" using d by (simp add: good_def)
    then show ?thesis using record_in_drop [of now v d k] applied [of k _ False] by (elim disjE exE) auto
  qed
  ultimately show ?thesis using d unfolding good_def wf_dict_def by metis
qed

lemma keeps_drop: "keeps (modifyP (\<lambda>st. st\<lparr>st_data := map (drop_expired now v) (st_data st)\<rparr>)) (\<lambda>_. True)"
  by (auto simp: keepsP_def held_def stored_def good_drop)

lemma keeps_sync_family: "keeps (sync_family run c now v) (\<lambda>_. True)"
  unfolding sync_family_def sync_dry_def sync_kernel_def
  by (intro keeps_basic keeps_firewall keeps_sets keeps_drop)
    (auto intro!: keeps_basic keeps_firewall keeps_sets keeps_set_applied)

lemma held_after: "keeps m P \<Longrightarrow> held st \<Longrightarrow> m st = (r, st') \<Longrightarrow> held st'"
  by (rule keepsP_use)

lemma stored_load: "stored st \<Longrightarrow> held (scan_load st)"
  by (auto simp: stored_def held_def scan_load_def)

text \<open>An operation that takes the lock.\<close>

lemma locked_stored:
  assumes "keeps body (\<lambda>_. True)" and "stored st"
  shows "stored (snd (state_lock body st))"
proof -
  obtain r st' where "body (scan_load st) = (r, st')" by fastforce
  moreover from keepsP_use [OF assms(1) stored_load [OF assms(2)] this] have "stored st'" by (simp add: held_def)
  ultimately show ?thesis by (simp add: state_lock_def)
qed

lemma normalized_stored:
  assumes "\<And>k. scan_normalize_ip ip = Inr k \<Longrightarrow> keeps (body k) (\<lambda>_. True)" and "stored st"
  shows "stored (snd (normalized ip body st))"
proof (cases "scan_normalize_ip ip")
  case (Inl e)
  then show ?thesis using assms(2) by (simp add: normalized_def)
next
  case (Inr k)
  then show ?thesis using locked_stored [OF assms(1) [OF Inr] assms(2)] by (simp add: normalized_def)
qed

lemma keeps_prune: "keeps (prune_attempts_locked window now k) (\<lambda>_. True)"
  unfolding prune_attempts_locked_def Let_def
  by (rule keepsP_bind [OF keeps_entry]) (intro keeps_then keeps_put attempts keeps_return)

lemma keeps_record_attempt: "keeps (record_attempt_locked window now k) (\<lambda>_. True)"
  unfolding record_attempt_locked_def
  by (intro keeps_then keeps_prune keepsP_bind [OF keeps_entry] keeps_put attempts keeps_save keeps_return)

lemma keeps_touch: "keeps (touch_ip_blocked_locked now k) (\<lambda>_. True)"
  unfolding touch_ip_blocked_locked_def
  by (rule keepsP_bind [OF keeps_entry])
    (auto split: option.splits intro!: keeps_then keeps_put touched keeps_save keeps_return)

lemma keeps_expire: "J k (Some r) \<Longrightarrow> 0 < ban_until r \<Longrightarrow> keeps (expire_ban run c k ip r) (\<lambda>_. True)"
  unfolding expire_ban_def by (intro keeps_then keeps_put expired keeps_firewall keeps_return)

lemma keeps_is_banned: "keeps (is_banned_locked (run :: 'k runner) c now k) (\<lambda>_. True)"
proof -
  have "held st'" if st: "held st" and run: "is_banned_locked run c now k st = (res, st')" for st st' :: "'k scan_store" and res
  proof (cases "find_record st k")
    case None
    then show ?thesis using that by (simp add: is_banned_locked_def)
  next
    case (Some r)
    show ?thesis
    proof (cases "\<not> now < ban_until r \<and> 0 < ban_until r")
      case True
      have K: "keeps (bindP (expire_ban run c k k r) (\<lambda>_. bindP save_unlocked (\<lambda>_. retP False))) (\<lambda>_. True)"
        using held_record [OF st, of k] Some True by (intro keeps_then keeps_expire keeps_save keeps_return) auto
      then show ?thesis using run True Some held_after [OF K st] by (auto simp: is_banned_locked_def)
    next
      case False
      then show ?thesis using run Some st by (auto simp: is_banned_locked_def split: if_splits)
    qed
  qed
  then show ?thesis by (auto simp: keepsP_def)
qed

lemma keeps_show_ban: "keeps (show_ban (run :: 'k runner) c now raw) (\<lambda>_. True)"
proof -
  have "held st'" if st: "held st" and run: "show_ban run c now raw st = (res, st')" for st st' :: "'k scan_store" and res
  proof (cases "find_record st raw")
    case None
    then show ?thesis using that by (simp add: show_ban_def)
  next
    case (Some r)
    then have J: "J raw (Some r)" using held_record [OF st, of raw] by simp
    have e: "0 < ban_until r \<Longrightarrow> keeps (bindP (expire_ban run c raw ip r) (\<lambda>_. retP (None, True))) (\<lambda>_. True)" for ip
      by (intro keeps_then keeps_expire J keeps_return)
    have s: "keeps (bindP (firewall_contains run c ip) (\<lambda>b.
        bindP (if firewall_applied r \<noteq> b then put_record raw (r\<lparr>firewall_applied := b\<rparr>) else retP ()) (\<lambda>_. retP (g b)))) (\<lambda>_. True)"
      for ip and g :: "bool \<Rightarrow> active_ban option \<times> bool"
      by (intro keeps_then keeps_firewall keeps_if keeps_put applied J keeps_return)
    show ?thesis
      using run Some st held_after [OF e st] held_after [OF s st]
      by (auto simp: show_ban_def split: sum.splits if_splits)
  qed
  then show ?thesis by (auto simp: keepsP_def)
qed

lemma keeps_active_bans: "keeps (\<lambda>st. bindP (mapP (show_ban run c now) (keys (st_data st))) (\<lambda>results.
     bindP (if list_ex snd results then save_unlocked else retP ()) (\<lambda>_. retP (g results))) st) (\<lambda>_. True)"
proof -
  have "keeps (bindP (mapP (show_ban run c now) ks) (\<lambda>results.
     bindP (if list_ex snd results then save_unlocked else retP ()) (\<lambda>_. retP (g results)))) (\<lambda>_. True)" for ks
    by (intro keeps_then keeps_mapP keeps_show_ban keeps_if keeps_save keeps_return)
  then show ?thesis by (fastforce simp: keepsP_def)
qed

lemma keeps_register:
  assumes "allowed (RegisterBan raw reason short now)" and "scan_normalize_ip raw = Inr k"
  shows "keeps (register_ban_locked run cfg reason short now k) (\<lambda>_. True)"
  unfolding register_ban_locked_def Let_def
proof (rule keepsP_bind [OF keeps_entry], rule keeps_if, rule keeps_return)
  obtain v where v: "scan_ip_version k = Inr v" using normalized_version [OF assms(2)] by blast
  fix r
  assume r: "J k (Some r)" "\<not> now < unban_grace_until r"
  let ?r1 = "banned_record cfg short now r"
  let ?g = "\<lambda>b. ?r1\<lparr>firewall_applied := b,
      scan_events := last_events (scan_events ?r1 @ [ban_event cfg reason short now r b])\<rparr>"
  have J: "J k (Some (?g b))" for b
    using banned [OF assms r(1), of b] r(2) by (simp add: ban_record_def Let_def)
  show "keeps (bindP (put_record k ?r1) (\<lambda>_. bindP (firewall_add run cfg k (ban_length cfg (strikes ?r1) short)) (\<lambda>b.
      bindP (put_record k (?g b)) (\<lambda>_. bindP save_unlocked (\<lambda>_.
        retP (Some \<lparr>info_ip = k, info_strikes = strikes ?r1, info_ban_until = ban_until ?r1,
           info_remaining_seconds = (ban_until ?r1 - now) div MICROS, info_long_term = long_term ?r1,
           info_firewall = b, info_firewall_enabled = firewall_enabled cfg\<rparr>)))))) (\<lambda>_. True)"
    unfolding put_twice [OF kernel_only_firewall [OF v]]
    by (intro keeps_then keeps_firewall keeps_put J keeps_save keeps_return)
qed

lemma keeps_release: "keeps (release_firewall_locked (run :: 'k runner) c k) (\<lambda>_. True)"
proof -
  have tail: "keeps (\<lambda>st. case find_record st k of None \<Rightarrow> (Inr True, st)
       | Some r \<Rightarrow> bindP (put_record k (released_record r)) (\<lambda>_. bindP save_unlocked (\<lambda>_. retP True)) (st :: 'k scan_store)) (\<lambda>_. True)"
    (is "keeps ?t _")
  proof -
    have "held st'" if st: "held st" and run: "?t st = (res, st')" for st st' :: "'k scan_store" and res
    proof (cases "find_record st k")
      case None
      then show ?thesis using that by simp
    next
      case (Some r)
      then have "J k (Some (released_record r))" using held_record [OF st, of k] released by simp
      then have K: "keeps (bindP (put_record k (released_record r)) (\<lambda>_. bindP save_unlocked (\<lambda>_. retP True))) (\<lambda>_. True)"
        by (intro keeps_then keeps_put keeps_save keeps_return)
      then show ?thesis using run Some held_after [OF K st] by simp
    qed
    then show ?thesis by (auto simp: keepsP_def)
  qed
  show ?thesis
    unfolding release_firewall_locked_def remove_if_enabled_def
    by (intro keeps_then keeps_if keeps_firewall keeps_return tail)
qed

lemma keeps_unban:
  assumes "allowed (Unban raw clear grace now)" and "scan_normalize_ip raw = Inr k"
  shows "keeps (unban_ip_locked run c clear (grace_end cfg grace now) k) (\<lambda>_. True)"
  unfolding unban_ip_locked_def remove_if_enabled_def
  by (intro keeps_then keeps_if keeps_firewall keeps_return keepsP_bind [OF keeps_entry] keeps_put
      unbanned [OF assms] keeps_save)

lemma handle_stored:
  assumes "allowed req" and "stored st"
  shows "stored (scan_handle run cfg req st)"
proof (cases req)
  case (ListGraces now)
  then show ?thesis
    using assms(2) by (simp add: get_grace_entries_def locked_stored keeps_look)
next
  case (AskGrace ip now)
  then show ?thesis
    using assms(2) by (simp add: is_in_unban_grace_def in_unban_grace_def normalized_stored keeps_look)
next
  case (SyncFirewall now)
  have "keeps (bindP (mapP (sync_family run cfg now) [4, 6]) (\<lambda>results.
         bindP save_unlocked (\<lambda>_. retP (list_all (\<lambda>b. b) results)))) (\<lambda>_. True)"
    by (intro keeps_then keeps_mapP keeps_sync_family keeps_save keeps_return)
  then show ?thesis
    using SyncFirewall assms(2) locked_stored by (auto simp: sync_firewall_from_store_def)
next
  case EnsureFirewall
  have "keeps (bindP (mapP (ensure_family_infrastructure run cfg) [4, 6]) (\<lambda>results. retP (list_all (\<lambda>b. b) results))) (\<lambda>_. True)"
    by (intro keeps_then keeps_mapP keeps_firewall keeps_return)
  then show ?thesis using EnsureFirewall assms(2) locked_stored by (auto simp: ensure_firewall_infrastructure_def)
next
  case FlushSets
  have "stored (snd (flush_sets_locked run cfg st))" if "\<not> (firewall_enabled cfg \<and> \<not> dry_run cfg)"
    using that assms(2) by (auto simp: flush_sets_locked_def)
  moreover have "stored (snd (state_lock (flush_sets_locked run cfg) st))"
    using assms(2) by (rule locked_stored [OF keeps_sets(3)])
  ultimately show ?thesis using FlushSets by (auto simp: flush_firewall_sets_def)
next
  case ClearBans
  then have "J k None" for k using cleared assms(1) by simp
  then have "good []" by (simp add: good_def record_in_def)
  then have "keeps (modifyP (\<lambda>st. st\<lparr>st_data := []\<rparr>)) (\<lambda>_. True)"
    by (auto simp: keepsP_def held_def stored_def)
  then have "keeps (bindP (if firewall_enabled cfg then flush_sets_locked run cfg else retP True) (\<lambda>flushed.
      if \<not> flushed then retP False
      else bindP (modifyP (\<lambda>st. st\<lparr>st_data := []\<rparr>)) (\<lambda>_. bindP save_unlocked (\<lambda>_. retP True)))) (\<lambda>_. True)"
    by (intro keeps_then keeps_if keeps_sets keeps_return keeps_save)
  from locked_stored [OF this assms(2)] ClearBans show ?thesis by (simp only: scan_handle.simps scan_clear_all_def)
qed (use assms in \<open>auto simp: record_attempt_def prune_attempts_def touch_ip_blocked_def register_ban_def is_banned_def
      get_active_bans_def release_firewall_only_def unban_ip_def
      intro!: normalized_stored locked_stored keeps_prune keeps_record_attempt keeps_touch keeps_register
        keeps_is_banned keeps_active_bans keeps_release keeps_unban\<close>)

lemma reachable_stored:
  assumes "scan_reachable run cfg allowed st0 st" and "stored st0"
  shows "stored st"
  using assms
proof induction
  case (request st req)
  then show ?case using handle_stored by blast
qed (simp_all add: stored_def)

end

section \<open>Records explain their bans\<close>

text \<open>
  The strikes are counted, at most fifty events are kept, and a ban in force is the one of the last
  event: it began then, lasts as long as the event says, and bears the number of strikes.\<close>

definition event_ok :: "scan_settings \<Rightarrow> scan_event \<Rightarrow> bool" where
  "event_ok cfg ev \<longleftrightarrow> (ev_long_term ev \<longleftrightarrow> strikes_for_year cfg \<le> ev_strike ev)
     \<and> (if ev_long_term ev then ev_ban_seconds ev = year_ban_seconds cfg else 60 \<le> ev_ban_seconds ev)"

definition record_ok :: "scan_settings \<Rightarrow> string \<Rightarrow> scan_record \<Rightarrow> bool" where
  "record_ok cfg k r \<longleftrightarrow> rec_ip r = k \<and> 0 \<le> strikes r \<and> (long_term r \<longrightarrow> strikes_for_year cfg \<le> strikes r)
     \<and> length (scan_events r) \<le> 50 \<and> (\<forall>ev \<in> set (scan_events r). event_ok cfg ev)
     \<and> (ban_until r \<noteq> 0 \<longrightarrow> scan_events r \<noteq> [] \<and> ev_strike (last (scan_events r)) = strikes r
          \<and> ban_until r = ev_at (last (scan_events r)) + ev_ban_seconds (last (scan_events r)) * MICROS)"

lemma last_events_facts:
  "length (last_events evs) \<le> 50" "set (last_events evs) \<subseteq> set evs"
  "evs \<noteq> [] \<Longrightarrow> last_events evs \<noteq> [] \<and> last (last_events evs) = last evs"
  using set_drop_subset [of "length evs - 50" evs] by (auto simp: last_events_def last_drop not_le)

lemma ban_record_facts:
  "rec_ip (ban_record cfg reason short now r b) = rec_ip r"
  "strikes (ban_record cfg reason short now r b) = strikes r + 1"
  "long_term (ban_record cfg reason short now r b) = (strikes_for_year cfg \<le> strikes r + 1)"
  "ban_until (ban_record cfg reason short now r b) = now + ban_length cfg (strikes r + 1) short * MICROS"
  "scan_events (ban_record cfg reason short now r b) = last_events (scan_events r @ [ban_event cfg reason short now r b])"
  "unban_grace_until (ban_record cfg reason short now r b) = unban_grace_until r"
  by (simp_all add: ban_record_def banned_record_def Let_def)

interpretation ok: record_contract "\<lambda>k x. \<forall>r. x = Some r \<longrightarrow> record_ok cfg k r" cfg "\<lambda>_. True" for cfg
proof (unfold_locales, goal_cases)
  case (6 raw reason short now k r b)
  note r = 6(3) [rule_format, OF refl]
  have ev: "event_ok cfg (ban_event cfg reason short now r b)"
    by (auto simp: event_ok_def ban_event_def ban_length_def)
  show ?case
    using r ev last_events_facts [of "scan_events r @ [ban_event cfg reason short now r b]"]
    by (auto simp: record_ok_def ban_record_facts ban_event_def)
qed (auto simp: record_ok_def new_record_def released_record_def unbanned_record_def Let_def)

definition file_explained :: "scan_settings \<Rightarrow> scan_file \<Rightarrow> bool" where
  "file_explained cfg f \<longleftrightarrow>
     (\<exists>d. f = Entries d \<and> wf_dict d \<and> (\<forall>k r. record_in d k = Some r \<longrightarrow> record_ok cfg k r))"

text \<open>C40: over any sequence of requests and any behaviour of the kernel, starting without a file, every
  record of the file bears its key, counts its strikes, keeps at most fifty sound events, is marked
  long-term only from the configured number of strikes on, and a ban it holds is the one of its last
  event.\<close>

theorem scan_records_explain_bans:
  assumes "scan_reachable run cfg (\<lambda>_. True) (scan_init \<lparr>st_file = Missing, st_data = d0, st_kernel = k0\<rparr>) st"
  shows "file_explained cfg (st_file st)"
proof -
  have "ok.stored cfg (scan_init \<lparr>st_file = Missing, st_data = d0, st_kernel = k0\<rparr>)"
    by (simp add: ok.stored_def ok.good_def scan_init_def scan_load_def save_unlocked_def Let_def record_in_def)
  from ok.reachable_stored [OF assms this] show ?thesis by (auto simp: ok.stored_def ok.good_def file_explained_def)
qed

end
