(* ===== verification/ScannerDemo.thy ===== *)
theory ScannerDemo
  imports ScannerSync
begin

text \<open>
  A kernel that keeps the laws: the sets with their members and the rules, with the limit \<^verbatim>\<open>ipset\<close>
  documents for a timeout. It shows that the laws can hold.
\<close>

section \<open>Reading a command\<close>

fun command_of :: "string list \<Rightarrow> scan_command option" where
  "command_of [a, b, c] =
     (if a \<noteq> ''ipset'' then None
      else if b = ''list'' then Some ListSets
      else if b = ''flush'' then Some (FlushSet c)
      else if b = ''destroy'' then Some (DestroySet c)
      else None)"
| "command_of [a, b, c, d] =
     (if a \<noteq> ''ipset'' then None
      else if b = ''test'' then Some (TestMember c d)
      else if b = ''swap'' then Some (SwapSets c d)
      else None)"
| "command_of [a, b, c, d, e] =
     (if a \<noteq> ''ipset'' then None
      else if b = ''add'' then Some (AddMember c d 0)
      else if b = ''del'' then Some (DelMember c d)
      else None)"
| "command_of [a, b, c, d, e, f, g] = map_option (AddMember c d) (read_int g)"
| "command_of [a, b, c, d, e, f, g, h, i, j, k] =
     (if c = ''-C'' then Some (CheckRule a h) else if c = ''-D'' then Some (DeleteRule a h) else None)"
| "command_of [a, b, c, d, e, f, g, h, i, j, k, l] = Some (InsertRule a i)"
| "command_of [a, b, c, d, e, f, g, h, i, j, k, l, m] = Some (CreateSet c f)"
| "command_of args = None"

section \<open>Doing it\<close>

record demo_kernel =
  demo_sets :: "(string \<times> string list) list"
  demo_rules :: "(string \<times> string) list"

definition MAX_TIMEOUT :: int where "MAX_TIMEOUT = 2147483"

definition demo_set :: "string \<Rightarrow> string list \<Rightarrow> demo_kernel \<Rightarrow> demo_kernel" where
  "demo_set s xs k = k\<lparr>demo_sets := AList.update s xs (demo_sets k)\<rparr>"

abbreviation done_ok :: "demo_kernel \<Rightarrow> (bool \<times> string) \<times> demo_kernel" where
  "done_ok k \<equiv> ((True, []), k)"

abbreviation refused :: "demo_kernel \<Rightarrow> (bool \<times> string) \<times> demo_kernel" where
  "refused k \<equiv> ((False, []), k)"

definition demo_member :: "string \<Rightarrow> (string list \<Rightarrow> (bool \<times> string) \<times> demo_kernel) \<Rightarrow> demo_kernel
    \<Rightarrow> (bool \<times> string) \<times> demo_kernel" where
  "demo_member s f k = (case map_of (demo_sets k) s of None \<Rightarrow> refused k | Some xs \<Rightarrow> f xs)"

definition demo_list :: "demo_kernel \<Rightarrow> string" where
  "demo_list k = join [LF] (map fst (demo_sets k))"

fun demo_step :: "scan_command \<Rightarrow> demo_kernel \<Rightarrow> (bool \<times> string) \<times> demo_kernel" where
  "demo_step ListSets k =
     (if set (splitlines (demo_list k)) = set (map fst (demo_sets k)) then ((True, demo_list k), k) else refused k)"
| "demo_step (CreateSet s fam) k = done_ok (if map_of (demo_sets k) s = None then demo_set s [] k else k)"
| "demo_step (AddMember s ip t) k =
     (if MAX_TIMEOUT < t then refused k else demo_member s (\<lambda>xs. done_ok (demo_set s (ip # xs) k)) k)"
| "demo_step (DelMember s ip) k = demo_member s (\<lambda>xs. done_ok (demo_set s (filter (\<lambda>x. x \<noteq> ip) xs) k)) k"
| "demo_step (TestMember s ip) k = demo_member s (\<lambda>xs. if ip \<in> set xs then done_ok k else refused k) k"
| "demo_step (FlushSet s) k = demo_member s (\<lambda>xs. done_ok (demo_set s [] k)) k"
| "demo_step (DestroySet s) k = demo_member s (\<lambda>xs. done_ok (k\<lparr>demo_sets := AList.delete s (demo_sets k)\<rparr>)) k"
| "demo_step (SwapSets s t) k =
     demo_member s (\<lambda>xs. demo_member t (\<lambda>ys. done_ok (demo_set t xs (demo_set s ys k))) k) k"
| "demo_step (CheckRule fw s) k = (if (fw, s) \<in> set (demo_rules k) then done_ok k else refused k)"
| "demo_step (InsertRule fw s) k = done_ok (k\<lparr>demo_rules := (fw, s) # demo_rules k\<rparr>)"
| "demo_step (DeleteRule fw s) k =
     (if (fw, s) \<in> set (demo_rules k) then done_ok (k\<lparr>demo_rules := remove1 (fw, s) (demo_rules k)\<rparr>) else refused k)"

definition demo_run :: "demo_kernel runner" where
  "demo_run args k = (case command_of args of None \<Rightarrow> refused k | Some c \<Rightarrow> demo_step c k)"

definition demo_view :: "demo_kernel \<Rightarrow> kernel_view" where
  "demo_view k = (\<lambda>s. map_option set (map_of (demo_sets k) s), \<lambda>fw s. count_list (demo_rules k) (fw, s))"

section \<open>It keeps the laws\<close>

lemma count_pos: "0 < count_list xs x \<longleftrightarrow> x \<in> set xs"
  using count_list_0_iff [of xs x] by auto

lemma count_remove: "count_list (remove1 x xs) y = (if x = y then count_list xs y - 1 else count_list xs y)"
  by (induction xs) (auto simp: count_pos)

lemma demo_step_law: "demo_step c k = ((True, out), k') \<Longrightarrow> command_law c out (demo_view k) (demo_view k')"
proof (cases c)
  case ListSets
  have "dom (\<lambda>s. map_option set (map_of (demo_sets k) s)) = set (map fst (demo_sets k))"
    using map_of_eq_None_iff [of "demo_sets k"] by (auto simp: dom_def)
  then show "demo_step c k = ((True, out), k') \<Longrightarrow> ?thesis"
    using ListSets by (auto simp: demo_view_def split: if_splits)
next
  case (CreateSet s fam)
  then show "demo_step c k = ((True, out), k') \<Longrightarrow> ?thesis"
    by (auto simp: demo_view_def demo_set_def update_conv' fun_eq_iff split: if_splits)
next
  case (DestroySet s)
  then show "demo_step c k = ((True, out), k') \<Longrightarrow> ?thesis"
    by (auto simp: demo_view_def demo_member_def delete_conv' fun_eq_iff split: option.splits)
next
  case (DeleteRule fw s)
  then show "demo_step c k = ((True, out), k') \<Longrightarrow> ?thesis"
    by (auto simp: demo_view_def count_remove fun_eq_iff count_pos split: if_splits)
qed (auto simp: demo_view_def demo_member_def demo_set_def update_conv' fun_eq_iff count_pos
    split: if_splits option.splits)

lemma demo_step_refused: "demo_step c k = ((False, out), k') \<Longrightarrow> k' = k"
  by (cases c) (auto simp: demo_member_def split: if_splits option.splits)

lemma law_any_timeout: "command_law (AddMember s ip t) out w w' = command_law (AddMember s ip t') out w w'"
  by (cases w) simp

lemma command_of_args:
  "command_of (command_args c) = Some c
   \<or> command_of (command_args c) = None
   \<or> (\<exists>s ip t t'. c = AddMember s ip t \<and> command_of (command_args c) = Some (AddMember s ip t'))"
  by (cases c) (auto simp: rule_args_def)

lemma demo_laws: "kernel_laws demo_run demo_view"
  unfolding kernel_laws_def
proof (intro allI impI)
  fix c k ok out k'
  assume run: "demo_run (command_args c) k = ((ok, out), k')"
  from command_of_args [of c]
  show "if ok then command_law c out (demo_view k) (demo_view k')
      else demo_view k' = demo_view k \<or> (\<exists>out'. command_law c out' (demo_view k) (demo_view k'))"
  proof (elim disjE exE conjE)
    assume "command_of (command_args c) = Some c"
    then have r: "demo_step c k = ((ok, out), k')" using run by (simp only: demo_run_def option.case)
    show ?thesis
    proof (cases ok)
      case True
      then show ?thesis using demo_step_law [of c k out k'] r by simp
    next
      case False
      then show ?thesis using demo_step_refused [of c k out k'] r by simp
    qed
  next
    assume "command_of (command_args c) = None"
    then show ?thesis using run by (simp only: demo_run_def option.case) auto
  next
    fix s ip t t'
    assume c: "c = AddMember s ip t" and "command_of (command_args c) = Some (AddMember s ip t')"
    then have r: "demo_step (AddMember s ip t') k = ((ok, out), k')" using run by (simp only: demo_run_def option.case)
    show ?thesis
    proof (cases ok)
      case True
      have "command_law (AddMember s ip t) out (demo_view k) (demo_view k')"
        using demo_step_law [of "AddMember s ip t'" k out k'] r True law_any_timeout by (simp only: simp_thms) blast
      then show ?thesis using True c by simp
    next
      case False
      have "k' = k" by (rule demo_step_refused) (use r False in \<open>simp only:\<close>)
      then show ?thesis using False by simp
    qed
  qed
qed

end
