(* ===== verification/ScannerClaims.thy ===== *)
theory ScannerClaims
  imports ScannerProps ScannerDemo "HOL-Library.Code_Target_Nat"
begin

text \<open>
  What the operations of the scanner store do: the kernel follows the file, a ban lasts exactly as
  long as announced, an unbanned address is left in peace, and what a ban longer than \<^verbatim>\<open>ipset\<close>
  allows does to the rest.
\<close>

section \<open>The kernel follows the file\<close>

text \<open>The kernel of a family before and after, for the addresses with a ban that lasts.\<close>

definition served :: "nat \<Rightarrow> string set \<Rightarrow> kernel_view \<Rightarrow> kernel_view \<Rightarrow> bool \<Rightarrow> bool" where
  "served v ips w w' ok \<longleftrightarrow>
     fst w' (main_set v) \<in> {fst w (main_set v), Some (case fst w (main_set v) of None \<Rightarrow> {} | Some X \<Rightarrow> X), Some ips}
     \<and> (ok \<longrightarrow> fst w' (main_set v) = Some ips \<and> 0 < snd w' (fam_firewall (family_spec v)) (main_set v)
          \<and> fst w' (legacy_set v) = None)"

text \<open>C27: whatever the commands do within their laws, a synchronisation returns a verdict, and the main
  set of each family keeps its members, is new and empty, or holds exactly the addresses whose ban
  lasts; when the verdict is good it holds these, a rule drops their packets, and the set of the
  earlier version is gone. The bans of the file stay as they are.\<close>

theorem sync_refines_bans:
  assumes "kernel_laws run view" and "firewall_enabled cfg" and "\<not> dry_run cfg"
    and "sync_firewall_from_store run cfg now st = (r, st')"
  shows "\<exists>ok. r = Inr ok
    \<and> served 4 (active_ips now 4 (st_data (scan_load st))) (view (st_kernel st)) (view (st_kernel st')) ok
    \<and> served 6 (active_ips now 6 (st_data (scan_load st))) (view (st_kernel st)) (view (st_kernel st')) ok
    \<and> st_file st' = Entries (sort_key fst (st_data st'))
    \<and> plain_data (st_data st') = plain_data (st_data (scan_load st))"
proof -
  let ?A = "\<lambda>v. active_ips now v (st_data (scan_load st))"
  obtain ok w1 a b where r: "r = Inr ok" "ok = (a \<and> b)"
    and s4: "family_synced 4 (?A 4) (view (st_kernel st)) a w1"
    and s6: "family_synced 6 (?A 6) w1 b (view (st_kernel st'))"
    and f: "plain_data (st_data st') = plain_data (st_data (scan_load st))"
      "st_file st' = Entries (sort_key fst (st_data st'))"
    using sync_outcome [OF assms] by blast
  note other = family_synced_other [OF s4 s6]
  have "served 4 (?A 4) (view (st_kernel st)) (view (st_kernel st')) ok"
    using s4 other r(2) by (simp add: served_def family_synced_def)
  moreover have "served 6 (?A 6) (view (st_kernel st)) (view (st_kernel st')) ok"
    using s6 other r(2) by (simp add: served_def family_synced_def)
  ultimately show ?thesis using r(1) f by blast
qed

section \<open>A ban longer than the kernel allows\<close>

definition never :: "('k, bool) scan_prog \<Rightarrow> bool" where
  "never m \<longleftrightarrow> (\<forall>st st'. m st \<noteq> (Inr True, st'))"

lemma never_bind: "(\<And>x. never (f x)) \<Longrightarrow> never (bindP m f)"
  by (auto simp: never_def bindP_Inr_iff)

lemma never_bind_first: "never m \<Longrightarrow> never (f False) \<Longrightarrow> never (bindP m f)"
  by (auto simp: never_def bindP_Inr_iff) (metis (full_types))

lemma never_ret: "never (retP False)"
  by (simp add: never_def)

lemma never_if: "(b \<Longrightarrow> never m) \<Longrightarrow> (\<not> b \<Longrightarrow> never m') \<Longrightarrow> never (if b then m else m')"
  by simp

lemma mapP_never:
  assumes "never (f x)"
  shows "x \<in> set xs \<Longrightarrow> mapP f xs st = (Inr ys, st') \<Longrightarrow> False \<in> set ys"
proof (induction xs arbitrary: ys st)
  case (Cons z zs)
  from Cons.prems(2) obtain y s zs' where z: "f z st = (Inr y, s)" "mapP f zs s = (Inr zs', st')" "ys = y # zs'"
    by (auto simp: bindP_Inr_iff)
  show ?case
  proof (cases "x = z")
    case True
    then show ?thesis using z assms by (cases y) (auto simp: never_def)
  next
    case False
    then show ?thesis using Cons z by auto
  qed
qed simp

lemma never_all:
  assumes "x \<in> set xs" and "never (f x)"
  shows "never (bindP (mapP f xs) (\<lambda>results. retP (list_all (\<lambda>b. b) results)))"
  unfolding never_def
proof (intro allI notI)
  fix st st'
  assume "bindP (mapP f xs) (\<lambda>results. retP (list_all (\<lambda>b. b) results)) st = (Inr True, st')"
  then obtain ys where "mapP f xs st = (Inr ys, st')" "list_all (\<lambda>b. b) ys" by (auto simp: bindP_Inr_iff)
  then show False using mapP_never [of f x xs, OF assms(2,1)] by (auto simp: list_all_iff)
qed

text \<open>\<^verbatim>\<open>ipset\<close> refuses a timeout of more than 2147483 seconds.\<close>

definition refuses_long :: "'k runner \<Rightarrow> bool" where
  "refuses_long run \<longleftrightarrow> (\<forall>s ip t k. MAX_TIMEOUT < t \<longrightarrow> \<not> fst (fst (run (command_args (AddMember s ip t)) k)))"

lemma never_add:
  assumes "refuses_long run" and "MAX_TIMEOUT < t"
  shows "never (add_to_ipset run s ip t)"
  unfolding never_def
proof (intro allI notI)
  fix st st'
  assume "add_to_ipset run s ip t st = (Inr True, st')"
  then obtain out k where "run (command_args (AddMember s ip t)) (st_kernel st) = ((True, out), k)"
    by (auto simp: add_to_ipset_def succeeds_def run_scan_command_def bindP_Inr_iff simp del: command_args.simps
        split: prod.splits)
  moreover have "\<not> fst (fst (run (command_args (AddMember s ip t)) (st_kernel st)))"
    using assms unfolding refuses_long_def by blast
  ultimately show False by simp
qed

lemma never_fill:
  assumes "refuses_long run" and "(ip, t) \<in> set members" and "MAX_TIMEOUT < t"
  shows "never (fill_set run s members)"
  unfolding fill_set_def by (rule never_all [OF assms(2)]) (use never_add assms in simp)

lemma never_sync_ipset:
  assumes "refuses_long run" and "(ip, t) \<in> set members" and "MAX_TIMEOUT < t"
  shows "never (sync_family_ipset run v members)"
proof -
  have "never (fill_family_ipset run v members)"
    unfolding fill_family_ipset_def Let_def
    by (rule never_bind, rule never_if, rule never_ret, rule never_bind_first [OF never_fill [OF assms]])
      (simp, intro never_bind never_ret)
  then show ?thesis
    unfolding sync_family_ipset_def Let_def
    by (auto split: option.splits bool.splits intro!: never_bind never_if never_ret)
qed

lemma never_sync_kernel:
  assumes "refuses_long run" and "(raw, ip, t) \<in> set records" and "MAX_TIMEOUT < t"
  shows "never (sync_kernel run cfg v ready records)"
proof -
  have "(ip, t) \<in> set (map snd records)" using assms(2) by force
  then have "never (if ready then sync_family_ipset run v (map snd records) else retP False)"
    using never_sync_ipset assms(1,3) by (intro never_if never_ret) blast
  then show ?thesis
    unfolding sync_kernel_def by (rule never_bind_first) (simp, intro never_bind never_ret)
qed

text \<open>A ban of the file that is too long for the kernel.\<close>

definition long_ban :: "int \<Rightarrow> nat \<Rightarrow> scan_entries \<Rightarrow> bool" where
  "long_ban now v d \<longleftrightarrow> list_ex (\<lambda>(raw, ip, t). MAX_TIMEOUT < t) (family_records now v d)"

lemma long_ban_plain: "plain_data d = plain_data d' \<Longrightarrow> long_ban now v d = long_ban now v d'"
  unfolding long_ban_def by (metis family_records_plain)

lemma data_kept:
  assumes "triple (at view w f d) m (\<lambda>x. seen view f d (P x))" and "m st = (Inr x, st')"
    and "w = view (st_kernel st)" and "f = st_file st" and "d = st_data st"
  shows "st_data st' = st_data st"
  using tripleD [OF assms(1) _ assms(2)] assms(3-5) by (auto simp: at_def)

lemma long_ban_family:
  assumes laws: "kernel_laws run view" and "refuses_long run" and on: "firewall_enabled cfg" "\<not> dry_run cfg"
    and long: "long_ban now v (st_data st)"
  shows "sync_family run cfg now v st \<noteq> (Inr True, st')"
proof
  assume "sync_family run cfg now v st = (Inr True, st')"
  then obtain ready s1 s2 where 1: "ensure_family_infrastructure run cfg v st = (Inr ready, s1)"
    and 2: "sync_kernel run cfg v ready (family_records now v (st_data s1)) s2 = (Inr True, st')"
    using on(2) by (auto simp: sync_family_def bindP_Inr_iff)
  have d: "st_data s1 = st_data st"
    by (rule data_kept [OF ensure_family_triple [OF laws on] 1 refl refl refl])
  obtain raw ip t where t: "(raw, ip, t) \<in> set (family_records now v (st_data s1))" "MAX_TIMEOUT < t"
    using long d by (auto simp: long_ban_def list_ex_iff)
  show False using never_sync_kernel [OF assms(2) t] 2 by (simp add: never_def)
qed

text \<open>\<^verbatim>\<open>ipset\<close> documents a limit of 2147483 seconds for a timeout, and the default ban of a year is
  longer. As long as the file holds one such ban, no synchronisation of any version of the protocol
  succeeds: neither this ban nor any other of the family is restored.\<close>

theorem long_ban_blocks_sync:
  assumes laws: "kernel_laws run view" and refuses: "refuses_long run"
    and on: "firewall_enabled cfg" "\<not> dry_run cfg"
    and long: "long_ban now 4 (st_data (scan_load st)) \<or> long_ban now 6 (st_data (scan_load st))"
    and sync: "sync_firewall_from_store run cfg now st = (r, st')"
  shows "r = Inr False"
proof -
  let ?st = "scan_load st"
  obtain ok where r: "r = Inr ok" using sync_outcome [OF laws on sync] by blast
  have "\<not> ok"
  proof
    assume ok
    then have "sync_firewall_from_store run cfg now st = (Inr True, st')" using sync r by simp
    then obtain s1 s2 where 4: "sync_family run cfg now 4 ?st = (Inr True, s1)"
      and 6: "sync_family run cfg now 6 s1 = (Inr True, s2)"
      using on(1) by (auto simp: sync_firewall_from_store_def state_lock_def bindP_Inr_iff save_unlocked_def)
    have "at view (view (st_kernel ?st)) (st_file ?st) (st_data ?st) ?st" by (simp add: at_def)
    from tripleD [OF sync_family_triple [OF laws on refl, where w = "view (st_kernel ?st)" and f = "st_file ?st"
        and d = "st_data ?st" and v = 4 and now = now] this 4]
    have "plain_data (st_data s1) = plain_data (st_data ?st)" by (auto simp: at_def)
    then have "long_ban now 6 (st_data s1) = long_ban now 6 (st_data ?st)" by (rule long_ban_plain)
    then show False
      using long long_ban_family [OF laws refuses on, of now 4 ?st s1] long_ban_family [OF laws refuses on, of now 6 s1 s2]
        4 6 by blast
  qed
  then show ?thesis using r by simp
qed

text \<open>Such a ban is not applied when it is made either.\<close>

lemma year_ban_not_applied:
  assumes "refuses_long run" and "\<not> dry_run cfg" and "MAX_TIMEOUT < year_ban_seconds cfg"
    and "register_ban_locked run cfg reason short now k st = (Inr (Some info), st')" and "info_long_term info"
  shows "\<not> info_firewall info"
proof -
  have "never (firewall_add run cfg k t)" if "MAX_TIMEOUT < t" for t
    using assms(2) never_add [OF assms(1) that]
    by (auto simp: firewall_add_def never_def bindP_Inr_iff split: if_splits sum.splits)
  moreover obtain r s2 s3 where
    "firewall_add run cfg k (ban_length cfg (strikes (banned_record cfg short now r)) short) s2 = (Inr (info_firewall info), s3)"
    "info_long_term info = long_term (banned_record cfg short now r)"
    using assms(4) by (auto simp: register_ban_locked_def bindP_Inr_iff Let_def split: if_splits)
  ultimately show ?thesis using assms(3,5) by (auto simp: never_def ban_length_def banned_record_def Let_def)
qed

section \<open>How long a ban lasts\<close>

text \<open>What an address is told of its ban.\<close>

lemma is_banned_value:
  assumes k: "scan_normalize_ip ip = Inr k" and r: "find_record (scan_load st) k = Some r"
  shows "fst (is_banned run cfg ip now st) = Inr (now < ban_until r)"
proof -
  obtain v where v: "scan_ip_version k = Inr v" using normalized_version [OF k] by blast
  obtain f d ks where st: "scan_load st = \<lparr>st_file = f, st_data = d, st_kernel = ks\<rparr>" by (cases "scan_load st")
  obtain x k1 where "\<forall>d. firewall_remove run cfg k \<lparr>st_file = f, st_data = d, st_kernel = ks\<rparr>
      = (Inr x, \<lparr>st_file = f, st_data = d, st_kernel = k1\<rparr>)"
    using kernel_onlyE [OF kernel_only_remove [OF v], of run cfg f ks] by blast
  then show ?thesis
    using k r st by (simp add: is_banned_def normalized_def state_lock_def is_banned_locked_def expire_ban_def
        save_unlocked_def put_record_def)
qed

lemma entry_found:
  "entry_unlocked k st = (Inr r, st') \<Longrightarrow> strikes r = (case find_record st k of None \<Rightarrow> 0 | Some r \<Rightarrow> strikes r)
   \<and> (wf_dict (st_data st) \<longrightarrow> wf_dict (st_data st'))"
  by (auto simp: entry_unlocked_def new_record_def put_record_def wf_dict_update split: option.splits)

lemma load_saved:
  assumes "save_unlocked st = (x, st')" and "wf_dict (st_data st)"
  shows "find_record (scan_load st') k = find_record st k"
  using assms record_in_sorted [OF assms(2)] by (auto simp: save_unlocked_def scan_load_def find_record_in)

text \<open>The strikes an address has before.\<close>

definition strikes_before :: "'k scan_store \<Rightarrow> string \<Rightarrow> int" where
  "strikes_before st k = (case find_record (scan_load st) k of None \<Rightarrow> 0 | Some r \<Rightarrow> strikes r)"

text \<open>a registered ban adds one strike, lasts a year from the configured number of strikes on and at
  least a minute before, and from then on, whatever the kernel does, the address counts as banned
  exactly up to the announced end.\<close>

theorem ban_lasts_as_announced:
  assumes k: "scan_normalize_ip ip = Inr k" and d: "wf_dict (st_data (scan_load st))"
    and reg: "register_ban run cfg ip reason short t st = (Inr (Some info), st')"
  shows "info_strikes info = strikes_before st k + 1
    \<and> info_ban_until info = t + (if strikes_for_year cfg \<le> strikes_before st k + 1 then year_ban_seconds cfg
      else max 60 short) * MICROS
    \<and> (\<forall>run' cfg' now. fst (is_banned run' cfg' ip now st') = Inr (now < info_ban_until info))"
proof -
  obtain v where v: "scan_ip_version k = Inr v" using normalized_version [OF k] by blast
  obtain r s1 where r: "entry_unlocked k (scan_load st) = (Inr r, s1)" and free: "\<not> t < unban_grace_until r"
    using reg k by (auto simp: register_ban_def normalized_def state_lock_def register_ban_locked_def
        bindP_Inr_iff split: if_splits)
  obtain f d1 ks where s1: "s1 = \<lparr>st_file = f, st_data = d1, st_kernel = ks\<rparr>" by (cases s1)
  let ?r1 = "banned_record cfg short t r"
  obtain b k1 where add: "\<forall>d. firewall_add run cfg k (ban_length cfg (strikes ?r1) short)
      \<lparr>st_file = f, st_data = d, st_kernel = ks\<rparr> = (Inr b, \<lparr>st_file = f, st_data = d, st_kernel = k1\<rparr>)"
    using kernel_onlyE [OF kernel_only_firewall [OF v], of run cfg "ban_length cfg (strikes ?r1) short" f ks] by blast
  let ?r2 = "?r1\<lparr>firewall_applied := b, scan_events := last_events (scan_events ?r1 @ [ban_event cfg reason short t r b])\<rparr>"
  let ?s2 = "\<lparr>st_file = f, st_data = AList.update k (Entry ?r2) d1, st_kernel = k1\<rparr>"
  have info: "info_strikes info = strikes ?r1" "info_ban_until info = ban_until ?r1"
    and saved: "save_unlocked ?s2 = (Inr (), st')"
    using reg k r free add s1
    by (auto simp: register_ban_def normalized_def state_lock_def register_ban_locked_def put_record_def Let_def
        save_unlocked_def)
  have "wf_dict (st_data ?s2)" using entry_found [OF r] d s1 by (simp add: wf_dict_update)
  then have "find_record (scan_load st') k = Some ?r2"
    using load_saved [OF saved] by (simp add: find_record_def dict_simps)
  from is_banned_value [OF k this] info(2)
  have "fst (is_banned run' cfg' ip now st') = Inr (now < info_ban_until info)" for run' cfg' now by simp
  then show ?thesis
    using info entry_found [OF r] by (simp add: strikes_before_def ban_length_def banned_record_def Let_def)
qed

section \<open>After an unban\<close>

text \<open>Requests that leave an address alone until an instant.\<close>

fun leaves_alone :: "string \<Rightarrow> int \<Rightarrow> scan_request \<Rightarrow> bool" where
  "leaves_alone k g (RegisterBan ip reason short now) \<longleftrightarrow> (scan_normalize_ip ip = Inr k \<longrightarrow> now < g)"
| "leaves_alone k g (Unban ip clear grace now) \<longleftrightarrow> scan_normalize_ip ip \<noteq> Inr k"
| "leaves_alone k g ClearBans \<longleftrightarrow> False"
| "leaves_alone k g req \<longleftrightarrow> True"

definition spared :: "string \<Rightarrow> int \<Rightarrow> string \<Rightarrow> scan_record option \<Rightarrow> bool" where
  "spared k g key x \<longleftrightarrow> key = k \<longrightarrow> (\<exists>r. x = Some r \<and> ban_until r = 0 \<and> unban_grace_until r = g)"

interpretation grace: record_contract "spared k g" cfg "leaves_alone k g" for k g cfg
  by unfold_locales (auto simp: spared_def released_record_def)

lemma unban_spares:
  assumes k: "scan_normalize_ip ip = Inr k" and d: "wf_dict (st_data (scan_load st))"
    and unban: "unban_ip run cfg ip clear grace t st = (Inr True, st1)"
  shows "\<exists>d r. st_file st1 = Entries d \<and> wf_dict d \<and> record_in d k = Some r
    \<and> ban_until r = 0 \<and> unban_grace_until r = grace_end cfg grace t"
proof -
  obtain v where v: "scan_ip_version k = Inr v" using normalized_version [OF k] by blast
  obtain f d0 ks where st: "scan_load st = \<lparr>st_file = f, st_data = d0, st_kernel = ks\<rparr>" by (cases "scan_load st")
  have "kernel_only (remove_if_enabled run cfg k)"
    unfolding remove_if_enabled_def by (intro kernel_only_if kernel_only_remove [OF v] kernel_only_ret)
  from kernel_onlyE [OF this, of f ks] obtain removed k1 where
    remove: "\<forall>d. remove_if_enabled run cfg k \<lparr>st_file = f, st_data = d, st_kernel = ks\<rparr>
      = (Inr removed, \<lparr>st_file = f, st_data = d, st_kernel = k1\<rparr>)" by blast
  let ?s1 = "\<lparr>st_file = f, st_data = d0, st_kernel = k1\<rparr>"
  obtain r s2 where r: "entry_unlocked k ?s1 = (Inr r, s2)" by (fastforce simp: entry_unlocked_def split: option.splits)
  have "wf_dict (st_data s2)" using entry_found [OF r] d st by simp
  then have wf: "wf_dict (AList.update k (Entry (unbanned_record clear (grace_end cfg grace t) r)) (st_data s2))"
    by (rule wf_dict_update)
  have "st_file st1 = Entries (sort_key fst (AList.update k (Entry (unbanned_record clear (grace_end cfg grace t) r)) (st_data s2)))"
    using unban k st remove r
    by (auto simp: unban_ip_def normalized_def state_lock_def unban_ip_locked_def put_record_def save_unlocked_def
        split: if_splits)
  then show ?thesis
    using wf by (auto simp: wf_dict_sorted record_in_sorted record_in_update unbanned_record_def released_record_def Let_def)
qed


section \<open>A run of the store\<close>

definition demo_cfg :: scan_settings where
  "demo_cfg = scan_init_settings (\<lambda>_. None) None None None None"

definition demo_ban :: scan_record where
  "demo_ban = (new_record ''203.0.113.9'')\<lparr>strikes := 1, ban_until := 4000000000\<rparr>"

definition demo_store :: "demo_kernel scan_store" where
  "demo_store = \<lparr>st_file = Entries [(''203.0.113.9'', Entry demo_ban)], st_data = [],
     st_kernel = \<lparr>demo_sets = [(''aa_scanner_v4'', [''198.51.100.7''])], demo_rules = [(''iptables'', ''aa_scanner_v4'')]\<rparr>\<rparr>"

lemma demo_ip: "scan_normalize_ip ''203.0.113.9'' = Inr ''203.0.113.9''" "scan_ip_version ''203.0.113.9'' = Inr 4"
  by code_simp+

lemma demo_on: "firewall_enabled demo_cfg" "\<not> dry_run demo_cfg" "year_ban_seconds demo_cfg = 31536000"
  "strikes_for_year demo_cfg = 5" "unban_grace_seconds demo_cfg = 1800"
  by code_simp+

lemma demo_active: "active_ips 1000000000 4 (st_data (scan_load demo_store)) = {''203.0.113.9''}"
  "active_ips 1000000000 6 (st_data (scan_load demo_store)) = {}"
  by (auto simp: active_ips_def demo_store_def scan_load_def demo_ban_def demo_ip)

theorem sync_refines_bans_witness:
  "\<exists>ok st'. sync_firewall_from_store demo_run demo_cfg 1000000000 demo_store = (Inr ok, st')
     \<and> served 4 {''203.0.113.9''} (demo_view (st_kernel demo_store)) (demo_view (st_kernel st')) ok
     \<and> served 6 {} (demo_view (st_kernel demo_store)) (demo_view (st_kernel st')) ok"
  using sync_refines_bans [OF demo_laws demo_on(1,2) prod.collapse [symmetric], of 1000000000 demo_store]
  by (metis demo_active prod.collapse)

lemma read_show_int: "0 \<le> t \<Longrightarrow> read_int (show_int t) = Some t"
proof -
  assume t: "0 \<le> t"
  let ?s = "show_nat (nat t)"
  have d: "list_all is_digit ?s" using show_nat_chars by (auto simp: list_all_iff)
  have n: "?s \<noteq> []" using show_base_nonempty by (simp add: show_nat_def)
  obtain c cs where s: "?s = c # cs" using n by (cases ?s) auto
  have c: "is_digit c" using d s by simp
  have "strip ?s = ?s"
    using d by (intro strip_clean) (auto simp: list_all_iff is_digit_def is_space_def Let_def)
  moreover have "split_on (CHR ''_'') ?s = [?s]"
    using d unfolding split_on_def by (intro split_by_single) (auto simp: list_all_iff is_digit_def Let_def)
  ultimately show ?thesis
    using t d s c by (auto simp: read_int_def show_int_def Let_def is_digit_def read_show_nat [of "nat t", unfolded s])
qed

lemma demo_refuses: "refuses_long demo_run"
  unfolding refuses_long_def
  by (auto simp: demo_run_def read_show_int MAX_TIMEOUT_def)

definition demo_year :: "demo_kernel scan_store" where
  "demo_year = demo_store\<lparr>st_file := Entries [(''203.0.113.9'', Entry (demo_ban\<lparr>ban_until := 31536000000000\<rparr>))]\<rparr>"

theorem long_ban_blocks_sync_witness:
  "\<exists>st'. sync_firewall_from_store demo_run demo_cfg 0 demo_year = (Inr False, st')"
proof -
  have "long_ban 0 4 (st_data (scan_load demo_year))"
    by (simp add: long_ban_def demo_year_def demo_store_def scan_load_def family_records_def family_record_def
        family_entry_def demo_ip demo_ban_def MAX_TIMEOUT_def MICROS_def)
  then show ?thesis
    using long_ban_blocks_sync [OF demo_laws demo_refuses demo_on(1,2) disjI1 prod.collapse [symmetric], of 0 demo_year]
    by (metis prod.collapse)
qed

definition demo_off :: scan_settings where
  "demo_off = demo_cfg\<lparr>firewall_enabled := False\<rparr>"

definition demo_banned :: "demo_kernel scan_store" where
  "demo_banned = snd (register_ban demo_run demo_off ''203.0.113.9'' ''scan'' 600 0 demo_store)"

lemma demo_registered: "\<exists>info. fst (register_ban demo_run demo_off ''203.0.113.9'' ''scan'' 600 0 demo_store) = Inr (Some info)"
  by (simp add: register_ban_def normalized_def demo_ip state_lock_def demo_store_def scan_load_def register_ban_locked_def
      entry_unlocked_def find_record_def demo_ban_def new_record_def firewall_add_def demo_off_def put_record_def
      save_unlocked_def Let_def bindP_def)

theorem ban_lasts_as_announced_witness:
  "fst (is_banned demo_run demo_cfg ''203.0.113.9'' 599999999 demo_banned) = Inr True
   \<and> fst (is_banned demo_run demo_cfg ''203.0.113.9'' 600000000 demo_banned) = Inr False"
proof -
  have wf: "wf_dict (st_data (scan_load demo_store))"
    by (simp add: demo_store_def scan_load_def wf_dict_def)
  have before: "strikes_before demo_store ''203.0.113.9'' = 1"
    by (simp add: strikes_before_def demo_store_def scan_load_def find_record_def demo_ban_def)
  obtain info where "register_ban demo_run demo_off ''203.0.113.9'' ''scan'' 600 0 demo_store = (Inr (Some info), demo_banned)"
    using demo_registered by (metis demo_banned_def prod.collapse)
  from ban_lasts_as_announced [OF demo_ip(1) wf this] show ?thesis
    by (simp add: before demo_off_def demo_on MICROS_def)
qed

definition demo_spared :: "demo_kernel scan_store" where
  "demo_spared = snd (unban_ip demo_run demo_off ''203.0.113.9'' True None 0 demo_store)"

lemma demo_unbanned: "unban_ip demo_run demo_off ''203.0.113.9'' True None 0 demo_store = (Inr True, demo_spared)"
proof -
  have "fst (unban_ip demo_run demo_off ''203.0.113.9'' True None 0 demo_store) = Inr True"
    by (simp add: unban_ip_def normalized_def demo_ip state_lock_def demo_store_def scan_load_def unban_ip_locked_def
      remove_if_enabled_def entry_unlocked_def find_record_def demo_ban_def new_record_def demo_off_def put_record_def
      save_unlocked_def bindP_def)
  then show ?thesis by (metis demo_spared_def prod.collapse)
qed


theorem scan_records_explain_bans_witness:
  "file_explained demo_cfg (st_file (scan_handle demo_run demo_cfg (RegisterBan ''203.0.113.9'' ''scan'' 600 1000000000)
       (scan_init \<lparr>st_file = Missing, st_data = [], st_kernel = \<lparr>demo_sets = [], demo_rules = []\<rparr>\<rparr>)))"
  by (rule scan_records_explain_bans [OF scan_reachable.request [OF scan_reachable.start]]) simp

end
