(* ===== verification/ClientIp.thy ===== *)
theory ClientIp
  imports PyIpFacts "HOL-Library.Code_Target_Nat"
begin

text \<open>
  \<^verbatim>\<open>setup/opt/AdminAntizapret/utils/client_ip.py\<close>: the address of a client behind trusted proxies, and
  why a header written by the client itself cannot change it.
\<close>

section \<open>Addresses\<close>

fun ipv4_mapped :: "ipaddr \<Rightarrow> ipaddr option" where
  "ipv4_mapped (V4 n) = None"
| "ipv4_mapped (V6 n s) = (if n div 2 ^ 32 = 65535 then Some (V4 (n mod 2 ^ 32)) else None)"

definition or_empty :: "string option \<Rightarrow> string" where
  "or_empty v = (case v of None \<Rightarrow> [] | Some s \<Rightarrow> s)"

definition unmap_addr :: "ipaddr \<Rightarrow> ipaddr" where
  "unmap_addr a = (case ipv4_mapped a of Some b \<Rightarrow> b | None \<Rightarrow> a)"

definition normalize_client_ip :: "string option \<Rightarrow> string option" where
  "normalize_client_ip v = map_option (\<lambda>a. show_addr (unmap_addr a)) (ip_address (strip (or_empty v)))"

section \<open>Trusted proxies\<close>

text \<open>
  A network of mapped addresses stands for the IPv4 network; \<open>None\<close> is the \<^verbatim>\<open>ValueError\<close> on host bits.\<close>

definition unmap_network :: "ipnet \<Rightarrow> ipnet option" where
  "unmap_network n =
     (if net_version n = 6 \<and> 96 \<le> prefixlen n
      then (case ipv4_mapped (net_addr n) of
              None \<Rightarrow> Some n
            | Some a \<Rightarrow>
                if mask_int 32 (prefixlen n - 96) (addr_int a) \<noteq> addr_int a then None
                else Some \<lparr>net_addr = a, prefixlen = prefixlen n - 96\<rparr>)
      else Some n)"

definition entry_covers :: "ipaddr \<Rightarrow> string \<Rightarrow> bool" where
  "entry_covers parsed entry =
     (let e = strip entry in
      e = ''*'' \<or>
      (case ip_network False e of
         None \<Rightarrow> False
       | Some n \<Rightarrow> (case unmap_network n of None \<Rightarrow> False | Some m \<Rightarrow> in_net parsed m)))"

definition is_trusted_proxy :: "string option \<Rightarrow> string list \<Rightarrow> bool" where
  "is_trusted_proxy address entries =
     (case normalize_client_ip address of
        None \<Rightarrow> False
      | Some s \<Rightarrow> (case ip_address s of None \<Rightarrow> False | Some parsed \<Rightarrow> list_ex (entry_covers parsed) entries))"

section \<open>The client behind them\<close>

text \<open>The loop over the chain, from its end.\<close>

fun pick_client :: "string list \<Rightarrow> string \<Rightarrow> string list \<Rightarrow> string" where
  "pick_client trusted client [] = client"
| "pick_client trusted client (a # rest) =
     (if \<not> is_trusted_proxy (Some client) trusted then client else pick_client trusted a rest)"

text \<open>The values of the two headers, if they are there.\<close>

definition resolve_client_ip ::
  "string option \<Rightarrow> string list \<Rightarrow> string option \<Rightarrow> string option \<Rightarrow> string option" where
  "resolve_client_ip remote_addr trusted forwarded_for x_real_ip =
     (case normalize_client_ip remote_addr of
        None \<Rightarrow> None
      | Some remote_ip \<Rightarrow>
          if \<not> is_trusted_proxy (Some remote_ip) trusted then Some remote_ip
          else (case forwarded_for of
              Some forwarded \<Rightarrow>
                let chain = map (\<lambda>v. normalize_client_ip (Some v)) (split_on (CHR '','') forwarded) in
                if list_ex (\<lambda>a. a = None) chain then None
                else Some (pick_client trusted remote_ip (rev (map the chain)))
            | None \<Rightarrow>
                (case x_real_ip of
                   Some r \<Rightarrow> normalize_client_ip (Some r)
                 | None \<Rightarrow> Some remote_ip)))"

text \<open>The list of proxies as it is written in the setting.\<close>

definition trusted_entries :: "string \<Rightarrow> string list" where
  "trusted_entries raw = filter (\<lambda>e. e \<noteq> []) (map strip (split_on (CHR '','') raw))"

section \<open>A normalised address\<close>

lemma unmap_printable: "addr_printable a \<Longrightarrow> addr_printable (unmap_addr a)"
  by (cases a rule: ipv4_mapped.cases) (auto simp: unmap_addr_def)

lemma unmap_unmap: "unmap_addr (unmap_addr a) = unmap_addr a"
  by (cases a rule: ipv4_mapped.cases) (auto simp: unmap_addr_def)

lemma strip_show_v4: "strip (show_addr (V4 n)) = show_addr (V4 n)"
  using show_ip4_chars [of _ n] by (intro strip_clean) (fastforce simp: is_digit_def is_space_def Let_def)

lemma normalize_again:
  assumes "normalize_client_ip v = Some s"
  shows "normalize_client_ip (Some s) = Some s"
proof -
  obtain a where a: "ip_address (strip (or_empty v)) = Some a" "s = show_addr (unmap_addr a)"
    using assms by (auto simp: normalize_client_ip_def)
  have "addr_printable (unmap_addr a)" using ip_address_printable [OF a(1)] by (rule unmap_printable)
  then have "ip_address s = Some (unmap_addr a)" using a(2) ip_address_show_printable by simp
  moreover have "strip s = s"
  proof (cases "unmap_addr a = a")
    case True
    then show ?thesis using show_addr_stripped [OF a(1)] a(2) by simp
  next
    case False
    then obtain n where "unmap_addr a = V4 n"
      by (cases a rule: ipv4_mapped.cases) (auto simp: unmap_addr_def split: if_splits)
    then show ?thesis using strip_show_v4 a(2) by simp
  qed
  ultimately show ?thesis using unmap_unmap by (simp add: normalize_client_ip_def or_empty_def a(2))
qed

lemma trusted_normalized:
  "normalize_client_ip v = Some s \<Longrightarrow> is_trusted_proxy (Some s) trusted = is_trusted_proxy v trusted"
  using normalize_again [of v s] by (simp add: is_trusted_proxy_def)

lemma trusted_reads: "is_trusted_proxy v trusted \<Longrightarrow> \<exists>s. normalize_client_ip v = Some s"
  by (auto simp: is_trusted_proxy_def split: option.splits)

section \<open>A forged header\<close>

lemma pick_client_behind:
  assumes "list_all (\<lambda>h. is_trusted_proxy (Some h) trusted) (cur # hs)" and "\<not> is_trusted_proxy (Some c) trusted"
  shows "pick_client trusted cur (hs @ c # fs) = c"
  using assms
proof (induction hs arbitrary: cur)
  case Nil
  then show ?case by (cases fs) simp_all
qed simp

lemma split_on_append: "split_on c (a @ c # b) = split_on c a @ split_on c b"
proof -
  have "split_by (\<lambda>x. x = c) (a @ c # b) = split_by (\<lambda>x. x = c) a @ split_by (\<lambda>x. x = c) b"
    by (induction a) (auto split: list.splits simp: neq_Nil_conv append_eq_Cons_conv)
  then show ?thesis by (simp add: split_on_def)
qed

text \<open>
  The proxies append what they have seen to the header they got: the text of the client, the
  address the first proxy saw, and the addresses of the proxies on the way.\<close>

definition forwarded_header :: "string \<Rightarrow> string \<Rightarrow> string list \<Rightarrow> string" where
  "forwarded_header forged client hops = forged @ CHR '','' # join '','' (client # hops)"

text \<open>C18: whatever a client behind trusted proxies writes into its header, it is taken for the
  address the first proxy saw, or for nobody when the text is no list of addresses.\<close>

theorem forged_header_ignored:
  assumes "is_trusted_proxy remote trusted"
    and "list_all (\<lambda>h. is_trusted_proxy (Some h) trusted \<and> CHR '','' \<notin> set h) hops"
    and "normalize_client_ip (Some client) = Some c" and "\<not> is_trusted_proxy (Some c) trusted"
    and "CHR '','' \<notin> set client"
  shows "resolve_client_ip remote trusted (Some (forwarded_header forged client hops)) x_real_ip =
    (if list_ex (\<lambda>v. normalize_client_ip (Some v) = None) (split_on (CHR '','') forged) then None else Some c)"
proof -
  let ?n = "\<lambda>v. normalize_client_ip (Some v)"
  obtain r where r: "normalize_client_ip remote = Some r" using trusted_reads [OF assms(1)] by blast
  have rt: "is_trusted_proxy (Some r) trusted" using trusted_normalized [OF r] assms(1) by simp
  have pieces: "split_on (CHR '','') (forwarded_header forged client hops) = split_on (CHR '','') forged @ client # hops"
  proof -
    have "split_on (CHR '','') (join '','' (client # hops)) = client # hops"
      using assms(2,5) by (intro split_on_join) (auto simp: list_all_iff)
    then show ?thesis by (simp add: forwarded_header_def split_on_append del: join.simps)
  qed
  have hops: "list_all (\<lambda>h. is_trusted_proxy (Some h) trusted) (r # rev (map (\<lambda>h. the (?n h)) hops))"
    "\<not> list_ex (\<lambda>v. ?n v = None) hops"
    using assms(2) rt trusted_reads trusted_normalized by (fastforce simp: list_all_iff list_ex_iff)+
  show ?thesis
  proof (cases "list_ex (\<lambda>v. ?n v = None) (split_on (CHR '','') forged)")
    case True
    then show ?thesis using r rt pieces by (simp add: resolve_client_ip_def Let_def list_ex_iff) force
  next
    case False
    have "pick_client trusted r (rev (map (\<lambda>h. the (?n h)) hops) @ c # rev (map (\<lambda>h. the (?n h)) (split_on (CHR '','') forged))) = c"
      by (rule pick_client_behind [OF hops(1) assms(4)])
    then show ?thesis
      using r rt pieces False hops(2) assms(3)
      by (simp add: resolve_client_ip_def Let_def list_ex_iff o_def) force
  qed
qed

theorem forged_header_ignored_witness:
  "resolve_client_ip (Some ''127.0.0.1'') [''127.0.0.0/8'', ''::1''] (Some ''10.0.0.1, 203.0.113.9,127.0.0.2'') None
     = Some ''203.0.113.9''"
proof -
  have "''10.0.0.1, 203.0.113.9,127.0.0.2'' = forwarded_header ''10.0.0.1'' '' 203.0.113.9'' [''127.0.0.2'']"
    by code_simp
  moreover have t: "is_trusted_proxy (Some ''127.0.0.1'') [''127.0.0.0/8'', ''::1'']"
    "list_all (\<lambda>h. is_trusted_proxy (Some h) [''127.0.0.0/8'', ''::1''] \<and> CHR '','' \<notin> set h) [''127.0.0.2'']"
    "normalize_client_ip (Some '' 203.0.113.9'') = Some ''203.0.113.9''"
    "\<not> is_trusted_proxy (Some ''203.0.113.9'') [''127.0.0.0/8'', ''::1'']"
    "CHR '','' \<notin> set '' 203.0.113.9''"
    "\<not> list_ex (\<lambda>v. normalize_client_ip (Some v) = None) (split_on (CHR '','') ''10.0.0.1'')"
    by code_simp+
  ultimately show ?thesis using forged_header_ignored [OF t(1-5), of "''10.0.0.1''" None] by (simp only: if_False)
qed

end
