(* ===== verification/TempWhitelist.thy ===== *)
theory TempWhitelist
  imports PyIpFacts PySort
begin

text \<open>
  \<^verbatim>\<open>setup/opt/AdminAntizapret/utils/temporary_whitelist_store.py\<close>: addresses admitted for a time. The
  file is read once, when the store is made. Instants are microseconds, durations are seconds.
\<close>

section \<open>Durations\<close>

definition DURATION_LABELS :: "(string \<times> int) list" where
  "DURATION_LABELS = [(''1h'', 3600), (''12h'', 43200), (''24h'', 86400)]"

definition duration_seconds_from_label :: "string \<Rightarrow> int option" where
  "duration_seconds_from_label label = map_of DURATION_LABELS (lower (strip label))"

definition duration_label_from_seconds :: "int \<Rightarrow> string" where
  "duration_label_from_seconds seconds =
     (case find (\<lambda>(label, value). value = seconds) DURATION_LABELS of
        Some (label, value) \<Rightarrow> label
      | None \<Rightarrow>
          if seconds mod 3600 = 0 \<and> 3600 \<le> seconds then show_int (seconds div 3600) @ ''h''
          else if seconds mod 60 = 0 then show_int (seconds div 60) @ ''m''
          else show_int seconds @ ''s'')"

section \<open>Entries\<close>

definition normalize_host_ip :: "string \<Rightarrow> string option" where
  "normalize_host_ip value =
     (let raw = strip value in
      if raw = [] \<or> CHR ''/'' \<in> set raw then None else map_option show_addr (ip_address raw))"

definition SECOND :: int where "SECOND = 1000000"

record temp_entry =
  expires_at :: int
  duration_seconds :: int
  added_at :: int

datatype temp_value = TempEntry temp_entry | NotAnEntry

datatype temp_file = NoTempFile | BadTempFile | TempFile "(string, temp_value) dict"

record temp_store =
  tw_entries :: "(string, temp_value) dict"
  tw_file :: temp_file

definition temp_save :: "temp_store \<Rightarrow> temp_store" where
  "temp_save st = st\<lparr>tw_file := TempFile (sort_key fst (tw_entries st))\<rparr>"

text \<open>\<^verbatim>\<open>__init__\<close> and \<^verbatim>\<open>_load\<close>\<close>

definition temp_load :: "temp_file \<Rightarrow> temp_store" where
  "temp_load f =
     (let st = \<lparr>tw_entries = [], tw_file = f\<rparr> in
      case f of
        NoTempFile \<Rightarrow> temp_save st
      | BadTempFile \<Rightarrow> st
      | TempFile d \<Rightarrow> st\<lparr>tw_entries := d\<rparr>)"

text \<open>An entry that counts at an instant.\<close>

definition temp_alive :: "int \<Rightarrow> temp_value \<Rightarrow> bool" where
  "temp_alive now v = (case v of NotAnEntry \<Rightarrow> False | TempEntry e \<Rightarrow> now < expires_at e)"

definition purge_expired :: "int \<Rightarrow> temp_store \<Rightarrow> string list \<times> temp_store" where
  "purge_expired now st =
     (let removed = map fst (filter (\<lambda>(k, v). \<not> temp_alive now v) (tw_entries st));
          st1 = st\<lparr>tw_entries := filter (\<lambda>(k, v). temp_alive now v) (tw_entries st)\<rparr>
      in (removed, if removed = [] then st1 else temp_save st1))"

definition get_active_ips :: "int \<Rightarrow> temp_store \<Rightarrow> string list \<times> temp_store" where
  "get_active_ips now st =
     (let st1 = snd (purge_expired now st) in
      (map fst (filter (\<lambda>(k, v). temp_alive now v) (tw_entries st1)), st1))"

definition has_active :: "int \<Rightarrow> temp_store \<Rightarrow> bool \<times> temp_store" where
  "has_active now st = (case get_active_ips now st of (ips, st1) \<Rightarrow> (ips \<noteq> [], st1))"

record temp_row =
  row_ip :: string
  row_expires_at :: int
  row_remaining_seconds :: int
  row_duration_seconds :: int
  row_duration_label :: string

definition temp_row_of :: "int \<Rightarrow> string \<times> temp_value \<Rightarrow> temp_row option" where
  "temp_row_of now p =
     (case snd p of
        NotAnEntry \<Rightarrow> None
      | TempEntry e \<Rightarrow>
          if expires_at e \<le> now then None
          else Some \<lparr>row_ip = fst p, row_expires_at = expires_at e,
            row_remaining_seconds = max 0 ((expires_at e - now) div SECOND),
            row_duration_seconds = duration_seconds e,
            row_duration_label = duration_label_from_seconds (duration_seconds e)\<rparr>)"

definition get_active_entries :: "int \<Rightarrow> temp_store \<Rightarrow> temp_row list \<times> temp_store" where
  "get_active_entries now st =
     (let st1 = snd (purge_expired now st) in
      (List.map_filter (temp_row_of now) (sort_key fst (tw_entries st1)), st1))"

definition temp_add :: "string \<Rightarrow> int \<Rightarrow> int \<Rightarrow> temp_store \<Rightarrow> string option \<times> temp_store" where
  "temp_add ip seconds now st =
     (case normalize_host_ip ip of
        None \<Rightarrow> (None, st)
      | Some k \<Rightarrow>
          if seconds < 60 then (None, st)
          else (Some k, temp_save (st\<lparr>tw_entries := AList.update k
            (TempEntry \<lparr>expires_at = now + seconds * SECOND, duration_seconds = seconds, added_at = now\<rparr>)
            (tw_entries st)\<rparr>)))"

definition temp_remove :: "string \<Rightarrow> temp_store \<Rightarrow> bool \<times> temp_store" where
  "temp_remove ip st =
     (let key = (case normalize_host_ip ip of Some k \<Rightarrow> k | None \<Rightarrow> strip ip) in
      if key = [] \<or> map_of (tw_entries st) key = None then (False, st)
      else (True, temp_save (st\<lparr>tw_entries := AList.delete key (tw_entries st)\<rparr>)))"

definition temp_clear_all :: "temp_store \<Rightarrow> temp_store" where
  "temp_clear_all st = temp_save (st\<lparr>tw_entries := []\<rparr>)"

definition temp_is_allowed :: "string \<Rightarrow> int \<Rightarrow> temp_store \<Rightarrow> bool \<times> temp_store" where
  "temp_is_allowed ip now st =
     (case normalize_host_ip ip of
        None \<Rightarrow> (False, st)
      | Some k \<Rightarrow>
          let st1 = snd (purge_expired now st) in
          (case map_of (tw_entries st1) k of None \<Rightarrow> False | Some v \<Rightarrow> temp_alive now v, st1))"

end
