(* ===== verification/PanelFirewall.thy ===== *)
theory PanelFirewall
  imports ScannerStore
begin

text \<open>
  \<^verbatim>\<open>setup/opt/AdminAntizapret/utils/panel_port_firewall.py\<close>: the port of the panel is open to the
  addresses of the whitelist only. Also the modes of publication it applies to
  (\<^verbatim>\<open>core/services/panel_publish_info.py\<close>). Commands are a parameter, as for the scanner store; here
  the output is not stripped. Log messages are left out.
\<close>

section \<open>Settings\<close>

definition env_or :: "environment \<Rightarrow> string \<Rightarrow> string \<Rightarrow> string" where
  "env_or env name dflt =
     (case env name of None \<Rightarrow> strip dflt | Some s \<Rightarrow> strip (if s = [] then dflt else s))"

definition parse_bool_env :: "string option \<Rightarrow> bool \<Rightarrow> bool" where
  "parse_bool_env value dflt =
     (case value of None \<Rightarrow> dflt | Some v \<Rightarrow> lower (strip v) \<in> set [''1'', ''true'', ''yes'', ''on''])"

definition is_loopback_bind :: "string \<Rightarrow> bool" where
  "is_loopback_bind bind \<longleftrightarrow> bind \<in> set [''127.0.0.1'', ''localhost'', ''::1'']"

datatype publish_mode = AppHttps | AppHttpsIncomplete | ReverseProxy | DirectHttp

definition resolve_panel_publish_mode :: "string \<Rightarrow> string \<Rightarrow> bool \<Rightarrow> string \<Rightarrow> string \<Rightarrow> publish_mode" where
  "resolve_panel_publish_mode bind bind_ipv6 use_https ssl_cert ssl_key =
     (let b = strip (if bind = [] then ''0.0.0.0'' else bind);
          bind = (if b = [] then ''0.0.0.0'' else b);
          bind_ipv6 = strip bind_ipv6
      in if use_https
         then (if strip ssl_cert \<noteq> [] \<and> strip ssl_key \<noteq> [] then AppHttps else AppHttpsIncomplete)
         else if is_loopback_bind bind \<and> (bind_ipv6 = [] \<or> is_loopback_bind bind_ipv6) then ReverseProxy
         else DirectHttp)"

definition is_whitelist_port_firewall_applicable :: "environment \<Rightarrow> bool" where
  "is_whitelist_port_firewall_applicable env =
     (let b = env_or env ''BIND'' ''0.0.0.0'';
          bind = (if b = [] then ''0.0.0.0'' else b);
          bind_ipv6 = env_or env ''BIND_IPV6'' []
      in if is_loopback_bind bind \<and> (bind_ipv6 = [] \<or> is_loopback_bind bind_ipv6) then False
         else resolve_panel_publish_mode bind bind_ipv6 (parse_bool_env (Some (env_or env ''USE_HTTPS'' ''false'')) False)
                (env_or env ''SSL_CERT'' []) (env_or env ''SSL_KEY'' [])
              \<in> set [DirectHttp, AppHttps, AppHttpsIncomplete])"

definition panel_port :: "environment \<Rightarrow> int" where
  "panel_port env =
     (case read_int (strip (case env ''APP_PORT'' of None \<Rightarrow> ''5050'' | Some s \<Rightarrow> s)) of
        None \<Rightarrow> 5050
      | Some p \<Rightarrow> max 1 (min 65535 p))"

definition active_versions :: "environment \<Rightarrow> nat list" where
  "active_versions env =
     (let b4 = strip (case env ''BIND'' of None \<Rightarrow> ''0.0.0.0'' | Some s \<Rightarrow> if s = [] then ''0.0.0.0'' else s);
          b6 = strip (case env ''BIND_IPV6'' of None \<Rightarrow> [] | Some s \<Rightarrow> s)
      in (if b4 \<in> set [''127.0.0.1'', ''localhost''] then [] else [4])
         @ (if b6 \<noteq> [] \<and> b6 \<notin> set [''::1'', ''localhost''] then [6] else []))"

section \<open>Families and entries\<close>

record firewall_family =
  table_command :: string
  chain :: string
  allow_set :: string
  set_family :: string
  jump_comment :: string

definition panel_family :: "nat \<Rightarrow> firewall_family" where
  "panel_family v =
     (if v = 4
      then \<lparr>table_command = ''iptables'', chain = ''AA_PANEL_WHITELIST'', allow_set = ''aa_panel_allow_v4'',
             set_family = ''inet'', jump_comment = ''aa-panel-port-jump-v4''\<rparr>
      else \<lparr>table_command = ''ip6tables'', chain = ''AA_PANEL_WHITELIST6'', allow_set = ''aa_panel_allow_v6'',
             set_family = ''inet6'', jump_comment = ''aa-panel-port-jump-v6''\<rparr>)"

definition ipset_entry :: "string \<Rightarrow> (nat \<times> string) option" where
  "ipset_entry entry =
     (let value = strip entry in
      if value = [] then None
      else if CHR ''/'' \<in> set value
      then map_option (\<lambda>n. (net_version n, show_net n)) (ip_network False value)
      else map_option (\<lambda>a. (version a, show_addr a @ (if version a = 4 then ''/32'' else ''/128''))) (ip_address value))"

definition entries_by_family :: "string list \<Rightarrow> nat \<Rightarrow> string list" where
  "entries_by_family allowed_ips v =
     map snd (filter (\<lambda>(w, e). w = v) (List.map_filter ipset_entry allowed_ips))"

section \<open>Splitting a line as the shell does\<close>

text \<open>\<^verbatim>\<open>shlex.split\<close>: between words, in a word, in quotes, after a backslash (in a word or in quotes).\<close>

datatype lex_state = Between | InWord | InQuote char | Escaped "char option"

definition is_shell_space :: "char \<Rightarrow> bool" where
  "is_shell_space c \<longleftrightarrow> c \<in> set [CHR '' '', CHR 0x09, CR, LF]"

definition is_quote :: "char \<Rightarrow> bool" where
  "is_quote c \<longleftrightarrow> c = CHR 0x22 \<or> c = CHR 0x27"

fun shlex :: "lex_state \<Rightarrow> string \<Rightarrow> string \<Rightarrow> string list option" where
  "shlex Between token [] = Some []"
| "shlex InWord token [] = Some [token]"
| "shlex (InQuote q) token [] = None"
| "shlex (Escaped q) token [] = None"
| "shlex Between token (c # cs) =
     (if is_shell_space c then shlex Between [] cs
      else if c = CHR 0x5C then shlex (Escaped None) [] cs
      else if is_quote c then shlex (InQuote c) [] cs
      else shlex InWord [c] cs)"
| "shlex InWord token (c # cs) =
     (if is_shell_space c then map_option (\<lambda>ws. token # ws) (shlex Between [] cs)
      else if c = CHR 0x5C then shlex (Escaped None) token cs
      else if is_quote c then shlex (InQuote c) token cs
      else shlex InWord (token @ [c]) cs)"
| "shlex (InQuote q) token (c # cs) =
     (if c = q then shlex InWord token cs
      else if c = CHR 0x5C \<and> q = CHR 0x22 then shlex (Escaped (Some q)) token cs
      else shlex (InQuote q) (token @ [c]) cs)"
| "shlex (Escaped None) token (c # cs) = shlex InWord (token @ [c]) cs"
| "shlex (Escaped (Some q)) token (c # cs) =
     shlex (InQuote q) (token @ (if c \<noteq> CHR 0x5C \<and> c \<noteq> q then [CHR 0x5C, c] else [c])) cs"

definition shlex_split :: "string \<Rightarrow> string list option" where
  "shlex_split s = shlex Between [] s"

section \<open>Commands\<close>

record 'k panel =
  pn_enabled :: bool
  pn_dry_run :: bool
  pn_active_port :: "int option"
  pn_kernel :: 'k

definition panel_init :: "environment \<Rightarrow> bool option \<Rightarrow> bool option \<Rightarrow> 'k \<Rightarrow> 'k panel" where
  "panel_init env enabled_arg dry_arg k =
     \<lparr>pn_enabled = (case enabled_arg of Some b \<Rightarrow> b | None \<Rightarrow> env_bool env ''IP_SCANNER_FIREWALL_ENABLED'' True),
      pn_dry_run = (case dry_arg of Some b \<Rightarrow> b | None \<Rightarrow> env_bool env ''IP_SCANNER_FIREWALL_DRY_RUN'' False),
      pn_active_port = None, pn_kernel = k\<rparr>"

type_synonym ('k, 'a) panel_prog = "('k panel, scan_error, 'a) prog"

definition panel_command :: "'k runner \<Rightarrow> string list \<Rightarrow> ('k, bool \<times> string) panel_prog" where
  "panel_command run args p = (case run args (pn_kernel p) of (r, k) \<Rightarrow> (Inr r, p\<lparr>pn_kernel := k\<rparr>))"

definition panel_do :: "'k runner \<Rightarrow> string list \<Rightarrow> ('k, unit) panel_prog" where
  "panel_do run args = bindP (panel_command run args) (\<lambda>_. retP ())"

definition panel_ok :: "'k runner \<Rightarrow> string list \<Rightarrow> ('k, bool) panel_prog" where
  "panel_ok run args = bindP (panel_command run args) (\<lambda>(ok, out). retP ok)"

definition ensure_ipset :: "'k runner \<Rightarrow> firewall_family \<Rightarrow> ('k, bool) panel_prog" where
  "ensure_ipset run fam = panel_ok run [''ipset'', ''create'', allow_set fam, ''hash:net'', ''family'', set_family fam,
     ''hashsize'', ''4096'', ''maxelem'', ''65536'', ''-exist'']"

definition flush_ipset :: "'k runner \<Rightarrow> firewall_family \<Rightarrow> ('k, unit) panel_prog" where
  "flush_ipset run fam = panel_do run [''ipset'', ''flush'', allow_set fam]"

definition populate_ipset :: "'k runner \<Rightarrow> firewall_family \<Rightarrow> string list \<Rightarrow> ('k, unit) panel_prog" where
  "populate_ipset run fam members =
     bindP (flush_ipset run fam) (\<lambda>_.
     forP (\<lambda>e. panel_do run [''ipset'', ''add'', allow_set fam, e, ''-exist'']) members)"

definition ensure_chain :: "'k runner \<Rightarrow> firewall_family \<Rightarrow> ('k, unit) panel_prog" where
  "ensure_chain run fam = forP (panel_do run)
     [[table_command fam, ''-N'', chain fam],
      [table_command fam, ''-F'', chain fam],
      [table_command fam, ''-A'', chain fam, ''-m'', ''set'', ''--match-set'', allow_set fam, ''src'', ''-j'', ''RETURN''],
      [table_command fam, ''-A'', chain fam, ''-j'', ''DROP'']]"

text \<open>The listed rules to delete, as arguments.\<close>

definition jump_rules :: "firewall_family \<Rightarrow> string \<Rightarrow> string list list" where
  "jump_rules fam listing = List.map_filter (\<lambda>line.
     if \<not> contains (jump_comment fam) line \<or> \<not> starts_with ''-A INPUT'' line then None
     else map_option (drop 1) (shlex_split line)) (splitlines listing)"

definition remove_jump_rules :: "'k runner \<Rightarrow> firewall_family \<Rightarrow> ('k, unit) panel_prog" where
  "remove_jump_rules run fam =
     bindP (panel_command run [table_command fam, ''-S'', ''INPUT'']) (\<lambda>(ok, listing).
       if \<not> ok then retP ()
       else forP (\<lambda>rule. panel_do run ([table_command fam, ''-D''] @ rule)) (jump_rules fam listing))"

definition jump_args :: "firewall_family \<Rightarrow> string \<Rightarrow> int \<Rightarrow> string list" where
  "jump_args fam action port = [table_command fam, action, ''INPUT'', ''-p'', ''tcp'', ''--dport'', show_int port,
     ''-m'', ''comment'', ''--comment'', jump_comment fam, ''-j'', chain fam]"

definition ensure_jump :: "'k runner \<Rightarrow> firewall_family \<Rightarrow> int \<Rightarrow> ('k, unit) panel_prog" where
  "ensure_jump run fam port =
     bindP (panel_ok run (jump_args fam ''-C'' port)) (\<lambda>found.
     if found then retP ()
     else bindP (remove_jump_rules run fam) (\<lambda>_. panel_do run (jump_args fam ''-I'' port)))"

definition disable_family :: "'k runner \<Rightarrow> firewall_family \<Rightarrow> ('k, unit) panel_prog" where
  "disable_family run fam = bindP (remove_jump_rules run fam) (\<lambda>_. flush_ipset run fam)"

section \<open>Disabling and synchronising\<close>

definition set_active_port :: "int option \<Rightarrow> ('k, unit) panel_prog" where
  "set_active_port port = modifyP (\<lambda>p. p\<lparr>pn_active_port := port\<rparr>)"

definition panel_disable :: "'k runner \<Rightarrow> ('k, bool) panel_prog" where
  "panel_disable run = (\<lambda>p.
     if pn_dry_run p then bindP (set_active_port None) (\<lambda>_. retP True) p
     else if \<not> pn_enabled p then (Inr True, p)
     else bindP (forP (\<lambda>v. disable_family run (panel_family v)) [4, 6]) (\<lambda>_.
          bindP (set_active_port None) (\<lambda>_. retP True)) p)"

text \<open>The loop over the families: \<open>None\<close> when a set could not be made, else whether one is in use.\<close>

fun sync_families :: "'k runner \<Rightarrow> environment \<Rightarrow> int \<Rightarrow> string list \<Rightarrow> bool \<Rightarrow> nat list \<Rightarrow> ('k, bool option) panel_prog" where
  "sync_families run env port allowed configured [] = retP (Some configured)"
| "sync_families run env port allowed configured (v # vs) =
     (if v \<notin> set (active_versions env)
      then bindP (disable_family run (panel_family v)) (\<lambda>_. sync_families run env port allowed configured vs)
      else
        bindP (ensure_ipset run (panel_family v)) (\<lambda>ready.
        if \<not> ready then retP None
        else
          bindP (populate_ipset run (panel_family v) (entries_by_family allowed v)) (\<lambda>_.
          bindP (ensure_chain run (panel_family v)) (\<lambda>_.
          bindP (ensure_jump run (panel_family v) port) (\<lambda>_.
          sync_families run env port allowed True vs)))))"

definition panel_sync :: "'k runner \<Rightarrow> environment \<Rightarrow> string list \<Rightarrow> ('k, bool) panel_prog" where
  "panel_sync run env allowed = (\<lambda>p.
     if pn_dry_run p then bindP (set_active_port (Some (panel_port env))) (\<lambda>_. retP True) p
     else if \<not> pn_enabled p then (Inr False, p)
     else bindP (sync_families run env (panel_port env) allowed False [4, 6]) (\<lambda>r.
       case r of
         None \<Rightarrow> retP False
       | Some configured \<Rightarrow>
           bindP (set_active_port (if configured then Some (panel_port env) else None)) (\<lambda>_. retP True)) p)"

end
