(* ===== verification/EnvFile.thy ===== *)
theory EnvFile
  imports PyFs
begin

text \<open>
  \<^verbatim>\<open>setup/opt/AdminAntizapret/utils/env_file.py\<close>: changing the settings kept as assignments in a
  file. The lock and the atomic replacement of the file are left out: the operation is one step.
\<close>

section \<open>Assignments\<close>

definition is_key_start :: "char \<Rightarrow> bool" where
  "is_key_start c \<longleftrightarrow> (let n = code c in 65 \<le> n \<and> n \<le> 90 \<or> 97 \<le> n \<and> n \<le> 122 \<or> n = 95)"

definition is_key_char :: "char \<Rightarrow> bool" where
  "is_key_char c \<longleftrightarrow> is_key_start c \<or> is_digit c"

definition is_blank :: "char \<Rightarrow> bool" where
  "is_blank c \<longleftrightarrow> c = CHR '' '' \<or> c = CHR 0x09"

definition is_key :: "string \<Rightarrow> bool" where
  "is_key k \<longleftrightarrow> k \<noteq> [] \<and> is_key_start (hd k) \<and> list_all is_key_char k"

text \<open>A name, blanks and the equals sign.\<close>

definition key_of :: "string \<Rightarrow> string option" where
  "key_of s =
     (let k = takeWhile is_key_char s; rest = dropWhile is_blank (dropWhile is_key_char s) in
      if is_key k \<and> rest \<noteq> [] \<and> hd rest = CHR ''='' then Some k else None)"

text \<open>The word \<^verbatim>\<open>export\<close> in front, if blanks follow it.\<close>

definition env_assignment :: "string \<Rightarrow> string option" where
  "env_assignment line =
     (let s = dropWhile is_blank line; r = drop 6 s in
      if starts_with ''export'' s \<and> r \<noteq> [] \<and> is_blank (hd r)
      then (case key_of (dropWhile is_blank r) of Some k \<Rightarrow> Some k | None \<Rightarrow> key_of s)
      else key_of s)"

section \<open>Lines\<close>

definition readlines :: "string \<Rightarrow> string list" where
  "readlines s = (let ps = split_on LF s in
     map (\<lambda>l. l @ [LF]) (butlast ps) @ (if last ps = [] then [] else [last ps]))"

definition ends_line :: "string \<Rightarrow> bool" where
  "ends_line l \<longleftrightarrow> l \<noteq> [] \<and> last l = LF"

definition terminate_last :: "string list \<Rightarrow> string list" where
  "terminate_last ls = (if ls \<noteq> [] \<and> \<not> ends_line (last ls) then butlast ls @ [last ls @ [LF]] else ls)"

definition setting_line :: "string \<times> string \<Rightarrow> string" where
  "setting_line p = fst p @ CHR ''='' # snd p @ [LF]"

section \<open>The update\<close>

datatype env_error = BadKey | BadValue

definition update_line :: "bool \<Rightarrow> (string \<times> string) list \<Rightarrow> string list \<Rightarrow> string \<Rightarrow> string list" where
  "update_line only_if_missing vals removals line =
     (case env_assignment line of
        None \<Rightarrow> [line]
      | Some k \<Rightarrow>
          if k \<in> set removals then []
          else (case map_of vals k of
                  None \<Rightarrow> [line]
                | Some v \<Rightarrow> if only_if_missing then [line] else [setting_line (k, v)]))"

definition found_keys :: "(string \<times> string) list \<Rightarrow> string list \<Rightarrow> string list \<Rightarrow> string list" where
  "found_keys vals removals lines =
     filter (\<lambda>k. k \<notin> set removals \<and> map_of vals k \<noteq> None) (List.map_filter env_assignment lines)"

definition append_missing :: "string list \<Rightarrow> (string \<times> string) list \<Rightarrow> string list \<Rightarrow> string list" where
  "append_missing found vals ls =
     foldl (\<lambda>acc p. if fst p \<in> set found then acc else terminate_last acc @ [setting_line p]) ls vals"

definition updated_lines :: "bool \<Rightarrow> (string \<times> string) list \<Rightarrow> string list \<Rightarrow> string list \<Rightarrow> string list" where
  "updated_lines only_if_missing vals removals lines =
     append_missing (found_keys vals removals lines) vals
       (concat (map (update_line only_if_missing vals removals) lines))"

text \<open>The text of the file, if there is one; no change does not touch it.\<close>

definition update_env_file ::
  "(string \<times> string) list \<Rightarrow> bool \<Rightarrow> string list \<Rightarrow> string option \<Rightarrow> (env_error, string option) result" where
  "update_env_file vals only_if_missing unset_keys content =
     (if \<not> list_all is_key (map fst vals @ unset_keys) then Inl BadKey
      else if list_ex (\<lambda>p. LF \<in> set (snd p) \<or> CR \<in> set (snd p) \<or> CHR 0x00 \<in> set (snd p)) vals then Inl BadValue
      else
        let lines = (case content of None \<Rightarrow> [] | Some s \<Rightarrow> readlines (universal s));
            new_lines = updated_lines only_if_missing vals unset_keys lines
        in Inr (if new_lines \<noteq> lines then Some (concat new_lines) else content))"

section \<open>What it does\<close>

lemma key_setting_line: "is_key k \<Longrightarrow> env_assignment (setting_line (k, v)) = Some k"
proof -
  assume k: "is_key k"
  have eq: "\<not> is_key_char (CHR ''='')" "\<not> is_blank (CHR ''='')" "\<not> is_key_char (CHR '' '')"
    by (simp_all add: is_key_char_def is_key_start_def is_digit_def is_blank_def Let_def)
  have chars: "\<forall>c \<in> set k. is_key_char c" using k by (simp add: is_key_def list_all_iff)
  have nb: "is_key_char c \<Longrightarrow> \<not> is_blank c" for c
    by (auto simp: is_key_char_def is_key_start_def is_digit_def is_blank_def Let_def)
  have tw: "takeWhile is_key_char (k @ CHR ''='' # r) = k" "dropWhile is_key_char (k @ CHR ''='' # r) = CHR ''='' # r" for r
    using chars eq by (simp_all add: takeWhile_append2 dropWhile_append2)
  have key: "key_of (k @ CHR ''='' # r) = Some k" for r
    using k eq by (simp add: key_of_def tw)
  have s: "dropWhile is_blank (k @ CHR ''='' # r) = k @ CHR ''='' # r" for r
    using k chars nb by (cases k) (auto simp: is_key_def)
  show ?thesis
  proof (cases "starts_with ''export'' (k @ CHR ''='' # v @ [LF])")
    case True
    have "drop 6 (k @ CHR ''='' # v @ [LF]) = [] \<or> \<not> is_blank (hd (drop 6 (k @ CHR ''='' # v @ [LF])))"
    proof (cases "length k \<le> 5")
      case True
      then have "take 6 (k @ CHR ''='' # v @ [LF]) ! length k = CHR ''=''" by (simp add: nth_append)
      moreover have "''export'' ! length k \<noteq> CHR ''=''"
        using True by (auto simp: less_Suc_eq_le nth_Cons' eval_nat_numeral le_Suc_eq)
      moreover have "take 6 (k @ CHR ''='' # v @ [LF]) = ''export''"
        using \<open>starts_with _ _\<close> by (simp add: starts_with_def eval_nat_numeral del: take_append)
      ultimately show ?thesis by (simp del: take_append)
    next
      case False
      then have "length k = 6 \<or> 6 < length k" by linarith
      then show ?thesis using chars nb eq by (auto simp: hd_append hd_drop_conv_nth)
    qed
    then show ?thesis using key by (auto simp: env_assignment_def setting_line_def s Let_def)
  next
    case False
    then show ?thesis using key by (simp add: env_assignment_def setting_line_def s Let_def)
  qed
qed

section \<open>Lines of a text\<close>

definition line_ok :: "string \<Rightarrow> bool" where
  "line_ok l \<longleftrightarrow> l \<noteq> [] \<and> LF \<notin> set (butlast l)"

fun lf_lines :: "string list \<Rightarrow> bool" where
  "lf_lines [] = True"
| "lf_lines (l # ls) \<longleftrightarrow> line_ok l \<and> (ls \<noteq> [] \<longrightarrow> ends_line l) \<and> lf_lines ls"

lemma lf_lines_append:
  "lf_lines (a @ b) \<longleftrightarrow> lf_lines a \<and> lf_lines b \<and> (a \<noteq> [] \<longrightarrow> b \<noteq> [] \<longrightarrow> ends_line (last a))"
  by (induction a) auto

lemma ends_line_iff: "line_ok l \<Longrightarrow> ends_line l \<longleftrightarrow> (\<exists>w. l = w @ [LF] \<and> LF \<notin> set w)"
  by (cases l rule: rev_cases) (auto simp: line_ok_def ends_line_def)

lemma split_on_nonempty: "split_on c s \<noteq> []"
  unfolding split_on_def by (induction s) (auto split: list.splits)

lemma readlines_Cons: "LF \<notin> set w \<Longrightarrow> readlines (w @ LF # s) = (w @ [LF]) # readlines s"
proof -
  assume "LF \<notin> set w"
  then have "split_by (\<lambda>x. x = LF) (w @ LF # s) = w # split_by (\<lambda>x. x = LF) s" by (intro split_by_append) auto
  then show ?thesis using split_on_nonempty [of LF s] by (simp add: readlines_def split_on_def Let_def)
qed

lemma readlines_last: "LF \<notin> set w \<Longrightarrow> w \<noteq> [] \<Longrightarrow> readlines w = [w]"
proof -
  assume "LF \<notin> set w" "w \<noteq> []"
  moreover from this have "split_by (\<lambda>x. x = LF) w = [w]" by (intro split_by_single) auto
  ultimately show ?thesis by (simp add: readlines_def split_on_def Let_def)
qed

lemma readlines_Nil: "readlines [] = []"
  by (simp add: readlines_def split_on_def)

lemma readlines_concat: "lf_lines ls \<Longrightarrow> readlines (concat ls) = ls"
proof (induction ls)
  case (Cons l ls)
  show ?case
  proof (cases "ends_line l")
    case True
    then obtain w where "l = w @ [LF]" "LF \<notin> set w" using Cons.prems ends_line_iff by auto
    then show ?thesis using Cons readlines_Cons by simp
  next
    case False
    then have l: "ls = []" "line_ok l" using Cons.prems by auto
    then have "LF \<notin> set l" "l \<noteq> []"
      using False by (cases l rule: rev_cases, auto simp: line_ok_def ends_line_def)+
    then show ?thesis using l readlines_last by simp
  qed
qed (simp add: readlines_Nil)

lemma split_by_avoids: "\<forall>w \<in> set (split_by p s). \<forall>c \<in> set w. \<not> p c"
  by (induction s) (auto split: list.splits)

lemma lf_lines_pieces:
  "\<forall>w \<in> set (ws @ [t]). LF \<notin> set w \<Longrightarrow> lf_lines (map (\<lambda>l. l @ [LF]) ws @ (if t = [] then [] else [t]))"
  by (induction ws) (auto simp: line_ok_def ends_line_def dest: in_set_butlastD)

lemma lf_lines_readlines: "lf_lines (readlines s)"
proof -
  have "\<forall>w \<in> set (split_on LF s). LF \<notin> set w"
    using split_by_avoids [of "\<lambda>x. x = LF" s] by (auto simp: split_on_def)
  then have "\<forall>w \<in> set (butlast (split_on LF s) @ [last (split_on LF s)]). LF \<notin> set w"
    using split_on_nonempty [of LF s] by simp
  from lf_lines_pieces [OF this] show ?thesis by (simp add: readlines_def Let_def)
qed

lemma line_ok_setting: "LF \<notin> set (fst p) \<Longrightarrow> LF \<notin> set (snd p) \<Longrightarrow> line_ok (setting_line p) \<and> ends_line (setting_line p)"
  by (auto simp: line_ok_def ends_line_def setting_line_def butlast_append)

lemma terminate_last_ok: "lf_lines ls \<Longrightarrow> lf_lines (terminate_last ls) \<and> (ls \<noteq> [] \<longrightarrow> ends_line (last (terminate_last ls)))"
proof (cases ls rule: rev_cases)
  case (snoc as l)
  assume "lf_lines ls"
  then show ?thesis
    using snoc by (cases l rule: rev_cases)
      (auto simp: terminate_last_def lf_lines_append line_ok_def ends_line_def butlast_append)
qed (simp add: terminate_last_def)

section \<open>The assignments after an update\<close>

text \<open>The lines of a text that assign to a name, without their line break.\<close>

definition assigned_lines :: "string \<Rightarrow> string list \<Rightarrow> string list" where
  "assigned_lines k ls = map (rstrip_char LF) (filter (\<lambda>l. env_assignment l = Some k) ls)"

definition assigned :: "string \<Rightarrow> string option \<Rightarrow> string list" where
  "assigned k content = assigned_lines k (case content of None \<Rightarrow> [] | Some s \<Rightarrow> readlines (universal s))"

lemma key_of_LF: "key_of (s @ [LF]) = key_of s"
proof -
  have lf: "\<not> is_key_char LF" "\<not> is_blank LF" "LF \<noteq> CHR ''=''"
    by (simp_all add: is_key_char_def is_key_start_def is_digit_def is_blank_def Let_def)
  show ?thesis
  proof (cases "\<forall>c \<in> set s. is_key_char c")
    case True
    then have d: "dropWhile is_key_char s = []" by simp
    show ?thesis using lf True by (simp add: key_of_def takeWhile_append dropWhile_append Let_def d)
  next
    case False
    then have t: "takeWhile is_key_char (s @ [LF]) = takeWhile is_key_char s"
      "dropWhile is_key_char (s @ [LF]) = dropWhile is_key_char s @ [LF]"
      by (auto simp: takeWhile_append dropWhile_append)
    show ?thesis using lf False by (auto simp: key_of_def t dropWhile_append Let_def hd_append)
  qed
qed

lemma env_assignment_LF: "env_assignment (l @ [LF]) = env_assignment l"
proof (cases "\<forall>c \<in> set l. is_blank c")
  case True
  have "\<not> is_blank LF" by (simp add: is_blank_def)
  then have "dropWhile is_blank (l @ [LF]) = [LF]" "dropWhile is_blank l = []" using True by (auto simp: dropWhile_append)
  moreover have "key_of [LF] = key_of []" using key_of_LF [of "[]"] by simp
  ultimately show ?thesis by (simp only: env_assignment_def Let_def) (simp add: starts_with_def)
next
  case False
  define s where "s = dropWhile is_blank l"
  have s: "dropWhile is_blank (l @ [LF]) = s @ [LF]" using False by (auto simp: s_def dropWhile_append)
  have b: "\<not> is_blank LF" by (simp add: is_blank_def)
  have k: "key_of (dropWhile is_blank (r @ [LF])) = key_of (dropWhile is_blank r)" for r
  proof (cases "\<forall>c \<in> set r. is_blank c")
    case True
    then have d: "dropWhile is_blank r = []" by simp
    show ?thesis using key_of_LF [of "[]"] b True by (simp add: dropWhile_append d)
  next
    case False
    then show ?thesis using key_of_LF by (auto simp: dropWhile_append)
  qed
  show ?thesis
  proof (cases "length s < 6")
    case True
    then have "\<not> starts_with ''export'' s" by (auto simp: starts_with_def)
    moreover have "starts_with ''export'' (s @ [LF]) \<Longrightarrow> drop 6 (s @ [LF]) = []" using True by simp
    ultimately show ?thesis by (auto simp: env_assignment_def s s_def [symmetric] Let_def key_of_LF)
  next
    case False
    then have "starts_with ''export'' (s @ [LF]) = starts_with ''export'' s" "drop 6 (s @ [LF]) = drop 6 s @ [LF]"
      by (simp_all add: starts_with_def)
    then show ?thesis
      using k [of "drop 6 s"] b key_of_LF [of s]
      by (auto simp: env_assignment_def s s_def [symmetric] Let_def hd_append split: option.splits)
  qed
qed

lemma assigned_terminate: "assigned_lines k (terminate_last ls) = assigned_lines k ls"
  by (cases ls rule: rev_cases)
    (auto simp: terminate_last_def assigned_lines_def env_assignment_LF rstrip_char_def)

lemma assigned_append: "assigned_lines k (a @ b) = assigned_lines k a @ assigned_lines k b"
  by (simp add: assigned_lines_def)

lemma assigned_setting:
  "is_key k' \<Longrightarrow> assigned_lines k [setting_line (k', v)] = (if k' = k then [rstrip_char LF (setting_line (k', v))] else [])"
  by (simp add: assigned_lines_def key_setting_line)

lemma stripped_setting: "LF \<notin> set (snd p) \<Longrightarrow> rstrip_char LF (setting_line p) = fst p @ CHR ''='' # snd p"
proof -
  assume "LF \<notin> set (snd p)"
  then have "\<not> last (fst p @ CHR ''='' # snd p) = LF" by (cases "snd p" rule: rev_cases) auto
  then have "dropWhile (\<lambda>x. x = LF) (rev (fst p @ CHR ''='' # snd p)) = rev (fst p @ CHR ''='' # snd p)"
    using dropWhile_none [of "rev (fst p @ CHR ''='' # snd p)" "\<lambda>x. x = LF"] by (simp only: hd_rev simp_thms)
  then show ?thesis by (simp add: rstrip_char_def setting_line_def)
qed

text \<open>Values the update accepts.\<close>

definition vals_ok :: "(string \<times> string) list \<Rightarrow> bool" where
  "vals_ok vals \<longleftrightarrow> list_all (\<lambda>p. is_key (fst p) \<and> LF \<notin> set (snd p) \<and> CR \<notin> set (snd p)) vals"

lemma key_clean: "is_key k \<Longrightarrow> LF \<notin> set k \<and> CR \<notin> set k"
proof -
  assume "is_key k"
  then have "list_all is_key_char k" by (simp add: is_key_def)
  moreover have "\<not> is_key_char LF" "\<not> is_key_char CR"
    by (simp_all add: is_key_char_def is_key_start_def is_digit_def Let_def)
  ultimately show ?thesis by (auto simp: list_all_iff)
qed

lemma assigned_updated:
  assumes "vals_ok vals"
  shows "assigned_lines k (concat (map (update_line False vals removals) ls)) =
    (if k \<in> set removals then []
     else case map_of vals k of None \<Rightarrow> assigned_lines k ls
       | Some v \<Rightarrow> replicate (length (assigned_lines k ls)) (k @ CHR ''='' # v))"
proof (induction ls)
  case (Cons l ls)
  have one: "assigned_lines k (update_line False vals removals l) =
    (if k \<in> set removals then []
     else case map_of vals k of None \<Rightarrow> assigned_lines k [l]
       | Some v \<Rightarrow> replicate (length (assigned_lines k [l])) (k @ CHR ''='' # v))"
  proof (cases "env_assignment l")
    case None
    then show ?thesis by (simp add: update_line_def assigned_lines_def split: option.splits)
  next
    case (Some k')
    have v: "is_key k' \<and> LF \<notin> set v" if "map_of vals k' = Some v" for v
      using assms map_of_SomeD [OF that] by (auto simp: vals_ok_def list_all_iff)
    show ?thesis
      using Some v by (auto simp: update_line_def assigned_lines_def key_setting_line stripped_setting split: option.splits)
  qed
  have split: "assigned_lines k (l # ls) = assigned_lines k [l] @ assigned_lines k ls"
    using assigned_append [of k "[l]" ls] by simp
  show ?case
    unfolding list.map concat.simps assigned_append one Cons split
    by (cases "map_of vals k") (simp_all add: replicate_add)
qed (simp add: assigned_lines_def split: option.splits)

lemma assigned_missing:
  assumes "vals_ok vals"
  shows "assigned_lines k (append_missing found vals ls) = assigned_lines k ls
    @ concat (map (\<lambda>p. if fst p \<in> set found \<or> fst p \<noteq> k then [] else [k @ CHR ''='' # snd p]) vals)"
  using assms unfolding append_missing_def
proof (induction vals arbitrary: ls)
  case (Cons p vals)
  then have p: "is_key (fst p)" "LF \<notin> set (snd p)" "vals_ok vals" by (auto simp: vals_ok_def)
  have "assigned_lines k [setting_line p] = (if fst p = k then [k @ CHR ''='' # snd p] else [])"
    using assigned_setting [OF p(1), of k "snd p"] stripped_setting [OF p(2)] by auto
  then show ?case using Cons.IH [OF p(3)] by (auto simp: assigned_append assigned_terminate)
qed simp

lemma missing_of_distinct:
  assumes "distinct (map fst vals)"
  shows "concat (map (\<lambda>p. if fst p \<in> F \<or> fst p \<noteq> k then [] else [k @ CHR ''='' # snd p]) vals) =
    (case map_of vals k of None \<Rightarrow> [] | Some v \<Rightarrow> if k \<in> F then [] else [k @ CHR ''='' # v])"
  using assms
proof (induction vals)
  case (Cons p vals)
  have "fst p = k \<Longrightarrow> map_of vals k = None" using Cons.prems by (auto simp: map_of_eq_None_iff)
  then show ?case using Cons by (cases p) auto
qed simp

lemma found_iff:
  "k \<in> set (found_keys vals removals ls) \<longleftrightarrow> k \<notin> set removals \<and> map_of vals k \<noteq> None \<and> assigned_lines k ls \<noteq> []"
  by (induction ls) (auto simp: found_keys_def assigned_lines_def map_filter_simps split: option.splits)

lemma assigned_updated_lines:
  assumes "vals_ok vals" and "distinct (map fst vals)"
  shows "case map_of vals k of
      Some v \<Rightarrow> set (assigned_lines k (updated_lines False vals removals ls)) = {k @ CHR ''='' # v}
    | None \<Rightarrow> assigned_lines k (updated_lines False vals removals ls) = (if k \<in> set removals then [] else assigned_lines k ls)"
  unfolding updated_lines_def assigned_missing [OF assms(1)] assigned_updated [OF assms(1)] missing_of_distinct [OF assms(2)]
  using found_iff [of k vals removals ls]
  by (cases "map_of vals k"; cases "assigned_lines k ls = []") (auto simp: set_replicate_conv_if)

text \<open>The new text has these lines.\<close>

lemma lf_lines_updated:
  assumes "vals_ok vals" and "lf_lines ls"
  shows "lf_lines (updated_lines only vals removals ls)"
proof -
  have v: "line_ok (setting_line p) \<and> ends_line (setting_line p)" if "p \<in> set vals" for p
    using assms(1) that key_clean by (intro line_ok_setting) (auto simp: vals_ok_def list_all_iff)
  have body: "lf_lines (concat (map (update_line only vals removals) ls))" using assms(2)
  proof (induction ls)
    case (Cons l ls)
    have one: "m \<in> set (update_line only vals removals l) \<Longrightarrow> m = l \<or> line_ok m \<and> ends_line m"
      "length (update_line only vals removals l) \<le> 1" for m
      using v map_of_SomeD [of vals] by (auto simp: update_line_def split: option.splits if_splits)
    show ?case
    proof (cases "update_line only vals removals l")
      case (Cons m ms)
      then have "ms = []" "m = l \<or> line_ok m \<and> ends_line m" using one by (auto simp: le_Suc_eq)
      then show ?thesis using Cons Cons.IH Cons.prems by (auto simp: concat_eq_Nil_conv)
    qed (use Cons in auto)
  qed simp
  have "lf_lines (foldl (\<lambda>acc p. if fst p \<in> set found then acc else terminate_last acc @ [setting_line p]) acc vs)"
    if "lf_lines acc" "set vs \<subseteq> set vals" for acc vs found
    using that
  proof (induction vs arbitrary: acc)
    case (Cons p vs)
    have "lf_lines (terminate_last acc @ [setting_line p])"
      using terminate_last_ok [OF Cons.prems(1)] v [of p] Cons.prems(2)
      by (auto simp: lf_lines_append terminate_last_def)
    then show ?case using Cons by auto
  qed simp
  then show ?thesis using body by (simp add: updated_lines_def append_missing_def)
qed

lemma readlines_chars: "l \<in> set (readlines s) \<Longrightarrow> c \<in> set l \<Longrightarrow> c = LF \<or> c \<in> set s"
proof -
  have pieces: "w \<in> set (split_by p t) \<Longrightarrow> set w \<subseteq> set t" for w p and t :: string
    by (induction t arbitrary: w) (auto split: list.splits if_splits, blast)
  assume l: "l \<in> set (readlines s)" and c: "c \<in> set l"
  obtain w where "w \<in> set (split_on LF s)" "l = w @ [LF] \<or> l = w"
    using l last_in_set [OF split_on_nonempty [of LF s]]
    by (auto simp: readlines_def Let_def split: if_splits dest: in_set_butlastD)
  then show ?thesis using c pieces by (fastforce simp: split_on_def)
qed

lemma updated_no_CR:
  assumes "vals_ok vals" and "\<forall>l \<in> set ls. CR \<notin> set l"
  shows "\<forall>l \<in> set (updated_lines only vals removals ls). CR \<notin> set l"
proof -
  have v: "CR \<notin> set (setting_line p)" if "p \<in> set vals" for p
    using assms(1) that key_clean [of "fst p"] by (auto simp: vals_ok_def list_all_iff setting_line_def)
  have body: "\<forall>l \<in> set (concat (map (update_line only vals removals) ls)). CR \<notin> set l"
    using assms(2) v map_of_SomeD [of vals] by (auto simp: update_line_def split: option.splits if_splits)
  have fold: "\<forall>l \<in> set (foldl (\<lambda>acc p. if fst p \<in> set found then acc else terminate_last acc @ [setting_line p]) acc vs). CR \<notin> set l"
    if "\<forall>l \<in> set acc. CR \<notin> set l" "set vs \<subseteq> set vals" for acc vs found
    using that
  proof (induction vs arbitrary: acc)
    case (Cons p vs)
    have "\<forall>l \<in> set (terminate_last acc @ [setting_line p]). CR \<notin> set l"
      using Cons.prems v [of p] by (cases acc rule: rev_cases) (auto simp: terminate_last_def)
    then have "\<forall>l \<in> set (if fst p \<in> set found then acc else terminate_last acc @ [setting_line p]). CR \<notin> set l"
      using Cons.prems(1) by (cases "fst p \<in> set found") (simp_all only: if_True if_False)
    from Cons.IH [OF this] Cons.prems(2) show ?case by simp
  qed simp
  from fold [OF body subset_refl] show ?thesis unfolding updated_lines_def append_missing_def .
qed

lemma updated_content:
  assumes "update_env_file vals only unset content = Inr content'"
  shows "vals_ok vals" and "assigned k content' = assigned_lines k (updated_lines only vals unset
    (case content of None \<Rightarrow> [] | Some s \<Rightarrow> readlines (universal s)))"
proof -
  let ?ls = "case content of None \<Rightarrow> [] | Some s \<Rightarrow> readlines (universal s)"
  show ok: "vals_ok vals"
    using assms by (auto simp: update_env_file_def vals_ok_def list_all_iff list_ex_iff split: if_splits)
  have ls: "lf_lines ?ls" "\<forall>l \<in> set ?ls. CR \<notin> set l"
    using lf_lines_readlines readlines_chars [of _ "universal _" CR] universal_no_CR by (auto split: option.splits)
  let ?new = "updated_lines only vals unset ?ls"
  have "universal (concat ?new) = concat ?new"
    using updated_no_CR [OF ok ls(2)] by (intro universal_id) auto
  then have "readlines (universal (concat ?new)) = ?new" using readlines_concat [OF lf_lines_updated [OF ok ls(1)]] by simp
  then show "assigned k content' = assigned_lines k ?new"
    using assms by (auto simp: update_env_file_def assigned_def Let_def split: if_splits)
qed

text \<open>C37: after a change of settings every name it sets is assigned by at least one line, all of them
  giving the new value; a name it removes is assigned by none; every other assignment is as before.\<close>

theorem env_update_effective:
  assumes "update_env_file vals False unset content = Inr content'" and "distinct (map fst vals)"
  shows "case map_of vals k of
      Some v \<Rightarrow> set (assigned k content') = {k @ CHR ''='' # v}
    | None \<Rightarrow> assigned k content' = (if k \<in> set unset then [] else assigned k content)"
  using assigned_updated_lines [OF updated_content(1) [OF assms(1)] assms(2), of k unset
    "case content of None \<Rightarrow> [] | Some s \<Rightarrow> readlines (universal s)"]
  unfolding updated_content(2) [OF assms(1)] assigned_def [of k content] .

theorem env_update_effective_witness:
  "set (assigned ''ALLOWED_IPS'' (Some ''export  A=1\<newline>ALLOWED_IPS=::1,203.0.113.9\<newline>'')) = {''ALLOWED_IPS=::1,203.0.113.9''}"
proof -
  have "update_env_file [(''ALLOWED_IPS'', ''::1,203.0.113.9'')] False [''B''] (Some ''export  A=1\<newline>B = 2\<newline>ALLOWED_IPS = old'')
      = Inr (Some ''export  A=1\<newline>ALLOWED_IPS=::1,203.0.113.9\<newline>'')"
    by code_simp
  from env_update_effective [OF this, of "''ALLOWED_IPS''"] show ?thesis by simp
qed

end
