(* ===== verification/IpRestriction.thy ===== *)
theory IpRestriction
  imports ScannerStore TempWhitelist PanelFirewall EnvFile
begin

text \<open>
  \<^verbatim>\<open>setup/opt/AdminAntizapret/utils/ip_restriction.py\<close>: who may reach the panel, on top of the scanner
  store, the temporary whitelist, the firewall of the port and the file of settings. All of them
  work on one kernel. The clock stands still within a request.
\<close>

section \<open>State\<close>

record scanner_conf =
  block_scanners :: bool
  scanner_max_attempts :: int
  scanner_window_seconds :: int
  scanner_ban_seconds :: int
  block_ip_blocked_dwell :: bool
  ip_blocked_dwell_seconds :: int
  whitelist_firewall :: bool

text \<open>The set of entries is a list in an order of the environment's choice; the kernel lies in the store.\<close>

record 'k restriction =
  ir_allowed :: "string list"
  ir_enabled :: bool
  ir_conf :: scanner_conf
  ir_settings :: scan_settings
  ir_temp :: temp_store
  ir_scan :: "'k scan_store"
  ir_panel :: "'k panel"
  ir_environ :: environment
  ir_env_file :: "string option"

datatype restriction_error = ScanError scan_error | EnvError env_error

type_synonym ('k, 'a) restriction_prog = "('k restriction, restriction_error, 'a) prog"

text \<open>The parts at work.\<close>

definition scan_runner :: "'k runner \<Rightarrow> 'k runner" where
  "scan_runner run args k = (case run args k of ((ok, out), k') \<Rightarrow> ((ok, strip out), k'))"

definition on_scan :: "('k, 'a) scan_prog \<Rightarrow> ('k, 'a) restriction_prog" where
  "on_scan m r = (case m (ir_scan r) of (res, st) \<Rightarrow> (map_sum ScanError id res, r\<lparr>ir_scan := st\<rparr>))"

definition on_temp :: "(temp_store \<Rightarrow> 'a \<times> temp_store) \<Rightarrow> ('k, 'a) restriction_prog" where
  "on_temp f r = (case f (ir_temp r) of (x, t) \<Rightarrow> (Inr x, r\<lparr>ir_temp := t\<rparr>))"

definition on_panel :: "('k, 'a) panel_prog \<Rightarrow> ('k, 'a) restriction_prog" where
  "on_panel m r =
     (case m ((ir_panel r)\<lparr>pn_kernel := st_kernel (ir_scan r)\<rparr>) of
        (res, p) \<Rightarrow> (map_sum ScanError id res,
          r\<lparr>ir_panel := p, ir_scan := (ir_scan r)\<lparr>st_kernel := pn_kernel p\<rparr>\<rparr>))"

definition set_conf :: "(scanner_conf \<Rightarrow> scanner_conf) \<Rightarrow> ('k, unit) restriction_prog" where
  "set_conf f = modifyP (\<lambda>r. r\<lparr>ir_conf := f (ir_conf r)\<rparr>)"

section \<open>Settings\<close>

definition normalize_ip_entry :: "string \<Rightarrow> string option" where
  "normalize_ip_entry entry =
     (let value = strip entry in
      if value = [] then None
      else if CHR ''/'' \<in> set value then map_option show_net (ip_network False value)
      else map_option show_addr (ip_address value))"

definition load_scanner_settings :: "environment \<Rightarrow> scanner_conf" where
  "load_scanner_settings env =
     \<lparr>block_scanners = env_bool env ''IP_BLOCK_SCANNERS'' False,
      scanner_max_attempts = env_int env ''IP_SCANNER_MAX_ATTEMPTS'' 5 1 100,
      scanner_window_seconds = env_int env ''IP_SCANNER_WINDOW_SECONDS'' 60 10 3600,
      scanner_ban_seconds = env_int env ''IP_SCANNER_BAN_SECONDS'' 3600 60 86400,
      block_ip_blocked_dwell = env_bool env ''IP_BLOCK_IP_BLOCKED_DWELL'' True,
      ip_blocked_dwell_seconds = env_int env ''IP_BLOCKED_DWELL_SECONDS'' 120 30 3600,
      whitelist_firewall = env_bool env ''IP_WHITELIST_FIREWALL'' False\<rparr>"

definition load_allowed :: "environment \<Rightarrow> string list" where
  "load_allowed env = remdups (List.map_filter normalize_ip_entry
     (split_on (CHR '','') (case env ''ALLOWED_IPS'' of None \<Rightarrow> [] | Some s \<Rightarrow> s)))"

definition load_from_env :: "('k, unit) restriction_prog" where
  "load_from_env = modifyP (\<lambda>r. r\<lparr>ir_allowed := load_allowed (ir_environ r),
     ir_enabled := load_allowed (ir_environ r) \<noteq> [],
     ir_conf := load_scanner_settings (ir_environ r)\<rparr>)"

definition reload_scanner_settings :: "('k, unit) restriction_prog" where
  "reload_scanner_settings = modifyP (\<lambda>r. r\<lparr>ir_conf := load_scanner_settings (ir_environ r)\<rparr>)"

definition apply_env_updates :: "(string \<times> string) list \<Rightarrow> ('k, unit) restriction_prog" where
  "apply_env_updates updates = (\<lambda>r.
     case update_env_file updates False [] (ir_env_file r) of
       Inl e \<Rightarrow> (Inl (EnvError e), r)
     | Inr content \<Rightarrow> (Inr (), r\<lparr>ir_env_file := content, ir_environ := map_upds (ir_environ r) (map fst updates) (map snd updates)\<rparr>))"

definition show_bool :: "bool \<Rightarrow> string" where
  "show_bool b = (if b then ''true'' else ''false'')"

definition scanner_updates :: "scanner_conf \<Rightarrow> (string \<times> string) list" where
  "scanner_updates c =
     [(''IP_BLOCK_SCANNERS'', show_bool (block_scanners c)),
      (''IP_SCANNER_MAX_ATTEMPTS'', show_int (scanner_max_attempts c)),
      (''IP_SCANNER_WINDOW_SECONDS'', show_int (scanner_window_seconds c)),
      (''IP_SCANNER_BAN_SECONDS'', show_int (scanner_ban_seconds c)),
      (''IP_BLOCK_IP_BLOCKED_DWELL'', show_bool (block_ip_blocked_dwell c)),
      (''IP_BLOCKED_DWELL_SECONDS'', show_int (ip_blocked_dwell_seconds c)),
      (''IP_WHITELIST_FIREWALL'', show_bool (whitelist_firewall c))]"

definition save_scanner_settings_to_env :: "('k, unit) restriction_prog" where
  "save_scanner_settings_to_env = (\<lambda>r. apply_env_updates (scanner_updates (ir_conf r)) r)"

definition persist_whitelist_firewall_flag :: "('k, unit) restriction_prog" where
  "persist_whitelist_firewall_flag =
     (\<lambda>r. apply_env_updates [(''IP_WHITELIST_FIREWALL'', show_bool (whitelist_firewall (ir_conf r)))] r)"

section \<open>The firewall of the port\<close>

definition firewall_whitelist_entries :: "int \<Rightarrow> ('k, string list) restriction_prog" where
  "firewall_whitelist_entries now = (\<lambda>r.
     bindP (on_temp (get_active_ips now)) (\<lambda>temps.
     retP (ir_allowed r @ filter (\<lambda>e. e \<notin> set (ir_allowed r)) temps)) r)"

definition is_whitelist_port_firewall_active :: "'k restriction \<Rightarrow> bool" where
  "is_whitelist_port_firewall_active r \<longleftrightarrow>
     ir_enabled r \<and> whitelist_firewall (ir_conf r) \<and> is_whitelist_port_firewall_applicable (ir_environ r)"

definition catchP :: "('s, 'e, 'a) prog \<Rightarrow> 'a \<Rightarrow> ('s, 'e, 'a) prog" where
  "catchP m x s = (case m s of (Inl e, s') \<Rightarrow> (Inr x, s') | (Inr y, s') \<Rightarrow> (Inr y, s'))"

definition sync_port_body :: "'k runner \<Rightarrow> int \<Rightarrow> ('k, bool) restriction_prog" where
  "sync_port_body run now = (\<lambda>r.
     if \<not> is_whitelist_port_firewall_applicable (ir_environ r)
     then bindP (if whitelist_firewall (ir_conf r)
                 then bindP (set_conf (\<lambda>c. c\<lparr>whitelist_firewall := False\<rparr>)) (\<lambda>_. persist_whitelist_firewall_flag)
                 else retP ()) (\<lambda>_.
          bindP (on_panel (panel_disable run)) (\<lambda>_. retP False)) r
     else if \<not> is_whitelist_port_firewall_active r
     then bindP (on_panel (panel_disable run)) (\<lambda>_. retP False) r
     else bindP (firewall_whitelist_entries now) (\<lambda>entries.
          (\<lambda>r. on_panel (panel_sync run (ir_environ r) entries) r)) r)"

definition sync_whitelist_port_firewall :: "'k runner \<Rightarrow> int \<Rightarrow> ('k, bool) restriction_prog" where
  "sync_whitelist_port_firewall run now = catchP (sync_port_body run now) False"

definition save_to_env :: "'k runner \<Rightarrow> int \<Rightarrow> ('k, unit) restriction_prog" where
  "save_to_env run now = (\<lambda>r.
     bindP (apply_env_updates [(''ALLOWED_IPS'', join '','' (sorted_set (ir_allowed r)))]) (\<lambda>_.
     bindP (sync_whitelist_port_firewall run now) (\<lambda>_. retP ())) r)"

text \<open>The arguments of \<^verbatim>\<open>set_scanner_protection\<close>.\<close>

record protection_args =
  arg_enabled :: bool
  arg_max_attempts :: "int option"
  arg_window_seconds :: "int option"
  arg_ban_seconds :: "int option"
  arg_block_dwell :: "bool option"
  arg_dwell_seconds :: "int option"
  arg_whitelist_firewall :: "bool option"

definition clamp :: "int \<Rightarrow> int \<Rightarrow> int option \<Rightarrow> int \<Rightarrow> int" where
  "clamp low high arg old = (case arg of None \<Rightarrow> old | Some v \<Rightarrow> max low (min high v))"

definition protection_conf :: "protection_args \<Rightarrow> scanner_conf \<Rightarrow> scanner_conf" where
  "protection_conf a c =
     \<lparr>block_scanners = arg_enabled a,
      scanner_max_attempts = clamp 1 100 (arg_max_attempts a) (scanner_max_attempts c),
      scanner_window_seconds = clamp 10 3600 (arg_window_seconds a) (scanner_window_seconds c),
      scanner_ban_seconds = clamp 60 86400 (arg_ban_seconds a) (scanner_ban_seconds c),
      block_ip_blocked_dwell = (case arg_block_dwell a of None \<Rightarrow> block_ip_blocked_dwell c | Some b \<Rightarrow> b),
      ip_blocked_dwell_seconds = clamp 30 3600 (arg_dwell_seconds a) (ip_blocked_dwell_seconds c),
      whitelist_firewall = (case arg_whitelist_firewall a of None \<Rightarrow> whitelist_firewall c | Some b \<Rightarrow> b)\<rparr>"

definition set_scanner_protection :: "'k runner \<Rightarrow> protection_args \<Rightarrow> int \<Rightarrow> ('k, unit) restriction_prog" where
  "set_scanner_protection run args now =
     bindP (set_conf (protection_conf args)) (\<lambda>_.
     bindP save_scanner_settings_to_env (\<lambda>_.
     bindP (sync_whitelist_port_firewall run now) (\<lambda>_. retP ())))"

section \<open>Who is allowed\<close>

definition entry_admits :: "ipaddr \<Rightarrow> string \<Rightarrow> bool" where
  "entry_admits client entry =
     (if CHR ''/'' \<in> set entry
      then (case ip_network False entry of None \<Rightarrow> False | Some n \<Rightarrow> in_net client n)
      else ip_address entry = Some client)"

definition is_ip_allowed :: "string \<Rightarrow> int \<Rightarrow> ('k, bool) restriction_prog" where
  "is_ip_allowed ip now = (\<lambda>r.
     if \<not> ir_enabled r then (Inr True, r)
     else if strip ip = [] then (Inr False, r)
     else (case ip_address (strip ip) of
         None \<Rightarrow> (Inr False, r)
       | Some client \<Rightarrow>
           if list_ex (entry_admits client) (ir_allowed r) then (Inr True, r)
           else on_temp (temp_is_allowed (strip ip) now) r))"

definition normalize_tracker_ip :: "string \<Rightarrow> string option" where
  "normalize_tracker_ip ip = (if strip ip = [] then None else map_option show_addr (ip_address (strip ip)))"

definition apply_ban_locked :: "'k runner \<Rightarrow> string \<Rightarrow> int \<Rightarrow> string \<Rightarrow> ('k, ban_info option) restriction_prog" where
  "apply_ban_locked run ip_key now reason =
     bindP (is_ip_allowed ip_key now) (\<lambda>allowed.
     if allowed then retP None
     else (\<lambda>r. on_scan (register_ban (scan_runner run) (ir_settings r) ip_key reason
       (scanner_ban_seconds (ir_conf r)) now) r))"

definition tracked :: "string \<Rightarrow> 'a \<Rightarrow> (string \<Rightarrow> ('k, 'a) restriction_prog) \<Rightarrow> ('k, 'a) restriction_prog" where
  "tracked ip x body = (case normalize_tracker_ip ip of None \<Rightarrow> retP x | Some k \<Rightarrow> body k)"

definition release_firewall_for_ip :: "'k runner \<Rightarrow> string \<Rightarrow> ('k, bool) restriction_prog" where
  "release_firewall_for_ip run ip = tracked ip False (\<lambda>k r.
     on_scan (release_firewall_only (scan_runner run) (ir_settings r) k) r)"

definition unban_scanner_ip :: "'k runner \<Rightarrow> string \<Rightarrow> int \<Rightarrow> ('k, bool) restriction_prog" where
  "unban_scanner_ip run ip now = tracked ip False (\<lambda>k r.
     on_scan (unban_ip (scan_runner run) (ir_settings r) k True None now) r)"

definition release_whitelist_from_firewall :: "'k runner \<Rightarrow> int \<Rightarrow> ('k, unit) restriction_prog" where
  "release_whitelist_from_firewall run now = (\<lambda>r.
     bindP (forP (\<lambda>e. bindP (release_firewall_for_ip run e) (\<lambda>_. retP ()))
       (filter (\<lambda>e. CHR ''/'' \<notin> set e) (ir_allowed r))) (\<lambda>_.
     bindP (on_temp (get_active_ips now)) (\<lambda>temps.
     forP (\<lambda>e. bindP (release_firewall_for_ip run e) (\<lambda>_. retP ())) temps)) r)"

text \<open>The part of \<^verbatim>\<open>init_app\<close> that concerns the firewall; errors are logged.\<close>

definition init_app :: "'k runner \<Rightarrow> int \<Rightarrow> ('k, unit) restriction_prog" where
  "init_app run now = catchP (\<lambda>r.
     bindP (on_scan (sync_firewall_from_store (scan_runner run) (ir_settings r) now)) (\<lambda>_.
     bindP (release_whitelist_from_firewall run now) (\<lambda>_.
     bindP (sync_whitelist_port_firewall run now) (\<lambda>_. retP ()))) r) ()"

section \<open>Visitors\<close>

definition scan_is_banned :: "'k runner \<Rightarrow> string \<Rightarrow> int \<Rightarrow> ('k, bool) restriction_prog" where
  "scan_is_banned run k now = (\<lambda>r. on_scan (is_banned (scan_runner run) (ir_settings r) k now) r)"

definition is_scanner_banned :: "'k runner \<Rightarrow> string \<Rightarrow> int \<Rightarrow> ('k, bool) restriction_prog" where
  "is_scanner_banned run ip now =
     bindP (is_ip_allowed ip now) (\<lambda>allowed.
     if allowed then retP False else tracked ip False (\<lambda>k. scan_is_banned run k now))"

definition should_hard_deny :: "'k runner \<Rightarrow> string \<Rightarrow> int \<Rightarrow> ('k, bool) restriction_prog" where
  "should_hard_deny run ip now = (\<lambda>r.
     if \<not> ir_enabled r then (Inr False, r)
     else bindP (is_ip_allowed ip now) (\<lambda>allowed.
          if allowed then retP False else is_scanner_banned run ip now) r)"

text \<open>What the page for denied visitors is told, in seconds.\<close>

datatype presence =
    NotTracked
  | PresentBanned int
  | PresentInGrace int int
  | DwellExceeded int bool
  | Dwelling int int int

text \<open>\<^verbatim>\<open>int\<close> of a difference of instants, cut towards zero.\<close>

definition int_seconds :: "int \<Rightarrow> int" where
  "int_seconds d = (if d < 0 then - ((- d) div MICROS) else d div MICROS)"

definition touch_banned :: "string \<Rightarrow> int \<Rightarrow> ('k, presence) restriction_prog" where
  "touch_banned k now = bindP (on_scan (get_ban_until k)) (\<lambda>until. retP (PresentBanned (max 0 (int_seconds (until - now)))))"

definition touch_dwell :: "'k runner \<Rightarrow> string \<Rightarrow> int \<Rightarrow> int \<Rightarrow> ('k, presence) restriction_prog" where
  "touch_dwell run k now first_seen = (\<lambda>r.
     let limit = ip_blocked_dwell_seconds (ir_conf r) in
     if limit * MICROS \<le> now - first_seen
     then bindP (apply_ban_locked run k now ''ip_blocked_dwell'') (\<lambda>ban_info.
          retP (DwellExceeded limit (case ban_info of None \<Rightarrow> False | Some b \<Rightarrow> info_long_term b))) r
     else (Inr (Dwelling (int_seconds (now - first_seen)) limit
       (max 0 (int_seconds (limit * MICROS - (now - first_seen))))), r))"

definition touch_ip_blocked_presence :: "'k runner \<Rightarrow> string \<Rightarrow> int \<Rightarrow> ('k, presence) restriction_prog" where
  "touch_ip_blocked_presence run ip now = (\<lambda>r.
     if \<not> ir_enabled r \<or> \<not> block_ip_blocked_dwell (ir_conf r) then (Inr NotTracked, r)
     else tracked ip NotTracked (\<lambda>k.
       bindP (scan_is_banned run k now) (\<lambda>banned.
       if banned then touch_banned k now
       else
         bindP (on_scan (touch_ip_blocked k now)) (\<lambda>first_seen.
         bindP (on_scan (is_in_unban_grace k now)) (\<lambda>grace.
         if grace then (\<lambda>r. (Inr (PresentInGrace (int_seconds (now - first_seen)) (ip_blocked_dwell_seconds (ir_conf r))), r))
         else touch_dwell run k now first_seen)))) r)"

definition IP_BLOCKED_ACCESS_ENDPOINTS :: "string list" where
  "IP_BLOCKED_ACCESS_ENDPOINTS = [''ip_blocked'', ''ip_blocked_ping'', ''ip_blocked.static'']"

definition should_count_denied_access :: "string \<Rightarrow> string option \<Rightarrow> int \<Rightarrow> ('k, bool) restriction_prog" where
  "should_count_denied_access ip endpoint now = (\<lambda>r.
     if \<not> block_scanners (ir_conf r) then (Inr False, r)
     else if endpoint \<in> Some ` set IP_BLOCKED_ACCESS_ENDPOINTS \<or> endpoint = Some ''static'' then (Inr False, r)
     else tracked ip False (\<lambda>k. bindP (on_scan (is_in_unban_grace k now)) (\<lambda>grace. retP (\<not> grace))) r)"

definition count_denied_access :: "'k runner \<Rightarrow> int \<Rightarrow> string \<Rightarrow> ('k, bool) restriction_prog" where
  "count_denied_access run now k =
     bindP (scan_is_banned run k now) (\<lambda>banned.
     if banned then retP True
     else (\<lambda>r.
       bindP (on_scan (record_attempt k (scanner_window_seconds (ir_conf r)) now)) (\<lambda>attempts.
       if scanner_max_attempts (ir_conf r) \<le> int attempts
       then bindP (apply_ban_locked run k now ''rate_limit'') (\<lambda>ban_info. retP (ban_info \<noteq> None))
       else retP False) r))"

definition record_denied_access :: "'k runner \<Rightarrow> string \<Rightarrow> int \<Rightarrow> ('k, bool) restriction_prog" where
  "record_denied_access run ip now = (\<lambda>r.
     if \<not> block_scanners (ir_conf r) then (Inr False, r)
     else tracked ip False (\<lambda>k.
       bindP (on_scan (is_in_unban_grace k now)) (\<lambda>grace.
       if grace then retP False else count_denied_access run now k)) r)"

section \<open>Administrators\<close>

definition clear_scanner_bans :: "'k runner \<Rightarrow> ('k, bool) restriction_prog" where
  "clear_scanner_bans run = (\<lambda>r. on_scan (scan_clear_all (scan_runner run) (ir_settings r)) r)"

definition get_active_scanner_bans :: "'k runner \<Rightarrow> int \<Rightarrow> ('k, active_ban list) restriction_prog" where
  "get_active_scanner_bans run now = (\<lambda>r. on_scan (get_active_bans (scan_runner run) (ir_settings r) now) r)"

definition add_ip :: "'k runner \<Rightarrow> string \<Rightarrow> int \<Rightarrow> ('k, bool) restriction_prog" where
  "add_ip run ip now =
     (case normalize_ip_entry ip of
        None \<Rightarrow> retP False
      | Some e \<Rightarrow>
          bindP (modifyP (\<lambda>r. r\<lparr>ir_allowed := List.insert e (ir_allowed r), ir_enabled := True\<rparr>)) (\<lambda>_.
          bindP (save_to_env run now) (\<lambda>_.
          bindP (if CHR ''/'' \<in> set e then retP True else release_firewall_for_ip run e) (\<lambda>_. retP True))))"

text \<open>The targets of a removal: the entry in its normal form and as it was written.\<close>

definition removal_targets :: "string \<Rightarrow> string list" where
  "removal_targets ip = filter (\<lambda>t. t \<noteq> []) (case normalize_ip_entry ip of None \<Rightarrow> [strip ip] | Some e \<Rightarrow> [e, strip ip])"

definition remove_ip :: "'k runner \<Rightarrow> string \<Rightarrow> int \<Rightarrow> ('k, bool) restriction_prog" where
  "remove_ip run ip now = (\<lambda>r.
     let targets = removal_targets ip;
         rest = filter (\<lambda>e. e \<notin> set targets) (ir_allowed r) in
     if list_ex (\<lambda>t. t \<in> set (ir_allowed r)) targets
     then bindP (modifyP (\<lambda>r. r\<lparr>ir_allowed := rest, ir_enabled := (if rest = [] then False else ir_enabled r)\<rparr>)) (\<lambda>_.
          bindP (save_to_env run now) (\<lambda>_. retP True)) r
     else (Inr False, r))"

definition ir_clear_all :: "'k runner \<Rightarrow> int \<Rightarrow> ('k, unit) restriction_prog" where
  "ir_clear_all run now =
     bindP (modifyP (\<lambda>r. r\<lparr>ir_allowed := [], ir_enabled := False\<rparr>)) (\<lambda>_.
     bindP (on_temp (\<lambda>t. ((), temp_clear_all t))) (\<lambda>_. save_to_env run now))"

datatype temp_outcome = TempDisabled | TempInvalid | TempAdded string

definition add_temporary_ip :: "'k runner \<Rightarrow> string \<Rightarrow> int \<Rightarrow> int \<Rightarrow> ('k, temp_outcome) restriction_prog" where
  "add_temporary_ip run ip seconds now = (\<lambda>r.
     if \<not> ir_enabled r then (Inr TempDisabled, r)
     else (case normalize_host_ip ip of
         None \<Rightarrow> (Inr TempInvalid, r)
       | Some k \<Rightarrow>
           bindP (on_temp (temp_add k seconds now)) (\<lambda>added.
           if added = None then retP TempInvalid
           else
             bindP (release_firewall_for_ip run k) (\<lambda>_.
             bindP (sync_whitelist_port_firewall run now) (\<lambda>_. retP (TempAdded k)))) r))"

definition remove_temporary_ip :: "'k runner \<Rightarrow> string \<Rightarrow> int \<Rightarrow> ('k, bool) restriction_prog" where
  "remove_temporary_ip run ip now =
     (let k = (case normalize_host_ip ip of Some k \<Rightarrow> k | None \<Rightarrow> strip ip) in
      if k = [] then retP False
      else
        bindP (on_temp (temp_remove k)) (\<lambda>removed.
        if \<not> removed then retP False
        else bindP (sync_whitelist_port_firewall run now) (\<lambda>_. retP True)))"

definition remove_ip_any :: "'k runner \<Rightarrow> string \<Rightarrow> int \<Rightarrow> ('k, bool) restriction_prog" where
  "remove_ip_any run ip now =
     bindP (remove_ip run ip now) (\<lambda>removed_perm.
     bindP (remove_temporary_ip run ip now) (\<lambda>removed_temp. retP (removed_perm \<or> removed_temp)))"

definition get_allowed_ips :: "'k restriction \<Rightarrow> string list" where
  "get_allowed_ips r = sorted_set (ir_allowed r)"

end
