(* ===== verification/IpRestrictionFacts.thy ===== *)
theory IpRestrictionFacts
  imports IpRestriction ScannerProps
begin

text \<open>
  What the requests to the panel do to the scanner store: each is a sequence of requests to the store
  and of changes of the kernel. So what holds of the store over any sequence of its requests holds
  behind the panel too.
\<close>

section \<open>The store moves by its own requests\<close>

lemma scan_reachable_trans:
  "scan_reachable run cfg Q st1 st2 \<Longrightarrow> scan_reachable run cfg Q st0 st1 \<Longrightarrow> scan_reachable run cfg Q st0 st2"
  by (induction rule: scan_reachable.induct) (auto intro: scan_reachable.intros)

text \<open>
  A program moves the store by admissible requests, and a condition on the list of the allowed
  addresses stays as it is.\<close>

definition moves :: "'k runner \<Rightarrow> (scan_request \<Rightarrow> bool) \<Rightarrow> (string list \<Rightarrow> bool \<Rightarrow> bool) \<Rightarrow> ('k, 'a) restriction_prog \<Rightarrow> bool" where
  "moves run Q G m \<longleftrightarrow> (\<forall>r. G (ir_allowed r) (ir_enabled r) \<longrightarrow>
     (let r' = snd (m r) in
      scan_reachable (scan_runner run) (ir_settings r) Q (ir_scan r) (ir_scan r')
      \<and> G (ir_allowed r') (ir_enabled r') \<and> ir_settings r' = ir_settings r))"

lemma movesI:
  fixes m :: "('k, 'a) restriction_prog"
  assumes "\<And>r :: 'k restriction. G (ir_allowed r) (ir_enabled r) \<Longrightarrow>
    scan_reachable (scan_runner run) (ir_settings r) Q (ir_scan r) (ir_scan (snd (m r)))
      \<and> G (ir_allowed (snd (m r))) (ir_enabled (snd (m r))) \<and> ir_settings (snd (m r)) = ir_settings r"
  shows "moves run Q G m"
  using assms by (simp add: moves_def Let_def)

lemma movesD:
  fixes r r' :: "'k restriction"
  assumes "moves run Q G m" and "G (ir_allowed r) (ir_enabled r)" and "m r = (x, r')"
  shows "scan_reachable (scan_runner run) (ir_settings r) Q (ir_scan r) (ir_scan r')"
    and "G (ir_allowed r') (ir_enabled r')" and "ir_settings r' = ir_settings r"
  using assms unfolding moves_def Let_def by (metis snd_conv)+

lemma moves_bind:
  fixes m :: "('k, 'a) restriction_prog"
  assumes m: "moves run Q G m" and f: "\<And>x. moves run Q G (f x)"
  shows "moves run Q G (bindP m f)"
proof (rule movesI)
  fix r :: "'k restriction"
  assume g: "G (ir_allowed r) (ir_enabled r)"
  obtain x r1 where 1: "m r = (x, r1)" by fastforce
  note M = movesD [OF m g 1]
  show "scan_reachable (scan_runner run) (ir_settings r) Q (ir_scan r) (ir_scan (snd (bindP m f r)))
      \<and> G (ir_allowed (snd (bindP m f r))) (ir_enabled (snd (bindP m f r)))
      \<and> ir_settings (snd (bindP m f r)) = ir_settings r"
  proof (cases x)
    case (Inl e)
    then show ?thesis using 1 M by simp
  next
    case (Inr y)
    obtain z r2 where 2: "f y r1 = (z, r2)" by fastforce
    note F = movesD [OF f M(2) 2]
    show ?thesis using 1 2 Inr F M(3) scan_reachable_trans [OF F(1) [unfolded M(3)] M(1)] by simp
  qed
qed

lemma moves_look: "(\<And>r0. moves run Q G (m r0)) \<Longrightarrow> moves run Q G (\<lambda>r. m r r)"
  unfolding moves_def by blast

lemma moves_bind_look:
  "moves run Q G (\<lambda>r. h r r) \<Longrightarrow> (\<And>x. moves run Q G (f x)) \<Longrightarrow> moves run Q G (\<lambda>r. bindP (h r) f r)"
  using moves_bind [of run Q G "\<lambda>r. h r r" f] by (simp add: bindP_def)

lemma moves_ret: "moves run Q G (retP x)"
  by (rule movesI) (simp add: scan_reachable.start)

lemma moves_pair: "moves run Q G (\<lambda>r. (x, r))"
  by (rule movesI) (simp add: scan_reachable.start)

lemma moves_if: "(b \<Longrightarrow> moves run Q G m) \<Longrightarrow> (\<not> b \<Longrightarrow> moves run Q G m') \<Longrightarrow> moves run Q G (if b then m else m')"
  by simp

lemma moves_catch: "moves run Q G m \<Longrightarrow> moves run Q G (catchP m x)"
proof -
  assume m: "moves run Q G m"
  have "snd (catchP m x r) = snd (m r)" for r
    by (cases "m r"; cases "fst (m r)") (auto simp: catchP_def)
  then show ?thesis using m by (simp add: moves_def)
qed

lemma moves_for: "(\<And>x. moves run Q G (f x)) \<Longrightarrow> moves run Q G (forP f xs)"
proof (induction xs)
  case Nil
  show ?case by (simp only: forP.simps) (rule moves_ret)
next
  case (Cons x xs)
  show ?case by (simp only: forP.simps) (intro moves_bind Cons)
qed

lemma moves_temp: "moves run Q G (on_temp f)"
  by (rule movesI) (simp add: on_temp_def scan_reachable.start split: prod.splits)

lemma moves_panel: "moves run Q G (on_panel m)"
  by (rule movesI) (auto simp: on_panel_def split: prod.splits intro: scan_reachable.kernel scan_reachable.start)

lemma moves_conf: "moves run Q G (set_conf f)"
  by (rule movesI) (simp add: set_conf_def scan_reachable.start)

lemma moves_env: "moves run Q G (apply_env_updates us)"
  by (rule movesI) (auto simp: apply_env_updates_def scan_reachable.start split: sum.splits)

text \<open>Programs that are one request to the store.\<close>

lemma moves_scan:
  assumes "Q req" and "\<And>st cfg. snd (f cfg st) = scan_handle (scan_runner run) cfg req st"
  shows "moves run Q G (\<lambda>r. on_scan (f (ir_settings r)) r)"
proof (rule movesI)
  fix r :: "'a restriction"
  assume g: "G (ir_allowed r) (ir_enabled r)"
  have "ir_scan (snd (on_scan (f (ir_settings r)) r)) = scan_handle (scan_runner run) (ir_settings r) req (ir_scan r)"
    using assms(2) [of "ir_settings r" "ir_scan r"]
    by (cases "f (ir_settings r) (ir_scan r)") (simp add: on_scan_def)
  then show "scan_reachable (scan_runner run) (ir_settings r) Q (ir_scan r) (ir_scan (snd (on_scan (f (ir_settings r)) r)))
      \<and> G (ir_allowed (snd (on_scan (f (ir_settings r)) r))) (ir_enabled (snd (on_scan (f (ir_settings r)) r)))
      \<and> ir_settings (snd (on_scan (f (ir_settings r)) r)) = ir_settings r"
    using scan_reachable.request [where req = req and allowed = Q, OF scan_reachable.start
        [where ?st0.0 = "ir_scan r" and allowed = Q]] assms(1) g
    by (simp add: on_scan_def split: prod.splits)
qed

text \<open>All requests but bans.\<close>

definition no_ban_only :: "(scan_request \<Rightarrow> bool) \<Rightarrow> bool" where
  "no_ban_only Q \<longleftrightarrow> (\<forall>req. (\<forall>ip reason short now. req \<noteq> RegisterBan ip reason short now) \<longrightarrow> Q req)"

lemma moves_store:
  assumes "no_ban_only Q"
  shows "moves run Q G (\<lambda>r. on_scan (is_banned (scan_runner run) (ir_settings r) k now) r)"
    and "moves run Q G (\<lambda>r. on_scan (release_firewall_only (scan_runner run) (ir_settings r) k) r)"
    and "moves run Q G (\<lambda>r. on_scan (unban_ip (scan_runner run) (ir_settings r) k clear grace now) r)"
    and "moves run Q G (\<lambda>r. on_scan (scan_clear_all (scan_runner run) (ir_settings r)) r)"
    and "moves run Q G (\<lambda>r. on_scan (get_active_bans (scan_runner run) (ir_settings r) now) r)"
    and "moves run Q G (\<lambda>r. on_scan (sync_firewall_from_store (scan_runner run) (ir_settings r) now) r)"
  using assms
  by (intro moves_scan [of Q "AskBanned k now"] moves_scan [of Q "ReleaseFirewall k"] moves_scan [of Q "Unban k clear grace now"]
      moves_scan [of Q ClearBans] moves_scan [of Q "ListBans now"] moves_scan [of Q "SyncFirewall now"];
      simp add: no_ban_only_def)+

lemma moves_store_plain:
  assumes "no_ban_only Q"
  shows "moves run Q G (on_scan (is_in_unban_grace k now))"
    and "moves run Q G (on_scan (record_attempt k window now))"
    and "moves run Q G (on_scan (touch_ip_blocked k now))"
    and "moves run Q G (on_scan (get_ban_until k))"
proof -
  show "moves run Q G (on_scan (is_in_unban_grace k now))"
    using moves_scan [of Q "AskGrace k now" "\<lambda>_. is_in_unban_grace k now" run G] assms by (simp add: no_ban_only_def)
  show "moves run Q G (on_scan (record_attempt k window now))"
    using moves_scan [of Q "RecordAttempt k window now" "\<lambda>_. record_attempt k window now" run G] assms
    by (simp add: no_ban_only_def)
  show "moves run Q G (on_scan (touch_ip_blocked k now))"
    using moves_scan [of Q "TouchBlocked k now" "\<lambda>_. touch_ip_blocked k now" run G] assms by (simp add: no_ban_only_def)
  have "snd (get_ban_until k st) = snd (is_in_unban_grace k now st)" for st :: "'a scan_store"
    by (simp add: get_ban_until_def is_in_unban_grace_def in_unban_grace_def normalized_def state_lock_def split: sum.splits)
  then show "moves run Q G (on_scan (get_ban_until k))"
    using moves_scan [of Q "AskGrace k now" "\<lambda>_. get_ban_until k" run G] assms by (simp add: no_ban_only_def)
qed

section \<open>The requests to the panel\<close>

lemma moves_tracked: "(\<And>k. moves run Q G (body k)) \<Longrightarrow> moves run Q G (tracked ip x body)"
  by (auto simp: tracked_def intro: moves_ret split: option.splits)

lemma moves_settings:
  "moves run Q G save_scanner_settings_to_env" "moves run Q G persist_whitelist_firewall_flag"
  unfolding save_scanner_settings_to_env_def persist_whitelist_firewall_flag_def
  using moves_look [of run Q G "\<lambda>r. apply_env_updates (scanner_updates (ir_conf r))"]
    moves_look [of run Q G "\<lambda>r. apply_env_updates [(''IP_WHITELIST_FIREWALL'', show_bool (whitelist_firewall (ir_conf r)))]"]
  by (simp_all add: moves_env)

lemma moves_sync_port: "moves run Q G (sync_whitelist_port_firewall run now)"
proof -
  have disable: "moves run Q G (bindP (on_panel (panel_disable run)) (\<lambda>_. retP False))"
    by (intro moves_bind moves_panel moves_ret)
  have sync: "moves run Q G (\<lambda>r. on_panel (panel_sync run (ir_environ r) entries) r)" for entries
    using moves_look [of run Q G "\<lambda>r. on_panel (panel_sync run (ir_environ r) entries)"] by (simp add: moves_panel)
  have entries: "moves run Q G (firewall_whitelist_entries now)"
    unfolding firewall_whitelist_entries_def
    using moves_look [of run Q G "\<lambda>r. bindP (on_temp (get_active_ips now))
      (\<lambda>temps. retP (ir_allowed r @ filter (\<lambda>e. e \<notin> set (ir_allowed r)) temps))"]
    by (simp add: moves_bind moves_temp moves_ret)
  let ?body = "\<lambda>r0. if \<not> is_whitelist_port_firewall_applicable (ir_environ r0)
     then bindP (if whitelist_firewall (ir_conf r0)
                 then bindP (set_conf (\<lambda>c. c\<lparr>whitelist_firewall := False\<rparr>)) (\<lambda>_. persist_whitelist_firewall_flag)
                 else retP ()) (\<lambda>_. bindP (on_panel (panel_disable run)) (\<lambda>_. retP False))
     else if \<not> is_whitelist_port_firewall_active r0 then bindP (on_panel (panel_disable run)) (\<lambda>_. retP False)
     else bindP (firewall_whitelist_entries now) (\<lambda>entries. (\<lambda>r. on_panel (panel_sync run (ir_environ r) entries) r))"
  have "moves run Q G (?body r0)" for r0
    by (intro moves_if moves_bind [of run Q G "if _ then _ else _"] disable moves_bind [OF entries] sync)
      (auto intro: moves_bind moves_conf moves_settings moves_ret)
  note moves_look [of run Q G ?body, OF this]
  moreover have "sync_port_body run now = (\<lambda>r. ?body r r)" by (auto simp: sync_port_body_def fun_eq_iff)
  ultimately have "moves run Q G (sync_port_body run now)" by (simp only:)
  then show ?thesis unfolding sync_whitelist_port_firewall_def by (rule moves_catch)
qed

lemma moves_save: "moves run Q G (save_to_env run now)"
  unfolding save_to_env_def
  using moves_look [of run Q G "\<lambda>r. bindP (apply_env_updates [(''ALLOWED_IPS'', join '','' (sorted_set (ir_allowed r)))])
      (\<lambda>_. bindP (sync_whitelist_port_firewall run now) (\<lambda>_. retP ()))"]
  by (simp add: moves_bind moves_env moves_sync_port moves_ret)

lemma moves_protection: "moves run Q G (set_scanner_protection run args now)"
  unfolding set_scanner_protection_def
  by (intro moves_bind moves_conf moves_settings moves_sync_port moves_ret)

lemma moves_release: "no_ban_only Q \<Longrightarrow> moves run Q G (release_firewall_for_ip run ip)"
  unfolding release_firewall_for_ip_def by (rule moves_tracked) (rule moves_store(2))

lemma moves_unban: "no_ban_only Q \<Longrightarrow> moves run Q G (unban_scanner_ip run ip now)"
  unfolding unban_scanner_ip_def by (rule moves_tracked) (rule moves_store(3))

lemma moves_init: "no_ban_only Q \<Longrightarrow> moves run Q G (init_app run now)"
proof -
  assume Q: "no_ban_only Q"
  have "moves run Q G (release_whitelist_from_firewall run now)"
    unfolding release_whitelist_from_firewall_def
    using moves_look [of run Q G "\<lambda>r. bindP (forP (\<lambda>e. bindP (release_firewall_for_ip run e) (\<lambda>_. retP ()))
       (filter (\<lambda>e. CHR ''/'' \<notin> set e) (ir_allowed r))) (\<lambda>_. bindP (on_temp (get_active_ips now)) (\<lambda>temps.
       forP (\<lambda>e. bindP (release_firewall_for_ip run e) (\<lambda>_. retP ())) temps))"]
    by (simp add: moves_bind moves_for moves_temp moves_ret moves_release [OF Q])
  then have "moves run Q G (\<lambda>r. bindP (on_scan (sync_firewall_from_store (scan_runner run) (ir_settings r) now)) (\<lambda>_.
     bindP (release_whitelist_from_firewall run now) (\<lambda>_. bindP (sync_whitelist_port_firewall run now) (\<lambda>_. retP ()))) r)"
    by (intro moves_bind_look [of run Q G "\<lambda>r. on_scan (sync_firewall_from_store (scan_runner run) (ir_settings r) now)"]
      moves_store(6) [OF Q] moves_bind moves_sync_port moves_ret)
  then show ?thesis unfolding init_app_def by (rule moves_catch)
qed

lemma moves_allowed: "moves run Q G (is_ip_allowed ip now)"
proof (rule movesI)
  fix r :: "'a restriction"
  assume g: "G (ir_allowed r) (ir_enabled r)"
  obtain x t where t: "temp_is_allowed (strip ip) now (ir_temp r) = (x, t)" by fastforce
  have "snd (is_ip_allowed ip now r) \<in> {r, r\<lparr>ir_temp := t\<rparr>}"
    by (auto simp: is_ip_allowed_def on_temp_def t split: option.splits)
  then show "scan_reachable (scan_runner run) (ir_settings r) Q (ir_scan r) (ir_scan (snd (is_ip_allowed ip now r)))
      \<and> G (ir_allowed (snd (is_ip_allowed ip now r))) (ir_enabled (snd (is_ip_allowed ip now r)))
      \<and> ir_settings (snd (is_ip_allowed ip now r)) = ir_settings r"
    using g by (auto simp: scan_reachable.start)
qed

lemma moves_ask: "no_ban_only Q \<Longrightarrow> moves run Q G (scan_is_banned run k now)"
  unfolding scan_is_banned_def by (rule moves_store(1))

lemma moves_scanner_banned: "no_ban_only Q \<Longrightarrow> moves run Q G (is_scanner_banned run ip now)"
  unfolding is_scanner_banned_def by (intro moves_bind moves_allowed moves_if moves_ret moves_tracked moves_ask)

lemma moves_hard_deny:
  assumes "no_ban_only Q"
  shows "moves run Q G (should_hard_deny run ip now)"
proof -
  let ?body = "\<lambda>r0 :: 'a restriction. if \<not> ir_enabled r0 then retP False
    else bindP (is_ip_allowed ip now) (\<lambda>allowed. if allowed then retP False else is_scanner_banned run ip now)"
  have "moves run Q G (?body r0)" for r0
    by (intro moves_if moves_ret moves_bind moves_allowed moves_scanner_banned assms)
  note moves_look [of run Q G ?body, OF this]
  moreover have "should_hard_deny run ip now = (\<lambda>r. ?body r r)" by (auto simp: should_hard_deny_def fun_eq_iff)
  ultimately show ?thesis by (simp only:)
qed

section \<open>Bans of visitors\<close>

text \<open>An address that is admitted: nobody is refused, or an entry of the list covers it.\<close>

definition admitted :: "ipaddr \<Rightarrow> string list \<Rightarrow> bool \<Rightarrow> bool" where
  "admitted a allowed enabled \<longleftrightarrow> \<not> enabled \<or> list_ex (entry_admits a) allowed"

text \<open>All requests to the store but bans of one address.\<close>

fun bans_others :: "string \<Rightarrow> scan_request \<Rightarrow> bool" where
  "bans_others k (RegisterBan ip reason short now) \<longleftrightarrow> scan_normalize_ip ip \<noteq> Inr k"
| "bans_others k req \<longleftrightarrow> True"

lemma bans_others_only: "no_ban_only (bans_others k)"
  unfolding no_ban_only_def
proof (intro allI impI)
  fix req
  assume "\<forall>ip reason short now. req \<noteq> RegisterBan ip reason short now"
  then show "bans_others k req" by (cases req) simp_all
qed

lemma tracker_key:
  assumes "normalize_tracker_ip ip = Some key"
  shows "\<exists>b. ip_address (strip ip) = Some b \<and> key = show_addr b \<and> strip key = key \<and> ip_address key = Some b \<and> key \<noteq> []"
proof -
  obtain b where b: "ip_address (strip ip) = Some b" "key = show_addr b"
    using assms by (auto simp: normalize_tracker_ip_def split: if_splits)
  have "ip_address key = Some b" using b ip_address_printable ip_address_show_printable by simp
  moreover have "ip_address [] = None" by code_simp
  ultimately show ?thesis using b show_addr_stripped [OF b(1)] by auto
qed

lemma admitted_allowed:
  assumes "ip_address (strip ip) = Some a" and "admitted a (ir_allowed r) (ir_enabled r)"
  shows "is_ip_allowed ip now r = (Inr True, r)"
proof -
  have "ip_address [] = None" by code_simp
  then have "strip ip \<noteq> []" using assms(1) by auto
  then show ?thesis using assms by (auto simp: is_ip_allowed_def admitted_def)
qed

lemma moves_apply_ban:
  assumes a: "addr_printable a" and key: "normalize_tracker_ip ip = Some key"
  shows "moves run (bans_others (show_addr a)) (admitted a) (apply_ban_locked run key now reason)"
proof -
  obtain b where b: "key = show_addr b" "strip key = key" "ip_address key = Some b" using tracker_key [OF key] by blast
  show ?thesis
  proof (cases "b = a")
    case True
    have "apply_ban_locked run key now reason r = (Inr None, r)" if "admitted a (ir_allowed r) (ir_enabled r)" for r
      using admitted_allowed [of key a r now] that b True by (simp add: apply_ban_locked_def)
    then show ?thesis by (intro movesI) (simp add: scan_reachable.start)
  next
    case False
    then have ne: "key \<noteq> show_addr a"
      using b(1) show_addr_inj [of b a] a ip_address_printable [OF b(3)] by auto
    have "moves run (bans_others (show_addr a)) G (\<lambda>r. on_scan (register_ban (scan_runner run) (ir_settings r) key reason short now) r)"
      for G short
      by (rule moves_scan [where req = "RegisterBan key reason short now"])
        (use ne b in \<open>auto simp: scan_normalize_ip_def\<close>)
    then have ban: "moves run (bans_others (show_addr a)) G (\<lambda>r. on_scan (register_ban (scan_runner run) (ir_settings r) key reason
        (scanner_ban_seconds (ir_conf r)) now) r)" for G
      using moves_look [of run "bans_others (show_addr a)" G "\<lambda>r0 r. on_scan (register_ban (scan_runner run) (ir_settings r) key reason
        (scanner_ban_seconds (ir_conf r0)) now) r"] by simp
    show ?thesis
      unfolding apply_ban_locked_def by (intro moves_bind moves_allowed moves_if moves_ret ban)
  qed
qed

lemma moves_touch:
  assumes a: "addr_printable a"
  shows "moves run (bans_others (show_addr a)) (admitted a) (touch_ip_blocked_presence run ip now)"
proof -
  let ?M = "moves run (bans_others (show_addr a)) (admitted a)"
  note Q = bans_others_only [of "show_addr a"]
  have dwell: "?M (touch_dwell run k now first)" if "normalize_tracker_ip ip = Some k" for k first
  proof -
    let ?body = "\<lambda>r0 :: 'a restriction. let limit = ip_blocked_dwell_seconds (ir_conf r0) in
      if limit * MICROS \<le> now - first
      then bindP (apply_ban_locked run k now ''ip_blocked_dwell'') (\<lambda>ban_info.
          retP (DwellExceeded limit (case ban_info of None \<Rightarrow> False | Some b \<Rightarrow> info_long_term b)))
      else retP (Dwelling (int_seconds (now - first)) limit (max 0 (int_seconds (limit * MICROS - (now - first)))))"
    have "?M (?body r0)" for r0
      unfolding Let_def by (intro moves_if moves_bind moves_apply_ban [OF a that] moves_ret)
    note moves_look [of run "bans_others (show_addr a)" "admitted a" ?body, OF this]
    moreover have "touch_dwell run k now first = (\<lambda>r. ?body r r)" by (auto simp: touch_dwell_def Let_def fun_eq_iff)
    ultimately show ?thesis by (simp only:)
  qed
  have grace: "?M (\<lambda>r. (Inr (PresentInGrace (int_seconds (now - first)) (ip_blocked_dwell_seconds (ir_conf r))), r))" for first
    using moves_look [of run "bans_others (show_addr a)" "admitted a" "\<lambda>r0 r. (Inr (PresentInGrace (int_seconds (now - first)) (ip_blocked_dwell_seconds (ir_conf r0))), r)"]
    by (simp add: moves_pair)
  have main: "?M (tracked ip NotTracked (\<lambda>k. bindP (scan_is_banned run k now) (\<lambda>banned. if banned then touch_banned k now
       else bindP (on_scan (touch_ip_blocked k now)) (\<lambda>first_seen. bindP (on_scan (is_in_unban_grace k now)) (\<lambda>grace.
         if grace then (\<lambda>r. (Inr (PresentInGrace (int_seconds (now - first_seen)) (ip_blocked_dwell_seconds (ir_conf r))), r))
         else touch_dwell run k now first_seen)))))"
  proof (cases "normalize_tracker_ip ip")
    case None
    then show ?thesis by (simp add: tracked_def moves_ret)
  next
    case (Some k)
    show ?thesis
      unfolding tracked_def Some option.case touch_banned_def
      by (intro moves_bind moves_if moves_ask [OF Q] moves_store_plain [OF Q] moves_ret grace dwell [OF Some])
  qed
  let ?body = "\<lambda>r0 :: 'a restriction. if \<not> ir_enabled r0 \<or> \<not> block_ip_blocked_dwell (ir_conf r0) then retP NotTracked
     else tracked ip NotTracked (\<lambda>k. bindP (scan_is_banned run k now) (\<lambda>banned. if banned then touch_banned k now
       else bindP (on_scan (touch_ip_blocked k now)) (\<lambda>first_seen. bindP (on_scan (is_in_unban_grace k now)) (\<lambda>grace.
         if grace then (\<lambda>r. (Inr (PresentInGrace (int_seconds (now - first_seen)) (ip_blocked_dwell_seconds (ir_conf r))), r))
         else touch_dwell run k now first_seen))))"
  have "?M (?body r0)" for r0 by (intro moves_if moves_ret main)
  note moves_look [of run "bans_others (show_addr a)" "admitted a" ?body, OF this]
  moreover have "touch_ip_blocked_presence run ip now = (\<lambda>r. ?body r r)"
    by (auto simp: touch_ip_blocked_presence_def fun_eq_iff)
  ultimately show ?thesis by (simp only:)
qed

end
