(* ===== verification/IpRestrictionProps.thy ===== *)
theory IpRestrictionProps
  imports IpRestrictionFacts ScannerClaims
begin

text \<open>
  The requests to the panel as steps, and the first promise over any sequence of them: who is
  admitted is never banned.
\<close>

section \<open>Counting refused visits\<close>

lemma moves_record_denied:
  assumes a: "addr_printable a"
  shows "moves run (bans_others (show_addr a)) (admitted a) (record_denied_access run ip now)"
proof -
  let ?M = "moves run (bans_others (show_addr a)) (admitted a)"
  note Q = bans_others_only [of "show_addr a"]
  have count: "?M (count_denied_access run now k)" if "normalize_tracker_ip ip = Some k" for k
  proof -
    let ?body = "\<lambda>r0 :: 'a restriction. bindP (on_scan (record_attempt k (scanner_window_seconds (ir_conf r0)) now)) (\<lambda>attempts.
       if scanner_max_attempts (ir_conf r0) \<le> int attempts
       then bindP (apply_ban_locked run k now ''rate_limit'') (\<lambda>ban_info. retP (ban_info \<noteq> None))
       else retP False)"
    have "?M (?body r0)" for r0
      by (intro moves_bind moves_store_plain [OF Q] moves_if moves_apply_ban [OF a that] moves_ret)
    then have "?M (\<lambda>r. ?body r r)" by (rule moves_look [of run "bans_others (show_addr a)" "admitted a" ?body])
    then show ?thesis unfolding count_denied_access_def by (intro moves_bind moves_ask [OF Q] moves_if moves_ret)
  qed
  have main: "?M (tracked ip False (\<lambda>k. bindP (on_scan (is_in_unban_grace k now)) (\<lambda>grace.
       if grace then retP False else count_denied_access run now k)))"
  proof (cases "normalize_tracker_ip ip")
    case None
    then show ?thesis by (simp add: tracked_def moves_ret)
  next
    case (Some k)
    show ?thesis
      unfolding tracked_def Some option.case
      by (intro moves_bind moves_store_plain [OF Q] moves_if moves_ret count [OF Some])
  qed
  let ?body = "\<lambda>r0 :: 'a restriction. if \<not> block_scanners (ir_conf r0) then retP False
     else tracked ip False (\<lambda>k. bindP (on_scan (is_in_unban_grace k now)) (\<lambda>grace.
       if grace then retP False else count_denied_access run now k))"
  have "?M (?body r0)" for r0 by (intro moves_if moves_ret main)
  note moves_look [of run "bans_others (show_addr a)" "admitted a" ?body, OF this]
  moreover have "record_denied_access run ip now = (\<lambda>r. ?body r r)"
    by (auto simp: record_denied_access_def fun_eq_iff)
  ultimately show ?thesis by (simp only:)
qed

lemma moves_should_count:
  assumes "no_ban_only Q"
  shows "moves run Q G (should_count_denied_access ip endpoint now)"
proof -
  let ?body = "\<lambda>r0 :: 'a restriction. if \<not> block_scanners (ir_conf r0) then retP False
     else if endpoint \<in> Some ` set IP_BLOCKED_ACCESS_ENDPOINTS \<or> endpoint = Some ''static'' then retP False
     else tracked ip False (\<lambda>k. bindP (on_scan (is_in_unban_grace k now)) (\<lambda>grace. retP (\<not> grace)))"
  have "moves run Q G (?body r0)" for r0
    by (intro moves_if moves_ret moves_tracked moves_bind moves_store_plain [OF assms])
  note moves_look [of run Q G ?body, OF this]
  moreover have "should_count_denied_access ip endpoint now = (\<lambda>r. ?body r r)"
    by (auto simp: should_count_denied_access_def fun_eq_iff)
  ultimately show ?thesis by (simp only:)
qed

section \<open>Requests\<close>

datatype ir_request =
    TouchPresence string int
  | DeniedAccess string int
  | CountAccess string "string option" int
  | HardDeny string int
  | AskScannerBan string int
  | AddEntry string int
  | RemoveEntry string int
  | AddTemporary string int int
  | RemoveTemporary string int
  | RemoveAny string int
  | ClearEntries int
  | ReleaseIp string
  | UnbanIp string int
  | ClearScannerBans
  | ShowBans int
  | Protect protection_args int
  | ReloadSettings
  | StartUp int

fun ir_handle :: "'k runner \<Rightarrow> ir_request \<Rightarrow> 'k restriction \<Rightarrow> 'k restriction" where
  "ir_handle run (TouchPresence ip now) r = snd (touch_ip_blocked_presence run ip now r)"
| "ir_handle run (DeniedAccess ip now) r = snd (record_denied_access run ip now r)"
| "ir_handle run (CountAccess ip endpoint now) r = snd (should_count_denied_access ip endpoint now r)"
| "ir_handle run (HardDeny ip now) r = snd (should_hard_deny run ip now r)"
| "ir_handle run (AskScannerBan ip now) r = snd (is_scanner_banned run ip now r)"
| "ir_handle run (AddEntry ip now) r = snd (add_ip run ip now r)"
| "ir_handle run (RemoveEntry ip now) r = snd (remove_ip run ip now r)"
| "ir_handle run (AddTemporary ip seconds now) r = snd (add_temporary_ip run ip seconds now r)"
| "ir_handle run (RemoveTemporary ip now) r = snd (remove_temporary_ip run ip now r)"
| "ir_handle run (RemoveAny ip now) r = snd (remove_ip_any run ip now r)"
| "ir_handle run (ClearEntries now) r = snd (ir_clear_all run now r)"
| "ir_handle run (ReleaseIp ip) r = snd (release_firewall_for_ip run ip r)"
| "ir_handle run (UnbanIp ip now) r = snd (unban_scanner_ip run ip now r)"
| "ir_handle run ClearScannerBans r = snd (clear_scanner_bans run r)"
| "ir_handle run (ShowBans now) r = snd (get_active_scanner_bans run now r)"
| "ir_handle run (Protect args now) r = snd (set_scanner_protection run args now r)"
| "ir_handle run ReloadSettings r = snd (reload_scanner_settings r)"
| "ir_handle run (StartUp now) r = snd (init_app run now r)"

text \<open>The requests an administrator or a visitor makes, the kernel changing on its own in between.\<close>

inductive ir_reachable :: "'k runner \<Rightarrow> ('k restriction \<Rightarrow> bool) \<Rightarrow> 'k restriction \<Rightarrow> 'k restriction \<Rightarrow> bool"
  for run ok r0 where
  start: "ok r0 \<Longrightarrow> ir_reachable run ok r0 r0"
| request: "ir_reachable run ok r0 r \<Longrightarrow> ok (ir_handle run req r) \<Longrightarrow> ir_reachable run ok r0 (ir_handle run req r)"
| kernel: "ir_reachable run ok r0 r \<Longrightarrow> ir_reachable run ok r0 (r\<lparr>ir_scan := (ir_scan r)\<lparr>st_kernel := k\<rparr>\<rparr>)"

abbreviation anything :: "string list \<Rightarrow> bool \<Rightarrow> bool" where
  "anything \<equiv> \<lambda>_ _. True"

lemma moves_allowed_change: "moves run Q anything (modifyP (\<lambda>r. r\<lparr>ir_allowed := f r, ir_enabled := g r\<rparr>))"
  by (rule movesI) (simp add: scan_reachable.start)

lemma moves_add: "no_ban_only Q \<Longrightarrow> moves run Q anything (add_ip run ip now)"
  unfolding add_ip_def
  by (auto split: option.splits
      intro!: moves_ret moves_bind moves_allowed_change moves_save moves_if moves_release)

lemma moves_remove: "moves run Q anything (remove_ip run ip now)"
proof -
  let ?body = "\<lambda>r0 :: 'a restriction. let targets = removal_targets ip; rest = filter (\<lambda>e. e \<notin> set targets) (ir_allowed r0) in
     if list_ex (\<lambda>t. t \<in> set (ir_allowed r0)) targets
     then bindP (modifyP (\<lambda>r. r\<lparr>ir_allowed := rest, ir_enabled := (if rest = [] then False else ir_enabled r)\<rparr>)) (\<lambda>_.
          bindP (save_to_env run now) (\<lambda>_. retP True))
     else retP False"
  have "moves run Q anything (?body r0)" for r0
    unfolding Let_def by (intro moves_if moves_bind moves_allowed_change moves_save moves_ret)
  note moves_look [of run Q anything ?body, OF this]
  moreover have "remove_ip run ip now = (\<lambda>r. ?body r r)" by (auto simp: remove_ip_def Let_def fun_eq_iff)
  ultimately show ?thesis by (simp only:)
qed

lemma moves_clear: "moves run Q anything (ir_clear_all run now)"
  unfolding ir_clear_all_def by (intro moves_bind moves_allowed_change moves_temp moves_save)

lemma moves_add_temporary: "no_ban_only Q \<Longrightarrow> moves run Q anything (add_temporary_ip run ip seconds now)"
proof -
  assume Q: "no_ban_only Q"
  let ?body = "\<lambda>r0 :: 'a restriction. if \<not> ir_enabled r0 then retP TempDisabled
     else (case normalize_host_ip ip of
         None \<Rightarrow> retP TempInvalid
       | Some k \<Rightarrow> bindP (on_temp (temp_add k seconds now)) (\<lambda>added. if added = None then retP TempInvalid
           else bindP (release_firewall_for_ip run k) (\<lambda>_.
             bindP (sync_whitelist_port_firewall run now) (\<lambda>_. retP (TempAdded k)))))"
  have "moves run Q anything (?body r0)" for r0
    by (cases "normalize_host_ip ip")
      (auto intro!: moves_if moves_ret moves_bind moves_temp moves_release [OF Q] moves_sync_port)
  note moves_look [of run Q anything ?body, OF this]
  moreover have "add_temporary_ip run ip seconds now = (\<lambda>r. ?body r r)"
    by (auto simp: add_temporary_ip_def fun_eq_iff split: option.splits)
  ultimately show ?thesis by (simp only:)
qed

lemma moves_remove_temporary: "moves run Q anything (remove_temporary_ip run ip now)"
  unfolding remove_temporary_ip_def Let_def by (intro moves_if moves_ret moves_bind moves_temp moves_sync_port)

lemma by_moves:
  fixes r :: "'k restriction"
  assumes "moves run Q G m" and "ir_handle run req r = snd (m r)" and "G (ir_allowed r) (ir_enabled r)"
  shows "scan_reachable (scan_runner run) (ir_settings r) Q (ir_scan r) (ir_scan (ir_handle run req r))
    \<and> ir_settings (ir_handle run req r) = ir_settings r"
  using movesD [OF assms(1,3), of "fst (m r)" "snd (m r)"] assms(2) by simp

text \<open>Each request moves the store by requests of its own, none of them a ban of an admitted address.\<close>

lemma handle_moves:
  assumes a: "addr_printable a" and adm: "admitted a (ir_allowed r) (ir_enabled r)"
  shows "scan_reachable (scan_runner run) (ir_settings r) (bans_others (show_addr a)) (ir_scan r) (ir_scan (ir_handle run req r))
    \<and> ir_settings (ir_handle run req r) = ir_settings r"
proof -
  note Q = bans_others_only [of "show_addr a"]
  show ?thesis
  proof (cases req)
    case (TouchPresence ip now) then show ?thesis using adm Q by (intro by_moves [OF moves_touch [OF a]]) simp_all
  next
    case (DeniedAccess ip now) then show ?thesis using adm Q by (intro by_moves [OF moves_record_denied [OF a]]) simp_all
  next
    case (CountAccess ip e now) then show ?thesis using adm Q by (intro by_moves [OF moves_should_count [where G = "admitted a"]]) simp_all
  next
    case (HardDeny ip now) then show ?thesis using adm Q by (intro by_moves [OF moves_hard_deny [where G = "admitted a"]]) simp_all
  next
    case (AskScannerBan ip now) then show ?thesis using adm Q by (intro by_moves [OF moves_scanner_banned [where G = "admitted a"]]) simp_all
  next
    case (AddEntry ip now) then show ?thesis by (intro by_moves [OF moves_add [OF Q]]) simp_all
  next
    case (RemoveEntry ip now) then show ?thesis by (intro by_moves [OF moves_remove]) simp_all
  next
    case (AddTemporary ip s now) then show ?thesis by (intro by_moves [OF moves_add_temporary [OF Q]]) simp_all
  next
    case (RemoveTemporary ip now) then show ?thesis by (intro by_moves [OF moves_remove_temporary]) simp_all
  next
    case (RemoveAny ip now)
    have m: "moves run (bans_others (show_addr a)) anything (remove_ip_any run ip now)"
      unfolding remove_ip_any_def by (intro moves_bind moves_remove moves_remove_temporary moves_ret)
    then show ?thesis using RemoveAny by (intro by_moves [OF m]) simp_all
  next
    case (ClearEntries now) then show ?thesis by (intro by_moves [OF moves_clear]) simp_all
  next
    case (ReleaseIp ip) then show ?thesis using adm Q by (intro by_moves [OF moves_release [where G = "admitted a"]]) simp_all
  next
    case (UnbanIp ip now) then show ?thesis using adm Q by (intro by_moves [OF moves_unban [where G = "admitted a"]]) simp_all
  next
    case ClearScannerBans
    then show ?thesis using adm Q by (intro by_moves [OF moves_store(4) [where G = "admitted a"]]) (simp_all add: clear_scanner_bans_def)
  next
    case (ShowBans now)
    then show ?thesis using adm Q by (intro by_moves [OF moves_store(5) [where G = "admitted a"]]) (simp_all add: get_active_scanner_bans_def)
  next
    case (Protect args now) then show ?thesis using adm Q by (intro by_moves [OF moves_protection [where G = "admitted a"]]) simp_all
  next
    case ReloadSettings
    then show ?thesis by (simp add: reload_scanner_settings_def scan_reachable.start)
  next
    case (StartUp now) then show ?thesis using adm Q by (intro by_moves [OF moves_init [where G = "admitted a"]]) simp_all
  qed
qed

section \<open>Who is admitted is not banned\<close>

definition ban_free :: "string \<Rightarrow> scan_file \<Rightarrow> bool" where
  "ban_free k f \<longleftrightarrow> (\<exists>d. f = Entries d \<and> wf_dict d \<and> (\<forall>r. record_in d k = Some r \<longrightarrow> ban_until r = 0))"

interpretation unbanned: record_contract "\<lambda>key x. key = k \<longrightarrow> (\<forall>r. x = Some r \<longrightarrow> ban_until r = 0)" cfg "bans_others k"
  for k cfg
  by unfold_locales (auto simp: new_record_def released_record_def unbanned_record_def Let_def)

lemma ban_free_stored: "unbanned.stored k st \<longleftrightarrow> ban_free k (st_file st)"
  by (auto simp: unbanned.stored_def unbanned.good_def ban_free_def)

abbreviation keeps_admitting :: "'k runner \<Rightarrow> ipaddr \<Rightarrow> 'k restriction \<Rightarrow> 'k restriction \<Rightarrow> bool" where
  "keeps_admitting run a \<equiv> ir_reachable run (\<lambda>r. admitted a (ir_allowed r) (ir_enabled r))"

lemma keeps_admitting_admits: "keeps_admitting run a r0 r \<Longrightarrow> admitted a (ir_allowed r) (ir_enabled r)"
  by (induction rule: ir_reachable.induct) simp_all

lemma admitted_ban_free:
  assumes "keeps_admitting run a r0 r" and "addr_printable a" and "ban_free (show_addr a) (st_file (ir_scan r0))"
  shows "ban_free (show_addr a) (st_file (ir_scan r))"
  using assms
proof induction
  case (request r req)
  have "admitted a (ir_allowed r) (ir_enabled r)" using keeps_admitting_admits request.hyps(1) by blast
  from handle_moves [OF request.prems(1) this, THEN conjunct1]
  have "scan_reachable (scan_runner run) (ir_settings r) (bans_others (show_addr a)) (ir_scan r) (ir_scan (ir_handle run req r))" .
  from unbanned.reachable_stored [OF this] request show ?case by (simp add: ban_free_stored)
qed simp_all

text \<open>C6: an address that an entry of the whitelist covers, and that is not banned, is never banned and
  never refused, whatever visitors and administrators do, as long as the entry stays on the list.\<close>

theorem admitted_never_banned:
  assumes "ip_address (strip ip) = Some a" and "keeps_admitting run a r0 r"
    and "ban_free (show_addr a) (st_file (ir_scan r0))"
  shows "fst (should_hard_deny run ip now r) = Inr False \<and> ban_free (show_addr a) (st_file (ir_scan r))"
proof -
  have "admitted a (ir_allowed r) (ir_enabled r)" using keeps_admitting_admits [OF assms(2)] .
  from admitted_allowed [OF assms(1) this] have "fst (should_hard_deny run ip now r) = Inr False"
    by (simp add: should_hard_deny_def)
  then show ?thesis
    using admitted_ban_free [OF assms(2) ip_address_printable [OF assms(1)] assms(3)] by simp
qed

definition demo_restriction :: "demo_kernel restriction" where
  "demo_restriction = \<lparr>ir_allowed = [''203.0.113.0/24''], ir_enabled = True,
     ir_conf = load_scanner_settings [''IP_BLOCK_SCANNERS'' \<mapsto> ''true'', ''IP_SCANNER_MAX_ATTEMPTS'' \<mapsto> ''2''],
     ir_settings = demo_off, ir_temp = \<lparr>tw_entries = [], tw_file = NoTempFile\<rparr>,
     ir_scan = \<lparr>st_file = Entries [], st_data = [], st_kernel = \<lparr>demo_sets = [], demo_rules = []\<rparr>\<rparr>,
     ir_panel = \<lparr>pn_enabled = False, pn_dry_run = False, pn_active_port = None, pn_kernel = \<lparr>demo_sets = [], demo_rules = []\<rparr>\<rparr>,
     ir_environ = (\<lambda>_. None), ir_env_file = None\<rparr>"

theorem admitted_never_banned_witness:
  "fst (should_hard_deny demo_run ''203.0.113.9'' 7
      (ir_handle demo_run (Protect \<lparr>arg_enabled = True, arg_max_attempts = Some 1, arg_window_seconds = None,
         arg_ban_seconds = None, arg_block_dwell = None, arg_dwell_seconds = None, arg_whitelist_firewall = None\<rparr> 5)
        demo_restriction)) = Inr False"
proof -
  let ?req = "Protect \<lparr>arg_enabled = True, arg_max_attempts = Some 1, arg_window_seconds = None,
         arg_ban_seconds = None, arg_block_dwell = None, arg_dwell_seconds = None, arg_whitelist_firewall = None\<rparr> 5"
  let ?a = "V4 3405803785"
  have ip: "ip_address (strip ''203.0.113.9'') = Some ?a" by code_simp
  have adm: "admitted ?a (ir_allowed demo_restriction) (ir_enabled demo_restriction)" by code_simp
  have "admitted ?a (ir_allowed (ir_handle demo_run ?req demo_restriction)) (ir_enabled (ir_handle demo_run ?req demo_restriction))"
    using movesD(2) [OF moves_protection [where G = "admitted ?a"], of demo_restriction demo_run] adm by (simp add: prod_eq_iff)
  from ir_reachable.request [OF ir_reachable.start [where ok = "\<lambda>r. admitted ?a (ir_allowed r) (ir_enabled r)", OF adm] this]
  have reach: "keeps_admitting demo_run ?a demo_restriction (ir_handle demo_run ?req demo_restriction)" .
  have "ban_free (show_addr ?a) (st_file (ir_scan demo_restriction))"
    by (simp add: ban_free_def demo_restriction_def record_in_def)
  from admitted_never_banned [OF ip reach this] show ?thesis by blast
qed

end
