(* ===== verification/IpRestrictionLive.thy ===== *)
theory IpRestrictionLive
  imports IpRestrictionProps
begin

text \<open>
  Who keeps knocking is banned: refused visits are counted in a window, and the visit that fills the
  count is answered by a ban.
\<close>

section \<open>One address in the store\<close>

text \<open>The record of an address as the next operation reads it.\<close>

definition seen_record :: "'k scan_store \<Rightarrow> string \<Rightarrow> scan_record option" where
  "seen_record st k = find_record (scan_load st) k"

definition on_file :: "'k scan_store \<Rightarrow> bool" where
  "on_file st \<longleftrightarrow> (\<exists>d. st_file st = Entries d \<and> wf_dict d)"

lemma load_load: "on_file st \<Longrightarrow> scan_load (scan_load st) = scan_load st \<and> on_file (scan_load st)
    \<and> wf_dict (st_data (scan_load st))"
  by (auto simp: on_file_def scan_load_def)

lemma saved_record:
  assumes "save_unlocked st = (x, st')" and "wf_dict (st_data st)"
  shows "on_file st' \<and> seen_record st' k = find_record st k"
  using load_saved [OF assms, of k] assms
  by (auto simp: on_file_def seen_record_def save_unlocked_def wf_dict_sorted)

lemma normalized_run: "scan_normalize_ip ip = Inr k \<Longrightarrow> normalized ip body st = body k (scan_load st)"
  by (simp add: normalized_def state_lock_def)

lemma grace_step:
  assumes "scan_normalize_ip k = Inr k" and "on_file st"
  shows "is_in_unban_grace k now st = (Inr (case seen_record st k of None \<Rightarrow> False | Some r \<Rightarrow> now < unban_grace_until r), scan_load st)"
    and "seen_record (scan_load st) k = seen_record st k" and "on_file (scan_load st)"
  using assms load_load [of st]
  by (simp_all add: is_in_unban_grace_def in_unban_grace_def normalized_run seen_record_def)

text \<open>A record that is as good as another for the count.\<close>

definition counted :: "int \<Rightarrow> nat \<Rightarrow> scan_record option \<Rightarrow> bool" where
  "counted t1 n x \<longleftrightarrow> (case x of None \<Rightarrow> n = 0
     | Some r \<Rightarrow> unban_grace_until r \<le> t1 \<and> n \<le> length (filter (\<lambda>t. t1 \<le> t) (recent_attempts r)))"

lemma banned_step:
  assumes k: "scan_normalize_ip k = Inr k" and f: "on_file st" and run: "is_banned run cfg k now st = (res, st')"
    and no: "res \<noteq> Inr True" and c: "counted t1 n (seen_record st k)"
  shows "res = Inr False" and "on_file st'" and "counted t1 n (seen_record st' k)"
proof -
  have "res = Inr False \<and> on_file st' \<and> counted t1 n (seen_record st' k)"
  proof (cases "seen_record st k")
    case None
    then have "res = Inr False \<and> st' = scan_load st"
      using run by (simp add: is_banned_def normalized_run [OF k] is_banned_locked_def seen_record_def)
    then show ?thesis using grace_step(2,3) [OF k f] c by simp
  next
    case (Some r)
    then have r: "find_record (scan_load st) k = Some r" by (simp add: seen_record_def)
    have res: "res = Inr (now < ban_until r)" using is_banned_value [OF k r, of run cfg now] run by simp
    then have late: "\<not> now < ban_until r" using no by auto
    show ?thesis
    proof (cases "0 < ban_until r")
      case False
      then have "st' = scan_load st"
        using run r late by (simp add: is_banned_def normalized_run [OF k] is_banned_locked_def)
      then show ?thesis using grace_step(2,3) [OF k f] c res late by simp
    next
      case True
      obtain v where v: "scan_ip_version k = Inr v" using normalized_version [OF k] by blast
      obtain fl d ks where st: "scan_load st = \<lparr>st_file = fl, st_data = d, st_kernel = ks\<rparr>" by (cases "scan_load st")
      obtain x k1 where rm: "\<forall>d. firewall_remove run cfg k \<lparr>st_file = fl, st_data = d, st_kernel = ks\<rparr>
          = (Inr x, \<lparr>st_file = fl, st_data = d, st_kernel = k1\<rparr>)"
        using kernel_onlyE [OF kernel_only_remove [OF v], of run cfg fl ks] by blast
      let ?r = "r\<lparr>ban_until := 0, firewall_applied := False\<rparr>"
      let ?s = "\<lparr>st_file = fl, st_data = AList.update k (Entry ?r) d, st_kernel = k1\<rparr>"
      have "save_unlocked ?s = (Inr (), st')"
        using run r late True st rm
        by (auto simp: is_banned_def normalized_run [OF k] is_banned_locked_def expire_ban_def put_record_def save_unlocked_def)
      moreover have "wf_dict (st_data ?s)" using load_load [OF f] st by (simp add: wf_dict_update)
      ultimately have "on_file st'" "seen_record st' k = Some ?r"
        using saved_record [of ?s "Inr ()" st' k] by (simp_all add: find_record_def dict_simps)
      then show ?thesis using res late c Some by (simp add: counted_def)
    qed
  qed
  then show "res = Inr False" "on_file st'" "counted t1 n (seen_record st' k)" by auto
qed

text \<open>A refused visit at an instant within the window counts.\<close>

lemma attempt_step:
  assumes k: "scan_normalize_ip k = Inr k" and f: "on_file st" and c: "counted t1 n (seen_record st k)"
    and t: "0 \<le> t1" "t1 \<le> now" "now - window * MICROS \<le> t1"
  shows "\<exists>m st'. record_attempt k window now st = (Inr m, st') \<and> n + 1 \<le> m \<and> on_file st'
    \<and> counted t1 (n + 1) (seen_record st' k)"
proof -
  let ?s0 = "scan_load st"
  have wf: "wf_dict (st_data ?s0)" using load_load [OF f] by blast
  obtain r0 s1 where e: "entry_unlocked k ?s0 = (Inr r0, s1)" by (fastforce simp: entry_unlocked_def split: option.splits)
  have r0: "seen_record st k = Some r0 \<or> seen_record st k = None \<and> r0 = new_record k"
    using e by (auto simp: entry_unlocked_def seen_record_def split: option.splits)
  have s1: "wf_dict (st_data s1)" "find_record s1 k = Some r0"
    using e wf by (auto simp: entry_unlocked_def put_record_def wf_dict_update find_record_def dict_simps
        split: option.splits scan_entry.splits)
  let ?att = "filter (\<lambda>t. now - window * MICROS \<le> t) (recent_attempts r0)"
  let ?r = "r0\<lparr>recent_attempts := ?att @ [now]\<rparr>"
  let ?s2 = "s1\<lparr>st_data := AList.update k (Entry ?r) (st_data s1)\<rparr>"
  obtain st' where sv: "save_unlocked ?s2 = (Inr (), st')" by (simp add: save_unlocked_def)
  have run: "record_attempt k window now st = (Inr (length ?att + 1), st')"
    using e s1 sv
    by (simp add: record_attempt_def normalized_run [OF k] record_attempt_locked_def prune_attempts_locked_def Let_def
        put_record_def entry_unlocked_def find_record_def dict_simps)
  have "wf_dict (st_data ?s2)" using s1(1) by (simp add: wf_dict_update)
  then have st': "on_file st'" "seen_record st' k = Some ?r"
    using saved_record [OF sv, of k] by (simp_all add: find_record_def dict_simps)
  have all: "filter (\<lambda>t. t1 \<le> t) (filter (\<lambda>t. now - window * MICROS \<le> t) xs) = filter (\<lambda>t. t1 \<le> t) xs" for xs
    using t(3) by (induction xs) auto
  have n: "n \<le> length (filter (\<lambda>t. t1 \<le> t) (recent_attempts r0))"
    using c r0 by (auto simp: counted_def)
  also have "\<dots> \<le> length ?att" using length_filter_le [of "\<lambda>t. t1 \<le> t" ?att] all by simp
  finally have "n + 1 \<le> length ?att + 1" by simp
  moreover have "counted t1 (n + 1) (seen_record st' k)"
    using c r0 n t(1,2) all by (auto simp: st' counted_def new_record_def)
  ultimately show ?thesis using run st' by blast
qed

lemma register_step:
  assumes k: "scan_normalize_ip k = Inr k" and c: "counted t1 n (seen_record st k)" and t: "0 \<le> t1" "t1 \<le> now"
  shows "\<exists>info st'. register_ban run cfg k reason short now st = (Inr (Some info), st')"
proof -
  obtain v where v: "scan_ip_version k = Inr v" using normalized_version [OF k] by blast
  obtain r s1 where e: "entry_unlocked k (scan_load st) = (Inr r, s1)"
    by (fastforce simp: entry_unlocked_def split: option.splits)
  have free: "\<not> now < unban_grace_until r"
    using e c t by (auto simp: entry_unlocked_def counted_def seen_record_def new_record_def split: option.splits)
  obtain fl d ks where s1: "s1 = \<lparr>st_file = fl, st_data = d, st_kernel = ks\<rparr>" by (cases s1)
  obtain b k1 where "\<forall>d. firewall_add run cfg k (ban_length cfg (strikes (banned_record cfg short now r)) short)
      \<lparr>st_file = fl, st_data = d, st_kernel = ks\<rparr> = (Inr b, \<lparr>st_file = fl, st_data = d, st_kernel = k1\<rparr>)"
    using kernel_onlyE [OF kernel_only_firewall [OF v], of run cfg
      "ban_length cfg (strikes (banned_record cfg short now r)) short" fl ks] by blast
  then show ?thesis
    using e free s1 by (simp add: register_ban_def normalized_run [OF k] register_ban_locked_def Let_def put_record_def
        save_unlocked_def)
qed

section \<open>One visit\<close>

text \<open>A visitor nobody vouches for.\<close>

definition stranger :: "ipaddr \<Rightarrow> 'k restriction \<Rightarrow> bool" where
  "stranger a r \<longleftrightarrow> ir_enabled r \<and> block_scanners (ir_conf r) \<and> \<not> list_ex (entry_admits a) (ir_allowed r)
     \<and> map_of (tw_entries (ir_temp r)) (show_addr a) = None"

lemma stranger_refused:
  assumes "stranger a r" and k: "ip_address k = Some a" "strip k = k" "k = show_addr a" "k \<noteq> []"
  shows "\<exists>t. is_ip_allowed k now r = (Inr False, r\<lparr>ir_temp := t\<rparr>) \<and> stranger a (r\<lparr>ir_temp := t\<rparr>)"
proof -
  obtain x t where t: "temp_is_allowed k now (ir_temp r) = (x, t)" by fastforce
  have no: "map_of (filter P (tw_entries (ir_temp r))) k = None" for P
    using assms(1) k(3) by (auto simp: stranger_def map_of_eq_None_iff)
  have "x = False \<and> map_of (tw_entries t) k = None"
    using t no assms(1) k
    by (auto simp: temp_is_allowed_def normalize_host_ip_def purge_expired_def temp_save_def stranger_def Let_def
        split: if_splits)
  then show ?thesis
    using assms(1) k t by (auto simp: is_ip_allowed_def on_temp_def stranger_def intro!: exI [of _ t])
qed

lemma visit_step:
  assumes ip: "ip_address (strip ip) = Some a" and s: "stranger a r" and f: "on_file (ir_scan r)"
    and c: "counted t1 n (seen_record (ir_scan r) (show_addr a))"
    and t: "0 \<le> t1" "t1 \<le> now" "now - scanner_window_seconds (ir_conf r) * MICROS \<le> t1"
    and run: "record_denied_access run ip now r = (res, r')" and no: "res \<noteq> Inr True"
  shows "stranger a r' \<and> ir_conf r' = ir_conf r \<and> on_file (ir_scan r')
    \<and> counted t1 (n + 1) (seen_record (ir_scan r') (show_addr a)) \<and> int (n + 1) < scanner_max_attempts (ir_conf r)"
proof -
  let ?k = "show_addr a"
  have nonempty: "ip_address [] = None" by code_simp
  then have key: "normalize_tracker_ip ip = Some ?k" using ip by (auto simp: normalize_tracker_ip_def)
  then have k: "strip ?k = ?k" "ip_address ?k = Some a" "?k \<noteq> []" "scan_normalize_ip ?k = Inr ?k"
    using tracker_key [OF key] ip by (auto simp: scan_normalize_ip_def)
  let ?run = "scan_runner run" and ?cfg = "ir_settings r"
  note grace = grace_step [OF k(4) f]
  let ?st1 = "scan_load (ir_scan r)"
  have free: "is_in_unban_grace ?k now (ir_scan r) = (Inr False, ?st1)"
    using grace(1) [of now] c t(2) by (auto simp: counted_def split: option.splits)
  obtain b st2 where b: "is_banned ?run ?cfg ?k now ?st1 = (b, st2)" by fastforce
  let ?r1 = "r\<lparr>ir_scan := ?st1\<rparr>" and ?r2 = "r\<lparr>ir_scan := st2\<rparr>"
  have asked_grace: "on_scan (is_in_unban_grace ?k now) r = (Inr False, ?r1)" using free by (simp add: on_scan_def)
  have start: "record_denied_access run ip now r = count_denied_access run now ?k ?r1"
    using s key by (simp add: record_denied_access_def tracked_def stranger_def 
        bindP_Inr [where m = "on_scan (is_in_unban_grace ?k now)", OF asked_grace])
  have asked: "scan_is_banned run ?k now ?r1 = (map_sum ScanError id b, ?r2)"
    using b by (simp add: scan_is_banned_def on_scan_def)
  have "b \<noteq> Inr True" using run no start asked by (auto simp: count_denied_access_def)
  note B = banned_step [OF k(4) grace(3) b this, of t1 n] 
  have 2: "b = Inr False" "on_file st2" "counted t1 n (seen_record st2 ?k)" using B c grace(2) by simp_all
  obtain m st3 where m: "record_attempt ?k (scanner_window_seconds (ir_conf r)) now st2 = (Inr m, st3)" "n + 1 \<le> m"
    "on_file st3" "counted t1 (n + 1) (seen_record st3 ?k)"
    using attempt_step [OF k(4) 2(2,3) t] by blast
  let ?r3 = "r\<lparr>ir_scan := st3\<rparr>"
  have rest: "count_denied_access run now ?k ?r1 =
      (if scanner_max_attempts (ir_conf r) \<le> int m
       then bindP (apply_ban_locked run ?k now ''rate_limit'') (\<lambda>ban_info. retP (ban_info \<noteq> None)) ?r3
       else (Inr False, ?r3))"
    using asked 2(1) m(1) by (simp add: count_denied_access_def bindP_def on_scan_def)
  have s3: "stranger a ?r3" using s by (simp add: stranger_def)
  show ?thesis
  proof (cases "scanner_max_attempts (ir_conf r) \<le> int m")
    case True
    obtain tt where "is_ip_allowed ?k now ?r3 = (Inr False, ?r3\<lparr>ir_temp := tt\<rparr>)"
      using stranger_refused [OF s3 k(2,1) refl k(3)] by blast
    moreover obtain info st4 where "register_ban ?run ?cfg ?k ''rate_limit'' (scanner_ban_seconds (ir_conf r)) now st3 = (Inr (Some info), st4)"
      using register_step [OF k(4) m(4) t(1,2)] by blast
    ultimately have "res = Inr True"
      using run start rest True by (simp add: apply_ban_locked_def on_scan_def bindP_def)
    then show ?thesis using no by simp
  next
    case False
    then have "r' = ?r3" "int (n + 1) < scanner_max_attempts (ir_conf r)" using run start rest m(2) by auto
    then show ?thesis using s3 m by simp
  qed
qed

section \<open>Knocking again and again\<close>

fun visits :: "'k runner \<Rightarrow> string \<Rightarrow> int list \<Rightarrow> 'k restriction \<Rightarrow> (restriction_error, bool) result list" where
  "visits run ip [] r = []"
| "visits run ip (t # ts) r = (case record_denied_access run ip t r of (res, r') \<Rightarrow> res # visits run ip ts r')"

lemma visits_count:
  assumes "ip_address (strip ip) = Some a" and "stranger a r" and "on_file (ir_scan r)"
    and "counted t1 n (seen_record (ir_scan r) (show_addr a))" and "0 \<le> t1"
    and "\<forall>t \<in> set ts. t1 \<le> t \<and> t - scanner_window_seconds (ir_conf r) * MICROS \<le> t1"
    and "Inr True \<notin> set (visits run ip ts r)" and "ts \<noteq> []"
  shows "int (n + length ts) < scanner_max_attempts (ir_conf r)"
  using assms
proof (induction ts arbitrary: n r)
  case (Cons t ts)
  obtain res r' where v: "record_denied_access run ip t r = (res, r')" by fastforce
  have no: "res \<noteq> Inr True" using Cons.prems(7) v by auto
  from visit_step [OF Cons.prems(1-5) _ _ v no] Cons.prems(6)
  have step: "stranger a r' \<and> ir_conf r' = ir_conf r \<and> on_file (ir_scan r')
    \<and> counted t1 (n + 1) (seen_record (ir_scan r') (show_addr a)) \<and> int (n + 1) < scanner_max_attempts (ir_conf r)"
    by simp
  show ?case
  proof (cases "ts = []")
    case False
    have "int (n + 1 + length ts) < scanner_max_attempts (ir_conf r')"
      by (rule Cons.IH) (use step Cons.prems v False in auto)
    then show ?thesis using step by simp
  qed (use step in simp)
qed simp



end
