(* ===== verification/IpRestrictionSettings.thy ===== *)
theory IpRestrictionSettings
  imports IpRestrictionProps
begin

text \<open>
  The settings survive a restart: what is written to the environment is read back.
\<close>

section \<open>Entries as they are written\<close>

definition entry_char :: "char \<Rightarrow> bool" where
  "entry_char c \<longleftrightarrow> is_hex c \<or> c = CHR '':'' \<or> c = CHR ''.'' \<or> c = CHR ''/''"

definition clean_entry :: "string \<Rightarrow> bool" where
  "clean_entry e \<longleftrightarrow> normalize_ip_entry e = Some e \<and> list_all entry_char e"

lemma entry_char_clean:
  "entry_char c \<Longrightarrow> \<not> is_space c \<and> c \<noteq> CHR '','' \<and> c \<noteq> LF \<and> c \<noteq> CR \<and> c \<noteq> CHR 0x00"
  by (auto simp: entry_char_def is_hex_def is_space_def Let_def)

lemma ip_address_plain: "ip_address s = Some a \<Longrightarrow> CHR ''%'' \<notin> set s \<Longrightarrow> addr_plain a"
  by (auto simp: ip_address_def read_v6_def Let_def split: option.splits if_splits
      dest: read_ip4_bound read_ip6_bound)

lemma normalized_plain:
  assumes "normalize_ip_entry ip = Some e" and "CHR ''%'' \<notin> set ip"
  shows "clean_entry e"
proof -
  have s: "CHR ''%'' \<notin> set (strip ip)" using set_strip_subset assms(2) by blast
  have strip_e: "list_all entry_char e \<Longrightarrow> strip e = e"
    using entry_char_clean by (intro strip_clean) (auto simp: list_all_iff)
  have e0: "e \<noteq> [] \<Longrightarrow> clean_entry e" if "list_all entry_char e"
    "(if CHR ''/'' \<in> set e then map_option show_net (ip_network False e) else map_option show_addr (ip_address e)) = Some e"
    using that strip_e by (simp add: clean_entry_def normalize_ip_entry_def Let_def)
  show ?thesis
  proof (cases "CHR ''/'' \<in> set (strip ip)")
    case True
    then obtain n where n: "ip_network False (strip ip) = Some n" "e = show_net n"
      using assms(1) by (auto simp: normalize_ip_entry_def Let_def split: if_splits)
    have p: "net_plain n" using ip_network_no_scope [OF n(1) s] by (simp add: net_plain_def ip_network_ok [OF n(1)])
    have "list_all entry_char e"
      using show_addr_chars [of "net_addr n"] show_nat_chars [of _ "prefixlen n"] p is_digit_facts
      by (auto simp: n(2) show_net_def net_plain_def list_all_iff entry_char_def)
    moreover have "CHR ''/'' \<in> set e" "e \<noteq> []" by (simp_all add: n(2) show_net_def)
    moreover have "map_option show_net (ip_network False e) = Some e" using ip_network_show [OF p] n(2) by simp
    ultimately show ?thesis using e0 by simp
  next
    case False
    then obtain a where a: "ip_address (strip ip) = Some a" "e = show_addr a"
      using assms(1) by (auto simp: normalize_ip_entry_def Let_def split: if_splits)
    have p: "addr_plain a" by (rule ip_address_plain [OF a(1) s])
    have "list_all entry_char e" "CHR ''/'' \<notin> set e"
      using show_addr_chars [OF p] show_addr_clean [OF p] by (auto simp: a(2) list_all_iff entry_char_def)
    moreover have "ip_address [] = None" by code_simp
    then have "e \<noteq> []" using ip_address_show [OF p] a(2) by auto
    ultimately show ?thesis using e0 ip_address_show [OF p] by (simp add: a(2))
  qed
qed

lemma map_filter_plain: "list_all clean_entry es \<Longrightarrow> List.map_filter normalize_ip_entry es = es"
  by (induction es) (simp_all add: clean_entry_def map_filter_simps)

lemma load_allowed_joined:
  assumes "list_all clean_entry es"
  shows "set (load_allowed (env(''ALLOWED_IPS'' \<mapsto> join '','' (sorted_set es)))) = set es"
proof (cases "es = []")
  case True
  have "normalize_ip_entry [] = None" by (simp add: normalize_ip_entry_def strip_def lstrip_def rstrip_def)
  then show ?thesis using True by (simp add: load_allowed_def split_on_def map_filter_simps)
next
  case False
  have p: "list_all clean_entry (sorted_set es)" using assms by (simp add: list_all_iff)
  have "sorted_set es \<noteq> []" using False set_sorted_set [of es] by (metis set_empty)
  then have "split_on (CHR '','') (join '','' (sorted_set es)) = sorted_set es"
    using p entry_char_clean by (intro split_on_join) (auto simp: list_all_iff clean_entry_def)
  then show ?thesis using map_filter_plain [OF p] by (simp add: load_allowed_def)
qed

section \<open>Values as they are written\<close>

definition conf_ok :: "scanner_conf \<Rightarrow> bool" where
  "conf_ok c \<longleftrightarrow> scanner_max_attempts c \<in> {1..100} \<and> scanner_window_seconds c \<in> {10..3600}
     \<and> scanner_ban_seconds c \<in> {60..86400} \<and> ip_blocked_dwell_seconds c \<in> {30..3600}"

lemma env_int_range: "lo \<le> d \<Longrightarrow> d \<le> hi \<Longrightarrow> env_int env name d lo hi \<in> {lo..hi}"
  by (auto simp: env_int_def Let_def split: option.splits)

lemma conf_ok_loaded: "conf_ok (load_scanner_settings env)"
  using env_int_range by (simp add: conf_ok_def load_scanner_settings_def)

lemma conf_ok_protection: "conf_ok c \<Longrightarrow> conf_ok (protection_conf a c)"
  by (auto simp: conf_ok_def protection_conf_def clamp_def split: option.splits)

lemma strip_show_int: "0 \<le> v \<Longrightarrow> strip (show_int v) = show_int v \<and> show_int v \<noteq> []"
proof -
  assume v: "0 \<le> v"
  have "strip (show_nat (nat v)) = show_nat (nat v)"
    using show_nat_chars [of _ "nat v"] by (intro strip_clean) (fastforce simp: is_digit_def is_space_def Let_def)
  then show ?thesis using v by (simp add: show_int_def) (simp add: show_nat_def)
qed

lemma env_int_shown: "v \<in> {lo..hi} \<Longrightarrow> 0 \<le> lo \<Longrightarrow> env name = Some (show_int v) \<Longrightarrow> env_int env name d lo hi = v"
  using strip_show_int [of v] read_show_int [of v] by (auto simp: env_int_def env_raw_def Let_def)

lemma env_bool_shown: "env name = Some (show_bool b) \<Longrightarrow> env_bool env name d = b"
proof -
  assume "env name = Some (show_bool b)"
  moreover have "lower (strip ''true'') = ''true''" "lower (strip ''false'') = ''false''" by code_simp+
  ultimately show ?thesis by (simp add: env_bool_def env_raw_def show_bool_def Let_def strip_lower)
qed

lemma load_saved_conf:
  "conf_ok c \<Longrightarrow> load_scanner_settings (map_upds env (map fst (scanner_updates c)) (map snd (scanner_updates c))) = c"
  by (cases c) (simp add: load_scanner_settings_def scanner_updates_def conf_ok_def env_int_shown env_bool_shown)

lemma load_same_conf: "load_scanner_settings (env(''ALLOWED_IPS'' \<mapsto> v)) = load_scanner_settings env"
  by (simp add: load_scanner_settings_def env_bool_def env_int_def env_raw_def)

section \<open>What is saved\<close>

definition settings_saved :: "'k restriction \<Rightarrow> bool" where
  "settings_saved r \<longleftrightarrow> list_all clean_entry (ir_allowed r) \<and> ir_enabled r = (ir_allowed r \<noteq> [])
     \<and> set (load_allowed (ir_environ r)) = set (ir_allowed r) \<and> load_scanner_settings (ir_environ r) = ir_conf r"

abbreviation steady :: "('k, 'a) restriction_prog \<Rightarrow> bool" where
  "steady m \<equiv> keepsP settings_saved m (\<lambda>_. True)"

lemma steady_iff: "steady m \<longleftrightarrow> (\<forall>r. settings_saved r \<longrightarrow> settings_saved (snd (m r)))"
  unfolding keepsP_def by (metis prod.collapse snd_conv)

lemma steady_parts: "steady (on_scan m)" "steady (on_temp f)" "steady (on_panel m')" "steady (retP x)"
  by (simp_all add: steady_iff on_scan_def on_temp_def on_panel_def settings_saved_def split: prod.splits)

lemma steady_bind: "steady m \<Longrightarrow> (\<And>x. steady (f x)) \<Longrightarrow> steady (bindP m f)"
  by (rule keepsP_bind [where P = "\<lambda>_. True"])

lemma steady_if: "(b \<Longrightarrow> steady m) \<Longrightarrow> (\<not> b \<Longrightarrow> steady m') \<Longrightarrow> steady (if b then m else m')"
  by simp

lemma steady_state_if: "steady m \<Longrightarrow> steady m' \<Longrightarrow> steady (\<lambda>r. if c r then m r else m' r)"
  by (simp add: steady_iff)

lemma steady_answer: "steady (\<lambda>r. (f r, r))"
  by (simp add: steady_iff)

lemma steady_look: "(\<And>r0. steady (m r0)) \<Longrightarrow> steady (\<lambda>r. m r r)"
  by (simp add: steady_iff)

lemma snd_catch: "snd (catchP m x r) = snd (m r)"
  by (cases "m r"; cases "fst (m r)") (auto simp: catchP_def)

lemma steady_catch: "steady m \<Longrightarrow> steady (catchP m x)"
  by (simp add: steady_iff snd_catch)

lemma steady_for: "(\<And>x. steady (f x)) \<Longrightarrow> steady (forP f xs)"
proof (induction xs)
  case Nil
  show ?case by (simp only: forP.simps) (rule steady_parts)
next
  case (Cons x xs)
  show ?case by (simp only: forP.simps) (intro steady_bind Cons)
qed

lemma steady_tracked: "(\<And>k. steady (body k)) \<Longrightarrow> steady (tracked ip x body)"
  by (auto simp: tracked_def intro: steady_parts split: option.splits)

lemma steady_store: "steady (\<lambda>r. on_scan (f r) r)"
  by (rule steady_look [of "\<lambda>r. on_scan (f r)", OF steady_parts(1)])

lemma steady_allowed: "steady (is_ip_allowed ip now)"
  unfolding is_ip_allowed_def
  by (cases "ip_address (strip ip)"; simp only: option.case; intro steady_state_if steady_answer steady_parts)

lemma steady_apply_ban: "steady (apply_ban_locked run k now reason)"
  unfolding apply_ban_locked_def by (intro steady_bind steady_allowed steady_if steady_parts steady_store)

lemma steady_visitors:
  "steady (scan_is_banned run k now)"
  "steady (is_scanner_banned run ip now)"
  "steady (should_hard_deny run ip now)"
  "steady (should_count_denied_access ip endpoint now)"
  "steady (release_firewall_for_ip run ip)"
  "steady (unban_scanner_ip run ip now)"
  "steady (clear_scanner_bans run)"
  "steady (get_active_scanner_bans run now)"
  unfolding scan_is_banned_def is_scanner_banned_def should_hard_deny_def should_count_denied_access_def
    release_firewall_for_ip_def unban_scanner_ip_def clear_scanner_bans_def get_active_scanner_bans_def
  by (intro steady_state_if steady_answer steady_bind steady_allowed steady_if steady_parts steady_tracked steady_store)+

lemma steady_count: "steady (count_denied_access run now k)"
proof -
  have "steady (\<lambda>r. bindP (on_scan (record_attempt k (scanner_window_seconds (ir_conf r)) now)) (\<lambda>attempts.
       if scanner_max_attempts (ir_conf r) \<le> int attempts
       then bindP (apply_ban_locked run k now ''rate_limit'') (\<lambda>ban_info. retP (ban_info \<noteq> None))
       else retP False) r)"
    by (rule steady_look [of "\<lambda>r. bindP (on_scan (record_attempt k (scanner_window_seconds (ir_conf r)) now)) (\<lambda>attempts.
       if scanner_max_attempts (ir_conf r) \<le> int attempts
       then bindP (apply_ban_locked run k now ''rate_limit'') (\<lambda>ban_info. retP (ban_info \<noteq> None)) else retP False)"])
      (intro steady_bind steady_if steady_parts steady_apply_ban)
  then show ?thesis
    unfolding count_denied_access_def by (intro steady_bind steady_visitors steady_if steady_parts)
qed

lemma steady_denied: "steady (record_denied_access run ip now)"
  unfolding record_denied_access_def
  by (intro steady_state_if steady_answer steady_tracked steady_bind steady_parts steady_if steady_count)

lemma steady_dwell: "steady (touch_dwell run k now first)"
  unfolding touch_dwell_def Let_def
  by (intro steady_state_if steady_answer steady_look [of "\<lambda>r. bindP (apply_ban_locked run k now ''ip_blocked_dwell'')
      (\<lambda>ban_info. retP (DwellExceeded (ip_blocked_dwell_seconds (ir_conf r)) (case ban_info of None \<Rightarrow> False | Some b \<Rightarrow> info_long_term b)))"]
      steady_bind steady_apply_ban steady_parts)

lemma steady_touch: "steady (touch_ip_blocked_presence run ip now)"
  unfolding touch_ip_blocked_presence_def touch_banned_def
  by (intro steady_state_if steady_answer steady_tracked steady_bind steady_visitors steady_if steady_parts steady_dwell)

section \<open>Writing them\<close>

definition env_clean :: "string \<Rightarrow> bool" where
  "env_clean v \<longleftrightarrow> LF \<notin> set v \<and> CR \<notin> set v \<and> CHR 0x00 \<notin> set v"

lemma env_written:
  assumes "list_all (\<lambda>p. is_key (fst p) \<and> env_clean (snd p)) us"
  shows "\<exists>c. apply_env_updates us r = (Inr (), r\<lparr>ir_env_file := c, ir_environ := map_upds (ir_environ r) (map fst us) (map snd us)\<rparr>)"
proof -
  have "list_all is_key (map fst us @ [])" using assms by (simp add: list_all_iff)
  moreover have "\<not> list_ex (\<lambda>p. LF \<in> set (snd p) \<or> CR \<in> set (snd p) \<or> CHR 0x00 \<in> set (snd p)) us"
    using assms by (auto simp: list_all_iff list_ex_iff env_clean_def)
  ultimately obtain c where "update_env_file us False [] (ir_env_file r) = Inr c"
    by (auto simp: update_env_file_def Let_def)
  then show ?thesis by (auto simp: apply_env_updates_def)
qed

lemma env_clean_values: "env_clean (show_bool b)" "0 \<le> v \<Longrightarrow> env_clean (show_int v)"
proof -
  have c: "env_clean ''true''" "env_clean ''false''" by code_simp+
  then show "env_clean (show_bool b)" by (simp add: show_bool_def)
  show "env_clean (show_int v)" if "0 \<le> v"
    using that show_nat_chars [of _ "nat v"] by (fastforce simp: env_clean_def show_int_def is_digit_def Let_def)
qed

lemma env_clean_entries: "list_all clean_entry es \<Longrightarrow> env_clean (join '','' (sorted_set es))"
proof -
  assume es: "list_all clean_entry es"
  have "c \<in> set (join '','' (sorted_set es)) \<Longrightarrow> c \<noteq> LF \<and> c \<noteq> CR \<and> c \<noteq> CHR 0x00" for c
    using join_chars [of c "'',''" "sorted_set es"] es entry_char_clean [of c]
    by (auto simp: list_all_iff clean_entry_def)
  then show ?thesis by (auto simp: env_clean_def)
qed

lemma setting_keys:
  "is_key ''IP_WHITELIST_FIREWALL''" "is_key ''ALLOWED_IPS''"
  "list_all is_key (map fst (scanner_updates c))"
proof -
  show "is_key ''IP_WHITELIST_FIREWALL''" "is_key ''ALLOWED_IPS''" by code_simp+
  have "list_all is_key [''IP_BLOCK_SCANNERS'', ''IP_SCANNER_MAX_ATTEMPTS'', ''IP_SCANNER_WINDOW_SECONDS'',
    ''IP_SCANNER_BAN_SECONDS'', ''IP_BLOCK_IP_BLOCKED_DWELL'', ''IP_BLOCKED_DWELL_SECONDS'', ''IP_WHITELIST_FIREWALL'']"
    by code_simp
  then show "list_all is_key (map fst (scanner_updates c))" by (simp add: scanner_updates_def)
qed

lemma load_flag_off:
  "load_scanner_settings (env(''IP_WHITELIST_FIREWALL'' \<mapsto> show_bool b)) = (load_scanner_settings env)\<lparr>whitelist_firewall := b\<rparr>"
  by (simp add: load_scanner_settings_def env_bool_shown) (simp add: env_bool_def env_int_def env_raw_def)

lemma load_allowed_other: "k \<noteq> ''ALLOWED_IPS'' \<Longrightarrow> load_allowed (env(k \<mapsto> v)) = load_allowed env"
  by (simp add: load_allowed_def)

lemma steady_flag_off: "steady (bindP (set_conf (\<lambda>c. c\<lparr>whitelist_firewall := False\<rparr>)) (\<lambda>_. persist_whitelist_firewall_flag))"
proof -
  have "settings_saved (snd (bindP (set_conf (\<lambda>c. c\<lparr>whitelist_firewall := False\<rparr>)) (\<lambda>_. persist_whitelist_firewall_flag) r))"
    if r: "settings_saved r" for r :: "'a restriction"
  proof -
    let ?r1 = "r\<lparr>ir_conf := (ir_conf r)\<lparr>whitelist_firewall := False\<rparr>\<rparr>"
    obtain c where "apply_env_updates [(''IP_WHITELIST_FIREWALL'', show_bool False)] ?r1 = (Inr (), ?r1\<lparr>ir_env_file := c,
        ir_environ := (ir_environ r)(''IP_WHITELIST_FIREWALL'' \<mapsto> show_bool False)\<rparr>)"
      using env_written [of "[(''IP_WHITELIST_FIREWALL'', show_bool False)]" ?r1] setting_keys(1) env_clean_values(1) by auto
    then show ?thesis
      using r by (simp add: set_conf_def persist_whitelist_firewall_flag_def settings_saved_def load_flag_off load_allowed_other)
  qed
  then show ?thesis by (simp add: steady_iff)
qed

lemma steady_sync: "steady (sync_whitelist_port_firewall run now)"
proof -
  have "steady (\<lambda>r. bindP (if whitelist_firewall (ir_conf r)
                 then bindP (set_conf (\<lambda>c. c\<lparr>whitelist_firewall := False\<rparr>)) (\<lambda>_. persist_whitelist_firewall_flag)
                 else retP ()) (\<lambda>_. bindP (on_panel (panel_disable run)) (\<lambda>_. retP False)) r)"
    by (rule steady_look [of "\<lambda>r. bindP (if whitelist_firewall (ir_conf r)
                 then bindP (set_conf (\<lambda>c. c\<lparr>whitelist_firewall := False\<rparr>)) (\<lambda>_. persist_whitelist_firewall_flag)
                 else retP ()) (\<lambda>_. bindP (on_panel (panel_disable run)) (\<lambda>_. retP False))"])
      (intro steady_bind steady_if steady_flag_off steady_parts)
  moreover have "steady (\<lambda>r. on_panel (panel_sync run (ir_environ r) entries) r)" for entries
    by (rule steady_look [of "\<lambda>r. on_panel (panel_sync run (ir_environ r) entries)"]) (rule steady_parts)
  moreover have "steady (firewall_whitelist_entries now)"
    unfolding firewall_whitelist_entries_def
    by (rule steady_look [of "\<lambda>r. bindP (on_temp (get_active_ips now))
      (\<lambda>temps. retP (ir_allowed r @ filter (\<lambda>e. e \<notin> set (ir_allowed r)) temps))"]) (intro steady_bind steady_parts)
  ultimately have "steady (sync_port_body run now)"
    unfolding sync_port_body_def by (intro steady_state_if steady_bind steady_parts)
  then show ?thesis unfolding sync_whitelist_port_firewall_def by (rule steady_catch)
qed

text \<open>Saving restores what a change of the list has disturbed.\<close>

definition saveable :: "'k restriction \<Rightarrow> bool" where
  "saveable r \<longleftrightarrow> list_all clean_entry (ir_allowed r) \<and> ir_enabled r = (ir_allowed r \<noteq> [])
     \<and> load_scanner_settings (ir_environ r) = ir_conf r"

lemma save_saves: "saveable r \<Longrightarrow> \<exists>r'. save_to_env run now r = (Inr (), r') \<and> settings_saved r'"
proof -
  assume r: "saveable r"
  let ?us = "[(''ALLOWED_IPS'', join '','' (sorted_set (ir_allowed r)))]"
  obtain c where w: "apply_env_updates ?us r = (Inr (), r\<lparr>ir_env_file := c,
      ir_environ := (ir_environ r)(''ALLOWED_IPS'' \<mapsto> join '','' (sorted_set (ir_allowed r)))\<rparr>)"
    using env_written [of ?us r] setting_keys(2) env_clean_entries r by (auto simp: saveable_def)
  let ?r1 = "r\<lparr>ir_env_file := c, ir_environ := (ir_environ r)(''ALLOWED_IPS'' \<mapsto> join '','' (sorted_set (ir_allowed r)))\<rparr>"
  have "settings_saved ?r1"
    using r load_allowed_joined by (simp add: saveable_def settings_saved_def load_same_conf)
  then have "settings_saved (snd (sync_whitelist_port_firewall run now ?r1))"
    using steady_sync [of run now, unfolded steady_iff] by blast
  moreover obtain b r2 where "sync_whitelist_port_firewall run now ?r1 = (Inr b, r2)"
    by (cases "sync_port_body run now ?r1"; cases "fst (sync_port_body run now ?r1)")
      (auto simp: sync_whitelist_port_firewall_def catchP_def)
  ultimately show ?thesis using w by (simp add: save_to_env_def)
qed

lemma steady_protection: "steady (set_scanner_protection run args now)"
proof -
  have "settings_saved (snd (set_scanner_protection run args now r))" if r: "settings_saved r" for r :: "'a restriction"
  proof -
    let ?c = "protection_conf args (ir_conf r)"
    let ?r1 = "r\<lparr>ir_conf := ?c\<rparr>"
    have ok: "conf_ok ?c" using r conf_ok_loaded conf_ok_protection by (metis settings_saved_def)
    have "list_all (\<lambda>p. is_key (fst p) \<and> env_clean (snd p)) (scanner_updates ?c)"
      using setting_keys(3) [of ?c] ok
      by (auto simp: scanner_updates_def conf_ok_def intro!: env_clean_values)
    from env_written [OF this, of ?r1] obtain f where w: "apply_env_updates (scanner_updates ?c) ?r1 = (Inr (), ?r1\<lparr>ir_env_file := f,
        ir_environ := map_upds (ir_environ r) (map fst (scanner_updates ?c)) (map snd (scanner_updates ?c))\<rparr>)" by auto
    let ?r2 = "?r1\<lparr>ir_env_file := f, ir_environ := map_upds (ir_environ r) (map fst (scanner_updates ?c)) (map snd (scanner_updates ?c))\<rparr>"
    have "load_allowed (ir_environ ?r2) = load_allowed (ir_environ r)"
      by (simp add: scanner_updates_def load_allowed_other)
    then have "settings_saved ?r2" using r load_saved_conf [OF ok] by (simp add: settings_saved_def)
    then have s: "settings_saved (snd (sync_whitelist_port_firewall run now ?r2))"
      using steady_sync [of run now, unfolded steady_iff] by blast
    obtain b r3 where "sync_whitelist_port_firewall run now ?r2 = (Inr b, r3)"
      by (cases "sync_port_body run now ?r2"; cases "fst (sync_port_body run now ?r2)")
        (auto simp: sync_whitelist_port_firewall_def catchP_def)
    then show ?thesis
      using w s by (simp add: set_scanner_protection_def set_conf_def save_scanner_settings_to_env_def)
  qed
  then show ?thesis by (simp add: steady_iff)
qed

lemma steady_reload: "steady reload_scanner_settings"
  by (simp add: steady_iff reload_scanner_settings_def settings_saved_def)

lemma steady_release: "steady (forP (\<lambda>e. bindP (release_firewall_for_ip run e) (\<lambda>_. retP ())) es)"
  by (intro steady_for steady_bind steady_visitors steady_parts)

lemma steady_init: "steady (init_app run now)"
proof -
  let ?list = "\<lambda>r0 :: 'a restriction. bindP (forP (\<lambda>e. bindP (release_firewall_for_ip run e) (\<lambda>_. retP ()))
       (filter (\<lambda>e. CHR ''/'' \<notin> set e) (ir_allowed r0))) (\<lambda>_.
     bindP (on_temp (get_active_ips now)) (\<lambda>temps.
     forP (\<lambda>e. bindP (release_firewall_for_ip run e) (\<lambda>_. retP ())) temps))"
  have "steady (?list r0)" for r0 by (intro steady_bind steady_release steady_parts)
  then have list: "steady (release_whitelist_from_firewall run now)"
    unfolding release_whitelist_from_firewall_def by (rule steady_look [of ?list])
  let ?body = "\<lambda>r0 :: 'a restriction. bindP (on_scan (sync_firewall_from_store (scan_runner run) (ir_settings r0) now)) (\<lambda>_.
     bindP (release_whitelist_from_firewall run now) (\<lambda>_.
     bindP (sync_whitelist_port_firewall run now) (\<lambda>_. retP ())))"
  have "steady (?body r0)" for r0 by (intro steady_bind list steady_sync steady_parts)
  then have "steady (\<lambda>r. ?body r r)" by (rule steady_look [of ?body])
  then show ?thesis unfolding init_app_def by (rule steady_catch)
qed

lemma save_then_steady:
  assumes "saveable r" and "\<And>x. steady (g x)"
  shows "settings_saved (snd (bindP (save_to_env run now) g r))"
proof -
  obtain r' where "save_to_env run now r = (Inr (), r')" "settings_saved r'" using save_saves [OF assms(1)] by blast
  then show ?thesis using assms(2) [unfolded steady_iff] by (simp add: bindP_def)
qed

lemma steady_add:
  assumes "CHR ''%'' \<notin> set ip"
  shows "steady (add_ip run ip now)"
proof (cases "normalize_ip_entry ip")
  case None
  then show ?thesis by (simp add: add_ip_def steady_parts)
next
  case (Some e)
  have e: "clean_entry e" by (rule normalized_plain [OF Some assms])
  have "steady (bindP (if CHR ''/'' \<in> set e then retP True else release_firewall_for_ip run e) (\<lambda>_. retP True))"
    by (intro steady_bind steady_if steady_visitors steady_parts)
  then have saved: "settings_saved (snd (bindP (save_to_env run now) (\<lambda>_. bindP (if CHR ''/'' \<in> set e then retP True
      else release_firewall_for_ip run e) (\<lambda>_. retP True)) r))" if "saveable r" for r
    using that by (intro save_then_steady)
  have "settings_saved (snd (add_ip run ip now r))" if r: "settings_saved r" for r :: "'a restriction"
  proof -
    let ?r = "r\<lparr>ir_allowed := List.insert e (ir_allowed r), ir_enabled := True\<rparr>"
    have "List.insert e (ir_allowed r) \<noteq> []" by (auto simp: List.insert_def)
    then have "saveable ?r" using r e by (simp add: settings_saved_def saveable_def list_all_iff)
    then show ?thesis using saved [of ?r] by (simp add: add_ip_def Some)
  qed
  then show ?thesis by (simp add: steady_iff)
qed

lemma steady_remove: "steady (remove_ip run ip now)"
proof -
  have "settings_saved (snd (remove_ip run ip now r))" if r: "settings_saved r" for r :: "'a restriction"
  proof -
    let ?rest = "filter (\<lambda>e. e \<notin> set (removal_targets ip)) (ir_allowed r)"
    let ?r = "r\<lparr>ir_allowed := ?rest, ir_enabled := (if ?rest = [] then False else ir_enabled r)\<rparr>"
    have "ir_enabled ?r = (?rest \<noteq> [])" using r by (cases "ir_allowed r") (simp_all add: settings_saved_def)
    then have "saveable ?r" using r by (simp add: settings_saved_def saveable_def list_all_iff)
    from save_then_steady [where g = "\<lambda>_. retP True", OF this steady_parts(4)]
    show ?thesis using r by (simp add: remove_ip_def Let_def del: filter_empty_conv)
  qed
  then show ?thesis by (simp add: steady_iff)
qed

lemma steady_clear: "steady (ir_clear_all run now)"
proof -
  have "settings_saved (snd (ir_clear_all run now r))" if "settings_saved r" for r :: "'a restriction"
  proof -
    let ?r = "r\<lparr>ir_allowed := [], ir_enabled := False, ir_temp := temp_clear_all (ir_temp r)\<rparr>"
    have "saveable ?r" using that by (simp add: settings_saved_def saveable_def)
    then obtain r' where "save_to_env run now ?r = (Inr (), r')" "settings_saved r'" using save_saves by blast
    then show ?thesis by (simp add: ir_clear_all_def on_temp_def)
  qed
  then show ?thesis by (simp add: steady_iff)
qed

lemma steady_temporary:
  "steady (add_temporary_ip run ip seconds now)" "steady (remove_temporary_ip run ip now)"
proof -
  show "steady (add_temporary_ip run ip seconds now)"
    unfolding add_temporary_ip_def
    by (cases "normalize_host_ip ip"; simp only: option.case;
      intro steady_state_if steady_answer steady_bind steady_if steady_visitors steady_sync steady_parts)
  show "steady (remove_temporary_ip run ip now)"
    unfolding remove_temporary_ip_def Let_def by (intro steady_if steady_bind steady_sync steady_parts)
qed

fun scope_free :: "ir_request \<Rightarrow> bool" where
  "scope_free (AddEntry ip now) \<longleftrightarrow> CHR ''%'' \<notin> set ip"
| "scope_free _ \<longleftrightarrow> True"

lemma handle_saves:
  assumes r: "settings_saved r" and f: "scope_free req"
  shows "settings_saved (ir_handle run req r)"
proof -
  have any: "steady (remove_ip_any run ip now)" for ip now
    unfolding remove_ip_any_def by (intro steady_bind steady_remove steady_temporary steady_parts)
  note all = steady_touch steady_denied steady_visitors steady_remove steady_temporary any steady_clear
    steady_protection steady_reload steady_init
  show ?thesis
    using r f by (cases req)
      (simp_all add: all [unfolded steady_iff, rule_format] steady_add [unfolded steady_iff, rule_format])
qed

section \<open>Across a restart\<close>


definition demo_configured :: "demo_kernel restriction" where
  "demo_configured = demo_restriction\<lparr>ir_allowed := [''203.0.113.0/24''], ir_enabled := True, ir_environ := [''ALLOWED_IPS'' \<mapsto> ''203.0.113.0/24''],
     ir_conf := load_scanner_settings (\<lambda>_. None)\<rparr>"

definition demo_requests :: "ir_request list" where
  "demo_requests = [AddEntry '' 198.51.100.9/24'' 5, RemoveEntry ''203.0.113.0/24'' 6,
     Protect \<lparr>arg_enabled = True, arg_max_attempts = Some 1000, arg_window_seconds = Some 20,
       arg_ban_seconds = None, arg_block_dwell = Some False, arg_dwell_seconds = None, arg_whitelist_firewall = None\<rparr> 7]"


end
