(* ===== verification/IpRestrictionPort.thy ===== *)
theory IpRestrictionPort
  imports IpRestrictionSettings
begin

text \<open>
  The two filters in front of the panel agree: the sets of the port's firewall are filled with
  entries that cover exactly the addresses the panel itself admits.
\<close>

section \<open>An entry in a set\<close>

definition covers :: "ipaddr \<Rightarrow> string \<Rightarrow> bool" where
  "covers a member = (case ip_network True member of None \<Rightarrow> False | Some n \<Rightarrow> in_net a n)"

lemma clean_strip: "list_all entry_char e \<Longrightarrow> strip e = e"
  using entry_char_clean by (intro strip_clean) (auto simp: list_all_iff)

lemma clean_no_scope: "list_all entry_char e \<Longrightarrow> CHR ''%'' \<notin> set e"
proof
  assume "list_all entry_char e" "CHR ''%'' \<in> set e"
  then have "entry_char (CHR ''%'')" by (simp add: list_all_iff)
  moreover have "\<not> entry_char (CHR ''%'')" by code_simp
  ultimately show False by simp
qed

lemma clean_entry_cases:
  assumes "clean_entry e"
  obtains n where "CHR ''/'' \<in> set e" "ip_network False e = Some n" "e = show_net n" "net_plain n"
  | b where "CHR ''/'' \<notin> set e" "ip_address e = Some b" "e = show_addr b" "addr_plain b"
proof -
  have e: "list_all entry_char e" "strip e = e" using assms clean_strip by (simp_all add: clean_entry_def)
  note s = clean_no_scope [OF e(1)]
  show thesis
  proof (cases "CHR ''/'' \<in> set e")
    case True
    then obtain n where n: "ip_network False e = Some n" "e = show_net n"
      using assms e(2) by (auto simp: clean_entry_def normalize_ip_entry_def Let_def split: if_splits)
    have "net_plain n" using ip_network_no_scope [OF n(1) s] by (simp add: net_plain_def ip_network_ok [OF n(1)])
    then show thesis using that(1) True n by blast
  next
    case False
    then obtain b where b: "ip_address e = Some b" "e = show_addr b"
      using assms e(2) by (auto simp: clean_entry_def normalize_ip_entry_def Let_def split: if_splits)
    then show thesis using that(2) False ip_address_plain [OF b(1) s] by blast
  qed
qed

definition host_net :: "ipaddr \<Rightarrow> ipnet" where
  "host_net b = \<lparr>net_addr = b, prefixlen = width (version b)\<rparr>"

lemma in_host_net: "addr_plain a \<Longrightarrow> addr_plain b \<Longrightarrow> in_net a (host_net b) \<longleftrightarrow> a = b"
  by (auto simp: in_net_def host_net_def net_version_def net_int_def mask_int_def intro: addr_plain_eqI)

lemma host_net_plain: "addr_plain b \<Longrightarrow> net_plain (host_net b)"
  by (simp add: net_plain_def net_ok_def host_net_def net_version_def addr_plain_ok)

lemma show_host_net: "show_net (host_net b) = show_addr b @ (if version b = 4 then ''/32'' else ''/128'')"
proof -
  have "show_nat 32 = ''32''" "show_nat 128 = ''128''" by code_simp+
  then show ?thesis using version_cases [of b] by (auto simp: show_net_def host_net_def width_def)
qed

lemma entry_in_set:
  assumes "clean_entry e"
  obtains n where "ipset_entry e = Some (net_version n, show_net n)" and "net_plain n"
    and "\<And>a. addr_plain a \<Longrightarrow> entry_admits a e \<longleftrightarrow> in_net a n"
proof -
  have e: "strip e = e" using assms clean_strip by (simp add: clean_entry_def)
  from clean_entry_cases [OF assms] show thesis
  proof cases
    case (1 n)
    have "e \<noteq> []" using 1(1) by auto
    then show thesis using that [of n] 1 e by (simp add: ipset_entry_def entry_admits_def Let_def)
  next
    case (2 b)
    have "ip_address [] = None" by code_simp
    then have "e \<noteq> []" using 2(2) by auto
    then have "ipset_entry e = Some (net_version (host_net b), show_net (host_net b))"
      using 2 e show_host_net [of b] by (simp add: ipset_entry_def Let_def host_net_def net_version_def)
    moreover have "entry_admits a e \<longleftrightarrow> in_net a (host_net b)" if "addr_plain a" for a
      using 2 in_host_net [OF that 2(4)] by (auto simp: entry_admits_def)
    ultimately show thesis using that host_net_plain [OF 2(4)] by blast
  qed
qed

lemma set_covers:
  assumes "list_all clean_entry es" and "addr_plain a"
  shows "list_ex (covers a) (entries_by_family es (version a)) \<longleftrightarrow> list_ex (entry_admits a) es"
  using assms(1)
proof (induction es)
  case Nil
  then show ?case by (simp add: entries_by_family_def)
next
  case (Cons e es)
  have "clean_entry e" using Cons.prems by simp
  then obtain n where n: "ipset_entry e = Some (net_version n, show_net n)" "net_plain n"
    "entry_admits a e \<longleftrightarrow> in_net a n" using entry_in_set assms(2) by metis
  have "covers a (show_net n) \<longleftrightarrow> in_net a n" by (simp add: covers_def ip_network_show [OF n(2)])
  moreover have "in_net a n \<Longrightarrow> net_version n = version a" by (simp add: in_net_def)
  ultimately show ?case using Cons n(1,3) by (auto simp: entries_by_family_def map_filter_simps)
qed

section \<open>Entries for a time\<close>

definition temp_clean :: "temp_store \<Rightarrow> bool" where
  "temp_clean t \<longleftrightarrow> distinct (map fst (tw_entries t))
     \<and> list_all (\<lambda>p. clean_entry (fst p) \<and> CHR ''/'' \<notin> set (fst p)) (tw_entries t)"

lemma temp_admits:
  assumes "temp_clean t" and "addr_plain a"
  shows "fst (temp_is_allowed (show_addr a) now t) \<longleftrightarrow> list_ex (entry_admits a) (fst (get_active_ips now t))"
proof -
  let ?es = "tw_entries t"
  have s: "strip (show_addr a) = show_addr a" "CHR ''/'' \<notin> set (show_addr a)" "show_addr a \<noteq> []"
  proof -
    show "CHR ''/'' \<notin> set (show_addr a)" using show_addr_clean [OF assms(2)] by blast
    show "strip (show_addr a) = show_addr a" using show_addr_clean [OF assms(2)] by (intro strip_clean) blast
    have "ip_address [] = None" by code_simp
    then show "show_addr a \<noteq> []" using ip_address_show [OF assms(2)] by auto
  qed
  have k: "normalize_host_ip (show_addr a) = Some (show_addr a)"
    using s ip_address_show [OF assms(2)] by (simp add: normalize_host_ip_def Let_def)
  have admits: "entry_admits a x \<longleftrightarrow> x = show_addr a" if "(x, v) \<in> set ?es" for x v
  proof -
    have x: "clean_entry x" "CHR ''/'' \<notin> set x"
      using assms(1) that unfolding temp_clean_def list_all_iff by force+
    from clean_entry_cases [OF x(1)] show ?thesis
    proof cases
      case (1 n)
      then show ?thesis using x(2) by blast
    next
      case (2 b)
      have "entry_admits a x \<longleftrightarrow> b = a" using 2(1,2) by (simp add: entry_admits_def)
      also have "\<dots> \<longleftrightarrow> x = show_addr a" using 2(2,3) ip_address_show [OF assms(2)] by (metis option.inject)
      finally show ?thesis .
    qed
  qed
  have d: "distinct (map fst (filter (\<lambda>(k, v). temp_alive now v) ?es))"
    using assms(1) by (simp add: temp_clean_def distinct_map_filter)
  have e: "tw_entries (snd (purge_expired now t)) = filter (\<lambda>(k, v). temp_alive now v) ?es"
    by (simp add: purge_expired_def temp_save_def Let_def)
  have "fst (temp_is_allowed (show_addr a) now t) \<longleftrightarrow> (\<exists>v. (show_addr a, v) \<in> set ?es \<and> temp_alive now v)"
    using d by (auto simp: temp_is_allowed_def k e Let_def dest: map_of_SomeD split: option.splits)
  also have "\<dots> \<longleftrightarrow> list_ex (entry_admits a) (fst (get_active_ips now t))"
    using admits by (force simp: get_active_ips_def e Let_def list_ex_iff)
  finally show ?thesis .
qed

section \<open>The two filters\<close>

text \<open>C33: with the restriction on, the entries given to the firewall of the port cover an address exactly
  when the panel admits it at that instant, permanently or for a time.\<close>

theorem port_filter_agrees:
  assumes "addr_plain a" and "ir_enabled r" and "list_all clean_entry (ir_allowed r)" and "temp_clean (ir_temp r)"
    and "firewall_whitelist_entries now r = (Inr entries, r')"
  shows "list_ex (covers a) (entries_by_family entries (version a)) \<longleftrightarrow> fst (is_ip_allowed (show_addr a) now r) = Inr True"
proof -
  let ?temps = "fst (get_active_ips now (ir_temp r))"
  have entries: "entries = ir_allowed r @ filter (\<lambda>e. e \<notin> set (ir_allowed r)) ?temps"
    using assms(5) by (auto simp: firewall_whitelist_entries_def on_temp_def bindP_def split: prod.splits)
  have "set ?temps \<subseteq> fst ` set (tw_entries (ir_temp r))"
    by (auto simp: get_active_ips_def purge_expired_def temp_save_def Let_def)
  then have "list_all clean_entry ?temps" using assms(4) unfolding temp_clean_def list_all_iff by blast
  then have "list_all clean_entry entries" using assms(3) by (auto simp: entries list_all_iff)
  from set_covers [OF this assms(1)]
  have "list_ex (covers a) (entries_by_family entries (version a))
      \<longleftrightarrow> list_ex (entry_admits a) (ir_allowed r) \<or> list_ex (entry_admits a) ?temps"
    by (auto simp: entries list_ex_iff)
  also have "\<dots> \<longleftrightarrow> fst (is_ip_allowed (show_addr a) now r) = Inr True"
  proof -
    have s: "strip (show_addr a) = show_addr a" using show_addr_clean [OF assms(1)] by (intro strip_clean) blast
    have "ip_address [] = None" by code_simp
    then have "show_addr a \<noteq> []" using ip_address_show [OF assms(1)] by auto
    then show ?thesis
      using assms(2) s ip_address_show [OF assms(1)] temp_admits [OF assms(4,1), of now]
      by (cases "temp_is_allowed (show_addr a) now (ir_temp r)") (simp add: is_ip_allowed_def on_temp_def)
  qed
  finally show ?thesis .
qed

definition demo_guest :: "demo_kernel restriction" where
  "demo_guest = demo_configured\<lparr>ir_temp := \<lparr>tw_entries = [(''198.51.100.7'',
     TempEntry \<lparr>expires_at = 90, duration_seconds = 60, added_at = 30\<rparr>)], tw_file = NoTempFile\<rparr>\<rparr>"

theorem port_filter_agrees_witness:
  "list_ex (covers (V4 3325256711)) (entries_by_family (ir_allowed demo_guest @ [''198.51.100.7'']) 4)
     \<longleftrightarrow> fst (is_ip_allowed ''198.51.100.7'' 50 demo_guest) = Inr True"
proof -
  have a: "addr_plain (V4 3325256711)" "version (V4 3325256711) = 4" "show_addr (V4 3325256711) = ''198.51.100.7''"
    by code_simp+
  have "list_all clean_entry [''203.0.113.0/24'', ''198.51.100.7'']" "CHR ''/'' \<notin> set ''198.51.100.7''" by code_simp+
  then have c: "list_all clean_entry (ir_allowed demo_guest)" "temp_clean (ir_temp demo_guest)" "ir_enabled demo_guest"
    by (simp_all add: demo_guest_def demo_configured_def temp_clean_def)
  obtain r' where "firewall_whitelist_entries 50 demo_guest = (Inr (ir_allowed demo_guest @ [''198.51.100.7'']), r')"
    by (simp add: firewall_whitelist_entries_def on_temp_def bindP_def get_active_ips_def purge_expired_def
      temp_alive_def temp_save_def demo_guest_def demo_configured_def Let_def)
  from port_filter_agrees [OF a(1) c(3,1,2) this] show ?thesis unfolding a(2,3) .
qed

end
