(* ===== verification/OpenVpn6.thy ===== *)
theory OpenVpn6
  imports WireGuard6
begin

text \<open>
  \<^verbatim>\<open>setup/root/antizapret/openvpn-ipv6.py\<close>: switching the configuration of an OpenVPN server between
  IPv4 and both protocols. Only the directives of the mode are changed; anything ambiguous is an
  error.
\<close>

section \<open>Modes\<close>

record ov6_mode =
  subnet_id :: nat
  ipv4_proto :: string
  neutral_proto :: string
  ipv6_proto :: string
  full_vpn :: bool

definition MODES :: "(string \<times> ov6_mode) list" where
  "MODES =
     [(''antizapret-udp'', \<lparr>subnet_id = 0x2900, ipv4_proto = ''udp4'', neutral_proto = ''udp'', ipv6_proto = ''udp6'', full_vpn = False\<rparr>),
      (''antizapret-tcp'', \<lparr>subnet_id = 0x2904, ipv4_proto = ''tcp4'', neutral_proto = ''tcp-server'', ipv6_proto = ''tcp6-server'', full_vpn = False\<rparr>),
      (''vpn-udp'', \<lparr>subnet_id = 0x2800, ipv4_proto = ''udp4'', neutral_proto = ''udp'', ipv6_proto = ''udp6'', full_vpn = True\<rparr>),
      (''vpn-tcp'', \<lparr>subnet_id = 0x2804, ipv4_proto = ''tcp4'', neutral_proto = ''tcp-server'', ipv6_proto = ''tcp6-server'', full_vpn = True\<rparr>)]"

definition TCP_SERVER_COMPAT_PROTOS :: "string list" where
  "TCP_SERVER_COMPAT_PROTOS = [''tcp4-server'']"

definition managed_protos :: "ov6_mode \<Rightarrow> string list" where
  "managed_protos m = [ipv4_proto m, neutral_proto m, ipv6_proto m]
     @ (if neutral_proto m = ''tcp-server'' then TCP_SERVER_COMPAT_PROTOS else [])"

datatype ov6_error =
    Ov6InvalidPrefix
  | Ov6UnsupportedMode
  | NotOneProtoAndServer
  | MalformedProto
  | UnmanagedProto string
  | BindIpv6Only
  | LocalBind
  | DuplicateServer
  | UnmanagedServer
  | DuplicateRedirect
  | MissingRedirect
  | Ov6CannotRead io_error
  | Ov6NotUtf8
  | Ov6CannotUpdate io_error

definition ov6_parse_prefix :: "string \<Rightarrow> (ov6_error, ipnet) result" where
  "ov6_parse_prefix value =
     (case ip_network True value of
        None \<Rightarrow> Inl Ov6InvalidPrefix
      | Some n \<Rightarrow>
          if net_version n \<noteq> 6 \<or> prefixlen n \<noteq> 48 then Inl Ov6InvalidPrefix
          else if \<not> subnet_of n ULA then Inl Ov6InvalidPrefix
          else Inr n)"

definition ov6_network :: "string \<Rightarrow> ov6_mode \<Rightarrow> (ov6_error, ipnet) result" where
  "ov6_network prefix m = bindR (ov6_parse_prefix prefix) (\<lambda>base. Inr (subnet_at base (subnet_id m) 64))"

section \<open>Lines\<close>

definition directive_tokens :: "string \<Rightarrow> string list" where
  "directive_tokens line = words (before (CHR '';'') (before (CHR ''#'') line))"

definition is_directive :: "string \<Rightarrow> string \<Rightarrow> bool" where
  "is_directive name line \<longleftrightarrow> take 1 (directive_tokens line) = [name]"

definition lines_where :: "(string \<Rightarrow> bool) \<Rightarrow> string list \<Rightarrow> nat list" where
  "lines_where p ls = filter (\<lambda>i. p (ls ! i)) [0..<length ls]"

definition newline_of :: "string \<Rightarrow> string" where
  "newline_of line = (if ends_with [CR, LF] line then [CR, LF] else [LF])"

text \<open>\<^verbatim>\<open>list.insert\<close> behind a line.\<close>

definition insert_after :: "nat \<Rightarrow> string \<Rightarrow> string list \<Rightarrow> string list" where
  "insert_after i line ls = take (Suc i) ls @ line # drop (Suc i) ls"

definition managed_server :: "ipnet \<Rightarrow> string" where
  "managed_server n = ''server-ipv6 '' @ show_net n"

definition managed_redirect :: string where
  "managed_redirect = ''push '' @ CHR 0x22 # ''redirect-gateway ipv6'' @ [CHR 0x22]"

definition ipv4_redirect :: string where
  "ipv4_redirect = ''push '' @ CHR 0x22 # ''redirect-gateway def1''"

section \<open>The changes\<close>

text \<open>Each step gives the lines and the number of changes so far.\<close>

definition set_proto :: "ov6_mode \<Rightarrow> bool \<Rightarrow> nat \<Rightarrow> string list \<Rightarrow> (ov6_error, string list \<times> nat) result" where
  "set_proto m enable i ls =
     (let tokens = directive_tokens (ls ! i) in
      if length tokens \<noteq> 2 then Inl MalformedProto
      else
        let current = lower (tokens ! 1); target = (if enable then ipv6_proto m else ipv4_proto m) in
        if current \<notin> set (managed_protos m) then Inl (UnmanagedProto current)
        else if current \<noteq> target
        then Inr (ls[i := ''proto '' @ target @ newline_of (ls ! i)], 1)
        else Inr (ls, 0))"

definition check_listener :: "bool \<Rightarrow> string list \<Rightarrow> (ov6_error, unit) result" where
  "check_listener enable ls =
     (if list_ex (\<lambda>l. take 2 (directive_tokens l) = [''bind'', ''ipv6only'']) ls then Inl BindIpv6Only
      else if enable \<and> list_ex (is_directive ''local'') ls then Inl LocalBind
      else Inr ())"

definition is_managed :: "string \<Rightarrow> string \<Rightarrow> bool" where
  "is_managed wanted line \<longleftrightarrow> strip line = wanted"

definition other_server_ipv6 :: "string \<Rightarrow> string \<Rightarrow> bool" where
  "other_server_ipv6 wanted line \<longleftrightarrow> starts_with ''server-ipv6 '' (lstrip line) \<and> strip line \<noteq> wanted"

definition set_server :: "string \<Rightarrow> bool \<Rightarrow> nat \<Rightarrow> string list \<Rightarrow> (ov6_error, string list \<times> nat) result" where
  "set_server wanted enable i ls =
     (let found = lines_where (is_managed wanted) ls in
      if 1 < length found then Inl DuplicateServer
      else if list_ex (other_server_ipv6 wanted) ls then Inl UnmanagedServer
      else if enable
      then (if found = [] then Inr (insert_after i (wanted @ newline_of (ls ! i)) ls, 1) else Inr (ls, 0))
      else Inr (filter (\<lambda>l. \<not> is_managed wanted l) ls, length found))"

definition set_redirect :: "bool \<Rightarrow> string list \<Rightarrow> (ov6_error, string list \<times> nat) result" where
  "set_redirect enable ls =
     (let found = lines_where (is_managed managed_redirect) ls in
      if 1 < length found then Inl DuplicateRedirect
      else if enable
      then (if found = []
            then (case lines_where (\<lambda>l. starts_with ipv4_redirect (strip l)) ls of
                    [] \<Rightarrow> Inl MissingRedirect
                  | i # is \<Rightarrow> Inr (insert_after i (managed_redirect @ newline_of (ls ! i)) ls, 1))
            else Inr (ls, 0))
      else Inr (filter (\<lambda>l. \<not> is_managed managed_redirect l) ls, length found))"

definition reconcile_lines :: "ov6_mode \<Rightarrow> ipnet \<Rightarrow> bool \<Rightarrow> string list \<Rightarrow> (ov6_error, string list \<times> nat) result" where
  "reconcile_lines m n enable ls =
     (case (lines_where (is_directive ''proto'') ls, lines_where (is_directive ''server'') ls) of
        ([p], [s]) \<Rightarrow>
          bindR (set_proto m enable p ls) (\<lambda>(ls1, c1).
          bindR (check_listener enable ls1) (\<lambda>_.
          bindR (set_server (managed_server n) enable s ls1) (\<lambda>(ls2, c2).
          bindR (if full_vpn m then set_redirect enable ls2 else Inr (ls2, 0)) (\<lambda>(ls3, c3).
          Inr (ls3, c1 + c2 + c3)))))
      | _ \<Rightarrow> Inl NotOneProtoAndServer)"

definition ov6_reconcile_text :: "string \<Rightarrow> string \<Rightarrow> string \<Rightarrow> bool \<Rightarrow> (ov6_error, string \<times> nat) result" where
  "ov6_reconcile_text txt prefix name enable =
     bindR (optionR Ov6UnsupportedMode (map_of MODES name)) (\<lambda>m.
     bindR (ov6_network prefix m) (\<lambda>n.
     bindR (reconcile_lines m n enable (splitlines_keep txt)) (\<lambda>(ls, changes).
     Inr (concat ls, changes))))"

section \<open>The file\<close>

text \<open>The file is replaced as in \<^theory_text>\<open>WireGuard6\<close>: a temporary file takes its place, or is removed.\<close>

definition ov6_atomic_write :: "string \<Rightarrow> string \<Rightarrow> string \<Rightarrow> (fs, io_error, unit) prog" where
  "ov6_atomic_write temporary path content = atomic_write temporary path content"

definition ov6_reconcile_file ::
  "string \<Rightarrow> string \<Rightarrow> string \<Rightarrow> string \<Rightarrow> bool \<Rightarrow> bool \<Rightarrow> (fs, ov6_error, nat) prog" where
  "ov6_reconcile_file temporary path prefix name enable write fs =
     (case read_text fs path of
        Inl e \<Rightarrow> (Inl (if e = UnicodeError then Ov6NotUtf8 else Ov6CannotRead e), fs)
      | Inr original \<Rightarrow>
          (case ov6_reconcile_text original prefix name enable of
             Inl e \<Rightarrow> (Inl e, fs)
           | Inr (reconciled, changes) \<Rightarrow>
               if write \<and> reconciled \<noteq> original
               then (case ov6_atomic_write temporary path reconciled fs of
                       (Inl e, fs') \<Rightarrow> (Inl (Ov6CannotUpdate e), fs')
                     | (Inr u, fs') \<Rightarrow> (Inr changes, fs'))
               else (Inr changes, fs)))"

text \<open>\<^verbatim>\<open>run\<close>: the line printed.\<close>

definition ov6_run :: "string \<Rightarrow> string \<Rightarrow> bool \<Rightarrow> string \<Rightarrow> string \<Rightarrow> bool \<Rightarrow> (fs, ov6_error, string) prog" where
  "ov6_run temporary prefix migrate name path check =
     bindP (ov6_reconcile_file temporary path prefix name migrate (\<not> check))
       (\<lambda>changes. retP (if changes > 0 then ''updated'' else ''unchanged''))"

end
