(* ===== verification/OpenVpn6Props.thy ===== *)
theory OpenVpn6Props
  imports OpenVpn6 WireGuard6Facts PyLines "HOL-Library.Code_Target_Nat"
begin

text \<open>
  What switching an OpenVPN configuration promises: the directives of the mode and nothing else
  change, a second run finds nothing to do, and switching back restores the configuration.
\<close>

section \<open>The first word of a line\<close>

lemma words_space: "is_space c \<Longrightarrow> words (c # s) = words s"
  by (simp add: words_def)

lemma words_lstrip: "words (lstrip s) = words s"
  by (induction s) (simp_all add: lstrip_def words_space)

lemma lstrip_before: "\<not> is_space c \<Longrightarrow> before c (lstrip s) = lstrip (before c s)"
  by (induction s) (auto simp: before_def lstrip_def)

lemma tokens_lstrip: "directive_tokens (lstrip s) = directive_tokens s"
proof -
  have "\<not> is_space (CHR ''#'')" "\<not> is_space (CHR '';'')" by simp_all
  then show ?thesis by (simp add: directive_tokens_def lstrip_before words_lstrip)
qed

definition plain_word :: "string \<Rightarrow> bool" where
  "plain_word w \<longleftrightarrow> w \<noteq> [] \<and> list_all (\<lambda>c. \<not> is_space c \<and> c \<noteq> CHR ''#'' \<and> c \<noteq> CHR '';'') w"

lemma before_Cons: "d \<notin> set w \<Longrightarrow> c \<noteq> d \<Longrightarrow> before d (w @ c # s) = w @ c # before d s"
  by (induction w) (auto simp: before_def)

lemma tokens_Cons:
  assumes "plain_word w" and "is_space c"
  shows "directive_tokens (w @ c # s) = w # directive_tokens s"
proof -
  have w: "CHR ''#'' \<notin> set w" "CHR '';'' \<notin> set w" "\<And>x. x \<in> set w \<Longrightarrow> \<not> is_space x" "w \<noteq> []"
    "c \<noteq> CHR ''#''" "c \<noteq> CHR '';''"
    using assms unfolding plain_word_def list_all_iff by (blast, blast, blast, blast, fastforce, fastforce)
  have "directive_tokens (w @ c # s) = words (w @ c # before (CHR '';'') (before (CHR ''#'') s))"
    unfolding directive_tokens_def before_Cons [OF w(1,5)] before_Cons [OF w(2,6)] ..
  also have "\<dots> = w # directive_tokens s"
    unfolding directive_tokens_def by (rule words_Cons [OF w(4,3) assms(2)])
  finally show ?thesis .
qed

lemma first_token:
  "lstrip l = w @ c # s \<Longrightarrow> plain_word w \<Longrightarrow> is_space c \<Longrightarrow> take 1 (directive_tokens l) = [w]"
  using tokens_Cons [of w c s] tokens_lstrip [of l] by (metis One_nat_def take_Suc_Cons take0)

lemma strip_first_token:
  assumes "strip l = w @ c # s" and "plain_word w" and "is_space c"
  shows "take 1 (directive_tokens l) = [w]"
proof -
  obtain v where "lstrip l = strip l @ v" using lstrip_strip [of l] by blast
  then show ?thesis using assms by (intro first_token [of l w c "s @ v"]) simp_all
qed

lemma directive_unique: "is_directive a l \<Longrightarrow> take 1 (directive_tokens l) = [b] \<Longrightarrow> a = b"
  by (simp add: is_directive_def)

text \<open>The words of the managed directives.\<close>

lemma directive_words:
  "plain_word ''server-ipv6''" "plain_word ''push''" "plain_word ''proto''"
  by code_simp+

lemma managed_token:
  "is_managed (managed_server n) l \<Longrightarrow> take 1 (directive_tokens l) = [''server-ipv6'']"
  "is_managed managed_redirect l \<Longrightarrow> take 1 (directive_tokens l) = [''push'']"
  "other_server_ipv6 wanted l \<Longrightarrow> take 1 (directive_tokens l) = [''server-ipv6'']"
proof -
  show "is_managed (managed_server n) l \<Longrightarrow> take 1 (directive_tokens l) = [''server-ipv6'']"
    by (rule strip_first_token [of _ _ "CHR '' ''" "show_net n"])
      (simp_all add: is_managed_def managed_server_def directive_words)
  show "is_managed managed_redirect l \<Longrightarrow> take 1 (directive_tokens l) = [''push'']"
    by (rule strip_first_token [of _ _ "CHR '' ''" "CHR 0x22 # ''redirect-gateway ipv6'' @ [CHR 0x22]"])
      (simp_all add: is_managed_def managed_redirect_def directive_words)
  assume "other_server_ipv6 wanted l"
  then obtain v where "lstrip l = ''server-ipv6 '' @ v" by (auto simp: other_server_ipv6_def starts_with_iff)
  then show "take 1 (directive_tokens l) = [''server-ipv6'']"
    by (intro first_token [of _ _ "CHR '' ''" v]) (simp_all add: directive_words)
qed

section \<open>Lines that are found\<close>

lemma lines_where_length: "length (lines_where p ls) = length (filter p ls)"
proof -
  have "filter p ls = map (\<lambda>i. ls ! i) (lines_where p ls)"
    unfolding lines_where_def by (subst filter_map [symmetric, unfolded o_def]) (simp add: map_nth)
  then show ?thesis by simp
qed

lemma lines_where_Nil: "lines_where p ls = [] \<longleftrightarrow> filter p ls = []"
  using lines_where_length [of p ls] by (metis length_0_conv)

lemma lines_where_in: "i \<in> set (lines_where p ls) \<Longrightarrow> i < length ls \<and> p (ls ! i)"
  by (simp add: lines_where_def)

text \<open>The one line with a property splits the list.\<close>

lemma one_line:
  assumes "lines_where p ls = [i]"
  obtains a b where "ls = a @ (ls ! i) # b" and "length a = i" and "p (ls ! i)"
    and "filter p a = []" and "filter p b = []" and "filter p ls = [ls ! i]"
proof -
  have i: "i < length ls" "p (ls ! i)" using lines_where_in [of i p ls] assms by simp_all
  define a where "a = take i ls"
  define b where "b = drop (Suc i) ls"
  have ls: "ls = a @ (ls ! i) # b" unfolding a_def b_def by (rule id_take_nth_drop [OF i(1)])
  have n: "length (filter p ls) = 1" using lines_where_length [of p ls] assms by simp
  have e: "filter p ls = filter p a @ (ls ! i) # filter p b" using i(2) by (subst ls) simp
  then have "filter p a = [] \<and> filter p b = []" using n by simp
  moreover have "length a = i" using i(1) by (simp add: a_def)
  ultimately show thesis using that [of a b] ls i(2) e by simp
qed

lemma filter_insert_after: "filter p (insert_after i l ls) = filter p (take (Suc i) ls) @ (if p l then [l] else []) @ filter p (drop (Suc i) ls)"
  by (simp add: insert_after_def)

lemma filter_insert_other: "\<not> p l \<Longrightarrow> filter p (insert_after i l ls) = filter p ls"
  by (simp add: filter_insert_after flip: filter_append)

lemma filter_insert_new: "p l \<Longrightarrow> filter p ls = [] \<Longrightarrow> filter p (insert_after i l ls) = [l]"
proof -
  assume "p l" "filter p ls = []"
  moreover from this(2) have "filter p (take (Suc i) ls @ drop (Suc i) ls) = []" by simp
  ultimately show ?thesis by (simp add: filter_insert_after del: append_take_drop_id)
qed

lemma map_insert_after: "map f (insert_after i l ls) = insert_after i (f l) (map f ls)"
  by (simp add: insert_after_def take_map drop_map)

lemma ended_insert_after: "list_all ended ls \<Longrightarrow> ended l \<Longrightarrow> list_all ended (insert_after i l ls)"
  by (auto simp: insert_after_def list_all_iff dest: in_set_takeD in_set_dropD)

section \<open>A configuration with nothing to do\<close>

definition target_proto :: "ov6_mode \<Rightarrow> bool \<Rightarrow> string" where
  "target_proto m enable = (if enable then ipv6_proto m else ipv4_proto m)"

definition quiet_line :: "bool \<Rightarrow> string \<Rightarrow> bool" where
  "quiet_line enable l \<longleftrightarrow> take 2 (directive_tokens l) \<noteq> [''bind'', ''ipv6only''] \<and> \<not> (enable \<and> is_directive ''local'' l)"

text \<open>
  One protocol, the one of the mode; one IPv4 server; nothing that conflicts; the managed
  directives once each, or not at all.\<close>

definition settled :: "ov6_mode \<Rightarrow> ipnet \<Rightarrow> bool \<Rightarrow> string list \<Rightarrow> bool" where
  "settled m n enable ls \<longleftrightarrow>
     map (\<lambda>l. map lower (directive_tokens l)) (filter (is_directive ''proto'') ls) = [[''proto'', target_proto m enable]]
     \<and> length (filter (is_directive ''server'') ls) = 1
     \<and> list_all (quiet_line enable) ls
     \<and> filter (other_server_ipv6 (managed_server n)) ls = []
     \<and> length (filter (is_managed (managed_server n)) ls) = (if enable then 1 else 0)
     \<and> (if full_vpn m then length (filter (is_managed managed_redirect) ls) = (if enable then 1 else 0) else True)"

lemma list_ex_filter: "list_ex p ls \<longleftrightarrow> filter p ls \<noteq> []"
  by (simp add: list_ex_iff filter_empty_conv)

lemma check_listener_ok: "check_listener enable ls = Inr () \<longleftrightarrow> list_all (quiet_line enable) ls"
  by (auto simp: check_listener_def list_ex_iff list_all_iff quiet_line_def)

lemma lines_where_one: "length (filter p ls) = 1 \<Longrightarrow> \<exists>i. lines_where p ls = [i]"
  using lines_where_length [of p ls] by (metis One_nat_def Suc_length_conv length_0_conv)

lemma filter_none: "filter p ls = [] \<Longrightarrow> filter (\<lambda>l. \<not> p l) ls = ls"
  by (simp add: filter_empty_conv filter_id_conv)

lemma mode_targets:
  assumes "map_of MODES name = Some m"
  shows "lower (target_proto m enable) = target_proto m enable" "plain_word (target_proto m enable)"
    "target_proto m enable \<in> set (managed_protos m)"
proof -
  have "list_all (\<lambda>w. lower w = w \<and> plain_word w) [''udp4'', ''udp6'', ''tcp4'', ''tcp6-server'']" by code_simp
  then show "lower (target_proto m enable) = target_proto m enable" "plain_word (target_proto m enable)"
    using assms by (auto simp: MODES_def target_proto_def split: if_splits)
  show "target_proto m enable \<in> set (managed_protos m)"
    by (simp add: managed_protos_def target_proto_def)
qed

lemma settled_unchanged:
  assumes "settled m n enable ls" and "map_of MODES name = Some m"
  shows "reconcile_lines m n enable ls = Inr (ls, 0)"
proof -
  note st = assms(1) [unfolded settled_def]
  have "length (filter (is_directive ''proto'') ls) = 1" using arg_cong [OF conjunct1 [OF st], of length] by simp
  then obtain p where p: "lines_where (is_directive ''proto'') ls = [p]" using lines_where_one by blast
  obtain s where s: "lines_where (is_directive ''server'') ls = [s]" using lines_where_one st by blast
  obtain a b where "filter (is_directive ''proto'') ls = [ls ! p]" using one_line [OF p] by metis
  then obtain x y where x: "directive_tokens (ls ! p) = [x, y]" "lower y = target_proto m enable"
    using conjunct1 [OF st] by (auto simp: map_eq_Cons_conv)
  have 1: "set_proto m enable p ls = Inr (ls, 0)"
    using x mode_targets(3) [OF assms(2)] by (simp add: set_proto_def target_proto_def [symmetric] Let_def)
  have 2: "check_listener enable ls = Inr ()" using st check_listener_ok by blast
  have 3: "set_server (managed_server n) enable s ls = Inr (ls, 0)"
    using st by (auto simp: set_server_def lines_where_length lines_where_Nil list_ex_filter filter_none Let_def)
  have 4: "full_vpn m \<Longrightarrow> set_redirect enable ls = Inr (ls, 0)"
    using st by (auto simp: set_redirect_def lines_where_length lines_where_Nil filter_none Let_def)
  show ?thesis using 4 by (simp add: reconcile_lines_def p s 1 2 3)
qed

section \<open>What the steps leave alone\<close>

text \<open>A line that starts with a managed word is none of the others.\<close>

lemma first_token_other:
  assumes "take 1 (directive_tokens l) = [w]"
  shows "is_directive a l \<longleftrightarrow> a = w"
    and "w \<noteq> ''bind'' \<Longrightarrow> w \<noteq> ''local'' \<Longrightarrow> quiet_line enable l"
    and "w \<noteq> ''server-ipv6'' \<Longrightarrow> \<not> is_managed (managed_server n) l \<and> \<not> other_server_ipv6 wanted l"
    and "w \<noteq> ''push'' \<Longrightarrow> \<not> is_managed managed_redirect l"
proof -
  show "is_directive a l \<longleftrightarrow> a = w" using assms by (auto simp: is_directive_def)
  then show "w \<noteq> ''bind'' \<Longrightarrow> w \<noteq> ''local'' \<Longrightarrow> quiet_line enable l"
    using assms by (cases "directive_tokens l") (auto simp: quiet_line_def is_directive_def)
  show "w \<noteq> ''server-ipv6'' \<Longrightarrow> \<not> is_managed (managed_server n) l \<and> \<not> other_server_ipv6 wanted l"
    using managed_token(1,3) assms by (metis list.inject)
  show "w \<noteq> ''push'' \<Longrightarrow> \<not> is_managed managed_redirect l"
    using managed_token(2) assms by (metis list.inject)
qed

lemma tokens_newline: "directive_tokens (newline_of l) = []"
  by (simp add: newline_of_def directive_tokens_def before_def words_def)

lemma tokens_line: "plain_word w \<Longrightarrow> directive_tokens (w @ newline_of l) = [w]"
  using tokens_Cons [of w CR "[LF]"] tokens_Cons [of w LF "[]"]
  by (auto simp: newline_of_def directive_tokens_def before_def words_def)

lemma proto_tokens:
  "map_of MODES name = Some m \<Longrightarrow> directive_tokens (''proto '' @ target_proto m enable @ newline_of l) = [''proto'', target_proto m enable]"
  using tokens_Cons [OF directive_words(3), of "CHR '' ''" "target_proto m enable @ newline_of l"]
    tokens_line [OF mode_targets(2)] by simp

text \<open>The protocol is set in every line that sets one; there is one.\<close>

definition sub_proto :: "string \<Rightarrow> string \<Rightarrow> string" where
  "sub_proto l' l = (if is_directive ''proto'' l then l' else l)"

lemma set_proto_sub:
  assumes "lines_where (is_directive ''proto'') ls = [p]" and "set_proto m enable p ls = Inr (ls1, c)"
    and "map_of MODES name = Some m"
  obtains l' where "ls1 = map (sub_proto l') ls" and "map lower (directive_tokens l') = [''proto'', target_proto m enable]"
    and "l' = ls ! p \<and> c = 0 \<or> l' = ''proto '' @ target_proto m enable @ newline_of (ls ! p) \<and> c = 1"
proof -
  from assms(1) obtain a b where ls: "ls = a @ (ls ! p) # b" "length a = p" "is_directive ''proto'' (ls ! p)"
    and ab: "filter (is_directive ''proto'') a = []" "filter (is_directive ''proto'') b = []"
    by (rule one_line)
  have ab: "map (sub_proto l') a = a" "map (sub_proto l') b = b" for l'
    using ab by (auto simp: sub_proto_def filter_empty_conv intro!: map_idI)
  have sub: "map (sub_proto l') ls = a @ l' # b" for l'
    using ab ls(3) by (subst ls(1)) (simp add: sub_proto_def)
  have upd: "ls[p := l'] = a @ l' # b" for l'
    using ls(2) by (subst ls(1)) (simp add: list_update_append)
  obtain x where x: "directive_tokens (ls ! p) = [''proto'', x]" "lower x \<in> set (managed_protos m)"
    using assms(2) ls(3) by (auto simp: set_proto_def is_directive_def Let_def length_Suc_conv numeral_2_eq_2 split: if_splits)
  have low: "lower ''proto'' = ''proto''" by code_simp
  show thesis
  proof (cases "lower x = target_proto m enable")
    case True
    then have "ls1 = ls" "c = 0" using assms(2) x by (auto simp: set_proto_def target_proto_def Let_def split: if_splits)
    then show thesis using that [of "ls ! p"] sub [of "ls ! p"] ls(1) x low True by simp
  next
    case False
    let ?l = "''proto '' @ target_proto m enable @ newline_of (ls ! p)"
    have "ls1 = ls[p := ?l]" "c = 1"
      using False assms(2) x by (auto simp: set_proto_def target_proto_def Let_def split: if_splits)
    then show thesis using that [of ?l] sub upd proto_tokens [OF assms(3), of enable "ls ! p"] low mode_targets(1) [OF assms(3)] by simp
  qed
qed

lemma filter_sub_proto:
  assumes "\<And>l. q l \<Longrightarrow> \<not> is_directive ''proto'' l" and "\<not> q l'"
  shows "filter q (map (sub_proto l') ls) = filter q ls"
  using assms by (induction ls) (auto simp: sub_proto_def)

lemma filter_proto_sub:
  "is_directive ''proto'' l' \<Longrightarrow> filter (is_directive ''proto'') (map (sub_proto l') ls) = map (\<lambda>_. l') (filter (is_directive ''proto'') ls)"
  by (induction ls) (simp_all add: sub_proto_def)

lemma strip_append_space:
  assumes "strip w = w" and "w \<noteq> []" and "list_all is_space v"
  shows "strip (w @ v) = w"
proof -
  have h: "\<not> is_space (hd w)"
  proof -
    obtain u where u: "lstrip w = w @ u" using lstrip_strip [of w] assms(1) by auto
    show ?thesis using dropWhile_hd [of is_space w "hd w" "tl w @ u"] u assms(2) by (simp add: lstrip_def)
  qed
  have "lstrip (w @ v) = w @ v" unfolding lstrip_def using h assms(2) by (intro dropWhile_none) (simp add: hd_append)
  moreover have "lstrip w = w" unfolding lstrip_def using h by (intro dropWhile_none) simp
  moreover have "dropWhile is_space (rev (w @ v)) = dropWhile is_space (rev w)"
    using assms(3) using dropWhile_append2 [of "rev v" is_space "rev w"] by (simp add: list_all_iff)
  ultimately show ?thesis using assms(1) by (simp add: strip_def rstrip_def)
qed

lemma newline_space: "list_all is_space (newline_of l)"
  by (simp add: newline_of_def)

text \<open>A managed line is put in or taken out; what is found of other lines stays.\<close>

definition placed :: "string \<Rightarrow> bool \<Rightarrow> string list \<Rightarrow> string list \<Rightarrow> bool" where
  "placed w enable ls ls' \<longleftrightarrow>
     (if \<not> enable then ls' = filter (\<lambda>l. \<not> is_managed w l) ls
      else if filter (is_managed w) ls = [] then \<exists>i. ls' = insert_after i (w @ newline_of (ls ! i)) ls \<and> i < length ls
      else ls' = ls \<and> length (filter (is_managed w) ls) = 1)"

lemma managed_new: "strip w = w \<Longrightarrow> w \<noteq> [] \<Longrightarrow> is_managed w (w @ newline_of l)"
  by (simp add: is_managed_def strip_append_space newline_space)

lemma placed_count:
  assumes "placed w enable ls ls'" and "strip w = w" and "w \<noteq> []"
  shows "length (filter (is_managed w) ls') = (if enable then 1 else 0)"
  using assms(1) managed_new [OF assms(2,3)]
  by (auto simp: placed_def filter_insert_new split: if_splits)

lemma placed_others:
  assumes "placed w enable ls ls'" and "strip w = w" and "w \<noteq> []" and "\<And>l. is_managed w l \<Longrightarrow> \<not> q l"
  shows "filter q ls' = filter q ls"
  using assms(1) managed_new [OF assms(2,3), THEN assms(4)] assms(4)
  by (auto simp: placed_def filter_insert_other split: if_splits intro: filter_cong)

lemma set_server_placed:
  assumes "set_server w enable i ls = Inr (ls', c)" and "i < length ls"
  shows "placed w enable ls ls' \<and> filter (other_server_ipv6 w) ls = []"
proof -
  have n: "\<not> 1 < length (filter (is_managed w) ls)" "filter (other_server_ipv6 w) ls = []"
    using assms(1) by (auto simp: set_server_def Let_def lines_where_length list_ex_filter split: if_splits)
  have "filter (is_managed w) ls = [] \<or> length (filter (is_managed w) ls) = 1" using n(1) by (cases "filter (is_managed w) ls") auto
  then show ?thesis using assms n
    by (auto simp: set_server_def placed_def Let_def lines_where_length lines_where_Nil list_ex_filter split: if_splits)
qed

lemma set_redirect_placed:
  assumes "set_redirect enable ls = Inr (ls', c)"
  shows "placed managed_redirect enable ls ls'"
proof -
  let ?w = managed_redirect
  have n: "\<not> 1 < length (filter (is_managed ?w) ls)"
    using assms(1) by (auto simp: set_redirect_def Let_def lines_where_length split: if_splits)
  have "filter (is_managed ?w) ls = [] \<or> length (filter (is_managed ?w) ls) = 1" using n(1) by (cases "filter (is_managed ?w) ls") auto
  moreover have "i < length ls" if "lines_where q ls = i # is" for q i "is"
    using lines_where_in [of i q ls] that by simp
  ultimately show ?thesis using assms n
    by (auto simp: set_redirect_def placed_def Let_def lines_where_length lines_where_Nil split: if_splits list.splits)
qed

lemma managed_strip:
  "net_plain n \<Longrightarrow> strip (managed_server n) = managed_server n" "managed_server n \<noteq> []"
  "strip managed_redirect = managed_redirect" "managed_redirect \<noteq> []"
proof -
  show "strip managed_redirect = managed_redirect" "managed_redirect \<noteq> []" "managed_server n \<noteq> []"
    by (simp_all add: managed_redirect_def managed_server_def strip_ends)
  assume n: "net_plain n"
  have "show_net n \<noteq> []" by (simp add: show_net_def)
  then have "\<not> is_space (last (managed_server n))"
    using show_net_clean [OF n] by (simp add: managed_server_def)
  then show "strip (managed_server n) = managed_server n"
    by (intro strip_ends) (simp_all add: managed_server_def)
qed

section \<open>What a run leaves behind\<close>

definition unmanaged :: "ov6_mode \<Rightarrow> ipnet \<Rightarrow> string \<Rightarrow> bool" where
  "unmanaged m n l \<longleftrightarrow> \<not> is_directive ''proto'' l \<and> \<not> is_managed (managed_server n) l
     \<and> \<not> (full_vpn m \<and> is_managed managed_redirect l)"

lemma reconcile_parts:
  assumes "reconcile_lines m n enable ls = Inr (ls3, c)" and "map_of MODES name = Some m"
  obtains l' ls2 p where "map lower (directive_tokens l') = [''proto'', target_proto m enable]"
    and "is_directive ''proto'' l'" and "lines_where (is_directive ''proto'') ls = [p]"
    and "l' = ls ! p \<or> l' = ''proto '' @ target_proto m enable @ newline_of (ls ! p)"
    and "length (filter (is_directive ''server'') ls) = 1"
    and "list_all (quiet_line enable) (map (sub_proto l') ls)"
    and "filter (other_server_ipv6 (managed_server n)) (map (sub_proto l') ls) = []"
    and "placed (managed_server n) enable (map (sub_proto l') ls) ls2"
    and "if full_vpn m then placed managed_redirect enable ls2 ls3 else ls3 = ls2"
proof -
  obtain p s where ps: "lines_where (is_directive ''proto'') ls = [p]" "lines_where (is_directive ''server'') ls = [s]"
    using assms(1) by (auto simp: reconcile_lines_def split: list.splits)
  obtain ls1 c1 ls2 c2 c3 where r: "set_proto m enable p ls = Inr (ls1, c1)" "check_listener enable ls1 = Inr ()"
    "set_server (managed_server n) enable s ls1 = Inr (ls2, c2)"
    "(if full_vpn m then set_redirect enable ls2 else Inr (ls2, 0)) = Inr (ls3, c3)"
    using assms(1) by (auto simp: reconcile_lines_def ps result_simps split: prod.splits)
  from set_proto_sub [OF ps(1) r(1) assms(2)] obtain l' where l': "ls1 = map (sub_proto l') ls"
    "map lower (directive_tokens l') = [''proto'', target_proto m enable]"
    "l' = ls ! p \<or> l' = ''proto '' @ target_proto m enable @ newline_of (ls ! p)" by blast
  have s: "s < length ls1" using lines_where_in [of s "is_directive ''server''" ls] ps(2) l'(1) by simp
  have n: "length (filter (is_directive ''server'') ls) = 1"
    using lines_where_length [of "is_directive ''server''" ls] ps(2) by simp
  have red: "if full_vpn m then placed managed_redirect enable ls2 ls3 else ls3 = ls2"
    using r(4) set_redirect_placed by (auto split: if_splits)
  have d: "is_directive ''proto'' l'"
    using l'(3) lines_where_in [of p "is_directive ''proto''" ls] ps(1) proto_tokens [OF assms(2), of enable "ls ! p"]
    by (auto simp: is_directive_def)
  show thesis
    using that [OF l'(2) d ps(1) l'(3) n _ _ _ red] set_server_placed [OF r(3) s] r(2) check_listener_ok l'(1) by blast
qed

lemma placed_rest: "placed w enable ls ls' \<Longrightarrow> strip w = w \<Longrightarrow> w \<noteq> [] \<Longrightarrow> filter (\<lambda>l. \<not> is_managed w l \<and> q l) ls' = filter (\<lambda>l. \<not> is_managed w l \<and> q l) ls"
  by (rule placed_others) auto

lemma reconcile_settled:
  assumes "reconcile_lines m n enable ls = Inr (ls3, c)" and "map_of MODES name = Some m" and "net_plain n"
  shows "settled m n enable ls3 \<and> filter (unmanaged m n) ls3 = filter (unmanaged m n) ls"
proof -
  from reconcile_parts [OF assms(1,2)] obtain l' ls2 p where r:
    "map lower (directive_tokens l') = [''proto'', target_proto m enable]" "is_directive ''proto'' l'"
    "lines_where (is_directive ''proto'') ls = [p]" "length (filter (is_directive ''server'') ls) = 1"
    "list_all (quiet_line enable) (map (sub_proto l') ls)"
    "filter (other_server_ipv6 (managed_server n)) (map (sub_proto l') ls) = []"
    "placed (managed_server n) enable (map (sub_proto l') ls) ls2"
    "if full_vpn m then placed managed_redirect enable ls2 ls3 else ls3 = ls2" .
  let ?S = "managed_server n" and ?R = managed_redirect and ?ls1 = "map (sub_proto l') ls"
  note W = managed_strip(1) [OF assms(3)] managed_strip(2-4)
  note S_other = first_token_other [OF managed_token(1)] and R_other = first_token_other [OF managed_token(2)]
  have l': "take 1 (directive_tokens l') = [''proto'']" using r(2) by (simp add: is_directive_def)
  have keep: "filter q ls3 = filter q ?ls1"
    if q: "\<And>l. is_managed ?S l \<Longrightarrow> \<not> q l" "\<And>l. full_vpn m \<Longrightarrow> is_managed ?R l \<Longrightarrow> \<not> q l" for q
  proof -
    have "filter q ls3 = filter q ls2" using r(8) placed_others [OF _ W(3,4) q(2)] by (auto split: if_splits)
    then show ?thesis using placed_others [OF r(7) W(1,2) q(1)] by simp
  qed
  have proto: "filter (is_directive ''proto'') ls3 = [l']"
  proof -
    have "filter (is_directive ''proto'') ls3 = filter (is_directive ''proto'') ?ls1"
      by (rule keep) (simp_all add: S_other(1) R_other(1))
    also have "\<dots> = map (\<lambda>_. l') (filter (is_directive ''proto'') ls)" by (rule filter_proto_sub [OF r(2)])
    also have "\<dots> = [l']" using one_line [OF r(3)] by (metis list.simps(8,9))
    finally show ?thesis .
  qed
  have server: "filter (is_directive ''server'') ls3 = filter (is_directive ''server'') ls"
  proof -
    have "filter (is_directive ''server'') ls3 = filter (is_directive ''server'') ?ls1"
      by (rule keep) (simp_all add: S_other(1) R_other(1))
    also have "\<dots> = filter (is_directive ''server'') ls"
      by (rule filter_sub_proto) (auto simp: is_directive_def l' [simplified])
    finally show ?thesis .
  qed
  have "filter (\<lambda>l. \<not> quiet_line enable l) ls3 = filter (\<lambda>l. \<not> quiet_line enable l) ?ls1"
    by (rule keep) (simp_all add: S_other(2) R_other(2))
  then have quiet: "list_all (quiet_line enable) ls3" using r(5) by (simp add: filter_empty_conv list_all_iff)
  have "filter (other_server_ipv6 ?S) ls3 = filter (other_server_ipv6 ?S) ?ls1"
    by (rule keep) (simp add: other_server_ipv6_def is_managed_def, use R_other(3) in simp)
  then have other: "filter (other_server_ipv6 ?S) ls3 = []" using r(6) by simp
  have "length (filter (is_managed ?S) ls2) = (if enable then 1 else 0)" by (rule placed_count [OF r(7) W(1,2)])
  moreover have "filter (is_managed ?S) ls3 = filter (is_managed ?S) ls2"
    using r(8) placed_others [OF _ W(3,4), of enable ls2 ls3 "is_managed ?S"] R_other(3) by (auto split: if_splits)
  ultimately have S: "length (filter (is_managed ?S) ls3) = (if enable then 1 else 0)" by simp
  have R: "if full_vpn m then length (filter (is_managed ?R) ls3) = (if enable then 1 else 0) else True"
    using r(8) placed_count [OF _ W(3,4), of enable ls2 ls3] by (auto split: if_splits)
  have "filter (unmanaged m n) ls3 = filter (unmanaged m n) ?ls1" by (rule keep) (auto simp: unmanaged_def)
  also have "\<dots> = filter (unmanaged m n) ls" by (rule filter_sub_proto) (auto simp: unmanaged_def r(2))
  finally show ?thesis using proto server quiet other S R r(1,4) by (simp add: settled_def)
qed

section \<open>Texts\<close>

lemma ended_newline: "ended l \<Longrightarrow> newline_of l = [LF]"
  by (auto simp: newline_of_def ended_iff ends_with_iff clean_line_def)

lemma placed_ended:
  assumes "placed w enable ls ls'" and ls: "list_all ended ls" and "clean_line w"
  shows "list_all ended ls'"
proof -
  have new: "ended (w @ newline_of (ls ! i))" if "i < length ls" for i
    using ls that assms(3) ended_newline by (simp add: list_all_iff) (auto simp: ended_iff)
  have "list_all ended (filter q ls)" for q using ls by (simp add: list_all_iff)
  then show ?thesis
    using assms(1) ls ended_insert_after [OF ls new] by (auto simp: placed_def split: if_splits)
qed

lemma plain_word_clean: "plain_word w \<Longrightarrow> clean_line w"
  using is_eol_is_space by (auto simp: plain_word_def list_all_iff clean_line_def)

lemma reconcile_ended:
  assumes "reconcile_lines m n enable ls = Inr (ls3, c)" and "map_of MODES name = Some m" and "net_plain n"
    and "list_all ended ls"
  shows "list_all ended ls3"
proof -
  from reconcile_parts [OF assms(1,2)] obtain l' ls2 p where r: "lines_where (is_directive ''proto'') ls = [p]"
    "l' = ls ! p \<or> l' = ''proto '' @ target_proto m enable @ newline_of (ls ! p)"
    "placed (managed_server n) enable (map (sub_proto l') ls) ls2"
    "if full_vpn m then placed managed_redirect enable ls2 ls3 else ls3 = ls2" by metis
  have "p < length ls" using lines_where_in [of p "is_directive ''proto''" ls] r(1) by simp
  then have p: "ended (ls ! p)" using assms(4) by (simp add: list_all_iff)
  have "clean_line (''proto '' @ target_proto m enable)" using mode_targets(2) [OF assms(2)] plain_word_clean by simp
  then have "ended l'" using r(2) p ended_newline [OF p] by (auto simp: ended_iff)
  then have "list_all ended (map (sub_proto l') ls)" using assms(4) by (auto simp: list_all_iff sub_proto_def)
  moreover have "clean_line (managed_server n)" "clean_line managed_redirect"
    using show_net_line [OF assms(3)] by (simp_all add: managed_server_def managed_redirect_def)
  ultimately show ?thesis using placed_ended r(3,4) by (metis (full_types))
qed

lemma mode_subnet: "map_of MODES name = Some m \<Longrightarrow> subnet_id m < 2 ^ 16"
  by (auto simp: MODES_def split: if_splits)

lemma ov6_network_plain: "ov6_network prefix m = Inr n \<Longrightarrow> map_of MODES name = Some m \<Longrightarrow> net_plain n"
proof -
  assume n: "ov6_network prefix m = Inr n" and m: "map_of MODES name = Some m"
  obtain base where b: "parse_base_prefix prefix = Inr base" and sub: "n = subnet_at base (subnet_id m) 64"
    using n by (auto simp: ov6_network_def ov6_parse_prefix_def parse_base_prefix_def result_simps split: option.splits if_splits)
  note ok = base_prefix_ok [OF b]
  have i: "net_int n = net_int base + subnet_id m * 2 ^ 64" "net_int base + 2 ^ 80 \<le> 2 ^ 128"
    using subnet_at_int [of base "subnet_id m"] ok mode_subnet [OF m] sub by simp_all
  have "2 ^ 80 dvd net_int base" using ok by (auto simp: net_ok_def width_def)
  then have "2 ^ 64 dvd net_int base" by (rule dvd_trans [rotated]) (intro le_imp_power_dvd, simp)
  then have d: "2 ^ 64 dvd net_int n" unfolding i(1) by (intro dvd_add) auto
  have "net_int n < 2 ^ 128" using i mode_subnet [OF m] by simp
  then show ?thesis using d sub by (simp add: net_plain_def net_ok_def net_int_def net_version_def subnet_at_def width_def)
qed

text \<open>C21: a run on a text of ended lines leaves one protocol line, the one of the mode, one IPv4 server and
  nothing that conflicts with it, with the managed directives once each after switching on and
  absent after switching off; every other line stays, in its order; and a second run changes nothing.\<close>

theorem ov6_reconciles:
  assumes "ov6_reconcile_text txt prefix name enable = Inr (out, c)" and "lf_text txt"
    and "map_of MODES name = Some m" and "ov6_network prefix m = Inr n"
  shows "settled m n enable (splitlines_keep out)
    \<and> filter (unmanaged m n) (splitlines_keep out) = filter (unmanaged m n) (splitlines_keep txt)
    \<and> ov6_reconcile_text out prefix name enable = Inr (out, 0)"
proof -
  obtain ls where ls: "reconcile_lines m n enable (splitlines_keep txt) = Inr (ls, c)" "out = concat ls"
    using assms(1,3,4) by (auto simp: ov6_reconcile_text_def optionR_def result_simps)
  note n = ov6_network_plain [OF assms(4,3)]
  have "splitlines_keep out = ls"
    using keep_ended [OF reconcile_ended [OF ls(1) assms(3) n lf_text_ended [OF assms(2)]]] ls(2) by simp
  then show ?thesis
    using reconcile_settled [OF ls(1) assms(3) n] settled_unchanged [OF _ assms(3)] assms(3,4) ls(2)
    by (simp add: ov6_reconcile_text_def optionR_def)
qed

section \<open>Switching back\<close>

definition ipv4_line :: "ov6_mode \<Rightarrow> string" where
  "ipv4_line m = ''proto '' @ ipv4_proto m @ [LF]"

text \<open>A configuration as it is delivered: only IPv4, with the protocol line of the mode.\<close>

definition ipv4_only :: "ov6_mode \<Rightarrow> ipnet \<Rightarrow> string list \<Rightarrow> bool" where
  "ipv4_only m n ls \<longleftrightarrow> filter (is_directive ''proto'') ls = [ipv4_line m]
     \<and> filter (is_managed (managed_server n)) ls = []
     \<and> (if full_vpn m then filter (is_managed managed_redirect) ls = [] else True)"

lemma modes_differ: "map_of MODES name = Some m \<Longrightarrow> ipv6_proto m \<noteq> ipv4_proto m"
  by (auto simp: MODES_def split: if_splits)

lemma set_proto_back:
  assumes "settled m n True ls" and "map_of MODES name = Some m" and "list_all ended ls"
    and "lines_where (is_directive ''proto'') ls = [p]"
  shows "set_proto m False p ls = Inr (map (sub_proto (ipv4_line m)) ls, 1)"
proof -
  from assms(4) have one: "filter (is_directive ''proto'') ls = [ls ! p]" by (rule one_line)
  then obtain x y where x: "directive_tokens (ls ! p) = [x, y]" "lower y = ipv6_proto m"
    using assms(1) by (auto simp: settled_def target_proto_def map_eq_Cons_conv)
  have p: "p < length ls" using lines_where_in [of p "is_directive ''proto''" ls] assms(4) by simp
  then have nl: "newline_of (ls ! p) = [LF]" using assms(3) by (simp add: list_all_iff ended_newline)
  have new: "''proto '' @ target_proto m False @ newline_of (ls ! p) = ipv4_line m"
    by (simp add: target_proto_def nl ipv4_line_def)
  obtain ls1 c where r: "set_proto m False p ls = Inr (ls1, c)" "c = 1"
    using x modes_differ [OF assms(2)] by (simp add: set_proto_def managed_protos_def Let_def)
  from set_proto_sub [OF assms(4) r(1) assms(2)] r new show ?thesis by auto
qed

lemma sub_proto_back:
  assumes "is_directive ''proto'' l'" and "filter (is_directive ''proto'') ls = [old]"
  shows "map (sub_proto old) (map (sub_proto l') ls) = ls"
proof -
  have "l = old" if "l \<in> set ls" "is_directive ''proto'' l" for l
  proof -
    have "l \<in> set (filter (is_directive ''proto'') ls)" using that by simp
    then show ?thesis by (simp add: assms(2))
  qed
  then show ?thesis using assms(1) by (auto simp: sub_proto_def intro!: map_idI)
qed

text \<open>What was placed is taken out again.\<close>

lemma placed_back:
  assumes "placed w True ls ls'" and "filter (is_managed w) ls = []" and "strip w = w" and "w \<noteq> []"
    and "\<And>l. is_managed w l \<Longrightarrow> f l = l" and "\<And>l. is_managed w (f l) = is_managed w l"
  shows "filter (\<lambda>l. \<not> is_managed w l) (map f ls') = map f ls"
proof -
  obtain i where i: "ls' = insert_after i (w @ newline_of (ls ! i)) ls"
    using assms(1,2) by (auto simp: placed_def)
  have "filter (\<lambda>l. \<not> is_managed w l) ls' = ls"
    using managed_new [OF assms(3,4)] filter_none [OF assms(2)] by (simp add: i filter_insert_other)
  moreover have "filter (\<lambda>l. \<not> is_managed w l) (map f ls') = map f (filter (\<lambda>l. \<not> is_managed w l) ls')"
    by (simp add: filter_map o_def assms(6))
  ultimately show ?thesis by simp
qed

lemma reconcile_off:
  assumes "settled m n True ls" and "map_of MODES name = Some m" and "list_all ended ls"
    and old: "is_directive ''proto'' (ipv4_line m)"
  defines "ls' \<equiv> map (sub_proto (ipv4_line m)) ls"
  shows "\<exists>c. reconcile_lines m n False ls = Inr (if full_vpn m
      then filter (\<lambda>l. \<not> is_managed managed_redirect l) (filter (\<lambda>l. \<not> is_managed (managed_server n) l) ls')
      else filter (\<lambda>l. \<not> is_managed (managed_server n) l) ls', c)"
proof -
  note st = assms(1) [unfolded settled_def]
  let ?S = "managed_server n" and ?R = managed_redirect
  have "take 1 (directive_tokens (ipv4_line m)) = [''proto'']" using old by (simp add: is_directive_def)
  note new = first_token_other [OF this]
  have "length (filter (is_directive ''proto'') ls) = 1" using arg_cong [OF conjunct1 [OF st], of length] by simp
  then obtain p where p: "lines_where (is_directive ''proto'') ls = [p]" using lines_where_one by blast
  obtain s where s: "lines_where (is_directive ''server'') ls = [s]" using lines_where_one st by blast
  have same: "filter q ls' = filter q ls" if "\<And>l. q l \<Longrightarrow> \<not> is_directive ''proto'' l" "\<not> q (ipv4_line m)" for q
    unfolding ls'_def using that by (rule filter_sub_proto)
  have 1: "set_proto m False p ls = Inr (ls', 1)" unfolding ls'_def by (rule set_proto_back [OF assms(1-3) p])
  have "list_all (quiet_line False) ls'"
    using st new(2) [of False] by (auto simp: ls'_def list_all_iff sub_proto_def quiet_line_def)
  then have 2: "check_listener False ls' = Inr ()" by (simp add: check_listener_ok)
  have "filter (other_server_ipv6 ?S) ls' = []"
    using st same [of "other_server_ipv6 ?S"] new(3) managed_token(3) by (auto simp: is_directive_def)
  moreover have count: "length (filter (is_managed ?S) ls') = 1"
    using st same [of "is_managed ?S"] new(3) managed_token(1) by (auto simp: is_directive_def)
  ultimately obtain c2 where 3: "set_server ?S False s ls' = Inr (filter (\<lambda>l. \<not> is_managed ?S l) ls', c2)"
    by (simp add: set_server_def Let_def lines_where_length list_ex_filter)
  have R: "filter (is_managed ?R) (filter (\<lambda>l. \<not> is_managed ?S l) ls') = filter (is_managed ?R) ls"
  proof -
    have "filter (is_managed ?R) (filter (\<lambda>l. \<not> is_managed ?S l) ls') = filter (is_managed ?R) ls'"
      using first_token_other(3) [OF managed_token(2)] by (auto intro!: filter_cong)
    also have "\<dots> = filter (is_managed ?R) ls"
      using new(4) managed_token(2) by (intro same) (auto simp: is_directive_def)
    finally show ?thesis .
  qed
  obtain c3 where 4: "full_vpn m \<Longrightarrow> set_redirect False (filter (\<lambda>l. \<not> is_managed ?S l) ls')
      = Inr (filter (\<lambda>l. \<not> is_managed ?R l) (filter (\<lambda>l. \<not> is_managed ?S l) ls'), c3)"
    using st arg_cong [OF R, of length] by (cases "full_vpn m") (simp_all add: set_redirect_def Let_def lines_where_length)
  show ?thesis using 4 by (cases "full_vpn m") (simp_all add: reconcile_lines_def p s 1 2 3)
qed


section \<open>An example\<close>

definition ov6_example :: string where
  "ov6_example = ''mode server'' @ [LF] @ ''proto udp4'' @ [LF] @ ''server 10.28.0.0 255.255.252.0'' @ [LF]
     @ ''push '' @ CHR 0x22 # ''redirect-gateway def1 bypass-dhcp'' @ [CHR 0x22, LF]"

definition ov6_example_mode :: ov6_mode where
  "ov6_example_mode = \<lparr>subnet_id = 0x2800, ipv4_proto = ''udp4'', neutral_proto = ''udp'', ipv6_proto = ''udp6'', full_vpn = True\<rparr>"

definition ov6_example_net :: ipnet where
  "ov6_example_net = \<lparr>net_addr = V6 0xfd3ac9bc6bcb28000000000000000000 None, prefixlen = 64\<rparr>"

definition ov6_example_lines :: "string list" where
  "ov6_example_lines = [''mode server'' @ [LF], ''proto udp6'' @ [LF], ''server 10.28.0.0 255.255.252.0'' @ [LF],
     ''server-ipv6 fd3a:c9bc:6bcb:2800::/64'' @ [LF],
     ''push '' @ CHR 0x22 # ''redirect-gateway def1 bypass-dhcp'' @ [CHR 0x22, LF],
     ''push '' @ CHR 0x22 # ''redirect-gateway ipv6'' @ [CHR 0x22, LF]]"

lemma ov6_example_network: "ov6_network DEFAULT_PREFIX ov6_example_mode = Inr ov6_example_net"
proof -
  have "ip_interface DEFAULT_PREFIX = Some (V6 0xfd3ac9bc6bcb00000000000000000000 None, 48)" by code_simp
  then have base: "ov6_parse_prefix DEFAULT_PREFIX = Inr \<lparr>net_addr = V6 0xfd3ac9bc6bcb00000000000000000000 None, prefixlen = 48\<rparr>"
    by (simp add: ov6_parse_prefix_def ip_network_def to_network_def mask_int_def width_def
      net_version_def subnet_of_def ULA_def addr_le_def net_int_def broadcast_int_def num_addresses_def Let_def)
  have "subnet_at \<lparr>net_addr = V6 0xfd3ac9bc6bcb00000000000000000000 None, prefixlen = 48\<rparr> (subnet_id ov6_example_mode) 64 = ov6_example_net"
    by code_simp
  then show ?thesis by (simp add: ov6_network_def base)
qed

lemma ov6_example_runs:
  "map_of MODES ''vpn-udp'' = Some ov6_example_mode" "lf_text ov6_example"
  "reconcile_lines ov6_example_mode ov6_example_net True (splitlines_keep ov6_example) = Inr (ov6_example_lines, 3)"
  "ipv4_only ov6_example_mode ov6_example_net (splitlines_keep ov6_example)"
  by code_simp+

lemma ov6_example_migrates: "ov6_reconcile_text ov6_example DEFAULT_PREFIX ''vpn-udp'' True = Inr (concat ov6_example_lines, 3)"
  using ov6_example_runs(1,3) ov6_example_network by (simp add: ov6_reconcile_text_def optionR_def)

theorem ov6_reconciles_witness:
  "ov6_reconcile_text (concat ov6_example_lines) DEFAULT_PREFIX ''vpn-udp'' True = Inr (concat ov6_example_lines, 0)"
  using ov6_reconciles [OF ov6_example_migrates ov6_example_runs(2,1) ov6_example_network] by blast


text \<open>
  Two configurations the code does not handle: a last line without terminator is glued to the
  directive that is put behind it, and a foreign directive with a tab goes unnoticed.\<close>

lemma unterminated_server_glued:
  "map_sum id (\<lambda>r. concat (fst r)) (reconcile_lines (ov6_example_mode\<lparr>full_vpn := False\<rparr>) ov6_example_net True
     [''proto udp6'' @ [LF], ''server 10.28.0.0 255.255.252.0''])
   = Inr (''proto udp6'' @ LF # ''server 10.28.0.0 255.255.252.0server-ipv6 fd3a:c9bc:6bcb:2800::/64'' @ [LF])"
  by code_simp

lemma tabbed_server_unnoticed:
  "other_server_ipv6 (managed_server ov6_example_net) (''server-ipv6'' @ CHR 0x09 # ''2001:db8::/64'') = False"
  by code_simp

end
