(* ===== verification/RouteLimit.thy ===== *)
theory RouteLimit
  imports PyIpFacts PySort Complex_Main "HOL-Library.Product_Lexorder" "HOL-Library.While_Combinator"
begin

text \<open>
  The limit on the number of routes (\<^verbatim>\<open>core/services/cidr/route_limits.py\<close>): the lists of the networks
  of providers are normalised, freed of overlaps and trimmed, and the limit for all lists together is
  shared out between them; and the estimate the panel shows beforehand, a second copy of the
  distribution (\<^verbatim>\<open>_apply_total_route_limit_counts\<close> of \<^verbatim>\<open>cidr/db_pipeline.py\<close>). The package \<^verbatim>\<open>netaddr\<close>
  is a parameter. Loops are \<open>while_option\<close>, whose value \<open>None\<close> is a loop that does not end.
\<close>

section \<open>Normalised lists (cidr/parsers.py)\<close>

definition normalize_cidr :: "string \<Rightarrow> string option" where
  "normalize_cidr value =
     (let raw = strip value in
      if raw = [] then None
      else (case ip_network False raw of
              None \<Rightarrow> None
            | Some network \<Rightarrow>
                if net_version network \<noteq> 4 then None
                else if prefixlen network = 0 then None
                else Some (show_net network)))"

definition normalize_cidrs :: "string list \<Rightarrow> string list" where
  "normalize_cidrs values = sorted_set (List.map_filter normalize_cidr values)"

section \<open>One list (_compress_cidrs_to_limit)\<close>

text \<open>The classes and operators of \<^verbatim>\<open>netaddr\<close> that are used: \<^verbatim>\<open>IPNetwork(value)\<close> with \<open>None\<close> for the two
  exceptions that are caught, its fields, the operator \<^verbatim>\<open>in\<close> and \<^verbatim>\<open>str\<close>.\<close>

record 'n netaddr =
  na_network :: "string \<Rightarrow> 'n option"
  na_ip :: "'n \<Rightarrow> nat"
  na_prefixlen :: "'n \<Rightarrow> nat"
  na_within :: "'n \<Rightarrow> 'n \<Rightarrow> bool"
  na_show :: "'n \<Rightarrow> string"

datatype route_error = NetaddrMissing | NoAttributeIp

datatype strategy = SupernetCompaction | DeduplicateOverlaps | TrimToLimit

record compression =
  cm_strategy :: strategy
  cm_original :: nat
  cm_compressed :: nat
  cm_target :: nat
  cm_trimmed :: bool

definition add_network :: "'n netaddr \<Rightarrow> 'n list \<Rightarrow> 'n \<Rightarrow> 'n list" where
  "add_network na kept net =
     (if list_ex (\<lambda>other. na_within na net other) kept then kept
      else filter (\<lambda>n. \<not> na_within na n net) kept @ [net])"

definition non_redundant :: "'n netaddr \<Rightarrow> 'n list \<Rightarrow> 'n list" where
  "non_redundant na networks =
     foldl (add_network na) [] (sort_key (\<lambda>n. (na_ip na n, - int (na_prefixlen na n))) networks)"

definition deduplicated :: "'n netaddr \<Rightarrow> nat \<Rightarrow> 'n list \<Rightarrow> nat \<Rightarrow> string list \<times> compression option" where
  "deduplicated na original nets target =
     (let compressed = map (na_show na) (sort_key (\<lambda>n. (na_ip na n, na_prefixlen na n)) nets) in
      (compressed, Some \<lparr>cm_strategy = DeduplicateOverlaps, cm_original = original,
         cm_compressed = length compressed, cm_target = target, cm_trimmed = False\<rparr>))"

definition trimmed :: "'n netaddr \<Rightarrow> nat \<Rightarrow> 'n list \<Rightarrow> nat \<Rightarrow> string list \<times> compression option" where
  "trimmed na original nets target =
     (let compressed = map (na_show na) (take target (sort_key (\<lambda>n. (na_prefixlen na n, na_ip na n)) nets)) in
      (compressed, Some \<lparr>cm_strategy = TrimToLimit, cm_original = original,
         cm_compressed = length compressed, cm_target = target, cm_trimmed = True\<rparr>))"

definition compress_networks ::
  "'n netaddr \<Rightarrow> string list \<Rightarrow> 'n list \<Rightarrow> nat \<Rightarrow> string list \<times> compression option" where
  "compress_networks na normalized networks target =
     (let kept = non_redundant na networks; original = length normalized in
      if length kept < original then
        (if length kept \<le> target then deduplicated na original kept target
         else trimmed na original kept target)
      else if original \<le> target then (normalized, None)
      else trimmed na original kept target)"

text \<open>\<open>None\<close> for the package: the import fails. When \<^verbatim>\<open>IPNetwork\<close> refuses a value, the networks of
  \<^verbatim>\<open>ipaddress\<close> take over, which have no attribute \<^verbatim>\<open>ip\<close> to sort by.\<close>

definition compress_cidrs_to_limit ::
  "'n netaddr option \<Rightarrow> string list \<Rightarrow> int option
     \<Rightarrow> (route_error, string list \<times> compression option) result" where
  "compress_cidrs_to_limit package cidrs limit =
     (let normalized = normalize_cidrs cidrs in
      if normalized = [] then Inr ([], None)
      else if (case limit of None \<Rightarrow> True | Some l \<Rightarrow> l \<le> 0) then
        Inr ([], Some \<lparr>cm_strategy = SupernetCompaction, cm_original = length normalized,
          cm_compressed = 0, cm_target = 0, cm_trimmed = False\<rparr>)
      else (case package of
              None \<Rightarrow> Inl NetaddrMissing
            | Some na \<Rightarrow>
                (case read_all (na_network na) normalized of
                   None \<Rightarrow> Inl NoAttributeIp
                 | Some networks \<Rightarrow> Inr (compress_networks na normalized networks (nat (the limit))))))"

section \<open>Lists the panel gives precedence\<close>

definition ip_files :: "string list" where
  "ip_files = [''akamai-ips.txt'', ''amazon-ips.txt'', ''digitalocean-ips.txt'', ''google-ips.txt'',
     ''hetzner-ips.txt'', ''ovh-ips.txt'', ''cloudflare-ips.txt'', ''fastly-ips.txt'',
     ''azure-ips.txt'', ''oracle-ips.txt'', ''cdn77-ips.txt'', ''m247-ips.txt'']"

text \<open>The names come as nothing, as a text with commas or as a list.\<close>

datatype file_names = NoNames | NamesText string | NamesList "string list"

fun names_of :: "file_names \<Rightarrow> string list" where
  "names_of NoNames = []"
| "names_of (NamesText s) = map strip (split_on (CHR '','') s)"
| "names_of (NamesList ns) = ns"

definition keep_file :: "string list \<Rightarrow> string \<Rightarrow> string list" where
  "keep_file normalized item =
     (let file_name = strip item in
      if file_name = [] \<or> file_name \<in> set normalized then normalized
      else if file_name \<notin> set ip_files then normalized
      else normalized @ [file_name])"

definition normalize_dpi_priority_files :: "file_names \<Rightarrow> string list" where
  "normalize_dpi_priority_files values = foldl keep_file [] (names_of values)"

text \<open>The value as \<^verbatim>\<open>str\<close> gives it.\<close>

definition normalize_priority_min_budget :: "string \<Rightarrow> nat" where
  "normalize_priority_min_budget value =
     (case read_int (strip value) of None \<Rightarrow> 0 | Some parsed \<Rightarrow> if parsed \<le> 0 then 0 else nat parsed)"

section \<open>Division of integers to a float\<close>

text \<open>
  \<^verbatim>\<open>a / b\<close> on integers: the nearest number with 53 binary digits, ties to an even last digit. The
  value is exact as a rational number; results outside the range of exponents do not arise for lengths
  of lists.
\<close>

fun bit_length :: "nat \<Rightarrow> nat" where
  "bit_length n = (if n = 0 then 0 else Suc (bit_length (n div 2)))"

declare bit_length.simps [simp del]

definition round_half_even :: "nat \<Rightarrow> nat \<Rightarrow> nat" where
  "round_half_even a b =
     (let q = a div b; r = a mod b in
      if 2 * r < b \<or> (2 * r = b \<and> even q) then q else Suc q)"

definition float_div :: "nat \<Rightarrow> nat \<Rightarrow> rat" where
  "float_div a b =
     (if a = 0 then 0
      else
        let up = 53 + bit_length b - bit_length a;
            down = bit_length a - (53 + bit_length b);
            n = a * 2 ^ up; d = b * 2 ^ down
        in if d * 2 ^ 53 \<le> n
           then of_nat (round_half_even n (2 * d)) * 2 ^ (down + 1) / 2 ^ up
           else of_nat (round_half_even n d) * 2 ^ down / 2 ^ up)"

section \<open>Sharing out the limit\<close>

text \<open>
  The lists are known by their indices: \<open>cnt i\<close> is the length of list \<open>i\<close>, \<open>name i\<close> the name of its file,
  \<open>idx\<close> holds the indices of the lists that are not empty. The dictionary \<^verbatim>\<open>budgets\<close> has these keys, in
  this order, at all times: it is a function. A pair holds it with the sum kept beside it
  (\<^verbatim>\<open>reserved_total\<close>, \<^verbatim>\<open>allocated\<close>). \<open>sort_desc\<close> is \<^verbatim>\<open>sorted\<close> with \<^verbatim>\<open>reverse=True\<close>, which keeps the order of
  equal elements.
\<close>

type_synonym budgets = "nat \<Rightarrow> nat"

definition sort_desc :: "('a \<Rightarrow> 'b::linordered_idom) \<Rightarrow> 'a list \<Rightarrow> 'a list" where
  "sort_desc k xs = sort_key (\<lambda>x. - k x) xs"

definition by_count :: "(nat \<Rightarrow> nat) \<Rightarrow> nat list \<Rightarrow> nat list" where
  "by_count cnt is = sort_desc (\<lambda>i. int (cnt i)) is"

definition prioritized_indices ::
  "(nat \<Rightarrow> nat) \<Rightarrow> (nat \<Rightarrow> string) \<Rightarrow> nat list \<Rightarrow> string list \<Rightarrow> string list \<Rightarrow> nat \<Rightarrow> nat list" where
  "prioritized_indices cnt name idx mandatory priority min_budget =
     (let prioritized = by_count cnt idx in
      if mandatory \<noteq> [] then
        (let first = by_count cnt (filter (\<lambda>i. name i \<in> set mandatory) idx)
         in first @ filter (\<lambda>i. i \<notin> set first) prioritized)
      else if priority \<noteq> [] \<and> 0 < min_budget then
        (let first = filter (\<lambda>i. name i \<in> set priority) idx
         in first @ filter (\<lambda>i. i \<notin> set first) prioritized)
      else prioritized)"

definition one_each :: "nat \<Rightarrow> nat list \<Rightarrow> budgets" where
  "one_each limit prioritized = (\<lambda>i. if i \<in> set (take limit prioritized) then 1 else 0)"

definition reserve_mandatory ::
  "(nat \<Rightarrow> nat) \<Rightarrow> (nat \<Rightarrow> string) \<Rightarrow> string list \<Rightarrow> budgets \<times> nat \<Rightarrow> nat \<Rightarrow> budgets \<times> nat" where
  "reserve_mandatory cnt name mandatory s i =
     (case s of (b, reserved) \<Rightarrow>
        if name i \<notin> set mandatory then (b, reserved)
        else if cnt i = 0 then (b, reserved)
        else (b(i := max (b i) 1), reserved + 1))"

fun grant_one :: "nat \<Rightarrow> nat list \<Rightarrow> budgets \<times> nat \<Rightarrow> budgets \<times> nat" where
  "grant_one limit [] s = s"
| "grant_one limit (i # is) (b, allocated) =
     (if limit \<le> allocated then (b, allocated) else grant_one limit is (b(i := 1), allocated + 1))"

definition reset_to ::
  "nat \<Rightarrow> (nat \<Rightarrow> nat) \<Rightarrow> (nat \<Rightarrow> string) \<Rightarrow> nat list \<Rightarrow> string list \<Rightarrow> budgets \<times> nat" where
  "reset_to limit cnt name idx files =
     grant_one limit (by_count cnt (filter (\<lambda>i. name i \<in> set files) idx)) (\<lambda>_. 0, 0)"

definition reserve_priority ::
  "(nat \<Rightarrow> nat) \<Rightarrow> (nat \<Rightarrow> string) \<Rightarrow> string list \<Rightarrow> nat \<Rightarrow> budgets \<times> nat \<Rightarrow> nat \<Rightarrow> budgets \<times> nat" where
  "reserve_priority cnt name priority min_budget s i =
     (case s of (b, reserved_total) \<Rightarrow>
        if name i \<notin> set priority then (b, reserved_total)
        else let reserved = min (cnt i) min_budget; new_budget = max (b i) reserved
             in (b(i := new_budget), reserved_total + (new_budget - b i)))"

definition reserve ::
  "nat \<Rightarrow> (nat \<Rightarrow> nat) \<Rightarrow> (nat \<Rightarrow> string) \<Rightarrow> nat list \<Rightarrow> string list \<Rightarrow> string list \<Rightarrow> nat \<Rightarrow> budgets \<times> nat" where
  "reserve limit cnt name idx mandatory priority min_budget =
     (let s0 = (\<lambda>_. 0, 0);
          s1 = (if mandatory \<noteq> [] then foldl (reserve_mandatory cnt name mandatory) s0 idx else s0);
          s2 = (if limit < snd s1 then reset_to limit cnt name idx mandatory else s1);
          s3 = (if priority \<noteq> [] \<and> 0 < min_budget
                then foldl (reserve_priority cnt name priority min_budget) s2 idx else s2)
      in if limit < snd s3 then reset_to limit cnt name idx priority else s3)"

text \<open>The proportional shares: a list without room has the share \<open>0.0\<close>.\<close>

definition raw_share :: "(nat \<Rightarrow> nat) \<Rightarrow> nat \<Rightarrow> nat \<Rightarrow> nat \<Rightarrow> rat" where
  "raw_share room remaining capacity i =
     (if room i = 0 then 0 else float_div (room i * remaining) capacity)"

definition add_share :: "(nat \<Rightarrow> nat) \<Rightarrow> nat \<Rightarrow> nat \<Rightarrow> budgets \<Rightarrow> nat \<Rightarrow> budgets" where
  "add_share room remaining capacity b i =
     (if room i = 0 then b else b(i := b i + min (room i) (nat \<lfloor>raw_share room remaining capacity i\<rfloor>)))"

definition drain_while :: "nat \<Rightarrow> nat \<Rightarrow> budgets \<times> nat \<Rightarrow> (budgets \<times> nat) option" where
  "drain_while limit i =
     while_option (\<lambda>(b, allocated). 0 < b i \<and> limit < allocated)
       (\<lambda>(b, allocated). (b(i := b i - 1), allocated - 1))"

fun drain :: "nat \<Rightarrow> nat list \<Rightarrow> budgets \<times> nat \<Rightarrow> (budgets \<times> nat) option" where
  "drain limit [] s = Some s"
| "drain limit (i # is) s =
     (case drain_while limit i s of
        None \<Rightarrow> None
      | Some s' \<Rightarrow> if snd s' \<le> limit then Some s' else drain limit is s')"

definition hand_out_while ::
  "(nat \<Rightarrow> nat \<Rightarrow> bool) \<Rightarrow> nat \<Rightarrow> nat \<Rightarrow> budgets \<times> nat \<Rightarrow> (budgets \<times> nat) option" where
  "hand_out_while grows limit i =
     while_option (\<lambda>(b, allocated). grows i (b i) \<and> allocated < limit)
       (\<lambda>(b, allocated). (b(i := b i + 1), allocated + 1))"

fun hand_out ::
  "(nat \<Rightarrow> nat \<Rightarrow> bool) \<Rightarrow> nat \<Rightarrow> nat list \<Rightarrow> budgets \<times> nat \<Rightarrow> (budgets \<times> nat) option" where
  "hand_out grows limit [] s = Some s"
| "hand_out grows limit (i # is) s =
     (case hand_out_while grows limit i s of
        None \<Rightarrow> None
      | Some s' \<Rightarrow> if limit \<le> snd s' then Some s' else hand_out grows limit is s')"

text \<open>When a list takes one route more: the condition of the loop in \<^verbatim>\<open>route_limits.py\<close>, on integers.\<close>

definition has_room :: "(nat \<Rightarrow> nat) \<Rightarrow> (nat \<Rightarrow> nat) \<Rightarrow> nat \<Rightarrow> nat \<Rightarrow> bool" where
  "has_room cnt room i budget \<longleftrightarrow>
     budget < cnt i \<and> int budget - (int (cnt i) - int (room i)) < int (room i)"

definition share_out ::
  "((nat \<Rightarrow> nat) \<Rightarrow> nat \<Rightarrow> nat \<Rightarrow> bool) \<Rightarrow> nat \<Rightarrow> (nat \<Rightarrow> nat) \<Rightarrow> nat list \<Rightarrow> budgets \<times> nat \<Rightarrow> budgets option" where
  "share_out grows limit cnt idx s =
     (case s of (b, reserved_total) \<Rightarrow>
        let remaining = limit - reserved_total;
            room = (\<lambda>i. cnt i - b i);
            capacity = sum_list (map room idx)
        in if remaining = 0 \<or> capacity = 0 then Some b
           else
             let b1 = foldl (add_share room remaining capacity) b idx;
                 allocated = sum_list (map b1 idx);
                 share = raw_share room remaining capacity
             in (case (if limit < allocated
                       then drain limit (sort_desc (\<lambda>i. int (b1 i)) idx) (b1, allocated)
                       else Some (b1, allocated)) of
                   None \<Rightarrow> None
                 | Some (b2, allocated2) \<Rightarrow>
                     if allocated2 < limit
                     then map_option fst (hand_out (grows room) limit
                       (sort_desc (\<lambda>i. share i - of_int \<lfloor>share i\<rfloor>) idx) (b2, allocated2))
                     else Some b2))"

definition distribute ::
  "nat \<Rightarrow> (nat \<Rightarrow> nat) \<Rightarrow> (nat \<Rightarrow> string) \<Rightarrow> nat list \<Rightarrow> string list \<Rightarrow> string list \<Rightarrow> nat \<Rightarrow> budgets option" where
  "distribute limit cnt name idx mandatory priority min_budget =
     (if limit < length idx
      then Some (one_each limit (prioritized_indices cnt name idx mandatory priority min_budget))
      else share_out (has_room cnt) limit cnt idx
             (reserve limit cnt name idx mandatory priority min_budget))"

section \<open>All lists together (_apply_total_route_limit)\<close>

text \<open>
  The keys of an entry that the function reads or sets; the other keys, kept by \<^verbatim>\<open>dict(entry)\<close>, are the
  further fields of the record. The budget of an empty list is 0 in all of the above, which is also
  its length, the default of \<^verbatim>\<open>budgets.get\<close>.
\<close>

record route_entry =
  en_file :: string
  en_cidrs :: "string list"
  en_optimization :: "compression option"

record file_report =
  fr_file :: string
  fr_original :: nat
  fr_compressed :: nat
  fr_budget :: nat
  fr_priority :: bool
  fr_mandatory :: bool

record limit_report =
  lr_limit :: nat
  lr_enforced :: bool
  lr_original :: nat
  lr_compressed :: nat
  lr_files :: "file_report list"
  lr_mandatory :: "(string list \<times> string list) option"
  lr_warning :: bool
  lr_priority :: "(string list \<times> nat) option"

definition total_cidrs :: "'a route_entry_scheme list \<Rightarrow> nat" where
  "total_cidrs entries = sum_list (map (\<lambda>e. length (en_cidrs e)) entries)"

definition adjust_entry ::
  "'n netaddr option \<Rightarrow> string list \<Rightarrow> string list \<Rightarrow> budgets \<Rightarrow> nat \<times> 'a route_entry_scheme
     \<Rightarrow> (route_error, 'a route_entry_scheme \<times> file_report) result" where
  "adjust_entry package mandatory priority budget x =
     (case x of (i, entry) \<Rightarrow>
        bindR (compress_cidrs_to_limit package (en_cidrs entry) (Some (int (budget i)))) (\<lambda>(cidrs, meta).
          let item = entry\<lparr>en_cidrs := cidrs\<rparr>;
              item' = (case meta of
                         None \<Rightarrow> item
                       | Some m \<Rightarrow> if cm_compressed m < cm_original m then item\<lparr>en_optimization := meta\<rparr>
                                  else item)
          in Inr (item', \<lparr>fr_file = en_file entry, fr_original = length (en_cidrs entry),
               fr_compressed = length cidrs, fr_budget = budget i,
               fr_priority = en_file entry \<in> set priority,
               fr_mandatory = en_file entry \<in> set mandatory\<rparr>)))"

definition dropped_files :: "string list \<Rightarrow> string list \<Rightarrow> string list" where
  "dropped_files mandatory present = sorted_set (filter (\<lambda>f. f \<notin> set present) mandatory)"

definition report ::
  "nat \<Rightarrow> nat \<Rightarrow> nat \<Rightarrow> file_report list \<Rightarrow> string list \<Rightarrow> string list \<Rightarrow> (string list \<times> nat) option \<Rightarrow> limit_report" where
  "report limit original compressed files mandatory present priority =
     (let dropped = dropped_files mandatory present in
      \<lparr>lr_limit = limit, lr_enforced = True, lr_original = original, lr_compressed = compressed,
       lr_files = files,
       lr_mandatory = (if mandatory \<noteq> [] then Some (sorted_set mandatory, dropped) else None),
       lr_warning = (mandatory \<noteq> [] \<and> dropped \<noteq> []),
       lr_priority = priority\<rparr>)"

definition unlimited_report :: "nat \<Rightarrow> nat \<Rightarrow> limit_report" where
  "unlimited_report limit original =
     \<lparr>lr_limit = limit, lr_enforced = False, lr_original = original, lr_compressed = original,
      lr_files = [], lr_mandatory = None, lr_warning = False, lr_priority = None\<rparr>"

text \<open>The section on priorities is missing from the report when there are more lists than routes.\<close>

definition priority_section :: "nat \<Rightarrow> nat list \<Rightarrow> string list \<Rightarrow> nat \<Rightarrow> (string list \<times> nat) option" where
  "priority_section limit idx priority min_budget =
     (if limit < length idx then None
      else if priority \<noteq> [] \<and> 0 < min_budget then Some (sorted_set priority, min_budget) else None)"

definition nth_or :: "'a \<Rightarrow> 'a list \<Rightarrow> nat \<Rightarrow> 'a" where
  "nth_or d xs i = (if i < length xs then xs ! i else d)"

definition non_empty_indices :: "'a route_entry_scheme list \<Rightarrow> nat list" where
  "non_empty_indices entries = filter (\<lambda>i. en_cidrs (entries ! i) \<noteq> []) [0 ..< length entries]"

definition limit_entries ::
  "'n netaddr option \<Rightarrow> 'a route_entry_scheme list \<Rightarrow> nat \<Rightarrow> string list \<Rightarrow> string list \<Rightarrow> nat
     \<Rightarrow> (route_error, 'a route_entry_scheme list \<times> limit_report option) result option" where
  "limit_entries package entries limit mandatory priority min_budget =
     (let idx = non_empty_indices entries in
      map_option (\<lambda>budgets.
        bindR (traverseR (adjust_entry package mandatory priority budgets) (List.enumerate 0 entries)) (\<lambda>rs.
          let adjusted = map fst rs;
              present = map en_file (filter (\<lambda>e. en_file e \<in> set mandatory \<and> en_cidrs e \<noteq> []) adjusted)
          in Inr (adjusted, Some (report limit (total_cidrs entries) (total_cidrs adjusted) (map snd rs)
               mandatory present (priority_section limit idx priority min_budget)))))
        (distribute limit (nth_or 0 (map (\<lambda>e. length (en_cidrs e)) entries)) (nth_or [] (map en_file entries)) idx
           mandatory priority min_budget))"

text \<open>
  \<open>enforced\<close> is the setting \<^verbatim>\<open>is_game_filter_config_route_limit_enforced\<close>, true when reading it fails.
  The outer \<open>None\<close> is a call that does not return.
\<close>

definition apply_total_route_limit ::
  "'n netaddr option \<Rightarrow> bool \<Rightarrow> 'a route_entry_scheme list \<Rightarrow> int option \<Rightarrow> file_names \<Rightarrow> file_names \<Rightarrow> string
     \<Rightarrow> (route_error, 'a route_entry_scheme list \<times> limit_report option) result option" where
  "apply_total_route_limit package enforced entries total_limit dpi_priority dpi_mandatory dpi_min_budget =
     (if entries = [] then Some (Inr (entries, None))
      else if (case total_limit of None \<Rightarrow> True | Some l \<Rightarrow> l \<le> 0) then Some (Inr (entries, None))
      else
        let limit = nat (the total_limit); original = total_cidrs entries in
        if \<not> enforced then Some (Inr (entries, Some (unlimited_report limit original)))
        else if original \<le> limit then Some (Inr (entries, None))
        else if non_empty_indices entries = [] then Some (Inr (entries, None))
        else
          let mandatory = normalize_dpi_priority_files dpi_mandatory;
              priority = normalize_dpi_priority_files dpi_priority @ mandatory
          in limit_entries package entries limit mandatory priority
               (normalize_priority_min_budget dpi_min_budget))"

section \<open>The estimate (cidr/db_pipeline.py)\<close>

text \<open>
  The same distribution on a dictionary from names to counts. Its text differs in the reservation for
  mandatory files, which no longer looks at the count, in the last loop, and in what becomes of the
  budgets: the count is cut off at them.
\<close>

definition estimate_reserve_mandatory ::
  "(nat \<Rightarrow> string) \<Rightarrow> string list \<Rightarrow> budgets \<times> nat \<Rightarrow> nat \<Rightarrow> budgets \<times> nat" where
  "estimate_reserve_mandatory name mandatory s i =
     (case s of (b, reserved) \<Rightarrow>
        if name i \<notin> set mandatory then (b, reserved) else (b(i := max (b i) 1), reserved + 1))"

definition estimate_reserve ::
  "nat \<Rightarrow> (nat \<Rightarrow> nat) \<Rightarrow> (nat \<Rightarrow> string) \<Rightarrow> nat list \<Rightarrow> string list \<Rightarrow> string list \<Rightarrow> nat \<Rightarrow> budgets \<times> nat" where
  "estimate_reserve limit cnt name idx mandatory priority min_budget =
     (let s0 = (\<lambda>_. 0, 0);
          s1 = (if mandatory \<noteq> [] then foldl (estimate_reserve_mandatory name mandatory) s0 idx else s0);
          s2 = (if limit < snd s1 then reset_to limit cnt name idx mandatory else s1);
          s3 = (if priority \<noteq> [] \<and> 0 < min_budget
                then foldl (reserve_priority cnt name priority min_budget) s2 idx else s2)
      in if limit < snd s3 then reset_to limit cnt name idx priority else s3)"

definition estimate_distribute ::
  "nat \<Rightarrow> (nat \<Rightarrow> nat) \<Rightarrow> (nat \<Rightarrow> string) \<Rightarrow> nat list \<Rightarrow> string list \<Rightarrow> string list \<Rightarrow> nat \<Rightarrow> budgets option" where
  "estimate_distribute limit cnt name idx mandatory priority min_budget =
     (if limit < length idx
      then Some (one_each limit (prioritized_indices cnt name idx mandatory priority min_budget))
      else share_out (\<lambda>room i budget. budget < cnt i) limit cnt idx
             (estimate_reserve limit cnt name idx mandatory priority min_budget))"

definition estimate_file ::
  "string list \<Rightarrow> string list \<Rightarrow> (nat \<Rightarrow> nat) \<Rightarrow> nat list \<Rightarrow> budgets \<Rightarrow> nat \<times> string \<Rightarrow> (string \<times> nat) \<times> file_report" where
  "estimate_file mandatory priority cnt idx budgets x =
     (case x of (i, file_name) \<Rightarrow>
        let target = (if i \<in> set idx then budgets i else cnt i);
            compressed = min (cnt i) target
        in ((file_name, compressed),
            \<lparr>fr_file = file_name, fr_original = cnt i, fr_compressed = compressed, fr_budget = target,
             fr_priority = file_name \<in> set priority, fr_mandatory = file_name \<in> set mandatory\<rparr>))"

definition apply_total_route_limit_counts ::
  "bool \<Rightarrow> (string \<times> nat) list \<Rightarrow> int option \<Rightarrow> int option \<Rightarrow> file_names \<Rightarrow> file_names \<Rightarrow> string
     \<Rightarrow> ((string \<times> nat) list \<times> limit_report option) option" where
  "apply_total_route_limit_counts enforced counts_by_file total_cidr_limit configured_limit
     dpi_priority dpi_mandatory dpi_min_budget =
     (let route_limit = (case total_cidr_limit of
            Some l \<Rightarrow> if 0 < l then Some l else configured_limit | None \<Rightarrow> configured_limit)
      in if (case route_limit of None \<Rightarrow> True | Some l \<Rightarrow> l \<le> 0) then Some (counts_by_file, None)
      else
        let limit = nat (the route_limit); original = sum_list (map snd counts_by_file);
            cnt = nth_or 0 (map snd counts_by_file); name = nth_or [] (map fst counts_by_file);
            idx = filter (\<lambda>i. 0 < cnt i) [0 ..< length counts_by_file] in
        if \<not> enforced then Some (counts_by_file, Some (unlimited_report limit original))
        else if original \<le> limit then Some (counts_by_file, None)
        else if idx = [] then Some (counts_by_file, None)
        else
          let mandatory = normalize_dpi_priority_files dpi_mandatory;
              priority = normalize_dpi_priority_files dpi_priority @ mandatory;
              min_budget = normalize_priority_min_budget dpi_min_budget
          in map_option (\<lambda>budgets.
               let rs = map (estimate_file mandatory priority cnt idx budgets)
                          (List.enumerate 0 (map fst counts_by_file));
                   result = map fst rs;
                   present = map fst (filter (\<lambda>(f, n). f \<in> set mandatory \<and> 0 < n) result)
               in (result, Some (report limit original (sum_list (map snd result)) (map snd rs)
                    mandatory present
                    (if priority \<noteq> [] \<and> 0 < min_budget then Some (sorted_set priority, min_budget) else None))))
               (estimate_distribute limit cnt name idx mandatory priority min_budget))"

end
