(* ===== verification/RouteLimitFacts.thy ===== *)
theory RouteLimitFacts
  imports RouteLimit
begin

text \<open>
  Facts on the distribution of the limit: the loops end with the values one expects, division of
  lengths rounds down as the exact quotient does, and the budgets add up to the limit.
\<close>

section \<open>Division of integers to a float\<close>

lemma bit_length_bounds: "0 < n \<Longrightarrow> 2 ^ (bit_length n - 1) \<le> n \<and> n < 2 ^ bit_length n \<and> 0 < bit_length n"
proof (induction n rule: bit_length.induct)
  case (1 n)
  show ?case
  proof (cases "n div 2 = 0")
    case True
    with 1 have "n = 1" by auto
    then show ?thesis by (simp add: bit_length.simps [of "Suc 0"] bit_length.simps [of 0])
  next
    case False
    with 1 have IH: "2 ^ (bit_length (n div 2) - 1) \<le> n div 2" "n div 2 < 2 ^ bit_length (n div 2)"
      "0 < bit_length (n div 2)" by auto
    then obtain k where k: "bit_length (n div 2) = Suc k" by (cases "bit_length (n div 2)") auto
    with IH have "2 ^ k \<le> n div 2" "n div 2 < 2 * 2 ^ k" by simp_all
    then have "2 * 2 ^ k \<le> n" "n < 2 * (2 * 2 ^ k)" by linarith+
    then show ?thesis using 1 k by (simp add: bit_length.simps [of n])
  qed
qed

lemma bit_length_mono: "n < 2 ^ k \<Longrightarrow> bit_length n \<le> k"
proof (rule ccontr)
  assume n: "n < 2 ^ k" and "\<not> bit_length n \<le> k"
  then have k: "k \<le> bit_length n - 1" and "0 < bit_length n" by auto
  then have "0 < n" by (cases "n = 0") (simp_all add: bit_length.simps [of 0])
  then have "2 ^ (bit_length n - 1) \<le> n" using bit_length_bounds by blast
  moreover have "(2::nat) ^ k \<le> 2 ^ (bit_length n - 1)" using k by (rule power_increasing) simp
  ultimately show False using n by (meson leD order_trans)
qed

lemma round_half_even_bounds:
  assumes "0 < d"
  shows "n div d \<le> round_half_even n d" and "2 * d * round_half_even n d \<le> 2 * n + d"
proof -
  show "n div d \<le> round_half_even n d" by (simp add: round_half_even_def Let_def)
  have n: "d * (n div d) + n mod d = n" by simp
  show "2 * d * round_half_even n d \<le> 2 * n + d"
  proof (cases "2 * (n mod d) < d \<or> 2 * (n mod d) = d \<and> even (n div d)")
    case True
    then have "round_half_even n d = n div d" by (simp add: round_half_even_def Let_def)
    then show ?thesis using n by (metis add.commute le_add1 le_add2 mult.assoc mult_le_mono2 order_trans)
  next
    case False
    then have m: "round_half_even n d = Suc (n div d)" and r: "d \<le> 2 * (n mod d)"
      by (auto simp add: round_half_even_def Let_def)
    have "2 * d * round_half_even n d = 2 * (d * (n div d)) + 2 * d" by (simp add: m)
    then show ?thesis using n r by linarith
  qed
qed

text \<open>The core of the rounding: when the last digit is finer than the denominator, nothing crosses an integer.\<close>

lemma round_scaled_div:
  fixes a b s u :: nat
  assumes b: "0 < b" and u: "0 < u" "b * u < 2 * s" and v: "u dvd s"
  shows "u * round_half_even (a * s) (b * u) div s = a div b"
proof (rule div_nat_eqI)
  let ?m = "round_half_even (a * s) (b * u)"
  let ?q = "a div b"
  have d: "0 < b * u" using b u by simp
  from v obtain w where w: "s = u * w" by blast
  have "?q * w * (b * u) = s * (b * ?q)" by (simp add: w)
  also have "\<dots> \<le> s * a" using times_div_less_eq_dividend [of b a] by (rule mult_le_mono2)
  finally have "?q * w * (b * u) \<le> a * s" by (simp only: mult.commute)
  then have "?q * w \<le> a * s div (b * u)" using d by (simp add: less_eq_div_iff_mult_less_eq)
  then have "?q * w \<le> ?m" using round_half_even_bounds(1) [OF d] by (rule order_trans)
  then have "u * (?q * w) \<le> u * ?m" by (rule mult_le_mono2)
  moreover have "s * ?q = u * (?q * w)" by (simp add: w)
  ultimately show "s * ?q \<le> u * ?m" by (simp only:)
  show "u * ?m < s * Suc ?q"
  proof (rule ccontr)
    assume "\<not> u * ?m < s * Suc ?q"
    then have "s * Suc ?q \<le> u * ?m" by simp
    then have "2 * b * (s * Suc ?q) \<le> 2 * b * (u * ?m)" by (rule mult_le_mono2)
    moreover have "2 * b * (u * ?m) \<le> 2 * (a * s) + b * u"
      using round_half_even_bounds(2) [OF d, of "a * s"] by (simp add: mult.assoc)
    moreover have "Suc a \<le> b * Suc ?q"
      using dividend_less_div_times [OF b, of a] by (simp add: mult.commute)
    then have "2 * s * Suc a \<le> 2 * s * (b * Suc ?q)" by (rule mult_le_mono2)
    then have "2 * (a * s) + 2 * s \<le> 2 * b * (s * Suc ?q)" by (simp add: algebra_simps)
    ultimately show False using u by linarith
  qed
qed

lemma float_div_floor:
  assumes a: "a < 2 ^ 53" and b: "0 < b"
  shows "\<lfloor>float_div a b\<rfloor> = int (a div b)"
proof (cases "a = 0")
  case True
  then show ?thesis by (simp add: float_div_def)
next
  case False
  let ?up = "53 + bit_length b - bit_length a"
  have la: "bit_length a \<le> 53" using bit_length_mono [OF a] .
  have lb: "b < 2 ^ bit_length b" "0 < bit_length b" using bit_length_bounds [OF b] by blast+
  have up: "bit_length b \<le> ?up" "0 < ?up" using la lb(2) by linarith+
  have s: "b < 2 ^ ?up" by (rule less_le_trans [OF lb(1) power_increasing [OF up(1)]]) simp
  have down: "bit_length a - (53 + bit_length b) = 0" using la by simp
  have core: "\<lfloor>of_nat m * of_nat u / (2 ^ k :: rat)\<rfloor> = int (u * m div 2 ^ k)" for m u k
    using floor_divide_of_nat_eq [where 'a = rat, of "u * m" "2 ^ k"] by (simp add: mult.commute)
  have even: "2 dvd (2::nat) ^ ?up" using up(2) by simp
  show ?thesis
  proof (cases "b * 2 ^ 53 \<le> a * 2 ^ ?up")
    case True
    have "\<lfloor>float_div a b\<rfloor> = \<lfloor>of_nat (round_half_even (a * 2 ^ ?up) (b * 2)) * of_nat 2 / (2 ^ ?up :: rat)\<rfloor>"
      using True False by (simp add: float_div_def Let_def down mult.commute)
    also have "\<dots> = int (a div b)"
      unfolding core using round_scaled_div [OF b _ _ even, of a] s by simp
    finally show ?thesis .
  next
    case lower: False
    have "\<lfloor>float_div a b\<rfloor> = \<lfloor>of_nat (round_half_even (a * 2 ^ ?up) (b * 1)) * of_nat 1 / (2 ^ ?up :: rat)\<rfloor>"
      using lower False by (simp add: float_div_def Let_def down)
    also have "\<dots> = int (a div b)"
      unfolding core using round_scaled_div [OF b _ _ one_dvd, of "2 ^ ?up" a] s by simp
    finally show ?thesis .
  qed
qed

lemma float_div_nonneg: "0 \<le> float_div a b"
  by (simp add: float_div_def Let_def)

section \<open>The loops end\<close>

lemma drain_while_result:
  "drain_while limit i (b, a) = Some (b(i := b i - min (b i) (a - limit)), a - min (b i) (a - limit))"
proof (induction "min (b i) (a - limit)" arbitrary: b a)
  case 0
  then have "\<not> (0 < b i \<and> limit < a)" by auto
  then show ?case using 0 by (auto simp add: drain_while_def while_option_unfold)
next
  case (Suc k)
  then have go: "0 < b i" "limit < a" by auto
  let ?b = "b(i := b i - 1)"
  have k: "k = min (?b i) (a - 1 - limit)" using Suc.hyps(2) by auto
  have IH: "drain_while limit i (?b, a - 1) = Some (?b(i := ?b i - k), a - 1 - k)"
    using Suc.hyps(1) [of ?b "a - 1", OF k] unfolding k [symmetric] .
  have "drain_while limit i (b, a) = drain_while limit i (?b, a - 1)"
    using go unfolding drain_while_def by (subst while_option_unfold) simp
  then show ?case unfolding IH Suc.hyps(2) [symmetric] by simp
qed

lemma hand_out_while_result:
  assumes "\<And>n. b i \<le> n \<Longrightarrow> grows i n \<longleftrightarrow> n < c"
  shows "hand_out_while grows limit i (b, a)
    = Some (b(i := b i + min (c - b i) (limit - a)), a + min (c - b i) (limit - a))"
  using assms
proof (induction "min (c - b i) (limit - a)" arbitrary: b a)
  case 0
  have "\<not> (grows i (b i) \<and> a < limit)" using 0(1) 0(2) [of "b i"] by auto
  then show ?case using 0 by (auto simp add: hand_out_while_def while_option_unfold)
next
  case (Suc k)
  then have go: "b i < c" "a < limit" by auto
  let ?b = "b(i := b i + 1)"
  have k: "k = min (c - ?b i) (limit - (a + 1))" using Suc.hyps(2) by auto
  have prem: "?b i \<le> n \<Longrightarrow> grows i n \<longleftrightarrow> n < c" for n using Suc.prems [of n] by simp
  have IH: "hand_out_while grows limit i (?b, a + 1) = Some (?b(i := ?b i + k), a + 1 + k)"
    using Suc.hyps(1) [of ?b "a + 1", OF k prem] unfolding k [symmetric] .
  have "hand_out_while grows limit i (b, a) = hand_out_while grows limit i (?b, a + 1)"
    using go Suc.prems [of "b i"] unfolding hand_out_while_def by (subst while_option_unfold) simp
  then show ?case unfolding IH Suc.hyps(2) [symmetric] by simp
qed

abbreviation sum_on :: "(nat \<Rightarrow> nat) \<Rightarrow> nat list \<Rightarrow> nat" where
  "sum_on b is \<equiv> sum_list (map b is)"

lemma sum_on_outside: "i \<notin> set is \<Longrightarrow> sum_on (b(i := n)) is = sum_on b is"
  by (induction "is") auto

lemma drain_result:
  assumes "distinct is" and "limit \<le> a" and "a \<le> limit + sum_on b is" and "is = [] \<longrightarrow> a = limit"
  shows "\<exists>b'. drain limit is (b, a) = Some (b', limit) \<and> (\<forall>i. b' i \<le> b i) \<and> (\<forall>i. i \<notin> set is \<longrightarrow> b' i = b i)
    \<and> sum_on b' is + (a - limit) = sum_on b is"
  using assms
proof (induction "is" arbitrary: b a)
  case Nil
  then show ?case by simp
next
  case (Cons i "is")
  let ?k = "min (b i) (a - limit)"
  let ?b = "b(i := b i - ?k)"
  have out: "i \<notin> set is" using Cons.prems(1) by simp
  show ?case
  proof (cases "a - ?k \<le> limit")
    case True
    then have "a - ?k = limit" using Cons.prems(2) by auto
    moreover have "sum_on ?b (i # is) + (a - limit) = sum_on b (i # is)"
      using True Cons.prems(2) by (simp add: sum_on_outside [OF out])
    moreover have "drain limit (i # is) (b, a) = Some (?b, a - ?k)"
      using True Cons.prems(2) by (auto simp add: drain_while_result)
    moreover have "\<forall>j. ?b j \<le> b j" "\<forall>j. j \<notin> set (i # is) \<longrightarrow> ?b j = b j" by simp_all
    ultimately show ?thesis by metis
  next
    case False
    then have k: "?k = b i" by auto
    have "\<exists>b'. drain limit is (?b, a - ?k) = Some (b', limit) \<and> (\<forall>j. b' j \<le> ?b j)
      \<and> (\<forall>j. j \<notin> set is \<longrightarrow> b' j = ?b j) \<and> sum_on b' is + (a - ?k - limit) = sum_on ?b is"
    proof (rule Cons.IH)
      show "distinct is" using Cons.prems(1) by simp
      show "limit \<le> a - ?k" using False by simp
      show "a - ?k \<le> limit + sum_on ?b is" using Cons.prems(3) k by (simp add: sum_on_outside [OF out])
      then show "is = [] \<longrightarrow> a - ?k = limit" using False by auto
    qed
    then obtain b' where b': "drain limit is (?b, a - ?k) = Some (b', limit)" "\<forall>j. b' j \<le> ?b j"
      "\<forall>j. j \<notin> set is \<longrightarrow> b' j = ?b j" "sum_on b' is + (a - ?k - limit) = sum_on ?b is" by blast
    have "sum_on b' (i # is) + (a - limit) = sum_on b (i # is)"
      using b'(4) k out b'(3) False by (simp add: sum_on_outside [OF out])
    moreover have "b' j \<le> b j" for j using b'(2) [rule_format, of j] by (cases "j = i") auto
    moreover have "drain limit (i # is) (b, a) = Some (b', limit)"
      using False b'(1) by (simp only: drain.simps drain_while_result option.simps snd_conv if_False)
    ultimately show ?thesis using b'(3) by (intro exI [of _ b']) auto
  qed
qed

lemma hand_out_result:
  assumes "distinct is" and "a \<le> limit" and "limit \<le> a + sum_on (\<lambda>i. c i - b i) is"
    and "\<And>i n. i \<in> set is \<Longrightarrow> b i \<le> n \<Longrightarrow> grows i n \<longleftrightarrow> n < c i"
  shows "\<exists>b'. hand_out grows limit is (b, a) = Some (b', limit) \<and> (\<forall>i. b i \<le> b' i)
    \<and> (\<forall>i. i \<notin> set is \<longrightarrow> b' i = b i) \<and> (\<forall>i \<in> set is. b' i \<le> max (b i) (c i))
    \<and> sum_on b' is = sum_on b is + (limit - a)"
  using assms
proof (induction "is" arbitrary: b a)
  case Nil
  then show ?case by simp
next
  case (Cons i "is")
  let ?k = "min (c i - b i) (limit - a)"
  let ?b = "b(i := b i + ?k)"
  have out: "i \<notin> set is" using Cons.prems(1) by simp
  have step: "hand_out_while grows limit i (b, a) = Some (?b, a + ?k)"
    using Cons.prems(4) by (intro hand_out_while_result) simp
  show ?case
  proof (cases "limit \<le> a + ?k")
    case True
    then have k: "?k = limit - a" by auto
    then have "a + ?k = limit" using Cons.prems(2) by auto
    then have "hand_out grows limit (i # is) (b, a) = Some (?b, limit)" by (simp add: step)
    moreover have "sum_on ?b (i # is) = sum_on b (i # is) + (limit - a)"
      using k by (simp add: sum_on_outside [OF out])
    moreover have "\<forall>j \<in> set (i # is). ?b j \<le> max (b j) (c j)" by auto
    moreover have "\<forall>j. b j \<le> ?b j" "\<forall>j. j \<notin> set (i # is) \<longrightarrow> ?b j = b j" by simp_all
    ultimately show ?thesis by blast
  next
    case False
    then have k: "?k = c i - b i" by auto
    have others: "map (\<lambda>j. c j - ?b j) is = map (\<lambda>j. c j - b j) is" using out by auto
    have "\<exists>b'. hand_out grows limit is (?b, a + ?k) = Some (b', limit) \<and> (\<forall>j. ?b j \<le> b' j)
      \<and> (\<forall>j. j \<notin> set is \<longrightarrow> b' j = ?b j) \<and> (\<forall>j \<in> set is. b' j \<le> max (?b j) (c j))
      \<and> sum_on b' is = sum_on ?b is + (limit - (a + ?k))"
    proof (rule Cons.IH)
      show "limit \<le> a + ?k + sum_on (\<lambda>j. c j - ?b j) is" unfolding others using Cons.prems(3) k by simp
      show "grows j n \<longleftrightarrow> n < c j" if "j \<in> set is" "?b j \<le> n" for j n
        using Cons.prems(4) [of j n] that out by (auto split: if_splits)
    qed (use Cons.prems False in auto)
    then obtain b' where b': "hand_out grows limit is (?b, a + ?k) = Some (b', limit)" "\<forall>j. ?b j \<le> b' j"
      "\<forall>j. j \<notin> set is \<longrightarrow> b' j = ?b j" "\<forall>j \<in> set is. b' j \<le> max (?b j) (c j)"
      "sum_on b' is = sum_on ?b is + (limit - (a + ?k))" by blast
    have at_i: "b' i = b i + ?k" using b'(3) out by simp
    have "sum_on b' (i # is) = sum_on b (i # is) + (limit - a)"
      using b'(5) at_i False by (simp add: sum_on_outside [OF out])
    moreover have "b j \<le> b' j" for j using b'(2) [rule_format, of j] by (cases "j = i") auto
    moreover have "b' j \<le> max (b j) (c j)" if "j \<in> set (i # is)" for j
      using b'(4) at_i that out by (cases "j = i") auto
    moreover have "hand_out grows limit (i # is) (b, a) = Some (b', limit)"
      using False b'(1) by (simp add: step)
    ultimately show ?thesis using b'(3) by (intro exI [of _ b']) auto
  qed
qed

section \<open>The shares add up to the limit\<close>

definition budgets_ok :: "(nat \<Rightarrow> nat) \<Rightarrow> nat list \<Rightarrow> budgets \<times> nat \<Rightarrow> bool" where
  "budgets_ok cnt idx s \<longleftrightarrow> (\<forall>i \<in> set idx. fst s i \<le> cnt i) \<and> (\<forall>i. i \<notin> set idx \<longrightarrow> fst s i = 0)
     \<and> snd s = sum_on (fst s) idx"

definition extra_share :: "(nat \<Rightarrow> nat) \<Rightarrow> nat \<Rightarrow> nat \<Rightarrow> nat \<Rightarrow> nat" where
  "extra_share room remaining capacity i = min (room i) (nat \<lfloor>raw_share room remaining capacity i\<rfloor>)"

lemma add_share_extra:
  "add_share room remaining capacity b i = b(i := b i + extra_share room remaining capacity i)"
  by (simp add: add_share_def extra_share_def)

lemma foldl_extra:
  "distinct is \<Longrightarrow> foldl (add_share room remaining capacity) b is
     = (\<lambda>i. b i + (if i \<in> set is then extra_share room remaining capacity i else 0))"
  by (induction "is" arbitrary: b) (auto simp add: add_share_extra fun_eq_iff)

lemma sum_on_add: "sum_on (\<lambda>i. f i + g i) is = sum_on f is + sum_on g is"
  by (induction "is") auto

lemma sum_on_minus: "(\<And>i. i \<in> set is \<Longrightarrow> g i \<le> f i) \<Longrightarrow> sum_on (\<lambda>i. f i - g i) is + sum_on g is = sum_on f is"
proof (induction "is")
  case (Cons i "is")
  then have "g i \<le> f i" "sum_on (\<lambda>i. f i - g i) is + sum_on g is = sum_on f is" by simp_all
  then show ?case by simp
qed simp

lemma sum_on_mono: "(\<And>i. i \<in> set is \<Longrightarrow> f i \<le> g i) \<Longrightarrow> sum_on f is \<le> sum_on g is"
  by (induction "is") (auto simp add: add_mono)

lemma sum_on_mult: "sum_on (\<lambda>i. f i * n) is = sum_on f is * n"
  by (induction "is") (auto simp add: algebra_simps)

lemma member_le_sum_on: "i \<in> set is \<Longrightarrow> f i \<le> sum_on f is"
  by (induction "is") auto

lemma sum_on_sort: "distinct is \<Longrightarrow> sum_on f (sort_desc k is) = sum_on f is"
  by (simp add: sort_desc_def sum_list_distinct_conv_sum_set)

lemma proportional_shares:
  assumes "0 < sum_on room is"
  shows "sum_on (\<lambda>i. room i * n div sum_on room is) is \<le> n"
proof -
  let ?t = "sum_on room is"
  have "sum_on (\<lambda>i. room i * n div ?t) is * ?t = sum_on (\<lambda>i. (room i * n div ?t) * ?t) is"
    by (simp only: sum_on_mult)
  also have "\<dots> \<le> sum_on (\<lambda>i. room i * n) is" by (rule sum_on_mono) simp
  also have "\<dots> = n * ?t" unfolding sum_on_mult by (rule mult.commute)
  finally show ?thesis using assms by simp
qed

lemma extra_share_sum:
  assumes "0 < sum_on room is" and "sum_on room is * n < 2 ^ 53"
  shows "sum_on (extra_share room n (sum_on room is)) is \<le> n"
proof -
  have "extra_share room n (sum_on room is) i \<le> room i * n div sum_on room is" if i: "i \<in> set is" for i
  proof -
    have "room i * n \<le> sum_on room is * n" using member_le_sum_on [OF i] by simp
    then have "room i * n < 2 ^ 53" using assms(2) by (rule le_less_trans)
    then show ?thesis using float_div_floor [OF _ assms(1), of "room i * n"]
      by (auto simp add: extra_share_def raw_share_def)
  qed
  then have "sum_on (extra_share room n (sum_on room is)) is \<le> sum_on (\<lambda>i. room i * n div sum_on room is) is"
    by (rule sum_on_mono)
  then show ?thesis using proportional_shares [OF assms(1)] by (rule order_trans)
qed

lemma share_out_result:
  assumes idx: "distinct idx" and ok: "budgets_ok cnt idx (b, r)" and limit: "r \<le> limit" "limit \<le> sum_on cnt idx"
    and grows: "\<And>i n. i \<in> set idx \<Longrightarrow> b i \<le> n \<Longrightarrow> grows (\<lambda>i. cnt i - b i) i n \<longleftrightarrow> n < cnt i"
  shows "\<exists>b'. share_out grows limit cnt idx (b, r) = Some b' \<and> budgets_ok cnt idx (b', limit)
    \<and> (sum_on cnt idx * limit < 2 ^ 53 \<longrightarrow> (\<forall>i. b i \<le> b' i))"
proof -
  let ?room = "\<lambda>i. cnt i - b i"
  let ?cap = "sum_on ?room idx"
  let ?rem = "limit - r"
  have b: "\<And>i. i \<in> set idx \<Longrightarrow> b i \<le> cnt i" "\<And>i. i \<notin> set idx \<Longrightarrow> b i = 0" "r = sum_on b idx"
    using ok by (auto simp add: budgets_ok_def)
  have cap: "?cap + r = sum_on cnt idx" using sum_on_minus [of idx b cnt] b by simp
  show ?thesis
  proof (cases "?rem = 0 \<or> ?cap = 0")
    case True
    then have "r = limit" using limit cap by linarith
    then show ?thesis using True ok by (auto simp add: share_out_def Let_def)
  next
    case False
    let ?ext = "extra_share ?room ?rem ?cap"
    define b1 where "b1 = foldl (add_share ?room ?rem ?cap) b idx"
    have unfold: "share_out grows limit cnt idx (b, r) =
      (case (if limit < sum_on b1 idx then drain limit (sort_desc (\<lambda>i. int (b1 i)) idx) (b1, sum_on b1 idx)
             else Some (b1, sum_on b1 idx)) of
         None \<Rightarrow> None
       | Some (b2, n) \<Rightarrow>
           if n < limit then map_option fst (hand_out (grows ?room) limit (sort_desc (\<lambda>i.
             raw_share ?room ?rem ?cap i - of_int \<lfloor>raw_share ?room ?rem ?cap i\<rfloor>) idx) (b2, n))
           else Some b2)"
      using False by (simp only: share_out_def Let_def b1_def prod.case if_False)
    have b1: "b1 i = b i + (if i \<in> set idx then ?ext i else 0)" for i
      unfolding b1_def foldl_extra [OF idx] by simp
    have b1_sum: "sum_on b1 idx = r + sum_on ?ext idx"
    proof -
      have "sum_on b1 idx = sum_on (\<lambda>i. b i + ?ext i) idx" by (rule arg_cong [of _ _ sum_list]) (simp add: b1)
      then show ?thesis by (simp add: sum_on_add b(3))
    qed
    have b1_le: "i \<in> set idx \<Longrightarrow> b1 i \<le> cnt i" for i using b(1) [of i] by (simp add: b1 extra_share_def)
    have b1_ge: "b i \<le> b1 i" for i by (simp add: b1)
    show ?thesis
    proof (cases "limit < sum_on b1 idx")
      case True
      let ?order = "sort_desc (\<lambda>i. int (b1 i)) idx"
      have order: "distinct ?order" "set ?order = set idx" "sum_on f ?order = sum_on f idx" for f
        using idx by (simp_all add: sum_on_sort) (simp_all add: sort_desc_def)
      have "?order \<noteq> []"
      proof
        assume "?order = []"
        then have "sum_on b1 ?order = 0" by simp
        then show False using True unfolding order(3) by linarith
      qed
      then obtain b2 where b2: "drain limit ?order (b1, sum_on b1 idx) = Some (b2, limit)" "\<forall>i. b2 i \<le> b1 i"
        "\<forall>i. i \<notin> set idx \<longrightarrow> b2 i = b1 i" "sum_on b2 idx + (sum_on b1 idx - limit) = sum_on b1 idx"
        using drain_result [of ?order limit "sum_on b1 idx" b1] True order
        by (metis le_add2 less_imp_le)
      have "share_out grows limit cnt idx (b, r) = Some b2" using True b2(1) by (simp add: unfold)
      moreover have "budgets_ok cnt idx (b2, limit)"
        using b2 b(2) b1 b1_le True by (auto simp add: budgets_ok_def intro: order_trans)
      moreover have "\<not> sum_on cnt idx * limit < 2 ^ 53"
      proof
        assume small: "sum_on cnt idx * limit < 2 ^ 53"
        have "?cap * ?rem \<le> sum_on cnt idx * limit" using cap by (intro mult_le_mono) auto
        then have "?cap * ?rem < 2 ^ 53" using small by (rule le_less_trans)
        then have "sum_on ?ext idx \<le> ?rem" using extra_share_sum [of ?room idx ?rem] False by (metis gr0I)
        then show False using True b1_sum limit by simp
      qed
      ultimately show ?thesis by blast
    next
      case fits: False
      show ?thesis
      proof (cases "sum_on b1 idx < limit")
        case True
        let ?order = "sort_desc (\<lambda>i. raw_share ?room ?rem ?cap i - of_int \<lfloor>raw_share ?room ?rem ?cap i\<rfloor>) idx"
        have order: "distinct ?order" "set ?order = set idx" "sum_on f ?order = sum_on f idx" for f
          using idx by (simp_all add: sum_on_sort) (simp_all add: sort_desc_def)
        have room: "limit \<le> sum_on b1 idx + sum_on (\<lambda>i. cnt i - b1 i) ?order"
          using sum_on_minus [of idx b1 cnt] b1_le limit(2) order(3) by simp
        have cond: "grows ?room i n \<longleftrightarrow> n < cnt i" if "i \<in> set ?order" "b1 i \<le> n" for i n
          using grows [of i n] that b1_ge [of i] order(2) by (metis order_trans)
        obtain b2 where b2: "hand_out (grows ?room) limit ?order (b1, sum_on b1 idx) = Some (b2, limit)"
          "\<forall>i. b1 i \<le> b2 i" "\<forall>i. i \<notin> set idx \<longrightarrow> b2 i = b1 i" "\<forall>i \<in> set idx. b2 i \<le> max (b1 i) (cnt i)"
          "sum_on b2 idx = sum_on b1 idx + (limit - sum_on b1 idx)"
          using hand_out_result [OF order(1) less_imp_le [OF True] room cond] unfolding order(2) order(3) by blast
        have "share_out grows limit cnt idx (b, r) = Some b2" using True b2(1) by (simp add: unfold)
        moreover have "budgets_ok cnt idx (b2, limit)"
          using b2 b(2) b1 b1_le True by (auto simp add: budgets_ok_def max_absorb2)
        moreover have "\<forall>i. b i \<le> b2 i" using b1_ge b2(2) by (metis order_trans)
        ultimately show ?thesis by blast
      next
        case exact: False
        have "share_out grows limit cnt idx (b, r) = Some b1" unfolding unfold using fits exact by simp
        moreover have "budgets_ok cnt idx (b1, limit)"
          using b(2) b1 b1_le fits exact by (auto simp add: budgets_ok_def)
        ultimately show ?thesis using b1_ge by blast
      qed
    qed
  qed
qed

section \<open>What is reserved\<close>

lemma budgets_ok_zero: "budgets_ok cnt idx (\<lambda>_. 0, 0)"
  by (induction idx) (simp_all add: budgets_ok_def)

text \<open>Raising the budget of one list keeps the books in order.\<close>

lemma sum_on_upd:
  "distinct is \<Longrightarrow> i \<in> set is \<Longrightarrow> b i \<le> n \<Longrightarrow> sum_on (b(i := n)) is = sum_on b is + (n - b i)"
proof (induction "is")
  case (Cons j "is")
  show ?case
  proof (cases "j = i")
    case True
    then have "sum_on (b(i := n)) is = sum_on b is" using Cons.prems(1) by (intro sum_on_outside) simp
    then have "sum_on (b(i := n)) (j # is) = n + sum_on b is"
      by (simp only: True list.map sum_list.Cons fun_upd_same)
    moreover have "sum_on b (j # is) = b i + sum_on b is" by (simp add: True)
    ultimately show ?thesis using Cons.prems(3) by linarith
  next
    case False
    then have "distinct is" "i \<in> set is" using Cons.prems by simp_all
    note Cons.IH [OF this Cons.prems(3)]
    then show ?thesis using False by (simp only: list.map sum_list.Cons fun_upd_other [OF False] add.assoc)
  qed
qed simp

lemma budgets_ok_upd:
  assumes "distinct idx" and "budgets_ok cnt idx (b, r)" and "i \<in> set idx" and "b i \<le> n" and "n \<le> cnt i"
  shows "budgets_ok cnt idx (b(i := n), r + (n - b i))"
  using assms sum_on_upd [of idx i b n] by (auto simp add: budgets_ok_def)

lemma reserve_mandatory_fold:
  assumes "distinct idx" and "set is \<subseteq> set idx" and "distinct is" and "\<And>i. i \<in> set idx \<Longrightarrow> 0 < cnt i"
    and "budgets_ok cnt idx s" and "\<And>i. i \<in> set is \<Longrightarrow> fst s i = 0" 
  shows "budgets_ok cnt idx (foldl (reserve_mandatory cnt name mandatory) s is)
    \<and> snd (foldl (reserve_mandatory cnt name mandatory) s is) \<le> snd s + length is
    \<and> (\<forall>i. fst s i \<le> fst (foldl (reserve_mandatory cnt name mandatory) s is) i)
    \<and> (\<forall>i \<in> set is. name i \<in> set mandatory \<longrightarrow> 1 \<le> fst (foldl (reserve_mandatory cnt name mandatory) s is) i)"
  using assms(2-)
proof (induction "is" arbitrary: s)
  case Nil
  then show ?case by simp
next
  case (Cons i "is")
  obtain b r where s: "s = (b, r)" by (cases s)
  let ?s = "reserve_mandatory cnt name mandatory s i"
  have i: "i \<in> set idx" "0 < cnt i" "b i = 0" "i \<notin> set is" using Cons.prems s by auto
  have step: "?s = (if name i \<in> set mandatory then (b(i := 1), r + 1) else (b, r))"
    using i by (simp add: reserve_mandatory_def s)
  have ok: "budgets_ok cnt idx ?s"
    using budgets_ok_upd [OF assms(1) Cons.prems(4) [unfolded s] i(1), of 1] i Cons.prems(4)
    unfolding step unfolding s by simp
  have zero: "fst ?s j = 0" if "j \<in> set is" for j
    using Cons.prems(5) [of j] that i(4) unfolding step unfolding s by auto
  have grow: "fst s j \<le> fst ?s j" for j using i(3) unfolding step unfolding s by simp
  have more: "snd ?s \<le> snd s + 1" "name i \<in> set mandatory \<longrightarrow> 1 \<le> fst ?s i"
    unfolding step unfolding s by simp_all
  let ?t = "foldl (reserve_mandatory cnt name mandatory) ?s is"
  have "set is \<subseteq> set idx" "distinct is" using Cons.prems by simp_all
  note IH = Cons.IH [of ?s, OF this Cons.prems(3) ok zero]
  have "budgets_ok cnt idx ?t" "snd ?t \<le> snd s + length (i # is)" using IH more(1) by simp_all
  moreover have "fst s j \<le> fst ?t j" for j using IH grow [of j] by (meson order_trans)
  moreover have "name j \<in> set mandatory \<longrightarrow> 1 \<le> fst ?t j" if "j \<in> set (i # is)" for j
    using that IH more(2) by (metis order_trans set_ConsD)
  ultimately show ?case by simp
qed

lemma reserve_priority_fold:
  assumes idx: "distinct idx" and "set is \<subseteq> set idx" and "budgets_ok cnt idx s"
  shows "budgets_ok cnt idx (foldl (reserve_priority cnt name priority m) s is)
    \<and> (\<forall>i. fst s i \<le> fst (foldl (reserve_priority cnt name priority m) s is) i)
    \<and> (\<forall>i \<in> set is. name i \<in> set priority \<longrightarrow>
         min (cnt i) m \<le> fst (foldl (reserve_priority cnt name priority m) s is) i)"
  using assms(2-)
proof (induction "is" arbitrary: s)
  case Nil
  then show ?case by simp
next
  case (Cons i "is")
  obtain b r where s: "s = (b, r)" by (cases s)
  let ?s = "reserve_priority cnt name priority m s i"
  let ?n = "max (b i) (min (cnt i) m)"
  have i: "i \<in> set idx" and b: "budgets_ok cnt idx (b, r)" using Cons.prems s by auto
  then have le: "b i \<le> cnt i" by (simp add: budgets_ok_def)
  have step: "?s = (if name i \<in> set priority then (b(i := ?n), r + (?n - b i)) else (b, r))"
    by (simp add: reserve_priority_def s Let_def)
  have ok: "budgets_ok cnt idx ?s"
    unfolding step using budgets_ok_upd [OF idx b i, of ?n] b le by simp
  have grow: "fst s j \<le> fst ?s j" for j unfolding step unfolding s by simp
  have here: "name i \<in> set priority \<longrightarrow> min (cnt i) m \<le> fst ?s i" unfolding step by simp
  let ?t = "foldl (reserve_priority cnt name priority m) ?s is"
  have "set is \<subseteq> set idx" using Cons.prems by simp
  note IH = Cons.IH [of ?s, OF this ok]
  have "fst s j \<le> fst ?t j" for j using IH grow [of j] by (meson order_trans)
  moreover have "min (cnt j) m \<le> fst ?t j" if j: "j \<in> set (i # is)" and n: "name j \<in> set priority" for j
  proof (cases "j = i")
    case True
    then have "min (cnt j) m \<le> fst ?s j" using here n by blast
    also have "\<dots> \<le> fst ?t j" using IH by blast
    finally show ?thesis .
  next
    case False
    then show ?thesis using IH j n by (meson set_ConsD)
  qed
  ultimately show ?case using IH by (simp only: foldl_Cons) blast
qed

lemma grant_one_result:
  assumes "distinct idx" and "distinct is" and "set is \<subseteq> set idx" and "\<And>i. i \<in> set idx \<Longrightarrow> 0 < cnt i"
    and "budgets_ok cnt idx (b, a)" and "a \<le> limit" and "\<And>i. i \<in> set is \<Longrightarrow> b i = 0"
  shows "budgets_ok cnt idx (grant_one limit is (b, a)) \<and> snd (grant_one limit is (b, a)) \<le> limit
    \<and> (\<forall>i. b i \<le> fst (grant_one limit is (b, a)) i)
    \<and> (a + length is \<le> limit \<longrightarrow> (\<forall>i \<in> set is. fst (grant_one limit is (b, a)) i = 1))
    \<and> (\<forall>i. i \<notin> set is \<longrightarrow> fst (grant_one limit is (b, a)) i = b i)"
  using assms(2-)
proof (induction "is" arbitrary: b a)
  case Nil
  then show ?case by simp
next
  case (Cons i "is")
  show ?case
  proof (cases "limit \<le> a")
    case True
    then show ?thesis using Cons.prems by simp
  next
    case False
    have i: "i \<in> set idx" "b i = 0" "0 < cnt i" "i \<notin> set is" using Cons.prems by simp_all
    have ok: "budgets_ok cnt idx (b(i := 1), a + 1)"
      using budgets_ok_upd [OF assms(1) Cons.prems(4) i(1), of 1] i by simp
    have tail: "distinct is" "set is \<subseteq> set idx" "a + 1 \<le> limit" "\<And>j. j \<in> set is \<Longrightarrow> (b(i := 1)) j = 0"
      using Cons.prems False by auto
    have IH: "budgets_ok cnt idx (grant_one limit is (b(i := 1), a + 1))"
      "snd (grant_one limit is (b(i := 1), a + 1)) \<le> limit"
      "\<forall>j. (b(i := 1)) j \<le> fst (grant_one limit is (b(i := 1), a + 1)) j"
      "a + 1 + length is \<le> limit \<longrightarrow> (\<forall>j \<in> set is. fst (grant_one limit is (b(i := 1), a + 1)) j = 1)"
      "\<forall>j. j \<notin> set is \<longrightarrow> fst (grant_one limit is (b(i := 1), a + 1)) j = (b(i := 1)) j"
      using Cons.IH [of "b(i := 1)" "a + 1", OF tail(1,2) Cons.prems(3) ok tail(3,4)] by blast+
    have run: "grant_one limit (i # is) (b, a) = grant_one limit is (b(i := 1), a + 1)" using False by simp
    have "b j \<le> fst (grant_one limit is (b(i := 1), a + 1)) j" for j
      using IH(3) [rule_format, of j] i(2) by (cases "j = i") simp_all
    moreover have "a + length (i # is) \<le> limit \<longrightarrow>
        (\<forall>j \<in> set (i # is). fst (grant_one limit is (b(i := 1), a + 1)) j = 1)"
      using IH(4,5) i(4) by simp
    moreover have "fst (grant_one limit is (b(i := 1), a + 1)) j = b j" if "j \<notin> set (i # is)" for j
      using IH(5) that by simp
    ultimately show ?thesis unfolding run using IH(1,2) by blast
  qed
qed

lemma by_count_perm [simp]: "set (by_count cnt is) = set is" "length (by_count cnt is) = length is"
  "distinct (by_count cnt is) = distinct is"
  by (simp_all add: by_count_def sort_desc_def)

lemma reset_to_result:
  assumes "distinct idx" and "\<And>i. i \<in> set idx \<Longrightarrow> 0 < cnt i" and "length idx \<le> limit"
  shows "budgets_ok cnt idx (reset_to limit cnt name idx files) \<and> snd (reset_to limit cnt name idx files) \<le> limit
    \<and> (\<forall>i \<in> set idx. name i \<in> set files \<longrightarrow> fst (reset_to limit cnt name idx files) i = 1)"
proof -
  let ?is = "by_count cnt (filter (\<lambda>i. name i \<in> set files) idx)"
  have "length ?is \<le> limit" using assms(3) length_filter_le by (metis by_count_perm(2) order_trans)
  then show ?thesis
    using grant_one_result [where cnt = cnt and limit = limit, OF assms(1) _ _ assms(2) budgets_ok_zero, of ?is] assms(1)
    by (auto simp add: reset_to_def)
qed

lemma reserve_result:
  assumes idx: "distinct idx" and cnt: "\<And>i. i \<in> set idx \<Longrightarrow> 0 < cnt i" and limit: "length idx \<le> limit"
    and sub: "set mandatory \<subseteq> set priority"
  shows "budgets_ok cnt idx (reserve limit cnt name idx mandatory priority m)
    \<and> snd (reserve limit cnt name idx mandatory priority m) \<le> limit
    \<and> (\<forall>i \<in> set idx. name i \<in> set mandatory \<or> 0 < m \<and> name i \<in> set priority
         \<longrightarrow> 1 \<le> fst (reserve limit cnt name idx mandatory priority m) i)"
proof -
  define s1 where "s1 = (if mandatory \<noteq> [] then foldl (reserve_mandatory cnt name mandatory) (\<lambda>_. 0, 0) idx
    else (\<lambda>_. 0, 0))"
  define s3 where "s3 = (if priority \<noteq> [] \<and> 0 < m then foldl (reserve_priority cnt name priority m) s1 idx else s1)"
  have s1: "budgets_ok cnt idx s1 \<and> snd s1 \<le> limit \<and> (\<forall>i \<in> set idx. name i \<in> set mandatory \<longrightarrow> 1 \<le> fst s1 i)"
  proof (cases "mandatory = []")
    case True
    then show ?thesis using budgets_ok_zero by (simp add: s1_def)
  next
    case False
    then have "s1 = foldl (reserve_mandatory cnt name mandatory) (\<lambda>_. 0, 0) idx" by (simp add: s1_def)
    then show ?thesis
      using reserve_mandatory_fold [where cnt = cnt and name = name and mandatory = mandatory, OF idx order_refl idx cnt budgets_ok_zero]
        limit by auto
  qed
  have run: "reserve limit cnt name idx mandatory priority m
      = (if limit < snd s3 then reset_to limit cnt name idx priority else s3)"
  proof -
    have keep: "(if limit < snd s1 then reset_to limit cnt name idx mandatory else s1) = s1" using s1 by simp
    show ?thesis unfolding reserve_def Let_def s1_def [symmetric] keep s3_def ..
  qed
  have s3: "budgets_ok cnt idx s3 \<and> (\<forall>i \<in> set idx. name i \<in> set mandatory \<or> 0 < m \<and> name i \<in> set priority
      \<longrightarrow> 1 \<le> fst s3 i)"
  proof (cases "priority \<noteq> [] \<and> 0 < m")
    case True
    let ?t = "foldl (reserve_priority cnt name priority m) s1 idx"
    have t: "s3 = ?t" using True by (simp add: s3_def)
    have fold: "budgets_ok cnt idx ?t" "\<And>i. fst s1 i \<le> fst ?t i"
      "\<And>i. i \<in> set idx \<Longrightarrow> name i \<in> set priority \<Longrightarrow> min (cnt i) m \<le> fst ?t i"
      using reserve_priority_fold [OF idx order_refl, of cnt s1 name priority m] s1 by blast+
    have "1 \<le> fst ?t i" if i: "i \<in> set idx" "name i \<in> set priority" for i
    proof -
      have "1 \<le> min (cnt i) m" using cnt [OF i(1)] True by simp
      then show ?thesis using fold(3) [OF i] by (rule order_trans)
    qed
    then show ?thesis using fold(1) sub t by blast
  next
    case False
    then show ?thesis using s1 by (auto simp add: s3_def)
  qed
  show ?thesis
  proof (cases "limit < snd s3")
    case True
    then show ?thesis
      using reset_to_result [where cnt = cnt and name = name and files = priority, OF idx cnt limit] sub unfolding run by auto
  next
    case False
    then show ?thesis using s3 unfolding run by simp
  qed
qed

section \<open>The distribution\<close>

lemma prioritized_perm:
  assumes "distinct idx"
  shows "distinct (prioritized_indices cnt name idx mandatory priority m)
    \<and> set (prioritized_indices cnt name idx mandatory priority m) = set idx"
  using assms by (auto simp add: prioritized_indices_def Let_def)

lemma sum_on_indicator:
  "distinct is \<Longrightarrow> A \<subseteq> set is \<Longrightarrow> sum_on (\<lambda>i. if i \<in> A then 1 else 0) is = card A"
  by (simp add: sum_list_distinct_conv_sum_set sum.If_cases Int_absorb1)

lemma one_each_result:
  assumes idx: "distinct idx" and cnt: "\<And>i. i \<in> set idx \<Longrightarrow> 0 < cnt i" and "limit < length idx"
    and p: "distinct p" "set p = set idx"
  shows "budgets_ok cnt idx (one_each limit p, limit)"
proof -
  have len: "length p = length idx" using idx p by (metis distinct_card)
  have sub: "set (take limit p) \<subseteq> set idx" using p(2) set_take_subset by metis
  have "sum_on (one_each limit p) idx = card (set (take limit p))"
    unfolding one_each_def by (rule sum_on_indicator [OF idx sub])
  also have "\<dots> = limit" using assms(3) len p(1) by (simp add: distinct_card)
  finally have "limit = sum_on (one_each limit p) idx" by (rule sym)
  moreover have "one_each limit p i \<le> cnt i" if "i \<in> set idx" for i
    using cnt [OF that] by (simp add: one_each_def)
  moreover have "one_each limit p i = 0" if "i \<notin> set idx" for i
    using sub that by (auto simp add: one_each_def)
  ultimately show ?thesis by (simp add: budgets_ok_def)
qed

lemma distribute_result:
  assumes idx: "distinct idx" and cnt: "\<And>i. i \<in> set idx \<Longrightarrow> 0 < cnt i" and limit: "limit \<le> sum_on cnt idx"
    and sub: "set mandatory \<subseteq> set priority"
  shows "\<exists>b. distribute limit cnt name idx mandatory priority m = Some b \<and> budgets_ok cnt idx (b, limit)
    \<and> (sum_on cnt idx * limit < 2 ^ 53 \<longrightarrow> length (filter (\<lambda>i. name i \<in> set mandatory) idx) \<le> limit \<longrightarrow>
        (\<forall>i \<in> set idx. name i \<in> set mandatory \<longrightarrow> 1 \<le> b i))"
proof (cases "limit < length idx")
  case True
  let ?p = "prioritized_indices cnt name idx mandatory priority m"
  let ?first = "filter (\<lambda>i. name i \<in> set mandatory) idx"
  have ok: "budgets_ok cnt idx (one_each limit ?p, limit)"
    using one_each_result [where cnt = cnt and p = ?p, OF idx cnt True]
      prioritized_perm [where cnt = cnt and name = name and mandatory = mandatory and priority = priority
        and m = m, OF idx] by blast
  have "1 \<le> one_each limit ?p i"
    if few: "length ?first \<le> limit" and i: "i \<in> set idx" "name i \<in> set mandatory" for i
  proof -
    have "mandatory \<noteq> []" using i(2) by auto
    then have "take limit ?p = by_count cnt ?first
        @ take (limit - length ?first) (filter (\<lambda>i. i \<notin> set (by_count cnt ?first)) (by_count cnt idx))"
      using few by (simp add: prioritized_indices_def Let_def)
    then have "i \<in> set (take limit ?p)" using i by simp
    then show ?thesis by (simp add: one_each_def)
  qed
  then show ?thesis using ok True by (simp add: distribute_def)
next
  case False
  then have len: "length idx \<le> limit" by simp
  obtain b r where res: "reserve limit cnt name idx mandatory priority m = (b, r)" by force
  have rr: "budgets_ok cnt idx (b, r)" "r \<le> limit"
    "\<And>i. i \<in> set idx \<Longrightarrow> name i \<in> set mandatory \<Longrightarrow> 1 \<le> b i"
    using reserve_result [where cnt = cnt and name = name and m = m, OF idx cnt len sub] by (simp_all add: res)
  have room: "has_room cnt (\<lambda>i. cnt i - b i) i n \<longleftrightarrow> n < cnt i" if "i \<in> set idx" "b i \<le> n" for i n
    using rr(1) that by (auto simp add: has_room_def budgets_ok_def)
  obtain b' where b': "share_out (has_room cnt) limit cnt idx (b, r) = Some b'" "budgets_ok cnt idx (b', limit)"
    "sum_on cnt idx * limit < 2 ^ 53 \<longrightarrow> (\<forall>i. b i \<le> b' i)"
    using share_out_result [where grows = "has_room cnt", OF idx rr(1,2) limit room] by blast
  have "1 \<le> b' i" if "sum_on cnt idx * limit < 2 ^ 53" "i \<in> set idx" "name i \<in> set mandatory" for i
    using b'(3) rr(3) [OF that(2,3)] that(1) by (meson order_trans)
  then show ?thesis using b'(1,2) False by (simp add: distribute_def res)
qed

end
