(* ===== verification/RouteCompress.thy ===== *)
theory RouteCompress
  imports RouteLimitFacts
begin

text \<open>
  One list under a limit: what \<open>compress_cidrs_to_limit\<close> keeps of the networks it is given, for any
  package that reads, compares and prints IPv4 networks as \<^verbatim>\<open>netaddr\<close> is documented to.
\<close>

section \<open>What is relied on of netaddr\<close>

definition ipv4_net :: "ipnet \<Rightarrow> bool" where
  "ipv4_net n \<longleftrightarrow> net_plain n \<and> net_version n = 4"

text \<open>
  A printed IPv4 network is read; its \<^verbatim>\<open>ip\<close>, \<^verbatim>\<open>prefixlen\<close> and \<^verbatim>\<open>str\<close> are those of the network, and \<^verbatim>\<open>in\<close> is
  the inclusion of the addresses.
\<close>

definition netaddr_ok :: "'n netaddr \<Rightarrow> bool" where
  "netaddr_ok na \<longleftrightarrow>
     (\<forall>n. ipv4_net n \<longrightarrow> (\<exists>x. na_network na (show_net n) = Some x \<and> na_ip na x = net_int n
        \<and> na_prefixlen na x = prefixlen n \<and> na_show na x = show_net n))
     \<and> (\<forall>n m x y. ipv4_net n \<longrightarrow> ipv4_net m \<longrightarrow> na_network na (show_net n) = Some x
        \<longrightarrow> na_network na (show_net m) = Some y \<longrightarrow> (na_within na x y \<longleftrightarrow> net_range n \<subseteq> net_range m))"

text \<open>An instance: the networks of \<^verbatim>\<open>ipaddress\<close>.\<close>

definition ipaddress_netaddr :: "ipnet netaddr" where
  "ipaddress_netaddr = \<lparr>na_network = ip_network False, na_ip = net_int, na_prefixlen = prefixlen,
     na_within = (\<lambda>a b. net_int b \<le> net_int a \<and> broadcast_int a \<le> broadcast_int b), na_show = show_net\<rparr>"

lemma net_range_subset:
  "net_range a \<subseteq> net_range b \<longleftrightarrow> net_int b \<le> net_int a \<and> broadcast_int a \<le> broadcast_int b"
  unfolding net_range_def broadcast_int_def ivl_subset
  using num_addresses_pos [of a] num_addresses_pos [of b] by linarith

lemma ipaddress_netaddr_ok: "netaddr_ok ipaddress_netaddr"
  by (auto simp add: netaddr_ok_def ipaddress_netaddr_def ipv4_net_def ip_network_show net_range_subset)

section \<open>Normalised lists\<close>

definition net_of :: "string \<Rightarrow> ipnet" where
  "net_of c = the (ip_network False c)"

definition inside :: "string \<Rightarrow> string \<Rightarrow> bool" where
  "inside c d \<longleftrightarrow> net_range (net_of c) \<subseteq> net_range (net_of d)"

lemma net_of_show: "ipv4_net n \<Longrightarrow> net_of (show_net n) = n"
  by (simp add: net_of_def ipv4_net_def ip_network_show)

lemma normalize_cidr_net: "normalize_cidr v = Some c \<Longrightarrow> ipv4_net (net_of c) \<and> c = show_net (net_of c)"
proof -
  assume "normalize_cidr v = Some c"
  then obtain n where n: "ip_network False (strip v) = Some n" "net_version n = 4" "c = show_net n"
    by (auto simp add: normalize_cidr_def Let_def split: if_splits option.splits)
  have "net_plain n" using ip_network_ok [OF n(1)] n(2)
    by (cases "net_addr n") (auto simp add: net_plain_def net_version_def net_ok_def)
  then have "ipv4_net n" using n(2) by (simp add: ipv4_net_def)
  then show ?thesis using n(3) by (simp add: net_of_show)
qed

lemma in_map_filter: "c \<in> set (List.map_filter f xs) \<longleftrightarrow> (\<exists>x \<in> set xs. f x = Some c)"
  by (induction xs) (auto simp add: List.map_filter_simps split: option.splits)

lemma normalized_net: "c \<in> set (normalize_cidrs vs) \<Longrightarrow> ipv4_net (net_of c) \<and> c = show_net (net_of c)"
  by (auto simp add: normalize_cidrs_def in_map_filter dest: normalize_cidr_net)

lemma distinct_normalize [simp]: "distinct (normalize_cidrs vs)"
  by (simp add: normalize_cidrs_def)

lemma ipv4_net_eqI:
  assumes "ipv4_net a" and "ipv4_net b" and "net_range a = net_range b"
  shows "a = b"
proof -
  have ends: "net_int a = net_int b" "broadcast_int a = broadcast_int b"
    using assms(3) net_range_subset [of a b] net_range_subset [of b a] by auto
  have num: "num_addresses a = num_addresses b"
    using ends num_addresses_pos [of a] num_addresses_pos [of b] unfolding broadcast_int_def by linarith
  have v: "net_version a = 4" "net_version b = 4" using assms by (simp_all add: ipv4_net_def)
  have "prefixlen a \<le> 32" "prefixlen b \<le> 32"
    using assms v by (simp_all add: ipv4_net_def net_plain_def net_ok_def width_def)
  moreover have "32 - prefixlen a = 32 - prefixlen b" using num v by (simp add: num_addresses_def width_def)
  ultimately have "prefixlen a = prefixlen b" by linarith
  moreover have "net_addr a = net_addr b"
    using ends(1) v by (cases "net_addr a"; cases "net_addr b") (simp_all add: net_version_def net_int_def)
  ultimately show ?thesis by simp
qed

lemma inside_refl [simp]: "inside c c"
  by (simp add: inside_def)

lemma inside_trans: "inside a b \<Longrightarrow> inside b c \<Longrightarrow> inside a c"
  by (auto simp add: inside_def)

lemma inside_antisym:
  assumes "c \<in> set (normalize_cidrs vs)" and "d \<in> set (normalize_cidrs ws)" and "inside c d" and "inside d c"
  shows "c = d"
proof -
  have "net_of c = net_of d"
    using ipv4_net_eqI [of "net_of c" "net_of d"] assms(3,4)
      normalized_net [OF assms(1)] normalized_net [OF assms(2)] unfolding inside_def by blast
  then show ?thesis using normalized_net [OF assms(1)] normalized_net [OF assms(2)] by metis
qed

text \<open>A network inside another is at least as long.\<close>

lemma inside_prefixlen:
  assumes "c \<in> set (normalize_cidrs vs)" and "d \<in> set (normalize_cidrs vs)" and "inside c d"
  shows "prefixlen (net_of d) \<le> prefixlen (net_of c)"
proof -
  let ?a = "net_of c" and ?b = "net_of d"
  have v: "net_version ?a = 4" "net_version ?b = 4" "prefixlen ?a \<le> 32" "prefixlen ?b \<le> 32"
    using assms(1,2) [THEN normalized_net] by (auto simp add: ipv4_net_def net_plain_def net_ok_def width_def)
  have "num_addresses ?a \<le> num_addresses ?b"
    using assms(3) num_addresses_pos [of ?a] num_addresses_pos [of ?b]
    unfolding inside_def net_range_subset broadcast_int_def by linarith
  then have "32 - prefixlen ?a \<le> 32 - prefixlen ?b" using v by (simp add: num_addresses_def width_def)
  then show ?thesis using v by linarith
qed

section \<open>Removing what is contained\<close>

lemma read_all_map_the: "(\<And>x. x \<in> set xs \<Longrightarrow> f x \<noteq> None) \<Longrightarrow> read_all f xs = Some (map (\<lambda>x. the (f x)) xs)"
proof (induction xs)
  case (Cons x xs)
  obtain y where "f x = Some y" using Cons.prems [of x] by auto
  moreover have "read_all f xs = Some (map (\<lambda>x. the (f x)) xs)" using Cons by simp
  ultimately show ?case by simp
qed simp

lemma add_network_keeps:
  assumes refl: "\<And>x. x \<in> S \<Longrightarrow> na_within na x x"
    and trans: "\<And>x y z. x \<in> S \<Longrightarrow> y \<in> S \<Longrightarrow> z \<in> S \<Longrightarrow> na_within na x y \<Longrightarrow> na_within na y z \<Longrightarrow> na_within na x z"
    and "set ks \<subseteq> S" and "set xs \<subseteq> S" and "distinct ks"
    and "\<And>x y. x \<in> set ks \<Longrightarrow> y \<in> set ks \<Longrightarrow> na_within na x y \<Longrightarrow> x = y"
  shows "set (foldl (add_network na) ks xs) \<subseteq> set ks \<union> set xs
    \<and> distinct (foldl (add_network na) ks xs)
    \<and> (\<forall>x \<in> set ks \<union> set xs. \<exists>y \<in> set (foldl (add_network na) ks xs). na_within na x y)
    \<and> (\<forall>x \<in> set (foldl (add_network na) ks xs). \<forall>y \<in> set (foldl (add_network na) ks xs). na_within na x y \<longrightarrow> x = y)"
  using assms(3-)
proof (induction xs arbitrary: ks)
  case Nil
  then show ?case using refl by simp (meson subsetD)
next
  case (Cons n ns)
  let ?ks = "add_network na ks n"
  let ?r = "foldl (add_network na) ?ks ns"
  have n: "n \<in> S" using Cons.prems by simp
  have sub: "set ?ks \<subseteq> insert n (set ks)" by (auto simp add: add_network_def)
  have cover: "\<exists>y \<in> set ?ks. na_within na x y" if x: "x \<in> insert n (set ks)" for x
  proof (cases "list_ex (\<lambda>other. na_within na n other) ks")
    case True
    then show ?thesis using x refl Cons.prems(1) by (auto simp add: add_network_def list_ex_iff)
  next
    case False
    then show ?thesis using x refl [of x] n Cons.prems(1) by (auto simp add: add_network_def)
  qed
  have dist: "distinct ?ks" using Cons.prems(3) refl [OF n] by (auto simp add: add_network_def list_ex_iff)
  have anti: "x = y" if "x \<in> set ?ks" "y \<in> set ?ks" "na_within na x y" for x y
    using that Cons.prems(4) by (auto simp add: add_network_def list_ex_iff split: if_splits)
  have subS: "set ?ks \<subseteq> S" "set ns \<subseteq> S" using sub n Cons.prems by auto
  note IH = Cons.IH [OF subS dist anti]
  have "\<exists>y \<in> set ?r. na_within na x y" if x: "x \<in> set ks \<union> set (n # ns)" for x
  proof (cases "x \<in> set ns")
    case True
    then show ?thesis using IH by blast
  next
    case False
    then obtain y where y: "y \<in> set ?ks" "na_within na x y" using x cover by auto
    then obtain z where z: "z \<in> set ?r" "na_within na y z" using IH by blast
    have "x \<in> S" using x Cons.prems by auto
    moreover have "y \<in> S" "z \<in> S" using y(1) z(1) IH subS by blast+
    ultimately show ?thesis using trans y(2) z by blast
  qed
  moreover have "set ?r \<subseteq> set ks \<union> set (n # ns)" using IH sub by auto
  ultimately show ?case using IH by simp
qed

text \<open>\<open>kept na ns\<close> in the terms of the texts: a list without overlaps that covers the one given.\<close>

definition na_net :: "'n netaddr \<Rightarrow> string \<Rightarrow> 'n" where
  "na_net na c = the (na_network na c)"

lemma network_normalized:
  assumes na: "netaddr_ok na" and c: "c \<in> set (normalize_cidrs vs)"
  shows "na_network na c = Some (na_net na c)" and "na_ip na (na_net na c) = net_int (net_of c)"
    and "na_prefixlen na (na_net na c) = prefixlen (net_of c)" and "na_show na (na_net na c) = c"
proof -
  have "ipv4_net (net_of c)" "c = show_net (net_of c)" using normalized_net [OF c] by blast+
  then obtain x where x: "na_network na c = Some x" "na_ip na x = net_int (net_of c)"
    "na_prefixlen na x = prefixlen (net_of c)" "na_show na x = c"
    using na unfolding netaddr_ok_def by metis
  then show "na_network na c = Some (na_net na c)" and "na_ip na (na_net na c) = net_int (net_of c)"
    and "na_prefixlen na (na_net na c) = prefixlen (net_of c)" and "na_show na (na_net na c) = c"
    by (simp_all add: na_net_def)
qed

lemma within_normalized:
  assumes na: "netaddr_ok na" and "c \<in> set (normalize_cidrs vs)" and "d \<in> set (normalize_cidrs ws)"
  shows "na_within na (na_net na c) (na_net na d) \<longleftrightarrow> inside c d"
proof -
  have "ipv4_net (net_of c)" "c = show_net (net_of c)" "ipv4_net (net_of d)" "d = show_net (net_of d)"
    using normalized_net [OF assms(2)] normalized_net [OF assms(3)] by blast+
  then show ?thesis
    using na network_normalized(1) [OF na assms(2)] network_normalized(1) [OF na assms(3)]
    unfolding netaddr_ok_def inside_def by metis
qed

lemma networks_normalized:
  "netaddr_ok na \<Longrightarrow> read_all (na_network na) (normalize_cidrs vs) = Some (map (na_net na) (normalize_cidrs vs))"
  unfolding na_net_def by (rule read_all_map_the) (simp add: network_normalized(1))

lemma inj_on_na_net: "netaddr_ok na \<Longrightarrow> inj_on (na_net na) (set (normalize_cidrs vs))"
  by (rule inj_on_inverseI [of _ "na_show na"]) (rule network_normalized(4))

lemma non_redundant_normalized:
  assumes na: "netaddr_ok na"
  obtains ks where "non_redundant na (map (na_net na) (normalize_cidrs vs)) = map (na_net na) ks"
    and "set ks \<subseteq> set (normalize_cidrs vs)" and "distinct ks"
    and "\<And>c. c \<in> set (normalize_cidrs vs) \<Longrightarrow> \<exists>d \<in> set ks. inside c d"
    and "\<And>c d. c \<in> set ks \<Longrightarrow> d \<in> set ks \<Longrightarrow> inside c d \<Longrightarrow> c = d"
proof -
  let ?ns = "normalize_cidrs vs"
  let ?S = "na_net na ` set ?ns"
  let ?xs = "sort_key (\<lambda>n. (na_ip na n, - int (na_prefixlen na n))) (map (na_net na) ?ns)"
  let ?r = "foldl (add_network na) [] ?xs"
  have refl: "na_within na x x" if "x \<in> ?S" for x using that by (auto simp add: within_normalized [OF na])
  have trans: "na_within na x z"
    if xyz: "x \<in> ?S" "y \<in> ?S" "z \<in> ?S" and w: "na_within na x y" "na_within na y z" for x y z
  proof -
    obtain a b c where "a \<in> set ?ns" "b \<in> set ?ns" "c \<in> set ?ns"
      "x = na_net na a" "y = na_net na b" "z = na_net na c" using xyz by blast
    then show ?thesis using w within_normalized [OF na] inside_trans [of a b c] by simp
  qed
  have r: "set ?r \<subseteq> ?S" "distinct ?r" "\<And>x. x \<in> ?S \<Longrightarrow> \<exists>y \<in> set ?r. na_within na x y"
    "\<And>x y. x \<in> set ?r \<Longrightarrow> y \<in> set ?r \<Longrightarrow> na_within na x y \<Longrightarrow> x = y"
  proof -
    have xs: "set ?xs = ?S" by simp
    have start: "set [] \<subseteq> ?S" "set ?xs \<subseteq> ?S" "distinct []"
      "\<And>x y. x \<in> set [] \<Longrightarrow> y \<in> set [] \<Longrightarrow> na_within na x y \<Longrightarrow> x = y" by simp_all
    note keeps = add_network_keeps [where S = ?S and na = na, OF refl trans start, unfolded xs]
    show "set ?r \<subseteq> ?S" "distinct ?r" "\<And>x. x \<in> ?S \<Longrightarrow> \<exists>y \<in> set ?r. na_within na x y"
      "\<And>x y. x \<in> set ?r \<Longrightarrow> y \<in> set ?r \<Longrightarrow> na_within na x y \<Longrightarrow> x = y"
      using keeps by auto
  qed
  define ks where "ks = map (na_show na) ?r"
  have names: "map (na_net na) ks = ?r"
    using r(1) unfolding ks_def map_map by (intro map_idI) (auto simp add: network_normalized(4) [OF na])
  have sub: "set ks \<subseteq> set ?ns" using r(1) by (auto simp add: ks_def network_normalized(4) [OF na])
  have "distinct ks" using r(2) unfolding names [symmetric] by (simp add: distinct_map)
  moreover have "\<exists>d \<in> set ks. inside c d" if c: "c \<in> set ?ns" for c
  proof -
    obtain y where "y \<in> set (map (na_net na) ks)" "na_within na (na_net na c) y"
      using r(3) [of "na_net na c"] c unfolding names by blast
    then show ?thesis using within_normalized [OF na c, of _ vs] sub by auto
  qed
  moreover have "c = d" if "c \<in> set ks" "d \<in> set ks" "inside c d" for c d
  proof -
    have cd: "c \<in> set ?ns" "d \<in> set ?ns" using that sub by auto
    then have "na_net na c = na_net na d"
      using r(4) [of "na_net na c" "na_net na d"] that within_normalized [OF na cd] unfolding names [symmetric] by simp
    then show ?thesis using network_normalized(4) [OF na] cd by metis
  qed
  ultimately show ?thesis using that [of ks] names sub by (simp add: non_redundant_def)
qed

section \<open>The list under a limit\<close>

lemma take_sorted:
  assumes "x \<in> set (take k (sort_key f xs))" and "y \<in> set xs" and "y \<notin> set (take k (sort_key f xs))"
  shows "f x \<le> f y"
proof -
  have "sorted (map f (take k (sort_key f xs)) @ map f (drop k (sort_key f xs)))"
    by (metis append_take_drop_id map_append sorted_sort_key)
  moreover have "y \<in> set (drop k (sort_key f xs))"
    using assms(2,3) by (metis Un_iff append_take_drop_id set_append set_sort)
  ultimately show ?thesis using assms(1,3) by (auto simp add: sorted_append)
qed

text \<open>Every network is covered by the result, or the result is full of networks at least as wide.\<close>

definition covered_or_full :: "string list \<Rightarrow> nat \<Rightarrow> string list \<Rightarrow> bool" where
  "covered_or_full normalized limit res \<longleftrightarrow>
     (\<forall>c \<in> set normalized. (\<exists>d \<in> set res. inside c d)
        \<or> length res = limit \<and> (\<forall>d \<in> set res. prefixlen (net_of d) \<le> prefixlen (net_of c)))"

definition no_overlap :: "string list \<Rightarrow> bool" where
  "no_overlap cs \<longleftrightarrow> distinct cs \<and> (\<forall>c \<in> set cs. \<forall>d \<in> set cs. inside c d \<longrightarrow> c = d)"

lemma deduplicated_texts:
  assumes "netaddr_ok na" and "set ks \<subseteq> set (normalize_cidrs vs)" and "distinct ks"
  shows "set (fst (deduplicated na n (map (na_net na) ks) l)) = set ks"
    and "distinct (fst (deduplicated na n (map (na_net na) ks) l))"
    and "length (fst (deduplicated na n (map (na_net na) ks) l)) = length ks"
proof -
  have show_ks: "\<And>c. c \<in> set ks \<Longrightarrow> na_show na (na_net na c) = c"
    using network_normalized(4) [OF assms(1)] assms(2) by blast
  have inj: "inj_on (na_show na) (na_net na ` set ks)"
    by (rule inj_on_inverseI [of _ "na_net na"]) (auto simp add: show_ks)
  have "distinct (map (na_net na) ks)"
    using assms inj_on_na_net [OF assms(1)] by (auto simp add: distinct_map intro: inj_on_subset)
  then show "distinct (fst (deduplicated na n (map (na_net na) ks) l))"
    using inj by (simp add: deduplicated_def Let_def distinct_map)
  show "set (fst (deduplicated na n (map (na_net na) ks) l)) = set ks"
    using show_ks by (auto simp add: deduplicated_def Let_def image_image)
  show "length (fst (deduplicated na n (map (na_net na) ks) l)) = length ks"
    by (simp add: deduplicated_def Let_def)
qed

lemma trimmed_texts:
  assumes na: "netaddr_ok na" and ks: "set ks \<subseteq> set (normalize_cidrs vs)" "distinct ks"
  shows "set (fst (trimmed na n (map (na_net na) ks) l)) \<subseteq> set ks"
    and "distinct (fst (trimmed na n (map (na_net na) ks) l))"
    and "length (fst (trimmed na n (map (na_net na) ks) l)) = min l (length ks)"
    and "\<And>c d. c \<in> set ks \<Longrightarrow> c \<notin> set (fst (trimmed na n (map (na_net na) ks) l))
      \<Longrightarrow> d \<in> set (fst (trimmed na n (map (na_net na) ks) l)) \<Longrightarrow> prefixlen (net_of d) \<le> prefixlen (net_of c)"
proof -
  let ?k = "\<lambda>n. (na_prefixlen na n, na_ip na n)"
  let ?all = "sort_key ?k (map (na_net na) ks)"
  let ?t = "take l ?all"
  have shown: "fst (trimmed na n (map (na_net na) ks) l) = map (na_show na) ?t"
    by (simp add: trimmed_def Let_def)
  have show_ks: "\<And>c. c \<in> set ks \<Longrightarrow> na_show na (na_net na c) = c"
    using network_normalized(4) [OF na] ks(1) by blast
  have sub: "set ?t \<subseteq> na_net na ` set ks" by (rule order_trans [OF set_take_subset]) simp
  show "set (fst (trimmed na n (map (na_net na) ks) l)) \<subseteq> set ks"
    unfolding shown using sub show_ks by auto
  show "length (fst (trimmed na n (map (na_net na) ks) l)) = min l (length ks)"
    unfolding shown by simp
  have "inj_on (na_show na) (na_net na ` set ks)"
    by (rule inj_on_inverseI [of _ "na_net na"]) (auto simp add: show_ks)
  moreover
  have "distinct (map (na_net na) ks)"
    using ks inj_on_na_net [OF na] by (auto simp add: distinct_map intro: inj_on_subset)
  then have "distinct ?t" by (intro distinct_take) simp
  ultimately show "distinct (fst (trimmed na n (map (na_net na) ks) l))"
    unfolding shown distinct_map using sub by (auto intro: inj_on_subset)
  show "prefixlen (net_of d) \<le> prefixlen (net_of c)"
    if c: "c \<in> set ks" "c \<notin> set (fst (trimmed na n (map (na_net na) ks) l))"
      and d: "d \<in> set (fst (trimmed na n (map (na_net na) ks) l))" for c d
  proof -
    obtain x where x: "x \<in> set ?t" "d = na_show na x" using d unfolding shown by auto
    then obtain e where e: "e \<in> set ks" "x = na_net na e" using sub by auto
    then have de: "x = na_net na d" "d \<in> set ks" using x show_ks by auto
    have "na_net na c \<notin> set ?t" using c show_ks [OF c(1)] unfolding shown by force
    then have "?k x \<le> ?k (na_net na c)" using take_sorted [OF x(1)] c(1) by simp
    then have "na_prefixlen na (na_net na d) \<le> na_prefixlen na (na_net na c)"
      unfolding de(1) by (auto simp add: less_eq_prod_def)
    moreover have "c \<in> set (normalize_cidrs vs)" "d \<in> set (normalize_cidrs vs)" using ks(1) de(2) c(1) by auto
    ultimately show ?thesis by (simp add: network_normalized(3) [OF na])
  qed
qed

lemma covered_or_full_set:
  assumes "\<And>c. c \<in> set ns \<Longrightarrow> \<exists>d \<in> set ks. inside c d" and "set ks \<subseteq> set res"
  shows "covered_or_full ns l res"
  using assms unfolding covered_or_full_def by blast

lemma covered_or_full_trimmed:
  assumes na: "netaddr_ok na" and ks: "set ks \<subseteq> set (normalize_cidrs vs)" "distinct ks"
    and cover: "\<And>c. c \<in> set (normalize_cidrs vs) \<Longrightarrow> \<exists>d \<in> set ks. inside c d" and l: "l \<le> length ks"
  shows "covered_or_full (normalize_cidrs vs) l (fst (trimmed na n (map (na_net na) ks) l))"
proof -
  let ?r = "fst (trimmed na n (map (na_net na) ks) l)"
  have "(\<exists>d \<in> set ?r. inside c d) \<or> length ?r = l \<and> (\<forall>d \<in> set ?r. prefixlen (net_of d) \<le> prefixlen (net_of c))"
    if c: "c \<in> set (normalize_cidrs vs)" for c
  proof -
    obtain e where e: "e \<in> set ks" "inside c e" using cover [OF c] by blast
    have wide: "prefixlen (net_of e) \<le> prefixlen (net_of c)"
      using inside_prefixlen [OF c _ e(2)] e(1) ks(1) by blast
    show ?thesis
    proof (cases "e \<in> set ?r")
      case True
      then show ?thesis using e(2) by blast
    next
      case False
      then have "prefixlen (net_of d) \<le> prefixlen (net_of c)" if "d \<in> set ?r" for d
        using trimmed_texts(4) [OF na ks e(1) False that] wide by linarith
      then show ?thesis using trimmed_texts(3) [OF na ks, of n l] l by (simp add: min_absorb1)
    qed
  qed
  then show ?thesis by (simp add: covered_or_full_def)
qed

lemma no_overlap_subset: "no_overlap ks \<Longrightarrow> set rs \<subseteq> set ks \<Longrightarrow> distinct rs \<Longrightarrow> no_overlap rs"
  by (auto simp add: no_overlap_def)

lemma compress_networks_spec:
  assumes na: "netaddr_ok na"
  shows "\<exists>res meta. compress_networks na (normalize_cidrs vs) (map (na_net na) (normalize_cidrs vs)) l = (res, meta)
    \<and> set res \<subseteq> set (normalize_cidrs vs) \<and> no_overlap res \<and> length res \<le> l
    \<and> covered_or_full (normalize_cidrs vs) l res
    \<and> (no_overlap (normalize_cidrs vs) \<longrightarrow> length res = min l (length (normalize_cidrs vs)))
    \<and> (0 < l \<and> normalize_cidrs vs \<noteq> [] \<longrightarrow> res \<noteq> [])"
proof -
  let ?ns = "normalize_cidrs vs"
  let ?c = "compress_networks na ?ns (map (na_net na) ?ns) l"
  obtain ks where kept: "non_redundant na (map (na_net na) ?ns) = map (na_net na) ks"
    and ks: "set ks \<subseteq> set ?ns" "distinct ks"
    and cover: "\<And>c. c \<in> set ?ns \<Longrightarrow> \<exists>d \<in> set ks. inside c d"
    and anti: "\<And>c d. c \<in> set ks \<Longrightarrow> d \<in> set ks \<Longrightarrow> inside c d \<Longrightarrow> c = d"
    by (rule non_redundant_normalized [OF na, where vs = vs]) blast
  have len: "length ks \<le> length ?ns"
    using ks by (metis card_mono distinct_card distinct_normalize finite_set)
  have same: "set ks = set ?ns" if "length ks = length ?ns"
    using ks that by (metis card_subset_eq distinct_card distinct_normalize finite_set)
  have all: "length ks = length ?ns" if "no_overlap ?ns"
  proof -
    have "set ?ns \<subseteq> set ks" using cover ks(1) that unfolding no_overlap_def by blast
    then show ?thesis using ks by (metis distinct_card distinct_normalize subset_antisym)
  qed
  have some: "ks \<noteq> []" if "?ns \<noteq> []"
    using cover [of "hd ?ns"] that by auto
  have ov: "no_overlap ks" using ks(2) anti by (simp add: no_overlap_def)
  note spec = deduplicated_texts [OF na ks] trimmed_texts [OF na ks]
  have run: "?c = (if length ks < length ?ns
      then if length ks \<le> l then deduplicated na (length ?ns) (map (na_net na) ks) l
           else trimmed na (length ?ns) (map (na_net na) ks) l
      else if length ?ns \<le> l then (?ns, None) else trimmed na (length ?ns) (map (na_net na) ks) l)"
    by (simp add: compress_networks_def Let_def kept)
  consider (dedup) "length ks < length ?ns" "length ks \<le> l"
    | (keep) "length ks = length ?ns" "length ?ns \<le> l" | (trim) "l < length ks"
    using len by linarith
  then show ?thesis
  proof cases
    case dedup
    have c: "?c = deduplicated na (length ?ns) (map (na_net na) ks) l" using dedup run by simp
    show ?thesis
      using dedup spec(1-3) [of "length ?ns" l] ks(1) all some covered_or_full_set [where res = "fst ?c" and l = l, OF cover]
        no_overlap_subset [OF ov, of "fst ?c"]
      by (intro exI [of _ "fst ?c"] exI [of _ "snd ?c"]) (auto simp add: c min_absorb2)
  next
    case keep
    have c: "?c = (?ns, None)" using keep run by simp
    then show ?thesis using keep same ov covered_or_full_set [where res = ?ns and l = l, OF cover] no_overlap_subset [OF ov, of ?ns]
      by (simp add: min_absorb2)
  next
    case trim
    have c: "?c = trimmed na (length ?ns) (map (na_net na) ks) l" using trim len run by auto
    show ?thesis
      using trim spec(4-6) [of "length ?ns" l] ks(1) len
        covered_or_full_trimmed [where l = l and n = "length ?ns", OF na ks cover] no_overlap_subset [OF ov, of "fst ?c"]
      by (intro exI [of _ "fst ?c"] exI [of _ "snd ?c"]) (auto simp add: c min_absorb1)
  qed
qed

text \<open>The function as a whole, for the package as documented.\<close>

lemma compress_cidrs_spec:
  assumes na: "netaddr_ok na"
  shows "\<exists>res meta. compress_cidrs_to_limit (Some na) cidrs (Some (int l)) = Inr (res, meta)
    \<and> set res \<subseteq> set (normalize_cidrs cidrs) \<and> no_overlap res \<and> length res \<le> l
    \<and> (0 < l \<longrightarrow> covered_or_full (normalize_cidrs cidrs) l res)
    \<and> (no_overlap (normalize_cidrs cidrs) \<longrightarrow> length res = min l (length (normalize_cidrs cidrs)))
    \<and> (0 < l \<and> normalize_cidrs cidrs \<noteq> [] \<longrightarrow> res \<noteq> [])"
proof (cases "normalize_cidrs cidrs = [] \<or> l = 0")
  case True
  then show ?thesis
    by (auto simp add: compress_cidrs_to_limit_def Let_def covered_or_full_def no_overlap_def)
next
  case False
  then have "compress_cidrs_to_limit (Some na) cidrs (Some (int l))
      = Inr (compress_networks na (normalize_cidrs cidrs) (map (na_net na) (normalize_cidrs cidrs)) l)"
    by (simp add: compress_cidrs_to_limit_def Let_def networks_normalized [OF na])
  then show ?thesis using compress_networks_spec [OF na, of cidrs l] by auto
qed

section \<open>Two concrete networks\<close>

definition net8 :: ipnet where
  "net8 = \<lparr>net_addr = V4 (10 * 2 ^ 24), prefixlen = 8\<rparr>"

definition net16 :: ipnet where
  "net16 = \<lparr>net_addr = V4 (10 * 2 ^ 24 + 2 ^ 16), prefixlen = 16\<rparr>"

lemma read_nets:
  "ip_network False ''10.0.0.0/8'' = Some net8" "ip_network False ''10.1.0.0/16'' = Some net16"
  by (rule ip_network_eval; simp add: net8_def net16_def eval_simps)+

lemma normalize_net8: "normalize_cidrs [''10.0.0.0/8''] = [''10.0.0.0/8'']"
proof -
  have "strip ''10.0.0.0/8'' = ''10.0.0.0/8''" by code_simp
  then show ?thesis
    by (simp add: read_nets normalize_cidrs_def normalize_cidr_def List.map_filter_simps sorted_set_def net8_def
        net_version_def show_net_def eval_simps)
qed

lemma normalize_net16: "normalize_cidrs [''10.1.0.0/16''] = [''10.1.0.0/16'']"
proof -
  have "strip ''10.1.0.0/16'' = ''10.1.0.0/16''" by code_simp
  then show ?thesis
    by (simp add: read_nets normalize_cidrs_def normalize_cidr_def List.map_filter_simps sorted_set_def net16_def
        net_version_def show_net_def eval_simps)
qed

end
