(* ===== verification/RouteLimitProps.thy ===== *)
theory RouteLimitProps
  imports RouteCompress "HOL-Library.Code_Target_Nat"
begin

text \<open>
  The limit for all lists together: it is kept and used up, the providers a detection marked as
  mandatory keep a route, and the estimate shown beforehand is what comes out.
\<close>

section \<open>Entries and their indices\<close>

abbreviation counts :: "'a route_entry_scheme list \<Rightarrow> nat \<Rightarrow> nat" where
  "counts entries \<equiv> nth_or 0 (map (\<lambda>e. length (en_cidrs e)) entries)"

abbreviation files :: "'a route_entry_scheme list \<Rightarrow> nat \<Rightarrow> string" where
  "files entries \<equiv> nth_or [] (map en_file entries)"

lemma counts_at [simp]: "i < length entries \<Longrightarrow> counts entries i = length (en_cidrs (entries ! i))"
  by (simp add: nth_or_def)

lemma files_at [simp]: "i < length entries \<Longrightarrow> files entries i = en_file (entries ! i)"
  by (simp add: nth_or_def)

lemma indices_facts:
  "distinct (non_empty_indices entries)"
  "i \<in> set (non_empty_indices entries) \<longleftrightarrow> i < length entries \<and> en_cidrs (entries ! i) \<noteq> []"
  by (auto simp add: non_empty_indices_def)

lemma sum_on_filter: "(\<And>i. i \<in> set is \<Longrightarrow> \<not> P i \<Longrightarrow> f i = 0) \<Longrightarrow> sum_on f (filter P is) = sum_on f is"
  by (induction "is") auto

lemma sum_counts: "sum_on (counts entries) (non_empty_indices entries) = total_cidrs entries"
proof -
  have "sum_on (counts entries) (non_empty_indices entries) = sum_on (counts entries) [0 ..< length entries]"
    unfolding non_empty_indices_def by (rule sum_on_filter) simp
  also have "\<dots> = total_cidrs entries"
    unfolding total_cidrs_def by (rule arg_cong [of _ _ sum_list]) (auto intro: nth_equalityI)
  finally show ?thesis .
qed

lemma distribute_entries:
  assumes "limit < total_cidrs entries" and "set mandatory \<subseteq> set priority"
  obtains b where "distribute limit (counts entries) (files entries) (non_empty_indices entries)
      mandatory priority m = Some b"
    and "budgets_ok (counts entries) (non_empty_indices entries) (b, limit)"
    and "total_cidrs entries * limit < 2 ^ 53
      \<Longrightarrow> length (filter (\<lambda>i. files entries i \<in> set mandatory) (non_empty_indices entries)) \<le> limit
      \<Longrightarrow> (\<forall>i \<in> set (non_empty_indices entries). files entries i \<in> set mandatory \<longrightarrow> 1 \<le> b i)"
  using distribute_result [where cnt = "counts entries" and name = "files entries" and limit = limit and m = m
      and idx = "non_empty_indices entries" and mandatory = mandatory and priority = priority] assms
  by (auto simp add: indices_facts sum_counts)

lemma budget_sum:
  assumes "budgets_ok (counts entries) (non_empty_indices entries) (b, limit)"
  shows "sum_on b [0 ..< length entries] = limit" and "i < length entries \<Longrightarrow> b i \<le> length (en_cidrs (entries ! i))"
proof -
  have b: "\<And>i. i \<notin> set (non_empty_indices entries) \<Longrightarrow> b i = 0"
    "limit = sum_on b (non_empty_indices entries)"
    "\<And>i. i \<in> set (non_empty_indices entries) \<Longrightarrow> b i \<le> counts entries i"
    using assms by (auto simp add: budgets_ok_def)
  have "sum_on b (non_empty_indices entries) = sum_on b [0 ..< length entries]"
    unfolding non_empty_indices_def by (rule sum_on_filter) (use b(1) in \<open>auto simp add: indices_facts\<close>)
  then show "sum_on b [0 ..< length entries] = limit" using b(2) by simp
  have "b i \<le> counts entries i" using b(1,3) by (cases "i \<in> set (non_empty_indices entries)") auto
  then show "i < length entries \<Longrightarrow> b i \<le> length (en_cidrs (entries ! i))" by simp
qed

lemma enumerate_map: "map (\<lambda>x. f (fst x) (snd x)) (List.enumerate 0 xs) = map (\<lambda>i. f i (xs ! i)) [0 ..< length xs]"
  by (auto simp add: enumerate_eq_zip intro: nth_equalityI)

section \<open>What becomes of one entry\<close>

definition shortened :: "'n netaddr \<Rightarrow> string list \<Rightarrow> nat \<Rightarrow> string list" where
  "shortened na cidrs n = fst (projr (compress_cidrs_to_limit (Some na) cidrs (Some (int n))))"

lemma shortened_spec:
  assumes na: "netaddr_ok na"
  shows "set (shortened na cs l) \<subseteq> set (normalize_cidrs cs)" and "no_overlap (shortened na cs l)"
    and "length (shortened na cs l) \<le> l"
    and "no_overlap (normalize_cidrs cs) \<Longrightarrow> length (shortened na cs l) = min l (length (normalize_cidrs cs))"
    and "0 < l \<Longrightarrow> normalize_cidrs cs \<noteq> [] \<Longrightarrow> shortened na cs l \<noteq> []"
    and "0 < l \<Longrightarrow> covered_or_full (normalize_cidrs cs) l (shortened na cs l)"
  using compress_cidrs_spec [OF na, of cs l] by (auto simp add: shortened_def)

lemma adjust_entry_result:
  assumes na: "netaddr_ok na"
  shows "\<exists>e' r. adjust_entry (Some na) mandatory priority b (i, e) = Inr (e', r)
    \<and> en_cidrs e' = shortened na (en_cidrs e) (b i) \<and> en_file e' = en_file e
    \<and> route_entry.more e' = route_entry.more e
    \<and> r = \<lparr>fr_file = en_file e, fr_original = length (en_cidrs e), fr_compressed = length (shortened na (en_cidrs e) (b i)),
        fr_budget = b i, fr_priority = en_file e \<in> set priority, fr_mandatory = en_file e \<in> set mandatory\<rparr>"
proof -
  obtain res meta where c: "compress_cidrs_to_limit (Some na) (en_cidrs e) (Some (int (b i))) = Inr (res, meta)"
    using compress_cidrs_spec [OF na, of "en_cidrs e" "b i"] by blast
  then have "res = shortened na (en_cidrs e) (b i)" by (simp add: shortened_def)
  then show ?thesis using c by (auto simp add: adjust_entry_def Let_def split: option.split)
qed

text \<open>The adjusted entries and their reports, by position.\<close>

lemma adjust_all:
  assumes na: "netaddr_ok na"
  obtains rs where "traverseR (adjust_entry (Some na) mandatory priority b) (List.enumerate 0 entries) = Inr rs"
    and "length rs = length entries"
    and "\<And>i. i < length entries \<Longrightarrow> en_cidrs (fst (rs ! i)) = shortened na (en_cidrs (entries ! i)) (b i)
      \<and> en_file (fst (rs ! i)) = en_file (entries ! i)
      \<and> route_entry.more (fst (rs ! i)) = route_entry.more (entries ! i)
      \<and> snd (rs ! i) = \<lparr>fr_file = en_file (entries ! i), fr_original = length (en_cidrs (entries ! i)),
          fr_compressed = length (shortened na (en_cidrs (entries ! i)) (b i)), fr_budget = b i,
          fr_priority = en_file (entries ! i) \<in> set priority, fr_mandatory = en_file (entries ! i) \<in> set mandatory\<rparr>"
proof -
  let ?f = "adjust_entry (Some na) mandatory priority b"
  define rs where "rs = map (\<lambda>x. projr (?f x)) (List.enumerate 0 entries)"
  have each: "?f (i, e) = Inr (projr (?f (i, e)))" for i and e :: "'b route_entry_scheme"
    using adjust_entry_result [OF na, of mandatory priority b i e] by auto
  have "traverseR ?f (List.enumerate 0 entries) = Inr rs"
    unfolding rs_def by (rule traverseR_map) (metis each surj_pair)
  moreover have "length rs = length entries" by (simp add: rs_def)
  moreover have "rs ! i = projr (?f (i, entries ! i))" if "i < length entries" for i
    using that by (simp add: rs_def nth_enumerate_eq)
  ultimately show ?thesis
    using that adjust_entry_result [OF na, of mandatory priority b] by (metis fst_conv snd_conv sum.sel(2))
qed

lemma total_as_sum: "total_cidrs es = sum_on (\<lambda>i. length (en_cidrs (es ! i))) [0 ..< length es]"
  unfolding total_cidrs_def by (rule arg_cong [of _ _ sum_list]) (auto intro: nth_equalityI)

lemma limit_entries_result:
  assumes na: "netaddr_ok na" and over: "limit < total_cidrs entries" and sub: "set mandatory \<subseteq> set priority"
  shows "\<exists>b rs present sec.
    distribute limit (counts entries) (files entries) (non_empty_indices entries) mandatory priority m = Some b
    \<and> budgets_ok (counts entries) (non_empty_indices entries) (b, limit)
    \<and> (total_cidrs entries * limit < 2 ^ 53
      \<and> length (filter (\<lambda>i. files entries i \<in> set mandatory) (non_empty_indices entries)) \<le> limit
      \<longrightarrow> (\<forall>i \<in> set (non_empty_indices entries). files entries i \<in> set mandatory \<longrightarrow> 1 \<le> b i))
    \<and> limit_entries (Some na) entries limit mandatory priority m = Some (Inr (map fst rs,
        Some (report limit (total_cidrs entries) (total_cidrs (map fst rs)) (map snd rs) mandatory present sec)))
    \<and> present = map en_file (filter (\<lambda>e. en_file e \<in> set mandatory \<and> en_cidrs e \<noteq> []) (map fst rs))
    \<and> length rs = length entries
    \<and> (\<forall>i < length entries. en_cidrs (fst (rs ! i)) = shortened na (en_cidrs (entries ! i)) (b i)
      \<and> en_file (fst (rs ! i)) = en_file (entries ! i)
      \<and> route_entry.more (fst (rs ! i)) = route_entry.more (entries ! i)
      \<and> snd (rs ! i) = \<lparr>fr_file = en_file (entries ! i), fr_original = length (en_cidrs (entries ! i)),
          fr_compressed = length (shortened na (en_cidrs (entries ! i)) (b i)), fr_budget = b i,
          fr_priority = en_file (entries ! i) \<in> set priority, fr_mandatory = en_file (entries ! i) \<in> set mandatory\<rparr>)
    \<and> total_cidrs (map fst rs) \<le> limit"
proof -
  obtain b where b: "distribute limit (counts entries) (files entries) (non_empty_indices entries)
      mandatory priority m = Some b" "budgets_ok (counts entries) (non_empty_indices entries) (b, limit)"
    "total_cidrs entries * limit < 2 ^ 53
      \<Longrightarrow> length (filter (\<lambda>i. files entries i \<in> set mandatory) (non_empty_indices entries)) \<le> limit
      \<Longrightarrow> (\<forall>i \<in> set (non_empty_indices entries). files entries i \<in> set mandatory \<longrightarrow> 1 \<le> b i)"
    by (rule distribute_entries [OF over sub, where m = m]) blast
  obtain rs where rs: "traverseR (adjust_entry (Some na) mandatory priority b) (List.enumerate 0 entries) = Inr rs"
    "length rs = length entries"
    "\<And>i. i < length entries \<Longrightarrow> en_cidrs (fst (rs ! i)) = shortened na (en_cidrs (entries ! i)) (b i)
      \<and> en_file (fst (rs ! i)) = en_file (entries ! i)
      \<and> route_entry.more (fst (rs ! i)) = route_entry.more (entries ! i)
      \<and> snd (rs ! i) = \<lparr>fr_file = en_file (entries ! i), fr_original = length (en_cidrs (entries ! i)),
          fr_compressed = length (shortened na (en_cidrs (entries ! i)) (b i)), fr_budget = b i,
          fr_priority = en_file (entries ! i) \<in> set priority, fr_mandatory = en_file (entries ! i) \<in> set mandatory\<rparr>"
    by (rule adjust_all [OF na, where mandatory = mandatory and priority = priority and b = b and entries = entries]) blast
  have "total_cidrs (map fst rs) = sum_on (\<lambda>i. length (shortened na (en_cidrs (entries ! i)) (b i))) [0 ..< length entries]"
    unfolding total_as_sum length_map rs(2)
    by (rule arg_cong [of _ _ sum_list]) (auto simp add: rs(2,3))
  also have "\<dots> \<le> sum_on b [0 ..< length entries]"
    by (rule sum_on_mono) (rule shortened_spec(3) [OF na])
  also have "\<dots> = limit" by (rule budget_sum(1) [OF b(2)])
  finally have tot: "total_cidrs (map fst rs) \<le> limit" .
  have run: "limit_entries (Some na) entries limit mandatory priority m = Some (Inr (map fst rs,
      Some (report limit (total_cidrs entries) (total_cidrs (map fst rs)) (map snd rs) mandatory
        (map en_file (filter (\<lambda>e. en_file e \<in> set mandatory \<and> en_cidrs e \<noteq> []) (map fst rs)))
        (priority_section limit (non_empty_indices entries) priority m))))"
    by (simp add: limit_entries_def Let_def b(1) rs(1))
  show ?thesis using b run rs(2,3) tot by blast
qed

text \<open>The branches of the whole function when the limit is enforced.\<close>

lemma apply_limit_cases:
  assumes "0 < l"
  shows "apply_total_route_limit package True entries (Some l) p d m =
    (if total_cidrs entries \<le> nat l then Some (Inr (entries, None))
     else limit_entries package entries (nat l) (normalize_dpi_priority_files d)
       (normalize_dpi_priority_files p @ normalize_dpi_priority_files d) (normalize_priority_min_budget m))"
proof -
  have none: "total_cidrs entries = 0" if "non_empty_indices entries = []"
    using sum_counts [of entries] that by simp
  have "total_cidrs ([]::'a route_entry_scheme list) = 0" by (simp add: total_cidrs_def)
  then show ?thesis using assms none by (auto simp add: apply_total_route_limit_def Let_def)
qed

text \<open>The lists as the panel stores them: normalised, and without overlaps.\<close>

definition stored_lists :: "'a route_entry_scheme list \<Rightarrow> bool" where
  "stored_lists entries \<longleftrightarrow> (\<forall>e \<in> set entries. normalize_cidrs (en_cidrs e) = en_cidrs e \<and> no_overlap (en_cidrs e))"

section \<open>A concrete pair of lists\<close>

definition two_lists :: "route_entry list" where
  "two_lists = [\<lparr>en_file = ''google-ips.txt'', en_cidrs = [''10.0.0.0/8''], en_optimization = None\<rparr>,
     \<lparr>en_file = ''ovh-ips.txt'', en_cidrs = [''10.1.0.0/16''], en_optimization = None\<rparr>]"

lemma total_two_lists: "total_cidrs two_lists = 2"
  by (simp add: total_cidrs_def two_lists_def)

lemma stored_two_lists: "stored_lists two_lists"
  by (simp add: stored_lists_def two_lists_def normalize_net8 normalize_net16 no_overlap_def)

section \<open>Properties\<close>

text \<open>C32: A list compressed to a limit keeps networks of the normalised list only, at most as many as the limit, none
  inside another. Every network that was asked for is either covered by one that is kept, or the limit is
  used up by networks that are all at least as wide.\<close>

theorem compressed_list_covers:
  assumes na: "netaddr_ok na" and l: "0 < l"
  shows "\<exists>res meta. compress_cidrs_to_limit (Some na) cidrs (Some l) = Inr (res, meta)
    \<and> set res \<subseteq> set (normalize_cidrs cidrs) \<and> no_overlap res \<and> length res \<le> nat l
    \<and> (\<forall>c \<in> set (normalize_cidrs cidrs). (\<exists>d \<in> set res. inside c d)
         \<or> length res = nat l \<and> (\<forall>d \<in> set res. prefixlen (net_of d) \<le> prefixlen (net_of c)))"
  using compress_cidrs_spec [OF na, of cidrs "nat l"] l by (auto simp add: covered_or_full_def)

theorem compressed_list_covers_witness:
  "\<exists>res meta. compress_cidrs_to_limit (Some ipaddress_netaddr) [''10.0.0.0/8''] (Some 1) = Inr (res, meta)
    \<and> length res \<le> 1 \<and> (\<exists>d \<in> set res. inside ''10.0.0.0/8'' d)"
proof -
  obtain res meta where r: "compress_cidrs_to_limit (Some ipaddress_netaddr) [''10.0.0.0/8''] (Some 1) = Inr (res, meta)"
    "set res \<subseteq> {''10.0.0.0/8''}" "length res \<le> 1"
    "(\<exists>d \<in> set res. inside ''10.0.0.0/8'' d) \<or> length res = 1"
    using compressed_list_covers [OF ipaddress_netaddr_ok, of 1 "[''10.0.0.0/8'']"] by (auto simp add: normalize_net8)
  then have "\<exists>d \<in> set res. inside ''10.0.0.0/8'' d" by (cases res) auto
  then show ?thesis using r by blast
qed

text \<open>C9: Whatever the lists of the providers, their order and the settings, an enforced limit is kept: the
  routes of all lists together are at most the limit. Entries within the limit are left as they
  are. Otherwise every list is replaced by networks of its own normalised list, none of them inside another,
  and names and further keys of the entries stay.\<close>

theorem route_limit_kept:
  assumes na: "netaddr_ok na" and l: "0 < l"
  shows "\<exists>es' rep. apply_total_route_limit (Some na) True entries (Some l) p d m = Some (Inr (es', rep))
    \<and> total_cidrs es' \<le> nat l
    \<and> (total_cidrs entries \<le> nat l \<longrightarrow> es' = entries \<and> rep = None)
    \<and> (nat l < total_cidrs entries \<longrightarrow> list_all2 (\<lambda>e e'. set (en_cidrs e') \<subseteq> set (normalize_cidrs (en_cidrs e))
         \<and> no_overlap (en_cidrs e') \<and> en_file e' = en_file e \<and> route_entry.more e' = route_entry.more e) entries es')"
proof (cases "total_cidrs entries \<le> nat l")
  case True
  then show ?thesis using apply_limit_cases [OF l, of "Some na" entries p d m] by auto
next
  case False
  let ?d = "normalize_dpi_priority_files d" and ?p = "normalize_dpi_priority_files p"
  have over: "nat l < total_cidrs entries" and sub: "set ?d \<subseteq> set (?p @ ?d)" using False by simp_all
  obtain b rs present sec where r: "limit_entries (Some na) entries (nat l) ?d (?p @ ?d) (normalize_priority_min_budget m)
      = Some (Inr (map fst rs, Some (report (nat l) (total_cidrs entries) (total_cidrs (map fst rs)) (map snd rs) ?d present sec)))"
    "length rs = length entries" "total_cidrs (map fst rs) \<le> nat l"
    "\<And>i. i < length entries \<Longrightarrow> en_cidrs (fst (rs ! i)) = shortened na (en_cidrs (entries ! i)) (b i)
      \<and> en_file (fst (rs ! i)) = en_file (entries ! i) \<and> route_entry.more (fst (rs ! i)) = route_entry.more (entries ! i)"
    using limit_entries_result [OF na over sub, of "normalize_priority_min_budget m"] by blast
  have "list_all2 (\<lambda>e e'. set (en_cidrs e') \<subseteq> set (normalize_cidrs (en_cidrs e))
      \<and> no_overlap (en_cidrs e') \<and> en_file e' = en_file e \<and> route_entry.more e' = route_entry.more e) entries (map fst rs)"
    using r(2,4) shortened_spec(1,2) [OF na] by (auto simp add: list_all2_conv_all_nth)
  then show ?thesis using apply_limit_cases [OF l, of "Some na" entries p d m] False r(1,3) by auto
qed

theorem route_limit_kept_witness:
  "\<exists>es' rep. apply_total_route_limit (Some ipaddress_netaddr) True two_lists (Some 1) NoNames NoNames ''0''
      = Some (Inr (es', rep)) \<and> total_cidrs es' \<le> 1 \<and> map en_file es' = [''google-ips.txt'', ''ovh-ips.txt'']"
proof -
  obtain es' rep where r: "apply_total_route_limit (Some ipaddress_netaddr) True two_lists (Some 1) NoNames NoNames ''0''
      = Some (Inr (es', rep))" "total_cidrs es' \<le> 1" "length es' = length two_lists"
      "\<And>i. i < length two_lists \<Longrightarrow> en_file (es' ! i) = en_file (two_lists ! i)"
    using route_limit_kept [OF ipaddress_netaddr_ok, of 1 two_lists NoNames NoNames "''0''"]
    by (auto simp add: total_two_lists list_all2_conv_all_nth)
  then have "map en_file es' = map en_file two_lists" by (auto intro: nth_equalityI)
  then show ?thesis using r by (simp add: two_lists_def)
qed

text \<open>C19: A provider that is marked as mandatory and has a usable network keeps a route under every limit that
  leaves a route for each mandatory provider, as long as the number of routes times the limit stays
  below \<open>2 ^ 53\<close>, the range in which the division of lengths to a float rounds down correctly.\<close>

theorem mandatory_keeps_route:
  assumes na: "netaddr_ok na" and l: "0 < l" and small: "total_cidrs entries * nat l < 2 ^ 53"
    and few: "length (filter (\<lambda>e. en_file e \<in> set (normalize_dpi_priority_files d) \<and> en_cidrs e \<noteq> []) entries) \<le> nat l"
    and i: "i < length entries" "en_file (entries ! i) \<in> set (normalize_dpi_priority_files d)"
      "normalize_cidrs (en_cidrs (entries ! i)) \<noteq> []"
  shows "\<exists>es' rep. apply_total_route_limit (Some na) enforced entries (Some l) p d m = Some (Inr (es', rep))
    \<and> en_cidrs (es' ! i) \<noteq> []"
proof -
  have full: "en_cidrs (entries ! i) \<noteq> []"
    using i(3) by (auto simp add: normalize_cidrs_def List.map_filter_simps)
  consider (off) "\<not> enforced" | (under) "enforced" "total_cidrs entries \<le> nat l"
    | (over) "enforced" "nat l < total_cidrs entries" by linarith
  then show ?thesis
  proof cases
    case off
    then show ?thesis using full i(1) l by (auto simp add: apply_total_route_limit_def Let_def)
  next
    case under
    then show ?thesis using full apply_limit_cases [OF l, of "Some na" entries p d m] by auto
  next
    case over
    let ?d = "normalize_dpi_priority_files d" and ?p = "normalize_dpi_priority_files p"
    let ?idx = "non_empty_indices entries"
    have sub: "set ?d \<subseteq> set (?p @ ?d)" by simp
    obtain b rs present sec where b: "total_cidrs entries * nat l < 2 ^ 53
        \<and> length (filter (\<lambda>i. files entries i \<in> set ?d) ?idx) \<le> nat l
      \<longrightarrow> (\<forall>i \<in> set ?idx. files entries i \<in> set ?d \<longrightarrow> 1 \<le> b i)"
      and r: "limit_entries (Some na) entries (nat l) ?d (?p @ ?d) (normalize_priority_min_budget m)
        = Some (Inr (map fst rs, Some (report (nat l) (total_cidrs entries) (total_cidrs (map fst rs)) (map snd rs) ?d present sec)))"
      "length rs = length entries"
      "\<And>i. i < length entries \<Longrightarrow> en_cidrs (fst (rs ! i)) = shortened na (en_cidrs (entries ! i)) (b i)"
      using limit_entries_result [OF na over(2) sub, of "normalize_priority_min_budget m"] by blast
    have "length (filter (\<lambda>i. files entries i \<in> set ?d) ?idx)
        = length (filter (\<lambda>e. en_file e \<in> set ?d \<and> en_cidrs e \<noteq> []) (map ((!) entries) [0 ..< length entries]))"
      unfolding filter_map non_empty_indices_def filter_filter length_map comp_def
      by (rule arg_cong [of _ _ length], rule filter_cong) auto
    then have "length (filter (\<lambda>i. files entries i \<in> set ?d) ?idx) \<le> nat l" using few by (simp add: map_nth)
    then have "1 \<le> b i" using b small i(1,2) full by (simp add: indices_facts)
    then have "shortened na (en_cidrs (entries ! i)) (b i) \<noteq> []" using shortened_spec(5) [OF na _ i(3)] by simp
    then show ?thesis using apply_limit_cases [OF l, of "Some na" entries p d m] over r i(1) by auto
  qed
qed

theorem mandatory_keeps_route_witness:
  "\<exists>es' rep. apply_total_route_limit (Some ipaddress_netaddr) True two_lists (Some 1) NoNames (NamesText ''ovh-ips.txt'') ''0''
      = Some (Inr (es', rep)) \<and> en_cidrs (es' ! 1) \<noteq> []"
proof -
  have m: "normalize_dpi_priority_files (NamesText ''ovh-ips.txt'') = [''ovh-ips.txt'']" by code_simp
  have "length (filter (\<lambda>e. en_file e \<in> set (normalize_dpi_priority_files (NamesText ''ovh-ips.txt''))
      \<and> en_cidrs e \<noteq> []) two_lists) \<le> nat 1" unfolding m by (simp add: two_lists_def)
  moreover have "en_file (two_lists ! 1) \<in> set (normalize_dpi_priority_files (NamesText ''ovh-ips.txt''))"
    unfolding m by (simp add: two_lists_def)
  moreover have "normalize_cidrs (en_cidrs (two_lists ! 1)) \<noteq> []" "1 < length two_lists"
    by (simp_all add: two_lists_def normalize_net16)
  ultimately show ?thesis
    using mandatory_keeps_route [OF ipaddress_netaddr_ok, of 1 two_lists "NamesText ''ovh-ips.txt''" 1 True NoNames "''0''"]
    by (simp add: total_two_lists)
qed

text \<open>C24: The function returns for all entries and settings and whatever \<^verbatim>\<open>netaddr\<close> does: the loops that take
  routes back and hand out the rest come to an end. When the limit is applied, the budgets add up to the limit
  exactly, and no list has a budget above its length.\<close>

theorem route_limit_returns:
  shows "\<exists>res. apply_total_route_limit package enforced entries total_limit p d m = Some res
    \<and> (\<forall>es' rep. res = Inr (es', Some rep) \<and> lr_enforced rep \<longrightarrow>
         sum_list (map fr_budget (lr_files rep)) = lr_limit rep
         \<and> (\<forall>f \<in> set (lr_files rep). fr_budget f \<le> fr_original f))"
proof (cases "enforced \<and> (\<exists>l. total_limit = Some l \<and> 0 < l \<and> nat l < total_cidrs entries)")
  case False
  then show ?thesis
  proof (cases "enforced \<and> (\<exists>l. total_limit = Some l \<and> 0 < l)")
    case True
    then obtain l where l: "total_limit = Some l" "0 < l" "total_cidrs entries \<le> nat l" "enforced"
      using False by (auto simp add: not_less)
    then show ?thesis using apply_limit_cases [OF l(2), of package entries p d m] by simp
  next
    case none: False
    then show ?thesis
      by (cases total_limit) (auto simp add: apply_total_route_limit_def Let_def unlimited_report_def not_less)
  qed
next
  case True
  then obtain l where l: "total_limit = Some l" "0 < l" "nat l < total_cidrs entries" and en: enforced by blast
  let ?d = "normalize_dpi_priority_files d" and ?p = "normalize_dpi_priority_files p"
  let ?m = "normalize_priority_min_budget m"
  obtain b where b: "distribute (nat l) (counts entries) (files entries) (non_empty_indices entries) ?d (?p @ ?d) ?m = Some b"
    "budgets_ok (counts entries) (non_empty_indices entries) (b, nat l)"
    by (rule distribute_entries [OF l(3), of ?d "?p @ ?d" ?m]) auto
  let ?r = "traverseR (adjust_entry package ?d (?p @ ?d) b) (List.enumerate 0 entries)"
  have budgets: "map fr_budget (map snd rs) = map b [0 ..< length entries]
      \<and> (\<forall>f \<in> set (map snd rs). fr_budget f \<le> fr_original f)" if rs: "?r = Inr rs" for rs
  proof -
    have "list_all2 (\<lambda>x y. adjust_entry package ?d (?p @ ?d) b x = Inr y) (List.enumerate 0 entries) rs"
      using rs by (simp add: traverseR_Inr_iff)
    then have len: "length rs = length entries" and at: "\<And>i. i < length entries \<Longrightarrow>
        adjust_entry package ?d (?p @ ?d) b (i, entries ! i) = Inr (rs ! i)"
      by (auto simp add: list_all2_conv_all_nth nth_enumerate_eq)
    have one: "fr_budget (snd (rs ! i)) = b i \<and> fr_original (snd (rs ! i)) = length (en_cidrs (entries ! i))" if "i < length entries" for i
      using at [OF that] by (cases "rs ! i") (auto simp add: adjust_entry_def Let_def result_simps)
    have "map fr_budget (map snd rs) = map b [0 ..< length entries]"
      using len one by (auto intro: nth_equalityI)
    moreover have "fr_budget (snd (rs ! i)) \<le> fr_original (snd (rs ! i))" if "i < length rs" for i
      using one [of i] budget_sum(2) [OF b(2), of i] that len by simp
    ultimately show ?thesis by (auto simp add: in_set_conv_nth) (metis snd_conv)
  qed
  have run: "apply_total_route_limit package enforced entries total_limit p d m
      = limit_entries package entries (nat l) ?d (?p @ ?d) ?m"
    using apply_limit_cases [OF l(2), of package entries p d m] l en by simp
  show ?thesis
  proof (cases ?r)
    case (Inl e)
    then show ?thesis unfolding run by (simp add: limit_entries_def Let_def b(1))
  next
    case (Inr rs)
    have "sum_list (map fr_budget (map snd rs)) = nat l" using budgets [OF Inr] budget_sum(1) [OF b(2)] by simp
    then show ?thesis
      unfolding run using budgets [OF Inr] by (simp add: limit_entries_def Let_def b(1) Inr report_def)
  qed
qed

theorem route_limit_returns_witness:
  "\<exists>es' rep. apply_total_route_limit (Some ipaddress_netaddr) True two_lists (Some 1) NoNames NoNames ''0''
      = Some (Inr (es', Some rep)) \<and> sum_list (map fr_budget (lr_files rep)) = 1"
proof -
  have "normalize_dpi_priority_files NoNames = []" by (simp add: normalize_dpi_priority_files_def)
  then obtain es' rep where r: "apply_total_route_limit (Some ipaddress_netaddr) True two_lists (Some 1) NoNames NoNames ''0''
      = Some (Inr (es', Some rep))" "lr_enforced rep" "lr_limit rep = 1"
    using limit_entries_result [OF ipaddress_netaddr_ok, of 1 two_lists "[]" "[]" "normalize_priority_min_budget ''0''"]
      apply_limit_cases [of 1 "Some ipaddress_netaddr" two_lists NoNames NoNames "''0''"]
    by (auto simp add: total_two_lists report_def Let_def)
  then show ?thesis
    using route_limit_returns [of "Some ipaddress_netaddr" True two_lists "Some 1" NoNames NoNames "''0''"] by auto
qed

section \<open>The estimate\<close>

lemma hand_out_cong:
  assumes "distinct is" and "\<And>i n. i \<in> set is \<Longrightarrow> b i \<le> n \<Longrightarrow> grows i n \<longleftrightarrow> n < c i"
    and "\<And>i n. i \<in> set is \<Longrightarrow> b i \<le> n \<Longrightarrow> grows' i n \<longleftrightarrow> n < c i"
  shows "hand_out grows limit is (b, a) = hand_out grows' limit is (b, a)"
  using assms
proof (induction "is" arbitrary: b a)
  case Nil
  then show ?case by simp
next
  case (Cons i "is")
  let ?k = "min (c i - b i) (limit - a)"
  let ?b = "b(i := b i + ?k)"
  have w: "hand_out_while grows limit i (b, a) = Some (?b, a + ?k)"
    by (rule hand_out_while_result) (simp add: Cons.prems(2))
  have w': "hand_out_while grows' limit i (b, a) = Some (?b, a + ?k)"
    by (rule hand_out_while_result) (simp add: Cons.prems(3))
  have at: "?b j = b j" if "j \<in> set is" for j using that Cons.prems(1) by auto
  have "hand_out grows limit is (?b, a + ?k) = hand_out grows' limit is (?b, a + ?k)"
  proof (rule Cons.IH)
    show "distinct is" using Cons.prems(1) by simp
    show "grows j n \<longleftrightarrow> n < c j" "grows' j n \<longleftrightarrow> n < c j" if "j \<in> set is" "?b j \<le> n" for j n
      using that at [OF that(1)] Cons.prems(2,3) by (metis list.set_intros(2))+
  qed
  then show ?case by (simp only: hand_out.simps w w' option.simps snd_conv)
qed

lemma share_out_cong:
  assumes idx: "distinct idx" and ok: "budgets_ok cnt idx (b, r)"
    and grows: "\<And>i n. i \<in> set idx \<Longrightarrow> b i \<le> n \<Longrightarrow> grows (\<lambda>i. cnt i - b i) i n \<longleftrightarrow> n < cnt i"
    and grows': "\<And>i n. i \<in> set idx \<Longrightarrow> b i \<le> n \<Longrightarrow> grows' (\<lambda>i. cnt i - b i) i n \<longleftrightarrow> n < cnt i"
  shows "share_out grows limit cnt idx (b, r) = share_out grows' limit cnt idx (b, r)"
proof -
  let ?room = "\<lambda>i. cnt i - b i" and ?rem = "limit - r"
  let ?cap = "sum_on ?room idx"
  define b1 where "b1 = foldl (add_share ?room ?rem ?cap) b idx"
  have b1: "b i \<le> b1 i" for i unfolding b1_def foldl_extra [OF idx] by simp
  have same: "hand_out (grows ?room) limit (sort_desc k idx) (b1, n) = hand_out (grows' ?room) limit (sort_desc k idx) (b1, n)"
    for k :: "nat \<Rightarrow> rat" and n
  proof (rule hand_out_cong [where c = cnt])
    show "distinct (sort_desc k idx)" using idx by (simp add: sort_desc_def)
    show "grows ?room i n \<longleftrightarrow> n < cnt i" "grows' ?room i n \<longleftrightarrow> n < cnt i"
      if "i \<in> set (sort_desc k idx)" "b1 i \<le> n" for i n
      using grows [of i n] grows' [of i n] order_trans [OF b1 that(2)] that(1) by (simp_all add: sort_desc_def)
  qed
  have over: "\<exists>b2. drain limit (sort_desc (\<lambda>i. int (b1 i)) idx) (b1, sum_on b1 idx) = Some (b2, limit)"
    if "limit < sum_on b1 idx"
  proof -
    have "sort_desc (\<lambda>i. int (b1 i)) idx \<noteq> []"
    proof
      assume "sort_desc (\<lambda>i. int (b1 i)) idx = []"
      then have "idx = []" by (metis set_empty set_sort sort_desc_def)
      then show False using that by simp
    qed
    moreover have "distinct (sort_desc (\<lambda>i. int (b1 i)) idx)" using idx by (simp add: sort_desc_def)
    ultimately show ?thesis
      using drain_result [of "sort_desc (\<lambda>i. int (b1 i)) idx" limit "sum_on b1 idx" b1] that
      by (auto simp add: sum_on_sort [OF idx])
  qed
  show ?thesis
  proof (cases "limit < sum_on b1 idx")
    case True
    then obtain b2 where "drain limit (sort_desc (\<lambda>i. int (b1 i)) idx) (b1, sum_on b1 idx) = Some (b2, limit)"
      using over by blast
    then show ?thesis using True by (simp add: share_out_def Let_def b1_def [symmetric])
  next
    case False
    then show ?thesis using same by (simp add: share_out_def Let_def b1_def [symmetric])
  qed
qed

lemma foldl_cong_members:
  "(\<And>s x. x \<in> set xs \<Longrightarrow> f s x = g s x) \<Longrightarrow> foldl f s xs = foldl g s xs"
  by (induction xs arbitrary: s) auto

lemma estimate_distribute_eq:
  assumes idx: "distinct idx" and cnt: "\<And>i. i \<in> set idx \<Longrightarrow> 0 < cnt i" and sub: "set mandatory \<subseteq> set priority"
  shows "estimate_distribute limit cnt name idx mandatory priority m = distribute limit cnt name idx mandatory priority m"
proof (cases "limit < length idx")
  case True
  then show ?thesis by (simp add: estimate_distribute_def distribute_def)
next
  case False
  have "foldl (estimate_reserve_mandatory name mandatory) s idx = foldl (reserve_mandatory cnt name mandatory) s idx" for s
    by (rule foldl_cong_members) (auto simp add: estimate_reserve_mandatory_def reserve_mandatory_def dest: cnt)
  then have reserve: "estimate_reserve limit cnt name idx mandatory priority m = reserve limit cnt name idx mandatory priority m"
    by (simp add: estimate_reserve_def reserve_def Let_def)
  obtain b r where res: "reserve limit cnt name idx mandatory priority m = (b, r)" by force
  have ok: "budgets_ok cnt idx (b, r)"
    using reserve_result [where name = name and m = m and cnt = cnt, OF idx cnt _ sub, of limit] False
    by (simp add: res)
  have "share_out (\<lambda>room i budget. budget < cnt i) limit cnt idx (b, r) = share_out (has_room cnt) limit cnt idx (b, r)"
    by (rule share_out_cong [OF idx ok]) (use ok in \<open>auto simp add: has_room_def budgets_ok_def\<close>)
  then show ?thesis using False by (simp add: estimate_distribute_def distribute_def reserve res)
qed

definition counts_by_file :: "'a route_entry_scheme list \<Rightarrow> (string \<times> nat) list" where
  "counts_by_file entries = map (\<lambda>e. (en_file e, length (en_cidrs e))) entries"

lemma counts_by_file_simps [simp]:
  "map fst (counts_by_file es) = map en_file es" "map snd (counts_by_file es) = map (\<lambda>e. length (en_cidrs e)) es"
  "length (counts_by_file es) = length es"
  by (simp_all add: counts_by_file_def)

lemma estimate_indices:
  "filter (\<lambda>i. 0 < counts entries i) [0 ..< length entries] = non_empty_indices entries"
  unfolding non_empty_indices_def by (rule filter_cong) auto

text \<open>C28: The estimate shown before the lists are written never promises less than what is written: the file names are the
  same, in the same order, and no list comes out longer than estimated. When the lists are normalised and
  free of overlaps, the estimate is exact, and its report is that of the run but for the section on
  priorities.\<close>

theorem estimate_agrees:
  assumes na: "netaddr_ok na" and l: "0 < l"
  shows "\<exists>es' rep est rep'. apply_total_route_limit (Some na) True entries (Some l) p d m = Some (Inr (es', rep))
    \<and> apply_total_route_limit_counts True (counts_by_file entries) (Some l) configured p d m = Some (est, rep')
    \<and> list_all2 (\<lambda>x e. fst x = en_file e \<and> length (en_cidrs e) \<le> snd x) est es'
    \<and> (stored_lists entries \<longrightarrow> est = counts_by_file es'
         \<and> map_option (lr_priority_update (\<lambda>_. None)) rep' = map_option (lr_priority_update (\<lambda>_. None)) rep)"
proof (cases "total_cidrs entries \<le> nat l")
  case True
  have "apply_total_route_limit_counts True (counts_by_file entries) (Some l) configured p d m
      = Some (counts_by_file entries, None)"
    using True l by (simp add: apply_total_route_limit_counts_def Let_def total_cidrs_def)
  moreover have "list_all2 (\<lambda>x e. fst x = en_file e \<and> length (en_cidrs e) \<le> snd x) (counts_by_file entries) entries"
    by (simp add: counts_by_file_def list_all2_conv_all_nth)
  ultimately show ?thesis using True apply_limit_cases [OF l, of "Some na" entries p d m] by simp
next
  case False
  let ?d = "normalize_dpi_priority_files d" and ?p = "normalize_dpi_priority_files p"
  let ?m = "normalize_priority_min_budget m" and ?idx = "non_empty_indices entries"
  have over: "nat l < total_cidrs entries" and sub: "set ?d \<subseteq> set (?p @ ?d)" using False by simp_all
  obtain b rs present sec where b: "distribute (nat l) (counts entries) (files entries) ?idx ?d (?p @ ?d) ?m = Some b"
      "budgets_ok (counts entries) ?idx (b, nat l)"
    and r: "limit_entries (Some na) entries (nat l) ?d (?p @ ?d) ?m
      = Some (Inr (map fst rs, Some (report (nat l) (total_cidrs entries) (total_cidrs (map fst rs)) (map snd rs) ?d present sec)))"
    and present: "present = map en_file (filter (\<lambda>e. en_file e \<in> set ?d \<and> en_cidrs e \<noteq> []) (map fst rs))"
    and rs: "length rs = length entries"
    "\<And>i. i < length entries \<Longrightarrow> en_cidrs (fst (rs ! i)) = shortened na (en_cidrs (entries ! i)) (b i)
      \<and> en_file (fst (rs ! i)) = en_file (entries ! i)
      \<and> snd (rs ! i) = \<lparr>fr_file = en_file (entries ! i), fr_original = length (en_cidrs (entries ! i)),
          fr_compressed = length (shortened na (en_cidrs (entries ! i)) (b i)), fr_budget = b i,
          fr_priority = en_file (entries ! i) \<in> set (?p @ ?d), fr_mandatory = en_file (entries ! i) \<in> set ?d\<rparr>"
    using limit_entries_result [OF na over sub, of ?m] by blast
  let ?ef = "estimate_file ?d (?p @ ?d) (counts entries) ?idx b"
  define xs where "xs = map ?ef (List.enumerate 0 (map en_file entries))"
  have lxs: "length xs = length entries" by (simp add: xs_def)
  have zero: "b i = 0" if "i < length entries" "i \<notin> set ?idx" for i using b(2) that by (simp add: budgets_ok_def)
  have cut: "b i \<le> length (en_cidrs (entries ! i))" if "i < length entries" for i using budget_sum(2) [OF b(2) that] .
  have xs: "xs ! i = ((en_file (entries ! i), b i), \<lparr>fr_file = en_file (entries ! i),
      fr_original = length (en_cidrs (entries ! i)), fr_compressed = b i, fr_budget = b i,
      fr_priority = en_file (entries ! i) \<in> set (?p @ ?d), fr_mandatory = en_file (entries ! i) \<in> set ?d\<rparr>)"
    if i: "i < length entries" for i
    using i zero [OF i] cut [OF i] by (auto simp add: xs_def nth_enumerate_eq estimate_file_def Let_def indices_facts)
  have some: "?idx \<noteq> []"
  proof
    assume "?idx = []"
    then show False using sum_counts [of entries] over by simp
  qed
  have est: "estimate_distribute (nat l) (counts entries) (files entries) ?idx ?d (?p @ ?d) ?m = Some b"
    using estimate_distribute_eq [of ?idx "counts entries" ?d "?p @ ?d"] b(1) sub by (simp add: indices_facts)
  obtain sec' where e: "apply_total_route_limit_counts True (counts_by_file entries) (Some l) configured p d m
      = Some (map fst xs, Some (report (nat l) (total_cidrs entries) (sum_list (map snd (map fst xs))) (map snd xs) ?d
          (map fst (filter (\<lambda>(f, n). f \<in> set ?d \<and> 0 < n) (map fst xs))) sec'))"
    using over l some est
    by (simp add: apply_total_route_limit_counts_def Let_def estimate_indices xs_def
        total_cidrs_def [symmetric] not_le del: map_map)
  have run: "apply_total_route_limit (Some na) True entries (Some l) p d m = Some (Inr (map fst rs,
      Some (report (nat l) (total_cidrs entries) (total_cidrs (map fst rs)) (map snd rs) ?d present sec)))"
    using apply_limit_cases [OF l, of "Some na" entries p d m] over r by simp
  have le: "list_all2 (\<lambda>x e. fst x = en_file e \<and> length (en_cidrs e) \<le> snd x) (map fst xs) (map fst rs)"
    using xs rs lxs shortened_spec(3) [OF na] by (auto simp add: list_all2_conv_all_nth)
  have exact: "map fst xs = counts_by_file (map fst rs)
      \<and> report (nat l) (total_cidrs entries) (sum_list (map snd (map fst xs))) (map snd xs) ?d
          (map fst (filter (\<lambda>(f, n). f \<in> set ?d \<and> 0 < n) (map fst xs))) s
        = report (nat l) (total_cidrs entries) (total_cidrs (map fst rs)) (map snd rs) ?d present s"
    if st: "stored_lists entries" for s
  proof -
    have len: "length (shortened na (en_cidrs (entries ! i)) (b i)) = b i" if i: "i < length entries" for i
    proof -
      have "normalize_cidrs (en_cidrs (entries ! i)) = en_cidrs (entries ! i)" "no_overlap (en_cidrs (entries ! i))"
        using st nth_mem [OF i] by (auto simp add: stored_lists_def)
      then show ?thesis using shortened_spec(4) [OF na, of "en_cidrs (entries ! i)" "b i"] cut [OF i] by simp
    qed
    have eq: "map fst xs = counts_by_file (map fst rs)"
      using xs rs lxs len by (auto simp add: counts_by_file_def intro: nth_equalityI)
    moreover have "map snd xs = map snd rs"
      using xs rs lxs len by (auto intro: nth_equalityI)
    moreover have "map fst (filter (\<lambda>(f, n). f \<in> set ?d \<and> 0 < n) (counts_by_file (map fst rs))) = present"
      unfolding present counts_by_file_def filter_map map_map comp_def by simp
    moreover have "sum_list (map snd (counts_by_file (map fst rs))) = total_cidrs (map fst rs)"
      by (simp add: total_cidrs_def)
    ultimately show ?thesis by simp
  qed
  show ?thesis
    using run e le exact [of None] by (auto simp add: report_def Let_def)
qed

theorem estimate_agrees_witness:
  "\<exists>es' rep rep'. apply_total_route_limit (Some ipaddress_netaddr) True two_lists (Some 1) NoNames NoNames ''0''
      = Some (Inr (es', rep))
    \<and> apply_total_route_limit_counts True [(''google-ips.txt'', 1), (''ovh-ips.txt'', 1)] (Some 1) None NoNames NoNames ''0''
      = Some (counts_by_file es', rep')"
proof -
  have "counts_by_file two_lists = [(''google-ips.txt'', 1), (''ovh-ips.txt'', 1)]"
    by (simp add: counts_by_file_def two_lists_def)
  then show ?thesis
    using estimate_agrees [OF ipaddress_netaddr_ok, of 1 two_lists NoNames NoNames "''0''" None] stored_two_lists by auto
qed

text \<open>
  The shares are rounded down and what is left goes to one list after the other, each filled before the
  next: with lists of 100, 1 and 1 routes and a limit of 3 the first list takes all.
\<close>

lemma leftover_fills_one_list:
  "map_option (\<lambda>b. map b [0, 1, 2]) (distribute 3 (nth_or 0 [100, 1, 1])
     (nth_or [] [''amazon-ips.txt'', ''google-ips.txt'', ''ovh-ips.txt'']) [0, 1, 2] [] [] 0) = Some [3, 0, 0]"
  by code_simp

end
