(* ===== verification/GeoScopes.thy ===== *)
theory GeoScopes
  imports RouteLimit
begin

text \<open>
  The choice of networks by region (\<^verbatim>\<open>core/services/cidr/geo.py\<close>, the parsers of downloaded lists in
  \<^verbatim>\<open>cidr/parsers.py\<close>) and the collection from several sources (\<^verbatim>\<open>cidr/route_limits.py\<close>). Downloads are
  a parameter, as is the value that \<^verbatim>\<open>json.loads\<close> gives for a text.
\<close>

section \<open>Regions and countries\<close>

definition upper_char :: "char \<Rightarrow> string" where
  "upper_char c = (let n = code c in
     if 97 \<le> n \<and> n \<le> 122 \<or> 224 \<le> n \<and> n \<le> 254 \<and> n \<noteq> 247 then [char_of (n - 32)]
     else if n = 223 then ''SS'' else [c])"

definition upper :: "string \<Rightarrow> string" where
  "upper s = concat (map upper_char s)"

definition region_scope_names :: "string list" where
  "region_scope_names = [''all'', ''europe'', ''north-america'', ''central-america'', ''south-america'',
     ''asia-pacific'', ''asia-east'', ''asia-south'', ''asia-southeast'', ''oceania'', ''middle-east'',
     ''africa'', ''china'', ''government'', ''global'']"

definition strict_geo_bucket_scopes :: "string list" where
  "strict_geo_bucket_scopes = [''europe'', ''north-america'', ''central-america'', ''south-america'',
     ''asia-east'', ''asia-south'', ''asia-southeast'', ''oceania'', ''middle-east'', ''africa'']"

definition strict_asia_pacific_buckets :: "string list" where
  "strict_asia_pacific_buckets = [''asia-east'', ''asia-south'', ''asia-southeast'', ''oceania'']"

definition country_table :: "(string \<times> string list) list" where
  "country_table =
    [(''europe'', words ''AD AL AM AT AZ BA BE BG BY CH CY CZ DE DK EE ES FI FO FR GB GE GG GI GR HR HU''
        @ words ''IE IM IS IT JE KZ LI LT LU LV MC MD ME MK MT NL NO PL PT RO RS RU SE SI SK SM''
        @ words ''TR UA VA XK''),
     (''north-america'', words ''BM CA GL PM US''),
     (''central-america'', words ''BZ CR GT HN MX NI PA SV''),
     (''south-america'', words ''AR BO BR CL CO EC FK GF GY PE PY SR UY VE''),
     (''asia-east'', words ''CN HK JP KP KR MN MO TW''),
     (''asia-south'', words ''AF BD BT IN IR LK MV NP PK''),
     (''asia-southeast'', words ''BN ID KH LA MM MY PH SG TH TL VN''),
     (''oceania'', words ''AS AU CK FJ FM GU KI MH MP NC NF NR NU NZ PF PG PN PW SB TK TO TV VU WF WS''),
     (''middle-east'', words ''AE BH CY EG IL IQ IR JO KW LB OM PS QA SA SY TR YE''),
     (''africa'', words ''AO BF BI BJ BW CD CF CG CI CM CV DJ DZ EG EH ER ET GA GH GM GN GQ GW KE KM LR''
        @ words ''LS LY MA MG ML MR MU MW MZ NA NE NG RE RW SC SD SH SL SN SO SS ST SZ TD TG TN''
        @ words ''TZ UG YT ZA ZM ZW''),
     (''china'', words ''CN HK MO'')]"

definition country_codes_by_scope :: "string \<Rightarrow> string list option" where
  "country_codes_by_scope scope =
     (if scope = ''asia-pacific''
      then Some (concat (map (\<lambda>s. the (map_of country_table s))
             [''asia-east'', ''asia-south'', ''asia-southeast'', ''oceania'']))
      else map_of country_table scope)"

text \<open>The scopes come as nothing, as one text or as a list.\<close>

datatype raw_scopes = NoScopes | ScopeText string | ScopeList "string list"

definition normalize_region_scopes :: "raw_scopes \<Rightarrow> string list" where
  "normalize_region_scopes raw =
     (let values = (case raw of NoScopes \<Rightarrow> [''all''] | ScopeText s \<Rightarrow> [s] | ScopeList ss \<Rightarrow> ss);
          normalized = filter (\<lambda>t. t \<noteq> [] \<and> t \<in> set region_scope_names) (map (\<lambda>v. lower (strip v)) values)
      in if normalized = [] then [''all'']
         else if ''all'' \<in> set normalized then [''all'']
         else sorted_set normalized)"

definition starts_any :: "string list \<Rightarrow> string \<Rightarrow> bool" where
  "starts_any ps v \<longleftrightarrow> list_ex (\<lambda>p. starts_with p v) ps"

definition region_in_scope :: "string \<Rightarrow> string \<Rightarrow> bool" where
  "region_in_scope v scope =
     (if scope = ''global'' then v = ''global''
      else if scope = ''government'' then starts_with ''us-gov'' v
      else if scope = ''china'' then starts_any [''cn-'', ''china''] v
      else if scope = ''europe'' then starts_any [''eu-'', ''europe'', ''eusc-''] v \<or> v = ''eu'' \<or> v = ''eur''
      else if scope = ''north-america'' then starts_any [''us-'', ''ca-'', ''na-'', ''northamerica-''] v
      else if scope = ''central-america'' then
        starts_any [''mx-'', ''centralamerica'', ''central-america'', ''northamerica-south''] v
      else if scope = ''south-america'' then starts_any [''sa-'', ''southamerica'', ''south-america''] v
      else if scope = ''asia-east'' then
        starts_any [''asia-east'', ''ap-east'', ''asia-northeast'', ''ap-northeast''] v
      else if scope = ''asia-south'' then starts_any [''asia-south'', ''ap-south''] v
      else if scope = ''asia-southeast'' then starts_any [''asia-southeast'', ''ap-southeast''] v
      else if scope = ''oceania'' then starts_any [''australia'', ''oceania''] v
      else if scope = ''asia-pacific'' then starts_any [''ap-'', ''asia'', ''australia'', ''oceania''] v
      else if scope = ''middle-east'' then starts_any [''me-'', ''middleeast'', ''middle-east''] v
      else if scope = ''africa'' then starts_any [''af-'', ''africa''] v
      else False)"

definition matches_region_scope :: "string \<Rightarrow> raw_scopes \<Rightarrow> bool" where
  "matches_region_scope region raw =
     (let scopes = normalize_region_scopes raw; v = lower (strip region) in
      if ''all'' \<in> set scopes then True
      else if v = [] then False
      else list_ex (region_in_scope v) scopes)"

definition normalize_country_code :: "string \<Rightarrow> string" where
  "normalize_country_code cc = upper (strip cc)"

definition matches_country_scope :: "string \<Rightarrow> raw_scopes \<Rightarrow> bool" where
  "matches_country_scope country raw =
     (let scopes = normalize_region_scopes raw; cc = upper (strip country) in
      if ''all'' \<in> set scopes then True
      else if ''global'' \<in> set scopes then True
      else if cc = [] then False
      else list_ex (\<lambda>scope. case country_codes_by_scope scope of
             None \<Rightarrow> False | Some allowed \<Rightarrow> cc \<in> set allowed) scopes)"

definition country_strict_geo_buckets :: "string \<Rightarrow> string list" where
  "country_strict_geo_buckets country =
     (let cc = normalize_country_code country in
      if cc = [] then []
      else filter (\<lambda>scope. case country_codes_by_scope scope of
             None \<Rightarrow> False | Some allowed \<Rightarrow> cc \<in> set allowed) strict_geo_bucket_scopes)"

definition is_strict_geo_country_set :: "string list \<Rightarrow> bool" where
  "is_strict_geo_country_set codes =
     (let clean = filter (\<lambda>c. c \<noteq> []) (map normalize_country_code codes) in
      if clean = [] then False
      else if list_ex (\<lambda>c. length (country_strict_geo_buckets c) \<noteq> 1) clean then False
      else length (remdups (concat (map country_strict_geo_buckets clean))) = 1)"

definition scope_strict_geo_buckets :: "string \<Rightarrow> string list" where
  "scope_strict_geo_buckets region =
     (let v = lower (strip region) in
      if v = [] then []
      else if starts_any [''northamerica-south'', ''centralamerica'', ''central-america'', ''mx-''] v
        then [''central-america'']
      else if starts_with ''us-gov'' v then [''north-america'']
      else if starts_any [''cn-'', ''china''] v then [''asia-east'']
      else if starts_any [''eu-'', ''europe'', ''eusc-''] v \<or> v = ''eu'' \<or> v = ''eur'' then [''europe'']
      else if starts_any [''us-'', ''ca-'', ''na-'', ''northamerica-''] v then [''north-america'']
      else if starts_any [''sa-'', ''southamerica'', ''south-america''] v then [''south-america'']
      else if starts_any [''ap-east'', ''asia-east'', ''asia-northeast'', ''ap-northeast''] v then [''asia-east'']
      else if starts_any [''ap-south'', ''asia-south''] v then [''asia-south'']
      else if starts_any [''ap-southeast'', ''asia-southeast''] v then [''asia-southeast'']
      else if starts_any [''australia'', ''oceania''] v then [''oceania'']
      else if starts_any [''me-'', ''middleeast'', ''middle-east''] v then [''middle-east'']
      else if starts_any [''af-'', ''africa''] v then [''africa'']
      else if starts_any [''asia'', ''ap-'', ''asia-pacific''] v then strict_asia_pacific_buckets
      else [])"

definition allowed_buckets :: "string \<Rightarrow> string list" where
  "allowed_buckets scope =
     (if scope \<in> set strict_geo_bucket_scopes then [scope]
      else if scope = ''asia-pacific'' then strict_asia_pacific_buckets
      else if scope = ''china'' then [''asia-east'']
      else if scope = ''government'' then [''north-america'']
      else [])"

definition matches_strict_scope_value :: "string \<Rightarrow> raw_scopes \<Rightarrow> bool" where
  "matches_strict_scope_value region raw =
     (let scopes = normalize_region_scopes raw; v = lower (strip region) in
      if ''all'' \<in> set scopes then True
      else if v = [] then False
      else if ''global'' \<in> set scopes \<and> v = ''global'' then True
      else
        let buckets = scope_strict_geo_buckets v in
        if length buckets \<noteq> 1 then False
        else list_ex (\<lambda>b. b \<in> set (concat (map allowed_buckets scopes))) buckets)"

section \<open>Downloaded lists (cidr/parsers.py)\<close>

text \<open>
  A decoded JSON value. Numbers and truth values are kept as their truth value and their text; the text of
  a list or an object, never a region or a network, is cut to its first character.
\<close>

datatype json = JNull | JText string | JScalar bool string | JList "json list" | JObject "(string \<times> json) list"

fun truthy :: "json \<Rightarrow> bool" where
  "truthy JNull = False"
| "truthy (JText s) = (s \<noteq> [])"
| "truthy (JScalar b s) = b"
| "truthy (JList xs) = (xs \<noteq> [])"
| "truthy (JObject kvs) = (kvs \<noteq> [])"

fun text_of :: "json \<Rightarrow> string" where
  "text_of JNull = ''None''"
| "text_of (JText s) = s"
| "text_of (JScalar b s) = s"
| "text_of (JList xs) = ''[''"
| "text_of (JObject kvs) = [CHR 0x7B]"

text \<open>\<^verbatim>\<open>str(value or "")\<close>\<close>

definition text_or_empty :: "json \<Rightarrow> string" where
  "text_or_empty v = (if truthy v then text_of v else [])"

fun is_object :: "json \<Rightarrow> bool" where
  "is_object (JObject kvs) = True"
| "is_object v = False"

text \<open>\<^verbatim>\<open>value.get(key)\<close>, an \<^verbatim>\<open>AttributeError\<close> when the value is no object.\<close>

fun get_key :: "string \<Rightarrow> json \<Rightarrow> (string, json) result" where
  "get_key k (JObject kvs) = Inr (case map_of kvs k of None \<Rightarrow> JNull | Some v \<Rightarrow> v)"
| "get_key k v = Inl ''AttributeError''"

text \<open>\<^verbatim>\<open>for x in value or []\<close>\<close>

definition items_of :: "json \<Rightarrow> (string, json list) result" where
  "items_of v =
     (if \<not> truthy v then Inr []
      else (case v of
              JList xs \<Rightarrow> Inr xs
            | JText s \<Rightarrow> Inr (map (\<lambda>c. JText [c]) s)
            | JObject kvs \<Rightarrow> Inr (map (\<lambda>(k, _). JText k) kvs)
            | _ \<Rightarrow> Inl ''TypeError''))"

text \<open>\<^verbatim>\<open>value.get(key) or {}\<close>\<close>

definition object_or_empty :: "json \<Rightarrow> json" where
  "object_or_empty v = (if truthy v then v else JObject [])"

definition key_text :: "string \<Rightarrow> json \<Rightarrow> string" where
  "key_text k item = (case get_key k item of Inl e \<Rightarrow> [] | Inr v \<Rightarrow> text_or_empty v)"

text \<open>The items whose region passes: \<open>key\<close> names it.\<close>

definition regional_items :: "string \<Rightarrow> string list \<Rightarrow> bool \<Rightarrow> json list \<Rightarrow> json list" where
  "regional_items key scopes strict items =
     filter (\<lambda>item. is_object item \<and> matches_region_scope (key_text key item) (ScopeList scopes)
       \<and> (strict \<longrightarrow> matches_strict_scope_value (key_text key item) (ScopeList scopes))) items"

text \<open>The pairs of a network and a country in the geographical data of RIPE, in order.\<close>

definition location_pairs :: "json \<Rightarrow> (string, (string \<times> string) list) result" where
  "location_pairs location =
     (if \<not> is_object location then Inr []
      else bindR (get_key ''resources'' location) (\<lambda>r. bindR (items_of r) (\<lambda>resources.
        Inr (map (\<lambda>p. (p, normalize_country_code (key_text ''country'' location)))
          (filter (\<lambda>p. p \<noteq> []) (map (\<lambda>x. strip (text_or_empty x)) resources))))))"

definition resource_pairs :: "json \<Rightarrow> (string, (string \<times> string) list) result" where
  "resource_pairs item =
     (if \<not> is_object item then Inr []
      else bindR (get_key ''locations'' item) (\<lambda>l. bindR (items_of l) (\<lambda>locations.
        bindR (traverseR location_pairs locations) (\<lambda>ps. Inr (concat ps)))))"

definition add_country :: "(string \<times> string list) list \<Rightarrow> string \<times> string \<Rightarrow> (string \<times> string list) list" where
  "add_country m x =
     (case x of (prefix, country) \<Rightarrow>
        let cs = (case map_of m prefix of None \<Rightarrow> [] | Some cs \<Rightarrow> cs)
        in AList.update prefix (if country = [] then cs else List.insert country cs) m)"

definition country_candidates :: "string list \<Rightarrow> bool \<Rightarrow> (string \<times> string list) list \<Rightarrow> string list" where
  "country_candidates scopes strict m =
     map fst (filter (\<lambda>(resource, countries).
       \<not> (strict \<and> ''all'' \<notin> set scopes \<and> \<not> is_strict_geo_country_set countries)
       \<and> countries \<noteq> [] \<and> list_ex (\<lambda>c. matches_country_scope c (ScopeList scopes)) countries) m)"

definition cidr_lines :: "string \<Rightarrow> string list" where
  "cidr_lines t = filter (\<lambda>l. l \<noteq> [] \<and> \<not> starts_with ''#'' l) (map strip (splitlines t))"

text \<open>
  \<open>loads\<close> decodes a text, \<open>scan\<close> is the search for networks in a page. An exception is its name.
\<close>

definition extract_cidrs ::
  "(string \<Rightarrow> json option) \<Rightarrow> (string \<Rightarrow> string list) \<Rightarrow> string \<Rightarrow> string \<Rightarrow> raw_scopes \<Rightarrow> bool
     \<Rightarrow> (string, string list) result" where
  "extract_cidrs loads scan text_data format raw strict =
     (let scopes = normalize_region_scopes raw; all_scope = (''all'' \<in> set scopes) in
      if format = ''cidr_text'' then
        Inr (if all_scope then normalize_cidrs (cidr_lines text_data) else [])
      else if format = ''cidr_text_scan'' then
        Inr (if all_scope then normalize_cidrs (scan text_data) else [])
      else bindR (optionR ''JSONDecodeError'' (loads text_data)) (\<lambda>parsed.
        if format = ''aws_json'' then
          bindR (get_key ''prefixes'' parsed) (\<lambda>p. bindR (items_of p) (\<lambda>items.
            Inr (normalize_cidrs (map (key_text ''ip_prefix'') (regional_items ''region'' scopes strict items)))))
        else if format = ''google_json'' then
          bindR (get_key ''prefixes'' parsed) (\<lambda>p. bindR (items_of p) (\<lambda>items.
            Inr (normalize_cidrs (filter (\<lambda>v. v \<noteq> [])
              (map (key_text ''ipv4Prefix'') (regional_items ''scope'' scopes strict items))))))
        else if format = ''ripe_geo_json'' then
          bindR (get_key ''data'' parsed) (\<lambda>d. bindR (get_key ''located_resources'' (object_or_empty d)) (\<lambda>r.
            bindR (items_of r) (\<lambda>items. bindR (traverseR resource_pairs items) (\<lambda>ps.
              Inr (normalize_cidrs (country_candidates scopes strict (foldl add_country [] (concat ps))))))))
        else if format = ''ripe_json'' then
          (if \<not> all_scope then Inr []
           else bindR (get_key ''data'' parsed) (\<lambda>d. bindR (get_key ''prefixes'' (object_or_empty d)) (\<lambda>p.
             bindR (items_of p) (\<lambda>items.
               Inr (normalize_cidrs (map (key_text ''prefix'') (filter is_object items)))))))
        else Inl ''ValueError''))"

section \<open>Several sources (cidr/route_limits.py)\<close>

record cidr_source =
  src_name :: string
  src_url :: string
  src_format :: string

definition source_formats_with_geo :: "string list" where
  "source_formats_with_geo = [''aws_json'', ''google_json'', ''ripe_geo_json'']"

definition has_non_geo_sources :: "cidr_source list \<Rightarrow> bool" where
  "has_non_geo_sources sources = list_ex (\<lambda>s. src_format s \<notin> set source_formats_with_geo) sources"

definition supports_geo_scope :: "cidr_source list \<Rightarrow> bool" where
  "supports_geo_scope sources = list_ex (\<lambda>s. src_format s \<in> set source_formats_with_geo) sources"

record collection =
  co_merged :: "string list"
  co_names :: "string list"
  co_errors :: "string list"
  co_non_geo :: bool

text \<open>\<open>download\<close> gives the text behind an address or the text of an exception, \<open>extract\<close> the networks in it.\<close>

definition collect_source ::
  "(string \<Rightarrow> (string, string) result) \<Rightarrow> (string \<Rightarrow> string \<Rightarrow> raw_scopes \<Rightarrow> bool \<Rightarrow> (string, string list) result)
     \<Rightarrow> string list \<Rightarrow> bool \<Rightarrow> collection \<Rightarrow> cidr_source \<Rightarrow> collection" where
  "collect_source download extract scopes strict st src =
     (if ''all'' \<in> set scopes \<and> co_non_geo st \<and> src_format src \<in> set source_formats_with_geo then st
      else (case bindR (download (src_url src)) (\<lambda>t. bindR (extract t (src_format src) (ScopeList scopes) strict) (\<lambda>cidrs.
                   if cidrs = []
                   then Inl (if ''all'' \<notin> set scopes
                             then ''empty cidr payload for region scopes '' @ join '','' scopes
                             else ''empty cidr payload'')
                   else Inr cidrs)) of
              Inl e \<Rightarrow> st\<lparr>co_errors := co_errors st @ [e]\<rparr>
            | Inr cidrs \<Rightarrow>
                st\<lparr>co_merged := co_merged st @ cidrs, co_names := co_names st @ [src_name src],
                   co_non_geo := co_non_geo st \<or> src_format src \<notin> set source_formats_with_geo\<rparr>))"

definition collect_cidrs_from_sources ::
  "(string \<Rightarrow> (string, string) result) \<Rightarrow> (string \<Rightarrow> string \<Rightarrow> raw_scopes \<Rightarrow> bool \<Rightarrow> (string, string list) result)
     \<Rightarrow> cidr_source list \<Rightarrow> string list \<Rightarrow> bool \<Rightarrow> string list \<times> string \<times> string option" where
  "collect_cidrs_from_sources download extract sources scopes strict =
     (let st = foldl (collect_source download extract scopes strict)
            \<lparr>co_merged = [], co_names = [], co_errors = [], co_non_geo = False\<rparr> sources
      in if co_merged st \<noteq> [] then (sorted_set (co_merged st), join '', '' (co_names st), None)
         else ([], [], Some (if co_errors st \<noteq> [] then last (co_errors st) else ''unknown error'')))"

record optimization =
  om_original :: nat
  om_optimized :: nat
  om_scope :: string

definition optimize_cidrs_for_openvpn_routes ::
  "nat \<Rightarrow> (string \<Rightarrow> (string, string) result) \<Rightarrow> (string \<Rightarrow> string \<Rightarrow> raw_scopes \<Rightarrow> bool \<Rightarrow> (string, string list) result)
     \<Rightarrow> cidr_source list \<Rightarrow> raw_scopes \<Rightarrow> string list \<Rightarrow> string \<Rightarrow> bool
     \<Rightarrow> string list \<times> string \<times> optimization option" where
  "optimize_cidrs_for_openvpn_routes cidr_limit download extract sources raw cidrs source_name strict =
     (let scopes = normalize_region_scopes raw in
      if cidrs = [] \<or> ''all'' \<in> set scopes \<or> length cidrs \<le> cidr_limit \<or> \<not> has_non_geo_sources sources
      then (cidrs, source_name, None)
      else (case collect_cidrs_from_sources download extract sources [''all''] strict of
              (optimized, optimized_name, _) \<Rightarrow>
                if optimized = [] \<or> length cidrs \<le> length optimized then (cidrs, source_name, None)
                else (optimized, optimized_name @ '' [route-optimized]'',
                  Some \<lparr>om_original = length cidrs, om_optimized = length optimized,
                        om_scope = join '','' scopes\<rparr>)))"

text \<open>The limit of the settings: \<open>ios_max\<close> is \<^verbatim>\<open>OPENVPN_ROUTE_TOTAL_CIDR_LIMIT_MAX_IOS\<close>.\<close>

definition clamp_openvpn_route_total_cidr_limit :: "int \<Rightarrow> string \<Rightarrow> int \<Rightarrow> int" where
  "clamp_openvpn_route_total_cidr_limit ios_max value fallback =
     (case read_int (strip value) of
        None \<Rightarrow> fallback | Some parsed \<Rightarrow> if parsed \<le> 0 then fallback else min parsed ios_max)"

definition resolve_openvpn_route_total_cidr_limit :: "int \<Rightarrow> string option \<Rightarrow> string" where
  "resolve_openvpn_route_total_cidr_limit ios_max env =
     (let raw = (case env of None \<Rightarrow> show_int ios_max | Some v \<Rightarrow> if v = [] then show_int ios_max else v)
      in show_int (clamp_openvpn_route_total_cidr_limit ios_max (strip raw) ios_max))"

end
