(* ===== verification/RangeIndex.thy ===== *)
theory RangeIndex
  imports GeoScopes
begin

text \<open>
  Sets of networks with fast queries (\<^verbatim>\<open>cidr/antifilter.py\<close>) and the exclusion of Russian networks that
  rests on them (\<^verbatim>\<open>cidr/geo.py\<close>). An index is the sorted list of ranges, the list of their starts and, for each
  position, the largest end so far.
\<close>

section \<open>The index\<close>

record range_index =
  ri_ranges :: "(nat \<times> nat) list"
  ri_starts :: "nat list"
  ri_max_ends :: "int list"

text \<open>\<^verbatim>\<open>bisect_right\<close> of the standard library: the loop on \<open>lo\<close> and \<open>hi\<close>.\<close>

function bisect_loop :: "nat list \<Rightarrow> nat \<Rightarrow> nat \<Rightarrow> nat \<Rightarrow> nat" where
  "bisect_loop xs x lo hi =
     (if lo < hi then
        let mid = (lo + hi) div 2 in
        if x < xs ! mid then bisect_loop xs x lo mid else bisect_loop xs x (mid + 1) hi
      else lo)"
  by pat_completeness auto

termination
  by (relation "measure (\<lambda>(xs, x, lo, hi). hi - lo)") auto

declare bisect_loop.simps [simp del]

definition bisect_right :: "nat list \<Rightarrow> nat \<Rightarrow> nat" where
  "bisect_right xs x = bisect_loop xs x 0 (length xs)"

text \<open>\<open>prefix_max\<close> is the loop that carries the largest end, \<open>-1\<close> before the first.\<close>

fun prefix_max :: "int \<Rightarrow> (nat \<times> nat) list \<Rightarrow> int list" where
  "prefix_max cur [] = []"
| "prefix_max cur (r # rs) = (let cur' = max cur (int (snd r)) in cur' # prefix_max cur' rs)"

definition range_of :: "string \<Rightarrow> (nat \<times> nat) option" where
  "range_of c =
     (case ip_network False c of
        None \<Rightarrow> None
      | Some net \<Rightarrow> if 0 < prefixlen net then Some (net_int net, broadcast_int net) else None)"

definition build_antifilter_overlap_index :: "string list \<Rightarrow> range_index" where
  "build_antifilter_overlap_index cidr_strs =
     (let ranges = sort (List.map_filter range_of cidr_strs) in
      \<lparr>ri_ranges = ranges, ri_starts = map fst ranges, ri_max_ends = prefix_max (-1) ranges\<rparr>)"

definition cidr_overlaps_index :: "string \<Rightarrow> range_index \<Rightarrow> bool" where
  "cidr_overlaps_index c ix =
     (if ri_ranges ix = [] then False
      else (case ip_network False c of
              None \<Rightarrow> False
            | Some net \<Rightarrow>
                let idx = int (bisect_right (ri_starts ix) (broadcast_int net)) - 1
                in if idx < 0 then False else int (net_int net) \<le> ri_max_ends ix ! nat idx))"

definition cidr_contained_in_index :: "string \<Rightarrow> range_index \<Rightarrow> bool" where
  "cidr_contained_in_index c ix =
     (if ri_ranges ix = [] then False
      else (case ip_network False c of
              None \<Rightarrow> False
            | Some net \<Rightarrow>
                let idx = int (bisect_right (ri_starts ix) (net_int net)) - 1
                in if idx < 0 then False else int (broadcast_int net) \<le> ri_max_ends ix ! nat idx))"

section \<open>The list of the antifilter service\<close>

text \<open>The cache holds an index and the instant it runs out; the table has an optional row on its last refresh
  and the networks.\<close>

record 'i index_cache =
  ic_index :: "'i option"
  ic_expires_at :: int

record antifilter_table =
  af_meta :: "(string \<times> int) option"
  af_cidrs :: "string list"

definition load_antifilter_index ::
  "int \<Rightarrow> antifilter_table \<Rightarrow> range_index index_cache \<Rightarrow> range_index option \<times> range_index index_cache" where
  "load_antifilter_index now table cache =
     (if ic_index cache \<noteq> None \<and> now < ic_expires_at cache then (ic_index cache, cache)
      else (case af_meta table of
              None \<Rightarrow> (None, cache)
            | Some (refresh_status, cidr_count) \<Rightarrow>
                if refresh_status \<notin> {''ok'', ''partial''} \<or> cidr_count = 0 then (None, cache)
                else
                  let index = build_antifilter_overlap_index (af_cidrs table)
                  in (Some index, \<lparr>ic_index = Some index, ic_expires_at = now + 300 * 1000000\<rparr>)))"

section \<open>The exclusion of Russian networks\<close>

record ru_cache =
  ru_index :: "range_index option"
  ru_expires_at :: int
  ru_error :: "string option"

text \<open>\<open>response\<close> is the text that a download made now gives, or the text of its exception.\<close>

definition download_ru_country_cidrs :: "(string, string) result \<Rightarrow> (string, string list) result" where
  "download_ru_country_cidrs response = bindR response (\<lambda>t. Inr (normalize_cidrs (cidr_lines t)))"

definition ru_cache_ttl :: int where
  "ru_cache_ttl = 12 * 60 * 60 * 1000000"

definition get_ru_cidr_index ::
  "int \<Rightarrow> (string, string) result \<Rightarrow> ru_cache \<Rightarrow> (range_index option \<times> string option) \<times> ru_cache" where
  "get_ru_cidr_index now response cache =
     (if ru_index cache \<noteq> None \<and> now < ru_expires_at cache then ((ru_index cache, None), cache)
      else (case download_ru_country_cidrs response of
              Inl e \<Rightarrow> ((None, Some e), \<lparr>ru_index = None, ru_expires_at = now + 300 * 1000000, ru_error = Some e\<rparr>)
            | Inr cidrs \<Rightarrow>
                let index = build_antifilter_overlap_index cidrs
                in ((Some index, None),
                    \<lparr>ru_index = Some index, ru_expires_at = now + ru_cache_ttl, ru_error = None\<rparr>)))"

datatype exclusion = SourceUnavailable string | Applied nat nat

definition exclude_ru_country_cidrs ::
  "int \<Rightarrow> (string, string) result \<Rightarrow> ru_cache \<Rightarrow> string list \<Rightarrow> (string list \<times> exclusion option) \<times> ru_cache" where
  "exclude_ru_country_cidrs now response cache cidrs =
     (if cidrs = [] then ((cidrs, None), cache)
      else (case get_ru_cidr_index now response cache of
              ((None, error_text), cache') \<Rightarrow>
                (case error_text of
                   Some e \<Rightarrow> if e \<noteq> [] then ((cidrs, Some (SourceUnavailable e)), cache') else ((cidrs, None), cache')
                 | None \<Rightarrow> ((cidrs, None), cache'))
            | ((Some index, _), cache') \<Rightarrow>
                let filtered = filter (\<lambda>v. \<not> cidr_contained_in_index v index) cidrs;
                    removed_count = length cidrs - length filtered;
                    normalized_filtered = sorted_set filtered
                in if removed_count = 0 then ((normalized_filtered, None), cache')
                   else ((normalized_filtered, Some (Applied removed_count (length normalized_filtered))), cache')))"

end
