(* ===== verification/RangeIndexProps.thy ===== *)
theory RangeIndexProps
  imports RangeIndex RouteCompress
begin

text \<open>
  A query of an index is the search through all networks it was built from, and the exclusion of Russian networks
  removes what lies inside one of them.
\<close>

section \<open>The index\<close>

lemma bisect_loop_spec:
  assumes "sorted xs" and "lo \<le> hi" and "hi \<le> length xs"
    and "\<And>i. i < lo \<Longrightarrow> xs ! i \<le> x" and "\<And>i. hi \<le> i \<Longrightarrow> i < length xs \<Longrightarrow> x < xs ! i"
  shows "bisect_loop xs x lo hi \<le> length xs
    \<and> (\<forall>i < bisect_loop xs x lo hi. xs ! i \<le> x)
    \<and> (\<forall>i < length xs. bisect_loop xs x lo hi \<le> i \<longrightarrow> x < xs ! i)"
  using assms
proof (induction xs x lo hi rule: bisect_loop.induct)
  case (1 xs x lo hi)
  show ?case
  proof (cases "lo < hi")
    case False
    then have "bisect_loop xs x lo hi = lo" by (simp add: bisect_loop.simps)
    then show ?thesis using "1.prems" False by auto
  next
    case True
    let ?mid = "(lo + hi) div 2"
    have mid: "lo \<le> ?mid" "?mid < hi" "?mid < length xs" using True "1.prems" by auto
    show ?thesis
    proof (cases "x < xs ! ?mid")
      case less: True
      have run: "bisect_loop xs x lo hi = bisect_loop xs x lo ?mid"
        using True less by (simp add: bisect_loop.simps [of xs x lo hi] Let_def)
      have "x < xs ! i" if "?mid \<le> i" "i < length xs" for i
        using less sorted_nth_mono [OF "1.prems"(1) that] by simp
      then show ?thesis unfolding run
        using "1.IH"(1) [OF True refl less "1.prems"(1) mid(1) less_imp_le [OF mid(3)] "1.prems"(4)] by blast
    next
      case ge: False
      have run: "bisect_loop xs x lo hi = bisect_loop xs x (?mid + 1) hi"
        using True ge by (simp add: bisect_loop.simps [of xs x lo hi] Let_def)
      have "xs ! i \<le> x" if "i < ?mid + 1" for i
        using ge sorted_nth_mono [OF "1.prems"(1), of i ?mid] that mid by simp
      moreover have "?mid + 1 \<le> hi" using mid(2) by simp
      ultimately show ?thesis unfolding run
        using "1.IH"(2) [OF True refl ge "1.prems"(1) _ "1.prems"(3) _ "1.prems"(5)] by blast
    qed
  qed
qed

lemma bisect_right_spec:
  assumes "sorted xs"
  shows "bisect_right xs x \<le> length xs" and "i < length xs \<Longrightarrow> i < bisect_right xs x \<longleftrightarrow> xs ! i \<le> x"
  using bisect_loop_spec [OF assms, of 0 "length xs" x] unfolding bisect_right_def
  by (auto simp add: not_less)

lemma length_prefix_max [simp]: "length (prefix_max cur rs) = length rs"
  by (induction rs arbitrary: cur) (simp_all add: Let_def)

lemma prefix_max_le:
  "i < length rs \<Longrightarrow> v \<le> prefix_max cur rs ! i \<longleftrightarrow> v \<le> cur \<or> (\<exists>j \<le> i. v \<le> int (snd (rs ! j)))"
proof (induction rs arbitrary: cur i)
  case Nil
  then show ?case by simp
next
  case (Cons r rs)
  show ?case
  proof (cases i)
    case 0
    then show ?thesis by (simp add: Let_def le_max_iff_disj)
  next
    case (Suc k)
    have split: "(\<exists>j \<le> Suc k. v \<le> int (snd ((r # rs) ! j))) \<longleftrightarrow> v \<le> int (snd r) \<or> (\<exists>j \<le> k. v \<le> int (snd (rs ! j)))"
      by (metis Suc_le_mono less_eq_nat.simps(1) nat.exhaust nth_Cons_0 nth_Cons_Suc)
    show ?thesis unfolding Suc split using Cons.IH [of k] Cons.prems Suc by (auto simp add: Let_def le_max_iff_disj)
  qed
qed

lemma sorted_starts: "sorted (map fst (sort (rs :: (nat \<times> nat) list)))"
proof -
  have "sorted_wrt (\<le>) (sort rs)" by simp
  then show ?thesis
    unfolding sorted_map by (rule sorted_wrt_mono_rel [rotated]) (auto simp add: less_eq_prod_def)
qed

text \<open>The largest end among the ranges that start up to \<open>b\<close> is compared with \<open>a\<close>.\<close>

lemma query_spec:
  fixes rs :: "(nat \<times> nat) list"
  defines "ix \<equiv> \<lparr>ri_ranges = sort rs, ri_starts = map fst (sort rs), ri_max_ends = prefix_max (-1) (sort rs)\<rparr>"
  shows "(let idx = int (bisect_right (ri_starts ix) b) - 1
          in if idx < 0 then False else int a \<le> ri_max_ends ix ! nat idx)
    \<longleftrightarrow> (\<exists>r \<in> set rs. fst r \<le> b \<and> a \<le> snd r)"
proof -
  let ?ss = "sort rs" and ?n = "bisect_right (map fst (sort rs)) b"
  have n: "?n \<le> length ?ss" using bisect_right_spec(1) [OF sorted_starts] by (metis length_map)
  have at: "i < ?n \<longleftrightarrow> fst (?ss ! i) \<le> b" if "i < length ?ss" for i
    using bisect_right_spec(2) [OF sorted_starts, of i rs b] that by simp
  have "(\<exists>r \<in> set rs. fst r \<le> b \<and> a \<le> snd r) \<longleftrightarrow> (\<exists>i < length ?ss. fst (?ss ! i) \<le> b \<and> a \<le> snd (?ss ! i))"
    by (metis in_set_conv_nth set_sort)
  also have "\<dots> \<longleftrightarrow> (\<exists>i < ?n. a \<le> snd (?ss ! i))" using at n by (meson order_less_le_trans)
  finally have ex: "(\<exists>r \<in> set rs. fst r \<le> b \<and> a \<le> snd r) \<longleftrightarrow> (\<exists>i < ?n. a \<le> snd (?ss ! i))" .
  show ?thesis
  proof (cases "?n = 0")
    case True
    then show ?thesis unfolding ex by (simp add: ix_def)
  next
    case False
    then have "?n - 1 < length ?ss" using n by simp
    then have "int a \<le> prefix_max (-1) ?ss ! (?n - 1) \<longleftrightarrow> (\<exists>j \<le> ?n - 1. a \<le> snd (?ss ! j))"
      by (simp add: prefix_max_le)
    also have "\<dots> \<longleftrightarrow> (\<exists>j < ?n. a \<le> snd (?ss ! j))" using False by (metis Suc_pred' gr0I less_Suc_eq_le)
    finally show ?thesis unfolding ex using False by (simp add: ix_def nat_diff_distrib Let_def)
  qed
qed

lemma range_of_set:
  "r \<in> set (List.map_filter range_of cs)
     \<longleftrightarrow> (\<exists>d \<in> set cs. \<exists>n. ip_network False d = Some n \<and> 0 < prefixlen n \<and> r = (net_int n, broadcast_int n))"
  by (auto simp add: in_map_filter range_of_def split: option.splits if_splits)

lemma range_of_ex:
  "(\<exists>r \<in> set (List.map_filter range_of cs). P (fst r) (snd r))
     \<longleftrightarrow> (\<exists>d \<in> set cs. \<exists>n. ip_network False d = Some n \<and> 0 < prefixlen n \<and> P (net_int n) (broadcast_int n))"
  unfolding Bex_def range_of_set by (metis fst_conv snd_conv)

lemma ranges_meet:
  "net_range a \<inter> net_range b \<noteq> {} \<longleftrightarrow> net_int a \<le> broadcast_int b \<and> net_int b \<le> broadcast_int a"
proof -
  have eq: "net_range a \<inter> net_range b = {max (net_int a) (net_int b) ..< min (net_int a + num_addresses a) (net_int b + num_addresses b)}"
    by (auto simp add: net_range_def)
  have pos: "0 < num_addresses a" "0 < num_addresses b" by simp_all
  have "net_range a \<inter> net_range b \<noteq> {} \<longleftrightarrow> net_int a < net_int b + num_addresses b \<and> net_int b < net_int a + num_addresses a"
    unfolding eq using pos by auto
  then show ?thesis unfolding broadcast_int_def using pos by linarith
qed

text \<open>C29: A query of an index built from a list of networks answers as a search through the list would: the network
  overlaps, or lies inside, one of the networks of the list that has a prefix, as sets of integers. Texts that are no
  networks are neither found nor counted.\<close>

theorem index_queries_exact:
  "(cidr_overlaps_index c (build_antifilter_overlap_index cs) \<longleftrightarrow>
      (\<exists>net. ip_network False c = Some net \<and> (\<exists>d \<in> set cs. \<exists>n. ip_network False d = Some n
         \<and> 0 < prefixlen n \<and> net_range net \<inter> net_range n \<noteq> {})))
   \<and> (cidr_contained_in_index c (build_antifilter_overlap_index cs) \<longleftrightarrow>
      (\<exists>net. ip_network False c = Some net \<and> (\<exists>d \<in> set cs. \<exists>n. ip_network False d = Some n
         \<and> 0 < prefixlen n \<and> net_range net \<subseteq> net_range n)))"
proof -
  let ?rs = "List.map_filter range_of cs"
  let ?ix = "\<lparr>ri_ranges = sort ?rs, ri_starts = map fst (sort ?rs), ri_max_ends = prefix_max (-1) (sort ?rs)\<rparr>"
  have ix: "build_antifilter_overlap_index cs = ?ix" by (simp add: build_antifilter_overlap_index_def Let_def)
  have over: "cidr_overlaps_index c ?ix \<longleftrightarrow> (\<exists>net. ip_network False c = Some net
      \<and> (\<exists>r \<in> set ?rs. fst r \<le> broadcast_int net \<and> net_int net \<le> snd r))"
  proof (cases "sort ?rs = []")
    case True
    then have "set ?rs = {}" by (metis set_empty set_sort)
    then show ?thesis using True by (simp add: cidr_overlaps_index_def)
  next
    case False
    then show ?thesis
      unfolding cidr_overlaps_index_def query_spec by (simp split: option.split)
  qed
  have inside: "cidr_contained_in_index c ?ix \<longleftrightarrow> (\<exists>net. ip_network False c = Some net
      \<and> (\<exists>r \<in> set ?rs. fst r \<le> net_int net \<and> broadcast_int net \<le> snd r))"
  proof (cases "sort ?rs = []")
    case True
    then have "set ?rs = {}" by (metis set_empty set_sort)
    then show ?thesis using True by (simp add: cidr_contained_in_index_def)
  next
    case False
    then show ?thesis
      unfolding cidr_contained_in_index_def query_spec by (simp split: option.split)
  qed
  show ?thesis
    unfolding ix over inside ranges_meet net_range_subset
      range_of_ex [of cs "\<lambda>a b. a \<le> broadcast_int n \<and> net_int n \<le> b" for n]
      range_of_ex [of cs "\<lambda>a b. a \<le> net_int n \<and> broadcast_int n \<le> b" for n]
    by (auto simp add: conj_commute)
qed

section \<open>The exclusion\<close>

text \<open>The network \<open>c\<close> lies inside one of the downloaded list \<open>t\<close>.\<close>

definition in_list :: "string \<Rightarrow> string \<Rightarrow> bool" where
  "in_list t c \<longleftrightarrow> (\<exists>net. ip_network False c = Some net
     \<and> (\<exists>d \<in> set (normalize_cidrs (cidr_lines t)). net_range net \<subseteq> net_range (net_of d)))"

lemma normalized_prefix: "d \<in> set (normalize_cidrs vs) \<Longrightarrow> ip_network False d = Some (net_of d) \<and> 0 < prefixlen (net_of d)"
proof -
  assume d: "d \<in> set (normalize_cidrs vs)"
  then obtain v where v: "normalize_cidr v = Some d" by (auto simp add: normalize_cidrs_def in_map_filter)
  then obtain n where n: "ip_network False (strip v) = Some n" "prefixlen n \<noteq> 0" "d = show_net n"
    by (auto simp add: normalize_cidr_def Let_def split: if_splits option.splits)
  have "ipv4_net (net_of d)" "d = show_net (net_of d)" using normalized_net [OF d] by blast+
  then have net: "ip_network False d = Some (net_of d)" by (metis ip_network_show ipv4_net_def)
  have "net_plain n"
    using v n ip_network_ok [OF n(1)]
    by (cases "net_addr n") (auto simp add: normalize_cidr_def Let_def net_plain_def net_ok_def net_version_def split: if_splits)
  then have "net_of d = n" unfolding n(3) net_of_def by (simp add: ip_network_show)
  then show ?thesis using net n(2) by simp
qed

lemma contained_normalized:
  "cidr_contained_in_index c (build_antifilter_overlap_index (normalize_cidrs (cidr_lines t))) \<longleftrightarrow> in_list t c"
  using index_queries_exact [of c "normalize_cidrs (cidr_lines t)"] normalized_prefix
  unfolding in_list_def by (metis option.inject)

text \<open>The cache after a sequence of calls, each with its instant, the response a download gives then, and networks.\<close>

definition empty_ru_cache :: ru_cache where
  "empty_ru_cache = \<lparr>ru_index = None, ru_expires_at = 0, ru_error = None\<rparr>"

type_synonym exclusion_call = "int \<times> (string, string) result \<times> string list"

fun run_exclusions :: "ru_cache \<Rightarrow> exclusion_call list \<Rightarrow> ru_cache" where
  "run_exclusions cache [] = cache"
| "run_exclusions cache ((now, response, cidrs) # calls) =
     run_exclusions (snd (exclude_ru_country_cidrs now response cache cidrs)) calls"

definition cache_from :: "exclusion_call set \<Rightarrow> ru_cache \<Rightarrow> bool" where
  "cache_from calls cache \<longleftrightarrow> (\<forall>ix. ru_index cache = Some ix \<longrightarrow> (\<exists>now t cidrs. (now, Inr t, cidrs) \<in> calls
     \<and> ix = build_antifilter_overlap_index (normalize_cidrs (cidr_lines t)) \<and> ru_expires_at cache = now + ru_cache_ttl))"

lemma get_index_cache:
  assumes cache: "cache_from calls cache" and get: "get_ru_cidr_index now response cache = ((ix, e), cache')"
  shows "cache_from (insert (now, response, cidrs) calls) cache'
    \<and> (\<forall>i. ix = Some i \<longrightarrow> (\<exists>t. i = build_antifilter_overlap_index (normalize_cidrs (cidr_lines t))
      \<and> (response = Inr t \<or> (\<exists>n cs. (n, Inr t, cs) \<in> calls \<and> now < n + ru_cache_ttl))))
    \<and> (ix = None \<longrightarrow> (\<exists>m. response = Inl m \<and> e = Some m))"
proof (cases "ru_index cache \<noteq> None \<and> now < ru_expires_at cache")
  case True
  then have "ix = ru_index cache" "cache' = cache" using get by (auto simp add: get_ru_cidr_index_def)
  then show ?thesis using cache True by (fastforce simp add: cache_from_def)
next
  case False
  show ?thesis
  proof (cases response)
    case (Inl m)
    then have "ix = None" "e = Some m" "ru_index cache' = None"
      using get False by (auto simp add: get_ru_cidr_index_def download_ru_country_cidrs_def)
    then show ?thesis using Inl by (simp add: cache_from_def)
  next
    case (Inr t)
    let ?i = "build_antifilter_overlap_index (normalize_cidrs (cidr_lines t))"
    have "ix = Some ?i" "ru_index cache' = Some ?i" "ru_expires_at cache' = now + ru_cache_ttl"
      using get False Inr by (auto simp add: get_ru_cidr_index_def download_ru_country_cidrs_def Let_def)
    then show ?thesis using Inr by (auto simp add: cache_from_def)
  qed
qed

lemma exclude_cache:
  "snd (exclude_ru_country_cidrs now response cache cidrs)
     = (if cidrs = [] then cache else snd (get_ru_cidr_index now response cache))"
  by (auto simp add: exclude_ru_country_cidrs_def Let_def split: prod.split option.split if_splits)

lemma run_exclusions_cache:
  "cache_from done cache \<Longrightarrow> cache_from (done \<union> set calls) (run_exclusions cache calls)"
proof (induction calls arbitrary: "done" cache)
  case Nil
  then show ?case by simp
next
  case (Cons x calls)
  obtain now response cidrs where x: "x = (now, response, cidrs)" by (cases x)
  have "cache_from (insert x done) (snd (exclude_ru_country_cidrs now response cache cidrs))"
  proof (cases "cidrs = []")
    case True
    then show ?thesis using Cons.prems unfolding exclude_cache by (fastforce simp add: cache_from_def)
  next
    case False
    obtain ix e c' where "get_ru_cidr_index now response cache = ((ix, e), c')" by (metis surj_pair)
    then show ?thesis using get_index_cache [OF Cons.prems] False unfolding exclude_cache x by auto
  qed
  then show ?case using Cons.IH [of "insert x done"] by (simp add: x)
qed

text \<open>C30: After any sequence of calls, an exclusion either finds no list because the download just made failed, and then
  returns the networks as they are with the error, or removes exactly the networks inside a network of a list that
  was downloaded by this call or by one less than twelve hours before.\<close>

theorem exclusion_removes_inside:
  assumes "exclude_ru_country_cidrs now response (run_exclusions empty_ru_cache calls) cidrs = ((res, meta), cache')"
  shows "(\<exists>e. response = Inl e \<and> res = cidrs \<and> (e \<noteq> [] \<and> cidrs \<noteq> [] \<longrightarrow> meta = Some (SourceUnavailable e)))
    \<or> (\<exists>t. (response = Inr t \<or> (\<exists>n cs. (n, Inr t, cs) \<in> set calls \<and> now < n + ru_cache_ttl))
        \<and> set res = {c \<in> set cidrs. \<not> in_list t c} \<and> distinct res)
    \<or> cidrs = [] \<and> res = []"
proof (cases "cidrs = []")
  case True
  then show ?thesis using assms by (simp add: exclude_ru_country_cidrs_def)
next
  case False
  have "cache_from {} empty_ru_cache" by (simp add: cache_from_def empty_ru_cache_def)
  then have cache: "cache_from (set calls) (run_exclusions empty_ru_cache calls)"
    using run_exclusions_cache [of "{}"] by simp
  obtain ix e c' where get: "get_ru_cidr_index now response (run_exclusions empty_ru_cache calls) = ((ix, e), c')"
    by (metis surj_pair)
  note facts = get_index_cache [OF cache get, of cidrs]
  show ?thesis
  proof (cases ix)
    case None
    then obtain m where m: "response = Inl m" "e = Some m" using facts by blast
    from assms have "res = cidrs \<and> (m \<noteq> [] \<longrightarrow> meta = Some (SourceUnavailable m))"
      unfolding exclude_ru_country_cidrs_def get None m(2) using False by (simp split: if_splits)
    then show ?thesis using m(1) by blast
  next
    case (Some i)
    then obtain t where t: "i = build_antifilter_overlap_index (normalize_cidrs (cidr_lines t))"
      "response = Inr t \<or> (\<exists>n cs. (n, Inr t, cs) \<in> set calls \<and> now < n + ru_cache_ttl)" using facts by blast
    have "res = sorted_set (filter (\<lambda>v. \<not> cidr_contained_in_index v i) cidrs)"
      using assms False by (auto simp add: exclude_ru_country_cidrs_def get Some Let_def split: if_splits)
    then have "set res = {c \<in> set cidrs. \<not> in_list t c} \<and> distinct res"
      by (auto simp add: t(1) contained_normalized)
    then show ?thesis using t(2) by blast
  qed
qed

theorem exclusion_removes_inside_witness:
  "\<exists>meta cache'. exclude_ru_country_cidrs 0 (Inr ''10.0.0.0/8'') (run_exclusions empty_ru_cache []) [''10.1.0.0/16'']
     = (([], meta), cache')"
proof -
  have "cidr_lines ''10.0.0.0/8'' = [''10.0.0.0/8'']" by code_simp
  moreover have "net_range net16 \<subseteq> net_range net8"
    unfolding net_range_subset broadcast_int_def num_addresses_def
    by (simp add: net8_def net16_def net_int_def net_version_def width_def)
  ultimately have inside: "in_list ''10.0.0.0/8'' ''10.1.0.0/16''"
    by (simp add: in_list_def normalize_net8 read_nets net_of_def)
  obtain res meta cache' where r: "exclude_ru_country_cidrs 0 (Inr ''10.0.0.0/8'') (run_exclusions empty_ru_cache [])
      [''10.1.0.0/16''] = ((res, meta), cache')" by (metis surj_pair)
  then have "set res = {}" using exclusion_removes_inside [OF r] inside by auto
  then show ?thesis using r by simp
qed

text \<open>
  A failed download is to be asked for again after five minutes: the entry of the cache says so, but it holds no
  index, so that the next call downloads at once.
\<close>

lemma failure_is_not_cached:
  "get_ru_cidr_index now (Inl e) empty_ru_cache = ((None, Some e), cache)
     \<Longrightarrow> ru_expires_at cache = now + 300 * 1000000 \<and> get_ru_cidr_index now (Inr t) cache
       = ((Some (build_antifilter_overlap_index (normalize_cidrs (cidr_lines t))), None),
          \<lparr>ru_index = Some (build_antifilter_overlap_index (normalize_cidrs (cidr_lines t))),
           ru_expires_at = now + ru_cache_ttl, ru_error = None\<rparr>)"
  by (auto simp add: get_ru_cidr_index_def download_ru_country_cidrs_def empty_ru_cache_def Let_def)

end
