(* ===== verification/TrafficStore.thy ===== *)
theory TrafficStore
  imports TrafficLimit PySort RouteLimit "HOL-Library.AList"
begin

text \<open>
  The accounting of traffic: the tables \<^verbatim>\<open>traffic_session_state\<close>, \<^verbatim>\<open>user_traffic_stat\<close>,
  \<^verbatim>\<open>user_traffic_stat_protocol\<close> and \<^verbatim>\<open>user_traffic_sample\<close> (\<^verbatim>\<open>core/models.py\<close>) as lists of rows in the
  order of their ids, and the step that charges one snapshot of the counters to them, as written
  twice in the program: \<^verbatim>\<open>utils/traffic_sync.py\<close> (plain SQL, run by cron) and
  \<^verbatim>\<open>core/services/traffic_persistence.py\<close> (the panel). Ids are positions: a row is found by its index.
  The audit column \<^verbatim>\<open>updated_at\<close> is left out. The rows of the limits (\<^verbatim>\<open>TrafficLimit\<close>) are extended by the columns
  only the accounting uses, so that the limits read the same rows.
\<close>

section \<open>Tables\<close>

record session_row =
  session_key :: string
  sess_profile :: string
  sess_name :: string
  sess_real_address :: "string option"
  sess_virtual_address :: "string option"
  sess_connected_since_ts :: int
  last_bytes_received :: "int option"
  last_bytes_sent :: "int option"
  sess_active :: bool
  sess_last_seen_at :: datetime
  sess_ended_at :: "datetime option"

record user_row = traffic_stat +
  total_received_vpn :: "int option"
  total_sent_vpn :: "int option"
  total_received_antizapret :: "int option"
  total_sent_antizapret :: "int option"
  total_sessions :: "int option"
  first_seen_at :: datetime
  last_seen_at :: datetime

record protocol_row = user_row +
  stat_protocol :: string

record sample_row = traffic_sample +
  network_type :: string
  sample_protocol :: string

text \<open>Of the caches of peers only the column of the client's name is read here.\<close>

record traffic_db =
  sessions :: "session_row list"
  user_stats :: "user_row list"
  protocol_stats :: "protocol_row list"
  samples :: "sample_row list"
  peer_info_cache :: "string option list"
  peer_info_history :: "string option list"
  wg_peer_names :: "string option list"

section \<open>Snapshots\<close>

record traffic_client =
  cl_common_name :: "string option"
  cl_real_address :: "string option"
  cl_virtual_address :: "string option"
  cl_peer_public_key :: "string option"
  cl_session_kind :: "string option"
  cl_bytes_received :: "int option"
  cl_bytes_sent :: "int option"
  cl_connected_since_ts :: "int option"

record status_row =
  sr_profile :: string
  sr_clients :: "traffic_client list"
  sr_traffic_clients :: "traffic_client list option"

definition or_dash :: "string option \<Rightarrow> string" where
  "or_dash v = (case v of None \<Rightarrow> ''-'' | Some s \<Rightarrow> if s = [] then ''-'' else s)"

definition stored_or_empty :: "string option \<Rightarrow> string" where
  "stored_or_empty v = (case v of None \<Rightarrow> [] | Some s \<Rightarrow> s)"

definition strip_or_none :: "string option \<Rightarrow> string option" where
  "strip_or_none v = (let s = strip (stored_or_empty v) in if s = [] then None else Some s)"

definition snapshot_clients :: "status_row \<Rightarrow> traffic_client list" where
  "snapshot_clients row = (case sr_traffic_clients row of Some cs \<Rightarrow> cs | None \<Rightarrow> sr_clients row)"

definition build_session_key :: "string \<Rightarrow> traffic_client \<Rightarrow> string" where
  "build_session_key profile client =
     (let session_kind = lower (strip (stored_or_empty (cl_session_kind client))) in
      if session_kind = ''wireguard'' \<or> ends_with ''-wg'' profile then
        profile @ ''|wg|'' @ strip (or_dash (cl_common_name client)) @ ''|'' @
          strip (or_dash (cl_peer_public_key client)) @ ''|'' @ strip (or_dash (cl_virtual_address client))
      else
        profile @ ''|'' @ strip (or_dash (cl_common_name client)) @ ''|'' @
          strip (or_dash (cl_real_address client)) @ ''|'' @ strip (or_dash (cl_virtual_address client)) @ ''|'' @
          show_int (or_zero (cl_connected_since_ts client)))"

definition sync_session_key :: "string \<Rightarrow> traffic_client \<Rightarrow> string" where
  "sync_session_key profile client =
     (let session_kind = lower (strip (stored_or_empty (cl_session_kind client))) in
      if session_kind = ''wireguard'' \<or> ends_with ''-wg'' profile then
        let common_name = strip (or_dash (cl_common_name client));
            peer_public_key = strip (or_dash (cl_peer_public_key client));
            virtual_address = strip (or_dash (cl_virtual_address client))
        in profile @ ''|wg|'' @ common_name @ ''|'' @ peer_public_key @ ''|'' @ virtual_address
      else
        let common_name = strip (or_dash (cl_common_name client));
            real_address = strip (or_dash (cl_real_address client));
            virtual_address = strip (or_dash (cl_virtual_address client));
            connected_since_ts = or_zero (cl_connected_since_ts client)
        in profile @ ''|'' @ common_name @ ''|'' @ real_address @ ''|'' @ virtual_address @ ''|'' @
             show_int connected_since_ts)"

section \<open>Rows by key\<close>

text \<open>
  The dictionaries \<^verbatim>\<open>sessions_by_key\<close> and \<^verbatim>\<open>stats_by_user\<close> hold, for a key, the last row with it. Rows keep
  their key and a row is added only under a key the dictionary lacks, so the dictionary at any moment is
  read off the table.
\<close>

fun last_index :: "('a \<Rightarrow> bool) \<Rightarrow> 'a list \<Rightarrow> nat option" where
  "last_index P [] = None"
| "last_index P (x # xs) =
     (case last_index P xs of
        Some i \<Rightarrow> Some (Suc i)
      | None \<Rightarrow> if P x then Some 0 else None)"

definition session_index :: "session_row list \<Rightarrow> string \<Rightarrow> nat option" where
  "session_index rows key = last_index (\<lambda>row. session_key row = key) rows"

definition normalize_protocol_type :: "string option \<Rightarrow> string \<Rightarrow> string" where
  "normalize_protocol_type protocol_type fallback =
     (let protocol = lower (strip (case protocol_type of None \<Rightarrow> fallback | Some p \<Rightarrow> if p = [] then fallback else p)) in
      if protocol \<notin> {''openvpn'', ''wireguard''}
      then (if fallback \<in> {''openvpn'', ''wireguard''} then fallback else ''openvpn'')
      else protocol)"

definition sync_protocol_type :: "string option \<Rightarrow> string \<Rightarrow> string" where
  "sync_protocol_type protocol_type fallback =
     (let chosen = (case protocol_type of None \<Rightarrow> [] | Some p \<Rightarrow> p);
          chosen = (if chosen = [] then fallback else chosen);
          chosen = (if chosen = [] then ''openvpn'' else chosen);
          v = lower (strip chosen)
      in if v \<in> {''wg'', ''wireguard'', ''amneziawg'', ''awg''} then ''wireguard''
         else if v \<in> {''openvpn'', ''ovpn''} then ''openvpn''
         else fallback)"

definition stat_key :: "(string option \<Rightarrow> string \<Rightarrow> string) \<Rightarrow> protocol_row \<Rightarrow> string \<times> string" where
  "stat_key proto_of row = (strip (stored_or_empty (stat_name row)), proto_of (Some (stat_protocol row)) ''openvpn'')"

definition stat_index :: "(string option \<Rightarrow> string \<Rightarrow> string) \<Rightarrow> protocol_row list \<Rightarrow> string \<times> string \<Rightarrow> nat option" where
  "stat_index proto_of rows key = last_index (\<lambda>row. stat_key proto_of row = key) rows"

definition empty_user_row :: "string \<Rightarrow> datetime \<Rightarrow> user_row" where
  "empty_user_row name now =
     \<lparr>stat_name = Some name, total_received = Some 0, total_sent = Some 0,
      total_received_vpn = Some 0, total_sent_vpn = Some 0,
      total_received_antizapret = Some 0, total_sent_antizapret = Some 0,
      total_sessions = Some 0, first_seen_at = now, last_seen_at = now\<rparr>"

definition empty_protocol_row :: "string \<Rightarrow> string \<Rightarrow> datetime \<Rightarrow> protocol_row" where
  "empty_protocol_row name protocol now = user_row.extend (empty_user_row name now) \<lparr>stat_protocol = protocol\<rparr>"

section \<open>The snapshot of \<^verbatim>\<open>traffic_sync.py\<close>\<close>

definition insert_session_state ::
  "string \<Rightarrow> string \<Rightarrow> string \<Rightarrow> traffic_client \<Rightarrow> int \<Rightarrow> int \<Rightarrow> datetime \<Rightarrow> traffic_db \<Rightarrow> traffic_db" where
  "insert_session_state key profile common_name client current_rx current_tx now db =
     db\<lparr>sessions := sessions db @
       [\<lparr>session_key = key, sess_profile = profile, sess_name = common_name,
         sess_real_address = strip_or_none (cl_real_address client),
         sess_virtual_address = strip_or_none (cl_virtual_address client),
         sess_connected_since_ts = or_zero (cl_connected_since_ts client),
         last_bytes_received = Some current_rx, last_bytes_sent = Some current_tx,
         sess_active = True, sess_last_seen_at = now, sess_ended_at = None\<rparr>]\<rparr>"

definition seen_session :: "int \<Rightarrow> int \<Rightarrow> datetime \<Rightarrow> session_row \<Rightarrow> session_row" where
  "seen_session current_rx current_tx now row =
     row\<lparr>last_bytes_received := Some current_rx, last_bytes_sent := Some current_tx,
         sess_last_seen_at := now, sess_active := True, sess_ended_at := None\<rparr>"

definition update_session_state :: "nat \<Rightarrow> int \<Rightarrow> int \<Rightarrow> datetime \<Rightarrow> traffic_db \<Rightarrow> traffic_db" where
  "update_session_state row_id current_rx current_tx now db =
     db\<lparr>sessions := (sessions db)[row_id := seen_session current_rx current_tx now (sessions db ! row_id)]\<rparr>"

definition insert_stat_protocol :: "string \<Rightarrow> string \<Rightarrow> datetime \<Rightarrow> traffic_db \<Rightarrow> traffic_db" where
  "insert_stat_protocol common_name protocol now db =
     db\<lparr>protocol_stats := protocol_stats db @ [empty_protocol_row common_name protocol now]\<rparr>"

definition add_to :: "int \<Rightarrow> int option \<Rightarrow> int option" where
  "add_to d v = Some (or_zero v + d)"

definition charged_row :: "int \<Rightarrow> int \<Rightarrow> bool \<Rightarrow> bool \<Rightarrow> datetime \<Rightarrow> protocol_row \<Rightarrow> protocol_row" where
  "charged_row delta_rx delta_tx is_antizapret_profile is_new_session now row =
     (if is_antizapret_profile then
        row\<lparr>total_received := add_to delta_rx (total_received row), total_sent := add_to delta_tx (total_sent row),
            total_received_antizapret := add_to delta_rx (total_received_antizapret row),
            total_sent_antizapret := add_to delta_tx (total_sent_antizapret row),
            total_sessions := add_to (if is_new_session then 1 else 0) (total_sessions row), last_seen_at := now\<rparr>
      else
        row\<lparr>total_received := add_to delta_rx (total_received row), total_sent := add_to delta_tx (total_sent row),
            total_received_vpn := add_to delta_rx (total_received_vpn row),
            total_sent_vpn := add_to delta_tx (total_sent_vpn row),
            total_sessions := add_to (if is_new_session then 1 else 0) (total_sessions row), last_seen_at := now\<rparr>)"

definition update_stat_protocol :: "nat \<Rightarrow> int \<Rightarrow> int \<Rightarrow> bool \<Rightarrow> bool \<Rightarrow> datetime \<Rightarrow> traffic_db \<Rightarrow> traffic_db" where
  "update_stat_protocol row_id delta_rx delta_tx is_antizapret_profile is_new_session now db =
     db\<lparr>protocol_stats := (protocol_stats db)[row_id :=
          charged_row delta_rx delta_tx is_antizapret_profile is_new_session now (protocol_stats db ! row_id)]\<rparr>"

definition insert_traffic_sample ::
  "string \<Rightarrow> string \<Rightarrow> string \<Rightarrow> int \<Rightarrow> int \<Rightarrow> datetime \<Rightarrow> traffic_db \<Rightarrow> traffic_db" where
  "insert_traffic_sample common_name network protocol delta_rx delta_tx now db =
     db\<lparr>samples := samples db @
       [\<lparr>sample_name = Some common_name, created_at = now, delta_received = Some delta_rx, delta_sent = Some delta_tx,
         network_type = network, sample_protocol = protocol\<rparr>]\<rparr>"

record sync_summary =
  sessions_created :: nat
  sessions_updated :: nat
  stats_created :: nat
  samples_inserted :: nat

record sync_state =
  sync_db :: traffic_db
  seen_keys :: "string list"
  summary :: sync_summary

text \<open>The session of a client, what its counters have grown by by, and whether it is new.\<close>

definition sync_session ::
  "datetime \<Rightarrow> string \<Rightarrow> string \<Rightarrow> traffic_client \<Rightarrow> traffic_db \<Rightarrow> sync_summary \<Rightarrow> traffic_db \<times> int \<times> int \<times> bool \<times> sync_summary" where
  "sync_session now profile key client db sm =
     (let current_rx = or_zero (cl_bytes_received client);
          current_tx = or_zero (cl_bytes_sent client);
          common_name = strip (or_dash (cl_common_name client));
          is_wireguard_profile = ends_with ''-wg'' profile
      in case session_index (sessions db) key of
           None \<Rightarrow>
             (insert_session_state key profile common_name client current_rx current_tx now db,
              if is_wireguard_profile then 0 else max current_rx 0,
              if is_wireguard_profile then 0 else max current_tx 0,
              True, sm\<lparr>sessions_created := sessions_created sm + 1\<rparr>)
         | Some i \<Rightarrow>
             let state = sessions db ! i;
                 delta_rx = current_rx - or_zero (last_bytes_received state);
                 delta_tx = current_tx - or_zero (last_bytes_sent state);
                 delta_rx = (if delta_rx < 0 then max current_rx 0 else delta_rx);
                 delta_tx = (if delta_tx < 0 then max current_tx 0 else delta_tx)
             in (update_session_state i current_rx current_tx now db, delta_rx, delta_tx, False,
                 sm\<lparr>sessions_updated := sessions_updated sm + 1\<rparr>))"

text \<open>The row of totals, added when the client has none.\<close>

definition sync_stat ::
  "datetime \<Rightarrow> string \<Rightarrow> string \<Rightarrow> traffic_db \<Rightarrow> sync_summary \<Rightarrow> traffic_db \<times> nat \<times> sync_summary" where
  "sync_stat now common_name protocol db sm =
     (case stat_index sync_protocol_type (protocol_stats db) (common_name, protocol) of
        None \<Rightarrow> (insert_stat_protocol common_name protocol now db, length (protocol_stats db),
                 sm\<lparr>stats_created := stats_created sm + 1\<rparr>)
      | Some i \<Rightarrow> (db, i, sm))"

definition sync_traffic_client :: "datetime \<Rightarrow> string \<Rightarrow> sync_state \<Rightarrow> traffic_client \<Rightarrow> sync_state" where
  "sync_traffic_client now profile st client =
     (let key = sync_session_key profile client in
      if key \<in> set (seen_keys st) then st
      else
        let common_name = strip (or_dash (cl_common_name client));
            is_antizapret_profile = starts_with ''antizapret'' profile;
            protocol = (if ends_with ''-wg'' profile then ''wireguard'' else ''openvpn'');
            (db, delta_rx, delta_tx, is_new_session, sm) = sync_session now profile key client (sync_db st) (summary st);
            delta_rx = max delta_rx 0;
            delta_tx = max delta_tx 0;
            (db, stat_id, sm) = sync_stat now common_name protocol db sm;
            db = update_stat_protocol stat_id delta_rx delta_tx is_antizapret_profile is_new_session now db;
            (db, sm) =
              (if delta_rx > 0 \<or> delta_tx > 0
               then (insert_traffic_sample common_name (if is_antizapret_profile then ''antizapret'' else ''vpn'')
                       protocol delta_rx delta_tx now db, sm\<lparr>samples_inserted := samples_inserted sm + 1\<rparr>)
               else (db, sm))
        in \<lparr>sync_db = db, seen_keys = key # seen_keys st, summary = sm\<rparr>)"

definition mark_inactive_sessions :: "string list \<Rightarrow> string list \<Rightarrow> datetime \<Rightarrow> traffic_db \<Rightarrow> traffic_db" where
  "mark_inactive_sessions active_before seen now db =
     (let to_end = filter (\<lambda>key. key \<notin> set seen) active_before in
      db\<lparr>sessions := map (\<lambda>row. if session_key row \<in> set to_end \<and> sess_active row
                               then row\<lparr>sess_active := False, sess_ended_at := Some now\<rparr> else row) (sessions db)\<rparr>)"

definition active_keys :: "traffic_db \<Rightarrow> string list" where
  "active_keys db = map session_key (filter sess_active (sessions db))"

definition sync_rows :: "datetime \<Rightarrow> traffic_db \<Rightarrow> status_row list \<Rightarrow> sync_state" where
  "sync_rows now db status_rows =
     foldl (\<lambda>st row. foldl (sync_traffic_client now (sr_profile row)) st (snapshot_clients row))
       \<lparr>sync_db = db, seen_keys = [],
        summary = \<lparr>sessions_created = 0, sessions_updated = 0, stats_created = 0, samples_inserted = 0\<rparr>\<rparr>
       status_rows"

definition sync_persist_snapshot :: "datetime \<Rightarrow> traffic_db \<Rightarrow> status_row list \<Rightarrow> sync_summary \<times> traffic_db" where
  "sync_persist_snapshot now db status_rows =
     (let st = sync_rows now db status_rows in
      (summary st, mark_inactive_sessions (active_keys db) (seen_keys st) now (sync_db st)))"

end
