(* ===== verification/TrafficPanel.thy ===== *)
theory TrafficPanel
  imports TrafficStore
begin

text \<open>
  The panel's side of the accounting: \<^verbatim>\<open>core/services/traffic_persistence.py\<close> (the snapshot, the
  backfill, the deletion of a client) and \<^verbatim>\<open>core/services/traffic_maintenance.py\<close> (the rebuild from the samples and the
  reset). A mutation of a row object is an update of the row at its index; a transaction ends in a commit
  or a rollback, whose outcome is an argument.
\<close>

section \<open>The snapshot of the panel\<close>

definition orm_session ::
  "datetime \<Rightarrow> string \<Rightarrow> string \<Rightarrow> traffic_client \<Rightarrow> session_row list \<Rightarrow> session_row list \<times> int \<times> int \<times> bool" where
  "orm_session now profile key client rows =
     (let current_rx = or_zero (cl_bytes_received client);
          current_tx = or_zero (cl_bytes_sent client);
          is_wireguard_profile = ends_with ''-wg'' profile
      in case session_index rows key of
           None \<Rightarrow>
             (rows @ [\<lparr>session_key = key, sess_profile = profile,
                sess_name = strip (or_dash (cl_common_name client)),
                sess_real_address = strip_or_none (cl_real_address client),
                sess_virtual_address = strip_or_none (cl_virtual_address client),
                sess_connected_since_ts = or_zero (cl_connected_since_ts client),
                last_bytes_received = Some current_rx, last_bytes_sent = Some current_tx,
                sess_active = True, sess_last_seen_at = now, sess_ended_at = None\<rparr>],
              if is_wireguard_profile then 0 else max current_rx 0,
              if is_wireguard_profile then 0 else max current_tx 0, True)
         | Some i \<Rightarrow>
             let state = rows ! i;
                 delta_rx = current_rx - or_zero (last_bytes_received state);
                 delta_tx = current_tx - or_zero (last_bytes_sent state);
                 delta_rx = (if delta_rx < 0 then max current_rx 0 else delta_rx);
                 delta_tx = (if delta_tx < 0 then max current_tx 0 else delta_tx);
                 state = state\<lparr>last_bytes_received := Some current_rx\<rparr>;
                 state = state\<lparr>last_bytes_sent := Some current_tx\<rparr>;
                 state = state\<lparr>sess_last_seen_at := now\<rparr>;
                 state = state\<lparr>sess_active := True\<rparr>;
                 state = state\<lparr>sess_ended_at := None\<rparr>
             in (rows[i := state], delta_rx, delta_tx, False))"

definition orm_stat :: "int \<Rightarrow> int \<Rightarrow> bool \<Rightarrow> bool \<Rightarrow> datetime \<Rightarrow> protocol_row \<Rightarrow> protocol_row" where
  "orm_stat delta_rx delta_tx is_antizapret_profile is_new_session now user_stat =
     (let user_stat = user_stat\<lparr>total_received := add_to (max delta_rx 0) (total_received user_stat)\<rparr>;
          user_stat = user_stat\<lparr>total_sent := add_to (max delta_tx 0) (total_sent user_stat)\<rparr>;
          user_stat =
            (if is_antizapret_profile then
               let user_stat = user_stat\<lparr>total_received_antizapret :=
                     add_to (max delta_rx 0) (total_received_antizapret user_stat)\<rparr>
               in user_stat\<lparr>total_sent_antizapret := add_to (max delta_tx 0) (total_sent_antizapret user_stat)\<rparr>
             else
               let user_stat = user_stat\<lparr>total_received_vpn := add_to (max delta_rx 0) (total_received_vpn user_stat)\<rparr>
               in user_stat\<lparr>total_sent_vpn := add_to (max delta_tx 0) (total_sent_vpn user_stat)\<rparr>);
          user_stat = user_stat\<lparr>last_seen_at := now\<rparr>
      in if is_new_session then user_stat\<lparr>total_sessions := add_to 1 (total_sessions user_stat)\<rparr> else user_stat)"

definition orm_client :: "datetime \<Rightarrow> string \<Rightarrow> traffic_db \<times> string list \<Rightarrow> traffic_client \<Rightarrow> traffic_db \<times> string list" where
  "orm_client now profile st client =
     (case st of (db, seen) \<Rightarrow>
        let key = build_session_key profile client in
        if key \<in> set seen then (db, seen)
        else
          let common_name = strip (or_dash (cl_common_name client));
              is_antizapret_profile = starts_with ''antizapret'' profile;
              protocol = (if ends_with ''-wg'' profile then ''wireguard'' else ''openvpn'');
              (rows, delta_rx, delta_tx, is_new_session) = orm_session now profile key client (sessions db);
              db = db\<lparr>sessions := rows\<rparr>;
              (stats, i) =
                (case stat_index normalize_protocol_type (protocol_stats db) (common_name, protocol) of
                   None \<Rightarrow> (protocol_stats db @ [empty_protocol_row common_name protocol now], length (protocol_stats db))
                 | Some i \<Rightarrow> (protocol_stats db, i));
              db = db\<lparr>protocol_stats := stats[i :=
                     orm_stat delta_rx delta_tx is_antizapret_profile is_new_session now (stats ! i)]\<rparr>;
              db = (if max delta_rx 0 > 0 \<or> max delta_tx 0 > 0
                    then db\<lparr>samples := samples db @
                      [\<lparr>sample_name = Some common_name, created_at = now,
                        delta_received = Some (max delta_rx 0), delta_sent = Some (max delta_tx 0),
                        network_type = (if is_antizapret_profile then ''antizapret'' else ''vpn''),
                        sample_protocol = protocol\<rparr>]\<rparr>
                    else db)
          in (db, key # seen))"

definition end_session :: "datetime \<Rightarrow> string list \<Rightarrow> string list \<Rightarrow> session_row \<Rightarrow> session_row" where
  "end_session now seen previously_active row =
     (if session_key row \<in> set seen \<or> session_key row \<notin> set previously_active then row
      else if sess_active row then row\<lparr>sess_active := False, sess_ended_at := Some now\<rparr>
      else row)"

definition orm_snapshot :: "datetime \<Rightarrow> traffic_db \<Rightarrow> status_row list \<Rightarrow> traffic_db" where
  "orm_snapshot now db status_rows =
     (case foldl (\<lambda>st row. foldl (orm_client now (sr_profile row)) st (snapshot_clients row)) (db, []) status_rows of
        (db', seen) \<Rightarrow> db'\<lparr>sessions := map (end_session now seen (active_keys db)) (sessions db')\<rparr>)"

text \<open>
  One attempt: the clock and the tables it reads, and how its commit ends. A violated constraint carries the
  text of the error; a failed attempt leaves the tables as the other writers made them.
\<close>

datatype commit_outcome = Committed | IntegrityFailed string | CommitFailed

definition is_retryable_snapshot_integrity_error :: "string \<Rightarrow> bool" where
  "is_retryable_snapshot_integrity_error message =
     (let error_text = lower message in
      list_ex (\<lambda>marker. contains marker error_text)
        [''unique constraint failed: traffic_session_state.session_key'',
         ''unique constraint failed: user_traffic_stat.common_name'',
         ''unique constraint failed: user_traffic_stat_protocol.common_name, user_traffic_stat_protocol.protocol_type''])"

datatype persist_error = PersistRaised commit_outcome

fun persist_traffic_snapshot ::
  "(datetime \<times> traffic_db \<times> commit_outcome) \<Rightarrow> (datetime \<times> traffic_db \<times> commit_outcome) option \<Rightarrow> status_row list
     \<Rightarrow> (persist_error, unit) result \<times> traffic_db" where
  "persist_traffic_snapshot (now, db, outcome) retry status_rows =
     (case outcome of
        Committed \<Rightarrow> (Inr (), orm_snapshot now db status_rows)
      | IntegrityFailed message \<Rightarrow>
          (case retry of
             Some second \<Rightarrow>
               if is_retryable_snapshot_integrity_error message
               then persist_traffic_snapshot second None status_rows
               else (Inl (PersistRaised outcome), db)
           | None \<Rightarrow> (Inl (PersistRaised outcome), db))
      | CommitFailed \<Rightarrow> (Inl (PersistRaised outcome), db))"

section \<open>Scopes\<close>

definition normalize_traffic_protocol_scope :: "string option \<Rightarrow> string" where
  "normalize_traffic_protocol_scope protocol_scope =
     (let scope = lower (strip (case protocol_scope of None \<Rightarrow> ''all'' | Some s \<Rightarrow> if s = [] then ''all'' else s)) in
      if scope \<notin> {''all'', ''openvpn'', ''wireguard''} then ''all'' else scope)"

definition profile_matches_protocol_scope :: "string \<Rightarrow> string \<Rightarrow> bool" where
  "profile_matches_protocol_scope profile protocol_scope =
     (let scope = normalize_traffic_protocol_scope (Some protocol_scope);
          is_wireguard_profile = ends_with ''-wg'' (lower (strip profile))
      in if scope = ''wireguard'' then is_wireguard_profile
         else if scope = ''openvpn'' then \<not> is_wireguard_profile
         else True)"

text \<open>The protocols of the clients with configurations, by name, come from the catalogue of the files.\<close>

definition collect_wireguard_only_client_names_lower :: "(string \<times> string list) list \<Rightarrow> string list" where
  "collect_wireguard_only_client_names_lower protocols_by_client =
     concat (map (\<lambda>(client_name, protocols).
       let normalized = filter (\<lambda>p. p \<noteq> []) (map strip protocols) in
       if set normalized = {''WireGuard''} then
         (let name = lower (strip client_name) in if name = [] then [] else [name])
       else []) protocols_by_client)"

text \<open>\<^verbatim>\<open>lower\<close>, \<^verbatim>\<open>trim\<close> and \<^verbatim>\<open>LIKE\<close> of SQLite: case of ASCII letters only, blanks only.\<close>

definition sql_lower :: "string \<Rightarrow> string" where
  "sql_lower s = map (\<lambda>c. if is_upper c then lower_char c else c) s"

definition sql_trim :: "string \<Rightarrow> string" where
  "sql_trim s = rev (dropWhile (\<lambda>c. c = CHR '' '') (rev (dropWhile (\<lambda>c. c = CHR '' '') s)))"

definition like_wg :: "string \<Rightarrow> bool" where
  "like_wg profile = ends_with ''-wg'' (sql_lower profile)"

definition sample_in_scope :: "string \<Rightarrow> string list \<Rightarrow> sample_row \<Rightarrow> bool" where
  "sample_in_scope scope wireguard_only row =
     (if scope = ''all'' then True
      else if scope = ''openvpn'' then sample_protocol row \<noteq> ''wireguard''
      else if wireguard_only = [] then sample_protocol row = ''wireguard''
      else sample_protocol row = ''wireguard'' \<or>
        (sample_protocol row \<noteq> ''wireguard'' \<and>
         (case sample_name row of None \<Rightarrow> False | Some n \<Rightarrow> sql_lower n \<in> set wireguard_only)))"

definition session_in_scope :: "string \<Rightarrow> session_row \<Rightarrow> bool" where
  "session_in_scope scope row =
     (if scope = ''all'' then True
      else if scope = ''openvpn'' then \<not> like_wg (sess_profile row)
      else like_wg (sess_profile row))"

definition delete_persisted_traffic_rows_by_scope ::
  "(string \<times> string list) list \<Rightarrow> string \<Rightarrow> traffic_db \<Rightarrow> (nat \<times> nat) \<times> traffic_db" where
  "delete_persisted_traffic_rows_by_scope protocols_by_client protocol_scope db =
     (let scope = normalize_traffic_protocol_scope (Some protocol_scope);
          wireguard_only = collect_wireguard_only_client_names_lower protocols_by_client
      in ((length (filter (sample_in_scope scope wireguard_only) (samples db)),
           length (filter (session_in_scope scope) (sessions db))),
          db\<lparr>samples := filter (\<lambda>row. \<not> sample_in_scope scope wireguard_only row) (samples db),
             sessions := filter (\<lambda>row. \<not> session_in_scope scope row) (sessions db)\<rparr>))"

section \<open>The baseline of the running sessions\<close>

record seed_state =
  seed_sessions :: "session_row list"
  seen_scope_keys :: "string list"
  seeded_users :: "string list"
  inserted_sessions :: nat
  updated_sessions :: nat

definition seed_client :: "datetime \<Rightarrow> string \<Rightarrow> seed_state \<Rightarrow> traffic_client \<Rightarrow> seed_state" where
  "seed_client now profile st client =
     (let common_name = strip (or_dash (cl_common_name client)) in
      if common_name = [] \<or> common_name = ''-'' then st
      else let key = build_session_key profile client in
        if key \<in> set (seen_scope_keys st) then st
        else
          let rows = seed_sessions st;
              row = \<lparr>session_key = key, sess_profile = profile, sess_name = common_name,
                sess_real_address = strip_or_none (cl_real_address client),
                sess_virtual_address = strip_or_none (cl_virtual_address client),
                sess_connected_since_ts = or_zero (cl_connected_since_ts client),
                last_bytes_received = Some (or_zero (cl_bytes_received client)),
                last_bytes_sent = Some (or_zero (cl_bytes_sent client)),
                sess_active = True, sess_last_seen_at = now, sess_ended_at = None\<rparr>;
              st = st\<lparr>seen_scope_keys := key # seen_scope_keys st, seeded_users := common_name # seeded_users st\<rparr>
          in case session_index rows key of
               None \<Rightarrow> st\<lparr>seed_sessions := rows @ [row], inserted_sessions := inserted_sessions st + 1\<rparr>
             | Some i \<Rightarrow> st\<lparr>seed_sessions := rows[i := row], updated_sessions := updated_sessions st + 1\<rparr>)"

definition seed_row :: "datetime \<Rightarrow> string \<Rightarrow> seed_state \<Rightarrow> status_row \<Rightarrow> seed_state" where
  "seed_row now scope st row =
     (if \<not> profile_matches_protocol_scope (sr_profile row) scope then st
      else foldl (seed_client now (sr_profile row)) st (snapshot_clients row))"

definition deactivated :: "string \<Rightarrow> string list \<Rightarrow> session_row \<Rightarrow> bool" where
  "deactivated scope seen row \<longleftrightarrow>
     profile_matches_protocol_scope (sess_profile row) scope \<and> session_key row \<notin> set seen \<and> sess_active row"

record seed_info =
  info_users :: "string list"
  info_active :: nat
  info_inserted :: nat
  info_updated :: nat
  info_deactivated :: nat

definition seed_traffic_session_baseline_for_scope ::
  "datetime \<Rightarrow> status_row list \<Rightarrow> string \<Rightarrow> traffic_db \<Rightarrow> seed_info \<times> traffic_db" where
  "seed_traffic_session_baseline_for_scope now status_rows protocol_scope db =
     (let scope = normalize_traffic_protocol_scope (Some protocol_scope);
          st = foldl (seed_row now scope)
                 \<lparr>seed_sessions = sessions db, seen_scope_keys = [], seeded_users = [],
                  inserted_sessions = 0, updated_sessions = 0\<rparr> status_rows;
          gone = deactivated scope (seen_scope_keys st)
      in (\<lparr>info_users = remdups (seeded_users st), info_active = length (seen_scope_keys st),
           info_inserted = inserted_sessions st, info_updated = updated_sessions st,
           info_deactivated = length (filter gone (seed_sessions st))\<rparr>,
          db\<lparr>sessions := map (\<lambda>row. if gone row then row\<lparr>sess_active := False, sess_ended_at := Some now\<rparr> else row)
               (seed_sessions st)\<rparr>))"

end
