(* ===== verification/TrafficRebuild.thy ===== *)
theory TrafficRebuild
  imports TrafficPanel
begin

text \<open>
  \<^verbatim>\<open>core/services/traffic_maintenance.py\<close>, second part: the totals computed again from the samples, and the
  operations that rest on it: the reset of a scope, the backfill and, from
  \<^verbatim>\<open>core/services/traffic_persistence.py\<close>, the deletion of a client.
\<close>

section \<open>Totals from samples\<close>

record traffic_counts =
  c_received :: int
  c_sent :: int
  c_received_vpn :: int
  c_sent_vpn :: int
  c_received_antizapret :: int
  c_sent_antizapret :: int
  c_first :: datetime
  c_last :: datetime

definition new_counts :: "datetime \<Rightarrow> traffic_counts" where
  "new_counts sample_dt =
     \<lparr>c_received = 0, c_sent = 0, c_received_vpn = 0, c_sent_vpn = 0, c_received_antizapret = 0,
      c_sent_antizapret = 0, c_first = sample_dt, c_last = sample_dt\<rparr>"

definition count_sample :: "sample_row \<Rightarrow> traffic_counts \<Rightarrow> traffic_counts" where
  "count_sample row stat =
     (let delta_rx = max (or_zero (delta_received row)) 0;
          delta_tx = max (or_zero (delta_sent row)) 0;
          network = lower (strip (if network_type row = [] then ''vpn'' else network_type row));
          stat = stat\<lparr>c_received := c_received stat + delta_rx, c_sent := c_sent stat + delta_tx\<rparr>;
          stat = (if network = ''antizapret''
            then stat\<lparr>c_received_antizapret := c_received_antizapret stat + delta_rx,
                      c_sent_antizapret := c_sent_antizapret stat + delta_tx\<rparr>
            else stat\<lparr>c_received_vpn := c_received_vpn stat + delta_rx, c_sent_vpn := c_sent_vpn stat + delta_tx\<rparr>);
          stat = (if created_at row < c_first stat then stat\<lparr>c_first := created_at row\<rparr> else stat)
      in if created_at row > c_last stat then stat\<lparr>c_last := created_at row\<rparr> else stat)"

definition count_under :: "'k \<Rightarrow> sample_row \<Rightarrow> ('k, traffic_counts) dict \<Rightarrow> ('k, traffic_counts) dict" where
  "count_under key row d =
     AList.update key
       (count_sample row (case map_of d key of None \<Rightarrow> new_counts (created_at row) | Some stat \<Rightarrow> stat)) d"

definition charged_protocol :: "string list \<Rightarrow> string \<Rightarrow> string \<Rightarrow> string" where
  "charged_protocol wireguard_only common_name protocol =
     (let normalized_protocol = normalize_protocol_type (Some protocol) ''openvpn'' in
      if normalized_protocol = ''openvpn'' \<and> lower (strip common_name) \<in> set wireguard_only then ''wireguard''
      else normalized_protocol)"

type_synonym rebuild_maps = "(string, traffic_counts) dict \<times> (string \<times> string, traffic_counts) dict"

definition rebuild_sample :: "string list \<Rightarrow> rebuild_maps \<Rightarrow> sample_row \<Rightarrow> rebuild_maps" where
  "rebuild_sample wireguard_only maps row =
     (case maps of (stats_map, by_protocol) \<Rightarrow>
        let common_name = strip (stored_or_empty (sample_name row)) in
        if common_name = [] then maps
        else (count_under common_name row stats_map,
              count_under (common_name, charged_protocol wireguard_only common_name (sample_protocol row)) row by_protocol))"

definition user_row_of :: "string \<Rightarrow> traffic_counts \<Rightarrow> user_row" where
  "user_row_of common_name stat =
     \<lparr>stat_name = Some common_name, total_received = Some (c_received stat), total_sent = Some (c_sent stat),
      total_received_vpn = Some (c_received_vpn stat), total_sent_vpn = Some (c_sent_vpn stat),
      total_received_antizapret = Some (c_received_antizapret stat),
      total_sent_antizapret = Some (c_sent_antizapret stat),
      total_sessions = Some 0, first_seen_at = c_first stat, last_seen_at = c_last stat\<rparr>"

definition protocol_row_of :: "string \<times> string \<Rightarrow> traffic_counts \<Rightarrow> protocol_row" where
  "protocol_row_of key stat = user_row.extend (user_row_of (fst key) stat) \<lparr>stat_protocol = snd key\<rparr>"

definition session_protocol :: "session_row \<Rightarrow> string" where
  "session_protocol row = (if ends_with ''-wg'' (lower (strip (sess_profile row))) then ''wireguard'' else ''openvpn'')"

text \<open>The protocols of a name's sessions, or OpenVPN when it has none.\<close>

definition protocol_candidates :: "session_row list \<Rightarrow> string \<Rightarrow> string list" where
  "protocol_candidates rows common_name =
     (let protocols = map session_protocol (filter (\<lambda>row. sess_name row = common_name) rows) in
      if protocols = [] then [''openvpn''] else sorted_set protocols)"

record rebuild_info =
  rebuilt_users :: nat
  rebuilt_users_protocol_rows :: nat
  seeded_only_users :: nat
  seeded_only_protocol_rows :: nat

definition rebuild_maps_of :: "string list \<Rightarrow> sample_row list \<Rightarrow> rebuild_maps" where
  "rebuild_maps_of wireguard_only rows = foldl (rebuild_sample wireguard_only) ([], []) (sort_key created_at rows)"

definition rebuild_user_traffic_stats_from_samples ::
  "datetime \<Rightarrow> (string \<times> string list) list \<Rightarrow> string list \<Rightarrow> traffic_db \<Rightarrow> rebuild_info \<times> traffic_db" where
  "rebuild_user_traffic_stats_from_samples now protocols_by_client seed_users db =
     (case rebuild_maps_of (collect_wireguard_only_client_names_lower protocols_by_client) (samples db) of
        (stats_map, by_protocol) \<Rightarrow>
        let seed_names = sorted_set (filter (\<lambda>n. n \<noteq> []) (map strip seed_users));
            unseen = filter (\<lambda>n. map_of stats_map n = None) seed_names;
            seeded = concat (map (\<lambda>n. map (\<lambda>p. (n, p)) (filter (\<lambda>p. map_of by_protocol (n, p) = None)
                       (protocol_candidates (sessions db) n))) unseen)
        in (\<lparr>rebuilt_users = length stats_map, rebuilt_users_protocol_rows = length by_protocol,
             seeded_only_users = length unseen, seeded_only_protocol_rows = length seeded\<rparr>,
            db\<lparr>user_stats := map (\<lambda>(n, stat). user_row_of n stat) stats_map @ map (\<lambda>n. empty_user_row n now) unseen,
               protocol_stats := map (\<lambda>(k, stat). protocol_row_of k stat) by_protocol @
                 map (\<lambda>(n, p). empty_protocol_row n p now) seeded\<rparr>))"

section \<open>Reset\<close>

record reset_info =
  deleted_samples :: nat
  deleted_sessions :: nat
  baseline_users :: nat
  baseline_sessions :: nat
  users_in_db :: nat

text \<open>The snapshot is missing when its collection raised.\<close>

definition reset_persisted_traffic_data ::
  "datetime \<Rightarrow> (string \<times> string list) list \<Rightarrow> status_row list option \<Rightarrow> bool \<Rightarrow> string option \<Rightarrow> traffic_db
     \<Rightarrow> reset_info option \<times> traffic_db" where
  "reset_persisted_traffic_data now protocols_by_client collected commit_ok protocol_scope db =
     (let scope = normalize_traffic_protocol_scope protocol_scope in
      case collected of
        None \<Rightarrow> (None, db)
      | Some status_rows \<Rightarrow>
          (case delete_persisted_traffic_rows_by_scope protocols_by_client scope db of
             ((n_samples, n_sessions), db1) \<Rightarrow>
           case seed_traffic_session_baseline_for_scope now status_rows scope db1 of (baseline, db2) \<Rightarrow>
           case rebuild_user_traffic_stats_from_samples now protocols_by_client (info_users baseline) db2 of
             (rebuilt, db3) \<Rightarrow>
           if commit_ok
           then (Some \<lparr>deleted_samples = n_samples, deleted_sessions = n_sessions,
                   baseline_users = length (info_users baseline), baseline_sessions = info_active baseline,
                   users_in_db = rebuilt_users rebuilt + seeded_only_users rebuilt\<rparr>, db3)
           else (None, db)))"

section \<open>Backfill\<close>

text \<open>\<^verbatim>\<open>int(n * 0.999)\<close>: the constant is the fraction below, the product is rounded like a quotient.\<close>

definition times_0999 :: "int \<Rightarrow> int" where
  "times_0999 n = \<lfloor>float_div (nat \<lfloor>float_div (nat n) 1\<rfloor> * 8998192055486251) (2 ^ 53)\<rfloor>"

definition ensure_protocol_traffic_stats_backfilled ::
  "datetime \<Rightarrow> (string \<times> string list) list \<Rightarrow> traffic_db \<Rightarrow> bool \<times> traffic_db" where
  "ensure_protocol_traffic_stats_backfilled now protocols_by_client db =
     (let sample_total_bytes = sum_list (map (\<lambda>row. or_zero (delta_received row) + or_zero (delta_sent row)) (samples db));
          protocol_total_bytes = sum_list (map (\<lambda>row. or_zero (total_received row) + or_zero (total_sent row)) (protocol_stats db))
      in if sample_total_bytes \<le> 0 then (False, db)
         else if protocol_stats db \<noteq> [] \<and> protocol_total_bytes \<ge> times_0999 sample_total_bytes then (False, db)
         else (True, snd (rebuild_user_traffic_stats_from_samples now protocols_by_client
                (filter (\<lambda>n. n \<noteq> []) (map (\<lambda>row. strip (sess_name row)) (sessions db))) db)))"

section \<open>Deleting a client\<close>

definition stored_names :: "traffic_db \<Rightarrow> string option list" where
  "stored_names db =
     map sample_name (samples db) @ map (\<lambda>row. Some (sess_name row)) (sessions db) @
     map stat_name (user_stats db) @ map stat_name (protocol_stats db) @
     peer_info_cache db @ peer_info_history db @ wg_peer_names db"

definition resolve_traffic_common_names_for_identity ::
  "(string \<Rightarrow> string) \<Rightarrow> traffic_db \<Rightarrow> string \<Rightarrow> string list" where
  "resolve_traffic_common_names_for_identity normalize_identity db common_name =
     (let target_name = strip common_name; target_identity = normalize_identity target_name in
      if target_identity = [] then []
      else (if target_name = [] then [] else [target_name]) @
        filter (\<lambda>candidate. candidate \<noteq> [] \<and> normalize_identity candidate = target_identity)
          (map (\<lambda>n. strip (stored_or_empty n)) (remdups (stored_names db))))"

datatype delete_outcome = NoClientName | NoStatistics | DeleteRolledBack
  | StatisticsDeleted (del_stat: nat) (del_stat_protocol: nat) (del_sessions: nat) (del_samples: nat)

definition named_in :: "string list \<Rightarrow> string option \<Rightarrow> bool" where
  "named_in names v = (case v of None \<Rightarrow> False | Some n \<Rightarrow> sql_lower (sql_trim n) \<in> set names)"

definition delete_client_traffic_stats ::
  "(string \<Rightarrow> string) \<Rightarrow> bool \<Rightarrow> traffic_db \<Rightarrow> string \<Rightarrow> delete_outcome \<times> traffic_db" where
  "delete_client_traffic_stats normalize_identity commit_ok db common_name =
     (let target_name = strip common_name in
      if target_name = [] then (NoClientName, db)
      else
        let names_to_delete = resolve_traffic_common_names_for_identity normalize_identity db target_name in
        if names_to_delete = [] then (NoStatistics, db)
        else
          let hit = named_in (map lower names_to_delete);
              db' = db\<lparr>samples := filter (\<lambda>row. \<not> hit (sample_name row)) (samples db),
                sessions := filter (\<lambda>row. \<not> hit (Some (sess_name row))) (sessions db),
                user_stats := filter (\<lambda>row. \<not> hit (stat_name row)) (user_stats db),
                protocol_stats := filter (\<lambda>row. \<not> hit (stat_name row)) (protocol_stats db),
                peer_info_cache := filter (\<lambda>n. \<not> hit n) (peer_info_cache db),
                peer_info_history := filter (\<lambda>n. \<not> hit n) (peer_info_history db),
                wg_peer_names := filter (\<lambda>n. \<not> hit n) (wg_peer_names db)\<rparr>;
              gone_stat = length (filter (\<lambda>row. hit (stat_name row)) (user_stats db));
              gone_protocol = length (filter (\<lambda>row. hit (stat_name row)) (protocol_stats db));
              gone_sessions = length (filter (\<lambda>row. hit (Some (sess_name row))) (sessions db));
              gone_samples = length (filter (\<lambda>row. hit (sample_name row)) (samples db))
          in if \<not> commit_ok then (DeleteRolledBack, db)
             else if gone_stat + gone_protocol + gone_sessions + gone_samples = 0
               \<and> filter hit (peer_info_cache db) = [] \<and> filter hit (peer_info_history db) = []
               \<and> filter hit (wg_peer_names db) = [] then (NoStatistics, db')
             else (StatisticsDeleted gone_stat gone_protocol gone_sessions gone_samples, db'))"

end
