(* ===== verification/TrafficFacts.thy ===== *)
theory TrafficFacts
  imports TrafficRebuild
begin

text \<open>
  One client of a snapshot as three independent updates: its session, its totals and a sample, each a
  function of the row it touches. Both programs are shown to compute these, and the facts about
  snapshots are proved for them.
\<close>

section \<open>The last row with a key\<close>

lemma last_index_None: "last_index P xs = None \<longleftrightarrow> (\<forall>x \<in> set xs. \<not> P x)"
  by (induction xs) (auto split: option.split)

lemma last_index_Some:
  "last_index P xs = Some i \<Longrightarrow> i < length xs \<and> P (xs ! i)"
  by (induction xs arbitrary: i) (auto split: option.splits if_splits)

lemma last_index_snoc [simp]:
  "last_index P (xs @ [y]) = (if P y then Some (length xs) else last_index P xs)"
  by (induction xs) (auto split: option.split)

lemma last_index_update:
  "i < length xs \<Longrightarrow> P y = P (xs ! i) \<Longrightarrow> last_index P (xs[i := y]) = last_index P xs"
  by (induction xs arbitrary: i) (auto simp: nth_Cons split: nat.splits option.split)

lemma last_index_cong:
  "(\<And>x. x \<in> set xs \<Longrightarrow> P x = Q x) \<Longrightarrow> last_index P xs = last_index Q xs"
  by (induction xs) (auto split: option.split)

lemma last_index_map: "last_index P (map f xs) = last_index (P \<circ> f) xs"
  by (induction xs) (auto split: option.split)

definition the_row :: "('a \<Rightarrow> bool) \<Rightarrow> 'a list \<Rightarrow> 'a option" where
  "the_row P rows = map_option (\<lambda>i. rows ! i) (last_index P rows)"

lemma the_row_None: "last_index P rows = None \<Longrightarrow> the_row P rows = None"
  by (simp add: the_row_def)

lemma the_row_snoc [simp]: "the_row P (rows @ [row]) = (if P row then Some row else the_row P rows)"
  by (cases "last_index P rows") (auto simp: the_row_def nth_append dest: last_index_Some)

lemma the_row_map:
  assumes "\<And>x. P (f x) = P x"
  shows "the_row P (map f rows) = map_option f (the_row P rows)"
proof -
  have "last_index P (map f rows) = last_index P rows"
    unfolding last_index_map by (rule last_index_cong) (simp add: assms)
  then show ?thesis by (cases "last_index P rows") (auto simp: the_row_def dest: last_index_Some)
qed

lemma the_row_update:
  assumes "last_index P rows = Some i" and "P row"
  shows "the_row P (rows[i := row]) = Some row"
  using last_index_Some [OF assms(1)] last_index_update [of i rows P row] assms by (simp add: the_row_def)

lemma the_row_update_other:
  assumes "i < length rows" and "\<not> P row" and "\<not> P (rows ! i)"
  shows "the_row P (rows[i := row]) = the_row P rows"
proof (cases "last_index P rows")
  case None
  then show ?thesis using last_index_update [of i rows P row] assms by (simp add: the_row_def)
next
  case (Some j)
  then have "j \<noteq> i" using last_index_Some [OF Some] assms by auto
  then show ?thesis using last_index_update [of i rows P row] assms Some by (simp add: the_row_def)
qed

section \<open>One client\<close>

abbreviation client_name_of :: "traffic_client \<Rightarrow> string" where
  "client_name_of client \<equiv> strip (or_dash (cl_common_name client))"

definition profile_protocol :: "string \<Rightarrow> string" where
  "profile_protocol profile = (if ends_with ''-wg'' profile then ''wireguard'' else ''openvpn'')"

definition profile_network :: "string \<Rightarrow> string" where
  "profile_network profile = (if starts_with ''antizapret'' profile then ''antizapret'' else ''vpn'')"

definition fresh_session :: "datetime \<Rightarrow> string \<Rightarrow> traffic_client \<Rightarrow> session_row" where
  "fresh_session now profile client =
     \<lparr>session_key = build_session_key profile client, sess_profile = profile, sess_name = client_name_of client,
      sess_real_address = strip_or_none (cl_real_address client),
      sess_virtual_address = strip_or_none (cl_virtual_address client),
      sess_connected_since_ts = or_zero (cl_connected_since_ts client),
      last_bytes_received = Some (or_zero (cl_bytes_received client)),
      last_bytes_sent = Some (or_zero (cl_bytes_sent client)),
      sess_active = True, sess_last_seen_at = now, sess_ended_at = None\<rparr>"

text \<open>What a counter has grown by by since the last reading; a counter below it has started again.\<close>

definition grown_by :: "int \<Rightarrow> int \<Rightarrow> int" where
  "grown_by previous current = (if current < previous then max current 0 else current - previous)"

definition session_row_of :: "session_row list \<Rightarrow> string \<Rightarrow> session_row option" where
  "session_row_of rows key = the_row (\<lambda>row. session_key row = key) rows"

definition due :: "bool \<Rightarrow> int option \<Rightarrow> int \<Rightarrow> int" where
  "due wireguard previous current =
     (case previous of
        None \<Rightarrow> if wireguard then 0 else max current 0
      | Some v \<Rightarrow> grown_by v current)"

definition due_received :: "session_row list \<Rightarrow> string \<Rightarrow> traffic_client \<Rightarrow> int" where
  "due_received rows profile client =
     due (ends_with ''-wg'' profile)
       (map_option (\<lambda>row. or_zero (last_bytes_received row)) (session_row_of rows (build_session_key profile client)))
       (or_zero (cl_bytes_received client))"

definition due_sent :: "session_row list \<Rightarrow> string \<Rightarrow> traffic_client \<Rightarrow> int" where
  "due_sent rows profile client =
     due (ends_with ''-wg'' profile)
       (map_option (\<lambda>row. or_zero (last_bytes_sent row)) (session_row_of rows (build_session_key profile client)))
       (or_zero (cl_bytes_sent client))"

definition touched_sessions :: "datetime \<Rightarrow> string \<Rightarrow> traffic_client \<Rightarrow> session_row list \<Rightarrow> session_row list" where
  "touched_sessions now profile client rows =
     (case session_index rows (build_session_key profile client) of
        None \<Rightarrow> rows @ [fresh_session now profile client]
      | Some i \<Rightarrow> rows[i := seen_session (or_zero (cl_bytes_received client)) (or_zero (cl_bytes_sent client)) now (rows ! i)])"

definition posted ::
  "(string option \<Rightarrow> string \<Rightarrow> string) \<Rightarrow> datetime \<Rightarrow> string \<Rightarrow> string \<Rightarrow> bool \<Rightarrow> int \<Rightarrow> int \<Rightarrow> protocol_row list \<Rightarrow> protocol_row list" where
  "posted proto_of now profile name is_new rx tx stats =
     (case stat_index proto_of stats (name, profile_protocol profile) of
        None \<Rightarrow> stats @ [charged_row rx tx (starts_with ''antizapret'' profile) is_new now
                           (empty_protocol_row name (profile_protocol profile) now)]
      | Some i \<Rightarrow> stats[i := charged_row rx tx (starts_with ''antizapret'' profile) is_new now (stats ! i)])"

definition sample_for :: "datetime \<Rightarrow> string \<Rightarrow> string \<Rightarrow> int \<Rightarrow> int \<Rightarrow> sample_row list" where
  "sample_for now profile name rx tx =
     (if rx > 0 \<or> tx > 0
      then [\<lparr>sample_name = Some name, created_at = now, delta_received = Some rx, delta_sent = Some tx,
             network_type = profile_network profile, sample_protocol = profile_protocol profile\<rparr>]
      else [])"

definition book_client ::
  "(string option \<Rightarrow> string \<Rightarrow> string) \<Rightarrow> datetime \<Rightarrow> string \<Rightarrow> traffic_client \<Rightarrow> traffic_db \<Rightarrow> traffic_db" where
  "book_client proto_of now profile client db =
     (let rx = due_received (sessions db) profile client; tx = due_sent (sessions db) profile client in
      db\<lparr>sessions := touched_sessions now profile client (sessions db),
         protocol_stats := posted proto_of now profile (client_name_of client)
           (session_row_of (sessions db) (build_session_key profile client) = None) rx tx (protocol_stats db),
         samples := samples db @ sample_for now profile (client_name_of client) rx tx\<rparr>)"

lemma sync_session_key_eq: "sync_session_key = build_session_key"
  by (intro ext) (simp add: sync_session_key_def build_session_key_def Let_def)

lemma due_nonneg [simp]: "0 \<le> due wg previous current"
  by (simp add: due_def grown_by_def split: option.split)

lemma due_received_nonneg [simp]: "0 \<le> due_received rows profile client"
  and due_sent_nonneg [simp]: "0 \<le> due_sent rows profile client"
  by (simp_all add: due_received_def due_sent_def)

lemma delta_grown:
  "max (if current - previous < 0 then max current 0 else current - previous) 0 = grown_by previous current"
  by (simp add: grown_by_def)

lemma sync_session_books:
  "\<exists>rx tx sm'. sync_session now profile (build_session_key profile client) client db sm =
      (db\<lparr>sessions := touched_sessions now profile client (sessions db)\<rparr>, rx, tx,
       session_row_of (sessions db) (build_session_key profile client) = None, sm')
    \<and> max rx 0 = due_received (sessions db) profile client
    \<and> max tx 0 = due_sent (sessions db) profile client"
proof (cases "session_index (sessions db) (build_session_key profile client)")
  case None
  then show ?thesis
    by (simp add: sync_session_def touched_sessions_def due_received_def due_sent_def due_def session_row_of_def the_row_def
        Let_def session_index_def [symmetric] fresh_session_def insert_session_state_def)
next
  case (Some i)
  then show ?thesis
    by (simp only: sync_session_def touched_sessions_def due_received_def due_sent_def due_def session_row_of_def the_row_def
        delta_grown Let_def session_index_def [symmetric] update_session_state_def option.simps option.case prod.inject)
      (simp add: grown_by_def)
qed

lemma sync_stat_books:
  "\<exists>db' j sm'. sync_stat now name (profile_protocol profile) db sm = (db', j, sm')
    \<and> update_stat_protocol j rx tx (starts_with ''antizapret'' profile) is_new now db' =
      db\<lparr>protocol_stats := posted sync_protocol_type now profile name is_new rx tx (protocol_stats db)\<rparr>"
  by (cases "stat_index sync_protocol_type (protocol_stats db) (name, profile_protocol profile)")
    (simp_all add: sync_stat_def posted_def insert_stat_protocol_def update_stat_protocol_def)

lemma sync_traffic_client_seen:
  "build_session_key profile client \<in> set (seen_keys st) \<Longrightarrow> sync_traffic_client now profile st client = st"
  by (simp add: sync_traffic_client_def sync_session_key_eq Let_def)

lemma sync_traffic_client_books:
  assumes "build_session_key profile client \<notin> set (seen_keys st)"
  shows "seen_keys (sync_traffic_client now profile st client) = build_session_key profile client # seen_keys st
    \<and> sync_db (sync_traffic_client now profile st client) = book_client sync_protocol_type now profile client (sync_db st)"
proof -
  define is_new where "is_new = (session_row_of (sessions (sync_db st)) (build_session_key profile client) = None)"
  let ?db = "(sync_db st)\<lparr>sessions := touched_sessions now profile client (sessions (sync_db st))\<rparr>"
  obtain rx tx sm' where a: "sync_session now profile (build_session_key profile client) client (sync_db st) (summary st) =
      (?db, rx, tx, is_new, sm')"
    and due: "max rx 0 = due_received (sessions (sync_db st)) profile client"
      "max tx 0 = due_sent (sessions (sync_db st)) profile client"
    using sync_session_books [of now profile client "sync_db st" "summary st"] unfolding is_new_def by blast
  obtain db' j sm'' where b: "sync_stat now (client_name_of client) (profile_protocol profile) ?db sm' = (db', j, sm'')"
    and c: "update_stat_protocol j (max rx 0) (max tx 0) (starts_with ''antizapret'' profile) is_new now db' =
      ?db\<lparr>protocol_stats := posted sync_protocol_type now profile (client_name_of client) is_new (max rx 0) (max tx 0)
        (protocol_stats ?db)\<rparr>"
    using sync_stat_books [of now "client_name_of client" profile ?db sm' "max rx 0" "max tx 0" is_new] by blast
  show ?thesis using assms
    by (simp add: sync_traffic_client_def sync_session_key_eq Let_def a profile_protocol_def [symmetric] b c [unfolded due]
        profile_network_def [symmetric] due del: less_max_iff_disj split del: if_split
        cong del: if_weak_cong)
      (simp add: book_client_def Let_def is_new_def insert_traffic_sample_def sample_for_def)
qed

section \<open>The panel books the same\<close>

text \<open>What both programs write: one of two protocols, no missing number of sessions.\<close>

definition plain_stats :: "protocol_row list \<Rightarrow> bool" where
  "plain_stats stats \<longleftrightarrow>
     (\<forall>row \<in> set stats. stat_protocol row \<in> {''openvpn'', ''wireguard''} \<and> total_sessions row \<noteq> None)"

lemma protocols_agree:
  "p \<in> {''openvpn'', ''wireguard''} \<Longrightarrow> normalize_protocol_type (Some p) ''openvpn'' = p \<and> sync_protocol_type (Some p) ''openvpn'' = p"
proof -
  have o: "lower (strip ''openvpn'') = ''openvpn''" by (simp add: strip_def lstrip_def rstrip_def eval_simps)
  have w: "lower (strip ''wireguard'') = ''wireguard''" by (simp add: strip_def lstrip_def rstrip_def eval_simps)
  assume "p \<in> {''openvpn'', ''wireguard''}"
  then consider "p = ''openvpn''" | "p = ''wireguard''" by blast
  then show ?thesis
    by cases (simp_all add: normalize_protocol_type_def sync_protocol_type_def Let_def o w)
qed

lemma stat_index_agrees:
  "plain_stats stats \<Longrightarrow> stat_index normalize_protocol_type stats key = stat_index sync_protocol_type stats key"
  unfolding stat_index_def
  by (rule last_index_cong) (use protocols_agree in \<open>force simp: plain_stats_def stat_key_def\<close>)

lemma charged_row_fields [simp]:
  "stat_protocol (charged_row rx tx az is_new now row) = stat_protocol row"
  "stat_name (charged_row rx tx az is_new now row) = stat_name row"
  "total_sessions (charged_row rx tx az is_new now row) = add_to (if is_new then 1 else 0) (total_sessions row)"
  by (simp_all add: charged_row_def)

lemma empty_protocol_row_fields [simp]:
  "stat_protocol (empty_protocol_row name protocol now) = protocol"
  "stat_name (empty_protocol_row name protocol now) = Some name"
  "total_sessions (empty_protocol_row name protocol now) = Some 0"
  "total_received (empty_protocol_row name protocol now) = Some 0"
  "total_sent (empty_protocol_row name protocol now) = Some 0"
  "total_received_vpn (empty_protocol_row name protocol now) = Some 0"
  "total_sent_vpn (empty_protocol_row name protocol now) = Some 0"
  "total_received_antizapret (empty_protocol_row name protocol now) = Some 0"
  "total_sent_antizapret (empty_protocol_row name protocol now) = Some 0"
  by (simp_all add: empty_protocol_row_def empty_user_row_def user_row.defs)

lemma profile_protocol_cases: "profile_protocol profile \<in> {''openvpn'', ''wireguard''}"
  by (simp add: profile_protocol_def)

lemma plain_posted:
  assumes "plain_stats stats"
  shows "plain_stats (posted proto_of now profile name is_new rx tx stats)"
proof (cases "stat_index proto_of stats (name, profile_protocol profile)")
  case None
  then show ?thesis using assms profile_protocol_cases [of profile]
    by (auto simp: posted_def plain_stats_def add_to_def)
next
  case (Some i)
  then have "i < length stats" by (simp add: stat_index_def last_index_Some)
  then show ?thesis using assms Some
    by (auto simp: posted_def plain_stats_def add_to_def dest!: set_update_subset_insert [THEN subsetD])
qed

lemma orm_session_books:
  "\<exists>rx tx. orm_session now profile (build_session_key profile client) client rows =
      (touched_sessions now profile client rows, rx, tx, session_row_of rows (build_session_key profile client) = None)
    \<and> max rx 0 = due_received rows profile client \<and> max tx 0 = due_sent rows profile client"
proof (cases "session_index rows (build_session_key profile client)")
  case None
  then show ?thesis
    by (simp add: orm_session_def touched_sessions_def due_received_def due_sent_def due_def session_row_of_def the_row_def
        Let_def session_index_def [symmetric] fresh_session_def)
next
  case (Some i)
  then show ?thesis
    by (simp only: orm_session_def touched_sessions_def due_received_def due_sent_def due_def session_row_of_def the_row_def
        delta_grown Let_def session_index_def [symmetric] option.simps option.case prod.inject)
      (simp add: grown_by_def seen_session_def)
qed

lemma orm_stat_charged:
  "total_sessions row \<noteq> None \<Longrightarrow>
     orm_stat rx tx az is_new now row = charged_row (max rx 0) (max tx 0) az is_new now row"
  by (auto simp: orm_stat_def charged_row_def Let_def add_to_def or_zero_def)

lemma orm_client_books:
  assumes "plain_stats (protocol_stats db)"
  shows "orm_client now profile (db, seen) client =
    (let key = build_session_key profile client in
     if key \<in> set seen then (db, seen) else (book_client sync_protocol_type now profile client db, key # seen))"
proof -
  define is_new where "is_new = (session_row_of (sessions db) (build_session_key profile client) = None)"
  obtain rx tx where a: "orm_session now profile (build_session_key profile client) client (sessions db) =
      (touched_sessions now profile client (sessions db), rx, tx, is_new)"
    and due: "max rx 0 = due_received (sessions db) profile client" "max tx 0 = due_sent (sessions db) profile client"
    using orm_session_books [of now profile client "sessions db"] unfolding is_new_def by blast
  let ?name = "client_name_of client" and ?protocol = "profile_protocol profile"
  obtain stats i where b:
    "(case stat_index normalize_protocol_type (protocol_stats db) (?name, ?protocol) of
        None \<Rightarrow> (protocol_stats (db\<lparr>sessions := touched_sessions now profile client (sessions db)\<rparr>) @
          [empty_protocol_row ?name ?protocol now],
          length (protocol_stats (db\<lparr>sessions := touched_sessions now profile client (sessions db)\<rparr>)))
      | Some i \<Rightarrow> (protocol_stats (db\<lparr>sessions := touched_sessions now profile client (sessions db)\<rparr>), i)) = (stats, i)"
    by fastforce
  have c: "stats[i := orm_stat rx tx (starts_with ''antizapret'' profile) is_new now (stats ! i)] =
      posted sync_protocol_type now profile ?name is_new (max rx 0) (max tx 0) (protocol_stats db)"
  proof (cases "stat_index sync_protocol_type (protocol_stats db) (?name, ?protocol)")
    case None
    then show ?thesis using b stat_index_agrees [OF assms] by (auto simp: posted_def orm_stat_charged)
  next
    case (Some j)
    then have "total_sessions (protocol_stats db ! j) \<noteq> None"
      using assms last_index_Some unfolding plain_stats_def stat_index_def by fastforce
    then show ?thesis using b Some stat_index_agrees [OF assms] by (auto simp: posted_def orm_stat_charged)
  qed
  show ?thesis
    by (simp add: orm_client_def Let_def a b profile_protocol_def [symmetric] profile_network_def [symmetric]
        c [unfolded due] due del: less_max_iff_disj split del: if_split cong del: if_weak_cong)
      (simp add: book_client_def Let_def is_new_def sample_for_def)
qed

section \<open>A whole snapshot\<close>

definition snapshot_pairs :: "status_row list \<Rightarrow> (string \<times> traffic_client) list" where
  "snapshot_pairs rows = concat (map (\<lambda>row. map (Pair (sr_profile row)) (snapshot_clients row)) rows)"

abbreviation pair_key :: "string \<times> traffic_client \<Rightarrow> string" where
  "pair_key pc \<equiv> build_session_key (fst pc) (snd pc)"

text \<open>The first client of each session.\<close>

fun first_pairs :: "string set \<Rightarrow> (string \<times> traffic_client) list \<Rightarrow> (string \<times> traffic_client) list" where
  "first_pairs seen [] = []"
| "first_pairs seen (pc # pcs) =
     (if pair_key pc \<in> seen then first_pairs seen pcs
      else pc # first_pairs (insert (pair_key pc) seen) pcs)"

definition book_all :: "datetime \<Rightarrow> traffic_db \<Rightarrow> (string \<times> traffic_client) list \<Rightarrow> traffic_db" where
  "book_all now db pcs = foldl (\<lambda>db pc. book_client sync_protocol_type now (fst pc) (snd pc) db) db pcs"

lemma first_pairs_keys:
  "distinct (map pair_key (first_pairs seen pcs)) \<and>
   pair_key ` set (first_pairs seen pcs) = pair_key ` set pcs - seen"
  by (induction seen pcs rule: first_pairs.induct) auto

lemma foldl_rows:
  "foldl (\<lambda>st row. foldl (f (sr_profile row)) st (snapshot_clients row)) st rows =
   foldl (\<lambda>st pc. f (fst pc) st (snd pc)) st (snapshot_pairs rows)"
  by (induction rows arbitrary: st) (simp_all add: snapshot_pairs_def foldl_map)

lemma sync_pairs:
  "sync_db (foldl (\<lambda>st pc. sync_traffic_client now (fst pc) st (snd pc)) st pcs) =
     book_all now (sync_db st) (first_pairs (set (seen_keys st)) pcs) \<and>
   set (seen_keys (foldl (\<lambda>st pc. sync_traffic_client now (fst pc) st (snd pc)) st pcs)) =
     set (seen_keys st) \<union> pair_key ` set pcs"
proof (induction pcs arbitrary: st)
  case Nil
  then show ?case by (simp add: book_all_def)
next
  case (Cons pc pcs)
  show ?case
  proof (cases "pair_key pc \<in> set (seen_keys st)")
    case True
    then show ?thesis using Cons.IH [of st] by (auto simp: sync_traffic_client_seen)
  next
    case False
    then show ?thesis using Cons.IH [of "sync_traffic_client now (fst pc) st (snd pc)"] sync_traffic_client_books [OF False, of now]
      by (auto simp: book_all_def)
  qed
qed

lemma plain_book_client: "plain_stats (protocol_stats db) \<Longrightarrow> plain_stats (protocol_stats (book_client p now profile client db))"
  by (simp add: book_client_def Let_def plain_posted)

lemma orm_pairs:
  assumes "plain_stats (protocol_stats db)"
  shows "\<exists>seen'. foldl (\<lambda>st pc. orm_client now (fst pc) st (snd pc)) (db, seen) pcs =
      (book_all now db (first_pairs (set seen) pcs), seen') \<and> set seen' = set seen \<union> pair_key ` set pcs"
  using assms
proof (induction pcs arbitrary: db seen)
  case Nil
  then show ?case by (simp add: book_all_def)
next
  case (Cons pc pcs)
  show ?case
  proof (cases "pair_key pc \<in> set seen")
    case True
    then show ?thesis using Cons.IH [OF Cons.prems, of seen] orm_client_books [OF Cons.prems]
      by (auto simp: Let_def)
  next
    case False
    then show ?thesis
      using Cons.IH [OF plain_book_client [OF Cons.prems], of sync_protocol_type now "fst pc" "snd pc" "pair_key pc # seen"]
        orm_client_books [OF Cons.prems]
      by (auto simp: Let_def book_all_def)
  qed
qed

definition close_sessions :: "datetime \<Rightarrow> string set \<Rightarrow> string set \<Rightarrow> traffic_db \<Rightarrow> traffic_db" where
  "close_sessions now seen previously_active db =
     db\<lparr>sessions := map (\<lambda>row. if session_key row \<in> previously_active - seen \<and> sess_active row
                              then row\<lparr>sess_active := False, sess_ended_at := Some now\<rparr> else row) (sessions db)\<rparr>"

definition book_snapshot :: "datetime \<Rightarrow> traffic_db \<Rightarrow> status_row list \<Rightarrow> traffic_db" where
  "book_snapshot now db rows =
     close_sessions now (pair_key ` set (snapshot_pairs rows)) (set (active_keys db))
       (book_all now db (first_pairs {} (snapshot_pairs rows)))"

lemma sync_persist_books: "snd (sync_persist_snapshot now db rows) = book_snapshot now db rows"
  using sync_pairs [of now "\<lparr>sync_db = db, seen_keys = [],
        summary = \<lparr>sessions_created = 0, sessions_updated = 0, stats_created = 0, samples_inserted = 0\<rparr>\<rparr>" "snapshot_pairs rows"]
  by (simp add: sync_persist_snapshot_def sync_rows_def foldl_rows Let_def mark_inactive_sessions_def book_snapshot_def
      close_sessions_def)

lemma orm_snapshot_books:
  assumes "plain_stats (protocol_stats db)"
  shows "orm_snapshot now db rows = book_snapshot now db rows"
proof -
  obtain seen where "foldl (\<lambda>st pc. orm_client now (fst pc) st (snd pc)) (db, []) (snapshot_pairs rows) =
      (book_all now db (first_pairs {} (snapshot_pairs rows)), seen)"
    and "set seen = pair_key ` set (snapshot_pairs rows)"
    using orm_pairs [OF assms, of now "[]" "snapshot_pairs rows"] by auto
  then show ?thesis
    by (auto simp: orm_snapshot_def foldl_rows book_snapshot_def close_sessions_def end_session_def)
qed

end
