(* ===== verification/TrafficBooks.thy ===== *)
theory TrafficBooks
  imports TrafficFacts
begin

text \<open>
  Balanced books: for every client, network and direction the totals are the sum of the samples. The
  snapshot keeps the balance; the effect of a snapshot on sessions and samples is given by the tables
  before it.
\<close>

section \<open>The session a client leaves behind\<close>

lemma touched_row:
  "session_row_of (touched_sessions now profile client rows) key =
     (if key = build_session_key profile client
      then Some (case session_row_of rows key of
             None \<Rightarrow> fresh_session now profile client
           | Some row \<Rightarrow> seen_session (or_zero (cl_bytes_received client)) (or_zero (cl_bytes_sent client)) now row)
      else session_row_of rows key)"
proof (cases "session_index rows (build_session_key profile client)")
  case None
  then show ?thesis
    using the_row_None [of "\<lambda>row. session_key row = build_session_key profile client" rows]
    by (simp add: touched_sessions_def session_row_of_def fresh_session_def session_index_def)
next
  case (Some i)
  then have i: "last_index (\<lambda>row. session_key row = build_session_key profile client) rows = Some i"
    and "i < length rows" "session_key (rows ! i) = build_session_key profile client"
    using last_index_Some by (auto simp: session_index_def)
  have same: "session_row_of rows (build_session_key profile client) = Some (rows ! i)"
    using i by (simp add: session_row_of_def the_row_def)
  show ?thesis
  proof (cases "key = build_session_key profile client")
    case True
    then show ?thesis using Some same the_row_update [OF i, of "seen_session (or_zero (cl_bytes_received client))
        (or_zero (cl_bytes_sent client)) now (rows ! i)"] \<open>session_key (rows ! i) = _\<close>
      by (simp add: touched_sessions_def session_row_of_def seen_session_def)
  next
    case False
    then show ?thesis using Some \<open>session_key (rows ! i) = _\<close> \<open>i < length rows\<close>
      by (simp add: touched_sessions_def session_row_of_def seen_session_def the_row_update_other)
  qed
qed

lemma touched_keys:
  "map session_key (touched_sessions now profile client rows) =
     (if build_session_key profile client \<in> set (map session_key rows) then map session_key rows
      else map session_key rows @ [build_session_key profile client])"
proof (cases "session_index rows (build_session_key profile client)")
  case None
  then have "build_session_key profile client \<notin> set (map session_key rows)"
    by (auto simp: session_index_def last_index_None)
  then show ?thesis using None by (simp add: touched_sessions_def fresh_session_def)
next
  case (Some i)
  then have "i < length rows" "session_key (rows ! i) = build_session_key profile client"
    using last_index_Some by (auto simp: session_index_def)
  moreover from this have "build_session_key profile client \<in> set (map session_key rows)" by (metis length_map nth_map nth_mem)
  moreover have "(map session_key rows)[i := session_key (rows ! i)] = map session_key rows"
    using list_update_id [of "map session_key rows" i] \<open>i < length rows\<close> by simp
  ultimately show ?thesis using Some by (simp add: touched_sessions_def seen_session_def map_update)
qed

lemma book_client_tables [simp]:
  "sessions (book_client p now profile client db) = touched_sessions now profile client (sessions db)"
  "samples (book_client p now profile client db) = samples db @
     sample_for now profile (client_name_of client) (due_received (sessions db) profile client) (due_sent (sessions db) profile client)"
  "protocol_stats (book_client p now profile client db) =
     posted p now profile (client_name_of client) (session_row_of (sessions db) (build_session_key profile client) = None)
       (due_received (sessions db) profile client) (due_sent (sessions db) profile client) (protocol_stats db)"
  by (simp_all add: book_client_def Let_def)

lemma book_all_simps:
  "book_all now db [] = db"
  "book_all now db (pc # pcs) = book_all now (book_client sync_protocol_type now (fst pc) (snd pc) db) pcs"
  by (simp_all add: book_all_def)

text \<open>What a client is charged with depends on its own session only.\<close>

lemma due_cong:
  "session_row_of rows (build_session_key profile client) = session_row_of rows' (build_session_key profile client) \<Longrightarrow>
     due_received rows profile client = due_received rows' profile client \<and>
     due_sent rows profile client = due_sent rows' profile client"
  by (simp add: due_received_def due_sent_def)

lemma book_all_other:
  "key \<notin> pair_key ` set pcs \<Longrightarrow> session_row_of (sessions (book_all now db pcs)) key = session_row_of (sessions db) key"
  by (induction pcs arbitrary: db) (auto simp: book_all_simps touched_row)

lemma book_all_counters:
  assumes "distinct (map pair_key pcs)" and "pc \<in> set pcs"
  shows "\<exists>row. session_row_of (sessions (book_all now db pcs)) (pair_key pc) = Some row \<and>
    last_bytes_received row = Some (or_zero (cl_bytes_received (snd pc))) \<and>
    last_bytes_sent row = Some (or_zero (cl_bytes_sent (snd pc)))"
  using assms
proof (induction pcs arbitrary: db)
  case (Cons pc' pcs)
  show ?case
  proof (cases "pc = pc'")
    case True
    then have "pair_key pc \<notin> pair_key ` set pcs" using Cons.prems by auto
    from book_all_other [OF this] show ?thesis using True
      by (auto simp: book_all_simps touched_row fresh_session_def seen_session_def split: option.split)
  next
    case False
    then show ?thesis using Cons by (auto simp: book_all_simps)
  qed
qed simp

definition charge :: "datetime \<Rightarrow> session_row list \<Rightarrow> string \<times> traffic_client \<Rightarrow> sample_row list" where
  "charge now rows pc =
     sample_for now (fst pc) (client_name_of (snd pc)) (due_received rows (fst pc) (snd pc)) (due_sent rows (fst pc) (snd pc))"

lemma book_all_samples:
  "distinct (map pair_key pcs) \<Longrightarrow>
     samples (book_all now db pcs) = samples db @ concat (map (charge now (sessions db)) pcs)"
proof (induction pcs arbitrary: db)
  case Nil
  then show ?case by (simp add: book_all_simps)
next
  case (Cons pc pcs)
  have "charge now (touched_sessions now (fst pc) (snd pc) (sessions db)) pc' = charge now (sessions db) pc'" if "pc' \<in> set pcs" for pc'
  proof -
    have "pair_key pc \<notin> pair_key ` set pcs" using Cons.prems by simp
    moreover have "pair_key pc' \<in> pair_key ` set pcs" using that by (rule imageI)
    ultimately have "pair_key pc' \<noteq> pair_key pc" by metis
    then show ?thesis unfolding charge_def
      using due_cong [of "touched_sessions now (fst pc) (snd pc) (sessions db)" "fst pc'" "snd pc'" "sessions db"]
      by (simp add: touched_row)
  qed
  then have "map (charge now (touched_sessions now (fst pc) (snd pc) (sessions db))) pcs = map (charge now (sessions db)) pcs"
    by (intro map_cong refl)
  then have same: "concat (map (charge now (touched_sessions now (fst pc) (snd pc) (sessions db))) pcs) =
      concat (map (charge now (sessions db)) pcs)"
    by (rule arg_cong)
  show ?case using Cons.IH [of "book_client sync_protocol_type now (fst pc) (snd pc) db"] Cons.prems
    by (simp add: book_all_simps charge_def [of now "sessions db" pc] same)
qed

lemma close_row:
  "session_row_of (sessions (close_sessions now seen active db)) key =
     map_option (\<lambda>row. if session_key row \<in> active - seen \<and> sess_active row
                  then row\<lparr>sess_active := False, sess_ended_at := Some now\<rparr> else row) (session_row_of (sessions db) key)"
  unfolding session_row_of_def close_sessions_def by (simp, rule the_row_map) simp

lemma close_tables [simp]:
  "samples (close_sessions now seen active db) = samples db"
  "protocol_stats (close_sessions now seen active db) = protocol_stats db"
  "map session_key (sessions (close_sessions now seen active db)) = map session_key (sessions db)"
  by (simp_all add: close_sessions_def)

lemma snapshot_samples:
  "samples (book_snapshot now db rows) =
     samples db @ concat (map (charge now (sessions db)) (first_pairs {} (snapshot_pairs rows)))"
  unfolding book_snapshot_def by (simp add: book_all_samples first_pairs_keys)

lemma grown_same [simp]: "grown_by v v = 0"
  by (simp add: grown_by_def)

text \<open>A snapshot read twice.\<close>

lemma replay_charges_nothing:
  assumes "pc \<in> set (first_pairs {} (snapshot_pairs rows))"
  shows "due_received (sessions (book_snapshot now db rows)) (fst pc) (snd pc) = 0 \<and>
    due_sent (sessions (book_snapshot now db rows)) (fst pc) (snd pc) = 0"
proof -
  obtain row where "session_row_of (sessions (book_all now db (first_pairs {} (snapshot_pairs rows)))) (pair_key pc) = Some row"
    and "last_bytes_received row = Some (or_zero (cl_bytes_received (snd pc)))"
    and "last_bytes_sent row = Some (or_zero (cl_bytes_sent (snd pc)))"
    using book_all_counters [OF conjunct1 [OF first_pairs_keys] assms, of now db] by blast
  then show ?thesis
    by (simp add: due_received_def due_sent_def book_snapshot_def close_row due_def or_zero_def)
qed

section \<open>The baseline\<close>

text \<open>The clients a baseline is set for.\<close>

definition seedable :: "string \<Rightarrow> string \<times> traffic_client \<Rightarrow> bool" where
  "seedable scope pc \<longleftrightarrow> profile_matches_protocol_scope (fst pc) scope \<and> client_name_of (snd pc) \<notin> {[], ''-''}"

definition baseline_row :: "datetime \<Rightarrow> string \<times> traffic_client \<Rightarrow> session_row" where
  "baseline_row now pc = fresh_session now (fst pc) (snd pc)"

lemma seed_client_row:
  assumes "client_name_of client \<notin> {[], ''-''}" and "build_session_key profile client \<notin> set (seen_scope_keys st)"
  shows "seen_scope_keys (seed_client now profile st client) = build_session_key profile client # seen_scope_keys st \<and>
    session_row_of (seed_sessions (seed_client now profile st client)) key =
      (if key = build_session_key profile client then Some (baseline_row now (profile, client))
       else session_row_of (seed_sessions st) key)"
proof (cases "session_index (seed_sessions st) (build_session_key profile client)")
  case None
  then show ?thesis using assms
    by (simp add: seed_client_def Let_def session_row_of_def baseline_row_def fresh_session_def)
next
  case (Some i)
  then have i: "last_index (\<lambda>row. session_key row = build_session_key profile client) (seed_sessions st) = Some i"
    and "i < length (seed_sessions st)" "session_key (seed_sessions st ! i) = build_session_key profile client"
    using last_index_Some by (auto simp: session_index_def)
  then show ?thesis using assms Some
    by (cases "key = build_session_key profile client")
      (simp_all add: seed_client_def Let_def session_row_of_def baseline_row_def fresh_session_def the_row_update
        the_row_update_other)
qed

lemma seed_client_skip:
  "client_name_of client \<in> {[], ''-''} \<or> build_session_key profile client \<in> set (seen_scope_keys st) \<Longrightarrow>
     seed_client now profile st client = st"
  by (auto simp: seed_client_def Let_def)

lemma seed_pairs:
  assumes "\<forall>pc \<in> set pcs. client_name_of (snd pc) \<notin> {[], ''-''}"
  shows "(pc \<in> set (first_pairs (set (seen_scope_keys st)) pcs) \<longrightarrow>
      session_row_of (seed_sessions (foldl (\<lambda>st pc. seed_client now (fst pc) st (snd pc)) st pcs)) (pair_key pc) =
        Some (baseline_row now pc))
    \<and> (key \<notin> pair_key ` set pcs - set (seen_scope_keys st) \<longrightarrow>
      session_row_of (seed_sessions (foldl (\<lambda>st pc. seed_client now (fst pc) st (snd pc)) st pcs)) key =
        session_row_of (seed_sessions st) key)
    \<and> set (seen_scope_keys (foldl (\<lambda>st pc. seed_client now (fst pc) st (snd pc)) st pcs)) =
        set (seen_scope_keys st) \<union> pair_key ` set pcs"
  using assms
proof (induction pcs arbitrary: st key)
  case Nil
  then show ?case by simp
next
  case (Cons pc' pcs)
  then have named: "client_name_of (snd pc') \<notin> {[], ''-''}" "\<forall>pc \<in> set pcs. client_name_of (snd pc) \<notin> {[], ''-''}" by auto
  show ?case
  proof (cases "pair_key pc' \<in> set (seen_scope_keys st)")
    case True
    then show ?thesis using Cons.IH [OF named(2), of st] seed_client_skip [of "snd pc'" "fst pc'" st now] by auto
  next
    case False
    let ?st = "seed_client now (fst pc') st (snd pc')"
    note row = seed_client_row [OF named(1) False, of now]
    have seen: "set (seen_scope_keys ?st) = insert (pair_key pc') (set (seen_scope_keys st))" using row by simp
    have mine: "session_row_of (seed_sessions (foldl (\<lambda>st pc. seed_client now (fst pc) st (snd pc)) ?st pcs)) (pair_key pc') =
        Some (baseline_row now pc')"
      using Cons.IH [OF named(2), of ?st "pair_key pc'"] row seen by simp
    show ?thesis
      using Cons.IH [OF named(2), of ?st key] row seen mine False by auto
  qed
qed

lemma seed_rows_pairs:
  "foldl (seed_row now scope) st rows =
     foldl (\<lambda>st pc. seed_client now (fst pc) st (snd pc)) st (filter (seedable scope) (snapshot_pairs rows))"
proof (induction rows arbitrary: st)
  case Nil
  then show ?case by (simp add: snapshot_pairs_def)
next
  case (Cons row rows)
  have skip: "foldl (seed_client now (sr_profile row)) st cs =
      foldl (\<lambda>st pc. seed_client now (fst pc) st (snd pc)) st (filter (seedable scope) (map (Pair (sr_profile row)) cs))"
    if "profile_matches_protocol_scope (sr_profile row) scope" for cs st
    using that by (induction cs arbitrary: st) (auto simp: seedable_def seed_client_skip)
  have none: "filter (seedable scope) (map (Pair (sr_profile row)) cs) = []"
    if "\<not> profile_matches_protocol_scope (sr_profile row) scope" for cs
    using that by (induction cs) (auto simp: seedable_def)
  show ?case using Cons.IH skip none by (simp add: seed_row_def snapshot_pairs_def)
qed

lemma seeded_due:
  fixes db :: traffic_db and rows :: "status_row list" and scope' :: string
  defines "scope \<equiv> normalize_traffic_protocol_scope (Some scope')"
  assumes pc: "pc \<in> set (first_pairs {} (filter (seedable scope) (snapshot_pairs rows)))"
    and key: "build_session_key (fst pc) client = pair_key pc"
  shows "due_received (sessions (snd (seed_traffic_session_baseline_for_scope now rows scope' db))) (fst pc) client =
      grown_by (or_zero (cl_bytes_received (snd pc))) (or_zero (cl_bytes_received client))
    \<and> due_sent (sessions (snd (seed_traffic_session_baseline_for_scope now rows scope' db))) (fst pc) client =
      grown_by (or_zero (cl_bytes_sent (snd pc))) (or_zero (cl_bytes_sent client))"
proof -
  define st where "st = foldl (seed_row now scope)
      \<lparr>seed_sessions = sessions db, seen_scope_keys = [], seeded_users = [], inserted_sessions = 0, updated_sessions = 0\<rparr> rows"
  have row: "session_row_of (seed_sessions st) (pair_key pc) = Some (baseline_row now pc)"
    unfolding st_def seed_rows_pairs
    using seed_pairs [of "filter (seedable scope) (snapshot_pairs rows)" pc
        "\<lparr>seed_sessions = sessions db, seen_scope_keys = [], seeded_users = [], inserted_sessions = 0, updated_sessions = 0\<rparr>" now]
      pc by (simp add: seedable_def)
  let ?f = "\<lambda>row. if deactivated scope (seen_scope_keys st) row then row\<lparr>sess_active := False, sess_ended_at := Some now\<rparr> else row"
  have "sessions (snd (seed_traffic_session_baseline_for_scope now rows scope' db)) = map ?f (seed_sessions st)"
    by (simp add: seed_traffic_session_baseline_for_scope_def Let_def st_def scope_def)
  moreover have "session_row_of (map ?f (seed_sessions st)) (pair_key pc) =
      map_option ?f (session_row_of (seed_sessions st) (pair_key pc))"
    unfolding session_row_of_def by (rule the_row_map) simp
  ultimately have "session_row_of (sessions (snd (seed_traffic_session_baseline_for_scope now rows scope' db)))
      (build_session_key (fst pc) client) = Some (?f (baseline_row now pc))" using row key by simp
  moreover have "last_bytes_received (?f (baseline_row now pc)) = Some (or_zero (cl_bytes_received (snd pc)))"
    and "last_bytes_sent (?f (baseline_row now pc)) = Some (or_zero (cl_bytes_sent (snd pc)))"
    by (simp_all add: baseline_row_def fresh_session_def)
  ultimately show ?thesis by (simp add: due_received_def due_sent_def due_def or_zero_def)
qed

end
