(* ===== verification/TrafficBalance.thy ===== *)
theory TrafficBalance
  imports TrafficBooks "HOL-Library.Multiset"
begin

text \<open>
  The balance of the books: for every name, network and direction the totals are the sum of the
  samples. Snapshots keep it, a rebuild from the samples restores it.
\<close>

section \<open>Sums by name\<close>

definition paid :: "bool \<Rightarrow> bool \<Rightarrow> protocol_row \<Rightarrow> int" where
  "paid antizapret sent row =
     or_zero (if antizapret then (if sent then total_sent_antizapret row else total_received_antizapret row)
              else (if sent then total_sent_vpn row else total_received_vpn row))"

definition used :: "bool \<Rightarrow> bool \<Rightarrow> sample_row \<Rightarrow> int" where
  "used antizapret sent row =
     (if (network_type row = ''antizapret'') = antizapret
      then or_zero (if sent then delta_sent row else delta_received row) else 0)"

definition paid_by :: "bool \<Rightarrow> bool \<Rightarrow> string \<Rightarrow> protocol_row list \<Rightarrow> int" where
  "paid_by antizapret sent n rows = (\<Sum>row\<leftarrow>rows. if stat_name row = Some n then paid antizapret sent row else 0)"

definition used_by :: "bool \<Rightarrow> bool \<Rightarrow> string \<Rightarrow> sample_row list \<Rightarrow> int" where
  "used_by antizapret sent n rows = (\<Sum>row\<leftarrow>rows. if sample_name row = Some n then used antizapret sent row else 0)"

definition stored_name :: "string option \<Rightarrow> bool" where
  "stored_name v = (\<exists>n. v = Some n \<and> strip n = n)"

definition stat_ok :: "protocol_row \<Rightarrow> bool" where
  "stat_ok row \<longleftrightarrow> stored_name (stat_name row) \<and> stat_protocol row \<in> {''openvpn'', ''wireguard''} \<and> total_sessions row \<noteq> None
     \<and> or_zero (total_received row) = paid False False row + paid True False row
     \<and> or_zero (total_sent row) = paid False True row + paid True True row"

definition sample_ok :: "sample_row \<Rightarrow> bool" where
  "sample_ok row \<longleftrightarrow> stored_name (sample_name row) \<and> network_type row \<in> {''antizapret'', ''vpn''}
     \<and> sample_protocol row \<in> {''openvpn'', ''wireguard''}
     \<and> 0 \<le> or_zero (delta_received row) \<and> 0 \<le> or_zero (delta_sent row)"

abbreviation stat_id :: "protocol_row \<Rightarrow> string option \<times> string" where
  "stat_id row \<equiv> (stat_name row, stat_protocol row)"

definition stats_ok :: "protocol_row list \<Rightarrow> bool" where
  "stats_ok rows \<longleftrightarrow> (\<forall>row \<in> set rows. stat_ok row) \<and> distinct (map stat_id rows)"

definition books_balance :: "traffic_db \<Rightarrow> bool" where
  "books_balance db \<longleftrightarrow>
     distinct (map session_key (sessions db)) \<and> stats_ok (protocol_stats db) \<and> (\<forall>row \<in> set (samples db). sample_ok row)
     \<and> (\<forall>n az sent. n \<noteq> [] \<longrightarrow> paid_by az sent n (protocol_stats db) = used_by az sent n (samples db))"

lemma sum_list_list_update:
  "i < length xs \<Longrightarrow> (\<Sum>x\<leftarrow>xs[i := y]. f x) = (\<Sum>x\<leftarrow>xs. f x) - f (xs ! i) + (f y :: int)"
  by (induction xs arbitrary: i) (auto simp: nth_Cons algebra_simps split: nat.split)

lemma used_by_append [simp]: "used_by az sent n (xs @ ys) = used_by az sent n xs + used_by az sent n ys"
  by (simp add: used_by_def)

lemma paid_by_append [simp]: "paid_by az sent n (xs @ ys) = paid_by az sent n xs + paid_by az sent n ys"
  by (simp add: paid_by_def)

lemma or_zero_add_to [simp]: "or_zero (add_to d v) = or_zero v + d"
  by (simp add: add_to_def or_zero_def)

lemma or_zero_Some [simp]: "or_zero (Some v) = v"
  by (simp add: or_zero_def)

section \<open>A snapshot\<close>

lemma stat_key_ok:
  "stat_ok row \<Longrightarrow> stat_key sync_protocol_type row = (name, protocol) \<Longrightarrow> stat_name row = Some name \<and> stat_protocol row = protocol"
  using protocols_agree [of "stat_protocol row"]
  by (auto simp: stat_ok_def stat_key_def stored_name_def stored_or_empty_def)

lemma paid_charged:
  "paid az sent (charged_row rx tx az' is_new now row) =
     paid az sent row + (if az = az' then (if sent then tx else rx) else 0)"
  by (auto simp: paid_def charged_row_def)

lemma charged_ok:
  assumes "stat_ok row"
  shows "stat_ok (charged_row rx tx az is_new now row)"
proof -
  have "total_received (charged_row rx tx az is_new now row) = add_to rx (total_received row)"
    and "total_sent (charged_row rx tx az is_new now row) = add_to tx (total_sent row)"
    by (simp_all add: charged_row_def)
  then show ?thesis using assms by (cases az) (simp_all add: stat_ok_def paid_charged add_to_def)
qed

lemma empty_row_ok: "strip name = name \<Longrightarrow> protocol \<in> {''openvpn'', ''wireguard''} \<Longrightarrow> stat_ok (empty_protocol_row name protocol now)"
  by (simp add: stat_ok_def stored_name_def paid_def)

text \<open>The row a client's totals go to.\<close>

lemma posted_cases:
  assumes "stats_ok stats" and "strip name = name"
  obtains (new) "posted sync_protocol_type now profile name is_new rx tx stats =
      stats @ [charged_row rx tx (starts_with ''antizapret'' profile) is_new now
                 (empty_protocol_row name (profile_protocol profile) now)]"
    and "(Some name, profile_protocol profile) \<notin> stat_id ` set stats"
  | (old) i where "posted sync_protocol_type now profile name is_new rx tx stats =
      stats[i := charged_row rx tx (starts_with ''antizapret'' profile) is_new now (stats ! i)]"
    and "i < length stats" and "stat_name (stats ! i) = Some name" and "stat_protocol (stats ! i) = profile_protocol profile"
proof (cases "stat_index sync_protocol_type stats (name, profile_protocol profile)")
  case None
  have "stat_id row \<noteq> (Some name, profile_protocol profile)" if row: "row \<in> set stats" for row
  proof
    assume id: "stat_id row = (Some name, profile_protocol profile)"
    then have "stat_key sync_protocol_type row = (name, profile_protocol profile)"
      using protocols_agree [OF profile_protocol_cases, of profile] assms(2) by (simp add: stat_key_def stored_or_empty_def)
    then show False using None row by (auto simp: stat_index_def last_index_None)
  qed
  then have "(Some name, profile_protocol profile) \<notin> stat_id ` set stats" by (metis (no_types, lifting) imageE)
  then show thesis by (intro new) (simp_all add: posted_def None)
next
  case (Some i)
  then have i: "i < length stats" "stat_key sync_protocol_type (stats ! i) = (name, profile_protocol profile)"
    using last_index_Some by (auto simp: stat_index_def)
  moreover from this have "stat_ok (stats ! i)" using assms(1) by (simp add: stats_ok_def)
  ultimately show thesis using stat_key_ok by (intro old [of i]) (simp_all add: posted_def Some)
qed

lemma posted_ok:
  assumes "stats_ok stats" and "strip name = name"
  shows "stats_ok (posted sync_protocol_type now profile name is_new rx tx stats)"
  using assms
proof (cases rule: posted_cases [where now = now and profile = profile and is_new = is_new and rx = rx and tx = tx])
  case new
  then show ?thesis using assms charged_ok [OF empty_row_ok [OF assms(2) profile_protocol_cases]]
    by (simp add: stats_ok_def)
next
  case (old i)
  have "map stat_id (stats[i := charged_row rx tx (starts_with ''antizapret'' profile) is_new now (stats ! i)]) = map stat_id stats"
    using list_update_id [of "map stat_id stats" i] old(2) by (simp add: map_update)
  then show ?thesis using assms charged_ok old(2) unfolding stats_ok_def old(1)
    by (auto dest!: set_update_subset_insert [THEN subsetD])
qed

lemma posted_paid:
  assumes "stats_ok stats" and "strip name = name"
  shows "paid_by az sent n (posted sync_protocol_type now profile name is_new rx tx stats) =
    paid_by az sent n stats +
      (if n = name \<and> az = starts_with ''antizapret'' profile then (if sent then tx else rx) else 0)"
  using assms
proof (cases rule: posted_cases [where now = now and profile = profile and is_new = is_new and rx = rx and tx = tx])
  case new
  then show ?thesis by (simp add: paid_by_def paid_charged) (simp add: paid_def)
next
  case (old i)
  then show ?thesis unfolding old(1) paid_by_def
    by (subst sum_list_list_update) (simp_all add: paid_charged)
qed

lemma profile_network_antizapret: "(profile_network profile = ''antizapret'') = starts_with ''antizapret'' profile"
  by (simp add: profile_network_def)

lemma sample_for_used:
  assumes "0 \<le> rx" and "0 \<le> tx"
  shows "used_by az sent n (sample_for now profile name rx tx) =
    (if n = name \<and> az = starts_with ''antizapret'' profile then (if sent then tx else rx) else 0)"
  using assms by (auto simp: sample_for_def used_by_def used_def profile_network_antizapret)

lemma sample_for_ok:
  "0 \<le> rx \<Longrightarrow> 0 \<le> tx \<Longrightarrow> strip name = name \<Longrightarrow> row \<in> set (sample_for now profile name rx tx) \<Longrightarrow> sample_ok row"
  by (auto simp: sample_for_def sample_ok_def stored_name_def profile_network_def profile_protocol_def split: if_splits)

lemma book_client_balance:
  assumes "books_balance db"
  shows "books_balance (book_client sync_protocol_type now profile client db)"
proof -
  have "distinct (map session_key (touched_sessions now profile client (sessions db)))"
    using assms unfolding touched_keys books_balance_def by simp
  moreover have "\<forall>row \<in> set (sample_for now profile (client_name_of client)
      (due_received (sessions db) profile client) (due_sent (sessions db) profile client)). sample_ok row"
    using sample_for_ok [OF due_received_nonneg due_sent_nonneg strip_strip] by blast
  ultimately show ?thesis using assms
    by (auto simp: books_balance_def posted_ok posted_paid sample_for_used)
qed

lemma book_snapshot_balance:
  assumes "books_balance db"
  shows "books_balance (book_snapshot now db rows)"
proof -
  have "books_balance (book_all now db pcs)" for pcs
    using assms by (induction pcs arbitrary: db) (simp_all add: book_all_simps book_client_balance)
  from this [of "first_pairs {} (snapshot_pairs rows)"] show ?thesis
    unfolding book_snapshot_def books_balance_def by simp
qed

lemma balance_plain: "books_balance db \<Longrightarrow> plain_stats (protocol_stats db)"
  by (auto simp: books_balance_def stats_ok_def plain_stats_def stat_ok_def)

section \<open>A rebuild\<close>

text \<open>The counters of a dictionary entry, and their sum over the entries of a name.\<close>

definition counted_amount :: "bool \<Rightarrow> bool \<Rightarrow> traffic_counts \<Rightarrow> int" where
  "counted_amount antizapret sent stat =
     (if antizapret then (if sent then c_sent_antizapret stat else c_received_antizapret stat)
      else (if sent then c_sent_vpn stat else c_received_vpn stat))"

definition counted_by :: "bool \<Rightarrow> bool \<Rightarrow> string \<Rightarrow> (string \<times> string, traffic_counts) dict \<Rightarrow> int" where
  "counted_by antizapret sent n d = (\<Sum>kv\<leftarrow>d. if fst (fst kv) = n then counted_amount antizapret sent (snd kv) else 0)"

definition counts_ok :: "traffic_counts \<Rightarrow> bool" where
  "counts_ok stat \<longleftrightarrow> c_received stat = c_received_vpn stat + c_received_antizapret stat
     \<and> c_sent stat = c_sent_vpn stat + c_sent_antizapret stat"

lemma counted_by_update:
  "counted_by az sent n (AList.update k stat d) = counted_by az sent n d +
     (if fst k = n then counted_amount az sent stat - (case map_of d k of None \<Rightarrow> 0 | Some old \<Rightarrow> counted_amount az sent old) else 0)"
  by (induction d) (auto simp: counted_by_def split: option.splits)

lemma network_plain:
  assumes "network \<in> {''antizapret'', ''vpn''}"
  shows "lower (strip (if network = [] then ''vpn'' else network)) = network"
proof -
  have a: "lower (strip ''antizapret'') = ''antizapret''" by (simp add: strip_def lstrip_def rstrip_def eval_simps)
  have v: "lower (strip ''vpn'') = ''vpn''" by (simp add: strip_def lstrip_def rstrip_def eval_simps)
  consider "network = ''antizapret''" | "network = ''vpn''" using assms by blast
  then show ?thesis by cases (simp_all add: a v)
qed

lemma counted_sample:
  assumes "sample_ok row"
  shows "counted_amount az sent (count_sample row stat) = counted_amount az sent stat + used az sent row"
  using assms network_plain [of "network_type row"]
  by (auto simp: count_sample_def counted_amount_def used_def Let_def sample_ok_def)

lemma counted_new [simp]: "counted_amount az sent (new_counts t) = 0"
  by (simp add: counted_amount_def new_counts_def)

lemma count_sample_ok: "counts_ok stat \<Longrightarrow> counts_ok (count_sample row stat)"
  by (simp add: counts_ok_def count_sample_def Let_def)

lemma charged_protocol_cases: "charged_protocol wg n p \<in> {''openvpn'', ''wireguard''}"
  by (auto simp: charged_protocol_def normalize_protocol_type_def Let_def)

definition maps_ok :: "(string \<times> string, traffic_counts) dict \<Rightarrow> bool" where
  "maps_ok d \<longleftrightarrow> wf_dict d
     \<and> (\<forall>((n, p), stat) \<in> set d. strip n = n \<and> p \<in> {''openvpn'', ''wireguard''} \<and> counts_ok stat)"

lemma update_subset: "set (AList.update k v d) \<subseteq> insert (k, v) (set d)"
  by (induction d) auto

lemma count_under_ok:
  assumes "maps_ok d" and "strip n = n" and "p \<in> {''openvpn'', ''wireguard''}"
  shows "maps_ok (count_under (n, p) row d)"
proof -
  have "counts_ok (count_sample row (case map_of d (n, p) of None \<Rightarrow> new_counts (created_at row) | Some stat \<Rightarrow> stat))"
    using assms(1) map_of_mem [of d "(n, p)"]
    by (force intro!: count_sample_ok simp: maps_ok_def counts_ok_def new_counts_def split: option.split)
  then show ?thesis using assms
    by (auto simp: maps_ok_def count_under_def wf_dict_update dest!: update_subset [THEN subsetD])
qed

lemma count_under_counted:
  assumes "sample_ok row"
  shows "counted_by az sent n (count_under (m, p) row d) = counted_by az sent n d + (if n = m then used az sent row else 0)"
  by (simp add: count_under_def counted_by_update counted_sample [OF assms] split: option.split)

lemma rebuild_sample_counts:
  assumes "sample_ok row" and "maps_ok (snd maps)"
  shows "maps_ok (snd (rebuild_sample wg maps row)) \<and>
    (n \<noteq> [] \<longrightarrow> counted_by az sent n (snd (rebuild_sample wg maps row)) =
       counted_by az sent n (snd maps) + (if sample_name row = Some n then used az sent row else 0))"
proof -
  obtain stats_map by_protocol where maps: "maps = (stats_map, by_protocol)" by fastforce
  obtain m where m: "sample_name row = Some m" "strip m = m"
    using assms(1) by (auto simp: sample_ok_def stored_name_def)
  show ?thesis
  proof (cases "m = []")
    case True
    then show ?thesis using assms m by (auto simp: rebuild_sample_def maps Let_def stored_or_empty_def)
  next
    case False
    then show ?thesis
      using assms m count_under_ok [OF _ m(2) charged_protocol_cases] count_under_counted [OF assms(1)]
      by (auto simp: rebuild_sample_def maps Let_def stored_or_empty_def)
  qed
qed

lemma rebuild_fold_counts:
  assumes "\<forall>row \<in> set rows. sample_ok row" and "maps_ok (snd maps)"
  shows "maps_ok (snd (foldl (rebuild_sample wg) maps rows)) \<and>
    (n \<noteq> [] \<longrightarrow> counted_by az sent n (snd (foldl (rebuild_sample wg) maps rows)) =
       counted_by az sent n (snd maps) + used_by az sent n rows)"
  using assms
proof (induction rows arbitrary: maps)
  case Nil
  then show ?case by (simp add: used_by_def)
next
  case (Cons row rows)
  have "sample_ok row" using Cons.prems by simp
  note step = rebuild_sample_counts [OF this Cons.prems(2), of wg n az sent]
  have "used_by az sent n (row # rows) = (if sample_name row = Some n then used az sent row else 0) + used_by az sent n rows"
    by (simp add: used_by_def)
  then show ?case using Cons.IH [of "rebuild_sample wg maps row"] step Cons.prems by auto
qed

lemma sum_list_sort_key: "(\<Sum>x\<leftarrow>sort_key k xs. f x) = ((\<Sum>x\<leftarrow>xs. f x) :: int)"
proof -
  have "mset (map f (sort_key k xs)) = mset (map f xs)" by simp
  then show ?thesis by (metis sum_mset_sum_list)
qed

lemma rebuild_counts:
  assumes "\<forall>row \<in> set rows. sample_ok row"
  shows "maps_ok (snd (rebuild_maps_of wg rows)) \<and>
    (n \<noteq> [] \<longrightarrow> counted_by az sent n (snd (rebuild_maps_of wg rows)) = used_by az sent n rows)"
proof -
  have "maps_ok (snd ([], []))" by (simp add: maps_ok_def)
  moreover have "counted_by az sent n [] = 0" by (simp add: counted_by_def)
  moreover have "used_by az sent n (sort_key created_at rows) = used_by az sent n rows"
    unfolding used_by_def by (rule sum_list_sort_key)
  ultimately show ?thesis
    using rebuild_fold_counts [of "sort_key created_at rows" "([], [])" wg n az sent] assms
    by (simp add: rebuild_maps_of_def)
qed

lemma protocol_row_of_fields [simp]:
  "stat_name (protocol_row_of k stat) = Some (fst k)"
  "stat_protocol (protocol_row_of k stat) = snd k"
  "paid az sent (protocol_row_of k stat) = counted_amount az sent stat"
  by (simp_all add: protocol_row_of_def user_row_of_def user_row.defs paid_def counted_amount_def)

lemma protocol_row_of_ok:
  "strip n = n \<Longrightarrow> p \<in> {''openvpn'', ''wireguard''} \<Longrightarrow> counts_ok stat \<Longrightarrow> stat_ok (protocol_row_of (n, p) stat)"
  by (simp add: stat_ok_def stored_name_def counts_ok_def counted_amount_def)
    (simp add: protocol_row_of_def user_row_of_def user_row.defs)

lemma paid_by_rows: "paid_by az sent n (map (\<lambda>(k, stat). protocol_row_of k stat) d) = counted_by az sent n d"
  by (induction d) (auto simp: paid_by_def counted_by_def)

lemma paid_by_empty: "paid_by az sent n (map (\<lambda>(m, p). empty_protocol_row m p now) ks) = 0"
  by (induction ks) (auto simp: paid_by_def paid_def)

text \<open>The rows added for names without samples.\<close>

definition seeded_keys :: "session_row list \<Rightarrow> rebuild_maps \<Rightarrow> string list \<Rightarrow> (string \<times> string) list" where
  "seeded_keys rows maps names =
     concat (map (\<lambda>n. map (Pair n) (filter (\<lambda>p. map_of (snd maps) (n, p) = None) (protocol_candidates rows n)))
       (filter (\<lambda>n. map_of (fst maps) n = None) (sorted_set (filter (\<lambda>n. n \<noteq> []) (map strip names)))))"

lemma candidates_ok: "distinct (protocol_candidates rows n) \<and> set (protocol_candidates rows n) \<subseteq> {''openvpn'', ''wireguard''}"
  by (auto simp: protocol_candidates_def Let_def session_protocol_def)

lemma distinct_keyed:
  "distinct ns \<Longrightarrow> (\<And>n. distinct (g n)) \<Longrightarrow> distinct (concat (map (\<lambda>n. map (Pair n) (g n)) ns))"
  by (induction ns) (auto simp: distinct_map inj_on_def)

lemma seeded_keys_ok:
  "distinct (seeded_keys rows maps names)
   \<and> (\<forall>(n, p) \<in> set (seeded_keys rows maps names). strip n = n \<and> p \<in> {''openvpn'', ''wireguard''} \<and> map_of (snd maps) (n, p) = None)"
proof
  show "distinct (seeded_keys rows maps names)"
    unfolding seeded_keys_def by (rule distinct_keyed) (simp_all add: candidates_ok)
  show "\<forall>(n, p) \<in> set (seeded_keys rows maps names). strip n = n \<and> p \<in> {''openvpn'', ''wireguard''} \<and> map_of (snd maps) (n, p) = None"
    using candidates_ok by (fastforce simp: seeded_keys_def)
qed

lemma rebuild_tables:
  fixes db :: traffic_db and protocols :: "(string \<times> string list) list"
  defines "maps \<equiv> rebuild_maps_of (collect_wireguard_only_client_names_lower protocols) (samples db)"
  shows "protocol_stats (snd (rebuild_user_traffic_stats_from_samples now protocols names db)) =
      map (\<lambda>(k, stat). protocol_row_of k stat) (snd maps) @
      map (\<lambda>(n, p). empty_protocol_row n p now) (seeded_keys (sessions db) maps names)"
    and "samples (snd (rebuild_user_traffic_stats_from_samples now protocols names db)) = samples db"
    and "sessions (snd (rebuild_user_traffic_stats_from_samples now protocols names db)) = sessions db"
  by (simp_all add: rebuild_user_traffic_stats_from_samples_def Let_def maps_def seeded_keys_def split: prod.split)

lemma rebuild_balance:
  assumes "distinct (map session_key (sessions db))" and ok: "\<forall>row \<in> set (samples db). sample_ok row"
  shows "books_balance (snd (rebuild_user_traffic_stats_from_samples now protocols names db))"
proof -
  define maps where "maps = rebuild_maps_of (collect_wireguard_only_client_names_lower protocols) (samples db)"
  define seeded where "seeded = seeded_keys (sessions db) maps names"
  note tables = rebuild_tables [of now protocols names db, folded maps_def, folded seeded_def]
  have maps: "maps_ok (snd maps)" and sums: "n \<noteq> [] \<Longrightarrow> counted_by az sent n (snd maps) = used_by az sent n (samples db)" for az sent n
    using rebuild_counts [OF ok] unfolding maps_def by blast+
  note seeded = seeded_keys_ok [of "sessions db" maps names, folded seeded_def, THEN conjunct1]
    seeded_keys_ok [of "sessions db" maps names, folded seeded_def, THEN conjunct2]
  let ?id = "\<lambda>(n, p). (Some n, p)"
  have ids: "map stat_id (map (\<lambda>(k, stat). protocol_row_of k stat) (snd maps)) = map ?id (map fst (snd maps))"
      "map stat_id (map (\<lambda>(n, p). empty_protocol_row n p now) seeded) = map ?id seeded"
    by (simp_all add: case_prod_beta)
  have "distinct (map fst (snd maps) @ seeded)"
    using maps seeded by (fastforce simp: maps_ok_def wf_dict_def map_of_eq_None_iff)
  then have "distinct (map ?id (map fst (snd maps) @ seeded))"
    by (subst distinct_map) (auto simp: inj_on_def)
  then have "distinct (map stat_id (protocol_stats (snd (rebuild_user_traffic_stats_from_samples now protocols names db))))"
    unfolding tables(1) map_append ids by simp
  moreover have counted_amount: "stat_ok (protocol_row_of k stat)" if "(k, stat) \<in> set (snd maps)" for k stat
    using maps that protocol_row_of_ok [of "fst k" "snd k" stat] by (cases k) (fastforce simp: maps_ok_def)
  moreover have empty: "stat_ok (empty_protocol_row n p now)" if "(n, p) \<in> set seeded" for n p
    using seeded(2) that empty_row_ok [of n p] by fastforce
  ultimately have "distinct (map stat_id (protocol_stats (snd (rebuild_user_traffic_stats_from_samples now protocols names db))))"
    and "\<forall>row \<in> set (protocol_stats (snd (rebuild_user_traffic_stats_from_samples now protocols names db))). stat_ok row"
    unfolding tables(1) by auto
  then have "stats_ok (protocol_stats (snd (rebuild_user_traffic_stats_from_samples now protocols names db)))"
    by (simp add: stats_ok_def)
  moreover have "paid_by az sent n (protocol_stats (snd (rebuild_user_traffic_stats_from_samples now protocols names db))) =
      used_by az sent n (samples db)" if "n \<noteq> []" for az sent n
    unfolding tables(1) paid_by_append paid_by_rows paid_by_empty using sums [OF that] by simp
  ultimately show ?thesis using assms by (simp add: books_balance_def tables(2,3))
qed

section \<open>The other operations\<close>

lemma distinct_keys_filter: "distinct (map f xs) \<Longrightarrow> distinct (map f (filter P xs))"
  by (induction xs) auto

lemma seed_client_keys:
  assumes "distinct (map session_key (seed_sessions st))"
  shows "distinct (map session_key (seed_sessions (seed_client now profile st client)))"
proof (cases "session_index (seed_sessions st) (build_session_key profile client)")
  case None
  then have "build_session_key profile client \<notin> set (map session_key (seed_sessions st))"
    by (auto simp: session_index_def last_index_None)
  then show ?thesis using assms None by (simp add: seed_client_def Let_def)
next
  case (Some i)
  then have "i < length (seed_sessions st)" "session_key (seed_sessions st ! i) = build_session_key profile client"
    using last_index_Some by (auto simp: session_index_def)
  then have "(map session_key (seed_sessions st))[i := build_session_key profile client] = map session_key (seed_sessions st)"
    using list_update_id [of "map session_key (seed_sessions st)" i] by simp
  then show ?thesis using assms Some by (auto simp: seed_client_def Let_def map_update)
qed

lemma seed_row_keys:
  assumes "distinct (map session_key (seed_sessions st))"
  shows "distinct (map session_key (seed_sessions (seed_row now scope st row)))"
  unfolding seed_row_def using assms
  by (auto intro!: foldl_invariant [where I = "\<lambda>st. distinct (map session_key (seed_sessions st))"] seed_client_keys)

lemma seed_tables:
  "samples (snd (seed_traffic_session_baseline_for_scope now rows scope db)) = samples db"
  "distinct (map session_key (sessions db)) \<Longrightarrow>
     distinct (map session_key (sessions (snd (seed_traffic_session_baseline_for_scope now rows scope db))))"
proof -
  show "samples (snd (seed_traffic_session_baseline_for_scope now rows scope db)) = samples db"
    by (simp add: seed_traffic_session_baseline_for_scope_def Let_def)
  assume d: "distinct (map session_key (sessions db))"
  define st where "st = foldl (seed_row now (normalize_traffic_protocol_scope (Some scope)))
      \<lparr>seed_sessions = sessions db, seen_scope_keys = [], seeded_users = [], inserted_sessions = 0, updated_sessions = 0\<rparr> rows"
  have "distinct (map session_key (seed_sessions st))"
    unfolding st_def by (rule foldl_invariant [where I = "\<lambda>st. distinct (map session_key (seed_sessions st))"])
      (use d seed_row_keys in auto)
  moreover have "map session_key (sessions (snd (seed_traffic_session_baseline_for_scope now rows scope db))) =
      map session_key (seed_sessions st)"
    by (simp add: seed_traffic_session_baseline_for_scope_def Let_def st_def)
  ultimately show "distinct (map session_key (sessions (snd (seed_traffic_session_baseline_for_scope now rows scope db))))"
    by simp
qed

lemma reset_balance:
  assumes "books_balance db"
  shows "books_balance (snd (reset_persisted_traffic_data now protocols collected commit_ok scope db))"
proof (cases collected)
  case None
  then show ?thesis using assms by (simp add: reset_persisted_traffic_data_def)
next
  case (Some rows)
  let ?scope = "normalize_traffic_protocol_scope scope"
  obtain info1 db1 where 1: "delete_persisted_traffic_rows_by_scope protocols ?scope db = (info1, db1)" by fastforce
  obtain info2 db2 where 2: "seed_traffic_session_baseline_for_scope now rows ?scope db1 = (info2, db2)" by fastforce
  have "distinct (map session_key (sessions db1))" "\<forall>row \<in> set (samples db1). sample_ok row"
    using 1 assms by (auto simp: delete_persisted_traffic_rows_by_scope_def Let_def books_balance_def distinct_keys_filter)
  then have "distinct (map session_key (sessions db2))" "\<forall>row \<in> set (samples db2). sample_ok row"
    using seed_tables(1) [of now rows ?scope db1] seed_tables(2) [of db1 now rows ?scope] 2 by simp_all
  then have "books_balance (snd (rebuild_user_traffic_stats_from_samples now protocols (info_users info2) db2))"
    by (rule rebuild_balance)
  then show ?thesis using assms Some 1 2
    by (auto simp: reset_persisted_traffic_data_def Let_def split: prod.split)
qed

lemma backfill_balance:
  assumes "books_balance db"
  shows "books_balance (snd (ensure_protocol_traffic_stats_backfilled now protocols db))"
  using assms rebuild_balance [of db]
  by (simp add: ensure_protocol_traffic_stats_backfilled_def Let_def books_balance_def)

lemma paid_by_filter: "paid_by az sent n (filter (\<lambda>row. \<not> hit (stat_name row)) rows) = (if hit (Some n) then 0 else paid_by az sent n rows)"
  by (induction rows) (auto simp: paid_by_def)

lemma used_by_filter: "used_by az sent n (filter (\<lambda>row. \<not> hit (sample_name row)) rows) = (if hit (Some n) then 0 else used_by az sent n rows)"
  by (induction rows) (auto simp: used_by_def)

lemma delete_balance:
  assumes "books_balance db"
  shows "books_balance (snd (delete_client_traffic_stats ident commit_ok db name))"
  using assms
  by (auto simp: delete_client_traffic_stats_def Let_def books_balance_def stats_ok_def distinct_keys_filter
      paid_by_filter used_by_filter)

end
