(* ===== verification/TrafficClaims.thy ===== *)
theory TrafficClaims
  imports TrafficBalance TrafficProps
begin

text \<open>
  What the accounting promises over every run of its operations: balanced books, the same result from
  both programs, nothing charged twice, and a reset that starts from zero.
\<close>

section \<open>Runs\<close>

text \<open>
  The tables after any sequence of snapshots by cron or by the panel (with its second attempt after a
  violated constraint), resets, backfills and deletions, from empty tables. The caches of peers are written
  by others at any time.
\<close>

definition empty_traffic_db :: traffic_db where
  "empty_traffic_db =
     \<lparr>sessions = [], user_stats = [], protocol_stats = [], samples = [], peer_info_cache = [], peer_info_history = [],
      wg_peer_names = []\<rparr>"

inductive accounted :: "traffic_db \<Rightarrow> bool" where
  start: "accounted empty_traffic_db"
| peers: "accounted db \<Longrightarrow> accounted (db\<lparr>peer_info_cache := cache, peer_info_history := history, wg_peer_names := names\<rparr>)"
| cron: "accounted db \<Longrightarrow> accounted (snd (sync_persist_snapshot now db rows))"
| panel: "accounted db \<Longrightarrow> accounted (snd (persist_traffic_snapshot (now, db, outcome) None rows))"
| panel_again: "accounted db \<Longrightarrow> is_retryable_snapshot_integrity_error message \<Longrightarrow>
    accounted (snd (persist_traffic_snapshot (first_now, first_db, IntegrityFailed message) (Some (now, db, outcome)) rows))"
| reset: "accounted db \<Longrightarrow> accounted (snd (reset_persisted_traffic_data now protocols collected commit_ok scope db))"
| backfill: "accounted db \<Longrightarrow> accounted (snd (ensure_protocol_traffic_stats_backfilled now protocols db))"
| delete: "accounted db \<Longrightarrow> accounted (snd (delete_client_traffic_stats ident commit_ok db name))"

lemma persist_once_balance:
  "books_balance db \<Longrightarrow> books_balance (snd (persist_traffic_snapshot (now, db, outcome) None rows))"
  by (cases outcome) (simp_all add: orm_snapshot_books balance_plain book_snapshot_balance)

lemma accounted_balance: "accounted db \<Longrightarrow> books_balance db"
proof (induction rule: accounted.induct)
  case start
  then show ?case by (simp add: books_balance_def empty_traffic_db_def stats_ok_def paid_by_def used_by_def)
next
  case (peers db cache history names)
  then show ?case by (simp add: books_balance_def)
next
  case (cron db now rows)
  then show ?case by (simp add: sync_persist_books book_snapshot_balance)
next
  case (panel db now outcome rows)
  from panel.IH show ?case by (rule persist_once_balance)
next
  case (panel_again db message first_now first_db now outcome rows)
  then show ?case using persist_once_balance by simp
qed (simp_all add: reset_balance backfill_balance delete_balance)

lemma total_split:
  assumes "\<forall>row \<in> set rows. stat_ok row"
  shows "(\<Sum>row\<leftarrow>rows. if stat_name row = Some n then or_zero (total_received row) else 0) =
      paid_by False False n rows + paid_by True False n rows"
    and "(\<Sum>row\<leftarrow>rows. if stat_name row = Some n then or_zero (total_sent row) else 0) =
      paid_by False True n rows + paid_by True True n rows"
  using assms by (induction rows) (auto simp: paid_by_def stat_ok_def)

lemma delta_split:
  "(\<Sum>row\<leftarrow>rows. if sample_name row = Some n then or_zero (delta_received row) else 0) =
     used_by False False n rows + used_by True False n rows"
  "(\<Sum>row\<leftarrow>rows. if sample_name row = Some n then or_zero (delta_sent row) else 0) =
     used_by False True n rows + used_by True True n rows"
  by (induction rows) (auto simp: used_by_def used_def)

lemma balance_totals:
  assumes "books_balance db" and "n \<noteq> []"
  shows "(\<Sum>row\<leftarrow>protocol_stats db. if stat_name row = Some n then or_zero (total_received row) else 0) =
      (\<Sum>row\<leftarrow>samples db. if sample_name row = Some n then or_zero (delta_received row) else 0)"
    and "(\<Sum>row\<leftarrow>protocol_stats db. if stat_name row = Some n then or_zero (total_sent row) else 0) =
      (\<Sum>row\<leftarrow>samples db. if sample_name row = Some n then or_zero (delta_sent row) else 0)"
  using assms unfolding delta_split by (simp_all add: total_split books_balance_def stats_ok_def)

text \<open>A running example: two snapshots by cron, one by the panel.\<close>

definition ex_client :: "string \<Rightarrow> int \<Rightarrow> int \<Rightarrow> traffic_client" where
  "ex_client name rx tx =
     \<lparr>cl_common_name = Some name, cl_real_address = Some ''r'', cl_virtual_address = Some ''v'',
      cl_peer_public_key = None, cl_session_kind = None, cl_bytes_received = Some rx, cl_bytes_sent = Some tx,
      cl_connected_since_ts = Some 1\<rparr>"

definition ex_rows :: "int \<Rightarrow> int \<Rightarrow> status_row list" where
  "ex_rows rx tx = [\<lparr>sr_profile = ''vpn-tcp'', sr_clients = [ex_client ''ann'' rx tx], sr_traffic_clients = None\<rparr>]"

definition ex_db :: traffic_db where
  "ex_db = snd (sync_persist_snapshot 2 (snd (sync_persist_snapshot 1 empty_traffic_db (ex_rows 5 1))) (ex_rows 8 1))"

lemma ex_accounted: "accounted ex_db"
  unfolding ex_db_def by (intro accounted.cron accounted.start)

lemma ex_samples: "map (\<lambda>row. (sample_name row, delta_received row, delta_sent row)) (samples ex_db) =
    [(Some ''ann'', Some 5, Some 1), (Some ''ann'', Some 3, Some 0)]"
  by code_simp

text \<open>C10: In all tables a run of the accounting can reach, the totals of a client are the
  sum of the samples stored for it, in each direction, and every row of totals splits into the traffic of the two
  networks. Snapshots by either program, the panel's second attempt, resets of a scope, rebuilds and deletions keep
  it.\<close>

theorem books_always_balance:
  assumes "accounted db"
  shows "(\<forall>row \<in> set (protocol_stats db).
      or_zero (total_received row) = or_zero (total_received_vpn row) + or_zero (total_received_antizapret row)
      \<and> or_zero (total_sent row) = or_zero (total_sent_vpn row) + or_zero (total_sent_antizapret row))
    \<and> (\<forall>n. n \<noteq> [] \<longrightarrow>
      sum_list (map (\<lambda>row. or_zero (total_received row)) (filter (\<lambda>row. stat_name row = Some n) (protocol_stats db))) =
        sum_list (map (\<lambda>row. or_zero (delta_received row)) (filter (\<lambda>row. sample_name row = Some n) (samples db)))
      \<and> sum_list (map (\<lambda>row. or_zero (total_sent row)) (filter (\<lambda>row. stat_name row = Some n) (protocol_stats db))) =
        sum_list (map (\<lambda>row. or_zero (delta_sent row)) (filter (\<lambda>row. sample_name row = Some n) (samples db))))"
proof -
  have b: "books_balance db" by (rule accounted_balance [OF assms])
  then have "\<forall>row \<in> set (protocol_stats db). stat_ok row" by (simp add: books_balance_def stats_ok_def)
  then show ?thesis using balance_totals [OF b]
    by (simp add: sum_list_map_filter' stat_ok_def paid_def)
qed

lemma ex_received: "sum_list (map (\<lambda>row. or_zero (delta_received row)) (filter (\<lambda>row. sample_name row = Some ''ann'') (samples ex_db))) = 8"
  by code_simp

theorem books_always_balance_witness:
  "accounted ex_db \<and>
   sum_list (map (\<lambda>row. or_zero (total_received row)) (filter (\<lambda>row. stat_name row = Some ''ann'') (protocol_stats ex_db))) = 8"
  using books_always_balance [OF ex_accounted] ex_received ex_accounted by simp

section \<open>What a limit is charged\<close>

lemma sum_over_names:
  assumes "finite N" and "\<And>row. row \<in> set rows \<Longrightarrow> P row \<longleftrightarrow> (\<exists>n \<in> N. name row = Some n)"
  shows "sum_list (map f (filter P rows)) = (\<Sum>n\<in>N. \<Sum>row\<leftarrow>rows. if name row = Some n then f row else (0 :: int))"
  using assms(2)
proof (induction rows)
  case Nil
  then show ?case by simp
next
  case (Cons row rows)
  have "(\<Sum>n\<in>N. if name row = Some n then f row else 0) = (if P row then f row else 0)"
  proof (cases "P row")
    case True
    then obtain m where "m \<in> N" "name row = Some m" using Cons.prems by auto
    then show ?thesis using True assms(1) by (simp add: sum.delta)
  next
    case False
    then have "\<forall>n \<in> N. name row \<noteq> Some n" using Cons.prems by auto
    then show ?thesis using False by (simp add: sum.neutral)
  qed
  then show ?case using Cons by (simp add: sum.distrib)
qed

lemma truncated [simp]:
  "sample_name (traffic_sample.truncate row) = sample_name row"
  "sample_bytes (traffic_sample.truncate row) = or_zero (delta_received row) + or_zero (delta_sent row)"
  "stat_name (traffic_stat.truncate stat) = stat_name stat"
  "stat_bytes (traffic_stat.truncate stat) = or_zero (total_received stat) + or_zero (total_sent stat)"
  by (simp_all add: traffic_sample.defs traffic_stat.defs sample_bytes_def stat_bytes_def)

lemma stored_clean: "stored_name v \<Longrightarrow> clean_name v"
  by (auto simp: stored_name_def clean_name_def)

text \<open>C11: On every run of the accounting, a client with a limit that has no period is charged with exactly the bytes of
  all samples stored under names of its identity: the totals the limit reads never lose or invent traffic,
  whatever snapshots, resets and deletions came between.\<close>

theorem limit_charges_every_sample:
  assumes "accounted db"
  shows "get_client_consumed_traffic_bytes ident history (map traffic_stat.truncate (protocol_stats db)) client None now =
    sum_list (map (\<lambda>row. or_zero (delta_received row) + or_zero (delta_sent row))
      (filter (\<lambda>row. has_identity ident client (sample_name row)) (samples db)))"
proof -
  have b: "books_balance db" by (rule accounted_balance [OF assms])
  define N where "N = {n. has_identity ident client (Some n) \<and>
    Some n \<in> set (map stat_name (protocol_stats db)) \<union> set (map sample_name (samples db))}"
  have fin: "finite N"
  proof (rule finite_subset)
    show "N \<subseteq> Some -` (set (map stat_name (protocol_stats db)) \<union> set (map sample_name (samples db)))"
      by (auto simp: N_def)
    show "finite (Some -` (set (map stat_name (protocol_stats db)) \<union> set (map sample_name (samples db))))"
      by (rule finite_vimageI) simp_all
  qed
  have ne: "n \<noteq> []" if "n \<in> N" for n using that by (simp add: N_def has_identity_def)
  have none: "\<not> has_identity ident client None" by (simp add: has_identity_def)
  have stats: "has_identity ident client (stat_name row) \<longleftrightarrow> (\<exists>n \<in> N. stat_name row = Some n)"
    if "row \<in> set (protocol_stats db)" for row
    using that none by (cases "stat_name row") (force simp: N_def)+
  have samples: "has_identity ident client (sample_name row) \<longleftrightarrow> (\<exists>n \<in> N. sample_name row = Some n)"
    if "row \<in> set (samples db)" for row
    using that none by (cases "sample_name row") (force simp: N_def)+
  have same: "(\<Sum>row\<leftarrow>protocol_stats db. if stat_name row = Some n then or_zero (total_received row) + or_zero (total_sent row) else 0) =
      (\<Sum>row\<leftarrow>samples db. if sample_name row = Some n then or_zero (delta_received row) + or_zero (delta_sent row) else 0)"
    if "n \<in> N" for n
  proof -
    have split: "(if c then a + b' else (0::int)) = (if c then a else 0) + (if c then b' else 0)" for c a b' by simp
    show ?thesis unfolding split sum_list_addf using balance_totals [OF b ne [OF that]] by simp
  qed
  have clean: "\<forall>r \<in> set (map traffic_stat.truncate (protocol_stats db)). clean_name (stat_name r)"
    using b stored_clean by (auto simp: books_balance_def stats_ok_def stat_ok_def)
  have "get_client_consumed_traffic_bytes ident history (map traffic_stat.truncate (protocol_stats db)) client None now =
      get_client_consumed_traffic_bytes ident (Some []) (map traffic_stat.truncate (protocol_stats db)) client None now"
    by (simp add: get_client_consumed_traffic_bytes_def get_traffic_limit_period_bounds_def)
  also have "\<dots> = sum_list (map stat_bytes (filter (\<lambda>r. has_identity ident client (stat_name r))
      (map traffic_stat.truncate (protocol_stats db))))"
    using consumed_is_sum [OF _ clean, of "[]" ident client None now]
    by (simp add: get_traffic_limit_period_bounds_def)
  also have "\<dots> = sum_list (map (\<lambda>row. or_zero (total_received row) + or_zero (total_sent row))
      (filter (\<lambda>row. has_identity ident client (stat_name row)) (protocol_stats db)))"
    by (simp add: filter_map comp_def)
  also have "\<dots> = (\<Sum>n\<in>N. \<Sum>row\<leftarrow>protocol_stats db. if stat_name row = Some n then or_zero (total_received row) + or_zero (total_sent row) else 0)"
    by (rule sum_over_names [OF fin stats])
  also have "\<dots> = (\<Sum>n\<in>N. \<Sum>row\<leftarrow>samples db. if sample_name row = Some n then or_zero (delta_received row) + or_zero (delta_sent row) else 0)"
    using same by (rule sum.cong [OF refl])
  also have "\<dots> = sum_list (map (\<lambda>row. or_zero (delta_received row) + or_zero (delta_sent row))
      (filter (\<lambda>row. has_identity ident client (sample_name row)) (samples db)))"
    by (rule sum_over_names [OF fin samples, symmetric])
  finally show ?thesis .
qed

lemma ex_charged: "sum_list (map (\<lambda>row. or_zero (delta_received row) + or_zero (delta_sent row))
    (filter (\<lambda>row. has_identity lower ''Ann'' (sample_name row)) (samples ex_db))) = 9"
  by code_simp

theorem limit_charges_every_sample_witness:
  "get_client_consumed_traffic_bytes lower None (map traffic_stat.truncate (protocol_stats ex_db)) ''Ann'' None 0 = 9"
  using limit_charges_every_sample [OF ex_accounted, of lower None "''Ann''" 0] ex_charged by simp

section \<open>Two programs\<close>

text \<open>C12: On every run, the snapshot of the panel and the snapshot of the cron script, two programs
  written apart, leave the same tables: sessions, totals, samples and the order of their rows.\<close>

theorem sync_equals_panel:
  assumes "accounted db"
  shows "persist_traffic_snapshot (now, db, Committed) retry rows = (Inr (), snd (sync_persist_snapshot now db rows))"
  using orm_snapshot_books [OF balance_plain [OF accounted_balance [OF assms]]] by (simp add: sync_persist_books)

theorem sync_equals_panel_witness:
  "persist_traffic_snapshot (3, ex_db, Committed) None (ex_rows 9 2) = (Inr (), snd (sync_persist_snapshot 3 ex_db (ex_rows 9 2)))"
  by (rule sync_equals_panel [OF ex_accounted])

section \<open>What a snapshot charges\<close>

text \<open>Reading the same counters again.\<close>

lemma charge_due: "due_received rows (fst pc) (snd pc) = 0 \<Longrightarrow> due_sent rows (fst pc) (snd pc) = 0 \<Longrightarrow> charge now rows pc = []"
  by (simp add: charge_def sample_for_def)

text \<open>C13: A snapshot is charged once: when the same counters are read again, by the script or by the panel,
  no sample is added and the totals of no client change, in any direction on any network.\<close>

theorem snapshot_read_twice:
  assumes "accounted db" and "db1 = snd (sync_persist_snapshot now db rows)"
    and "db2 = snd (sync_persist_snapshot now' db1 rows)"
  shows "samples db2 = samples db1 \<and>
    (n \<noteq> [] \<longrightarrow> sum_list (map (\<lambda>row. or_zero (total_received row)) (filter (\<lambda>row. stat_name row = Some n) (protocol_stats db2))) =
      sum_list (map (\<lambda>row. or_zero (total_received row)) (filter (\<lambda>row. stat_name row = Some n) (protocol_stats db1)))
     \<and> sum_list (map (\<lambda>row. or_zero (total_sent row)) (filter (\<lambda>row. stat_name row = Some n) (protocol_stats db2))) =
      sum_list (map (\<lambda>row. or_zero (total_sent row)) (filter (\<lambda>row. stat_name row = Some n) (protocol_stats db1))))"
proof -
  have db1: "db1 = book_snapshot now db rows" and db2: "db2 = book_snapshot now' db1 rows"
    using assms by (simp_all add: sync_persist_books)
  have balance: "books_balance db1" "books_balance db2"
    using accounted_balance [OF assms(1)] unfolding db2 db1 by (simp_all add: book_snapshot_balance)
  have "charge now' (sessions db1) pc = []" if "pc \<in> set (first_pairs {} (snapshot_pairs rows))" for pc
    using replay_charges_nothing [OF that, of now db] unfolding db1 by (simp add: charge_due)
  then have "samples db2 = samples db1" unfolding db2 snapshot_samples by simp
  then show ?thesis using balance_totals [OF balance(1)] balance_totals [OF balance(2)]
    by (simp add: sum_list_map_filter')
qed

theorem snapshot_read_twice_witness:
  "samples (snd (sync_persist_snapshot 4 (snd (sync_persist_snapshot 3 ex_db (ex_rows 9 2))) (ex_rows 9 2))) =
   samples (snd (sync_persist_snapshot 3 ex_db (ex_rows 9 2)))"
  using snapshot_read_twice [OF ex_accounted refl refl, of 4 3 "ex_rows 9 2" "[]"] by blast

lemma due_pos: "0 < due wireguard previous current \<longleftrightarrow> due wireguard previous current \<noteq> 0"
  using due_nonneg [of wireguard previous current] by linarith

text \<open>C14: The samples a snapshot adds, from the tables before it: one for each session, for the first client
  that reports it, with what its counters have grown by by.\<close>

theorem snapshot_charges_growth:
  "samples (snd (sync_persist_snapshot now db rows)) =
     samples db @ concat (map (\<lambda>(profile, client).
       let previous = session_row_of (sessions db) (build_session_key profile client);
           wireguard = ends_with ''-wg'' profile;
           rx = due wireguard (map_option (\<lambda>row. or_zero (last_bytes_received row)) previous) (or_zero (cl_bytes_received client));
           tx = due wireguard (map_option (\<lambda>row. or_zero (last_bytes_sent row)) previous) (or_zero (cl_bytes_sent client))
       in if rx = 0 \<and> tx = 0 then []
          else [\<lparr>sample_name = Some (client_name_of client), created_at = now, delta_received = Some rx, delta_sent = Some tx,
                 network_type = profile_network profile, sample_protocol = profile_protocol profile\<rparr>])
       (first_pairs {} (snapshot_pairs rows)))"
proof -
  have "charge now (sessions db) = (\<lambda>(profile, client).
       let previous = session_row_of (sessions db) (build_session_key profile client);
           wireguard = ends_with ''-wg'' profile;
           rx = due wireguard (map_option (\<lambda>row. or_zero (last_bytes_received row)) previous) (or_zero (cl_bytes_received client));
           tx = due wireguard (map_option (\<lambda>row. or_zero (last_bytes_sent row)) previous) (or_zero (cl_bytes_sent client))
       in if rx = 0 \<and> tx = 0 then []
          else [\<lparr>sample_name = Some (client_name_of client), created_at = now, delta_received = Some rx, delta_sent = Some tx,
                 network_type = profile_network profile, sample_protocol = profile_protocol profile\<rparr>])"
    by (intro ext) (auto simp: charge_def due_received_def due_sent_def sample_for_def Let_def due_pos)
  then show ?thesis unfolding sync_persist_books snapshot_samples by simp
qed

section \<open>A reset\<close>

lemma reset_stages:
  assumes "reset_persisted_traffic_data now protocols (Some rows) True scope db = (Some info, db1)"
  shows "\<exists>n_deleted info2 db2 db3.
    delete_persisted_traffic_rows_by_scope protocols (normalize_traffic_protocol_scope scope) db = (n_deleted, db2)
    \<and> seed_traffic_session_baseline_for_scope now rows (normalize_traffic_protocol_scope scope) db2 = (info2, db3)
    \<and> db1 = snd (rebuild_user_traffic_stats_from_samples now protocols (info_users info2) db3)"
  using assms by (force simp: reset_persisted_traffic_data_def Let_def split: prod.splits)

lemma normalize_scope_again [simp]:
  "normalize_traffic_protocol_scope (Some (normalize_traffic_protocol_scope scope)) = normalize_traffic_protocol_scope scope"
proof -
  have l: "lower (strip ''all'') = ''all''" "lower (strip ''openvpn'') = ''openvpn''" "lower (strip ''wireguard'') = ''wireguard''"
    by (simp_all add: strip_def lstrip_def rstrip_def eval_simps)
  have fixed: "s \<in> {''all'', ''openvpn'', ''wireguard''} \<Longrightarrow> normalize_traffic_protocol_scope (Some s) = s" for s
    using l by (auto simp: normalize_traffic_protocol_scope_def Let_def)
  have "normalize_traffic_protocol_scope scope \<in> {''all'', ''openvpn'', ''wireguard''}"
    by (auto simp: normalize_traffic_protocol_scope_def Let_def)
  then show ?thesis by (rule fixed)
qed

lemma rebuild_from_nothing:
  assumes "samples db = []" and "row \<in> set (protocol_stats (snd (rebuild_user_traffic_stats_from_samples now protocols names db)))"
  shows "total_received row = Some 0 \<and> total_sent row = Some 0"
  using assms by (auto simp: rebuild_tables rebuild_maps_of_def)

text \<open>C15: A reset of a scope deletes its samples and no others, and sets the baseline of every running session of
  the scope with a named client: from then on the session is charged with what its counters have grown by
  by since the reset, however much it had transferred before. After a reset of everything no sample is left
  and all totals are zero.\<close>

theorem reset_sets_baseline:
  assumes "reset_persisted_traffic_data now protocols (Some rows) True scope db = (Some info, db1)"
    and "pc \<in> set (first_pairs {} (filter (seedable (normalize_traffic_protocol_scope scope)) (snapshot_pairs rows)))"
    and "build_session_key (fst pc) client = build_session_key (fst pc) (snd pc)"
  shows "due_received (sessions db1) (fst pc) client = grown_by (or_zero (cl_bytes_received (snd pc))) (or_zero (cl_bytes_received client))
    \<and> due_sent (sessions db1) (fst pc) client = grown_by (or_zero (cl_bytes_sent (snd pc))) (or_zero (cl_bytes_sent client))
    \<and> samples db1 = filter (\<lambda>row. \<not> sample_in_scope (normalize_traffic_protocol_scope scope)
         (collect_wireguard_only_client_names_lower protocols) row) (samples db)
    \<and> (normalize_traffic_protocol_scope scope = ''all'' \<longrightarrow> samples db1 = [] \<and>
         (\<forall>row \<in> set (protocol_stats db1). total_received row = Some 0 \<and> total_sent row = Some 0))"
proof -
  let ?scope = "normalize_traffic_protocol_scope scope"
  obtain n_deleted info2 db2 db3 where 2: "delete_persisted_traffic_rows_by_scope protocols ?scope db = (n_deleted, db2)"
    and 3: "seed_traffic_session_baseline_for_scope now rows ?scope db2 = (info2, db3)"
    and 1: "db1 = snd (rebuild_user_traffic_stats_from_samples now protocols (info_users info2) db3)"
    using reset_stages [OF assms(1)] by blast
  have samples: "samples db1 = filter (\<lambda>row. \<not> sample_in_scope ?scope
         (collect_wireguard_only_client_names_lower protocols) row) (samples db)"
    using 2 3 seed_tables(1) [of now rows ?scope db2]
    by (auto simp: 1 rebuild_tables delete_persisted_traffic_rows_by_scope_def Let_def)
  have all: "samples db1 = []" if "?scope = ''all''" using samples that by (simp add: sample_in_scope_def)
  then have "\<forall>row \<in> set (protocol_stats db1). total_received row = Some 0 \<and> total_sent row = Some 0" if "?scope = ''all''"
    using that rebuild_from_nothing [of db3] unfolding 1 by (simp add: rebuild_tables(2))
  moreover have "sessions db1 = sessions (snd (seed_traffic_session_baseline_for_scope now rows ?scope db2))"
    unfolding 1 rebuild_tables(3) 3 by simp
  moreover have "pc \<in> set (first_pairs {} (filter (seedable (normalize_traffic_protocol_scope (Some ?scope))) (snapshot_pairs rows)))"
    using assms(2) by simp
  ultimately show ?thesis using seeded_due [of pc ?scope rows client now db2] assms(3) samples all by simp
qed

theorem reset_sets_baseline_witness:
  "due_received (sessions (snd (reset_persisted_traffic_data 9 [] (Some (ex_rows 100 7)) True (Some ''all'') ex_db)))
     ''vpn-tcp'' (ex_client ''ann'' 130 7) = 30"
proof -
  have pc: "(''vpn-tcp'', ex_client ''ann'' 100 7) \<in> set (first_pairs {} (filter (seedable (normalize_traffic_protocol_scope
      (Some ''all''))) (snapshot_pairs (ex_rows 100 7))))" by code_simp
  have key: "build_session_key ''vpn-tcp'' (ex_client ''ann'' 130 7) = build_session_key ''vpn-tcp'' (ex_client ''ann'' 100 7)"
    by (simp add: build_session_key_def ex_client_def)
  obtain info db1 where r: "reset_persisted_traffic_data 9 [] (Some (ex_rows 100 7)) True (Some ''all'') ex_db = (Some info, db1)"
    by (cases "reset_persisted_traffic_data 9 [] (Some (ex_rows 100 7)) True (Some ''all'') ex_db")
      (auto simp: reset_persisted_traffic_data_def Let_def split: prod.splits)
  have "grown_by (or_zero (cl_bytes_received (ex_client ''ann'' 100 7))) (or_zero (cl_bytes_received (ex_client ''ann'' 130 7))) = 30"
    by (simp add: ex_client_def grown_by_def)
  then show ?thesis using reset_sets_baseline [OF r pc] key unfolding r by simp
qed

section \<open>A deleted client\<close>

text \<open>The deletion of a client's statistics sets no baseline: a session that still runs is new to the next
  snapshot, and one of OpenVPN is charged with its whole counter again, the bytes before the deletion included.\<close>

lemma deleted_session_charged_again:
  assumes "delete_client_traffic_stats ident True db name = (StatisticsDeleted a b c d, db')"
    and "\<forall>row \<in> set (sessions db). session_key row = build_session_key profile client \<longrightarrow> sess_name row = strip name"
    and "sql_lower (sql_trim (strip name)) = lower (strip name)" and "\<not> ends_with ''-wg'' profile"
  shows "due_received (sessions db') profile client = max (or_zero (cl_bytes_received client)) 0"
proof -
  define names where "names = map lower (resolve_traffic_common_names_for_identity ident db (strip name))"
  have ne: "strip name \<noteq> []" "resolve_traffic_common_names_for_identity ident db (strip name) \<noteq> []"
    and db': "sessions db' = filter (\<lambda>row. \<not> named_in names (Some (sess_name row))) (sessions db)"
    using assms(1) by (auto simp: delete_client_traffic_stats_def Let_def names_def split: if_splits)
  have "lower (strip name) \<in> set names"
    using ne by (auto simp: names_def resolve_traffic_common_names_for_identity_def Let_def split: if_splits)
  then have "named_in names (Some (strip name))" using assms(3) by (simp add: named_in_def)
  then have "session_row_of (sessions db') (build_session_key profile client) = None"
    using assms(2) unfolding db' session_row_of_def the_row_def by (auto simp: last_index_None)
  then show ?thesis using assms(4) by (simp add: due_received_def due_def)
qed

end
