(* ===== verification/TrafficStatus.thy ===== *)
theory TrafficStatus
  imports TrafficStore WgPeers
begin

text \<open>
  Where the rows of a snapshot come from in \<^verbatim>\<open>utils/traffic_sync.py\<close>: the status of the OpenVPN servers as text, and
  the dump of \<^verbatim>\<open>wg\<close> with the names of its peers, which a table caches and the server configurations
  supply. The outputs of the programs and the files are arguments. Fields of the rows that only a page shows are left
  out.
\<close>

section \<open>The status of OpenVPN\<close>

text \<open>
  The regular expressions are read off as scanners. A group of the comma form stops at a comma or the end of
  the line, so a match is decided without choice.
\<close>

definition plain_char :: "char \<Rightarrow> bool" where
  "plain_char c \<longleftrightarrow> c \<noteq> CHR '','' \<and> c \<noteq> LF"

definition last_char :: "char \<Rightarrow> bool" where
  "last_char c \<longleftrightarrow> plain_char c \<and> c \<noteq> CR \<and> c \<noteq> CHR '' ''"

definition take_field :: "(char \<Rightarrow> bool) \<times> bool \<Rightarrow> string \<Rightarrow> (string \<times> string) option" where
  "take_field spec s =
     (let f = takeWhile (fst spec) s in
      if snd spec \<and> f = [] then None
      else case dropWhile (fst spec) s of
             [] \<Rightarrow> None
           | c # rest \<Rightarrow> if c = CHR '','' then Some (f, rest) else None)"

fun take_fields :: "((char \<Rightarrow> bool) \<times> bool) list \<Rightarrow> string \<Rightarrow> (string list \<times> string) option" where
  "take_fields [] s =
     (let f = takeWhile last_char s in if f = [] then None else Some ([f], dropWhile last_char s))"
| "take_fields (spec # specs) s =
     (case take_field spec s of
        None \<Rightarrow> None
      | Some (f, rest) \<Rightarrow>
          (case take_fields specs rest of None \<Rightarrow> None | Some (fs, rest) \<Rightarrow> Some (f # fs, rest)))"

definition client_specs :: "((char \<Rightarrow> bool) \<times> bool) list" where
  "client_specs =
     [(plain_char, True), (plain_char, True), (plain_char, False), (plain_char, False), (is_digit, True), (is_digit, True),
      (plain_char, True), (is_digit, True), (plain_char, False), (plain_char, False), (plain_char, False)]"

definition match_csv :: "string \<Rightarrow> (string list \<times> string) option" where
  "match_csv s = (if starts_with ''CLIENT_LIST,'' s then take_fields client_specs (drop 12 s) else None)"

lemma dropWhile_length: "length (dropWhile P s) \<le> length s"
  by (induction s) auto

lemma take_field_shorter: "take_field spec s = Some (f, rest) \<Longrightarrow> length rest < length s"
  using dropWhile_length [of "fst spec" s] by (auto simp: take_field_def Let_def split: if_splits list.splits)

lemma take_fields_shorter: "take_fields specs s = Some (fs, rest) \<Longrightarrow> length rest < length s"
proof (induction specs arbitrary: s fs)
  case Nil
  then have "takeWhile last_char s \<noteq> []" "rest = dropWhile last_char s"
    by (auto simp: Let_def split: if_splits)
  moreover have "length s = length (takeWhile last_char s) + length (dropWhile last_char s)"
    by (metis length_append takeWhile_dropWhile_id)
  ultimately show ?case by (cases "takeWhile last_char s") auto
next
  case (Cons spec specs)
  then obtain f rest' fs' where "take_field spec s = Some (f, rest')" "take_fields specs rest' = Some (fs', rest)"
    by (auto split: option.splits)
  then show ?case using Cons.IH [of rest' fs'] take_field_shorter [of spec s f rest'] by simp
qed

lemma match_csv_shorter: "match_csv s = Some (fs, rest) \<Longrightarrow> length rest < length s"
  using take_fields_shorter [of client_specs "drop 12 s" fs rest] by (auto simp: match_csv_def split: if_splits)

text \<open>\<^verbatim>\<open>finditer\<close>: the matches from the left that do not overlap.\<close>

function csv_matches :: "string \<Rightarrow> string list list" where
  "csv_matches s =
     (case match_csv s of
        Some (fs, rest) \<Rightarrow> fs # csv_matches rest
      | None \<Rightarrow> (case s of [] \<Rightarrow> [] | c # cs \<Rightarrow> csv_matches cs))"
  by pat_completeness auto
termination by (relation "measure length") (auto dest: match_csv_shorter)

declare csv_matches.simps [simp del]

text \<open>The form with white space: a match is a sequence of words, across lines, from the start of a line.\<close>

definition next_word :: "string \<Rightarrow> (string \<times> string) option" where
  "next_word s =
     (case s of
        [] \<Rightarrow> None
      | c # cs \<Rightarrow>
          if is_space c
          then (let t = dropWhile is_space cs; w = takeWhile (\<lambda>c. \<not> is_space c) t in
                if w = [] then None else Some (w, dropWhile (\<lambda>c. \<not> is_space c) t))
          else None)"

fun match_words :: "(string \<Rightarrow> bool) list \<Rightarrow> string \<Rightarrow> (string list \<times> string) option" where
  "match_words [] s = Some ([], s)"
| "match_words (p # ps) s =
     (case next_word s of
        None \<Rightarrow> None
      | Some (w, rest) \<Rightarrow>
          if p w then (case match_words ps rest of None \<Rightarrow> None | Some (ws, rest) \<Rightarrow> Some (w # ws, rest)) else None)"

abbreviation any_word :: "string \<Rightarrow> bool" where
  "any_word w \<equiv> True"

definition digits :: "string \<Rightarrow> bool" where
  "digits w \<longleftrightarrow> w \<noteq> [] \<and> list_all is_digit w"

definition digit_groups :: "char \<Rightarrow> nat list \<Rightarrow> string \<Rightarrow> bool" where
  "digit_groups sep lens w \<longleftrightarrow> (let gs = split_on sep w in map length gs = lens \<and> list_all (list_all is_digit) gs)"

definition tab_tail :: "(string \<Rightarrow> bool) list" where
  "tab_tail =
     [digits, digits, digit_groups (CHR ''-'') [4, 2, 2], digit_groups (CHR '':'') [2, 2, 2], digits, any_word, digits,
      digits, any_word]"

definition match_tab :: "string \<Rightarrow> (string list \<times> string) option" where
  "match_tab s =
     (if starts_with ''CLIENT_LIST'' s then
        (case match_words ([any_word, any_word, any_word, any_word] @ tab_tail) (drop 11 s) of
           Some (ws, rest) \<Rightarrow> Some (ws, rest)
         | None \<Rightarrow> map_option (\<lambda>(ws, rest). (take 3 ws @ [] # drop 3 ws, rest))
                     (match_words ([any_word, any_word, any_word] @ tab_tail) (drop 11 s)))
      else None)"

lemma next_word_shorter: "next_word s = Some (w, rest) \<Longrightarrow> length rest < length s"
proof -
  assume a: "next_word s = Some (w, rest)"
  then obtain c cs where s: "s = c # cs" by (cases s) (auto simp: next_word_def)
  have "length (dropWhile (\<lambda>c. \<not> is_space c) (dropWhile is_space cs)) \<le> length cs"
    using dropWhile_length [of "\<lambda>c. \<not> is_space c" "dropWhile is_space cs"] dropWhile_length [of is_space cs] by linarith
  then show ?thesis using a by (auto simp: s next_word_def Let_def split: if_splits)
qed

lemma match_words_shorter: "match_words ps s = Some (ws, rest) \<Longrightarrow> length rest \<le> length s"
proof (induction ps arbitrary: s ws)
  case (Cons p ps)
  then obtain w rest' ws' where "next_word s = Some (w, rest')" "match_words ps rest' = Some (ws', rest)"
    by (auto split: option.splits if_splits)
  then show ?case using Cons.IH [of rest' ws'] next_word_shorter [of s w rest'] by simp
qed simp

lemma match_tab_shorter: "match_tab s = Some (ws, rest) \<Longrightarrow> length rest < length s"
proof -
  assume a: "match_tab s = Some (ws, rest)"
  then obtain ps ws' where "match_words ps (drop 11 s) = Some (ws', rest)" and s: "starts_with ''CLIENT_LIST'' s"
    by (cases "match_words ([any_word, any_word, any_word, any_word] @ tab_tail) (drop 11 s)")
      (auto simp: match_tab_def simp del: match_words.simps append.simps split: if_splits)
  then have "length rest \<le> length (drop 11 s)" using match_words_shorter by blast
  moreover have "length (take (length ''CLIENT_LIST'') s) = length ''CLIENT_LIST''"
    using s unfolding starts_with_def by (rule arg_cong)
  then have "length s \<ge> 11" unfolding length_take by simp
  ultimately show ?thesis by simp
qed

function tab_matches :: "bool \<Rightarrow> string \<Rightarrow> string list list" where
  "tab_matches at_start s =
     (case (if at_start then match_tab s else None) of
        Some (ws, rest) \<Rightarrow> ws # tab_matches False rest
      | None \<Rightarrow> (case s of [] \<Rightarrow> [] | c # cs \<Rightarrow> tab_matches (c = LF) cs))"
  by pat_completeness auto
termination by (relation "measure (length \<circ> snd)") (auto dest: match_tab_shorter split: if_splits)

declare tab_matches.simps [simp del]

text \<open>The groups of a match: name, real address, virtual address, (a further one), received, sent, time, time stamp.
  The word form has the time in two words.\<close>

definition client_of_groups :: "string list \<Rightarrow> nat \<Rightarrow> traffic_client" where
  "client_of_groups g since =
     \<lparr>cl_common_name = Some (strip (g ! 0)), cl_real_address = Some (strip (g ! 1)),
      cl_virtual_address = Some (strip (g ! 2)), cl_peer_public_key = None, cl_session_kind = Some ''openvpn'',
      cl_bytes_received = Some (int (read_base 10 (g ! 4))), cl_bytes_sent = Some (int (read_base 10 (g ! 5))),
      cl_connected_since_ts = Some (int (read_base 10 (g ! since)))\<rparr>"

definition total_bytes :: "traffic_client \<Rightarrow> int" where
  "total_bytes c = or_zero (cl_bytes_received c) + or_zero (cl_bytes_sent c)"

definition parse_status_clients :: "string \<Rightarrow> traffic_client list" where
  "parse_status_clients raw =
     (let clients = map (\<lambda>g. client_of_groups g 7) (csv_matches raw);
          clients = (if clients = [] then map (\<lambda>g. client_of_groups g 8) (tab_matches True raw) else clients)
      in sort_desc total_bytes clients)"

definition parse_status_from_source :: "string \<Rightarrow> string \<Rightarrow> status_row" where
  "parse_status_from_source profile_key raw =
     \<lparr>sr_profile = profile_key, sr_clients = (if raw = [] then [] else parse_status_clients raw),
      sr_traffic_clients = None\<rparr>"

section \<open>Names of the peers\<close>

text \<open>The table \<^verbatim>\<open>wireguard_peer_cache\<close>; a row of a configuration is a row of it.\<close>

record peer_cache_row =
  pc_interface :: string
  pc_public_key :: string
  pc_client_name :: string
  pc_allowed_ips :: "string option"

record config_peer =
  cp_client_name :: string
  cp_public_key :: string
  cp_allowed_ips :: string

definition flush_config_peer :: "string \<Rightarrow> config_peer option \<Rightarrow> peer_cache_row list" where
  "flush_config_peer iface state =
     (case state of
        None \<Rightarrow> []
      | Some s \<Rightarrow>
          let peer_key = strip (cp_public_key s); name = strip (cp_client_name s) in
          if peer_key = [] \<or> name = [] then []
          else [\<lparr>pc_interface = iface, pc_public_key = peer_key, pc_client_name = name,
                 pc_allowed_ips = none_if_empty (strip (cp_allowed_ips s))\<rparr>])"

definition set_config_field :: "string \<Rightarrow> config_peer \<Rightarrow> config_peer" where
  "set_config_field line s =
     (case match_assign ''PublicKey'' line of
        Some v \<Rightarrow> s\<lparr>cp_public_key := v\<rparr>
      | None \<Rightarrow> (case match_assign ''AllowedIPs'' line of Some v \<Rightarrow> s\<lparr>cp_allowed_ips := v\<rparr> | None \<Rightarrow> s))"

type_synonym config_state = "string \<times> config_peer option \<times> peer_cache_row list"

definition config_line :: "string \<Rightarrow> config_state \<Rightarrow> string \<Rightarrow> config_state" where
  "config_line iface st raw_line =
     (case st of (pending, current, rows) \<Rightarrow>
        let line = strip raw_line in
        if line = [] then (pending, current, rows)
        else (case match_client line of
                Some name \<Rightarrow> (name, current, rows)
              | None \<Rightarrow>
                  if is_peer_header line then
                    ([], Some \<lparr>cp_client_name = pending, cp_public_key = [], cp_allowed_ips = []\<rparr>,
                     rows @ flush_config_peer iface current)
                  else if is_section_header line then (pending, None, rows @ flush_config_peer iface current)
                  else (pending, map_option (set_config_field line) current, rows)))"

definition config_peer_rows :: "string \<Rightarrow> string \<Rightarrow> peer_cache_row list" where
  "config_peer_rows iface file =
     (case foldl (config_line iface) ([], None, []) (splitlines file) of
        (pending, current, rows) \<Rightarrow> rows @ flush_config_peer iface current)"

definition normalize_wireguard_allowed_ip :: "string \<Rightarrow> string" where
  "normalize_wireguard_allowed_ip token =
     (let v = strip token in if v = [] \<or> lower v = ''(none)'' then [] else strip (before (CHR ''/'') v))"

definition split_wireguard_allowed_ips :: "string \<Rightarrow> string list" where
  "split_wireguard_allowed_ips v =
     filter (\<lambda>ip. ip \<noteq> []) (map normalize_wireguard_allowed_ip (split_on (CHR '','') v))"

type_synonym peer_names = "(string \<times> string, string) dict"

definition cache_key :: "peer_cache_row \<Rightarrow> string \<times> string" where
  "cache_key row = (strip (pc_interface row), strip (pc_public_key row))"

definition load_peer_cache_row :: "peer_names \<times> peer_names \<Rightarrow> peer_cache_row \<Rightarrow> peer_names \<times> peer_names" where
  "load_peer_cache_row maps row =
     (case maps of (by_public_key, by_allowed_ip) \<Rightarrow>
        let iface = strip (pc_interface row); key = strip (pc_public_key row); name = strip (pc_client_name row) in
        if iface = [] \<or> name = [] then maps
        else (if key = [] then by_public_key else AList.update (iface, key) name by_public_key,
              foldl (\<lambda>d ip. AList.update (iface, ip) name d) by_allowed_ip
                (split_wireguard_allowed_ips (case pc_allowed_ips row of None \<Rightarrow> [] | Some a \<Rightarrow> a))))"

definition load_wireguard_peer_cache_maps :: "peer_cache_row list \<Rightarrow> peer_names \<times> peer_names" where
  "load_wireguard_peer_cache_maps rows = foldl load_peer_cache_row ([], []) rows"

text \<open>
  The configurations written into the table. A row of the table keeps its place; those whose key no configuration
  has are deleted.
\<close>

definition parsed_by_key :: "peer_cache_row list \<Rightarrow> (string \<times> string, peer_cache_row) dict" where
  "parsed_by_key rows =
     foldl (\<lambda>d row. let key = cache_key row in if fst key = [] \<or> snd key = [] then d else AList.update key row d) [] rows"

definition refreshed :: "peer_cache_row \<Rightarrow> peer_cache_row \<Rightarrow> peer_cache_row" where
  "refreshed existing parsed =
     (let name = strip (pc_client_name parsed);
          allowed = none_if_empty (strip (case pc_allowed_ips parsed of None \<Rightarrow> [] | Some a \<Rightarrow> a))
      in if strip (pc_client_name existing) \<noteq> name
            \<or> none_if_empty (strip (case pc_allowed_ips existing of None \<Rightarrow> [] | Some a \<Rightarrow> a)) \<noteq> allowed
         then existing\<lparr>pc_client_name := name, pc_allowed_ips := allowed\<rparr> else existing)"

definition inserted :: "(string \<times> string) \<times> peer_cache_row \<Rightarrow> peer_cache_row" where
  "inserted kv =
     \<lparr>pc_interface = fst (fst kv), pc_public_key = snd (fst kv), pc_client_name = strip (pc_client_name (snd kv)),
      pc_allowed_ips = none_if_empty (strip (case pc_allowed_ips (snd kv) of None \<Rightarrow> [] | Some a \<Rightarrow> a))\<rparr>"

text \<open>\<^verbatim>\<open>existing_by_key\<close> knows the last row of a key; earlier rows with the same stripped key are not touched.\<close>

definition sync_cache_rows :: "(string \<times> string, peer_cache_row) dict \<Rightarrow> peer_cache_row list \<Rightarrow> peer_cache_row list" where
  "sync_cache_rows by_key rows =
     (let known = (\<lambda>i. last_index (\<lambda>row. cache_key row = cache_key (rows ! i)) rows = Some i) in
      concat (map (\<lambda>i. if \<not> known i then [rows ! i]
                        else case map_of by_key (cache_key (rows ! i)) of
                               None \<Rightarrow> []
                             | Some parsed \<Rightarrow> [refreshed (rows ! i) parsed]) [0..<length rows])
      @ map inserted (filter (\<lambda>kv. last_index (\<lambda>row. cache_key row = fst kv) rows = None) by_key))"

definition sync_wireguard_peer_cache_from_configs :: "(string \<times> string) list \<Rightarrow> peer_cache_row list \<Rightarrow> nat \<times> peer_cache_row list" where
  "sync_wireguard_peer_cache_from_configs files rows =
     (let by_key = parsed_by_key (concat (map (\<lambda>(iface, file). config_peer_rows iface file) files)) in
      (length by_key, sync_cache_rows by_key rows))"

section \<open>The dump of \<^verbatim>\<open>wg\<close>\<close>

record dump_peer =
  dp_interface :: string
  dp_public_key :: string
  dp_endpoint :: string
  dp_allowed_ips :: string
  dp_latest_handshake_ts :: int
  dp_bytes_received :: int
  dp_bytes_sent :: int

text \<open>\<^verbatim>\<open>int(part or 0)\<close>, or 0 when it raises.\<close>

definition int_or_zero :: "string \<Rightarrow> int" where
  "int_or_zero s = (case read_int s of None \<Rightarrow> 0 | Some n \<Rightarrow> n)"

definition dump_line :: "string \<Rightarrow> dump_peer list" where
  "dump_line raw_line =
     (let line = strip raw_line; parts = split_on (CHR 0x09) line in
      if line = [] then []
      else if length parts = 5 then []
      else if length parts < 8 then []
      else if strip (parts ! 0) \<notin> {''antizapret'', ''vpn''} then []
      else [\<lparr>dp_interface = strip (parts ! 0), dp_public_key = strip (parts ! 1), dp_endpoint = strip (parts ! 3),
             dp_allowed_ips = strip (parts ! 4), dp_latest_handshake_ts = int_or_zero (parts ! 5),
             dp_bytes_received = max (int_or_zero (parts ! 6)) 0, dp_bytes_sent = max (int_or_zero (parts ! 7)) 0\<rparr>])"

definition parse_dump :: "string \<Rightarrow> dump_peer list" where
  "parse_dump output = concat (map dump_line (splitlines output))"

definition preferred_ip :: "dump_peer \<Rightarrow> string" where
  "preferred_ip peer = (case split_wireguard_allowed_ips (dp_allowed_ips peer) of [] \<Rightarrow> [] | ip # _ \<Rightarrow> ip)"

definition unmapped :: "peer_names \<times> peer_names \<Rightarrow> dump_peer \<Rightarrow> bool" where
  "unmapped maps peer \<longleftrightarrow>
     map_of (fst maps) (dp_interface peer, strip (dp_public_key peer)) = None
     \<and> \<not> (preferred_ip peer \<noteq> [] \<and> map_of (snd maps) (dp_interface peer, preferred_ip peer) \<noteq> None)"

definition peer_client_name :: "peer_names \<times> peer_names \<Rightarrow> dump_peer \<Rightarrow> string" where
  "peer_client_name maps peer =
     (let iface = dp_interface peer; ip = preferred_ip peer; key = strip (dp_public_key peer);
          name = (case map_of (fst maps) (iface, key) of None \<Rightarrow> [] | Some n \<Rightarrow> n);
          name = (if name = [] \<and> ip \<noteq> [] then (case map_of (snd maps) (iface, ip) of None \<Rightarrow> [] | Some n \<Rightarrow> n) else name)
      in if name \<noteq> [] then name
         else if ip \<noteq> [] then iface @ ''-'' @ ip
         else if key \<noteq> [] then iface @ ''-'' @ take 10 key
         else iface @ ''-peer'')"

definition client_of_peer :: "peer_names \<times> peer_names \<Rightarrow> dump_peer \<Rightarrow> traffic_client" where
  "client_of_peer maps peer =
     \<lparr>cl_common_name = Some (peer_client_name maps peer),
      cl_real_address = Some (if dp_endpoint peer \<noteq> [] \<and> dp_endpoint peer \<noteq> ''(none)'' then dp_endpoint peer else ''-''),
      cl_virtual_address = Some (if preferred_ip peer \<noteq> [] then preferred_ip peer else ''-''),
      cl_peer_public_key = Some (strip (dp_public_key peer)), cl_session_kind = Some ''wireguard'',
      cl_bytes_received = Some (dp_bytes_received peer), cl_bytes_sent = Some (dp_bytes_sent peer),
      cl_connected_since_ts = Some (dp_latest_handshake_ts peer)\<rparr>"

text \<open>The clock is in whole seconds here.\<close>

definition is_wireguard_peer_active :: "int \<Rightarrow> int \<Rightarrow> int \<Rightarrow> bool" where
  "is_wireguard_peer_active clock handshake_ts active_seconds =
     (if handshake_ts \<le> 0 then False
      else if active_seconds \<le> 0 then True
      else max (clock - handshake_ts) 0 \<le> active_seconds)"

text \<open>No output: the command failed. The table is written when a peer has no name yet.\<close>

definition collect_wireguard_status_rows ::
  "int \<Rightarrow> string option \<Rightarrow> (string \<times> string) list \<Rightarrow> int \<Rightarrow> peer_cache_row list \<Rightarrow> status_row list \<times> peer_cache_row list" where
  "collect_wireguard_status_rows clock output files active_seconds rows =
     (case output of
        None \<Rightarrow>
          (map (\<lambda>iface. \<lparr>sr_profile = iface @ ''-wg'', sr_clients = [], sr_traffic_clients = Some []\<rparr>) [''antizapret'', ''vpn''], rows)
      | Some text \<Rightarrow>
          let peers = parse_dump text;
              maps = load_wireguard_peer_cache_maps rows;
              rows' = (if list_ex (unmapped maps) peers then snd (sync_wireguard_peer_cache_from_configs files rows) else rows);
              maps = (if list_ex (unmapped maps) peers then load_wireguard_peer_cache_maps rows' else maps)
          in (map (\<lambda>iface.
                let mine = filter (\<lambda>peer. dp_interface peer = iface) peers in
                \<lparr>sr_profile = iface @ ''-wg'',
                 sr_clients = map (client_of_peer maps)
                   (filter (\<lambda>peer. is_wireguard_peer_active clock (dp_latest_handshake_ts peer) active_seconds) mine),
                 sr_traffic_clients = Some (map (client_of_peer maps) mine)\<rparr>) [''antizapret'', ''vpn''], rows'))"

section \<open>A snapshot\<close>

text \<open>The status of each server, empty when it cannot be read, then the peers.\<close>

definition status_profiles :: "string list" where
  "status_profiles = [''antizapret-tcp'', ''antizapret-udp'', ''vpn-tcp'', ''vpn-udp'']"

definition collect_status_rows_for_snapshot ::
  "int \<Rightarrow> (string \<Rightarrow> string) \<Rightarrow> string option \<Rightarrow> (string \<times> string) list \<Rightarrow> int \<Rightarrow> peer_cache_row list
     \<Rightarrow> status_row list \<times> peer_cache_row list" where
  "collect_status_rows_for_snapshot clock status output files active_seconds rows =
     (case collect_wireguard_status_rows clock output files active_seconds rows of
        (wireguard, rows') \<Rightarrow>
          (map (\<lambda>profile. parse_status_from_source profile (status profile)) status_profiles @ wireguard, rows'))"

text \<open>The run of the script with its switches: the options leave out one source, or both.\<close>

definition run_sync ::
  "datetime \<Rightarrow> int \<Rightarrow> bool \<Rightarrow> bool \<Rightarrow> (string \<Rightarrow> string) \<Rightarrow> string option \<Rightarrow> (string \<times> string) list \<Rightarrow> int
     \<Rightarrow> traffic_db \<times> peer_cache_row list \<Rightarrow> sync_summary \<times> traffic_db \<times> peer_cache_row list" where
  "run_sync now clock no_openvpn no_wg status output files active_seconds st =
     (case st of (db, cache) \<Rightarrow>
        let (rows, cache') =
          (if no_openvpn \<and> no_wg then ([], cache)
           else if no_wg then (map (\<lambda>profile. parse_status_from_source profile (status profile)) status_profiles, cache)
           else if no_openvpn then collect_wireguard_status_rows clock output files active_seconds cache
           else collect_status_rows_for_snapshot clock status output files active_seconds cache);
          (sm, db') = sync_persist_snapshot now db rows
        in (sm, db', cache'))"

end
