(* ===== verification/TrafficStatusProps.thy ===== *)
theory TrafficStatusProps
  imports TrafficStatus TrafficFacts
begin

text \<open>
  The status of OpenVPN reads back, and the table of peers follows the server configurations.
\<close>

section \<open>Matches stay on a line\<close>

lemma take_field_line:
  assumes "LF \<notin> set l" and "\<not> fst spec LF"
  shows "take_field spec (l @ LF # r) = map_option (\<lambda>(f, rest). (f, rest @ LF # r)) (take_field spec l)"
proof (cases "\<forall>c \<in> set l. fst spec c")
  case True
  have a: "takeWhile (fst spec) l = l" by (rule takeWhile_all) (use True in blast)
  have b: "dropWhile (fst spec) l = []" using True by simp
  have c: "takeWhile (fst spec) (l @ LF # r) = l" "dropWhile (fst spec) (l @ LF # r) = LF # r"
    using True assms(2) by (simp_all add: takeWhile_append2 dropWhile_append2)
  show ?thesis unfolding take_field_def Let_def a b c by simp
next
  case False
  then obtain c where "c \<in> set l" "\<not> fst spec c" by blast
  then have "takeWhile (fst spec) (l @ LF # r) = takeWhile (fst spec) l"
    "dropWhile (fst spec) (l @ LF # r) = dropWhile (fst spec) l @ LF # r"
    and "dropWhile (fst spec) l \<noteq> []"
    by (auto simp: takeWhile_append1 dropWhile_append1 dropWhile_eq_Nil_conv)
  then show ?thesis by (cases "dropWhile (fst spec) l") (simp_all add: take_field_def Let_def)
qed

lemma take_field_rest: "take_field spec l = Some (f, rest) \<Longrightarrow> set rest \<subseteq> set l"
  using set_dropWhileD [of _ "fst spec" l] by (auto simp: take_field_def Let_def split: if_splits list.splits)

lemma take_fields_line:
  assumes "LF \<notin> set l" and "\<forall>spec \<in> set specs. \<not> fst spec LF"
  shows "take_fields specs (l @ LF # r) = map_option (\<lambda>(fs, rest). (fs, rest @ LF # r)) (take_fields specs l)"
  using assms
proof (induction specs arbitrary: l)
  case Nil
  have "\<not> last_char LF" by (simp add: last_char_def plain_char_def)
  then have "takeWhile last_char (l @ LF # r) = takeWhile last_char l" "dropWhile last_char (l @ LF # r) = dropWhile last_char l @ LF # r"
    by (induction l) auto
  then show ?case by (simp add: Let_def)
next
  case (Cons spec specs)
  show ?case
  proof (cases "take_field spec l")
    case None
    then show ?thesis using Cons.prems by (simp add: take_field_line)
  next
    case (Some fr)
    obtain f rest where fr: "fr = (f, rest)" by fastforce
    then have "LF \<notin> set rest" using take_field_rest [of spec l f rest] Some Cons.prems by auto
    then show ?thesis using Cons Some fr
      by (simp add: take_field_line split: option.split)
  qed
qed

lemma client_specs_LF: "\<forall>spec \<in> set client_specs. \<not> fst spec LF" and client_specs_comma: "\<forall>spec \<in> set client_specs. \<not> fst spec (CHR '','')"
  by (simp_all add: client_specs_def plain_char_def)

lemma starts_with_line:
  assumes "LF \<notin> set p"
  shows "starts_with p (l @ LF # r) \<longleftrightarrow> starts_with p l"
proof (cases "length p \<le> length l")
  case True
  then show ?thesis by (simp add: starts_with_def)
next
  case False
  then have "LF \<in> set (take (length p) (l @ LF # r))" by (auto simp: take_Cons')
  then have "\<not> starts_with p (l @ LF # r)" using assms unfolding starts_with_def by metis
  moreover have "\<not> starts_with p l"
  proof
    assume "starts_with p l"
    then have "length (take (length p) l) = length p" unfolding starts_with_def by (rule arg_cong)
    then show False using False by simp
  qed
  ultimately show ?thesis by simp
qed

lemma match_csv_line:
  assumes "LF \<notin> set l"
  shows "match_csv (l @ LF # r) = map_option (\<lambda>(fs, rest). (fs, rest @ LF # r)) (match_csv l)"
proof (cases "starts_with ''CLIENT_LIST,'' l")
  case True
  then have "length (take (length ''CLIENT_LIST,'') l) = length ''CLIENT_LIST,''" unfolding starts_with_def by (rule arg_cong)
  then have "12 \<le> length l" unfolding length_take by simp
  moreover have "LF \<notin> set (drop 12 l)" using assms in_set_dropD by fastforce
  ultimately show ?thesis using True take_fields_line [OF _ client_specs_LF, of "drop 12 l" r]
    by (simp add: match_csv_def starts_with_line)
next
  case False
  then show ?thesis by (simp add: match_csv_def starts_with_line)
qed

lemma take_fields_rest: "take_fields specs l = Some (fs, rest) \<Longrightarrow> set rest \<subseteq> set l"
proof (induction specs arbitrary: l fs)
  case Nil
  then show ?case using set_dropWhileD by (fastforce simp: Let_def split: if_splits)
next
  case (Cons spec specs)
  then obtain f rest' fs' where "take_field spec l = Some (f, rest')" "take_fields specs rest' = Some (fs', rest)"
    by (auto split: option.splits)
  then show ?case using Cons.IH take_field_rest by blast
qed

lemma csv_matches_line:
  assumes "LF \<notin> set l"
  shows "csv_matches (l @ LF # r) = csv_matches l @ csv_matches r"
  using assms
proof (induction l rule: csv_matches.induct)
  case (1 s)
  show ?case
  proof (cases "match_csv s")
    case None
    show ?thesis
    proof (cases s)
      case Nil
      have "match_csv [] = None" "match_csv (LF # r) = None" by (simp_all add: match_csv_def starts_with_def)
      then show ?thesis using Nil csv_matches.simps [of "LF # r"] csv_matches.simps [of "[]"] by simp
    next
      case (Cons c cs)
      then have "csv_matches (cs @ LF # r) = csv_matches cs @ csv_matches r" using 1 None by auto
      then show ?thesis using None Cons match_csv_line [OF "1.prems", of r] csv_matches.simps [of s]
          csv_matches.simps [of "s @ LF # r"] by simp
    qed
  next
    case (Some m)
    obtain fs rest where m: "m = (fs, rest)" by fastforce
    then have "set rest \<subseteq> set s"
      using Some take_fields_rest [of client_specs "drop 12 s" fs rest] set_drop_subset [of 12 s]
      by (auto simp: match_csv_def split: if_splits)
    then have "LF \<notin> set rest" using "1.prems" by blast
    then have "csv_matches (rest @ LF # r) = csv_matches rest @ csv_matches r" using "1.IH"(2) Some m by simp
    then show ?thesis using Some m match_csv_line [OF "1.prems", of r] csv_matches.simps [of s]
        csv_matches.simps [of "s @ LF # r"] by simp
  qed
qed

lemma csv_matches_Nil [simp]: "csv_matches [] = []"
  using csv_matches.simps [of "[]"] by (simp add: match_csv_def starts_with_def)

lemma csv_matches_unlines:
  "\<forall>l \<in> set ls. LF \<notin> set l \<Longrightarrow> csv_matches (unlines ls) = concat (map csv_matches ls)"
  by (induction ls) (simp_all add: unlines_def csv_matches_line)

section \<open>A status file\<close>

text \<open>One connected client, as OpenVPN reports it.\<close>

record ovpn_entry =
  oe_name :: string
  oe_real :: string
  oe_virtual :: string
  oe_virtual6 :: string
  oe_received :: nat
  oe_sent :: nat
  oe_since_text :: string
  oe_since :: nat
  oe_user :: string
  oe_client_id :: string
  oe_peer_id :: string
  oe_cipher :: string

definition entry_fields :: "ovpn_entry \<Rightarrow> string list" where
  "entry_fields e =
     [oe_name e, oe_real e, oe_virtual e, oe_virtual6 e, show_nat (oe_received e), show_nat (oe_sent e), oe_since_text e,
      show_nat (oe_since e), oe_user e, oe_client_id e, oe_peer_id e, oe_cipher e]"

definition entry_line :: "ovpn_entry \<Rightarrow> string" where
  "entry_line e = ''CLIENT_LIST,'' @ join '','' (entry_fields e)"

definition entry_client :: "ovpn_entry \<Rightarrow> traffic_client" where
  "entry_client e =
     \<lparr>cl_common_name = Some (oe_name e), cl_real_address = Some (oe_real e), cl_virtual_address = Some (oe_virtual e),
      cl_peer_public_key = None, cl_session_kind = Some ''openvpn'', cl_bytes_received = Some (int (oe_received e)),
      cl_bytes_sent = Some (int (oe_sent e)), cl_connected_since_ts = Some (int (oe_since e))\<rparr>"

text \<open>No comma or end of line in a field, no white space around the stored ones, the first two and the time not empty.\<close>

definition entry_ok :: "ovpn_entry \<Rightarrow> bool" where
  "entry_ok e \<longleftrightarrow>
     list_all (list_all plain_char) [oe_name e, oe_real e, oe_virtual e, oe_virtual6 e, oe_since_text e, oe_user e,
       oe_client_id e, oe_peer_id e]
     \<and> list_all last_char (oe_cipher e) \<and> oe_name e \<noteq> [] \<and> oe_real e \<noteq> [] \<and> oe_since_text e \<noteq> [] \<and> oe_cipher e \<noteq> []
     \<and> strip (oe_name e) = oe_name e \<and> strip (oe_real e) = oe_real e \<and> strip (oe_virtual e) = oe_virtual e"

fun fields_ok :: "((char \<Rightarrow> bool) \<times> bool) list \<Rightarrow> string list \<Rightarrow> bool" where
  "fields_ok [] [f] = (f \<noteq> [] \<and> list_all last_char f)"
| "fields_ok (spec # specs) (f # fs) = (list_all (fst spec) f \<and> (snd spec \<longrightarrow> f \<noteq> []) \<and> fields_ok specs fs)"
| "fields_ok _ _ = False"

lemma take_field_first:
  assumes "list_all (fst spec) f" and "snd spec \<longrightarrow> f \<noteq> []" and "\<not> fst spec (CHR '','')"
  shows "take_field spec (f @ CHR '','' # s) = Some (f, s)"
proof -
  have "takeWhile (fst spec) (f @ CHR '','' # s) = f" "dropWhile (fst spec) (f @ CHR '','' # s) = CHR '','' # s"
    using assms by (simp_all add: list_all_iff takeWhile_append2 dropWhile_append2)
  then show ?thesis using assms(2) by (simp add: take_field_def Let_def)
qed

lemma take_fields_join:
  "fields_ok specs fs \<Longrightarrow> \<forall>spec \<in> set specs. \<not> fst spec (CHR '','') \<Longrightarrow> take_fields specs (join '','' fs) = Some (fs, [])"
proof (induction specs fs rule: fields_ok.induct)
  case (1 f)
  have a: "takeWhile last_char f = f" by (rule takeWhile_all) (use 1 in \<open>simp add: list_all_iff\<close>)
  have b: "dropWhile last_char f = []" using 1 by (simp add: list_all_iff)
  show ?case using 1 by (simp only: take_fields.simps join.simps Let_def a b fields_ok.simps) simp
next
  case (2 spec specs f fs)
  then obtain g gs where "fs = g # gs" by (cases fs; cases specs) auto
  then show ?case using 2 take_field_first [of spec f "join '','' fs"] by simp
qed simp_all

lemma plain_digits: "list_all is_digit (show_nat n) \<and> show_nat n \<noteq> []"
proof -
  have "show_nat n \<noteq> []" by (simp add: show_nat_def show_base.simps [of 10 n])
  then show ?thesis using show_nat_chars by (auto simp: list_all_iff)
qed

lemma entry_matches:
  assumes "entry_ok e"
  shows "csv_matches (entry_line e) = [entry_fields e]"
proof -
  have "fields_ok client_specs (entry_fields e)"
    using assms plain_digits by (simp add: client_specs_def entry_fields_def entry_ok_def)
  then have "match_csv (entry_line e) = Some (entry_fields e, [])"
    using take_fields_join [OF _ client_specs_comma] by (simp add: match_csv_def entry_line_def starts_with_def)
  then show ?thesis using csv_matches.simps [of "entry_line e"] by simp
qed

lemma joined_chars: "c \<in> set (join sep xs) \<Longrightarrow> c \<in> set sep \<or> (\<exists>x \<in> set xs. c \<in> set x)"
  by (induction sep xs rule: join.induct) auto

lemma plain_LF: "list_all plain_char f \<Longrightarrow> LF \<notin> set f" and last_LF: "list_all last_char f \<Longrightarrow> LF \<notin> set f"
  by (induction f) (auto simp: plain_char_def last_char_def)

lemma entry_line_LF:
  assumes "entry_ok e"
  shows "LF \<notin> set (entry_line e)"
proof -
  have "\<not> is_digit LF" by simp
  then have "LF \<notin> set (show_nat n)" for n using show_nat_chars by blast
  then have "\<forall>f \<in> set (entry_fields e). LF \<notin> set f"
    using assms by (simp add: entry_fields_def entry_ok_def plain_LF last_LF)
  then have "LF \<notin> set (join '','' (entry_fields e))" using joined_chars by fastforce
  then show ?thesis by (simp add: entry_line_def)
qed

lemma entry_groups: "entry_ok e \<Longrightarrow> client_of_groups (entry_fields e) 7 = entry_client e"
  by (simp add: client_of_groups_def entry_fields_def entry_client_def entry_ok_def)

text \<open>C16: The clients OpenVPN reports in the comma form of its status are read back with their
  names, addresses and counters, one for each line, in the order of their traffic, whatever lines that are no
  reports (titles, the routing table) stand between them.\<close>

theorem status_lines_read_back:
  assumes "\<forall>line \<in> set lines. case line of Inl other \<Rightarrow> LF \<notin> set other \<and> csv_matches other = [] | Inr e \<Rightarrow> entry_ok e"
    and "entries = concat (map (\<lambda>line. case line of Inl other \<Rightarrow> [] | Inr e \<Rightarrow> [e]) lines)" and "entries \<noteq> []"
  shows "sr_clients (parse_status_from_source profile
      (unlines (map (\<lambda>line. case line of Inl other \<Rightarrow> other | Inr e \<Rightarrow> entry_line e) lines))) =
    sort_desc total_bytes (map entry_client entries)"
proof -
  let ?raw = "unlines (map (\<lambda>line. case line of Inl other \<Rightarrow> other | Inr e \<Rightarrow> entry_line e) lines)"
  have "csv_matches ?raw = concat (map csv_matches (map (\<lambda>line. case line of Inl other \<Rightarrow> other | Inr e \<Rightarrow> entry_line e) lines))"
    by (rule csv_matches_unlines) (use assms(1) entry_line_LF in \<open>fastforce split: sum.splits\<close>)
  also have "\<dots> = map entry_fields entries"
    unfolding assms(2) using assms(1) by (induction lines) (auto simp: entry_matches split: sum.splits)
  finally have matches: "csv_matches ?raw = map entry_fields entries" .
  have "\<forall>e \<in> set entries. entry_ok e" using assms(1) unfolding assms(2) by (force split: sum.splits)
  then have "map (\<lambda>g. client_of_groups g 7) (csv_matches ?raw) = map entry_client entries"
    unfolding matches by (simp add: entry_groups)
  moreover have "?raw \<noteq> []" using matches assms(3) by (metis csv_matches_Nil map_is_Nil_conv)
  ultimately show ?thesis using assms(3) by (simp add: parse_status_from_source_def parse_status_clients_def Let_def)
qed

definition ex_entry :: "string \<Rightarrow> nat \<Rightarrow> nat \<Rightarrow> ovpn_entry" where
  "ex_entry name rx tx =
     \<lparr>oe_name = name, oe_real = ''r:1'', oe_virtual = ''v'', oe_virtual6 = [], oe_received = rx, oe_sent = tx,
      oe_since_text = ''t'', oe_since = 3, oe_user = ''U'', oe_client_id = ''0'', oe_peer_id = ''1'', oe_cipher = ''A''\<rparr>"

theorem status_lines_read_back_witness:
  "map cl_common_name (sr_clients (parse_status_from_source ''vpn-tcp''
     (unlines [''TITLE'', entry_line (ex_entry ''ann'' 5 1), entry_line (ex_entry ''bob'' 20 4)]))) = [Some ''bob'', Some ''ann'']"
proof -
  have ok: "entry_ok (ex_entry ''ann'' 5 1)" "entry_ok (ex_entry ''bob'' 20 4)" by code_simp+
  have title: "csv_matches ''TITLE'' = []" "LF \<notin> set ''TITLE''" by code_simp+
  have sorted: "map cl_common_name (sort_desc total_bytes (map entry_client [ex_entry ''ann'' 5 1, ex_entry ''bob'' 20 4])) =
      [Some ''bob'', Some ''ann'']" by code_simp
  show ?thesis
    using status_lines_read_back [of "[Inl ''TITLE'', Inr (ex_entry ''ann'' 5 1), Inr (ex_entry ''bob'' 20 4)]"
        "[ex_entry ''ann'' 5 1, ex_entry ''bob'' 20 4]" "''vpn-tcp''"] ok title sorted by simp
qed

section \<open>The table of peers\<close>

abbreviation config_names :: "(string \<times> string) list \<Rightarrow> (string \<times> string, peer_cache_row) dict" where
  "config_names files \<equiv> parsed_by_key (concat (map (\<lambda>(iface, file). config_peer_rows iface file) files))"

definition named_row :: "peer_cache_row \<Rightarrow> bool" where
  "named_row row \<longleftrightarrow> pc_client_name row \<noteq> [] \<and> strip (pc_client_name row) = pc_client_name row"

lemma flush_config_named: "row \<in> set (flush_config_peer iface s) \<Longrightarrow> named_row row"
  by (auto simp: flush_config_peer_def named_row_def Let_def split: option.splits if_splits)

lemma config_rows_named: "row \<in> set (config_peer_rows iface file) \<Longrightarrow> named_row row"
proof -
  let ?good = "\<lambda>st. \<forall>row \<in> set (snd (snd st)). named_row row"
  have step: "?good (config_line iface st l)" if "?good st" for st l
    using that flush_config_named by (cases st) (auto simp: config_line_def Let_def split: option.splits)
  have "?good (foldl (config_line iface) ([], None, []) (splitlines file))"
    by (rule foldl_invariant) (simp_all add: step)
  then show "row \<in> set (config_peer_rows iface file) \<Longrightarrow> named_row row"
    using flush_config_named by (cases "foldl (config_line iface) ([], None, []) (splitlines file)")
      (auto simp: config_peer_rows_def)
qed

lemma config_names_ok:
  "wf_dict (config_names files) \<and> (\<forall>(k, row) \<in> set (config_names files).
     cache_key row = k \<and> fst k \<noteq> [] \<and> snd k \<noteq> [] \<and> named_row row)"
proof -
  let ?rows = "concat (map (\<lambda>(iface, file). config_peer_rows iface file) files)"
  let ?ok = "\<lambda>d. wf_dict d \<and> (\<forall>(k, row) \<in> set d. cache_key row = k \<and> fst k \<noteq> [] \<and> snd k \<noteq> [] \<and> named_row row)"
  have update: "set (AList.update k v d) \<subseteq> insert (k, v) (set d)" for k :: "string \<times> string" and v :: peer_cache_row and d
    by (induction d) auto
  have named: "named_row row" if "row \<in> set ?rows" for row using that config_rows_named by auto
  show ?thesis unfolding parsed_by_key_def
  proof (rule foldl_invariant [where I = ?ok])
    fix d row
    assume "?ok d" and "row \<in> set ?rows"
    then have d: "?ok d" and row: "named_row row" using named by blast+
    have "?ok (AList.update (cache_key row) row d)" if "fst (cache_key row) \<noteq> []" "snd (cache_key row) \<noteq> []"
      using d row that update [of "cache_key row" row d] by (auto simp: wf_dict_update)
    then show "?ok (let key = cache_key row in if fst key = [] \<or> snd key = [] then d else AList.update key row d)"
      using d by (simp add: Let_def)
  qed simp
qed

lemma refreshed_key [simp]: "cache_key (refreshed row parsed) = cache_key row"
  by (simp add: refreshed_def cache_key_def Let_def)

lemma refreshed_name: "strip (pc_client_name (refreshed row parsed)) = strip (pc_client_name parsed)"
  by (auto simp: refreshed_def Let_def)

lemma sync_cache_unique:
  assumes "distinct (map cache_key rows)"
  shows "sync_cache_rows by_key rows =
    concat (map (\<lambda>row. case map_of by_key (cache_key row) of None \<Rightarrow> [] | Some parsed \<Rightarrow> [refreshed row parsed]) rows)
    @ map inserted (filter (\<lambda>kv. fst kv \<notin> cache_key ` set rows) by_key)"
proof -
  have known: "last_index (\<lambda>row. cache_key row = cache_key (rows ! i)) rows = Some i" if "i < length rows" for i
  proof (cases "last_index (\<lambda>row. cache_key row = cache_key (rows ! i)) rows")
    case None
    then show ?thesis using that by (auto simp: last_index_None)
  next
    case (Some j)
    then have "j < length rows" "map cache_key rows ! j = map cache_key rows ! i"
      using last_index_Some [OF Some] that by simp_all
    then have "j = i" using nth_eq_iff_index_eq [OF assms, of j i] that by simp
    then show ?thesis using Some by simp
  qed
  have "map (\<lambda>i. if last_index (\<lambda>row. cache_key row = cache_key (rows ! i)) rows \<noteq> Some i then [rows ! i]
        else case map_of by_key (cache_key (rows ! i)) of None \<Rightarrow> [] | Some parsed \<Rightarrow> [refreshed (rows ! i) parsed]) [0..<length rows] =
      map (\<lambda>row. case map_of by_key (cache_key row) of None \<Rightarrow> [] | Some parsed \<Rightarrow> [refreshed row parsed]) rows"
    by (rule nth_equalityI) (simp_all add: known cong: option.case_cong)
  moreover have "last_index (\<lambda>row. cache_key row = k) rows = None \<longleftrightarrow> k \<notin> cache_key ` set rows" for k
    by (auto simp: last_index_None)
  ultimately show ?thesis by (simp add: sync_cache_rows_def Let_def)
qed

lemma load_names:
  assumes "distinct (map cache_key rows)" and "row \<in> set rows" and "cache_key row = (iface, key)"
    and "iface \<noteq> []" "key \<noteq> []" "strip (pc_client_name row) \<noteq> []"
  shows "map_of (fst (foldl load_peer_cache_row maps rows)) (iface, key) = Some (strip (pc_client_name row))"
proof -
  have step: "map_of (fst (load_peer_cache_row maps r)) k =
      (if cache_key r = k \<and> fst k \<noteq> [] \<and> snd k \<noteq> [] \<and> strip (pc_client_name r) \<noteq> [] then Some (strip (pc_client_name r))
       else map_of (fst maps) k)" for maps r k
    by (cases maps) (auto simp: load_peer_cache_row_def Let_def cache_key_def dict_simps)
  have other: "map_of (fst (foldl load_peer_cache_row maps rs)) k = map_of (fst maps) k"
    if "k \<notin> cache_key ` set rs" for maps rs k
    using that by (induction rs arbitrary: maps) (auto simp: step)
  show ?thesis using assms(1,2)
  proof (induction rows arbitrary: maps)
    case (Cons r rows)
    show ?case
    proof (cases "r = row")
      case True
      then have "(iface, key) \<notin> cache_key ` set rows" using Cons.prems(1) assms(3) by force
      then show ?thesis using True assms(3-) by (simp add: other step)
    next
      case False
      then show ?thesis using Cons by simp
    qed
  qed simp
qed


definition ex_files :: "(string \<times> string) list" where
  "ex_files = [(''vpn'', unlines [CHR 0x23 # '' Client = ann'', ''[Peer]'', ''PublicKey = K'', ''AllowedIPs = 1.2.3.4/32''])]"

definition ex_peer :: dump_peer where
  "ex_peer = \<lparr>dp_interface = ''vpn'', dp_public_key = ''K'', dp_endpoint = ''(none)'', dp_allowed_ips = ''1.2.3.4/32'',
     dp_latest_handshake_ts = 0, dp_bytes_received = 5, dp_bytes_sent = 6\<rparr>"

definition ex_cache :: "peer_cache_row list" where
  "ex_cache = [\<lparr>pc_interface = ''vpn'', pc_public_key = ''K'', pc_client_name = ''old'', pc_allowed_ips = None\<rparr>,
     \<lparr>pc_interface = ''vpn'', pc_public_key = ''L'', pc_client_name = ''gone'', pc_allowed_ips = None\<rparr>]"


text \<open>The form with white space, without the optional group.\<close>

lemma status_words_example:
  "map (\<lambda>c. (cl_common_name c, cl_virtual_address c, cl_bytes_received c, cl_bytes_sent c, cl_connected_since_ts c))
     (parse_status_clients ''CLIENT_LIST b r v 7 8 2024-01-02 03:04:05 9 U 0 1 A'') =
   [(Some ''b'', Some ''v'', Some 7, Some 8, Some 9)]"
  by code_simp

end
