(* ===== verification/GeoProps.thy ===== *)
theory GeoProps
  imports GeoScopes
begin

text \<open>
  The strict choice by region: no network belongs to two of the ten macro-regions.
\<close>

lemma bucket_scope_alone: "list_all (\<lambda>s. normalize_region_scopes (ScopeList [s]) = [s]) strict_geo_bucket_scopes"
  by code_simp

lemma normalize_bucket: "s \<in> set strict_geo_bucket_scopes \<Longrightarrow> normalize_region_scopes (ScopeList [s]) = [s]"
  using bucket_scope_alone by (simp add: list_all_iff)

lemma bucket_not_all: "s \<in> set strict_geo_bucket_scopes \<Longrightarrow> s \<noteq> ''all'' \<and> s \<noteq> ''global''"
  by (auto simp add: strict_geo_bucket_scopes_def)

lemma strict_scope_bucket:
  assumes "s \<in> set strict_geo_bucket_scopes" and "matches_strict_scope_value region (ScopeList [s])"
  shows "scope_strict_geo_buckets (lower (strip region)) = [s]"
  using assms bucket_not_all [OF assms(1)]
  by (auto simp add: matches_strict_scope_value_def Let_def normalize_bucket allowed_buckets_def list_ex_iff
      length_Suc_conv split: if_splits)

text \<open>Normalising a code twice changes nothing.\<close>

lemma upper_char_facts:
  assumes d: "d \<in> set (upper_char c)"
  shows "upper_char d = [d] \<and> is_space d = is_space c"
proof (cases "97 \<le> code c \<and> code c \<le> 122 \<or> 224 \<le> code c \<and> code c \<le> 254 \<and> code c \<noteq> 247")
  case True
  then have "d = char_of (code c - 32)" using d by (simp add: upper_char_def Let_def)
  then have "code d = code c - 32" by (simp add: less_imp_diff_less)
  then have n: "code d + 32 = code c" using True by linarith
  have "\<not> is_space c" "\<not> is_space d" using True n unfolding is_space_def Let_def by linarith+
  moreover have "\<not> (97 \<le> code d \<and> code d \<le> 122 \<or> 224 \<le> code d \<and> code d \<le> 254 \<and> code d \<noteq> 247)" "code d \<noteq> 223"
    using True n by linarith+
  then have "upper_char d = [d]" by (simp add: upper_char_def Let_def if_not_P)
  ultimately show ?thesis by simp
next
  case lower: False
  show ?thesis
  proof (cases "code c = 223")
    case True
    then have d: "d = CHR ''S''" using d by (simp add: upper_char_def)
    have "\<not> is_space c" using True by (simp add: is_space_def)
    then show ?thesis by (simp add: d upper_char_def)
  next
    case False
    then have "upper_char c = [c]" unfolding upper_char_def Let_def if_not_P [OF lower] by simp
    then show ?thesis using d by simp
  qed
qed

lemma upper_upper: "upper (upper s) = upper s"
proof -
  have "concat (map upper_char ds) = ds" if "\<And>d. d \<in> set ds \<Longrightarrow> upper_char d = [d]" for ds
    using that by (induction ds) auto
  then have "concat (map upper_char (upper_char c)) = upper_char c" for c using upper_char_facts [of _ c] by blast
  then show ?thesis by (induction s) (simp_all add: upper_def)
qed

lemma hd_strip: "strip s \<noteq> [] \<Longrightarrow> \<not> is_space (hd (strip s))"
proof -
  assume n: "strip s \<noteq> []"
  let ?l = "dropWhile is_space s"
  obtain w where w: "?l = strip s @ w"
    unfolding strip_def lstrip_def rstrip_def by (metis rev_append rev_rev_ident takeWhile_dropWhile_id)
  then have "hd (strip s) = hd ?l" "?l \<noteq> []" using n by auto
  then show ?thesis using hd_dropWhile [of is_space s] by simp
qed

lemma upper_ends:
  assumes "s \<noteq> []"
  shows "upper s \<noteq> [] \<and> is_space (hd (upper s)) = is_space (hd s) \<and> is_space (last (upper s)) = is_space (last s)"
proof -
  have ne: "upper_char c \<noteq> []" for c by (simp add: upper_char_def Let_def)
  obtain c cs where c: "s = c # cs" using assms by (cases s) auto
  obtain ds d where d: "s = ds @ [d]" using assms by (metis append_butlast_last_id)
  have "hd (upper s) = hd (upper_char c)" "upper s \<noteq> []" using ne [of c] by (simp_all add: upper_def c)
  moreover have "last (upper s) = last (upper_char d)" using ne [of d] by (simp add: upper_def d)
  moreover have "hd s = c" by (simp add: c)
  moreover have "last s = d" by (simp add: d)
  ultimately show ?thesis
    using upper_char_facts [of "hd (upper_char c)" c] upper_char_facts [of "last (upper_char d)" d] ne by simp
qed

lemma normalize_code_twice [simp]: "normalize_country_code (normalize_country_code c) = normalize_country_code c"
proof (cases "strip c = []")
  case True
  moreover have "strip [] = []" by (simp add: strip_def lstrip_def rstrip_def)
  ultimately show ?thesis by (simp add: normalize_country_code_def upper_def)
next
  case False
  have "strip (upper (strip c)) = upper (strip c)"
    using upper_ends [OF False] hd_strip [OF False] last_strip [OF False] by (intro strip_ends) simp_all
  then show ?thesis by (simp add: normalize_country_code_def upper_upper)
qed

lemma country_bucket:
  assumes s: "s \<in> set strict_geo_bucket_scopes" and m: "matches_country_scope c (ScopeList [s])"
  shows "normalize_country_code c \<noteq> [] \<and> s \<in> set (country_strict_geo_buckets (normalize_country_code c))"
proof -
  obtain allowed where "country_codes_by_scope s = Some allowed" "normalize_country_code c \<in> set allowed"
    "normalize_country_code c \<noteq> []"
    using m bucket_not_all [OF s]
    by (auto simp add: matches_country_scope_def Let_def normalize_bucket [OF s] normalize_country_code_def
        split: if_splits option.splits)
  then show ?thesis using s by (simp add: country_strict_geo_buckets_def Let_def)
qed

lemma strict_country_bucket:
  assumes strict: "is_strict_geo_country_set codes" and s: "s \<in> set strict_geo_bucket_scopes"
    and c: "c \<in> set codes" "matches_country_scope c (ScopeList [s])"
  shows "set (concat (map country_strict_geo_buckets (filter (\<lambda>c. c \<noteq> []) (map normalize_country_code codes)))) = {s}"
    (is "set ?bs = _")
proof -
  have "length (remdups ?bs) = 1" using strict by (simp add: is_strict_geo_country_set_def Let_def split: if_splits)
  then have "card (set ?bs) = 1" by (simp add: length_remdups_card_conv)
  moreover have "s \<in> set ?bs" using country_bucket [OF s c(2)] c(1) by auto
  ultimately show ?thesis by (metis card_1_singletonE singletonD)
qed

text \<open>In strict mode no region and no set of countries is taken for two different macro-regions: what passes
  the filter of one bucket passes that of no other.\<close>

theorem strict_buckets_exclusive:
  assumes s: "s \<in> set strict_geo_bucket_scopes" and t: "t \<in> set strict_geo_bucket_scopes" and neq: "s \<noteq> t"
  shows "\<not> (matches_strict_scope_value region (ScopeList [s]) \<and> matches_strict_scope_value region (ScopeList [t]))
    \<and> \<not> (is_strict_geo_country_set codes \<and> list_ex (\<lambda>c. matches_country_scope c (ScopeList [s])) codes
           \<and> list_ex (\<lambda>c. matches_country_scope c (ScopeList [t])) codes)"
proof (intro conjI notI)
  assume "matches_strict_scope_value region (ScopeList [s]) \<and> matches_strict_scope_value region (ScopeList [t])"
  then have "[s] = [t]" using strict_scope_bucket [OF s] strict_scope_bucket [OF t] by metis
  then show False using neq by simp
next
  assume "is_strict_geo_country_set codes \<and> list_ex (\<lambda>c. matches_country_scope c (ScopeList [s])) codes
    \<and> list_ex (\<lambda>c. matches_country_scope c (ScopeList [t])) codes"
  then obtain c d where "is_strict_geo_country_set codes" "c \<in> set codes" "matches_country_scope c (ScopeList [s])"
    "d \<in> set codes" "matches_country_scope d (ScopeList [t])" by (auto simp add: list_ex_iff)
  then have "{s} = {t}" using strict_country_bucket [OF _ s] strict_country_bucket [OF _ t] by metis
  then show False using neq by simp
qed

theorem strict_buckets_exclusive_witness:
  "\<not> (matches_strict_scope_value ''eu-west-1'' (ScopeList [''europe''])
      \<and> matches_strict_scope_value ''eu-west-1'' (ScopeList [''africa'']))
    \<and> \<not> (is_strict_geo_country_set [''DE''] \<and> list_ex (\<lambda>c. matches_country_scope c (ScopeList [''europe''])) [''DE'']
      \<and> list_ex (\<lambda>c. matches_country_scope c (ScopeList [''africa''])) [''DE''])"
  by (rule strict_buckets_exclusive) (simp_all add: strict_geo_bucket_scopes_def)

text \<open>
  The regions of South-East Asia are never recognised: each name that starts with \<^verbatim>\<open>ap-southeast\<close> also starts with
  \<^verbatim>\<open>ap-south\<close>, which is asked first.
\<close>

lemma southeast_asia_unreachable: "\<not> matches_strict_scope_value region (ScopeList [''asia-southeast''])"
proof
  let ?v = "lower (strip (lower (strip region)))"
  assume "matches_strict_scope_value region (ScopeList [''asia-southeast''])"
  then have "scope_strict_geo_buckets (lower (strip region)) = [''asia-southeast'']"
    by (rule strict_scope_bucket [rotated]) (simp add: strict_geo_bucket_scopes_def)
  then have "starts_any [''ap-southeast'', ''asia-southeast''] ?v" "\<not> starts_any [''ap-south'', ''asia-south''] ?v"
    by (auto simp add: scope_strict_geo_buckets_def Let_def strict_asia_pacific_buckets_def split: if_splits)
  then show False by (auto simp add: starts_any_def starts_with_iff)
qed

end
