(* ===== verification/Spec2Isabelle.thy ===== *)
theory Spec2Isabelle
  imports ProxyProps Firewall6Props TrafficProps WgPolicyProps OvpnProps WireGuard6Props ScannerClaims
    ClientIp IpRestrictionLive IpRestrictionPort OpenVpn6Props RouteLimitProps RangeIndexProps TrafficClaims TrafficStatusProps GeoProps
begin

text \<open>
  A verification development for AntiZapret-VPN with IPv6: a VPN server that sends selected names and
  networks through OpenVPN and WireGuard, with a web panel. The Python programs of the server and
  the services of the panel that decide who is connected, blocked or admitted are modelled as
  functions and step relations and proved correct.

  \<^bold>\<open>The parts and how they meet.\<close>

  \<^item> The DNS proxy (\<^verbatim>\<open>setup/root/antizapret/proxy.py\<close>) answers the names on the list with fake addresses and
    installs a DNAT rule for each. The network of the fake IPv6 addresses is computed from the
    prefix that \<^verbatim>\<open>wireguard-ipv6.py\<close> and \<^verbatim>\<open>openvpn-ipv6.py\<close> also take their client networks from.
  \<^item> The scripts \<^verbatim>\<open>firewall6-lists.py\<close>, \<^verbatim>\<open>wireguard-ipv6.py\<close> and \<^verbatim>\<open>openvpn-ipv6.py\<close> under
    \<^verbatim>\<open>setup/root/antizapret\<close> rewrite lists, client files and server configurations; they share the file
    system only.
  \<^item> The panel (\<^verbatim>\<open>setup/opt/AdminAntizapret\<close>) keeps access policies in a database
    (\<^verbatim>\<open>wg_access_policy.py\<close>, \<^verbatim>\<open>openvpn_access_policy.py\<close>) on the traffic limits of
    \<^verbatim>\<open>traffic_limit.py\<close>, and enforces them: on live WireGuard interfaces
    (\<^verbatim>\<open>wg_awg_runtime_enforcer.py\<close>, or the program \<^verbatim>\<open>wg_awg_runtime_apply.py\<close> in a subprocess), and for
    OpenVPN through a file of banned clients that the connect script consults.
  \<^item> The panel protects itself: \<^verbatim>\<open>ip_restriction.py\<close> admits the addresses of a permanent and of a
    temporary whitelist, counts the visits of others and bans them through
    \<^verbatim>\<open>scanner_firewall_store.py\<close>, filters the panel's port through \<^verbatim>\<open>panel_port_firewall.py\<close> and keeps its
    settings through \<^verbatim>\<open>env_file.py\<close>. The visitor's address comes from \<^verbatim>\<open>client_ip.py\<close>.
  \<^item> The panel also writes the lists of the networks of providers (\<^verbatim>\<open>core/services/cidr\<close>). The networks are
    taken from downloads by region, Russian ones are excluded, and a limit on the number of routes is shared
    out between the lists; an estimate of the result is shown beforehand.
  \<^item> The traffic of the clients is accounted by two programs, \<^verbatim>\<open>utils/traffic_sync.py\<close> from cron and
    \<^verbatim>\<open>core/services/traffic_persistence.py\<close> in the panel, in the same tables: the limits read the totals and the samples
    they write. \<^verbatim>\<open>traffic_maintenance.py\<close> resets them and computes the totals again from the samples.

  \<^bold>\<open>Which theory models what.\<close> In a group, the first theories hold the definitions, named after the
  functions of the source, the later ones the facts and the properties.

  \<^item> \<open>Prelude\<close>: errors as values (\<open>bindR\<close>, \<open>foldR\<close>), state-passing programs (\<open>bindP\<close>, \<open>forP\<close>), dictionaries as
    association lists. \<open>PyText\<close>, \<open>PyLines\<close>, \<open>PySort\<close>, \<open>PyTime\<close>, \<open>PyFs\<close>: the methods of \<^verbatim>\<open>str\<close>, line splitting,
    \<^verbatim>\<open>sorted\<close>, \<^verbatim>\<open>datetime\<close> and \<^verbatim>\<open>pathlib\<close> as far as they are used. \<open>PyIp\<close>, \<open>PyIpFacts\<close>: \<^verbatim>\<open>ipaddress\<close>, with the
    round trips of printed addresses and networks. \<open>Triples\<close>: triples for programs.
  \<^item> \<open>FakePool\<close> (\<^verbatim>\<open>FakeIPPool\<close>; the locale \<open>address_pool\<close> is its interface), \<open>ProxyResolver\<close>
    (\<^verbatim>\<open>ProxyResolver\<close>), \<open>ResolverFacts\<close> (the invariant \<open>res_inv\<close>), \<open>ProxyService\<close> (the running process as a
    step relation), \<open>ProxyProps\<close>.
  \<^item> \<open>Ccd\<close>, \<open>CcdFacts\<close> (client files as text), \<open>Firewall6\<close>, \<open>Firewall6Facts\<close>, \<open>Firewall6Ops\<close>,
    \<open>Firewall6Props\<close>: \<^verbatim>\<open>firewall6-lists.py\<close>.
  \<^item> \<open>WireGuard6\<close>, \<open>WireGuard6Facts\<close>, \<open>WireGuard6Plan\<close> (which lines a migration edits), \<open>WireGuard6Props\<close>:
    \<^verbatim>\<open>wireguard-ipv6.py\<close>. \<open>OpenVpn6\<close>, \<open>OpenVpn6Props\<close>: \<^verbatim>\<open>openvpn-ipv6.py\<close>.
  \<^item> \<open>TrafficLimit\<close>, \<open>TrafficProps\<close>: \<^verbatim>\<open>core/services/traffic_limit.py\<close>. \<open>WgPeers\<close>: \<^verbatim>\<open>utils/wg_config_peers.py\<close>.
    \<open>WgRuntime\<close>: \<^verbatim>\<open>utils/wg_awg_runtime_enforcer.py\<close>, \<^verbatim>\<open>wg_awg_runtime_apply.py\<close>,
    \<^verbatim>\<open>wg_runtime_subprocess.py\<close>; the locale \<open>peer_runtime\<close> is what the policy needs of any of them.
    \<open>WgPolicy\<close>, \<open>WgPolicyFacts\<close>, \<open>WgPolicyProps\<close>: \<^verbatim>\<open>core/services/wg_access_policy.py\<close>.
  \<^item> \<open>TrafficStore\<close> (the tables and the script of cron), \<open>TrafficPanel\<close> (the snapshot of the panel, scopes,
    baselines), \<open>TrafficRebuild\<close> (rebuild, reset, backfill, deletion), \<open>TrafficFacts\<close> (one client of a snapshot as three
    independent updates, which both programs compute), \<open>TrafficBooks\<close> (snapshots and baselines),
    \<open>TrafficBalance\<close> (the invariant \<open>books_balance\<close>), \<open>TrafficClaims\<close> (runs of all operations), \<open>TrafficStatus\<close>,
    \<open>TrafficStatusProps\<close> (the rows of a snapshot from the status of OpenVPN and the dump of \<^verbatim>\<open>wg\<close>): the accounting.
  \<^item> \<open>OvpnPolicy\<close>, \<open>OvpnProps\<close>: \<^verbatim>\<open>core/services/openvpn_access_policy.py\<close> and
    \<^verbatim>\<open>openvpn_banlist.py\<close>; the locale \<open>ban_store\<close> is the contract between them.
  \<^item> \<open>ScannerStore\<close>, \<open>ScannerFacts\<close> (\<open>kernel_laws\<close>), \<open>ScannerSync\<close>, \<open>ScannerDemo\<close>, \<open>ScannerProps\<close> (the locale
    \<open>record_contract\<close>), \<open>ScannerClaims\<close>: \<^verbatim>\<open>utils/scanner_firewall_store.py\<close>.
  \<^item> \<open>ClientIp\<close>, \<open>TempWhitelist\<close>, \<open>EnvFile\<close>, \<open>PanelFirewall\<close> (with the modes of publication of
    \<^verbatim>\<open>core/services/panel_publish_info.py\<close>), \<open>IpRestriction\<close>, \<open>IpRestrictionFacts\<close> (each request to the
    panel is a run of requests to the store), \<open>IpRestrictionProps\<close>, \<open>IpRestrictionLive\<close>,
    \<open>IpRestrictionSettings\<close>, \<open>IpRestrictionPort\<close>: the protection of the panel.
  \<^item> \<open>RouteLimit\<close>, \<open>RouteLimitFacts\<close> (the distribution), \<open>RouteCompress\<close> (one list), \<open>RouteLimitProps\<close>:
    \<^verbatim>\<open>cidr/route_limits.py\<close> and the estimate of \<^verbatim>\<open>cidr/db_pipeline.py\<close>. \<open>GeoScopes\<close>, \<open>GeoProps\<close>: the choice by region
    (\<^verbatim>\<open>cidr/geo.py\<close>, \<^verbatim>\<open>cidr/parsers.py\<close>) and the collection from several sources. \<open>RangeIndex\<close>,
    \<open>RangeIndexProps\<close>: \<^verbatim>\<open>cidr/antifilter.py\<close> and the exclusion of Russian networks.

  \<^bold>\<open>What is shown.\<close> Over all runs: the DNAT rules are the table of the proxy, also across clean-ups that fail
  and restarts; the prefixes routed to two clients are disjoint; policy rows are well-formed; the
  file of banned clients is the set of clients the policy blocks; the records of the scanner store
  explain the bans they hold; an admitted address is never banned; the settings of the panel
  survive a restart; an exclusion removes exactly the networks inside those of a fresh list; the
  totals of a client are the sum of its samples, whichever program wrote them, and nothing is charged twice. For single operations: what answers, blocks, unblocks, bans, synchronisations
  and changes of files do on success and on each error; that migrations are idempotent and can be
  undone; that the two programs for WireGuard and the two filters before the panel agree; that a
  persistent scanner is banned; that the limit on routes is kept and used up, mandatory providers keep a route and the
  estimate is what comes out. A few theorems state a defect of the code, such as
  \<open>long_ban_blocks_sync\<close> and \<open>southeast_asia_unreachable\<close>.

  \<^bold>\<open>Conventions and bounds.\<close>

  \<^item> A string is a list of code points below 256; the code treats all above alike in the functions
    modelled, but for white space and case outside this range. A set is a list in an order of the
    environment's choice, or a set where no order is observed. \<^verbatim>\<open>ipaddress\<close> is modelled as in Python 3.9 to
    3.12, with scope ids.
  \<^item> Instants are integers in microseconds, and the clock stands still within one operation; the proxy
    uses reals. Floats are exact: no rounding is modelled, but for the division of lengths in the distribution of
    routes and the threshold of the backfill (\<open>float_div\<close>).
  \<^item> An exception is an \<open>Inl\<close> value and does not undo the effects before it. A database session is
    the committed rows with the pending ones; commit and rollback are explicit. Locks are not
    modelled: what a lock covers is one step. The steps of the proxy are the lookup of one address and
    one round of the clean-up, so queries answered at the same time are sequences of such steps.
  \<^item> Commands (\<^verbatim>\<open>iptables\<close>, \<^verbatim>\<open>ipset\<close>, \<^verbatim>\<open>wg\<close>) are parameters. The scanner store relies on
    \<open>kernel_laws\<close>: a command that succeeds has had its effect, one that fails may or may not have had it,
    and nothing else of the kernel changes. \<open>ScannerDemo\<close> is a kernel that keeps these laws. Members of a set
    that run out by themselves are not counted.
  \<^item> A chain of symbolic links is followed 40 times (\<open>max_links\<close>), the limit of Linux; longer chains are
    an \<^verbatim>\<open>OSError\<close> as there. The store deletes a rule at most 32 times, the bound written in the source. All other
    recursion is on the data or on the rest of a text that a match shortens; the search for a free fake address ends because its offset grows. The loops of the distribution of routes
    are \<open>while_option\<close>, and \<open>route_limit_returns\<close> shows that they end.
  \<^item> A snapshot of the accounting is one step: two writers at the same instant are not modelled, but for the violated
    constraint that makes the panel read again (\<open>panel_again\<close>). Counters stay inside 64 bits.
  \<^item> A file is replaced in one step after a temporary file was written; the files of settings and of the
    panel's stores are changed in one step, their locks and temporary files are left out.

  \<^bold>\<open>Not modelled.\<close> The downloads of the lists of networks, the tables and files they go through
  (\<^verbatim>\<open>cidr/db_service.py\<close>, the pipelines) and the lists for games, the
  report on the accounting's tables, the connection to the management sockets of OpenVPN, backups, diagnostics, schedules, sessions and tokens, the
  routes and pages of the web application, and the programs in Bash and Lua: they call
  third-party libraries, render values or move data, and what the parts above need of them is an
  argument. Of the package \<^verbatim>\<open>netaddr\<close> the hypothesis
  \<open>netaddr_ok\<close> is what the code relies on. Within the parts above, log messages, texts of errors and the parsing of
  command lines are left out.
\<close>

end
